(* ===== verification/Prelude.thy ===== *)
theory Prelude
  imports Complex_Main "HOL-Library.Multiset"
begin

text \<open>
  Shared vocabulary of the development: time, results that may raise, Python's
  order-preserving idioms (deduplication, stable sorting, \<open>dict\<close> access with a
  default) and the lemmas the component theories use about them.

  Seconds are exact rationals: every finite IEEE double is one, and the code only adds,
  scales, compares and takes minima and maxima of them; rounding is not modelled.
  Python's \<open>int\<close> is unbounded and is \<^typ>\<open>int\<close> (or \<^typ>\<open>nat\<close> for counters that
  start at zero and only grow).
\<close>

section \<open>Types shared by the components\<close>

type_synonym seconds = rat

text \<open>Text whose characters are inspected beyond ASCII is a list of code points.\<close>

type_synonym ustring = "nat list"

definition codes :: "string \<Rightarrow> ustring" where
  "codes s = map of_char s"

text \<open>A call that returns or raises: \<^term>\<open>Inl e\<close> is the exception, \<^term>\<open>Inr x\<close> the value.\<close>

type_synonym ('e, 'a) result = "'e + 'a"

definition and_then :: "('e, 'a) result \<Rightarrow> ('a \<Rightarrow> ('e, 'b) result) \<Rightarrow> ('e, 'b) result" where
  "and_then r f = (case r of Inl e \<Rightarrow> Inl e | Inr x \<Rightarrow> f x)"

lemma and_then_simps [simp]:
  "and_then (Inl e) f = Inl e"
  "and_then (Inr x) f = f x"
  by (simp_all add: and_then_def)

lemma and_then_eq_Inr: "and_then r f = Inr y \<longleftrightarrow> (\<exists>x. r = Inr x \<and> f x = Inr y)"
  by (cases r) auto

lemma and_then_eq_Inl: "and_then r f = Inl e \<longleftrightarrow> r = Inl e \<or> (\<exists>x. r = Inr x \<and> f x = Inl e)"
  by (cases r) auto

section \<open>Collections of facts\<close>

named_theorems bounds_simps \<open>numeric bounds of the operations\<close>
named_theorems step_intros \<open>single-step preservation facts\<close>

section \<open>Dictionaries\<close>

text \<open>\<open>d.get(k, x)\<close> on a dictionary modelled as a partial map.\<close>

definition get_or :: "('k \<rightharpoonup> 'v) \<Rightarrow> 'k \<Rightarrow> 'v \<Rightarrow> 'v" where
  "get_or m k d = (case m k of None \<Rightarrow> d | Some v \<Rightarrow> v)"

lemma get_or_simps [simp]:
  "get_or (m(k \<mapsto> v)) k d = v"
  "k \<noteq> k' \<Longrightarrow> get_or (m(k' \<mapsto> v)) k d = get_or m k d"
  "get_or (m(k := None)) k d = d"
  "k \<noteq> k' \<Longrightarrow> get_or (m(k' := None)) k d = get_or m k d"
  "get_or Map.empty k d = d"
  by (simp_all add: get_or_def)

section \<open>First occurrences\<close>

text \<open>
  The loop \<open>for x in xs: if key(x) not in seen: seen.add(key(x)); out.append(x)\<close>,
  used by the code for chunks, citations, terms and queries alike.
\<close>

fun dedup_by :: "('a \<Rightarrow> 'k) \<Rightarrow> 'k set \<Rightarrow> 'a list \<Rightarrow> 'a list" where
  "dedup_by f seen [] = []"
| "dedup_by f seen (x # xs) =
     (if f x \<in> seen then dedup_by f seen xs
      else x # dedup_by f (insert (f x) seen) xs)"

lemma set_dedup_by_subset: "set (dedup_by f seen xs) \<subseteq> set xs"
  by (induction f seen xs rule: dedup_by.induct) auto

lemma dedup_by_keys:
  "f ` set (dedup_by f seen xs) = f ` set xs - seen"
  by (induction f seen xs rule: dedup_by.induct) auto

lemma distinct_dedup_by: "distinct (map f (dedup_by f seen xs))"
proof (induction f seen xs rule: dedup_by.induct)
  case (2 f seen x xs)
  then show ?case
    using dedup_by_keys [of f "insert (f x) seen" xs] by auto
qed simp

lemma dedup_by_id:
  assumes "distinct (map f xs)" and "f ` set xs \<inter> seen = {}"
  shows "dedup_by f seen xs = xs"
  using assms by (induction f seen xs rule: dedup_by.induct) auto

lemma dedup_by_all_seen: "f ` set xs \<subseteq> seen \<Longrightarrow> dedup_by f seen xs = []"
  by (induction f seen xs rule: dedup_by.induct) auto

lemma dedup_by_idem: "dedup_by f seen (dedup_by f seen xs) = dedup_by f seen xs"
proof (rule dedup_by_id)
  show "distinct (map f (dedup_by f seen xs))" by (rule distinct_dedup_by)
  show "f ` set (dedup_by f seen xs) \<inter> seen = {}" using dedup_by_keys [of f seen xs] by blast
qed

lemma length_dedup_by: "length (dedup_by f seen xs) \<le> length xs"
  by (induction f seen xs rule: dedup_by.induct) auto

lemma dedup_by_append:
  "dedup_by f seen (xs @ ys) = dedup_by f seen xs @ dedup_by f (seen \<union> f ` set xs) ys"
proof (induction f seen xs rule: dedup_by.induct)
  case (2 f seen x xs)
  then show ?case
    by (cases "f x \<in> seen") (simp_all add: insert_absorb)
qed simp

section \<open>Stable sorting\<close>

text \<open>
  \<open>sorted(xs, key=f)\<close> is \<^const>\<open>sort_key\<close>, which is stable. With \<open>reverse=True\<close>
  Python sorts in descending order and still keeps equal elements in their order, which
  is sorting by the negated key.
\<close>

definition sort_desc :: "('a \<Rightarrow> rat) \<Rightarrow> 'a list \<Rightarrow> 'a list" where
  "sort_desc f xs = sort_key (\<lambda>x. - f x) xs"

lemma mset_sort_desc [simp]: "mset (sort_desc f xs) = mset xs"
  by (simp add: sort_desc_def)

lemma set_sort_desc [simp]: "set (sort_desc f xs) = set xs"
  by (simp add: sort_desc_def)

lemma length_sort_desc [simp]: "length (sort_desc f xs) = length xs"
  by (simp add: sort_desc_def)

lemma sorted_sort_desc: "sorted_wrt (\<lambda>x y. f y \<le> f x) (sort_desc f xs)"
proof -
  have "sorted (map (\<lambda>x. - f x) (sort_desc f xs))"
    by (simp add: sort_desc_def)
  then show ?thesis
    by (simp add: sorted_map)
qed

text \<open>The first element of a stably sorted list that satisfies a test.\<close>

lemma hd_sort_key:
  assumes "xs \<noteq> []"
  shows "\<forall>y \<in> set xs. f (hd (sort_key f xs)) \<le> f y"
    and "hd (filter (\<lambda>y. f y = f (hd (sort_key f xs))) xs) = hd (sort_key f xs)"
proof -
  obtain z zs where z: "sort_key f xs = z # zs"
    using assms by (metis length_0_conv length_sort neq_Nil_conv)
  have "sorted (map f (z # zs))" using sorted_sort_key [of f xs] by (simp add: z)
  moreover have "set xs = set (z # zs)" by (metis set_sort z)
  ultimately show "\<forall>y \<in> set xs. f (hd (sort_key f xs)) \<le> f y" by (auto simp: z)
  have "filter (\<lambda>y. f y = f z) xs = filter (\<lambda>y. f y = f z) (sort_key f xs)"
    by (simp add: sort_key_stable)
  then show "hd (filter (\<lambda>y. f y = f (hd (sort_key f xs))) xs) = hd (sort_key f xs)"
    by (simp add: z)
qed

lemma find_filter_hd: "List.find P xs = (case filter P xs of [] \<Rightarrow> None | y # ys \<Rightarrow> Some y)"
  by (induction xs) auto

lemma find_sort_key:
  assumes "List.find P (sort_key f xs) = Some x"
  shows "\<forall>y \<in> set xs. P y \<longrightarrow> f x \<le> f y"
    and "List.find (\<lambda>y. P y \<and> f y = f x) xs = Some x"
proof -
  let ?ys = "filter P xs"
  have srt: "filter P (sort_key f xs) = sort_key f ?ys" by (rule filter_sort)
  obtain zs where zs: "sort_key f ?ys = x # zs"
    using assms unfolding find_filter_hd srt by (auto split: list.splits)
  then have ne: "?ys \<noteq> []" by auto
  show "\<forall>y \<in> set xs. P y \<longrightarrow> f x \<le> f y" using hd_sort_key(1) [OF ne, of f] by (simp add: zs)
  have hd: "hd (filter (\<lambda>y. f y = f x) ?ys) = x" using hd_sort_key(2) [OF ne, of f] by (simp add: zs)
  have "x \<in> set ?ys" using zs by (metis list.set_intros(1) set_sort)
  then have "filter (\<lambda>y. f y = f x) ?ys \<noteq> []" by (auto simp: filter_empty_conv)
  then obtain u us where us: "filter (\<lambda>y. f y = f x) ?ys = u # us"
    by (meson list.exhaust)
  with hd have "u = x" by simp
  moreover have "filter (\<lambda>y. P y \<and> f y = f x) xs = filter (\<lambda>y. f y = f x) ?ys"
    unfolding filter_filter by (rule filter_cong) auto
  ultimately show "List.find (\<lambda>y. P y \<and> f y = f x) xs = Some x"
    using us by (simp add: find_filter_hd)
qed

section \<open>Python's floor division and slices\<close>

text \<open>\<open>xs[:n]\<close> for an integer \<open>n\<close>: a negative bound counts from the end.\<close>

definition slice_to :: "int \<Rightarrow> 'a list \<Rightarrow> 'a list" where
  "slice_to n xs = (if 0 \<le> n then take (nat n) xs else take (nat (int (length xs) + n)) xs)"

lemma length_slice_to: "0 \<le> n \<Longrightarrow> length (slice_to n xs) = min (length xs) (nat n)"
  by (simp add: slice_to_def)

lemma set_slice_to: "set (slice_to n xs) \<subseteq> set xs"
  by (auto simp: slice_to_def dest: in_set_takeD)

section \<open>Counting in a list that is updated in place\<close>

lemma length_filter_update:
  assumes "i < length xs"
  shows "length (filter P (xs[i := y])) + (if P (xs ! i) then 1 else 0)
       = length (filter P xs) + (if P y then 1 else 0)"
proof -
  have "filter P xs = filter P (take i xs) @ (if P (xs ! i) then [xs ! i] else [])
      @ filter P (drop (Suc i) xs)"
    by (subst id_take_nth_drop [OF assms]) simp
  moreover have "filter P (xs[i := y]) = filter P (take i xs) @ (if P y then [y] else [])
      @ filter P (drop (Suc i) xs)"
    using assms by (simp add: upd_conv_take_nth_drop)
  ultimately show ?thesis by simp
qed

lemma length_filter_update_same:
  "i < length xs \<Longrightarrow> P y = P (xs ! i) \<Longrightarrow> length (filter P (xs[i := y])) = length (filter P xs)"
  using length_filter_update [of i xs P y] by (simp split: if_splits)

lemma map_update_same:
  "n < length xs \<Longrightarrow> f y = f (xs ! n) \<Longrightarrow> map f (xs[n := y]) = map f xs"
  by (simp add: map_update list_update_same_conv)

end
