(* ===== verification/Text.thy ===== *)
theory Text
  imports Prelude
begin

text \<open>
  The Python text operations the code uses, on code points (\<^typ>\<open>ustring\<close>): stripping and
  collapsing white space, lower-casing, substring tests, splitting, decimal and fixed-point
  formatting, and the helpers \<open>unique_strings\<close>, \<open>contains_any\<close>, \<open>first_non_empty\<close> and
  \<open>tokenize\<close> of \<open>services/agent-runtime/allcallall_agent_runtime/helpers.py\<close> and
  \<open>retrieval.py\<close>; and JSON values, for the metadata of trace events.

  \<open>str.lower\<close> is exact on ASCII, on Latin-1 and on scripts without case (the CJK text of the
  product); the case tables of other scripts are not modelled.
\<close>

section \<open>White space\<close>

text \<open>\<open>str.isspace\<close>, which is also \<open>\s\<close> of \<open>re\<close>.\<close>

definition is_space :: "nat \<Rightarrow> bool" where
  "is_space c \<longleftrightarrow>
     9 \<le> c \<and> c \<le> 13 \<or> 28 \<le> c \<and> c \<le> 32 \<or> c = 133 \<or> c = 160 \<or> c = 5760 \<or>
     8192 \<le> c \<and> c \<le> 8202 \<or> c = 8232 \<or> c = 8233 \<or> c = 8239 \<or> c = 8287 \<or> c = 12288"

definition strip :: "ustring \<Rightarrow> ustring" where
  "strip s = rev (dropWhile is_space (rev (dropWhile is_space s)))"

text \<open>\<open>re.sub(r"\s+", " ", s)\<close>.\<close>

fun squeeze_space :: "ustring \<Rightarrow> ustring" where
  "squeeze_space [] = []"
| "squeeze_space [c] = [if is_space c then 32 else c]"
| "squeeze_space (c # d # cs) =
     (if is_space c then (if is_space d then squeeze_space (d # cs) else 32 # squeeze_space (d # cs))
      else c # squeeze_space (d # cs))"

definition normalize_space :: "ustring \<Rightarrow> ustring" where
  "normalize_space s = squeeze_space (strip s)"

section \<open>Case and substrings\<close>

definition lower_code :: "nat \<Rightarrow> nat" where
  "lower_code c =
     (if 65 \<le> c \<and> c \<le> 90 \<or> 192 \<le> c \<and> c \<le> 222 \<and> c \<noteq> 215 then c + 32 else c)"

definition to_lower :: "ustring \<Rightarrow> ustring" where
  "to_lower s = map lower_code s"

fun starts_with :: "ustring \<Rightarrow> ustring \<Rightarrow> bool" where
  "starts_with [] s \<longleftrightarrow> True"
| "starts_with (p # ps) [] \<longleftrightarrow> False"
| "starts_with (p # ps) (c # cs) \<longleftrightarrow> p = c \<and> starts_with ps cs"

text \<open>The operator \<open>sub in s\<close>.\<close>

fun substring_in :: "ustring \<Rightarrow> ustring \<Rightarrow> bool" where
  "substring_in sub [] \<longleftrightarrow> sub = []"
| "substring_in sub (c # cs) \<longleftrightarrow> starts_with sub (c # cs) \<or> substring_in sub cs"

definition contains_any :: "ustring \<Rightarrow> ustring list \<Rightarrow> bool" where
  "contains_any t keywords = list_ex (\<lambda>k. substring_in (to_lower k) (to_lower t)) keywords"

section \<open>Splitting and joining\<close>

text \<open>\<open>re.split\<close> on one separator character.\<close>

fun split_chars :: "(nat \<Rightarrow> bool) \<Rightarrow> ustring \<Rightarrow> ustring list" where
  "split_chars p [] = [[]]"
| "split_chars p (c # cs) =
     (if p c then [] # split_chars p cs
      else (case split_chars p cs of [] \<Rightarrow> [[c]] | w # ws \<Rightarrow> (c # w) # ws))"

text \<open>\<open>re.split\<close> on runs of separators.\<close>

fun split_runs :: "(nat \<Rightarrow> bool) \<Rightarrow> ustring \<Rightarrow> ustring list" where
  "split_runs p [] = [[]]"
| "split_runs p [c] = (if p c then [[], []] else [[c]])"
| "split_runs p (c # d # cs) =
     (if p c then (if p d then split_runs p (d # cs) else [] # split_runs p (d # cs))
      else (case split_runs p (d # cs) of [] \<Rightarrow> [[c]] | w # ws \<Rightarrow> (c # w) # ws))"

fun join :: "ustring \<Rightarrow> ustring list \<Rightarrow> ustring" where
  "join sep [] = []"
| "join sep [p] = p"
| "join sep (p # q # ps) = p @ sep @ join sep (q # ps)"

section \<open>Numbers\<close>

fun show_nat :: "nat \<Rightarrow> ustring" where
  "show_nat n = (if n < 10 then [48 + n] else show_nat (n div 10) @ [48 + n mod 10])"

declare show_nat.simps [simp del]

definition show_int :: "int \<Rightarrow> ustring" where
  "show_int i = (if i < 0 then 45 # show_nat (nat (- i)) else show_nat (nat i))"

text \<open>The format \<open>.2f\<close>: rounds half to even on the exact value.\<close>

definition round_even :: "rat \<Rightarrow> int" where
  "round_even x =
     (let f = floor x; r = x - of_int f
      in if r < 1 / 2 then f else if r > 1 / 2 then f + 1 else if even f then f else f + 1)"

definition show_fixed2 :: "rat \<Rightarrow> ustring" where
  "show_fixed2 x =
     (let n = nat (round_even (abs x * 100))
      in (if x < 0 then [45] else []) @ show_nat (n div 100) @ [46] @
         [48 + n div 10 mod 10, 48 + n mod 10])"

section \<open>Helpers on lists of strings\<close>

definition unique_strings :: "ustring list \<Rightarrow> ustring list" where
  "unique_strings values = dedup_by id {} (filter (\<lambda>v. v \<noteq> []) (map normalize_space values))"

definition first_non_empty :: "ustring list \<Rightarrow> ustring" where
  "first_non_empty values = (case List.find (\<lambda>v. strip v \<noteq> []) values of None \<Rightarrow> [] | Some v \<Rightarrow> v)"

text \<open>A character of a token: a digit, a letter or a character of the CJK block.\<close>

definition is_token_char :: "nat \<Rightarrow> bool" where
  "is_token_char c \<longleftrightarrow>
     48 \<le> c \<and> c \<le> 57 \<or> 65 \<le> c \<and> c \<le> 90 \<or> 97 \<le> c \<and> c \<le> 122 \<or> 19968 \<le> c \<and> c \<le> 40959"

definition tokenize :: "ustring \<Rightarrow> ustring list" where
  "tokenize t =
     dedup_by id {}
       (filter (\<lambda>w. 2 \<le> length w) (map strip (split_runs (\<lambda>c. \<not> is_token_char c) (to_lower t))))"

section \<open>JSON values\<close>

text \<open>
  Values are any text; the keys of an object, most of which the code writes and looks up itself, are strings of 8-bit
  characters, so that an object with a key outside of them is not in the model.
\<close>

datatype json =
    JNull
  | JBool bool
  | JInt int
  | JNum rat
  | JStr ustring
  | JList "json list"
  | JObj "(string \<times> json) list"

type_synonym json_object = "(string \<times> json) list"

definition jstr :: "string \<Rightarrow> json" where
  "jstr s = JStr (codes s)"

definition jlen :: "'a list \<Rightarrow> json" where
  "jlen xs = JInt (int (length xs))"

definition jstrs :: "string list \<Rightarrow> json" where
  "jstrs ss = JList (map jstr ss)"

definition jtexts :: "ustring list \<Rightarrow> json" where
  "jtexts ss = JList (map JStr ss)"

section \<open>Lemmas\<close>

lemma set_dedup_by_id: "set (dedup_by id S xs) = set xs - S"
  using dedup_by_keys [of id S xs] by simp

lemma set_unique_strings: "set (unique_strings vs) = normalize_space ` set vs - {[]}"
  by (auto simp: unique_strings_def set_dedup_by_id)

lemma distinct_unique_strings [simp]: "distinct (unique_strings vs)"
  using distinct_dedup_by [of id "{}"] by (simp add: unique_strings_def)

lemma unique_strings_non_empty: "v \<in> set (unique_strings vs) \<Longrightarrow> v \<noteq> []"
  by (simp add: set_unique_strings)

lemma is_space_32 [simp]: "is_space 32"
  by (simp add: is_space_def)

lemma first_non_empty_append:
  "strip (first_non_empty xs) \<noteq> [] \<Longrightarrow> first_non_empty (xs @ ys) = first_non_empty xs"
proof -
  have "List.find p (xs @ ys) = (case List.find p xs of None \<Rightarrow> List.find p ys | Some x \<Rightarrow> Some x)"
    for p by (induction xs) auto
  moreover assume "strip (first_non_empty xs) \<noteq> []"
  ultimately show ?thesis
    by (auto simp: first_non_empty_def strip_def split: option.splits)
qed

lemma first_non_empty_cons:
  "first_non_empty (x # xs) = (if strip x \<noteq> [] then x else first_non_empty xs)"
  by (simp add: first_non_empty_def)

lemma distinct_tokenize [simp]: "distinct (tokenize t)"
  using distinct_dedup_by [of id "{}"] by (simp add: tokenize_def)

lemma squeeze_space_empty [simp]: "squeeze_space s = [] \<longleftrightarrow> s = []"
  by (induction s rule: squeeze_space.induct) auto

lemma squeeze_space_idem: "squeeze_space (squeeze_space s) = squeeze_space s"
proof (induction s rule: squeeze_space.induct)
  case (3 c d cs)
  obtain e es where e: "squeeze_space (d # cs) = e # es" 
    by (cases "squeeze_space (d # cs)") auto
  have hd: "\<not> is_space d \<Longrightarrow> e = d" using e by (cases cs) auto
  show ?case using 3 e hd by auto
qed auto

end
