(* ===== verification/AgentModels.thy ===== *)
theory AgentModels
  imports Text
begin

text \<open>
  The data model of the agent runtime: the pydantic models of
  \<open>services/agent-runtime/allcallall_agent_runtime/models/\<close> the graph nodes read and write, and
  the graph state of \<open>state.py\<close>.

  A field keeps its name behind a short prefix. For every class \<open>c0\<close> builds an instance from the
  required fields, the others at their defaults. Text that people or models write is
  \<^typ>\<open>ustring\<close>; identifiers and closed vocabularies are \<^typ>\<open>string\<close>. A key of the
  \<open>TypedDict\<close> that may be absent is an option. Handles the state carries (provider, bridge, RAG
  client, retrieval cache, cancellation event) are arguments of the nodes that use them; the
  \<open>context_manifest\<close> of the request is only accounted by the backend and is left out.
\<close>

section \<open>Enumerations\<close>

datatype termination_trigger =
    GoalAchieved | ConfidencePlateau | CheckagentEarlyStop | MaxIterations | CitationSatisfied | ToolError

datatype check_decision = Pass | Revise | Escalate

fun trigger_value :: "termination_trigger \<Rightarrow> string" where
  "trigger_value GoalAchieved = ''goal_achieved''"
| "trigger_value ConfidencePlateau = ''confidence_plateau''"
| "trigger_value CheckagentEarlyStop = ''checkagent_early_stop''"
| "trigger_value MaxIterations = ''max_iterations''"
| "trigger_value CitationSatisfied = ''citation_satisfied''"
| "trigger_value ToolError = ''tool_error''"

fun decision_value :: "check_decision \<Rightarrow> string" where
  "decision_value Pass = ''pass''"
| "decision_value Revise = ''revise''"
| "decision_value Escalate = ''escalate''"

lemma decision_value_eq [simp]: "decision_value a = decision_value b \<longleftrightarrow> a = b"
  by (cases a; cases b) simp_all

section \<open>Records\<close>

record trace_event =
  ev_event :: string
  ev_node :: string
  ev_role :: string
  ev_status :: string
  ev_iteration :: "int option"
  ev_thought :: ustring
  ev_tool_name :: string
  ev_tool_input :: json_object
  ev_observation :: ustring
  ev_metadata :: json_object

definition trace_event0 :: "string \<Rightarrow> string \<Rightarrow> trace_event" where
  "trace_event0 a_event a_node =
    \<lparr>ev_event = a_event, ev_node = a_node, ev_role = '''', ev_status = ''completed'',
     ev_iteration = None, ev_thought = [], ev_tool_name = '''', ev_tool_input = [],
     ev_observation = [], ev_metadata = []\<rparr>"

record citation =
  cit_chunk_id :: string
  cit_source_type :: string
  cit_source_id :: string
  cit_source_title :: ustring
  cit_title :: ustring
  cit_snippet :: ustring
  cit_score :: int
  cit_retrieval_mode :: string
  cit_rerank_score :: rat
  cit_rerank_reason :: ustring
  cit_final_rank :: int
  cit_recording_session_id :: "int option"
  cit_recording_file_id :: "int option"
  cit_transcript_segment_id :: "int option"
  cit_start_ms :: "int option"
  cit_end_ms :: "int option"

definition citation0 :: "string \<Rightarrow> string \<Rightarrow> ustring \<Rightarrow> citation" where
  "citation0 a_source_type a_source_id a_snippet =
    \<lparr>cit_chunk_id = '''', cit_source_type = a_source_type, cit_source_id = a_source_id,
     cit_source_title = [], cit_title = [], cit_snippet = a_snippet, cit_score = 0,
     cit_retrieval_mode = '''', cit_rerank_score = 0, cit_rerank_reason = [],
     cit_final_rank = 0, cit_recording_session_id = None, cit_recording_file_id = None,
     cit_transcript_segment_id = None, cit_start_ms = None, cit_end_ms = None\<rparr>"

record context_chunk =
  ck_chunk_id :: string
  ck_source_type :: string
  ck_source_id :: string
  ck_source_title :: ustring
  ck_title :: ustring
  ck_snippet :: ustring
  ck_score :: int
  ck_retrieval_mode :: string
  ck_bm25_rank :: int
  ck_vector_rank :: int
  ck_rrf_score :: rat
  ck_bm25_score :: rat
  ck_vector_score :: rat
  ck_rerank_score :: rat
  ck_rerank_reason :: ustring
  ck_final_rank :: int
  ck_recording_session_id :: "int option"
  ck_recording_file_id :: "int option"
  ck_transcript_segment_id :: "int option"
  ck_start_ms :: "int option"
  ck_end_ms :: "int option"

definition context_chunk0 :: "string \<Rightarrow> string \<Rightarrow> ustring \<Rightarrow> context_chunk" where
  "context_chunk0 a_source_type a_source_id a_snippet =
    \<lparr>ck_chunk_id = '''', ck_source_type = a_source_type, ck_source_id = a_source_id,
     ck_source_title = [], ck_title = [], ck_snippet = a_snippet, ck_score = 0,
     ck_retrieval_mode = '''', ck_bm25_rank = 0, ck_vector_rank = 0, ck_rrf_score = 0,
     ck_bm25_score = 0, ck_vector_score = 0, ck_rerank_score = 0, ck_rerank_reason = [],
     ck_final_rank = 0, ck_recording_session_id = None, ck_recording_file_id = None,
     ck_transcript_segment_id = None, ck_start_ms = None, ck_end_ms = None\<rparr>"

record plan_step =
  ps_step :: int
  ps_query :: ustring
  ps_source_scope :: string
  ps_tool_name :: string
  ps_rationale :: ustring
  ps_strategy :: string
  ps_expanded_terms :: "ustring list"

definition plan_step0 :: "int \<Rightarrow> ustring \<Rightarrow> plan_step" where
  "plan_step0 a_step a_query =
    \<lparr>ps_step = a_step, ps_query = a_query, ps_source_scope = ''all'',
     ps_tool_name = ''query_context_chunks'', ps_rationale = [], ps_strategy = ''adaptive'',
     ps_expanded_terms = []\<rparr>"

record intent_route =
  ir_intent :: string
  ir_target_workflow :: string
  ir_confidence :: rat
  ir_rationale :: string
  ir_required_source_types :: "string list"
  ir_retrieval_strategy :: string

definition intent_route0 :: "intent_route" where
  "intent_route0 =
    \<lparr>ir_intent = ''chat'', ir_target_workflow = '''', ir_confidence = 0, ir_rationale = '''',
     ir_required_source_types = [], ir_retrieval_strategy = ''adaptive''\<rparr>"

record graph_edge =
  ge_edge_id :: string
  ge_source :: ustring
  ge_relation :: string
  ge_target :: ustring
  ge_evidence_chunk_id :: string
  ge_confidence :: rat

definition graph_edge0 :: "string \<Rightarrow> ustring \<Rightarrow> string \<Rightarrow> ustring \<Rightarrow> graph_edge" where
  "graph_edge0 a_edge_id a_source a_relation a_target =
    \<lparr>ge_edge_id = a_edge_id, ge_source = a_source, ge_relation = a_relation,
     ge_target = a_target, ge_evidence_chunk_id = '''', ge_confidence = 0\<rparr>"

record graph_expansion =
  gx_enabled :: bool
  gx_query_terms :: "ustring list"
  gx_expanded_terms :: "ustring list"
  gx_edges :: "graph_edge list"

definition graph_expansion0 :: "graph_expansion" where
  "graph_expansion0 =
    \<lparr>gx_enabled = False, gx_query_terms = [], gx_expanded_terms = [], gx_edges = []\<rparr>"

record retrieval_plan =
  rp_enabled :: bool
  rp_max_steps :: int
  rp_min_confidence :: rat
  rp_steps :: "plan_step list"
  rp_intent_route :: intent_route
  rp_graph_expansion :: graph_expansion

definition retrieval_plan0 :: "retrieval_plan" where
  "retrieval_plan0 =
    \<lparr>rp_enabled = False, rp_max_steps = 3, rp_min_confidence = 6 / 10, rp_steps = [],
     rp_intent_route = intent_route0, rp_graph_expansion = graph_expansion0\<rparr>"

record retrieval_attempt =
  ra_step :: int
  ra_query :: ustring
  ra_tool_name :: string
  ra_source_scope :: string
  ra_hit_count :: int
  ra_source_types :: "string list"
  ra_selected_chunk_ids :: "string list"
  ra_observation :: ustring
  ra_refined :: bool
  ra_confidence :: rat
  ra_strategy :: string
  ra_expanded_terms :: "ustring list"
  ra_graph_edge_ids :: "string list"

definition retrieval_attempt0 :: "int \<Rightarrow> ustring \<Rightarrow> string \<Rightarrow> retrieval_attempt" where
  "retrieval_attempt0 a_step a_query a_tool_name =
    \<lparr>ra_step = a_step, ra_query = a_query, ra_tool_name = a_tool_name,
     ra_source_scope = ''all'', ra_hit_count = 0, ra_source_types = [],
     ra_selected_chunk_ids = [], ra_observation = [], ra_refined = False, ra_confidence = 0,
     ra_strategy = '''', ra_expanded_terms = [], ra_graph_edge_ids = []\<rparr>"

record tool_proposal =
  tp_tool_call_id :: string
  tp_tool_name :: string
  tp_arguments :: json_object
  tp_reason :: ustring
  tp_idempotency_key :: string
  tp_approval_required :: bool
  tp_execution_mode :: string
  tp_queue_name :: string
  tp_priority :: string
  tp_max_attempts :: int
  tp_rate_limit_key :: string
  tp_dead_letter_queue :: string
  tp_mcp_installation_id :: int
  tp_mcp_revision_id :: int
  tp_mcp_tool_id :: int

definition tool_proposal0 :: "string \<Rightarrow> tool_proposal" where
  "tool_proposal0 a_tool_name =
    \<lparr>tp_tool_call_id = '''', tp_tool_name = a_tool_name, tp_arguments = [], tp_reason = [],
     tp_idempotency_key = '''', tp_approval_required = True,
     tp_execution_mode = ''async_after_approval'', tp_queue_name = ''agent_writebacks'',
     tp_priority = ''normal'', tp_max_attempts = 3, tp_rate_limit_key = '''',
     tp_dead_letter_queue = ''agent_writebacks_dead_letter'', tp_mcp_installation_id = 0,
     tp_mcp_revision_id = 0, tp_mcp_tool_id = 0\<rparr>"

record termination_signal =
  ts_triggered :: bool
  ts_trigger :: "termination_trigger option"
  ts_reason :: ustring
  ts_goal_score :: rat
  ts_confidence_at_exit :: rat
  ts_confidence_history :: "rat list"
  ts_iterations_used :: int
  ts_iterations_saved :: int
  ts_citations_found :: int

definition termination_signal0 :: "termination_signal" where
  "termination_signal0 =
    \<lparr>ts_triggered = False, ts_trigger = None, ts_reason = [], ts_goal_score = 0,
     ts_confidence_at_exit = 0, ts_confidence_history = [], ts_iterations_used = 0,
     ts_iterations_saved = 0, ts_citations_found = 0\<rparr>"

record critic_result =
  cr_passed :: bool
  cr_issues :: "string list"
  cr_citation_coverage :: rat
  cr_budget_respected :: bool
  cr_write_proposal_safe :: bool
  cr_grounding_passed :: bool
  cr_context_sufficient :: bool

definition critic_result0 :: "critic_result" where
  "critic_result0 =
    \<lparr>cr_passed = True, cr_issues = [], cr_citation_coverage = 0, cr_budget_respected = True,
     cr_write_proposal_safe = True, cr_grounding_passed = True, cr_context_sufficient = True\<rparr>"

record role_result =
  rr_role :: string
  rr_summary :: ustring
  rr_action_items :: "ustring list"
  rr_next_step :: ustring
  rr_risk_flags :: "ustring list"
  rr_citations :: "citation list"
  rr_snippets :: "ustring list"
  rr_react_trace :: "trace_event list"
  rr_termination_signal :: "termination_signal option"

definition role_result0 :: "string \<Rightarrow> role_result" where
  "role_result0 a_role =
    \<lparr>rr_role = a_role, rr_summary = [], rr_action_items = [], rr_next_step = [],
     rr_risk_flags = [], rr_citations = [], rr_snippets = [], rr_react_trace = [],
     rr_termination_signal = None\<rparr>"

record check_outcome =
  co_agent :: string
  co_decision :: check_decision
  co_rationale :: ustring
  co_score :: rat

definition check_outcome0 :: "string \<Rightarrow> check_decision \<Rightarrow> ustring \<Rightarrow> check_outcome" where
  "check_outcome0 a_agent a_decision a_rationale =
    \<lparr>co_agent = a_agent, co_decision = a_decision, co_rationale = a_rationale, co_score = 0\<rparr>"

record output_decision =
  od_final_verdict :: string
  od_l1_decision :: string
  od_l2_decision :: string
  od_revision_count :: int
  od_quality_trend :: "string list"
  od_confidence_trajectory :: "rat list"
  od_check_log :: "check_outcome list"
  od_total_review_cycles :: int
  od_rationale :: ustring

definition output_decision0 :: "output_decision" where
  "output_decision0 =
    \<lparr>od_final_verdict = ''accept'', od_l1_decision = '''', od_l2_decision = '''',
     od_revision_count = 0, od_quality_trend = [], od_confidence_trajectory = [],
     od_check_log = [], od_total_review_cycles = 1, od_rationale = []\<rparr>"

record evidence_pack =
  ep_selected_chunk_ids :: "string list"
  ep_rejected_count :: int
  ep_confidence :: rat
  ep_source_types :: "string list"
  ep_snippets :: "ustring list"
  ep_citations :: "citation list"
  ep_route_intent :: string
  ep_coverage :: rat
  ep_graph_edges :: "graph_edge list"

definition evidence_pack0 :: "evidence_pack" where
  "evidence_pack0 =
    \<lparr>ep_selected_chunk_ids = [], ep_rejected_count = 0, ep_confidence = 0,
     ep_source_types = [], ep_snippets = [], ep_citations = [], ep_route_intent = '''',
     ep_coverage = 0, ep_graph_edges = []\<rparr>"

record context_sufficiency =
  cs_sufficient :: bool
  cs_confidence :: rat
  cs_reason :: ustring
  cs_missing_info :: "string list"

definition context_sufficiency0 :: "context_sufficiency" where
  "context_sufficiency0 =
    \<lparr>cs_sufficient = True, cs_confidence = 1, cs_reason = [], cs_missing_info = []\<rparr>"

record memory_reflection =
  mr_conversation_summary :: ustring
  mr_key_insights :: "ustring list"
  mr_risk_lessons :: "ustring list"
  mr_reinforcement_queries :: "ustring list"
  mr_memory_write_recommended :: bool
  mr_reason :: ustring

definition memory_reflection0 :: "memory_reflection" where
  "memory_reflection0 =
    \<lparr>mr_conversation_summary = [], mr_key_insights = [], mr_risk_lessons = [],
     mr_reinforcement_queries = [], mr_memory_write_recommended = False, mr_reason = []\<rparr>"

record risk_assessment =
  ka_severity :: string
  ka_categories :: "string list"
  ka_flags :: "ustring list"
  ka_requires_human_review :: bool
  ka_guardrails :: "ustring list"

definition risk_assessment0 :: "risk_assessment" where
  "risk_assessment0 =
    \<lparr>ka_severity = ''none'', ka_categories = [], ka_flags = [],
     ka_requires_human_review = False, ka_guardrails = []\<rparr>"

record approval_decision =
  ad_tool_call_id :: string
  ad_decision :: string

definition approval_decision0 :: "string \<Rightarrow> string \<Rightarrow> approval_decision" where
  "approval_decision0 a_tool_call_id a_decision =
    \<lparr>ad_tool_call_id = a_tool_call_id, ad_decision = a_decision\<rparr>"

record conversation_message =
  cm_id :: int
  cm_sender_id :: int
  cm_body :: ustring
  cm_created_at :: "string option"

definition conversation_message0 :: "conversation_message" where
  "conversation_message0 =
    \<lparr>cm_id = 0, cm_sender_id = 0, cm_body = [], cm_created_at = None\<rparr>"

record conversation_note =
  cn_id :: int
  cn_author_id :: int
  cn_body :: ustring
  cn_created_at :: "string option"

definition conversation_note0 :: "conversation_note" where
  "conversation_note0 =
    \<lparr>cn_id = 0, cn_author_id = 0, cn_body = [], cn_created_at = None\<rparr>"

record transcript_segment =
  mt_id :: int
  mt_recording_session_id :: int
  mt_recording_file_id :: int
  mt_start_ms :: int
  mt_end_ms :: int
  mt_text :: ustring
  mt_speaker :: ustring

definition transcript_segment0 :: "transcript_segment" where
  "transcript_segment0 =
    \<lparr>mt_id = 0, mt_recording_session_id = 0, mt_recording_file_id = 0, mt_start_ms = 0,
     mt_end_ms = 0, mt_text = [], mt_speaker = []\<rparr>"

record attachment =
  at_attachment_id :: string
  at_modality :: string
  at_filename :: ustring
  at_mime_type :: string
  at_size_bytes :: int
  at_uri :: string
  at_description :: ustring
  at_extracted_text :: ustring
  at_ocr_text :: ustring
  at_caption_text :: ustring
  at_transcript_text :: ustring
  at_metadata :: json_object

definition attachment0 :: "attachment" where
  "attachment0 =
    \<lparr>at_attachment_id = '''', at_modality = ''file'', at_filename = [], at_mime_type = '''',
     at_size_bytes = 0, at_uri = '''', at_description = [], at_extracted_text = [],
     at_ocr_text = [], at_caption_text = [], at_transcript_text = [], at_metadata = []\<rparr>"

record tool_policy =
  pol_read_tools :: "string list"
  pol_write_tools :: "string list"

definition tool_policy0 :: "tool_policy" where
  "tool_policy0 =
    \<lparr>pol_read_tools = [], pol_write_tools = []\<rparr>"

record rag_config =
  rc_enabled :: bool
  rc_max_steps :: int
  rc_allowed_source_types :: "string list"
  rc_min_confidence :: rat

definition rag_config0 :: "rag_config" where
  "rag_config0 =
    \<lparr>rc_enabled = False, rc_max_steps = 3,
     rc_allowed_source_types = [''meeting_transcript'', ''knowledge'', ''conversation'', ''message'', ''note'', ''followup'', ''memory'', ''contact_profile''],
     rc_min_confidence = 6 / 10\<rparr>"

record workflow_request =
  rq_request_id :: string
  rq_execution_id :: string
  rq_expected_checkpoint_version :: int
  rq_tool_capability :: string
  rq_organization_id :: int
  rq_user_id :: int
  rq_conversation_id :: int
  rq_agent_run_id :: int
  rq_workflow_run_id :: int
  rq_preset :: string
  rq_goal :: ustring
  rq_messages :: "conversation_message list"
  rq_notes :: "conversation_note list"
  rq_meeting_transcripts :: "transcript_segment list"
  rq_context_chunks :: "context_chunk list"
  rq_attachments :: "attachment list"
  rq_tool_policy :: tool_policy
  rq_max_iterations :: "(string \<times> int) list"
  rq_agentic_rag :: rag_config
  rq_model_history :: ustring
  rq_long_term_memory :: "ustring list"
  rq_retrieval_mode :: string
  rq_context_fingerprint :: string
  rq_corpus_version :: string

definition workflow_request0 :: "int \<Rightarrow> int \<Rightarrow> int \<Rightarrow> int \<Rightarrow> ustring \<Rightarrow> workflow_request" where
  "workflow_request0 a_organization_id a_user_id a_conversation_id a_workflow_run_id a_goal =
    \<lparr>rq_request_id = '''', rq_execution_id = '''', rq_expected_checkpoint_version = 0,
     rq_tool_capability = '''', rq_organization_id = a_organization_id,
     rq_user_id = a_user_id, rq_conversation_id = a_conversation_id, rq_agent_run_id = 0,
     rq_workflow_run_id = a_workflow_run_id, rq_preset = ''meeting_brief'', rq_goal = a_goal,
     rq_messages = [], rq_notes = [], rq_meeting_transcripts = [], rq_context_chunks = [],
     rq_attachments = [], rq_tool_policy = tool_policy0, rq_max_iterations = [],
     rq_agentic_rag = rag_config0, rq_model_history = [], rq_long_term_memory = [],
     rq_retrieval_mode = ''hybrid'', rq_context_fingerprint = '''', rq_corpus_version = ''''\<rparr>"

record role_allocation =
  al_roles :: "string list"
  al_parallel_groups :: "string list list"
  al_skip_roles :: "string list"
  al_required_roles :: "string list"
  al_rationale :: ustring
  al_complexity :: string

definition role_allocation0 :: "role_allocation" where
  "role_allocation0 =
    \<lparr>al_roles = [], al_parallel_groups = [], al_skip_roles = [], al_required_roles = [],
     al_rationale = [], al_complexity = ''simple''\<rparr>"

section \<open>The graph state\<close>

record grounding_summary =
  gs_grounded :: bool
  gs_unsupported_claims :: "ustring list"

record graph_state =
  st_request :: workflow_request
  st_trace_events :: "trace_event list option"
  st_role_results :: "role_result list option"
  st_agentic_rag_enabled :: "bool option"
  st_intent_route :: "intent_route option"
  st_graph_expansion :: "graph_expansion option"
  st_retrieval_plan :: "retrieval_plan option"
  st_retrieval_attempts :: "retrieval_attempt list option"
  st_agentic_context_chunks :: "context_chunk list option"
  st_retrieved_context_chunks :: "context_chunk list option"
  st_reranked_context_chunks :: "context_chunk list option"
  st_evidence_pack :: "evidence_pack option"
  st_context_sufficiency :: "context_sufficiency option"
  st_searcher :: "role_result option"
  st_memory_agent :: "role_result option"
  st_summarizer :: "role_result option"
  st_risk_analyst :: "role_result option"
  st_risk_assessment :: "risk_assessment option"
  st_memory_reflection :: "memory_reflection option"
  st_summary :: "ustring option"
  st_action_items :: "ustring list option"
  st_next_step :: "ustring option"
  st_risk_flags :: "ustring list option"
  st_citations :: "citation list option"
  st_proposed_tool_calls :: "tool_proposal list option"
  st_approval_decisions :: "approval_decision list option"
  st_prompt_version :: "string option"
  st_grounding :: "grounding_summary option"
  st_critic_result :: "critic_result option"
  st_critic_retries :: "int option"
  st_last_check_decision :: "string option"
  st_check_log :: "check_outcome list option"
  st_role_allocation :: "role_allocation option"
  st_output_decision :: "output_decision option"
  st_skill_instructions :: "ustring option"
  st_long_term_memory :: "ustring list option"
  st_unresolved_approval :: "bool option"
  st_safety_blocked :: "bool option"

text \<open>A state with no key but the request.\<close>

definition graph_state0 :: "workflow_request \<Rightarrow> graph_state" where
  "graph_state0 r =
    \<lparr>st_request = r, st_trace_events = None, st_role_results = None,
     st_agentic_rag_enabled = None, st_intent_route = None, st_graph_expansion = None,
     st_retrieval_plan = None, st_retrieval_attempts = None, st_agentic_context_chunks = None,
     st_retrieved_context_chunks = None, st_reranked_context_chunks = None,
     st_evidence_pack = None, st_context_sufficiency = None, st_searcher = None,
     st_memory_agent = None, st_summarizer = None, st_risk_analyst = None,
     st_risk_assessment = None, st_memory_reflection = None, st_summary = None,
     st_action_items = None, st_next_step = None, st_risk_flags = None, st_citations = None,
     st_proposed_tool_calls = None, st_approval_decisions = None, st_prompt_version = None,
     st_grounding = None, st_critic_result = None, st_critic_retries = None,
     st_last_check_decision = None, st_check_log = None, st_role_allocation = None,
     st_output_decision = None, st_skill_instructions = None, st_long_term_memory = None,
     st_unresolved_approval = None, st_safety_blocked = None\<rparr>"

text \<open>\<open>state.get(key, default)\<close>, and appending to the running trace.\<close>

definition opt_or :: "'a option \<Rightarrow> 'a \<Rightarrow> 'a" where
  "opt_or x d = (case x of None \<Rightarrow> d | Some y \<Rightarrow> y)"

lemma opt_or_simps [simp]: "opt_or None d = d" "opt_or (Some y) d = y"
  by (simp_all add: opt_or_def)

definition add_trace :: "trace_event list \<Rightarrow> graph_state \<Rightarrow> graph_state" where
  "add_trace evs s = s\<lparr>st_trace_events := Some (opt_or (st_trace_events s) [] @ evs)\<rparr>"

definition node_started :: "string \<Rightarrow> trace_event" where
  "node_started n = (trace_event0 ''graph.node.started'' n)\<lparr>ev_status := ''running''\<rparr>"

definition node_completed :: "string \<Rightarrow> trace_event" where
  "node_completed n = trace_event0 ''graph.node.completed'' n"

text \<open>Adding trace events changes no other key.\<close>

lemma add_trace_simps [simp]:
  "st_request (add_trace evs s) = st_request s"
  "st_role_results (add_trace evs s) = st_role_results s"
  "st_agentic_rag_enabled (add_trace evs s) = st_agentic_rag_enabled s"
  "st_intent_route (add_trace evs s) = st_intent_route s"
  "st_graph_expansion (add_trace evs s) = st_graph_expansion s"
  "st_retrieval_plan (add_trace evs s) = st_retrieval_plan s"
  "st_retrieval_attempts (add_trace evs s) = st_retrieval_attempts s"
  "st_agentic_context_chunks (add_trace evs s) = st_agentic_context_chunks s"
  "st_retrieved_context_chunks (add_trace evs s) = st_retrieved_context_chunks s"
  "st_reranked_context_chunks (add_trace evs s) = st_reranked_context_chunks s"
  "st_evidence_pack (add_trace evs s) = st_evidence_pack s"
  "st_context_sufficiency (add_trace evs s) = st_context_sufficiency s"
  "st_searcher (add_trace evs s) = st_searcher s"
  "st_memory_agent (add_trace evs s) = st_memory_agent s"
  "st_summarizer (add_trace evs s) = st_summarizer s"
  "st_risk_analyst (add_trace evs s) = st_risk_analyst s"
  "st_risk_assessment (add_trace evs s) = st_risk_assessment s"
  "st_memory_reflection (add_trace evs s) = st_memory_reflection s"
  "st_summary (add_trace evs s) = st_summary s"
  "st_action_items (add_trace evs s) = st_action_items s"
  "st_next_step (add_trace evs s) = st_next_step s"
  "st_risk_flags (add_trace evs s) = st_risk_flags s"
  "st_citations (add_trace evs s) = st_citations s"
  "st_proposed_tool_calls (add_trace evs s) = st_proposed_tool_calls s"
  "st_approval_decisions (add_trace evs s) = st_approval_decisions s"
  "st_prompt_version (add_trace evs s) = st_prompt_version s"
  "st_grounding (add_trace evs s) = st_grounding s"
  "st_critic_result (add_trace evs s) = st_critic_result s"
  "st_critic_retries (add_trace evs s) = st_critic_retries s"
  "st_last_check_decision (add_trace evs s) = st_last_check_decision s"
  "st_check_log (add_trace evs s) = st_check_log s"
  "st_role_allocation (add_trace evs s) = st_role_allocation s"
  "st_output_decision (add_trace evs s) = st_output_decision s"
  "st_skill_instructions (add_trace evs s) = st_skill_instructions s"
  "st_long_term_memory (add_trace evs s) = st_long_term_memory s"
  "st_unresolved_approval (add_trace evs s) = st_unresolved_approval s"
  "st_safety_blocked (add_trace evs s) = st_safety_blocked s"
  by (simp_all add: add_trace_def)

end
