(* ===== verification/Compression.thy ===== *)
theory Compression
  imports Text
begin

text \<open>
  \<open>services/agent-runtime/allcallall_agent_runtime/context_compression.py\<close>: the token estimate,
  the two compression strategies of \<open>build_model_history\<close> and the in-process long-term memory.

  Text is a list of code points (\<^typ>\<open>ustring\<close>), because the estimate distinguishes the CJK
  block. An injected summarizer is a parameter. The SQLite memory is in \<open>LongTermMemory\<close>.
\<close>

section \<open>The token estimate\<close>

text \<open>\<open>ord\<close> of the first and last character of the block, U+4E00 and U+9FFF.\<close>

definition is_cjk :: "nat \<Rightarrow> bool" where
  "is_cjk ch \<longleftrightarrow> 19968 \<le> ch \<and> ch \<le> 40959"

definition estimate_tokens :: "ustring \<Rightarrow> nat" where
  "estimate_tokens t =
     (if t = [] then 0
      else let cjk = length (filter is_cjk t); other = length t - cjk
           in max 1 (cjk + other div 3))"

section \<open>Turns\<close>

record turn =
  role :: ustring
  content :: ustring

text \<open>The f-string \<open>[role]: content\<close>.\<close>

definition render_turn :: "turn \<Rightarrow> ustring" where
  "render_turn t = codes ''['' @ role t @ codes '']: '' @ content t"

section \<open>The summary strategy\<close>

text \<open>The separator is a space, U+2026 and a space.\<close>

definition ellipsis :: ustring where
  "ellipsis = codes '' '' @ [8230] @ codes '' ''"

text \<open>The trimming loop: three quarters of the length at a time, never below ten characters.\<close>

function trim_to_budget :: "int \<Rightarrow> ustring \<Rightarrow> ustring" where
  "trim_to_budget max_tokens summary =
     (if max_tokens < int (estimate_tokens summary) \<and> 10 < length summary
      then trim_to_budget max_tokens (take (max 10 (length summary * 3 div 4)) summary)
      else summary)"
  by auto
termination
  by (relation "measure (\<lambda>(_, s). length s)") auto

declare trim_to_budget.simps [simp del]

definition extractive_summary :: "turn list \<Rightarrow> int \<Rightarrow> ustring" where
  "extractive_summary turns max_tokens =
     (if turns = [] then []
      else let parts = render_turn (hd turns) #
                 (if 1 < length turns then [render_turn (last turns)] else [])
           in trim_to_budget max_tokens (join ellipsis parts))"

definition compress_summary :: "turn list \<Rightarrow> int \<Rightarrow> (turn list \<Rightarrow> ustring) option \<Rightarrow> ustring" where
  "compress_summary turns budget summarizer =
     (case summarizer of Some f \<Rightarrow> f turns | None \<Rightarrow> extractive_summary turns budget)"

section \<open>The full strategy\<close>

definition turn_cost :: "turn \<Rightarrow> int" where
  "turn_cost t = int (estimate_tokens (content t)) + 2"

text \<open>The loop over the reversed turns: \<open>selected\<close> grows at the front until a turn does not fit.\<close>

fun select_recent :: "int \<Rightarrow> turn list \<Rightarrow> int \<Rightarrow> turn list \<Rightarrow> turn list" where
  "select_recent budget selected used [] = selected"
| "select_recent budget selected used (t # ts) =
     (if selected \<noteq> [] \<and> budget < used + turn_cost t then selected
      else select_recent budget (t # selected) (used + turn_cost t) ts)"

definition compress_full :: "turn list \<Rightarrow> int \<Rightarrow> ustring" where
  "compress_full turns budget =
     join [10] (map render_turn (select_recent budget [] 0 (rev turns)))"

datatype history_error = UnknownStrategy string

definition build_model_history ::
  "turn list \<Rightarrow> string \<Rightarrow> int \<Rightarrow> (turn list \<Rightarrow> ustring) option \<Rightarrow> (history_error, ustring) result" where
  "build_model_history turns strategy max_tokens summarizer =
     (if turns = [] then Inr []
      else if strategy = ''summary'' then Inr (compress_summary turns max_tokens summarizer)
      else if strategy = ''full'' then Inr (compress_full turns max_tokens)
      else Inl (UnknownStrategy strategy))"

section \<open>The in-process long-term memory\<close>

text \<open>A Python \<open>dict\<close>: a key that is stored again keeps its place.\<close>

type_synonym memory = "(string \<times> ustring) list"

fun put :: "string \<Rightarrow> ustring \<Rightarrow> memory \<Rightarrow> memory" where
  "put key v [] = [(key, v)]"
| "put key v ((k, w) # m) = (if k = key then (k, v) # m else (k, w) # put key v m)"

definition retrieve :: "memory \<Rightarrow> int \<Rightarrow> ustring list" where
  "retrieve m top_k = take (nat (max 0 top_k)) (map snd m)"

section \<open>Properties\<close>

text \<open>The loop returns a prefix that fits the budget or has at most ten characters.\<close>

lemma trim_prefix: "\<exists>n. trim_to_budget m s = take n s"
proof (induction m s rule: trim_to_budget.induct)
  case (1 m s)
  show ?case
  proof (cases "m < int (estimate_tokens s) \<and> 10 < length s")
    case True
    with 1 obtain n where
      "trim_to_budget m (take (max 10 (length s * 3 div 4)) s) = take n (take (max 10 (length s * 3 div 4)) s)"
      by blast
    with True show ?thesis by (subst trim_to_budget.simps) (auto intro: exI)
  next
    case False
    then show ?thesis by (subst trim_to_budget.simps) (auto intro: exI [of _ "length s"])
  qed
qed

lemma trim_fits: "int (estimate_tokens (trim_to_budget m s)) \<le> m \<or> length (trim_to_budget m s) \<le> 10"
proof (induction m s rule: trim_to_budget.induct)
  case (1 m s)
  then show ?case
    by (cases "m < int (estimate_tokens s) \<and> 10 < length s") (subst (1 2) trim_to_budget.simps; auto)+
qed

text \<open>The selected turns are the longest suffix that fits, and at least the last turn.\<close>

definition total_cost :: "turn list \<Rightarrow> int" where
  "total_cost ts = sum_list (map turn_cost ts)"

lemma turn_cost_pos: "0 < turn_cost t"
  by (simp add: turn_cost_def)

lemma total_cost_drop: "m \<le> n \<Longrightarrow> total_cost (drop n ts) \<le> total_cost (drop m ts)"
proof (induction n)
  case (Suc n)
  have "total_cost (drop (Suc n) ts) \<le> total_cost (drop n ts)"
  proof (cases "n < length ts")
    case True
    then show ?thesis using turn_cost_pos [of "ts ! n"]
      by (simp add: total_cost_def Cons_nth_drop_Suc [symmetric])
  qed (simp add: total_cost_def)
  then show ?case using Suc by (cases "m = Suc n") auto
qed simp

lemma select_recent_suffix:
  assumes "k \<le> length turns" and "used = total_cost (drop k turns)"
    and "k < length turns \<Longrightarrow> used \<le> budget \<or> k = length turns - 1"
  shows "\<exists>j \<le> k. select_recent budget (drop k turns) used (rev (take k turns)) = drop j turns \<and>
    (turns \<noteq> [] \<longrightarrow> j < length turns \<and>
      (total_cost (drop j turns) \<le> budget \<or> j = length turns - 1) \<and>
      (j = 0 \<or> budget < total_cost (drop (j - 1) turns)))"
  using assms
proof (induction k arbitrary: used)
  case 0
  then show ?case by (auto simp: Suc_le_eq)
next
  case (Suc k)
  have k: "k < length turns" using Suc.prems(1) by simp
  have rev: "rev (take (Suc k) turns) = turns ! k # rev (take k turns)"
    using k by (simp add: take_Suc_conv_app_nth)
  have drop: "drop k turns = turns ! k # drop (Suc k) turns"
    using k by (simp add: Cons_nth_drop_Suc)
  have cost: "used + turn_cost (turns ! k) = total_cost (drop k turns)"
    using Suc.prems(2) by (simp add: drop total_cost_def)
  show ?case
  proof (cases "drop (Suc k) turns \<noteq> [] \<and> budget < total_cost (drop k turns)")
    case True
    then have "select_recent budget (drop (Suc k) turns) used (rev (take (Suc k) turns)) = drop (Suc k) turns"
      using cost by (simp add: rev)
    moreover have "Suc k < length turns" using True by simp
    ultimately show ?thesis
      using True Suc.prems(2,3) by (intro exI [of _ "Suc k"]) auto
  next
    case False
    then have "select_recent budget (drop (Suc k) turns) used (rev (take (Suc k) turns))
        = select_recent budget (drop k turns) (total_cost (drop k turns)) (rev (take k turns))"
      using cost by (auto simp: rev drop)
    moreover have "total_cost (drop k turns) \<le> budget \<or> k = length turns - 1"
      using False k by auto
    ultimately show ?thesis
      using Suc.IH [of "total_cost (drop k turns)"] k by (auto intro: le_SucI)
  qed
qed

text \<open>
  The \<open>full\<close> strategy keeps the most recent turns, in order, and drops a prefix that it
  cannot afford: the kept suffix fits the budget or is the last turn alone, and one turn more would
  exceed the budget.
\<close>

theorem full_history_is_longest_affordable_suffix:
  "\<exists>j < length (t # ts).
    build_model_history (t # ts) ''full'' max_tokens summarizer
      = Inr (join [10] (map render_turn (drop j (t # ts)))) \<and>
    (total_cost (drop j (t # ts)) \<le> max_tokens \<or> j = length (t # ts) - 1) \<and>
    (j = 0 \<or> max_tokens < total_cost (drop (j - 1) (t # ts)))"
  using select_recent_suffix [of "length (t # ts)" "t # ts" 0 max_tokens]
  by (auto simp: build_model_history_def compress_full_def total_cost_def)

text \<open>
  The \<open>summary\<close> strategy without a summarizer returns a prefix of the joined first and last
  turn that fits the budget or is at most ten characters long.
\<close>

theorem summary_history_is_trimmed_prefix:
  "\<exists>n. build_model_history (t # ts) ''summary'' max_tokens None
      = Inr (take n (join ellipsis (render_turn t #
          (if ts \<noteq> [] then [render_turn (last ts)] else [])))) \<and>
    (case build_model_history (t # ts) ''summary'' max_tokens None of
       Inl e \<Rightarrow> False
     | Inr r \<Rightarrow> int (estimate_tokens r) \<le> max_tokens \<or> length r \<le> 10)"
proof -
  let ?j = "join ellipsis (render_turn t # (if ts \<noteq> [] then [render_turn (last ts)] else []))"
  have "build_model_history (t # ts) ''summary'' max_tokens None = Inr (trim_to_budget max_tokens ?j)"
    by (cases ts) (simp_all add: build_model_history_def compress_summary_def extractive_summary_def)
  then show ?thesis
    using trim_prefix [of max_tokens ?j] trim_fits [of max_tokens ?j] by (simp del: join.simps)
qed

text \<open>
  The documented guarantee that the result stays within \<open>max_tokens\<close> for both strategies does
  not hold: for every budget some history exceeds it with the \<open>full\<close> strategy, because the last
  turn is always kept.
\<close>

theorem full_history_can_exceed_budget:
  "\<exists>turns r. build_model_history turns ''full'' max_tokens None = Inr r \<and>
     max_tokens < int (estimate_tokens r)"
proof -
  let ?t = "\<lparr>role = codes ''user'', content = replicate (nat max_tokens + 1) 19968\<rparr>"
  have "estimate_tokens (render_turn ?t) \<ge> nat max_tokens + 1"
    by (simp add: estimate_tokens_def render_turn_def Let_def is_cjk_def filter_replicate)
  moreover have "build_model_history [?t] ''full'' max_tokens None = Inr (render_turn ?t)"
    by (simp add: build_model_history_def compress_full_def)
  ultimately show ?thesis by (intro exI conjI) (assumption, linarith)
qed

lemma put_get: "map_of (put k v m) = (map_of m)(k \<mapsto> v)"
  by (induction k v m rule: put.induct) (auto simp: fun_eq_iff)

lemma retrieve_bounded: "length (retrieve m k) \<le> nat (max 0 k)"
  by (simp add: retrieve_def)

end
