(* ===== verification/Helpers.thy ===== *)
theory Helpers
  imports AgentModels Compression "HOL-Library.List_Lexorder" "HOL-Library.Char_ord"
begin

text \<open>
  The pure helpers of the agent graph: \<open>helpers.py\<close> (keys, citations, intent routing, the evidence
  graph, retrieval confidence, context sufficiency, chunk selection) and \<open>synthesis.py\<close> (the rule
  provider's summaries, action items and risk flags) of
  \<open>services/agent-runtime/allcallall_agent_runtime/\<close>.
\<close>

section \<open>Keys and citations\<close>

definition colon_key :: "string \<Rightarrow> string \<Rightarrow> string" where
  "colon_key a b = a @ '':'' @ b"

definition chunk_key :: "context_chunk \<Rightarrow> string" where
  "chunk_key c =
     (if ck_chunk_id c \<noteq> '''' then ck_chunk_id c else colon_key (ck_source_type c) (ck_source_id c))"

definition citation_key :: "citation \<Rightarrow> string" where
  "citation_key c = colon_key (cit_source_type c) (cit_source_id c)"

definition dedupe_citations :: "citation list \<Rightarrow> citation list" where
  "dedupe_citations cs = dedup_by citation_key {} cs"

definition citation_of_chunk :: "context_chunk \<Rightarrow> citation" where
  "citation_of_chunk c =
     \<lparr>cit_chunk_id = ck_chunk_id c, cit_source_type = ck_source_type c, cit_source_id = ck_source_id c,
      cit_source_title = (if ck_source_title c \<noteq> [] then ck_source_title c else ck_title c),
      cit_title =
        (if ck_title c \<noteq> [] then ck_title c
         else if ck_source_title c \<noteq> [] then ck_source_title c
         else codes (ck_source_type c) @ (codes '' #'') @ codes (ck_source_id c)),
      cit_snippet = ck_snippet c, cit_score = ck_score c, cit_retrieval_mode = ck_retrieval_mode c,
      cit_rerank_score = ck_rerank_score c, cit_rerank_reason = ck_rerank_reason c,
      cit_final_rank = ck_final_rank c, cit_recording_session_id = ck_recording_session_id c,
      cit_recording_file_id = ck_recording_file_id c,
      cit_transcript_segment_id = ck_transcript_segment_id c,
      cit_start_ms = ck_start_ms c, cit_end_ms = ck_end_ms c\<rparr>"

definition citable :: "context_chunk \<Rightarrow> bool" where
  "citable c \<longleftrightarrow> ck_source_type c \<noteq> '''' \<and> ck_source_id c \<noteq> '''' \<and> ck_snippet c \<noteq> []"

definition citations_from_chunks :: "context_chunk list \<Rightarrow> citation list" where
  "citations_from_chunks cs = dedupe_citations (map citation_of_chunk (filter citable cs))"

definition top_snippets :: "context_chunk list \<Rightarrow> nat \<Rightarrow> ustring list" where
  "top_snippets cs limit = take limit (unique_strings (filter (\<lambda>t. t \<noteq> []) (map ck_snippet cs)))"

definition summarize_observation :: "string \<Rightarrow> context_chunk list \<Rightarrow> ustring" where
  "summarize_observation tool cs =
     (if tool = ''query_recent_meetings'' then (codes ''recent meeting metadata inspected'')
      else if cs = [] then (codes ''0 chunks'')
      else show_int (int (length cs)) @ (codes '' chunks from '') @
        join (codes '', '') (unique_strings (map (\<lambda>c. codes (ck_source_type c)) cs)) @ (codes '': '') @
        take 120 (ck_snippet (hd cs)))"

section \<open>Presets and policies\<close>

text \<open>\<open>raw.strip()\<close> on ASCII identifiers, the default and the alias table.\<close>

definition strip_ascii :: "string \<Rightarrow> string" where
  "strip_ascii s = map char_of (strip (codes s))"

definition normalize_workflow_preset :: "string \<Rightarrow> string" where
  "normalize_workflow_preset raw =
     (let normalized = (if strip_ascii raw \<noteq> '''' then strip_ascii raw else ''meeting_brief'')
      in if normalized = ''follow_up'' then ''follow_up_planner'' else normalized)"

definition tool_allowed :: "workflow_request \<Rightarrow> string \<Rightarrow> bool" where
  "tool_allowed rq tool =
     (let allowed = pol_read_tools (rq_tool_policy rq) in allowed = [] \<or> tool \<in> set allowed)"

definition show_id :: "int \<Rightarrow> string" where
  "show_id i = map char_of (show_int i)"

definition runtime_subject_id :: "workflow_request \<Rightarrow> string" where
  "runtime_subject_id rq =
     (if rq_agent_run_id rq \<noteq> 0 then ''agent:'' @ show_id (rq_agent_run_id rq)
      else ''workflow:'' @ show_id (rq_workflow_run_id rq))"

section \<open>Intent routing\<close>

definition route_text :: "workflow_request \<Rightarrow> ustring" where
  "route_text rq =
     join (codes '' '') (filter (\<lambda>p. p \<noteq> [])
       ([codes (rq_preset rq), rq_goal rq] @ map cm_body (rq_messages rq) @ map cn_body (rq_notes rq)))"

definition risk_keywords :: "ustring list" where
  "risk_keywords =
     [(codes ''risk''), (codes ''blocker''), (codes ''approval''), (codes ''security''), (codes ''legal''), (codes ''privacy''), (codes ''deadline''), (codes ''budget''),
      [39118, 38505], [38459, 22622], [23457, 25209], [23433, 20840], [27861, 21153], [38544, 31169], [24310, 26399], [39044, 31639], [21319, 32423]]"

definition consult_keywords :: "ustring list" where
  "consult_keywords =
     [(codes ''what''), (codes ''how''), (codes ''why''), (codes ''policy''), (codes ''knowledge''), (codes ''checklist''), (codes ''require''), (codes ''requires''),
      [38656, 35201, 20160, 20040], [22914, 20309], [20026, 20160, 20040], [25919, 31574], [30693, 35782, 24211], [35268, 33539], [26448, 26009], [28165, 21333]]"

definition route_request_intent :: "workflow_request \<Rightarrow> intent_route" where
  "route_request_intent rq =
     (let routing_text = to_lower (route_text rq)
      in if rq_preset rq = ''risk_review'' then
           \<lparr>ir_intent = ''risk'', ir_target_workflow = rq_preset rq, ir_confidence = 9 / 10,
            ir_rationale = ''risk workflow requires transcript, policy, and memory evidence'',
            ir_required_source_types = [''meeting_transcript'', ''knowledge'', ''memory''],
            ir_retrieval_strategy = ''multi_hop''\<rparr>
         else if rq_preset rq = ''context_qa'' \<or> contains_any routing_text consult_keywords then
           \<lparr>ir_intent = ''consult'', ir_target_workflow = rq_preset rq, ir_confidence = 84 / 100,
            ir_rationale = ''question or policy language requires knowledge-grounded consultation'',
            ir_required_source_types = [''knowledge'', ''meeting_transcript'', ''memory''],
            ir_retrieval_strategy = ''graph_augmented''\<rparr>
         else if contains_any routing_text risk_keywords then
           \<lparr>ir_intent = ''risk'', ir_target_workflow = rq_preset rq, ir_confidence = 86 / 100,
            ir_rationale = ''risk language requires transcript, policy, and memory evidence'',
            ir_required_source_types = [''meeting_transcript'', ''knowledge'', ''memory''],
            ir_retrieval_strategy = ''multi_hop''\<rparr>
         else
           \<lparr>ir_intent = ''chat'', ir_target_workflow = rq_preset rq, ir_confidence = 78 / 100,
            ir_rationale = ''conversation task can start from scoped chat, note, and memory context'',
            ir_required_source_types = [''conversation'', ''message'', ''note'', ''followup'', ''memory''],
            ir_retrieval_strategy = ''single_pass''\<rparr>)"

section \<open>The evidence graph\<close>

definition relation_rules :: "(string \<times> ustring list) list" where
  "relation_rules =
     [(''requires'', [(codes ''requires''), (codes ''require''), [38656, 35201], [24517, 39035], [21253, 21547], (codes ''should'')]),
      (''blocks'', [(codes ''blocker''), (codes ''block''), [38459, 22622], [39118, 38505], [24310, 26399], (codes ''delay'')]),
      (''owned_by'', [(codes ''owner''), [36127, 36131], [36319, 36827], (codes ''action item''), (codes ''owns'')]),
      (''approves'', [(codes ''approval''), (codes ''approve''), [23457, 25209], (codes ''signoff'')]),
      (''mitigates'', [(codes ''mitigation''), (codes ''mitigate''), [32531, 35299], [22238, 24402], (codes ''rollback'')])]"

definition infer_relation :: "ustring \<Rightarrow> string" where
  "infer_relation t =
     (case List.find (\<lambda>(r, ks). contains_any (to_lower t) ks) relation_rules of
        None \<Rightarrow> '''' | Some (r, ks) \<Rightarrow> r)"

text \<open>The clause separators: U+3002, U+FF1B, semicolon, full stop, bang, question mark, newline.\<close>

definition is_clause_end :: "nat \<Rightarrow> bool" where
  "is_clause_end c \<longleftrightarrow> c \<in> {12290, 65307, 59, 46, 33, 63, 10}"

definition infer_target_phrase :: "ustring \<Rightarrow> ustring" where
  "infer_target_phrase t =
     (let normalized = normalize_space t
      in if normalized = [] then []
         else first_non_empty (map strip (split_chars is_clause_end normalized)))"

definition graph_edge_from_chunk :: "context_chunk \<Rightarrow> ustring list \<Rightarrow> int \<Rightarrow> graph_edge option" where
  "graph_edge_from_chunk c query_terms ordinal =
     (let t = ck_title c @ (codes '' '') @ ck_source_title c @ (codes '' '') @ ck_snippet c;
          lowered = to_lower t;
          relation = infer_relation t
      in if relation = '''' then None
         else if \<not> (query_terms = [] \<or> list_ex (\<lambda>q. substring_in (to_lower q) lowered) query_terms) \<and>
                 ck_source_type c \<notin> {''knowledge'', ''meeting_transcript'', ''memory''} then None
         else
           (let src = first_non_empty [ck_title c, ck_source_title c, codes (ck_source_type c)];
                target = infer_target_phrase t
            in if target = [] then None
               else Some
                 \<lparr>ge_edge_id = ''kg-'' @ show_id ordinal @ ''-'' @
                    (if ck_chunk_id c \<noteq> '''' then ck_chunk_id c
                     else ck_source_type c @ ''-'' @ ck_source_id c),
                  ge_source = take 80 src, ge_relation = relation, ge_target = take 120 target,
                  ge_evidence_chunk_id = chunk_key c,
                  ge_confidence = (if ck_source_type c = ''knowledge'' then 72 / 100 else 64 / 100)\<rparr>))"

text \<open>The loop over the chunks, which stops at eight edges.\<close>

fun collect_edges :: "ustring list \<Rightarrow> graph_edge list \<Rightarrow> context_chunk list \<Rightarrow> graph_edge list" where
  "collect_edges terms edges [] = edges"
| "collect_edges terms edges (c # cs) =
     (case graph_edge_from_chunk c terms (int (length edges) + 1) of
        None \<Rightarrow> collect_edges terms edges cs
      | Some e \<Rightarrow>
          (if 8 \<le> length (edges @ [e]) then edges @ [e] else collect_edges terms (edges @ [e]) cs))"

definition build_graph_expansion :: "ustring \<Rightarrow> context_chunk list \<Rightarrow> graph_expansion" where
  "build_graph_expansion query cs =
     (let query_terms = take 8 (tokenize query);
          edges = collect_edges query_terms [] cs;
          expanded = concat (map (\<lambda>e. [ge_source e, codes (ge_relation e), ge_target e]) edges);
          expanded_terms =
            take 12 (filter (\<lambda>t. to_lower t \<notin> set query_terms) (unique_strings expanded))
      in \<lparr>gx_enabled = (edges \<noteq> []), gx_query_terms = query_terms,
          gx_expanded_terms = expanded_terms, gx_edges = edges\<rparr>)"

section \<open>Retrieval confidence and sufficiency\<close>

definition estimate_retrieval_confidence :: "workflow_request \<Rightarrow> context_chunk list \<Rightarrow> rat" where
  "estimate_retrieval_confidence rq cs =
     (if cs = [] then 0
      else
        (let source_types = map ck_source_type cs;
             c0 = min (40 / 100 + of_nat (length cs) * (8 / 100)) (75 / 100);
             c1 = (if ''meeting_transcript'' \<in> set source_types then c0 + 18 / 100 else c0);
             c2 = (if ''knowledge'' \<in> set source_types then c1 + 12 / 100 else c1);
             c3 = (if rq_preset rq = ''context_qa'' \<and> ''knowledge'' \<notin> set source_types
                   then c2 - 25 / 100 else c2);
             c4 = (if rq_preset rq = ''meeting_brief'' \<and> ''meeting_transcript'' \<notin> set source_types
                   then c3 - 2 / 10 else c3);
             c5 = (if rq_preset rq = ''risk_review'' \<and>
                     list_ex (\<lambda>t. t \<in> {''conversation'', ''message'', ''note''}) source_types
                   then c4 + 12 / 100 else c4);
             c6 = (if ''memory'' \<in> set source_types then c5 + 5 / 100 else c5)
         in max 0 (min c6 1)))"

definition evaluate_context_sufficiency :: "workflow_request \<Rightarrow> evidence_pack \<Rightarrow> context_sufficiency" where
  "evaluate_context_sufficiency rq pack =
     (let types = ep_source_types pack;
          missing =
            (if ep_citations pack = [] then [''retrieved evidence''] else []) @
            (if rq_preset rq = ''meeting_brief'' \<and> ''meeting_transcript'' \<notin> set types
             then [''meeting transcript citation''] else []) @
            (if rq_preset rq = ''context_qa'' \<and> types = []
             then [''knowledge or conversation evidence''] else []) @
            (if ep_route_intent pack = ''risk'' \<and>
               \<not> list_ex (\<lambda>t. t \<in> {''meeting_transcript'', ''conversation'', ''message'', ''note''}) types
             then [''risk evidence''] else []) @
            (if ep_route_intent pack = ''consult'' \<and> ''knowledge'' \<notin> set types
             then [''knowledge citation''] else []);
          threshold = (if ep_route_intent pack \<in> {''risk'', ''consult''} then 55 / 100 else 45 / 100);
          ok = (missing = [] \<and> threshold \<le> ep_confidence pack)
      in \<lparr>cs_sufficient = ok, cs_confidence = ep_confidence pack,
          cs_reason = (if ok then (codes ''context is sufficient for grounded synthesis'')
                       else (codes ''context is insufficient for grounded synthesis'')),
          cs_missing_info = missing\<rparr>)"

section \<open>Selection for the search loop\<close>

definition select_chunks :: "context_chunk list \<Rightarrow> string \<Rightarrow> int \<Rightarrow> context_chunk list" where
  "select_chunks cs rl iteration =
     (if cs = [] then []
      else
        (let p1 = (if rl = ''risk_analyst'' then
                     filter (\<lambda>c. contains_any (ck_snippet c)
                       [(codes ''risk''), (codes ''approval''), (codes ''blocker''), (codes ''deadline''), (codes ''budget''), (codes ''security''), (codes ''legal'')]) cs
                   else []);
             p2 = (if p1 = [] then filter (\<lambda>c. ck_source_type c = ''meeting_transcript'') cs else p1);
             p3 = (if p2 = [] then cs else p2)
         in take (if iteration = 1 then 5 else 4) p3))"

section \<open>Model history\<close>

definition request_turns :: "workflow_request \<Rightarrow> turn list" where
  "request_turns rq =
     map (\<lambda>m. \<lparr>role = (codes ''msg:'') @ show_int (cm_sender_id m), content = cm_body m\<rparr>) (rq_messages rq) @
     map (\<lambda>n. \<lparr>role = (codes ''note:'') @ show_int (cn_author_id n), content = cn_body n\<rparr>) (rq_notes rq) @
     map (\<lambda>g. \<lparr>role = (if mt_speaker g \<noteq> [] then mt_speaker g else (codes ''speaker'')), content = mt_text g\<rparr>)
       (rq_meeting_transcripts rq)"

text \<open>The configuration supplies strategy and budget when the caller passes none.\<close>

definition build_request_model_history ::
  "workflow_request \<Rightarrow> string \<Rightarrow> int \<Rightarrow> (history_error, ustring) result" where
  "build_request_model_history rq strategy max_tokens =
     (if request_turns rq = [] then Inr []
      else build_model_history (request_turns rq) strategy max_tokens None)"

text \<open>\<open>request_with_runtime_context\<close>: an empty reranked list falls back to the retrieved one.\<close>

definition runtime_chunks :: "graph_state \<Rightarrow> context_chunk list option" where
  "runtime_chunks s =
     (case st_reranked_context_chunks s of
        Some (c # cs) \<Rightarrow> Some (c # cs)
      | _ \<Rightarrow> st_retrieved_context_chunks s)"

definition request_with_runtime_context ::
  "bool \<Rightarrow> string \<Rightarrow> int \<Rightarrow> graph_state \<Rightarrow> (history_error, workflow_request) result" where
  "request_with_runtime_context enable_compression strategy max_tokens s =
     (let rq = (case runtime_chunks s of
                  None \<Rightarrow> st_request s | Some cs \<Rightarrow> (st_request s)\<lparr>rq_context_chunks := cs\<rparr>)
      in if enable_compression then
           and_then (build_request_model_history rq strategy max_tokens)
             (\<lambda>h. Inr (if h \<noteq> [] then rq\<lparr>rq_model_history := h\<rparr> else rq))
         else Inr rq)"

section \<open>The rule provider\<close>

definition synthesize_summary :: "workflow_request \<Rightarrow> ustring list \<Rightarrow> ustring" where
  "synthesize_summary rq snippets =
     (if rq_preset rq = ''context_qa'' then
        (if snippets \<noteq> [] then (codes ''Context QA: '' @ [22522, 20110, 24050, 26816, 32034, 19978, 19979, 25991, 22238, 31572, 65306]) @ take 180 (hd snippets)
         else (codes ''Context QA: '' @ [24403, 21069, 19978, 19979, 25991, 19981, 36275, 65292, 26080, 27861, 32473, 20986, 26377, 20381, 25454, 30340, 22238, 31572, 12290]))
      else if rq_preset rq = ''react_general'' then
        (if snippets \<noteq> [] then (codes ''ReAct Agent: '' @ [22522, 20110, 20250, 35805, 19978, 19979, 25991, 23436, 25104, 33258, 28982, 35821, 35328, 20219, 21153, 65306]) @ take 180 (hd snippets)
         else (codes ''ReAct Agent: '' @ [24403, 21069, 32570, 23569, 21487, 24341, 29992, 19978, 19979, 25991, 65292, 24314, 35758, 34917, 20805, 20250, 35805, 28040, 24687, 12289, 20250, 35758, 36716, 20889, 25110, 30693, 35782, 24211, 20869, 23481, 12290]))
      else if rq_preset rq = ''risk_review'' then
        (if snippets \<noteq> [] then (codes ''Risk Review: '' @ [24050, 22522, 20110, 20250, 35758, 36716, 20889, 21644, 20250, 35805, 19978, 19979, 25991, 25552, 21462, 39118, 38505, 65306]) @ take 180 (hd snippets)
         else (codes ''Risk Review: '' @ [24403, 21069, 32570, 23569, 21487, 24341, 29992, 19978, 19979, 25991, 65292, 24314, 35758, 34917, 20805, 20250, 35758, 36716, 20889, 25110, 30456, 20851, 22791, 27880, 12290]))
      else if rq_preset rq = ''follow_up_planner'' then
        (if snippets \<noteq> [] then (codes ''Follow-up Plan: '' @ [24050, 22522, 20110, 19978, 19979, 25991, 25972, 29702, 21518, 32493, 34892, 21160, 65306]) @ take 180 (hd snippets)
         else (codes ''Follow-up Plan: '' @ [24403, 21069, 19978, 19979, 25991, 19981, 36275, 65292, 24314, 35758, 34917, 20805, 20250, 35758, 32467, 35770, 25110, 23458, 25143, 19978, 19979, 25991, 21518, 20877, 21019, 24314, 20219, 21153, 12290]))
      else if snippets \<noteq> [] then
        (codes ''Meeting Brief: '' @ [20250, 35758, 22797, 30424, 22522, 20110, 20250, 35758, 24405, 38899, 36716, 20889, 21644, 20250, 35805, 19978, 19979, 25991, 29983, 25104, 65306]) @ take 180 (hd snippets)
      else if rq_meeting_transcripts rq \<noteq> [] then
        (codes ''Meeting Brief: '' @ [20250, 35758, 22797, 30424, 22522, 20110, 20250, 35758, 24405, 38899, 36716, 20889, 29983, 25104, 65306]) @ take 180 (mt_text (hd (rq_meeting_transcripts rq)))
      else (codes ''Meeting Brief: '' @ [20250, 35758, 22797, 30424, 32570, 23569, 21487, 24341, 29992, 30340, 20250, 35758, 36716, 20889, 20869, 23481, 65292, 24314, 35758, 20808, 30830, 35748, 36716, 20889, 29366, 24577, 12290]))"

definition synthesize_next_step :: "workflow_request \<Rightarrow> ustring" where
  "synthesize_next_step rq =
     (if rq_preset rq = ''context_qa'' then
        (codes ''If the answer is insufficient, add more meeting transcript or knowledge context before retrying.'')
      else if rq_preset rq = ''react_general'' then
        (codes ''Review the grounded answer and approve any proposed write-back before applying side effects.'')
      else (codes ''Review the cited evidence, then approve the proposed write-back if it is accurate.''))"

definition action_markers :: "ustring list" where
  "action_markers = [[36319, 36827], [30830, 35748], [21457, 36865], [34917, 20805], (codes ''review''), (codes ''confirm''), (codes ''send''), (codes ''follow'')]"

definition synthesize_action_items :: "workflow_request \<Rightarrow> ustring list" where
  "synthesize_action_items rq =
     (let t0 = join (codes '' '') (map mt_text (rq_meeting_transcripts rq));
          t = (if t0 = [] then join (codes '' '') (map ck_snippet (rq_context_chunks rq)) else t0);
          found = filter (\<lambda>m. substring_in (to_lower m) (to_lower t)) action_markers;
          candidates = map (\<lambda>m. (codes ''Follow up on item containing `'') @ m @ (codes ''` from the meeting transcript.'')) found
      in take 3 (unique_strings
           (if candidates = [] then [([30830, 35748, 20250, 35758, 32467, 35770, 12289, 39118, 38505, 28857, 21644, 19979, 19968, 27493] @ (codes '' owner'') @ [12290])] else candidates)))"

definition infer_risk_flags :: "workflow_request \<Rightarrow> ustring list \<Rightarrow> ustring list" where
  "infer_risk_flags rq snippets =
     (let t = to_lower (join (codes '' '') (snippets @ map ck_snippet (rq_context_chunks rq)))
      in unique_strings
        ((if contains_any t [(codes ''approval''), (codes ''security''), (codes ''legal''), (codes ''privacy''), [23457, 25209], [23433, 20840], [27861, 21153]]
          then [(codes ''approval_sensitive_action'')] else []) @
         (if contains_any t [(codes ''deadline''), (codes ''budget''), (codes ''delay''), [24310, 26399], [39044, 31639], [25130, 27490]]
          then [(codes ''budget_or_timeline_risk'')] else []) @
         (if contains_any t [(codes ''risk''), (codes ''blocker''), (codes ''unresolved''), [39118, 38505], [38459, 22622], [26410, 35299, 20915]]
          then [(codes ''unresolved_meeting_risk'')] else [])))"

end
