(* ===== verification/Rerank.thy ===== *)
theory Rerank
  imports Helpers
begin

text \<open>
  \<open>services/agent-runtime/allcallall_agent_runtime/retrieval.py\<close>: rule-based reranking, candidate
  preparation and the per-run retrieval cache; and the local retrieval of \<open>helpers.py\<close>.

  The SHA-256 prefix of the candidate keys is taken by the argument \<open>sha\<close>. The cache is a Python
  \<open>dict\<close>: an association list in insertion order.
\<close>

section \<open>Rule scores\<close>

definition source_boost :: "string \<Rightarrow> rat" where
  "source_boost t =
     (if t = ''meeting_transcript'' then 5 else if t = ''knowledge'' then 4
      else if t = ''transcript'' then 3 else if t = ''followup'' then 25 / 10
      else if t = ''memory'' then 2 else if t = ''note'' then 15 / 10
      else if t = ''message'' then 1 else 0)"

definition overlap_count :: "ustring list \<Rightarrow> ustring \<Rightarrow> nat" where
  "overlap_count tokens t = length (filter (\<lambda>w. w \<noteq> [] \<and> substring_in w t) tokens)"

definition rules_score :: "context_chunk \<Rightarrow> ustring list \<Rightarrow> nat \<Rightarrow> rat \<times> ustring" where
  "rules_score c tokens original_index =
     (let t = to_lower (ck_title c @ (codes '' '') @ ck_source_title c @ (codes '' '') @ ck_snippet c);
          title = to_lower (ck_title c @ (codes '' '') @ ck_source_title c);
          overlap = overlap_count tokens t;
          title_overlap = overlap_count tokens title;
          base = of_int (max (ck_score c) 0) / 100;
          score = of_nat overlap * 10 + of_nat title_overlap * 8 + source_boost (ck_source_type c)
            + base - of_nat original_index * (1 / 100)
      in (score,
          (codes ''rules keyword_overlap='') @ show_int (int overlap) @ (codes '' title_overlap='') @
          show_int (int title_overlap) @ (codes '' source='') @ codes (ck_source_type c)))"

record rerank_output =
  ro_chunks :: "context_chunk list"
  ro_trace :: trace_event

definition score_chunk :: "ustring list \<Rightarrow> nat \<times> context_chunk \<Rightarrow> rat \<times> context_chunk" where
  "score_chunk tokens ic =
     (case ic of (index, c) \<Rightarrow>
        (case rules_score c tokens index of (score, reason) \<Rightarrow>
           (score, c\<lparr>ck_rerank_score := score, ck_rerank_reason := reason, ck_final_rank := 0\<rparr>)))"

definition rank_chunks :: "context_chunk list \<Rightarrow> context_chunk list" where
  "rank_chunks cs = map (\<lambda>(i, c). c\<lparr>ck_final_rank := int i\<rparr>) (enumerate 1 cs)"

definition rerank_trace :: "json_object \<Rightarrow> trace_event" where
  "rerank_trace meta =
     (trace_event0 ''retrieval.rerank'' ''rerank_context'')\<lparr>ev_status := ''completed'', ev_metadata := meta\<rparr>"

definition rerank_context_chunks :: "ustring \<Rightarrow> context_chunk list \<Rightarrow> nat \<Rightarrow> rerank_output" where
  "rerank_context_chunks query cs limit =
     (if cs = [] then
        \<lparr>ro_chunks = [],
         ro_trace = rerank_trace [(''provider'', jstr ''rules''), (''candidate_count'', JInt 0)]\<rparr>
      else
        (let tokens = tokenize query;
             scored = map (score_chunk tokens) (enumerate 0 cs);
             out = rank_chunks (map snd (take limit (sort_desc fst scored)))
         in \<lparr>ro_chunks = out,
             ro_trace = rerank_trace
               [(''provider'', jstr ''rules''), (''candidate_count'', jlen cs), (''returned'', jlen out),
                (''top'', JList (map (\<lambda>c. JObj
                   [(''source_type'', jstr (ck_source_type c)), (''source_id'', jstr (ck_source_id c)),
                    (''rerank_score'', JNum (ck_rerank_score c)),
                    (''final_rank'', JInt (ck_final_rank c))]) (take 5 out)))]\<rparr>))"

section \<open>Prepared candidates\<close>

record prepared =
  pc_query :: ustring
  pc_source_types :: "string list"
  pc_chunks :: "context_chunk list"
  pc_tokens :: "ustring list"
  pc_fingerprint :: string
  pc_chunk_count :: nat
  pc_token_count :: nat

fun join_keys :: "string list \<Rightarrow> string" where
  "join_keys [] = ''''"
| "join_keys [k] = k"
| "join_keys (k # l # ks) = k @ ''|'' @ join_keys (l # ks)"

definition compute_context_fingerprint :: "(string \<Rightarrow> string) \<Rightarrow> context_chunk list \<Rightarrow> string" where
  "compute_context_fingerprint sha cs =
     (if cs = [] then '''' else take 16 (sha (join_keys (sort (map chunk_key cs)))))"

definition prepare_candidates ::
  "(string \<Rightarrow> string) \<Rightarrow> ustring \<Rightarrow> context_chunk list \<Rightarrow> string list option \<Rightarrow> prepared" where
  "prepare_candidates sha query cs source_types =
     (let types = opt_or source_types [];
          filtered = (if types \<noteq> [] \<and> types \<noteq> [''all'']
                      then filter (\<lambda>c. ck_source_type c \<in> set types) cs else cs);
          deduped = dedup_by chunk_key {} filtered;
          tokens = tokenize query
      in \<lparr>pc_query = query, pc_source_types = sort types, pc_chunks = deduped, pc_tokens = tokens,
          pc_fingerprint = compute_context_fingerprint sha deduped,
          pc_chunk_count = length deduped, pc_token_count = length tokens\<rparr>)"

text \<open>Only the best \<open>2 * top_k\<close> candidates by original score are reranked.\<close>

definition rerank_prepared :: "prepared \<Rightarrow> nat \<Rightarrow> rerank_output" where
  "rerank_prepared p top_k =
     (if pc_chunks p = [] then
        \<lparr>ro_chunks = [],
         ro_trace = rerank_trace
           [(''provider'', jstr ''rules''), (''candidate_count'', JInt 0), (''prepared_reuse'', JBool True)]\<rparr>
      else
        (let candidates = pc_chunks p;
             reduced = (if top_k * 2 < length candidates
                        then take (top_k * 2) (sort_desc (\<lambda>c. of_int (ck_score c)) candidates)
                        else candidates)
         in rerank_context_chunks (pc_query p) reduced top_k))"

section \<open>The per-run cache\<close>

type_synonym cache_key = "ustring \<times> string \<times> string \<times> string \<times> string"

record retrieval_cache =
  max_entries :: int
  entries :: "(cache_key \<times> context_chunk list) list"
  hits :: nat
  misses :: nat

definition new_cache :: "int \<Rightarrow> retrieval_cache" where
  "new_cache n = \<lparr>max_entries = n, entries = [], hits = 0, misses = 0\<rparr>"

text \<open>\<open>" ".join(query.lower().split())\<close>: lower case, white space collapsed.\<close>

definition make_cache_key :: "ustring \<Rightarrow> string \<Rightarrow> string \<Rightarrow> string \<Rightarrow> string \<Rightarrow> cache_key" where
  "make_cache_key query source_scope policy fingerprint corpus_version =
     (normalize_space (to_lower query), source_scope, policy, fingerprint, corpus_version)"

definition cache_get ::
  "cache_key \<Rightarrow> retrieval_cache \<Rightarrow> context_chunk list option \<times> retrieval_cache" where
  "cache_get key c =
     (case map_of (entries c) key of
        Some e \<Rightarrow> (Some e, c\<lparr>hits := hits c + 1\<rparr>)
      | None \<Rightarrow> (None, c\<lparr>misses := misses c + 1\<rparr>))"

fun dict_set :: "'k \<Rightarrow> 'v \<Rightarrow> ('k \<times> 'v) list \<Rightarrow> ('k \<times> 'v) list" where
  "dict_set k v [] = [(k, v)]"
| "dict_set k v ((l, w) # m) = (if l = k then (l, v) # m else (l, w) # dict_set k v m)"

text \<open>Evicting from an empty cache raises \<open>StopIteration\<close>: then \<open>max_entries\<close> is not positive.\<close>

definition cache_put ::
  "cache_key \<Rightarrow> context_chunk list \<Rightarrow> retrieval_cache \<Rightarrow> (unit, retrieval_cache) result" where
  "cache_put key cs c =
     (if key \<notin> fst ` set (entries c) \<and> max_entries c \<le> int (length (entries c)) then
        (case entries c of
           [] \<Rightarrow> Inl ()
         | oldest # rest \<Rightarrow> Inr (c\<lparr>entries := dict_set key cs rest\<rparr>))
      else Inr (c\<lparr>entries := dict_set key cs (entries c)\<rparr>))"

section \<open>Local retrieval\<close>

definition scoped_chunks :: "context_chunk list \<Rightarrow> plan_step \<Rightarrow> context_chunk list" where
  "scoped_chunks cs step =
     (let scope = ps_source_scope step;
          scoped =
            (if scope = ''knowledge'' then filter (\<lambda>c. ck_source_type c = ''knowledge'') cs
             else if scope = ''meeting_transcript''
             then filter (\<lambda>c. ck_source_type c = ''meeting_transcript'') cs
             else if scope \<in> {''conversation'', ''message'', ''note'', ''followup'', ''memory'', ''contact_profile''}
             then filter (\<lambda>c. ck_source_type c \<in> {scope, ''conversation''}) cs
             else cs)
      in if scoped = [] \<and> scope \<noteq> ''all'' then cs else scoped)"

definition local_agentic_retrieval :: "context_chunk list \<Rightarrow> plan_step \<Rightarrow> context_chunk list" where
  "local_agentic_retrieval cs step =
     ro_chunks (rerank_context_chunks (ps_query step) (scoped_chunks cs step) 6)"

section \<open>What reranking returns\<close>

text \<open>A chunk without the three fields that reranking sets.\<close>

definition unranked :: "context_chunk \<Rightarrow> context_chunk" where
  "unranked c = c\<lparr>ck_rerank_score := 0, ck_rerank_reason := [], ck_final_rank := 0\<rparr>"

lemma unranked_score_chunk [simp]: "unranked (snd (score_chunk tokens (i, c))) = unranked c"
  by (simp add: score_chunk_def unranked_def split: prod.split)

lemma score_chunk_fst [simp]: "fst (score_chunk tokens ic) = ck_rerank_score (snd (score_chunk tokens ic))"
  by (simp add: score_chunk_def split: prod.split)

lemma rank_chunks_nth [simp]:
  "i < length cs \<Longrightarrow> rank_chunks cs ! i = (cs ! i)\<lparr>ck_final_rank := int i + 1\<rparr>"
  by (simp add: rank_chunks_def nth_enumerate_eq)

lemma length_rank_chunks [simp]: "length (rank_chunks cs) = length cs"
  by (simp add: rank_chunks_def)

lemma map_rank_chunks:
  assumes "\<And>c n. f (c\<lparr>ck_final_rank := n\<rparr>) = f c"
  shows "map f (rank_chunks cs) = map f cs"
  by (rule nth_equalityI) (simp_all add: assms)

lemma final_ranks: "map ck_final_rank (rank_chunks cs) = map (\<lambda>i. int i + 1) [0..<length cs]"
  by (rule nth_equalityI) simp_all

lemma unranked_rank [simp]: "unranked (c\<lparr>ck_final_rank := n\<rparr>) = unranked c"
  by (simp add: unranked_def)

lemma rerank_chunks_eq:
  "ro_chunks (rerank_context_chunks q cs limit) =
     rank_chunks (map snd (take limit (sort_desc fst (map (score_chunk (tokenize q)) (enumerate 0 cs)))))"
  by (simp add: rerank_context_chunks_def Let_def rank_chunks_def sort_desc_def)

lemma length_rerank:
  "length (ro_chunks (rerank_context_chunks q cs limit)) = min limit (length cs)"
  by (simp add: rerank_chunks_eq)

lemma rerank_scores_sorted:
  "sorted_wrt (\<lambda>a b. ck_rerank_score b \<le> ck_rerank_score a) (ro_chunks (rerank_context_chunks q cs limit))"
proof -
  let ?s = "sort_desc fst (map (score_chunk (tokenize q)) (enumerate 0 cs))"
  have eq: "\<forall>x \<in> set ?s. fst x = ck_rerank_score (snd x)" by (auto simp: enumerate_eq_zip)
  have "sorted_wrt (\<lambda>x y. fst y \<le> fst x) (take limit ?s)"
    by (intro sorted_wrt_take sorted_sort_desc)
  then have "sorted_wrt (\<lambda>x y. ck_rerank_score (snd y) \<le> ck_rerank_score (snd x)) (take limit ?s)"
    using eq by (elim sorted_wrt_mono_rel [rotated]) (metis in_set_takeD)
  then have "sorted_wrt (\<lambda>a b. ck_rerank_score b \<le> ck_rerank_score a) (map snd (take limit ?s))"
    by (simp add: sorted_wrt_map)
  moreover have "sorted_wrt (\<lambda>a b. ck_rerank_score b \<le> ck_rerank_score a) (rank_chunks xs)"
    if "sorted_wrt (\<lambda>a b. ck_rerank_score b \<le> ck_rerank_score a) xs" for xs
    using that by (auto simp: sorted_wrt_iff_nth_less)
  ultimately show ?thesis by (simp add: rerank_chunks_eq)
qed

lemma mset_scored:
  "mset (map (unranked \<circ> snd) (sort_desc fst (map (score_chunk tokens) (enumerate n cs)))) =
     mset (map unranked cs)"
proof -
  have "map (unranked \<circ> snd) (map (score_chunk tokens) (enumerate n cs)) = map unranked cs"
    by (rule nth_equalityI) (simp_all add: nth_enumerate_eq)
  then show ?thesis by (metis mset_map mset_sort_desc)
qed

lemma rerank_chunks_from_input:
  "mset (map unranked (ro_chunks (rerank_context_chunks q cs limit))) \<subseteq># mset (map unranked cs)"
proof -
  let ?s = "sort_desc fst (map (score_chunk (tokenize q)) (enumerate 0 cs))"
  have "map unranked (ro_chunks (rerank_context_chunks q cs limit)) = take limit (map (unranked \<circ> snd) ?s)"
    by (simp add: rerank_chunks_eq map_rank_chunks take_map)
  moreover have "mset (take limit xs) \<subseteq># mset xs" for xs :: "context_chunk list"
    by (metis append_take_drop_id mset_append mset_subset_eq_add_left)
  ultimately show ?thesis by (metis mset_scored)
qed

lemma rerank_is_prefix:
  "ro_chunks (rerank_context_chunks q cs limit) = take limit (ro_chunks (rerank_context_chunks q cs (length cs)))"
  unfolding rerank_chunks_eq by (rule nth_equalityI) simp_all

lemma rerank_is_permutation:
  "mset (map unranked (ro_chunks (rerank_context_chunks q cs (length cs)))) = mset (map unranked cs)"
  by (rule subset_mset.antisym [OF rerank_chunks_from_input])
    (use mset_subset_size [of "mset (map unranked (ro_chunks (rerank_context_chunks q cs (length cs))))"
      "mset (map unranked cs)"] rerank_chunks_from_input [of q cs "length cs"]
      in \<open>auto simp: length_rerank subset_mset.le_less\<close>)

definition scored_by_rules :: "ustring \<Rightarrow> context_chunk list \<Rightarrow> context_chunk \<Rightarrow> bool" where
  "scored_by_rules q cs c \<longleftrightarrow>
     (\<exists>i < length cs. unranked c = unranked (cs ! i) \<and> ck_rerank_score c = fst (rules_score (cs ! i) (tokenize q) i))"

lemma list_all_rank: "(\<And>c n. P (c\<lparr>ck_final_rank := n\<rparr>) = P c) \<Longrightarrow> list_all P (rank_chunks xs) = list_all P xs"
  by (simp add: list_all_length)

lemma scored_by_rules_rank: "scored_by_rules q cs (c\<lparr>ck_final_rank := n\<rparr>) = scored_by_rules q cs c"
  by (simp add: scored_by_rules_def)

lemma score_chunk_scored:
  "x \<in> set (map (score_chunk (tokenize q)) (enumerate 0 cs)) \<Longrightarrow> scored_by_rules q cs (snd x)"
  unfolding scored_by_rules_def set_map
  by (force simp: in_set_enumerate_eq score_chunk_def split_beta unranked_def)

lemma rerank_scored: "list_all (scored_by_rules q cs) (ro_chunks (rerank_context_chunks q cs limit))"
proof -
  define l where "l = map (score_chunk (tokenize q)) (enumerate 0 cs)"
  have "scored_by_rules q cs (snd x)" if "x \<in> set (take limit (sort_desc fst l))" for x
    using score_chunk_scored [of x q cs] in_set_takeD [OF that] unfolding l_def [symmetric] by simp
  then show ?thesis
    unfolding rerank_chunks_eq l_def [symmetric] list_all_rank [OF scored_by_rules_rank]
    by (auto simp: list_all_iff)
qed

text \<open>
  Reranking returns the best \<open>limit\<close> chunks: it is a prefix of the ranking of all candidates, which
  is a permutation of them, changed in nothing but score, reason and rank; every score is the rules' score
  of the chunk at its original position, the scores do not increase, and the ranks are 1, 2, 3, and so on.
\<close>

theorem rerank_returns_ranked_selection:
  "let out = ro_chunks (rerank_context_chunks q cs limit);
       ranking = ro_chunks (rerank_context_chunks q cs (length cs))
   in out = take limit ranking \<and> mset (map unranked ranking) = mset (map unranked cs) \<and>
      list_all (scored_by_rules q cs) ranking \<and>
      sorted_wrt (\<lambda>a b. ck_rerank_score b \<le> ck_rerank_score a) ranking \<and>
      map ck_final_rank out = map (\<lambda>i. int i + 1) [0..<min limit (length cs)]"
  unfolding Let_def
proof (intro conjI)
  show "ro_chunks (rerank_context_chunks q cs limit) = take limit (ro_chunks (rerank_context_chunks q cs (length cs)))"
    by (rule rerank_is_prefix)
  show "map ck_final_rank (ro_chunks (rerank_context_chunks q cs limit))
      = map (\<lambda>i. int i + 1) [0..<min limit (length cs)]"
    by (simp add: rerank_chunks_eq final_ranks min.commute)
qed (rule rerank_is_permutation rerank_scored rerank_scores_sorted)+

section \<open>What the cache keeps\<close>

lemma dict_set_keys: "map fst (dict_set k v m) = (if k \<in> fst ` set m then map fst m else map fst m @ [k])"
  by (induction k v m rule: dict_set.induct) auto

lemma dict_set_lookup: "map_of (dict_set k v m) = (map_of m)(k \<mapsto> v)"
  by (induction k v m rule: dict_set.induct) (auto simp: fun_eq_iff)

lemma length_dict_set: "length (dict_set k v m) = (if k \<in> fst ` set m then length m else length m + 1)"
  using arg_cong [OF dict_set_keys [of k v m], of length] by (simp split: if_splits)

definition cache_ok :: "retrieval_cache \<Rightarrow> bool" where
  "cache_ok c \<longleftrightarrow> distinct (map fst (entries c)) \<and> int (length (entries c)) \<le> max 0 (max_entries c)"

lemma cache_ok_new: "cache_ok (new_cache n)"
  by (simp add: cache_ok_def new_cache_def)

lemma cache_ok_get: "cache_ok c \<Longrightarrow> cache_ok (snd (cache_get key c))"
  by (simp add: cache_ok_def cache_get_def split: option.split)

lemma cache_put_ok:
  assumes "cache_ok c" and "cache_put key cs c = Inr c'"
  shows "cache_ok c' \<and> max_entries c' = max_entries c \<and> map_of (entries c') key = Some cs"
proof (cases "key \<notin> fst ` set (entries c) \<and> max_entries c \<le> int (length (entries c))")
  case True
  then obtain e rest where e: "entries c = e # rest" and c': "c' = c\<lparr>entries := dict_set key cs rest\<rparr>"
    using assms(2) by (auto simp: cache_put_def split: list.splits)
  have "key \<notin> fst ` set rest" using True e by auto
  then show ?thesis
    using assms(1) e c' by (simp add: cache_ok_def dict_set_keys length_dict_set dict_set_lookup)
next
  case False
  then have "c' = c\<lparr>entries := dict_set key cs (entries c)\<rparr>" 
    using assms(2) unfolding cache_put_def if_not_P [OF False] by simp
  then show ?thesis
    using assms(1) False by (auto simp: cache_ok_def dict_set_keys length_dict_set dict_set_lookup)
qed

lemma cache_put_total: "1 \<le> max_entries c \<Longrightarrow> \<exists>c'. cache_put key cs c = Inr c'"
  by (auto simp: cache_put_def split: list.split)

end
