(* ===== verification/Deadline.thy ===== *)
theory Deadline
  imports Prelude
begin

text \<open>
  \<open>services/agent-runtime/allcallall_agent_runtime/deadline.py\<close>: the execution deadline
  of a run, cooperative cancellation, and the retry budget that provider and workflow
  retries share.

  The clock is an argument: each operation that reads \<open>time.monotonic()\<close> takes the reading
  as \<open>now\<close>. \<open>datetime.fromisoformat\<close> is a parameter, given as what the code observes of
  it: nothing (it raised), a naive date, or an aware one with its UTC time in seconds.
\<close>

section \<open>Cancellation reasons and exceptions\<close>

definition valid_cancel_reasons :: "string list" where
  "valid_cancel_reasons =
     [''client_cancelled'', ''deadline_exceeded'', ''shutdown'', ''lease_lost'']"

datatype deadline_error =
    ValueError
  | ExecutionCancelled string
  | RuntimeError

text \<open>The constructor \<open>ExecutionCancelled(reason)\<close>: what evaluating it raises.\<close>

definition execution_cancelled :: "string \<Rightarrow> deadline_error" where
  "execution_cancelled reason =
     (if reason \<notin> set valid_cancel_reasons then ValueError else ExecutionCancelled reason)"

section \<open>The deadline\<close>

record deadline =
  monotonic_deadline :: seconds
  cancelled :: bool
  cancel_reason :: "string option"

definition new_deadline :: "seconds \<Rightarrow> deadline" where
  "new_deadline d = \<lparr>monotonic_deadline = d, cancelled = False, cancel_reason = None\<rparr>"

datatype iso_result = IsoInvalid | IsoNaive | IsoAware seconds

definition py_space :: "char \<Rightarrow> bool" where
  "py_space c \<longleftrightarrow>
     c \<in> set [CHR '' '', CHR 0x09, CHR 0x0A, CHR 0x0B, CHR 0x0C, CHR 0x0D,
              CHR 0x1C, CHR 0x1D, CHR 0x1E, CHR 0x1F]"

definition rstrip :: "string \<Rightarrow> string" where
  "rstrip s = rev (dropWhile py_space (rev s))"

definition parse_rfc3339 :: "(string \<Rightarrow> iso_result) \<Rightarrow> string \<Rightarrow> seconds option" where
  "parse_rfc3339 fromisoformat value =
     (let stripped = rstrip value;
          normalized = (if stripped \<noteq> [] \<and> last stripped = CHR ''Z''
                        then butlast stripped @ ''+00:00'' else stripped)
      in case fromisoformat normalized of
           IsoInvalid \<Rightarrow> None
         | IsoNaive \<Rightarrow> None
         | IsoAware utc \<Rightarrow> Some utc)"

definition from_header ::
  "(string \<Rightarrow> iso_result) \<Rightarrow> seconds \<Rightarrow> seconds \<Rightarrow> string option \<Rightarrow> seconds \<Rightarrow> deadline" where
  "from_header fromisoformat now_mono now_utc value default_seconds =
     (let caller_deadline_utc =
            (case value of None \<Rightarrow> None | Some v \<Rightarrow> parse_rfc3339 fromisoformat v);
          local_max_mono = now_mono + default_seconds;
          effective_mono =
            (case caller_deadline_utc of
               Some utc \<Rightarrow> min (now_mono + (utc - now_utc)) local_max_mono
             | None \<Rightarrow> local_max_mono)
      in new_deadline effective_mono)"

definition remaining_seconds :: "deadline \<Rightarrow> seconds \<Rightarrow> seconds" where
  "remaining_seconds d now = max 0 (monotonic_deadline d - now)"

definition expired :: "deadline \<Rightarrow> seconds \<Rightarrow> bool" where
  "expired d now \<longleftrightarrow> remaining_seconds d now \<le> 0"

definition cancel :: "string \<Rightarrow> deadline \<Rightarrow> (deadline_error, deadline) result" where
  "cancel reason d =
     (if reason \<notin> set valid_cancel_reasons then Inl ValueError
      else Inr (d\<lparr>cancelled := True, cancel_reason := Some reason\<rparr>))"

text \<open>\<open>self._cancel_reason or "client_cancelled"\<close>: the default replaces both \<open>None\<close> and \<open>""\<close>.\<close>

definition reason_or_default :: "string option \<Rightarrow> string" where
  "reason_or_default r =
     (case r of None \<Rightarrow> ''client_cancelled''
      | Some s \<Rightarrow> if s = '''' then ''client_cancelled'' else s)"

definition raise_if_cancelled :: "deadline \<Rightarrow> seconds \<Rightarrow> (deadline_error, unit) result" where
  "raise_if_cancelled d now =
     (if cancelled d then Inl (execution_cancelled (reason_or_default (cancel_reason d)))
      else if expired d now then Inl (execution_cancelled ''deadline_exceeded'')
      else Inr ())"

section \<open>The retry budget\<close>

record retry_budget =
  max_attempts :: int
  budget_deadline :: deadline
  attempts_used :: nat

definition new_retry_budget :: "int \<Rightarrow> deadline \<Rightarrow> retry_budget" where
  "new_retry_budget n d =
     \<lparr>max_attempts = max 1 n, budget_deadline = d, attempts_used = 0\<rparr>"

text \<open>
  \<open>random.uniform(0, b)\<close> is \<open>b\<close> times a random number from the unit interval; the random
  number is the argument \<open>r\<close>.
\<close>

definition default_jitter :: "rat \<Rightarrow> seconds \<Rightarrow> seconds" where
  "default_jitter r raw_delay = r * max (raw_delay / 4) (1 / 100)"

definition next_delay ::
  "(seconds \<Rightarrow> seconds) \<Rightarrow> seconds \<Rightarrow> seconds \<Rightarrow> seconds \<Rightarrow> retry_budget
     \<Rightarrow> seconds option \<times> retry_budget" where
  "next_delay jitter_fn now base maximum b =
     (if max_attempts b \<le> int (attempts_used b) then (None, b)
      else
        let remaining = remaining_seconds (budget_deadline b) now
        in if remaining \<le> 0 then (None, b)
           else
             let attempt = attempts_used b + 1;
                 raw_delay = min maximum (base * 2 ^ (attempt - 1));
                 delay = min (raw_delay + jitter_fn raw_delay) maximum
             in if remaining \<le> delay then (None, b)
                else (Some delay, b\<lparr>attempts_used := attempts_used b + 1\<rparr>))"

section \<open>The request-scoped deadline\<close>

text \<open>The context variable is a \<^typ>\<open>deadline option\<close>, \<^const>\<open>None\<close> when nothing is bound.\<close>

type_synonym deadline_ctx = "deadline option"

definition get_current_deadline :: "deadline_ctx \<Rightarrow> deadline option" where
  "get_current_deadline ctx = ctx"

definition set_current_deadline :: "deadline option \<Rightarrow> deadline_ctx \<Rightarrow> deadline_ctx" where
  "set_current_deadline d ctx = d"

definition require_current_deadline :: "deadline_ctx \<Rightarrow> (deadline_error, deadline) result" where
  "require_current_deadline ctx =
     (case ctx of None \<Rightarrow> Inl RuntimeError | Some d \<Rightarrow> Inr d)"

definition current_retry_budget :: "deadline_ctx \<Rightarrow> int \<Rightarrow> retry_budget option" where
  "current_retry_budget ctx n =
     (case get_current_deadline ctx of None \<Rightarrow> None | Some d \<Rightarrow> Some (new_retry_budget n d))"

text \<open>\<open>_check_cancelled\<close>, the cooperative cancellation point of every graph node.\<close>

definition check_cancelled :: "deadline_ctx \<Rightarrow> seconds \<Rightarrow> (deadline_error, unit) result" where
  "check_cancelled ctx now =
     (case get_current_deadline ctx of None \<Rightarrow> Inr () | Some d \<Rightarrow> raise_if_cancelled d now)"

section \<open>Lemmas\<close>

lemma remaining_nonneg [simp]: "0 \<le> remaining_seconds d now"
  by (simp add: remaining_seconds_def)

lemma expired_iff: "expired d now \<longleftrightarrow> monotonic_deadline d \<le> now"
  by (auto simp: expired_def remaining_seconds_def)

lemma expired_mono: "expired d now \<Longrightarrow> now \<le> later \<Longrightarrow> expired d later"
  by (auto simp: expired_iff)

lemma next_delay_SomeD:
  assumes "next_delay j now base maximum b = (Some delay, b')"
  shows "delay \<le> maximum" and "delay < remaining_seconds (budget_deadline b) now"
    and "b' = b\<lparr>attempts_used := attempts_used b + 1\<rparr>"
    and "int (attempts_used b') \<le> max_attempts b"
    and "delay = min (min maximum (base * 2 ^ attempts_used b)
                 + j (min maximum (base * 2 ^ attempts_used b))) maximum"
  using assms by (auto simp: next_delay_def Let_def split: if_splits)

lemma next_delay_NoneD:
  "next_delay j now base maximum b = (None, b') \<Longrightarrow> b' = b"
  by (auto simp: next_delay_def Let_def split: if_splits)

lemma next_delay_deadline [simp]:
  "budget_deadline (snd (next_delay j now base maximum b)) = budget_deadline b"
  "max_attempts (snd (next_delay j now base maximum b)) = max_attempts b"
  by (simp_all add: next_delay_def Let_def)

lemma next_delay_nonneg:
  assumes "next_delay j now base maximum b = (Some delay, b')"
    and "0 \<le> base" and "0 \<le> maximum" and "\<And>x. 0 \<le> x \<Longrightarrow> 0 \<le> j x"
  shows "0 \<le> delay"
proof -
  let ?raw = "min maximum (base * 2 ^ attempts_used b)"
  have "0 \<le> ?raw" using assms(2,3) by simp
  moreover from this have "0 \<le> j ?raw" by (rule assms(4))
  ultimately show ?thesis
    using next_delay_SomeD(5) [OF assms(1)] assms(3) by simp
qed

lemma default_jitter_bounds [bounds_simps]:
  assumes "0 \<le> r" and "r \<le> 1"
  shows "0 \<le> default_jitter r raw" and "default_jitter r raw \<le> max (raw / 4) (1 / 100)"
proof -
  have m: "0 \<le> max (raw / 4) (1 / 100 :: rat)" by simp
  show "0 \<le> default_jitter r raw"
    using assms(1) m by (simp add: default_jitter_def)
  show "default_jitter r raw \<le> max (raw / 4) (1 / 100)"
    using mult_right_mono [OF assms(2) m] by (simp add: default_jitter_def)
qed

section \<open>Histories\<close>

text \<open>A history of \<open>cancel\<close> calls; a call with an invalid reason raises and changes nothing.\<close>

definition try_cancel :: "string \<Rightarrow> deadline \<Rightarrow> deadline" where
  "try_cancel reason d = (case cancel reason d of Inl _ \<Rightarrow> d | Inr d' \<Rightarrow> d')"

text \<open>A history of \<open>next_delay\<close> calls by any of the clients that share the budget.\<close>

record delay_call =
  call_jitter :: "seconds \<Rightarrow> seconds"
  call_now :: seconds
  call_base :: seconds
  call_max :: seconds

fun next_delays :: "delay_call list \<Rightarrow> retry_budget \<Rightarrow> (delay_call \<times> seconds) list \<times> retry_budget"
where
  "next_delays [] b = ([], b)"
| "next_delays (c # cs) b =
     (case next_delay (call_jitter c) (call_now c) (call_base c) (call_max c) b of
        (None, b') \<Rightarrow> next_delays cs b'
      | (Some d, b') \<Rightarrow> (let (ds, b'') = next_delays cs b' in ((c, d) # ds, b'')))"

definition reason_ok :: "deadline \<Rightarrow> bool" where
  "reason_ok d \<longleftrightarrow>
     (case cancel_reason d of None \<Rightarrow> True | Some r \<Rightarrow> r \<in> set valid_cancel_reasons)"

lemma reason_ok_new [simp]: "reason_ok (new_deadline t)"
  by (simp add: reason_ok_def new_deadline_def)

lemma reason_ok_try_cancel: "reason_ok d \<Longrightarrow> reason_ok (try_cancel r d)"
  by (auto simp: reason_ok_def try_cancel_def cancel_def)

lemma reason_ok_history: "reason_ok d \<Longrightarrow> reason_ok (fold try_cancel rs d)"
  by (induction rs arbitrary: d) (auto intro: reason_ok_try_cancel)

lemma try_cancel_mono:
  "cancelled d \<Longrightarrow> cancelled (try_cancel r d)"
  "monotonic_deadline (try_cancel r d) = monotonic_deadline d"
  by (auto simp: try_cancel_def cancel_def)

lemma history_mono:
  "cancelled d \<Longrightarrow> cancelled (fold try_cancel rs d)"
  "monotonic_deadline (fold try_cancel rs d) = monotonic_deadline d"
  by (induction rs arbitrary: d) (simp_all add: try_cancel_mono)

lemma raise_if_cancelled_cases:
  assumes "reason_ok d"
  shows "raise_if_cancelled d now = Inr () \<or>
    (\<exists>r \<in> set valid_cancel_reasons. raise_if_cancelled d now = Inl (ExecutionCancelled r))"
proof -
  have "reason_or_default (cancel_reason d) \<in> set valid_cancel_reasons"
    using assms
    by (auto simp: reason_ok_def reason_or_default_def valid_cancel_reasons_def split: option.splits)
  then show ?thesis
    by (auto simp: raise_if_cancelled_def execution_cancelled_def valid_cancel_reasons_def)
qed

lemma raises_iff: "raise_if_cancelled d now \<noteq> Inr () \<longleftrightarrow> cancelled d \<or> expired d now"
  by (simp add: raise_if_cancelled_def)

lemma next_delays_ConsE:
  assumes "next_delays (c # cs) b = (gs, b')"
  obtains (refused) "next_delays cs b = (gs, b')"
  | (granted) d b1 gs1
    where "next_delay (call_jitter c) (call_now c) (call_base c) (call_max c) b = (Some d, b1)"
      and "next_delays cs b1 = (gs1, b')" and "gs = (c, d) # gs1"
proof (cases "next_delay (call_jitter c) (call_now c) (call_base c) (call_max c) b")
  case (Pair o1 b1)
  show ?thesis
  proof (cases o1)
    case None
    with Pair have "b1 = b" by (auto dest: next_delay_NoneD)
    with assms Pair None show ?thesis by (auto intro: refused)
  next
    case (Some d)
    with assms Pair show ?thesis by (auto intro: granted split: prod.splits)
  qed
qed

lemma next_delays_frame:
  "next_delays cs b = (gs, b') \<Longrightarrow>
     max_attempts b' = max_attempts b \<and> budget_deadline b' = budget_deadline b \<and>
     attempts_used b' = attempts_used b + length gs"
proof (induction cs arbitrary: b gs)
  case (Cons c cs)
  from Cons.prems show ?case
  proof (cases rule: next_delays_ConsE)
    case refused
    then show ?thesis by (rule Cons.IH)
  next
    case (granted d b1 gs1)
    from Cons.IH [OF granted(2)] next_delay_SomeD(3) [OF granted(1)] granted(3)
    show ?thesis by simp
  qed
qed simp

lemma next_delay_grant_fits:
  assumes "next_delay j now base maximum b = (Some d, b1)"
  shows "now + d < monotonic_deadline (budget_deadline b)"
  using assms
  by (auto simp: remaining_seconds_def next_delay_def Let_def split: if_splits)

lemma next_delays_within:
  "next_delays cs b = (gs, b') \<Longrightarrow> int (attempts_used b) \<le> max_attempts b \<Longrightarrow>
     int (attempts_used b') \<le> max_attempts b \<and>
     list_all (\<lambda>(c, d). d \<le> call_max c \<and>
       call_now c + d < monotonic_deadline (budget_deadline b)) gs"
proof (induction cs arbitrary: b gs)
  case (Cons c cs)
  from Cons.prems(1) show ?case
  proof (cases rule: next_delays_ConsE)
    case refused
    then show ?thesis using Cons.prems(2) by (rule Cons.IH)
  next
    case (granted d b1 gs1)
    note one = next_delay_SomeD [OF granted(1)]
    have "int (attempts_used b1) \<le> max_attempts b1" using one(3,4) by simp
    from Cons.IH [OF granted(2) this] one(1,3) next_delay_grant_fits [OF granted(1)] granted(3)
    show ?thesis by simp
  qed
qed simp

section \<open>Properties\<close>

text \<open>
  A run cannot outlive the local maximum. Whatever the \<open>X-AllCallAll-Deadline\<close> header
  holds (absent, malformed, far in the future), from \<open>default_seconds\<close> after the
  deadline was built every cooperative cancellation point raises, and raises one of the
  bounded reason codes, however often the run was cancelled in between.
\<close>

theorem run_cannot_outlive_local_maximum:
  assumes "m + dflt \<le> now"
  shows "\<exists>r \<in> set valid_cancel_reasons.
    raise_if_cancelled (fold try_cancel rs (from_header fromiso m u v dflt)) now
      = Inl (ExecutionCancelled r)"
proof -
  let ?d = "from_header fromiso m u v dflt"
  let ?e = "fold try_cancel rs ?d"
  have "monotonic_deadline ?d \<le> m + dflt"
    by (simp add: from_header_def new_deadline_def Let_def split: option.split)
  with assms have "expired ?e now" by (simp add: expired_iff history_mono)
  then have "raise_if_cancelled ?e now \<noteq> Inr ()" by (simp add: raises_iff)
  moreover have "reason_ok ?d" by (simp add: from_header_def Let_def)
  ultimately show ?thesis
    using raise_if_cancelled_cases [OF reason_ok_history, of ?d rs now] by blast
qed

theorem run_cannot_outlive_local_maximum_witness:
  "\<exists>r \<in> set valid_cancel_reasons.
    raise_if_cancelled (fold try_cancel [''shutdown'', ''nonsense'']
      (from_header (\<lambda>_. IsoAware 900) 10 100 (Some ''2026-01-01T00:00:00Z'') 30)) 45
      = Inl (ExecutionCancelled r)"
  by (rule run_cannot_outlive_local_maximum) simp

text \<open>
  Cancellation is sticky. Once a cancellation point has raised, it raises at every later
  time too, after any further calls of \<open>cancel\<close> with valid or invalid reasons.
\<close>

theorem cancellation_is_sticky:
  assumes "raise_if_cancelled d now \<noteq> Inr ()" and "now \<le> later"
  shows "raise_if_cancelled (fold try_cancel rs d) later \<noteq> Inr ()"
  using assms by (auto simp: raises_iff history_mono expired_iff)

theorem cancellation_is_sticky_witness:
  "raise_if_cancelled (fold try_cancel [''bogus''] (try_cancel ''shutdown'' (new_deadline 9))) 5
     \<noteq> Inr ()"
  by (rule cancellation_is_sticky [where now = 2])
    (simp_all add: try_cancel_def cancel_def new_deadline_def valid_cancel_reasons_def
      raise_if_cancelled_def)

text \<open>
  C14: the shared retry budget. Over any history of \<open>next_delay\<close> calls, by any clients with
  any jitter, base and cap, at most \<open>max(1, max_attempts)\<close> delays are granted, each granted
  delay respects its cap, and a client that sleeps for it wakes up strictly before the
  deadline.
\<close>

theorem retry_budget_is_shared_and_bounded:
  "case next_delays cs (new_retry_budget n d) of
     (gs, b') \<Rightarrow> int (length gs) \<le> max 1 n \<and> int (attempts_used b') = int (length gs) \<and>
       list_all (\<lambda>(c, s). s \<le> call_max c \<and> call_now c + s < monotonic_deadline d) gs"
proof -
  let ?b = "new_retry_budget n d"
  obtain gs b' where run: "next_delays cs ?b = (gs, b')" by fastforce
  have start: "int (attempts_used ?b) \<le> max_attempts ?b" by (simp add: new_retry_budget_def)
  from next_delays_frame [OF run] next_delays_within [OF run start] run
  show ?thesis by (simp add: new_retry_budget_def)
qed

end
