(* ===== verification/RetrievalNodes.thy ===== *)
theory RetrievalNodes
  imports Rerank Deadline
begin

text \<open>
  \<open>services/agent-runtime/allcallall_agent_runtime/nodes/retrieval.py\<close> and \<open>grounding.py\<close>: the
  retrieval loop and the nodes that turn chunks into evidence, merge the role results, and criticise
  the draft.

  A node maps the graph state to an exception or to the state after its in-place mutations and the
  update it returns. The RAG runtime, the tool bridge and the clock answer per iteration: they are
  functions of the iteration number and of the arguments of the call. The handles of the state
  (deadline context, cache) are arguments.
\<close>

section \<open>Exceptions and the outside world\<close>

datatype node_error =
    Cancelled deadline_error
  | StopIteration
  | HistoryError history_error
  | KeyMissing string
  | ValueRaised string

record rag_observation =
  rag_chunks :: "context_chunk list"
  rag_confidence :: rat
  rag_sufficient :: bool
  rag_attempts :: int

type_synonym rag_client =
  "nat \<Rightarrow> workflow_request \<Rightarrow> plan_step \<Rightarrow> retrieval_plan \<Rightarrow> (ustring, rag_observation option) result"

type_synonym read_bridge =
  "nat \<Rightarrow> workflow_request \<Rightarrow> string \<Rightarrow> json_object \<Rightarrow> (ustring, context_chunk list option) result"

definition node_check :: "deadline_ctx \<Rightarrow> seconds \<Rightarrow> (node_error, unit) result" where
  "node_check ctx now = (case check_cancelled ctx now of Inl e \<Rightarrow> Inl (Cancelled e) | Inr u \<Rightarrow> Inr u)"

section \<open>Retrieval mode and ownership\<close>

definition effective_retrieval_mode :: "workflow_request \<Rightarrow> string" where
  "effective_retrieval_mode rq =
     (if rq_retrieval_mode rq \<in> {''go_context'', ''rag_runtime'', ''hybrid''} then rq_retrieval_mode rq
      else ''hybrid'')"

definition resolve_fingerprint :: "(string \<Rightarrow> string) \<Rightarrow> workflow_request \<Rightarrow> string" where
  "resolve_fingerprint sha rq =
     (if rq_context_fingerprint rq \<noteq> '''' then rq_context_fingerprint rq
      else compute_context_fingerprint sha (rq_context_chunks rq))"

definition should_call_rag ::
  "string \<Rightarrow> retrieval_plan \<Rightarrow> plan_step \<Rightarrow> context_chunk list \<Rightarrow> bool" where
  "should_call_rag mode plan step gathered =
     (if mode = ''go_context'' then False
      else if mode = ''rag_runtime'' then True
      else
        (let gathered_types = ck_source_type ` set gathered;
             required = ir_required_source_types (rp_intent_route plan)
         in ps_source_scope step \<noteq> ''all'' \<and> ps_source_scope step \<notin> gathered_types \<or>
            filter (\<lambda>t. t \<notin> gathered_types) required \<noteq> []))"

section \<open>One retrieval step\<close>

definition step_input :: "workflow_request \<Rightarrow> retrieval_plan \<Rightarrow> plan_step \<Rightarrow> json_object" where
  "step_input rq plan step =
     [(''conversation_id'', JInt (rq_conversation_id rq)), (''query'', JStr (ps_query step)),
      (''limit'', JInt 6), (''source_type'', jstr (ps_source_scope step)),
      (''strategy'', jstr (ps_strategy step)), (''expanded_terms'', jtexts (ps_expanded_terms step)),
      (''route_intent'', jstr (ir_intent (rp_intent_route plan)))]"

definition loop_event :: "string \<Rightarrow> string \<Rightarrow> plan_step \<Rightarrow> trace_event" where
  "loop_event ev stat step =
     (trace_event0 ev ''retrieval_loop'')\<lparr>ev_status := stat, ev_iteration := Some (ps_step step)\<rparr>"

definition call_event :: "workflow_request \<Rightarrow> retrieval_plan \<Rightarrow> plan_step \<Rightarrow> trace_event" where
  "call_event rq plan step =
     (loop_event ''rag.tool_call'' ''running'' step)
       \<lparr>ev_tool_name := ps_tool_name step, ev_tool_input := step_input rq plan step,
        ev_metadata := [(''source_scope'', jstr (ps_source_scope step)),
                        (''rationale'', JStr (ps_rationale step))]\<rparr>"

definition bridge_failed :: "plan_step \<Rightarrow> ustring \<Rightarrow> trace_event" where
  "bridge_failed step err =
     (loop_event ''rag.tool_bridge_call'' ''failed'' step)
       \<lparr>ev_tool_name := ps_tool_name step, ev_observation := err,
        ev_metadata := [(''fallback'', jstr ''preloaded_context'')]\<rparr>"

definition runtime_failed :: "plan_step \<Rightarrow> ustring \<Rightarrow> trace_event" where
  "runtime_failed step err =
     (loop_event ''rag.runtime_call'' ''failed'' step)
       \<lparr>ev_tool_name := ''rag_runtime.agentic'', ev_observation := err,
        ev_metadata := [(''fallback'', jstr ''go_tool_bridge_or_preloaded_context'')]\<rparr>"

definition runtime_called :: "plan_step \<Rightarrow> rag_observation \<Rightarrow> trace_event" where
  "runtime_called step ob =
     (loop_event ''rag.runtime_call'' ''completed'' step)
       \<lparr>ev_tool_name := ''rag_runtime.agentic'',
        ev_metadata := [(''confidence'', JNum (rag_confidence ob)), (''sufficient'', JBool (rag_sufficient ob)),
          (''attempts'', JInt (rag_attempts ob)), (''returned'', jlen (rag_chunks ob))]\<rparr>"

text \<open>The read through the bridge: an observation replaces the selection, an error is traced.\<close>

definition via_bridge ::
  "(ustring, context_chunk list option) result \<Rightarrow> plan_step \<Rightarrow> context_chunk list \<Rightarrow> ustring
     \<Rightarrow> context_chunk list \<times> ustring \<times> trace_event list" where
  "via_bridge answer step selected suffix =
     (case answer of
        Inl err \<Rightarrow> (selected, suffix, [bridge_failed step err])
      | Inr None \<Rightarrow> (selected, suffix, [])
      | Inr (Some cs) \<Rightarrow> (cs, (codes '' via go_tool_bridge''), []))"

definition select_remote ::
  "rag_client \<Rightarrow> read_bridge \<Rightarrow> nat \<Rightarrow> workflow_request \<Rightarrow> retrieval_plan \<Rightarrow> plan_step
     \<Rightarrow> context_chunk list \<times> ustring \<times> trace_event list" where
  "select_remote rag bridge n rq plan step =
     (let (selected, used_runtime, suffix, evs) =
            (case rag n rq step plan of
               Inl err \<Rightarrow> ([], False, (codes '' via preloaded_context''), [runtime_failed step err])
             | Inr None \<Rightarrow> ([], False, (codes '' via preloaded_context''), [])
             | Inr (Some ob) \<Rightarrow> (rag_chunks ob, True, (codes '' via rag_runtime''), [runtime_called step ob]));
          selected' = (if selected = [] then local_agentic_retrieval (rq_context_chunks rq) step else selected)
      in if used_runtime then (selected', suffix, evs)
         else
           (case via_bridge (bridge n rq (ps_tool_name step) (step_input rq plan step)) step selected' suffix of
              (sel, suf, evs') \<Rightarrow> (sel, suf, evs @ evs')))"

definition local_event :: "string \<Rightarrow> plan_step \<Rightarrow> trace_event" where
  "local_event mode step =
     (loop_event ''rag.local_only'' ''completed'' step)
       \<lparr>ev_metadata := [(''retrieval_mode'', jstr mode), (''source_scope'', jstr (ps_source_scope step))]\<rparr>"

definition select_local ::
  "read_bridge \<Rightarrow> nat \<Rightarrow> string \<Rightarrow> workflow_request \<Rightarrow> retrieval_plan \<Rightarrow> plan_step
     \<Rightarrow> context_chunk list \<times> ustring \<times> trace_event list" where
  "select_local bridge n mode rq plan step =
     (let selected = local_agentic_retrieval (rq_context_chunks rq) step
      in if selected = [] then
           (case via_bridge (bridge n rq (ps_tool_name step) (step_input rq plan step)) step selected
                   (codes '' via preloaded_context'') of
              (sel, suf, evs) \<Rightarrow> (sel, suf, evs @ [local_event mode step]))
         else (selected, (codes '' via preloaded_context''), [local_event mode step]))"

definition cache_hit_event :: "plan_step \<Rightarrow> trace_event" where
  "cache_hit_event step =
     (loop_event ''rag.cache_hit'' ''completed'' step)
       \<lparr>ev_metadata := [(''query'', JStr (take 80 (ps_query step))), (''source_scope'', jstr (ps_source_scope step))]\<rparr>"

record loop_state =
  ls_trace :: "trace_event list"
  ls_cache :: retrieval_cache
  ls_attempts :: "retrieval_attempt list"
  ls_gathered :: "context_chunk list"
  ls_confidence :: rat

definition make_attempt ::
  "retrieval_plan \<Rightarrow> plan_step \<Rightarrow> context_chunk list \<Rightarrow> ustring \<Rightarrow> rat \<Rightarrow> retrieval_attempt" where
  "make_attempt plan step selected suffix confidence =
     \<lparr>ra_step = ps_step step, ra_query = ps_query step, ra_tool_name = ps_tool_name step,
      ra_source_scope = ps_source_scope step, ra_hit_count = int (length selected),
      ra_source_types = sort (remdups (map ck_source_type selected)),
      ra_selected_chunk_ids = map chunk_key selected,
      ra_observation = summarize_observation (ps_tool_name step) selected @ suffix,
      ra_refined = (1 < ps_step step), ra_confidence = confidence, ra_strategy = ps_strategy step,
      ra_expanded_terms = ps_expanded_terms step,
      ra_graph_edge_ids = map ge_edge_id (gx_edges (rp_graph_expansion plan))\<rparr>"

definition observe_event :: "string \<Rightarrow> plan_step \<Rightarrow> retrieval_attempt \<Rightarrow> trace_event" where
  "observe_event mode step a =
     (loop_event ''rag.observe'' ''completed'' step)
       \<lparr>ev_observation := ra_observation a,
        ev_metadata := [(''hit_count'', JInt (ra_hit_count a)), (''confidence'', JNum (ra_confidence a)),
          (''source_types'', jstrs (ra_source_types a)), (''retrieval_mode'', jstr mode)]\<rparr>"

text \<open>
  The body of the loop. \<open>seen_chunks\<close> is always the set of the keys of \<open>gathered\<close>.
\<close>

definition retrieval_step ::
  "rag_client \<Rightarrow> read_bridge \<Rightarrow> string \<Rightarrow> string \<Rightarrow> workflow_request \<Rightarrow> retrieval_plan \<Rightarrow> nat \<Rightarrow> plan_step
     \<Rightarrow> loop_state \<Rightarrow> (node_error, loop_state) result" where
  "retrieval_step rag bridge mode fingerprint rq plan n step l =
     (let key = make_cache_key (ps_query step) (ps_source_scope step)
                  (ir_retrieval_strategy (rp_intent_route plan)) fingerprint (rq_corpus_version rq);
          (cached, cache1) = cache_get key (ls_cache l);
          (selected, suffix, evs) =
            (case cached of
               Some cs \<Rightarrow> (cs, (codes '' via cache''), [cache_hit_event step])
             | None \<Rightarrow>
                 (if should_call_rag mode plan step (ls_gathered l)
                  then select_remote rag bridge n rq plan step
                  else select_local bridge n mode rq plan step));
          gathered = ls_gathered l @ dedup_by chunk_key (chunk_key ` set (ls_gathered l)) selected;
          confidence = estimate_retrieval_confidence rq gathered;
          attempt = make_attempt plan step selected suffix confidence
      in and_then (if cached = None \<and> selected \<noteq> []
                   then (case cache_put key selected cache1 of Inl _ \<Rightarrow> Inl StopIteration | Inr c \<Rightarrow> Inr c)
                   else Inr cache1)
           (\<lambda>cache2. Inr
              \<lparr>ls_trace = ls_trace l @ [call_event rq plan step] @ evs @ [observe_event mode step attempt],
               ls_cache = cache2, ls_attempts = ls_attempts l @ [attempt], ls_gathered = gathered,
               ls_confidence = confidence\<rparr>))"

fun retrieval_steps ::
  "deadline_ctx \<Rightarrow> (nat \<Rightarrow> seconds) \<Rightarrow> rag_client \<Rightarrow> read_bridge \<Rightarrow> string \<Rightarrow> string \<Rightarrow> workflow_request
     \<Rightarrow> retrieval_plan \<Rightarrow> nat \<Rightarrow> plan_step list \<Rightarrow> loop_state \<Rightarrow> (node_error, loop_state) result" where
  "retrieval_steps ctx clock rag bridge mode fp rq plan n [] l = Inr l"
| "retrieval_steps ctx clock rag bridge mode fp rq plan n (step # steps) l =
     and_then (node_check ctx (clock n)) (\<lambda>_.
       and_then (retrieval_step rag bridge mode fp rq plan n step l) (\<lambda>l'.
         if ir_intent (rp_intent_route plan) = ''chat'' \<and> rp_min_confidence plan \<le> ls_confidence l'
         then Inr l'
         else retrieval_steps ctx clock rag bridge mode fp rq plan (n + 1) steps l'))"

definition skipped_events :: "string \<Rightarrow> workflow_request \<Rightarrow> trace_event list" where
  "skipped_events mode rq =
     [(trace_event0 ''rag.observe'' ''retrieval_loop'')
        \<lparr>ev_status := ''skipped'',
         ev_observation := (codes ''agentic rag disabled; using preloaded Go context''),
         ev_metadata := [(''preloaded_context_chunks'', jlen (rq_context_chunks rq))]\<rparr>] @
     (if mode = ''go_context'' then
        [(trace_event0 ''retrieval.mode'' ''retrieval_loop'')
           \<lparr>ev_observation := (codes ''go_context mode: using preloaded Go context only''),
            ev_metadata := [(''retrieval_mode'', jstr ''go_context''),
                            (''context_chunks'', jlen (rq_context_chunks rq))]\<rparr>]
      else [])"

definition retrieval_loop ::
  "(string \<Rightarrow> string) \<Rightarrow> deadline_ctx \<Rightarrow> (nat \<Rightarrow> seconds) \<Rightarrow> rag_client \<Rightarrow> read_bridge
     \<Rightarrow> retrieval_cache option \<Rightarrow> graph_state \<Rightarrow> (node_error, retrieval_cache \<times> graph_state) result" where
  "retrieval_loop sha ctx clock rag bridge cache0 s =
     (let rq = st_request s;
          plan = opt_or (st_retrieval_plan s) retrieval_plan0;
          mode = effective_retrieval_mode rq;
          fp = resolve_fingerprint sha rq;
          cache = opt_or cache0 (new_cache 16);
          trace = opt_or (st_trace_events s) [] @ [node_started ''retrieval_loop'']
      in and_then (node_check ctx (clock 0)) (\<lambda>_.
        if \<not> rp_enabled plan then
          Inr (cache, s\<lparr>st_trace_events := Some (trace @ skipped_events mode rq @ [node_completed ''retrieval_loop'']),
                        st_retrieval_attempts := Some [], st_agentic_context_chunks := Some []\<rparr>)
        else
          and_then
            (retrieval_steps ctx clock rag bridge mode fp rq plan 1
               (take (nat (max 1 (min (rp_max_steps plan) 3))) (rp_steps plan))
               \<lparr>ls_trace = trace, ls_cache = cache, ls_attempts = [], ls_gathered = [], ls_confidence = 0\<rparr>)
            (\<lambda>l. Inr (ls_cache l,
               s\<lparr>st_trace_events := Some (ls_trace l @ [node_completed ''retrieval_loop'']),
                 st_retrieval_attempts := Some (ls_attempts l),
                 st_agentic_context_chunks := Some (ls_gathered l)\<rparr>))))"

section \<open>What the loop guarantees\<close>

text \<open>In \<open>go_context\<close> mode the RAG client is not consulted.\<close>

lemma go_context_step:
  "retrieval_step rag bridge ''go_context'' fp rq plan n step l =
   retrieval_step rag' bridge ''go_context'' fp rq plan n step l"
proof -
  have "should_call_rag ''go_context'' plan step (ls_gathered l) = False"
    by (simp add: should_call_rag_def)
  then show ?thesis unfolding retrieval_step_def by simp
qed

lemma go_context_steps:
  "retrieval_steps ctx clock rag bridge ''go_context'' fp rq plan n steps l =
   retrieval_steps ctx clock rag' bridge ''go_context'' fp rq plan n steps l"
proof (induction steps arbitrary: n l)
  case (Cons step steps)
  then show ?case
    using go_context_step [of rag bridge fp rq plan n step l rag'] by (simp cong: if_cong)
qed simp

text \<open>
  In \<open>go_context\<close> mode the retrieval loop never calls the RAG runtime: its result is the same
  whatever the runtime would answer, for every plan, cache, bridge and clock.
\<close>

theorem go_context_never_calls_rag:
  "retrieval_loop sha ctx clock rag bridge cache (s\<lparr>st_request := (st_request s)\<lparr>rq_retrieval_mode := ''go_context''\<rparr>\<rparr>) =
   retrieval_loop sha ctx clock rag' bridge cache (s\<lparr>st_request := (st_request s)\<lparr>rq_retrieval_mode := ''go_context''\<rparr>\<rparr>)"
proof -
  have "effective_retrieval_mode ((st_request s)\<lparr>rq_retrieval_mode := ''go_context''\<rparr>) = ''go_context''"
    by (simp add: effective_retrieval_mode_def)
  then show ?thesis
    by (simp add: retrieval_loop_def Let_def go_context_steps [where rag = rag and rag' = rag'] cong: if_cong)
qed

text \<open>The gathered chunks have distinct keys, and there is one attempt per step taken.\<close>

definition loop_ok :: "loop_state \<Rightarrow> bool" where
  "loop_ok l \<longleftrightarrow> distinct (map chunk_key (ls_gathered l)) \<and> cache_ok (ls_cache l) \<and> 1 \<le> max_entries (ls_cache l)"

lemma distinct_gathered:
  assumes "distinct (map chunk_key xs)"
  shows "distinct (map chunk_key (xs @ dedup_by chunk_key (chunk_key ` set xs) ys))"
proof -
  let ?d = "dedup_by chunk_key (chunk_key ` set xs) ys"
  have "chunk_key ` set xs \<inter> chunk_key ` set ?d = {}"
    using dedup_by_keys [of chunk_key "chunk_key ` set xs" ys] by auto
  then show ?thesis using assms distinct_dedup_by [of chunk_key "chunk_key ` set xs" ys] by simp
qed

lemma cache_get_fields [simp]:
  "max_entries (snd (cache_get key c)) = max_entries c"
  by (simp add: cache_get_def split: option.split)

lemma retrieval_step_ok:
  assumes ok: "loop_ok l"
  shows "\<exists>l'. retrieval_step rag bridge mode fp rq plan n step l = Inr l' \<and> loop_ok l' \<and>
    length (ls_attempts l') = length (ls_attempts l) + 1 \<and>
    max_entries (ls_cache l') = max_entries (ls_cache l) \<and>
    ls_confidence l' = estimate_retrieval_confidence rq (ls_gathered l')"
proof -
  define key where "key = make_cache_key (ps_query step) (ps_source_scope step)
    (ir_retrieval_strategy (rp_intent_route plan)) fp (rq_corpus_version rq)"
  obtain cached cache1 where get: "cache_get key (ls_cache l) = (cached, cache1)" by (cases "cache_get key (ls_cache l)")
  have c1: "cache_ok cache1" "1 \<le> max_entries cache1"
    using ok cache_ok_get [of "ls_cache l" key] cache_get_fields [of key "ls_cache l"] get
    by (simp_all add: loop_ok_def)
  obtain selected suffix evs where sel:
    "(case cached of Some cs \<Rightarrow> (cs, codes '' via cache'', [cache_hit_event step])
      | None \<Rightarrow> (if should_call_rag mode plan step (ls_gathered l)
                  then select_remote rag bridge n rq plan step
                  else select_local bridge n mode rq plan step)) = (selected, suffix, evs)"
    using prod_cases3 by blast
  obtain c2 where put: "cache_put key selected cache1 = Inr c2"
    using cache_put_total [OF c1(2)] by blast
  then have c2: "cache_ok c2" "1 \<le> max_entries c2" "max_entries c2 = max_entries cache1"
    using cache_put_ok [OF c1(1)] c1(2) by auto
  have c3: "max_entries cache1 = max_entries (ls_cache l)"
    using cache_get_fields [of key "ls_cache l"] get by simp
  have dist: "distinct (map chunk_key (ls_gathered l))" using ok by (simp add: loop_ok_def)
  show ?thesis
    unfolding retrieval_step_def Let_def key_def [symmetric] get prod.case sel
    using put c1 c2 c3 distinct_gathered [OF dist] by (simp add: loop_ok_def)
qed

lemma retrieval_steps_ok:
  assumes "loop_ok l" and "retrieval_steps ctx clock rag bridge mode fp rq plan n steps l = Inr l'"
  shows "loop_ok l' \<and> length (ls_attempts l') \<le> length (ls_attempts l) + length steps"
  using assms
proof (induction steps arbitrary: n l)
  case (Cons step steps)
  obtain l1 where l1: "retrieval_step rag bridge mode fp rq plan n step l = Inr l1" "loop_ok l1"
    "length (ls_attempts l1) = length (ls_attempts l) + 1"
    using retrieval_step_ok [OF Cons.prems(1)] by blast
  show ?case
  proof (cases "ir_intent (rp_intent_route plan) = ''chat'' \<and> rp_min_confidence plan \<le> ls_confidence l1")
    case True
    then have "l' = l1" using Cons.prems(2) l1(1) by (auto simp: and_then_eq_Inr)
    then show ?thesis using l1 by simp
  next
    case False
    then have "retrieval_steps ctx clock rag bridge mode fp rq plan (n + 1) steps l1 = Inr l'"
      using Cons.prems(2) l1(1) by (auto simp: and_then_eq_Inr)
    from Cons.IH [OF l1(2) this] l1(3) show ?thesis by simp
  qed
qed simp

lemma node_check_cancelled: "node_check ctx t = Inl e \<Longrightarrow> \<exists>d. e = Cancelled d"
  by (auto simp: node_check_def split: sum.splits)

lemma retrieval_steps_cancelled:
  "loop_ok l \<Longrightarrow> retrieval_steps ctx clock rag bridge mode fp rq plan n steps l = Inl e \<Longrightarrow> \<exists>d. e = Cancelled d"
proof (induction steps arbitrary: n l)
  case (Cons step steps)
  obtain l1 where "retrieval_step rag bridge mode fp rq plan n step l = Inr l1" "loop_ok l1"
    using retrieval_step_ok [OF Cons.prems(1)] by meson
  then show ?case using Cons.prems(2) Cons.IH node_check_cancelled
    by (auto simp: and_then_eq_Inl split: if_splits)
qed simp

lemma retrieval_steps_max_entries:
  "loop_ok l \<Longrightarrow> retrieval_steps ctx clock rag bridge mode fp rq plan n steps l = Inr l' \<Longrightarrow>
     max_entries (ls_cache l') = max_entries (ls_cache l)"
proof (induction steps arbitrary: n l)
  case (Cons step steps)
  obtain l1 where "retrieval_step rag bridge mode fp rq plan n step l = Inr l1" "loop_ok l1"
    "max_entries (ls_cache l1) = max_entries (ls_cache l)"
    using retrieval_step_ok [OF Cons.prems(1)] by blast
  then show ?case using Cons.prems(2) Cons.IH
    by (auto simp: and_then_eq_Inr split: if_splits)
qed simp

text \<open>
  The retrieval loop is bounded and gathers every chunk once. When it does not raise a
  cancellation it makes at most \<open>max(1, min(max_steps, 3))\<close> attempts, the chunks it hands on have
  pairwise distinct keys, and the cache holds at most its sixteen entries; a loop that starts with
  a fresh cache never fails on the cache.
\<close>

theorem retrieval_loop_is_bounded:
  "case retrieval_loop sha ctx clock rag bridge None s of
     Inl e \<Rightarrow> \<exists>d. e = Cancelled d
   | Inr (c, s') \<Rightarrow>
       int (length (opt_or (st_retrieval_attempts s') []))
         \<le> max 1 (min (rp_max_steps (opt_or (st_retrieval_plan s) retrieval_plan0)) 3) \<and>
       distinct (map chunk_key (opt_or (st_agentic_context_chunks s') [])) \<and>
       length (entries c) \<le> 16"
proof -
  let ?plan = "opt_or (st_retrieval_plan s) retrieval_plan0"
  let ?steps = "take (nat (max 1 (min (rp_max_steps ?plan) 3))) (rp_steps ?plan)"
  let ?l0 = "\<lparr>ls_trace = opt_or (st_trace_events s) [] @ [node_started ''retrieval_loop''],
    ls_cache = new_cache 16, ls_attempts = [], ls_gathered = [], ls_confidence = 0\<rparr>"
  let ?run = "retrieval_steps ctx clock rag bridge (effective_retrieval_mode (st_request s))
    (resolve_fingerprint sha (st_request s)) (st_request s) ?plan 1 ?steps ?l0"
  have l0: "loop_ok ?l0" by (simp add: loop_ok_def cache_ok_new) (simp add: new_cache_def)
  have good: "loop_ok l' \<and> length (ls_attempts l') \<le> length ?steps" if "?run = Inr l'" for l'
    using retrieval_steps_ok [OF l0 that] by simp
  show ?thesis
  proof (cases "node_check ctx (clock 0)")
    case (Inl e)
    then show ?thesis using node_check_cancelled [OF Inl] by (simp add: retrieval_loop_def Let_def)
  next
    case ok0: (Inr u)
    show ?thesis
    proof (cases "rp_enabled ?plan")
      case False
      then show ?thesis using ok0 by (simp add: retrieval_loop_def Let_def new_cache_def)
    next
      case True
      show ?thesis
      proof (cases ?run)
        case (Inl e)
        then show ?thesis using ok0 True retrieval_steps_cancelled [OF l0 Inl] by (simp add: retrieval_loop_def Let_def)
      next
        case (Inr l')
        from good [OF Inr] have g: "loop_ok l'" "length (ls_attempts l') \<le> length ?steps" by auto
        have "int (length ?steps) \<le> max 1 (min (rp_max_steps ?plan) 3)" by simp
        then have "int (length (ls_attempts l')) \<le> max 1 (min (rp_max_steps ?plan) 3)"
          using g(2) by linarith
        moreover have "max_entries (ls_cache l') = 16" using retrieval_steps_max_entries [OF l0 Inr] by (simp add: new_cache_def)
        ultimately show ?thesis
          using ok0 True Inr g(1) by (simp add: retrieval_loop_def Let_def loop_ok_def cache_ok_def)
      qed
    qed
  qed
qed

end
