(* ===== verification/SearchLoop.thy ===== *)
theory SearchLoop
  imports RetrievalNodes
begin

text \<open>
  \<open>services/agent-runtime/allcallall_agent_runtime/nodes/synthesis.py\<close>: the bounded ReAct search
  loop of the searcher and the risk analyst, with its scores and its early termination, whose quality
  gate is in \<open>nodes/role_router.py\<close>.

  Each iteration checks for cancellation three times; check \<open>k\<close> sees the clock \<open>rw_now k\<close> and the
  branch event \<open>rw_branch k\<close>. The tool bridge answers per iteration.
\<close>

section \<open>Scores\<close>

definition distinct_count :: "'a list \<Rightarrow> nat" where
  "distinct_count xs = length (remdups xs)"

definition cit_types :: "citation list \<Rightarrow> string list" where
  "cit_types cs = map cit_source_type cs"

definition compute_goal_achievement ::
  "string \<Rightarrow> citation list \<Rightarrow> ustring list \<Rightarrow> nat \<Rightarrow> rat" where
  "compute_goal_achievement rl cits snippets iteration =
     (if cits = [] \<and> snippets = [] then 0
      else
        (let types = cit_types cits;
             s1 = min (of_nat (length cits) / 5) 1 * (4 / 10);
             s2 = s1 + min (of_nat (distinct_count types) / 4 * (2 / 10)) (2 / 10);
             s3 = (if rl = ''risk_analyst'' then
                     s2 + (if ''meeting_transcript'' \<in> set types then 2 / 10 else 0)
                        + (if list_ex (\<lambda>t. t \<in> {''conversation'', ''message''}) types then 1 / 10 else 0)
                   else if rl = ''searcher'' then
                     s2 + (if ''knowledge'' \<in> set types then 15 / 100 else 0)
                        + (if ''meeting_transcript'' \<in> set types then 15 / 100 else 0)
                   else s2);
             efficiency = max (5 / 10) (1 - (of_nat iteration - 1) * (15 / 100))
         in min (max (s3 * efficiency) 0) 1))"

definition compute_evidence_sufficiency :: "citation list \<Rightarrow> ustring list \<Rightarrow> rat" where
  "compute_evidence_sufficiency cits snippets =
     (if cits = [] \<and> snippets = [] then 0
      else min (min (of_nat (length cits) / 3) 1 * (6 / 10) +
                min (of_nat (length snippets) / 3) 1 * (4 / 10)) 1)"

definition compute_citation_coverage :: "citation list \<Rightarrow> rat" where
  "compute_citation_coverage cits =
     (if cits = [] then 0
      else min (min (of_nat (length cits) / 3) 1 * (5 / 10) +
                min (of_nat (distinct_count (cit_types cits)) / 3) 1 * (5 / 10)) 1)"

definition compute_round_confidence :: "nat \<Rightarrow> citation list \<Rightarrow> rat" where
  "compute_round_confidence iteration cits =
     (let types = cit_types cits;
          b0 = 35 / 100 + of_nat (length cits) * (10 / 100);
          b1 = (if ''meeting_transcript'' \<in> set types then b0 + 15 / 100 else b0);
          b2 = (if ''knowledge'' \<in> set types then b1 + 10 / 100 else b1)
      in min (b2 * (9 / 10) ^ (iteration - 1)) (95 / 100))"

definition inline_checkagent_should_stop :: "citation list \<Rightarrow> workflow_request \<Rightarrow> bool" where
  "inline_checkagent_should_stop cits rq =
     (let types = cit_types cits
      in if cits = [] then False
         else if rq_preset rq = ''risk_review'' \<and>
           \<not> list_ex (\<lambda>t. t \<in> {''meeting_transcript'', ''conversation'', ''message''}) types then False
         else if rq_preset rq = ''meeting_brief'' \<and> ''meeting_transcript'' \<notin> set types then False
         else 3 \<le> length cits \<and> 2 \<le> distinct_count types)"

section \<open>The quality gate\<close>

record thresholds =
  evidence_threshold :: rat
  coverage_threshold :: rat
  goal_threshold :: rat

definition should_terminate_early ::
  "rat \<Rightarrow> rat \<Rightarrow> rat \<Rightarrow> bool \<Rightarrow> bool \<Rightarrow> bool \<Rightarrow> thresholds \<Rightarrow> bool" where
  "should_terminate_early evidence coverage goal roles_complete unresolved_approval safety_blocked th \<longleftrightarrow>
     evidence_threshold th \<le> evidence \<and> coverage_threshold th \<le> coverage \<and> goal_threshold th \<le> goal \<and>
     roles_complete \<and> \<not> unresolved_approval \<and> \<not> safety_blocked"

section \<open>Thoughts and queries\<close>

definition react_thought :: "string \<Rightarrow> nat \<Rightarrow> ustring" where
  "react_thought rl iteration =
     (if rl = ''risk_analyst'' then (codes ''Inspect transcript and context for approval-sensitive risks.'')
      else if iteration = 1 then (codes ''Plan a broad meeting recap retrieval query.'')
      else (codes ''Refine the retrieval query toward transcript evidence, owners, and action items.''))"

definition build_query :: "ustring \<Rightarrow> string \<Rightarrow> nat \<Rightarrow> ustring" where
  "build_query goal rl iteration =
     (let numbered = (codes ''iteration '') @ show_int (int iteration)
      in join (codes '' '') ([goal, codes rl] @
        (if rl = ''risk_analyst'' then [(codes ''risk''), (codes ''approval''), (codes ''blocker''), (codes ''timeline'')]
         else if substring_in (codes ''follow'') (to_lower goal) \<or> substring_in [36319, 36827] goal
         then [(codes ''owner''), (codes ''follow-up''), (codes ''commitment''), numbered]
         else if substring_in (codes ''qa'') (to_lower (codes rl)) then [(codes ''question''), (codes ''answer''), (codes ''evidence''), numbered]
         else [(codes ''meeting''), (codes ''summary''), (codes ''decision''), (codes ''action item''), numbered])))"

section \<open>The loop\<close>

record react_config =
  early :: bool
  quality :: thresholds
  plateau_window :: int
  roles_complete :: bool
  approval_open :: bool
  blocked :: bool

record react_world =
  rw_now :: "nat \<Rightarrow> seconds"
  rw_branch :: "nat \<Rightarrow> bool"
  rw_bridge :: read_bridge

definition branch_check :: "deadline_ctx \<Rightarrow> react_world \<Rightarrow> nat \<Rightarrow> (node_error, unit) result" where
  "branch_check ctx w k =
     (if rw_branch w k then Inl (Cancelled (execution_cancelled ''shutdown''))
      else node_check ctx (rw_now w k))"

record react_state =
  rs_citations :: "citation list"
  rs_snippets :: "ustring list"
  rs_trace :: "trace_event list"
  rs_history :: "rat list"

definition role_event :: "string \<Rightarrow> string \<Rightarrow> string \<Rightarrow> trace_event" where
  "role_event ev rl stat = (trace_event0 ev rl)\<lparr>ev_role := rl, ev_status := stat\<rparr>"

definition tool_for :: "string \<Rightarrow> string list \<Rightarrow> nat \<Rightarrow> nat \<Rightarrow> string" where
  "tool_for rl tools iteration max_iterations =
     (if rl = ''risk_analyst'' \<and> iteration = max_iterations \<and> ''query_recent_meetings'' \<in> set tools
      then ''query_recent_meetings'' else hd tools)"

definition react_input :: "workflow_request \<Rightarrow> string \<Rightarrow> nat \<Rightarrow> json_object" where
  "react_input rq rl iteration =
     [(''conversation_id'', JInt (rq_conversation_id rq)),
      (''query'', JStr (build_query (rq_goal rq) rl iteration)), (''limit'', JInt 5)]"

text \<open>The read call: a failure keeps the preloaded selection and is traced.\<close>

definition read_answer ::
  "(ustring, context_chunk list option) result \<Rightarrow> string \<Rightarrow> string \<Rightarrow> json_object \<Rightarrow> nat
     \<Rightarrow> context_chunk list \<Rightarrow> context_chunk list \<times> ustring \<times> trace_event list" where
  "read_answer answer rl tool input iteration selected =
     (case answer of
        Inl err \<Rightarrow>
          (selected, [],
           [(role_event ''tool.result'' rl ''failed'')
              \<lparr>ev_tool_name := tool, ev_tool_input := input, ev_observation := err,
               ev_metadata := [(''iteration'', JInt (int iteration)),
                              (''fallback'', jstr ''preloaded_context'')]\<rparr>])
      | Inr None \<Rightarrow> (selected, [], [])
      | Inr (Some cs) \<Rightarrow> (if cs \<noteq> [] then cs else selected, (codes '' via go_tool_bridge''), []))"

definition selection_event :: "string \<Rightarrow> nat \<Rightarrow> context_chunk list \<Rightarrow> trace_event list" where
  "selection_event rl iteration selected =
     (if selected = [] then []
      else [(role_event ''citation.selected'' rl ''completed'')
              \<lparr>ev_metadata :=
                 [(''iteration'', JInt (int iteration)),
                  (''source_types'', jtexts (unique_strings (map (\<lambda>c. codes (ck_source_type c)) selected))),
                  (''rerank_scores'',
                     JList (map (\<lambda>c. JNum (ck_rerank_score c)) (filter (\<lambda>c. 0 < ck_rerank_score c) selected)))]\<rparr>])"

text \<open>One round up to the termination tests.\<close>

definition react_round ::
  "deadline_ctx \<Rightarrow> react_world \<Rightarrow> workflow_request \<Rightarrow> string \<Rightarrow> nat \<Rightarrow> string list \<Rightarrow> nat \<Rightarrow> react_state
     \<Rightarrow> (node_error, react_state) result" where
  "react_round ctx w rq rl max_iterations tools iteration rs =
     and_then (branch_check ctx w (3 * iteration)) (\<lambda>_.
       let tool = tool_for rl tools iteration max_iterations;
           thought = react_thought rl iteration;
           input = react_input rq rl iteration;
           preloaded = select_chunks (rq_context_chunks rq) rl (int iteration)
       in and_then (branch_check ctx w (3 * iteration + 1)) (\<lambda>_.
         let answer = rw_bridge w iteration rq tool input
         in and_then (case answer of Inl err \<Rightarrow> Inr () | Inr ob \<Rightarrow> branch_check ctx w (3 * iteration + 2)) (\<lambda>_.
           let (selected, suffix, failed) = read_answer answer rl tool input iteration preloaded;
               observation = summarize_observation tool selected;
               iter_meta = [(''iteration'', JInt (int iteration))]
           in Inr
             \<lparr>rs_citations = rs_citations rs @ citations_from_chunks selected,
              rs_snippets = rs_snippets rs @ top_snippets selected 5,
              rs_trace = rs_trace rs @
                [(role_event ''react.thought'' rl ''running'')
                   \<lparr>ev_thought := thought,
                    ev_metadata := iter_meta @ [(''max_iterations'', JInt (int max_iterations))]\<rparr>,
                 (role_event ''tool.call'' rl ''running'')
                   \<lparr>ev_tool_name := tool, ev_tool_input := input, ev_metadata := iter_meta\<rparr>] @ failed @
                [(role_event ''tool.result'' rl ''completed'')
                   \<lparr>ev_tool_name := tool, ev_tool_input := input, ev_observation := observation @ suffix,
                    ev_metadata := iter_meta\<rparr>] @
                selection_event rl iteration selected @
                [(role_event ''react.observe'' rl ''completed'')
                   \<lparr>ev_iteration := Some (int iteration), ev_thought := thought, ev_tool_name := tool,
                    ev_tool_input := input, ev_observation := observation,
                    ev_metadata := [(''max_iterations'', JInt (int max_iterations))]\<rparr>],
              rs_history = rs_history rs\<rparr>)))"

definition make_signal ::
  "nat \<Rightarrow> react_state \<Rightarrow> termination_trigger \<Rightarrow> ustring \<Rightarrow> rat \<Rightarrow> rat \<Rightarrow> nat \<Rightarrow> termination_signal" where
  "make_signal max_iterations rs trig why goal_score round_confidence iteration =
     \<lparr>ts_triggered = True, ts_trigger = Some trig, ts_reason = why, ts_goal_score = goal_score,
      ts_confidence_at_exit = round_confidence, ts_confidence_history = rs_history rs,
      ts_iterations_used = int iteration, ts_iterations_saved = int max_iterations - int iteration,
      ts_citations_found = int (length (rs_citations rs))\<rparr>"

text \<open>\<open>xs[-n:]\<close>; \<open>max\<close> and \<open>min\<close> of an empty list raise \<open>ValueError\<close>, here the error value.\<close>

definition last_n :: "int \<Rightarrow> 'a list \<Rightarrow> 'a list" where
  "last_n n xs = (if 0 < n then drop (length xs - nat n) xs else drop (nat (- n)) xs)"

definition flat :: "rat list \<Rightarrow> bool option" where
  "flat recent =
     (if recent = [] then None else Some (fold max recent (hd recent) - fold min recent (hd recent) < 5 / 100))"

definition plateau_text :: "rat list \<Rightarrow> ustring" where
  "plateau_text recent =
     (codes ''confidence plateau at ['') @ join (codes '', '') (map (\<lambda>c. [39] @ show_fixed2 c @ [39]) recent) @ (codes '']'')"

text \<open>
  The early-termination block: the goal score, the state with its longer history, and the signal that
  stops the loop, if any.
\<close>

definition early_signal ::
  "react_config \<Rightarrow> workflow_request \<Rightarrow> string \<Rightarrow> nat \<Rightarrow> nat \<Rightarrow> react_state
     \<Rightarrow> (node_error, rat \<times> rat \<times> react_state \<times> termination_signal option) result" where
  "early_signal cfg rq rl max_iterations iteration rs0 =
     (if \<not> early cfg then Inr (0, 0, rs0, None)
      else
        (let cits = rs_citations rs0;
             confidence = compute_round_confidence iteration cits;
             rs = rs0\<lparr>rs_history := rs_history rs0 @ [confidence]\<rparr>;
             goal = compute_goal_achievement rl cits (rs_snippets rs) iteration;
             evidence = compute_evidence_sufficiency cits (rs_snippets rs);
             coverage = compute_citation_coverage cits;
             passed = should_terminate_early evidence coverage goal (roles_complete cfg) (approval_open cfg)
                        (blocked cfg) (quality cfg);
             mk = (\<lambda>trig why. make_signal max_iterations rs trig why goal confidence iteration);
             inline = (if passed \<and> 2 \<le> iteration \<and> inline_checkagent_should_stop cits rq
                       then Some (mk CheckagentEarlyStop (codes ''inline CheckAgent signaled sufficient evidence''))
                       else None)
         in if passed \<and> goal_threshold (quality cfg) \<le> goal then
              Inr (goal, confidence, rs, Some (mk GoalAchieved
                ((codes ''evidence='') @ show_fixed2 evidence @ (codes '', citation_coverage='') @ show_fixed2 coverage @
                 (codes '', goal_score='') @ show_fixed2 goal @ (codes '' all met thresholds''))))
            else if passed \<and> max 1 (plateau_window cfg) \<le> int (length (rs_history rs)) then
              (let recent = last_n (plateau_window cfg) (rs_history rs)
               in case flat recent of
                    None \<Rightarrow> Inl (ValueRaised ''max() arg is an empty sequence'')
                  | Some True \<Rightarrow> Inr (goal, confidence, rs, Some (mk ConfidencePlateau (plateau_text recent)))
                  | Some False \<Rightarrow> Inr (goal, confidence, rs, inline))
            else Inr (goal, confidence, rs, inline)))"

definition max_signal :: "react_config \<Rightarrow> nat \<Rightarrow> rat \<Rightarrow> react_state \<Rightarrow> termination_signal" where
  "max_signal cfg max_iterations goal_score rs =
     \<lparr>ts_triggered = True, ts_trigger = Some MaxIterations,
      ts_reason = (codes ''exhausted '') @ show_int (int max_iterations) @ (codes '' iteration(s)''),
      ts_goal_score = (if early cfg then goal_score else 0),
      ts_confidence_at_exit = (if rs_history rs = [] then 0 else last (rs_history rs)),
      ts_confidence_history = rs_history rs, ts_iterations_used = int max_iterations,
      ts_iterations_saved = 0, ts_citations_found = int (length (rs_citations rs))\<rparr>"

text \<open>The loop over the remaining iterations, carrying the last goal score.\<close>

fun react_loop ::
  "deadline_ctx \<Rightarrow> react_world \<Rightarrow> react_config \<Rightarrow> workflow_request \<Rightarrow> string \<Rightarrow> nat \<Rightarrow> string list
     \<Rightarrow> nat list \<Rightarrow> rat \<Rightarrow> react_state \<Rightarrow> (node_error, termination_signal \<times> react_state) result" where
  "react_loop ctx w cfg rq rl max_iterations tools [] goal rs =
     Inr (max_signal cfg max_iterations goal rs, rs)"
| "react_loop ctx w cfg rq rl max_iterations tools (iteration # rest) goal rs =
     and_then (react_round ctx w rq rl max_iterations tools iteration rs) (\<lambda>rs1.
       and_then (early_signal cfg rq rl max_iterations iteration rs1) (\<lambda>(goal', confidence, rs2, sig).
         case sig of
           Some g \<Rightarrow> Inr (g, rs2)
         | None \<Rightarrow>
             (if rl = ''searcher'' \<and> 2 \<le> iteration \<and> rs_citations rs2 \<noteq> [] then
                Inr (make_signal max_iterations rs2 CitationSatisfied
                       (codes ''searcher found citations on or after iteration 2'') goal' confidence iteration, rs2)
              else react_loop ctx w cfg rq rl max_iterations tools rest goal' rs2)))"

definition react_summary :: "string \<Rightarrow> nat \<Rightarrow> termination_signal \<Rightarrow> nat \<Rightarrow> ustring" where
  "react_summary rl max_iterations sig found =
     (codes ''Bounded ReAct '') @ codes rl @ (codes '' completed '') @ show_int (ts_iterations_used sig) @ (codes ''/'') @
     show_int (int max_iterations) @ (codes '' iter(s), trigger='') @
     codes (case ts_trigger sig of None \<Rightarrow> ''none'' | Some t \<Rightarrow> trigger_value t) @
     (codes '', found '') @ show_int (int found) @ (codes '' citation(s).'')"

definition bounded_react_search ::
  "deadline_ctx \<Rightarrow> react_world \<Rightarrow> react_config \<Rightarrow> workflow_request \<Rightarrow> string \<Rightarrow> int \<Rightarrow> string list
     \<Rightarrow> (node_error, role_result) result" where
  "bounded_react_search ctx w cfg rq rl max_iter tools =
     (let max_iterations = nat (max 1 (min max_iter 3))
      in and_then
           (react_loop ctx w cfg rq rl max_iterations tools [1..<max_iterations + 1] 0
              \<lparr>rs_citations = [], rs_snippets = [], rs_trace = [], rs_history = []\<rparr>)
           (\<lambda>(sig, rs).
              let cits = dedupe_citations (rs_citations rs)
              in Inr ((role_result0 rl)
                   \<lparr>rr_summary := react_summary rl max_iterations sig (length cits), rr_citations := cits,
                    rr_snippets := take 5 (unique_strings (rs_snippets rs)), rr_react_trace := rs_trace rs,
                    rr_termination_signal := Some sig\<rparr>)))"

section \<open>What the loop guarantees\<close>

definition tool_calls :: "trace_event list \<Rightarrow> nat" where
  "tool_calls tr = length (filter (\<lambda>e. ev_event e = ''tool.call'') tr)"

lemma tool_calls_append [simp]: "tool_calls (xs @ ys) = tool_calls xs + tool_calls ys"
  by (simp add: tool_calls_def)

lemma tool_calls_simps [simp]:
  "tool_calls [] = 0"
  "tool_calls (e # es) = (if ev_event e = ''tool.call'' then 1 else 0) + tool_calls es"
  by (simp_all add: tool_calls_def)

lemma role_event_name [simp]: "ev_event (role_event ev rl stat) = ev"
  by (simp add: role_event_def trace_event0_def)

lemma selection_event_calls [simp]: "tool_calls (selection_event rl n cs) = 0"
  by (simp add: selection_event_def)

lemma read_answer_calls: "read_answer a rl tool input n cs = (sel, suf, evs) \<Longrightarrow> tool_calls evs = 0"
  by (auto simp: read_answer_def split: sum.splits option.splits)

lemma react_round_calls:
  assumes "react_round ctx w rq rl m tools n rs = Inr rs'"
  shows "tool_calls (rs_trace rs') = tool_calls (rs_trace rs) + 1"
proof -
  obtain sel suf evs where r: "read_answer (rw_bridge w n rq (tool_for rl tools n m) (react_input rq rl n)) rl
      (tool_for rl tools n m) (react_input rq rl n) n (select_chunks (rq_context_chunks rq) rl (int n))
      = (sel, suf, evs)"
    using prod_cases3 by blast
  show ?thesis
    using assms read_answer_calls [OF r]
    by (auto simp: react_round_def Let_def r and_then_eq_Inr)
qed

lemma early_signal_state:
  assumes "early_signal cfg rq rl m n rs = Inr (goal, conf, rs', sig)"
  shows "rs_trace rs' = rs_trace rs \<and> rs_citations rs' = rs_citations rs \<and>
    (case sig of None \<Rightarrow> True | Some g \<Rightarrow>
       ts_triggered g \<and> ts_iterations_used g = int n \<and> ts_iterations_saved g = int m - int n \<and>
       (roles_complete cfg \<and> \<not> approval_open cfg \<and> \<not> blocked cfg))"
  using assms
  by (auto simp: early_signal_def make_signal_def should_terminate_early_def Let_def
      split: if_splits option.splits bool.splits)

lemma react_loop_signal:
  assumes "react_loop ctx w cfg rq rl m tools [n..<m + 1] goal rs = Inr (sig, rs')"
    and "1 \<le> n" and "n \<le> m + 1" and "tool_calls (rs_trace rs) = n - 1" and "1 \<le> m"
  shows "ts_triggered sig \<and> 1 \<le> ts_iterations_used sig \<and> ts_iterations_used sig \<le> int m \<and>
    ts_iterations_used sig + ts_iterations_saved sig = int m \<and>
    int (tool_calls (rs_trace rs')) = ts_iterations_used sig"
  using assms
proof (induction "m + 1 - n" arbitrary: n goal rs)
  case 0
  then have "n = m + 1" by simp
  then show ?case using 0 by (auto simp: max_signal_def)
next
  case (Suc k)
  then have n: "[n..<m + 1] = n # [n + 1..<m + 1]" "n \<le> m" by (auto simp: upt_rec)
  obtain rs1 where rs1: "react_round ctx w rq rl m tools n rs = Inr rs1"
    using Suc.prems(1) n(1) by (auto simp: and_then_eq_Inr)
  obtain goal' conf rs2 sig' where e: "early_signal cfg rq rl m n rs1 = Inr (goal', conf, rs2, sig')"
    using Suc.prems(1) n(1) rs1 by (auto simp: and_then_eq_Inr)
  have calls: "tool_calls (rs_trace rs2) = n"
    using react_round_calls [OF rs1] early_signal_state [OF e] Suc.prems(2,4) by simp
  show ?case
  proof (cases sig')
    case (Some g)
    then have "sig = g" "rs' = rs2" using Suc.prems(1) n(1) rs1 e by simp_all
    then show ?thesis using early_signal_state [OF e] Some calls n(2) Suc.prems(2) by simp
  next
    case None
    show ?thesis
    proof (cases "rl = ''searcher'' \<and> 2 \<le> n \<and> rs_citations rs2 \<noteq> []")
      case True
      then have "sig = make_signal m rs2 CitationSatisfied
          (codes ''searcher found citations on or after iteration 2'') goal' conf n" "rs' = rs2"
        using Suc.prems(1) n(1) rs1 e None by auto
      then show ?thesis using calls n(2) Suc.prems(2) by (simp add: make_signal_def)
    next
      case False
      then have "react_loop ctx w cfg rq rl m tools [n + 1..<m + 1] goal' rs2 = Inr (sig, rs')"
        using Suc.prems(1) n(1) rs1 e None by (auto simp del: upt_Suc split: if_splits)
      from Suc.hyps(1) [OF _ this] show ?thesis using Suc.hyps(2) Suc.prems(5) n(2) calls by simp
    qed
  qed
qed

text \<open>
  The ReAct search is bounded and accounts for its iterations. Unless it is cancelled (or the
  plateau window is misconfigured), it makes between 1 and \<open>max(1, min(max_iterations, 3))\<close> tool
  calls, returns a triggered termination signal whose used and saved iterations add up to that
  maximum, and uses exactly the number of tool calls in its trace.
\<close>

theorem react_search_is_bounded:
  "case bounded_react_search ctx w cfg rq rl max_iter tools of
     Inl e \<Rightarrow> True
   | Inr r \<Rightarrow> (\<exists>sig. rr_termination_signal r = Some sig \<and> ts_triggered sig \<and>
       1 \<le> ts_iterations_used sig \<and>
       ts_iterations_used sig + ts_iterations_saved sig = max 1 (min max_iter 3) \<and>
       0 \<le> ts_iterations_saved sig \<and>
       int (tool_calls (rr_react_trace r)) = ts_iterations_used sig)"
proof -
  define m where "m = nat (max 1 (min max_iter 3))"
  have m: "1 \<le> m" "int m = max 1 (min max_iter 3)" by (simp_all add: m_def)
  show ?thesis
  proof (cases "react_loop ctx w cfg rq rl m tools [1..<m + 1] 0
              \<lparr>rs_citations = [], rs_snippets = [], rs_trace = [], rs_history = []\<rparr>")
    case (Inl e)
    then show ?thesis by (simp add: bounded_react_search_def Let_def m_def)
  next
    case (Inr p)
    obtain sig rs where p: "p = (sig, rs)" by (cases p)
    from react_loop_signal [OF Inr [unfolded p]] m show ?thesis
      using Inr p by (simp add: bounded_react_search_def Let_def m_def [symmetric])
  qed
qed

lemma flat_last_n: "0 < n \<Longrightarrow> n \<le> int (length xs) \<Longrightarrow> flat (last_n n xs) \<noteq> None"
  by (auto simp: flat_def last_n_def)

lemma early_signal_returns:
  assumes "0 < plateau_window cfg"
  shows "\<exists>r. early_signal cfg rq rl m n rs = Inr r"
proof -
  let ?h = "rs_history rs @ [compute_round_confidence n (rs_citations rs)]"
  have "plateau_window cfg \<le> int (length ?h) \<Longrightarrow> \<exists>f. flat (last_n (plateau_window cfg) ?h) = Some f"
    using flat_last_n [OF assms, of ?h] by auto
  then show ?thesis
    by (auto simp: early_signal_def Let_def max_def split: option.split bool.split)
qed

lemma react_round_returns:
  "(\<And>k. branch_check ctx w k = Inr ()) \<Longrightarrow> \<exists>rs'. react_round ctx w rq rl m tools n rs = Inr rs'"
  by (auto simp: react_round_def Let_def split: sum.split prod.split)

text \<open>Without a cancellation and with a positive plateau window the search always returns.\<close>

lemma search_returns:
  assumes "\<And>k. branch_check ctx w k = Inr ()" and "0 < plateau_window cfg"
  shows "\<exists>r. bounded_react_search ctx w cfg rq rl max_iter tools = Inr r"
proof -
  have "\<exists>r. react_loop ctx w cfg rq rl m tools ns goal rs = Inr r" for m ns goal rs
  proof (induction ns arbitrary: goal rs)
    case (Cons n ns)
    obtain rs1 where rs1: "react_round ctx w rq rl m tools n rs = Inr rs1"
      using react_round_returns [OF assms(1)] by blast
    obtain goal' conf rs2 sig' where "early_signal cfg rq rl m n rs1 = Inr (goal', conf, rs2, sig')"
      using early_signal_returns [OF assms(2)] by (metis prod_cases4)
    then show ?case using rs1 Cons by (auto split: option.split)
  qed simp
  then show ?thesis
    by (auto simp: bounded_react_search_def Let_def and_then_def split: sum.split prod.split)
      (metis Inl_Inr_False)+
qed

lemma react_loop_blocked:
  assumes "react_loop ctx w cfg rq rl m tools ns goal rs = Inr (sig, rs')"
    and "\<not> roles_complete cfg \<or> approval_open cfg \<or> blocked cfg"
  shows "ts_trigger sig \<in> {Some CitationSatisfied, Some MaxIterations}"
  using assms
proof (induction ns arbitrary: goal rs)
  case Nil
  then show ?case by (auto simp: max_signal_def)
next
  case (Cons n ns)
  obtain rs1 where rs1: "react_round ctx w rq rl m tools n rs = Inr rs1"
    using Cons.prems(1) by (auto simp: and_then_eq_Inr)
  obtain goal' conf rs2 sig' where e: "early_signal cfg rq rl m n rs1 = Inr (goal', conf, rs2, sig')"
    using Cons.prems(1) rs1 by (auto simp: and_then_eq_Inr)
  have "sig' = None" using early_signal_state [OF e] Cons.prems(2) by (cases sig') auto
  then show ?case using Cons rs1 e by (auto simp: make_signal_def split: if_splits)
qed

text \<open>
  Quality scores cannot override the hard gates. While a required role is missing, an approval is
  open or the run is safety-blocked, the search never stops early on a quality signal, whatever the
  scores and thresholds: it stops on citations or on the iteration limit.
\<close>

theorem blocked_search_never_stops_on_quality:
  assumes "bounded_react_search ctx w cfg rq rl max_iter tools = Inr r"
    and "\<not> roles_complete cfg \<or> approval_open cfg \<or> blocked cfg"
  shows "map_option ts_trigger (rr_termination_signal r)
    \<in> {Some (Some CitationSatisfied), Some (Some MaxIterations)}"
proof -
  obtain m sig rs where loop: "react_loop ctx w cfg rq rl m tools [1..<m + 1] 0
      \<lparr>rs_citations = [], rs_snippets = [], rs_trace = [], rs_history = []\<rparr> = Inr (sig, rs)"
    and r: "rr_termination_signal r = Some sig"
    using assms(1) unfolding bounded_react_search_def Let_def
    by (auto simp: and_then_eq_Inr simp del: upt_Suc)
  from react_loop_blocked [OF loop assms(2)] r show ?thesis by auto
qed

definition quiet_world :: react_world where
  "quiet_world = \<lparr>rw_now = (\<lambda>_. 0), rw_branch = (\<lambda>_. False), rw_bridge = (\<lambda>_ _ _ _. Inr None)\<rparr>"

definition blocked_config :: react_config where
  "blocked_config =
     \<lparr>early = True, quality = \<lparr>evidence_threshold = 0, coverage_threshold = 0, goal_threshold = 0\<rparr>,
      plateau_window = 1, roles_complete = True, approval_open = True, blocked = False\<rparr>"

lemma quiet_checks: "branch_check None quiet_world k = Inr ()"
  by (simp add: quiet_world_def branch_check_def node_check_def check_cancelled_def get_current_deadline_def)

theorem blocked_search_never_stops_on_quality_witness:
  "\<exists>r. bounded_react_search None quiet_world blocked_config (workflow_request0 1 1 1 1 [])
      ''searcher'' 3 [''query_context_chunks''] = Inr r \<and>
    map_option ts_trigger (rr_termination_signal r)
      \<in> {Some (Some CitationSatisfied), Some (Some MaxIterations)}"
proof -
  let ?s = "bounded_react_search None quiet_world blocked_config (workflow_request0 1 1 1 1 [])
      ''searcher'' 3 [''query_context_chunks'']"
  obtain r where r: "?s = Inr r"
    using search_returns [OF quiet_checks, of blocked_config] by (force simp: blocked_config_def)
  have "approval_open blocked_config" by (simp add: blocked_config_def)
  with blocked_search_never_stops_on_quality [OF r] r show ?thesis by blast
qed

end
