(* ===== verification/SynthesisNodes.thy ===== *)
theory SynthesisNodes
  imports SearchLoop
begin

text \<open>
  The role nodes of \<open>services/agent-runtime/allcallall_agent_runtime/nodes/synthesis.py\<close> (searcher,
  memory agent, summarizer, risk analyst, memory reflection) and the proposal, approval and final
  nodes of \<open>nodes/approval.py\<close>. A node first checks for cancellation, then returns the updated state.
\<close>

section \<open>Configuration\<close>

text \<open>The fields of \<open>config.py\<close> that the graph reads.\<close>

record runtime_config =
  rt_enable_grounding_check :: bool
  rt_max_quality_retries :: int
  rt_model_history_max_tokens :: int
  rt_context_compression_strategy :: string
  rt_enable_context_compression :: bool
  rt_enable_early_termination :: bool
  rt_evidence_threshold :: rat
  rt_citation_threshold :: rat
  rt_goal_threshold :: rat
  rt_plateau_window :: int
  rt_enable_role_router :: bool
  rt_enable_parallel_roles :: bool
  rt_parallel_role_token_budget :: int

definition default_config :: runtime_config where
  "default_config =
     \<lparr>rt_enable_grounding_check = False, rt_max_quality_retries = 1, rt_model_history_max_tokens = 4000,
      rt_context_compression_strategy = ''summary'', rt_enable_context_compression = False,
      rt_enable_early_termination = False, rt_evidence_threshold = 8 / 10, rt_citation_threshold = 8 / 10,
      rt_goal_threshold = 7 / 10, rt_plateau_window = 2, rt_enable_role_router = False,
      rt_enable_parallel_roles = False, rt_parallel_role_token_budget = 8000\<rparr>"

definition runtime_request :: "runtime_config \<Rightarrow> graph_state \<Rightarrow> (node_error, workflow_request) result" where
  "runtime_request cfg s =
     (case request_with_runtime_context (rt_enable_context_compression cfg)
             (rt_context_compression_strategy cfg) (rt_model_history_max_tokens cfg) s of
        Inl e \<Rightarrow> Inl (HistoryError e) | Inr rq \<Rightarrow> Inr rq)"

section \<open>The searcher\<close>

definition canonical_roles :: "string list" where
  "canonical_roles = [''searcher'', ''memory_agent'', ''synthesize'', ''risk_analyst'']"

definition prior_required_roles_complete :: "graph_state \<Rightarrow> string \<Rightarrow> bool" where
  "prior_required_roles_complete s current =
     (let ordered = (case st_role_allocation s of None \<Rightarrow> canonical_roles | Some a \<Rightarrow> al_roles a)
      in if current \<notin> set ordered then False
         else
           (let prior = map (\<lambda>r. if r = ''synthesize'' then ''summarizer'' else r)
                          (takeWhile (\<lambda>r. r \<noteq> current) ordered);
                completed = map rr_role (opt_or (st_role_results s) [])
            in set prior \<subseteq> set completed))"

definition search_config :: "runtime_config \<Rightarrow> graph_state \<Rightarrow> string \<Rightarrow> react_config" where
  "search_config cfg s rl =
     \<lparr>early = rt_enable_early_termination cfg,
      quality = \<lparr>evidence_threshold = rt_evidence_threshold cfg,
                 coverage_threshold = rt_citation_threshold cfg, goal_threshold = rt_goal_threshold cfg\<rparr>,
      plateau_window = rt_plateau_window cfg, roles_complete = prior_required_roles_complete s rl,
      approval_open = opt_or (st_unresolved_approval s) False, blocked = opt_or (st_safety_blocked s) False\<rparr>"

definition max_iterations_of :: "workflow_request \<Rightarrow> string \<Rightarrow> int \<Rightarrow> int" where
  "max_iterations_of rq rl d = (case map_of (rq_max_iterations rq) rl of None \<Rightarrow> d | Some n \<Rightarrow> n)"

definition add_result :: "role_result \<Rightarrow> graph_state \<Rightarrow> graph_state" where
  "add_result r s = s\<lparr>st_role_results := Some (opt_or (st_role_results s) [] @ [r])\<rparr>"

definition searcher ::
  "deadline_ctx \<Rightarrow> react_world \<Rightarrow> runtime_config \<Rightarrow> graph_state \<Rightarrow> (node_error, graph_state) result" where
  "searcher ctx w cfg s =
     and_then (branch_check ctx w 0) (\<lambda>_.
       and_then (runtime_request cfg s) (\<lambda>rq.
         and_then
           (bounded_react_search ctx w (search_config cfg s ''searcher'') rq ''searcher''
              (max_iterations_of rq ''searcher'' 3) [''query_context_chunks''])
           (\<lambda>r. Inr ((add_result r
              (add_trace ([role_event ''graph.node.started'' ''searcher'' ''running''] @ rr_react_trace r @
                 [role_event ''graph.node.completed'' ''searcher'' ''completed'']) s))
              \<lparr>st_searcher := Some r\<rparr>))))"

section \<open>The memory agent\<close>

definition memory_agent ::
  "deadline_ctx \<Rightarrow> react_world \<Rightarrow> runtime_config \<Rightarrow> graph_state \<Rightarrow> (node_error, graph_state) result" where
  "memory_agent ctx w cfg s =
     and_then (branch_check ctx w 0) (\<lambda>_.
       and_then (runtime_request cfg s) (\<lambda>rq.
         let cs = filter (\<lambda>c. ck_source_type c \<in> {''memory'', ''contact_profile'', ''followup''})
                    (rq_context_chunks rq);
             snippets = top_snippets cs 4;
             cits = citations_from_chunks cs;
             summary = (if snippets \<noteq> []
               then ((codes ''MemoryAgent: '') @ [24050, 35835, 21462, 21382, 21490, 35760, 24518, 21644, 36319, 36827, 19978, 19979, 25991, 65306]) @ take 160 (hd snippets)
               else ((codes ''MemoryAgent: '') @ [26410, 21457, 29616, 21487, 22797, 29992, 30340, 21382, 21490, 35760, 24518, 65292, 21518, 32493, 23558, 22522, 20110, 26412, 36718, 35777, 25454, 29983, 25104, 21453, 24605, 35760, 24518, 12290]));
             r = (role_result0 ''memory_agent'')
               \<lparr>rr_summary := summary, rr_citations := cits, rr_snippets := snippets\<rparr>
         in Inr ((add_result r
              (add_trace
                 [role_event ''graph.node.started'' ''memory_agent'' ''completed'',
                  (trace_event0 ''memory.read'' ''memory_agent'')
                    \<lparr>ev_role := ''memory_agent'',
                     ev_metadata := [(''memory_chunks'', jlen cs), (''citations'', jlen cits)]\<rparr>,
                  role_event ''graph.node.completed'' ''memory_agent'' ''completed''] s))
              \<lparr>st_memory_agent := Some r\<rparr>)))"

section \<open>The summarizer\<close>

text \<open>What a model provider returns; the rule provider returns nothing.\<close>

record synthesis =
  sy_summary :: ustring
  sy_action_items :: "ustring list"
  sy_next_step :: ustring

type_synonym provider = "workflow_request \<Rightarrow> ustring list \<Rightarrow> synthesis option"

definition insufficient_context_summary :: "workflow_request \<Rightarrow> context_sufficiency \<Rightarrow> ustring" where
  "insufficient_context_summary rq cs =
     (let missing = (if cs_missing_info cs \<noteq> [] then join [12289] (map codes (cs_missing_info cs))
                     else [21487, 24341, 29992, 19978, 19979, 25991])
      in if rq_preset rq = ''context_qa'' then
           ((codes ''Context QA: '') @ [24403, 21069, 19978, 19979, 25991, 19981, 36275, 65292, 32570, 23569]) @ missing @ [65292, 26080, 27861, 32473, 20986, 26377, 20381, 25454, 30340, 22238, 31572, 12290]
         else if rq_preset rq = ''risk_review'' then
           ((codes ''Risk Review: '') @ [24403, 21069, 19978, 19979, 25991, 19981, 36275, 65292, 32570, 23569]) @ missing @ [65292, 26242, 19981, 29983, 25104, 39118, 38505, 32467, 35770, 25110, 20889, 22238, 24314, 35758, 12290]
         else if rq_preset rq = ''follow_up_planner'' then
           ((codes ''Follow-up Plan: '') @ [24403, 21069, 19978, 19979, 25991, 19981, 36275, 65292, 32570, 23569]) @ missing @ [65292, 26242, 19981, 21019, 24314, 21518, 32493, 20219, 21153, 24314, 35758, 12290]
         else ((codes ''Meeting Brief: '') @ [24403, 21069, 19978, 19979, 25991, 19981, 36275, 65292, 32570, 23569]) @ missing @ [65292, 26242, 19981, 29983, 25104, 21487, 20889, 22238, 30340, 20250, 35758, 22797, 30424, 12290])"

definition summarizer_result ::
  "provider \<Rightarrow> workflow_request \<Rightarrow> context_sufficiency \<Rightarrow> synthesis option \<times> role_result" where
  "summarizer_result prov rq sufficiency =
     (let cits = citations_from_chunks (rq_context_chunks rq);
          snippets = top_snippets (rq_context_chunks rq) 4;
          syn = (if cs_sufficient sufficiency then prov rq snippets else None);
          (summary, items, next_step) =
            (case syn of
               Some y \<Rightarrow>
                 (if sy_summary y \<noteq> [] then sy_summary y else synthesize_summary rq snippets,
                  if sy_action_items y \<noteq> [] then sy_action_items y else synthesize_action_items rq,
                  if sy_next_step y \<noteq> [] then sy_next_step y else synthesize_next_step rq)
             | None \<Rightarrow>
                 (if \<not> cs_sufficient sufficiency then
                    (insufficient_context_summary rq sufficiency, [],
                     [34917, 20805, 20250, 35758, 36716, 20889, 12289, 30693, 35782, 24211, 25110, 20250, 35805, 19978, 19979, 25991, 21518, 20877, 37325, 26032, 36816, 34892, 12290])
                  else (synthesize_summary rq snippets, synthesize_action_items rq, synthesize_next_step rq)))
      in (syn, (role_result0 ''summarizer'')
           \<lparr>rr_summary := summary, rr_action_items := items, rr_next_step := next_step,
            rr_citations := cits, rr_snippets := snippets\<rparr>))"

definition synthesize ::
  "deadline_ctx \<Rightarrow> seconds \<Rightarrow> runtime_config \<Rightarrow> string \<Rightarrow> provider \<Rightarrow> graph_state
     \<Rightarrow> (node_error, graph_state) result" where
  "synthesize ctx now cfg provider_name prov s =
     and_then (node_check ctx now) (\<lambda>_.
       and_then (runtime_request cfg s) (\<lambda>rq.
         let (syn, r) = summarizer_result prov rq (opt_or (st_context_sufficiency s) context_sufficiency0);
             version = opt_or (st_prompt_version s) '''';
             skill = opt_or (st_skill_instructions s) [];
             ltm = opt_or (st_long_term_memory s) []
         in Inr ((add_result r (add_trace
              ([(node_started ''synthesize'')\<lparr>ev_role := ''summarizer''\<rparr>] @
               (if skill \<noteq> [] then
                  [(trace_event0 ''skill.instructions_consumed'' ''synthesize'')
                     \<lparr>ev_status := ''applied'', ev_metadata := [(''instruction_length'', jlen skill)]\<rparr>] else []) @
               (if ltm \<noteq> [] then
                  [(trace_event0 ''memory.long_term_retrieved'' ''synthesize'')
                     \<lparr>ev_status := ''applied'', ev_metadata := [(''memory_count'', jlen ltm)]\<rparr>] else []) @
               (if syn \<noteq> None then
                  [(trace_event0 ''llm.structured_output'' ''synthesize'')
                     \<lparr>ev_role := ''summarizer'',
                      ev_metadata := [(''provider'', jstr provider_name), (''prompt_version'', jstr version)]\<rparr>]
                else []) @
               [(node_completed ''synthesize'')
                  \<lparr>ev_role := ''summarizer'', ev_metadata := [(''prompt_version'', jstr version)]\<rparr>]) s))
              \<lparr>st_summarizer := Some r\<rparr>)))"

section \<open>The risk analyst\<close>

definition build_risk_assessment :: "ustring list \<Rightarrow> risk_assessment" where
  "build_risk_assessment flags =
     (let categories =
            (if (codes ''approval_sensitive_action'') \<in> set flags then [''approval''] else []) @
            (if (codes ''budget_or_timeline_risk'') \<in> set flags then [''delivery''] else []) @
            (if (codes ''unresolved_meeting_risk'') \<in> set flags then [''open_issue''] else [])
      in \<lparr>ka_severity = (if 2 \<le> length categories then ''high'' else if categories \<noteq> [] then ''medium''
                         else ''none''),
          ka_categories = categories, ka_flags = flags, ka_requires_human_review = (categories \<noteq> []),
          ka_guardrails =
            (if categories \<noteq> [] then
               [(codes ''Do not execute write tools without human approval.''),
                (codes ''Require cited evidence for risk statements.'')] else [])\<rparr>)"

definition assessment_json :: "risk_assessment \<Rightarrow> json" where
  "assessment_json a =
     JObj [(''severity'', jstr (ka_severity a)), (''categories'', jstrs (ka_categories a)),
           (''flags'', jtexts (ka_flags a)), (''requires_human_review'', JBool (ka_requires_human_review a)),
           (''guardrails'', jtexts (ka_guardrails a))]"

definition risk_analyst ::
  "deadline_ctx \<Rightarrow> seconds \<Rightarrow> react_world \<Rightarrow> runtime_config \<Rightarrow> graph_state
     \<Rightarrow> (node_error, graph_state) result" where
  "risk_analyst ctx now w cfg s =
     and_then (node_check ctx now) (\<lambda>_.
       and_then (runtime_request cfg s) (\<lambda>rq.
         and_then
           (bounded_react_search ctx w (search_config cfg s ''risk_analyst'') rq ''risk_analyst''
              (max_iterations_of rq ''risk_analyst'' 2) [''query_context_chunks'', ''query_recent_meetings''])
           (\<lambda>r0.
             let r = r0\<lparr>rr_summary := (codes ''Risk analyst inspected context with '') @
                          show_int (int (length (rr_react_trace r0))) @ (codes '' bounded read-tool iteration(s).''),
                        rr_risk_flags := infer_risk_flags rq (rr_snippets r0)\<rparr>;
                 assessment = build_risk_assessment (rr_risk_flags r)
             in Inr ((add_result r (add_trace
                  ([role_event ''graph.node.started'' ''risk_analyst'' ''running''] @ rr_react_trace r @
                   [(role_event ''risk.reasoning'' ''risk_analyst'' ''completed'')
                      \<lparr>ev_metadata := [(''risk_flags'', jtexts (rr_risk_flags r)),
                                      (''risk_assessment'', assessment_json assessment)]\<rparr>,
                    role_event ''graph.node.completed'' ''risk_analyst'' ''completed'']) s))
                  \<lparr>st_risk_analyst := Some r, st_risk_assessment := Some assessment\<rparr>))))"

section \<open>Memory reflection\<close>

definition reflect :: "workflow_request \<Rightarrow> graph_state \<Rightarrow> memory_reflection" where
  "reflect rq s =
     (let sufficiency = opt_or (st_context_sufficiency s) context_sufficiency0;
          summary = opt_or (st_summary s) [];
          flags = opt_or (st_risk_flags s) [];
          items = opt_or (st_action_items s) [];
          intent = (case st_intent_route s of None \<Rightarrow> '''' | Some r \<Rightarrow> ir_intent r);
          should_write = (rq_preset rq \<noteq> ''context_qa'' \<and> cs_sufficient sufficiency \<and> summary \<noteq> [])
      in \<lparr>mr_conversation_summary = take 300 summary,
          mr_key_insights = unique_strings
            ([take 220 summary] @ map (\<lambda>i. (codes ''action_item:'') @ i) (take 3 items) @
             map (\<lambda>f. (codes ''risk_flag:'') @ f) flags),
          mr_risk_lessons = map (\<lambda>f. (codes ''guard:'') @ f) flags,
          mr_reinforcement_queries = take 4 (unique_strings
            ([rq_goal rq, rq_goal rq @ (codes '' '') @ codes intent @ (codes '' memory'')] @ flags)),
          mr_memory_write_recommended = should_write,
          mr_reason =
            (if should_write then (codes ''grounded output is sufficient for scoped memory'')
             else if rq_preset rq = ''context_qa'' then (codes ''skip memory write for read-only context QA'')
             else (codes ''skip memory write because context is insufficient''))\<rparr>)"

definition reflection_json :: "memory_reflection \<Rightarrow> json_object" where
  "reflection_json r =
     [(''conversation_summary'', JStr (mr_conversation_summary r)), (''key_insights'', jtexts (mr_key_insights r)),
      (''risk_lessons'', jtexts (mr_risk_lessons r)),
      (''reinforcement_queries'', jtexts (mr_reinforcement_queries r)),
      (''memory_write_recommended'', JBool (mr_memory_write_recommended r)), (''reason'', JStr (mr_reason r))]"

definition reflect_and_plan_memory ::
  "deadline_ctx \<Rightarrow> seconds \<Rightarrow> graph_state \<Rightarrow> (node_error, graph_state) result" where
  "reflect_and_plan_memory ctx now s =
     and_then (node_check ctx now) (\<lambda>_.
       let r = reflect (st_request s) s
       in Inr ((add_trace
            [node_started ''memory_reflection'',
             (trace_event0 ''memory.reflect'' ''memory_reflection'')\<lparr>ev_metadata := reflection_json r\<rparr>,
             node_completed ''memory_reflection''] s)
            \<lparr>st_memory_reflection := Some r\<rparr>))"

definition decompose :: "deadline_ctx \<Rightarrow> seconds \<Rightarrow> graph_state \<Rightarrow> (node_error, graph_state) result" where
  "decompose ctx now s =
     and_then (node_check ctx now) (\<lambda>_. Inr (add_trace
       [node_started ''decompose'',
        (node_completed ''decompose'')
          \<lparr>ev_metadata :=
             [(''supervisor'', jstr ''workflow_supervisor''),
              (''roles'', jstrs [''searcher'', ''memory_agent'', ''summarizer'', ''risk_guardian'']),
              (''pattern'', jstr ''workflow_dag_with_bounded_react_and_reflection'')]\<rparr>] s))"

end
