(* ===== verification/ContextNodes.thy ===== *)
theory ContextNodes
  imports SynthesisNodes
begin

text \<open>
  \<open>services/agent-runtime/allcallall_agent_runtime/nodes/context.py\<close> (collecting the request and
  planning the retrieval) with \<open>prompts/registry.py\<close>, and \<open>nodes/role_router.py\<close>, the dynamic role
  allocation.
\<close>

section \<open>Collecting the context\<close>

definition prompt_version_for :: "string \<Rightarrow> workflow_request \<Rightarrow> string" where
  "prompt_version_for override rq =
     (if strip_ascii override \<noteq> '''' then strip_ascii override
      else if rq_preset rq = ''meeting_brief'' then ''meeting_brief_v2''
      else rq_preset rq @ ''_v1'')"

definition collect_context ::
  "deadline_ctx \<Rightarrow> seconds \<Rightarrow> string \<Rightarrow> graph_state \<Rightarrow> (node_error, graph_state) result" where
  "collect_context ctx now override s =
     and_then (node_check ctx now) (\<lambda>_.
       let rq = st_request s; version = prompt_version_for override rq
       in Inr ((add_trace
            [node_started ''collect_context'',
             (node_completed ''collect_context'')
               \<lparr>ev_metadata :=
                  [(''preset'', jstr (rq_preset rq)), (''messages'', jlen (rq_messages rq)),
                   (''notes'', jlen (rq_notes rq)), (''meeting_transcripts'', jlen (rq_meeting_transcripts rq)),
                   (''context_chunks'', jlen (rq_context_chunks rq)), (''prompt_version'', jstr version)]\<rparr>] s)
            \<lparr>st_prompt_version := Some version\<rparr>))"

section \<open>Planning the retrieval\<close>

record planner_config =
  pl_enable_agentic_rag :: bool
  pl_rag_max_retrieval_steps :: int
  pl_rag_min_confidence :: rat

definition resolve_agentic_rag_config :: "planner_config \<Rightarrow> rag_config \<Rightarrow> rag_config" where
  "resolve_agentic_rag_config app c =
     (let steps0 = (if rc_max_steps c \<le> 0 then pl_rag_max_retrieval_steps app else rc_max_steps c);
          conf0 = (if rc_min_confidence c \<le> 0 then pl_rag_min_confidence app else rc_min_confidence c);
          allowed = filter (\<lambda>t. strip_ascii t \<noteq> '''') (rc_allowed_source_types c)
      in \<lparr>rc_enabled = (rc_enabled c \<or> pl_enable_agentic_rag app),
          rc_max_steps = max 1 (min steps0 3),
          rc_allowed_source_types = (if allowed = [] then rc_allowed_source_types rag_config0 else allowed),
          rc_min_confidence = max (1 / 10) (min conf0 1)\<rparr>)"

definition join_query :: "ustring list \<Rightarrow> ustring" where
  "join_query parts = join (codes '' '') (unique_strings (filter (\<lambda>p. strip p \<noteq> []) parts))"

definition mk_step ::
  "int \<Rightarrow> ustring \<Rightarrow> string \<Rightarrow> string \<Rightarrow> ustring \<Rightarrow> string \<Rightarrow> ustring list \<Rightarrow> plan_step" where
  "mk_step n q scope tool why strategy terms =
     \<lparr>ps_step = n, ps_query = q, ps_source_scope = scope, ps_tool_name = tool, ps_rationale = why,
      ps_strategy = strategy, ps_expanded_terms = terms\<rparr>"

definition plan_candidates ::
  "workflow_request \<Rightarrow> rag_config \<Rightarrow> intent_route \<Rightarrow> graph_expansion \<Rightarrow> plan_step list" where
  "plan_candidates rq c route graph =
     (let goal = strip (rq_goal rq);
          terms = gx_expanded_terms graph;
          expanded = join (codes '' '') (take 6 terms);
          route_sources = filter (\<lambda>t. t \<in> set (rc_allowed_source_types c)) (ir_required_source_types route);
          graph_strategy = (if gx_enabled graph then ''graph_augmented'' else ''adaptive'');
          first =
            (if ir_intent route = ''consult'' \<or> rq_preset rq = ''context_qa'' then
               [mk_step 1 (join_query [goal, expanded, (codes ''policy knowledge checklist evidence'')]) ''knowledge''
                  ''query_knowledge_chunks'' (codes ''Consult intent should first inspect organization knowledge.'')
                  (ir_retrieval_strategy route) terms,
                mk_step 2 (join_query [goal, (codes ''meeting transcript conversation evidence''), expanded]) ''all''
                  ''query_context_chunks''
                  (codes ''Refine with transcript and conversation evidence if knowledge is insufficient.'')
                  ''adaptive'' terms]
             else if ir_intent route = ''risk'' then
               [mk_step 1 (join_query [goal, (codes ''risk blocker approval deadline budget security legal'')])
                  ''meeting_transcript'' ''query_meeting_transcript_segments''
                  (codes ''Risk intent should ground claims in meeting transcript segments first.'')
                  (ir_retrieval_strategy route) terms,
                mk_step 2 (join_query [goal, expanded, (codes ''risk policy knowledge approval guardrail'')]) ''knowledge''
                  ''query_knowledge_chunks'' (codes ''Supplement risks with policy or knowledge evidence.'')
                  graph_strategy terms]
             else
               [mk_step 1 (join_query [goal, (codes ''conversation notes transcript knowledge memory'')]) ''all''
                  ''query_context_chunks''
                  (codes ''Chat/general tasks should inspect scoped conversation and memory context first.'')
                  (ir_retrieval_strategy route) terms,
                mk_step 2 (join_query [goal, expanded, (codes ''related knowledge policy context'')]) ''knowledge''
                  ''query_knowledge_chunks''
                  (codes ''Retrieve related knowledge when the transcript alone does not cover policy context.'')
                  graph_strategy terms])
      in first @
         [mk_step (int (length first) + 1)
            (join_query [goal, (codes ''conversation notes follow ups memory''), join (codes '' '') (map codes route_sources)])
            ''all'' ''query_context_chunks'' (codes ''Final bounded fallback over all scoped conversation context.'')
            (if ir_intent route = ''risk'' then ''multi_hop'' else ''adaptive'') terms])"

text \<open>The filtering loop: the budget is tested only after a candidate was added unchanged.\<close>

fun filter_steps ::
  "workflow_request \<Rightarrow> rag_config \<Rightarrow> plan_step list \<Rightarrow> plan_step list \<Rightarrow> plan_step list" where
  "filter_steps rq c steps [] = steps"
| "filter_steps rq c steps (p # ps) =
     (if ps_source_scope p \<noteq> ''all'' \<and> ps_source_scope p \<notin> set (rc_allowed_source_types c)
      then filter_steps rq c steps ps
      else if \<not> tool_allowed rq (ps_tool_name p) then
        (if tool_allowed rq ''query_context_chunks'' then
           filter_steps rq c
             (steps @ [p\<lparr>ps_tool_name := ''query_context_chunks'', ps_source_scope := ''all'',
                         ps_step := int (length steps) + 1\<rparr>]) ps
         else filter_steps rq c steps ps)
      else
        (let steps' = steps @ [p\<lparr>ps_step := int (length steps) + 1\<rparr>]
         in if rc_max_steps c \<le> int (length steps') then steps' else filter_steps rq c steps' ps))"

definition build_retrieval_plan ::
  "workflow_request \<Rightarrow> rag_config \<Rightarrow> bool \<Rightarrow> intent_route \<Rightarrow> graph_expansion \<Rightarrow> retrieval_plan" where
  "build_retrieval_plan rq c on route graph =
     (if \<not> on then
        \<lparr>rp_enabled = False, rp_max_steps = rc_max_steps c, rp_min_confidence = rc_min_confidence c,
         rp_steps = [], rp_intent_route = route, rp_graph_expansion = graph\<rparr>
      else
        (let kept = filter_steps rq c [] (plan_candidates rq c route graph);
             steps = (if kept = [] \<and> tool_allowed rq ''query_context_chunks''
               then [mk_step 1 (strip (rq_goal rq)) ''all'' ''query_context_chunks''
                       (codes ''Fallback to scoped context retrieval.'') ''adaptive'' []]
               else kept)
         in \<lparr>rp_enabled = True, rp_max_steps = rc_max_steps c, rp_min_confidence = rc_min_confidence c,
             rp_steps = steps, rp_intent_route = route, rp_graph_expansion = graph\<rparr>))"

definition route_json :: "intent_route \<Rightarrow> json_object" where
  "route_json r =
     [(''intent'', jstr (ir_intent r)), (''target_workflow'', jstr (ir_target_workflow r)),
      (''confidence'', JNum (ir_confidence r)), (''rationale'', jstr (ir_rationale r)),
      (''required_source_types'', jstrs (ir_required_source_types r)),
      (''retrieval_strategy'', jstr (ir_retrieval_strategy r))]"

definition edge_json :: "graph_edge \<Rightarrow> json" where
  "edge_json e = JObj
     [(''edge_id'', jstr (ge_edge_id e)), (''source'', JStr (ge_source e)), (''relation'', jstr (ge_relation e)),
      (''target'', JStr (ge_target e)), (''evidence_chunk_id'', jstr (ge_evidence_chunk_id e)),
      (''confidence'', JNum (ge_confidence e))]"

definition step_json :: "plan_step \<Rightarrow> json" where
  "step_json p = JObj
     [(''step'', JInt (ps_step p)), (''query'', JStr (ps_query p)), (''source_scope'', jstr (ps_source_scope p)),
      (''tool_name'', jstr (ps_tool_name p)), (''rationale'', JStr (ps_rationale p)),
      (''strategy'', jstr (ps_strategy p)), (''expanded_terms'', jtexts (ps_expanded_terms p))]"

definition retrieval_planner ::
  "deadline_ctx \<Rightarrow> seconds \<Rightarrow> planner_config \<Rightarrow> graph_state \<Rightarrow> (node_error, graph_state) result" where
  "retrieval_planner ctx now app s =
     and_then (node_check ctx now) (\<lambda>_.
       let rq = st_request s;
           c = resolve_agentic_rag_config app (rq_agentic_rag rq);
           route = route_request_intent rq;
           graph = build_graph_expansion (rq_goal rq) (rq_context_chunks rq);
           plan = build_retrieval_plan rq c (rc_enabled c) route graph
       in Inr ((add_trace
            ([node_started ''retrieval_planner'',
              (trace_event0 ''intent.route'' ''retrieval_planner'')\<lparr>ev_metadata := route_json route\<rparr>] @
             (if gx_enabled graph then
                [(trace_event0 ''rag.graph_expand'' ''retrieval_planner'')
                   \<lparr>ev_metadata := [(''expanded_terms'', jtexts (gx_expanded_terms graph)),
                                   (''edges'', JList (map edge_json (gx_edges graph)))]\<rparr>] else []) @
             [(trace_event0 ''rag.plan'' ''retrieval_planner'')
                \<lparr>ev_metadata :=
                   [(''enabled'', JBool (rp_enabled plan)), (''max_steps'', JInt (rp_max_steps plan)),
                    (''min_confidence'', JNum (rp_min_confidence plan)),
                    (''steps'', JList (map step_json (rp_steps plan)))]\<rparr>,
              node_completed ''retrieval_planner'']) s)
            \<lparr>st_agentic_rag_enabled := Some (rc_enabled c), st_intent_route := Some route,
             st_graph_expansion := Some graph, st_retrieval_plan := Some plan\<rparr>))"

section \<open>Role allocation\<close>

definition preset_roles :: "string \<Rightarrow> string list" where
  "preset_roles p =
     (if p = ''meeting_brief'' then [''searcher'', ''memory_agent'', ''synthesize'', ''risk_analyst'']
      else if p = ''risk_review'' then [''searcher'', ''synthesize'', ''risk_analyst'']
      else if p = ''context_qa'' then [''searcher'', ''synthesize'']
      else [''searcher'', ''memory_agent'', ''synthesize''])"

definition classify_complexity :: "workflow_request \<Rightarrow> string" where
  "classify_complexity rq =
     (let score = (if 2 \<le> length (rq_attachments rq) then 1 else 0) +
                  (if rq_meeting_transcripts rq \<noteq> [] then 1 else 0) +
                  (if 100 < length (rq_goal rq) then 1 else 0) +
                  (if rq_preset rq = ''risk_review'' then 1 else (0 :: int))
      in if 3 \<le> score then ''complex'' else if 1 \<le> score then ''moderate'' else ''simple'')"

definition ordered_subset :: "string list \<Rightarrow> string list" where
  "ordered_subset roles = filter (\<lambda>r. r \<in> set roles) canonical_roles"

definition risk_is_mandatory :: "graph_state \<Rightarrow> bool" where
  "risk_is_mandatory s \<longleftrightarrow>
     rq_preset (st_request s) = ''risk_review'' \<or>
     (case st_intent_route s of None \<Rightarrow> False | Some i \<Rightarrow> ir_intent i = ''risk'') \<or>
     pol_write_tools (rq_tool_policy (st_request s)) \<noteq> [] \<or>
     opt_or (st_unresolved_approval s) False \<or> opt_or (st_safety_blocked s) False \<or>
     opt_or (st_risk_flags s) [] \<noteq> []"

definition parallel_groups :: "string list \<Rightarrow> string list list" where
  "parallel_groups roles =
     (if ''searcher'' \<in> set roles \<and> ''memory_agent'' \<in> set roles then [[''searcher'', ''memory_agent'']] else []) @
     map (\<lambda>r. [r]) (filter (\<lambda>r. r \<notin> {''searcher'', ''memory_agent''}) roles)"

definition allocated_roles :: "graph_state \<Rightarrow> string list" where
  "allocated_roles s =
     (let preset = rq_preset (st_request s);
          intent = (case st_intent_route s of None \<Rightarrow> None | Some i \<Rightarrow> Some (ir_intent i));
          r0 = preset_roles preset;
          r1 = (if intent = Some ''risk'' \<and> ''risk_analyst'' \<notin> set r0 then r0 @ [''risk_analyst''] else r0);
          r2 = (if intent = Some ''chat'' \<and> preset \<in> {''react_general'', ''follow_up_planner''} \<and> 3 < length r1
                then filter (\<lambda>r. r \<in> {''searcher'', ''synthesize''}) r1 else r1);
          r3 = ordered_subset r2
      in if risk_is_mandatory s \<and> ''risk_analyst'' \<notin> set r3 then r3 @ [''risk_analyst''] else r3)"

definition route_roles :: "deadline_ctx \<Rightarrow> seconds \<Rightarrow> graph_state \<Rightarrow> (node_error, graph_state) result" where
  "route_roles ctx now s =
     and_then (node_check ctx now) (\<lambda>_.
       let rq = st_request s;
           roles = allocated_roles s;
           skip = filter (\<lambda>r. r \<notin> set roles) canonical_roles;
           complexity = classify_complexity rq;
           allocation =
             \<lparr>al_roles = roles, al_parallel_groups = parallel_groups roles, al_skip_roles = skip,
              al_required_roles = (if risk_is_mandatory s then [''risk_analyst''] else []),
              al_rationale = (codes ''preset='') @ codes (rq_preset rq) @ (codes '', intent='') @
                codes (case st_intent_route s of None \<Rightarrow> ''none'' | Some i \<Rightarrow> ir_intent i) @
                (codes '', complexity='') @ codes complexity,
              al_complexity = complexity\<rparr>
       in Inr ((add_trace
            [(trace_event0 ''router.role_allocation'' ''role_router'')
               \<lparr>ev_metadata := [(''roles'', jstrs roles), (''skip_roles'', jstrs (sort skip)),
                               (''complexity'', jstr complexity)]\<rparr>] s)
            \<lparr>st_role_allocation := Some allocation\<rparr>))"

definition next_role_after :: "graph_state \<Rightarrow> string option \<Rightarrow> string" where
  "next_role_after s current =
     (let roles = (case st_role_allocation s of None \<Rightarrow> canonical_roles | Some a \<Rightarrow> al_roles a)
      in if roles = [] then ''merge''
         else
           (case current of
              None \<Rightarrow> hd roles
            | Some r \<Rightarrow>
                (case dropWhile (\<lambda>x. x \<noteq> r) roles of
                   _ # nxt # _ \<Rightarrow> nxt
                 | _ \<Rightarrow> ''merge'')))"

section \<open>Lemmas\<close>

text \<open>A plan that the planner makes has at most three steps, numbered in order.\<close>

lemma mk_step_step [simp]: "ps_step (mk_step n q sc tool why st terms) = n"
  by (simp add: mk_step_def)

lemma resolve_bounds:
  "1 \<le> rc_max_steps (resolve_agentic_rag_config app c) \<and> rc_max_steps (resolve_agentic_rag_config app c) \<le> 3"
  by (simp add: resolve_agentic_rag_config_def Let_def)

lemma numbered_filter_steps:
  "map ps_step steps = map (\<lambda>i. int i + 1) [0..<length steps] \<Longrightarrow>
     map ps_step (filter_steps rq c steps ps) = map (\<lambda>i. int i + 1) [0..<length (filter_steps rq c steps ps)]"
proof (induction rq c steps ps rule: filter_steps.induct)
  case (2 rq c steps p ps)
  then show ?case by (simp add: Let_def)
qed simp

lemma length_plan_candidates: "length (plan_candidates rq c route graph) = 3"
  by (simp add: plan_candidates_def Let_def)

text \<open>Allocated roles are distinct roles in the canonical order.\<close>

lemma allocated_roles_ordered: "allocated_roles s = filter (\<lambda>r. r \<in> set (allocated_roles s)) canonical_roles"
proof -
  have *: "filter (\<lambda>r. r \<in> set (ordered_subset rs)) canonical_roles = ordered_subset rs" for rs
    by (auto simp: ordered_subset_def intro: filter_cong)
  have **: "filter (\<lambda>r. r \<in> set (ordered_subset rs @ [''risk_analyst''])) canonical_roles
      = ordered_subset rs @ [''risk_analyst'']" if "''risk_analyst'' \<notin> set (ordered_subset rs)" for rs
  proof -
    let ?three = "[''searcher'', ''memory_agent'', ''synthesize'']"
    have can: "canonical_roles = ?three @ [''risk_analyst'']" by (simp add: canonical_roles_def)
    have "''risk_analyst'' \<notin> set rs"
      using that unfolding ordered_subset_def can by (simp only: set_filter) simp
    then have os: "ordered_subset rs = filter (\<lambda>r. r \<in> set rs) ?three"
      unfolding ordered_subset_def can by (simp only: filter_append filter.simps if_False append_Nil2)
    have "filter (\<lambda>r. r \<in> set (ordered_subset rs @ [''risk_analyst''])) ?three = ordered_subset rs"
      unfolding os by (rule filter_cong) auto
    moreover have "filter (\<lambda>r. r \<in> set (ordered_subset rs @ [''risk_analyst''])) [''risk_analyst''] = [''risk_analyst'']"
      by simp
    ultimately show ?thesis unfolding can filter_append by (simp only:)
  qed
  show ?thesis
    unfolding allocated_roles_def Let_def using * ** by (simp split: if_splits)
qed

lemma distinct_allocated: "distinct (allocated_roles s)"
proof -
  have "distinct canonical_roles" by (simp add: canonical_roles_def)
  then show ?thesis by (subst allocated_roles_ordered) simp
qed

end
