(* ===== verification/ParallelRoles.thy ===== *)
theory ParallelRoles
  imports ContextNodes
begin

text \<open>
  \<open>services/agent-runtime/allcallall_agent_runtime/nodes/parallel_roles.py\<close>: the bounded parallel
  execution of the searcher and the memory agent.

  Each branch runs on its own snapshot, so what a branch returns depends only on the state the group
  started with and on the thread it runs in: the threads of the group's pool have no context variable, hence
  no deadline. The branches are two arguments, \<open>pooled\<close> and \<open>inline\<close>, from roles to results. The threads are
  modelled by the order in which the branches finish, a list \<open>finished\<close>. The cancellation event is set once the
  group has collected a failure; what a branch that sees it returns is discarded. The metrics are not modelled.
\<close>

section \<open>Reservations\<close>

record group_reservation =
  gr_roles :: "string list"
  gr_token_budget :: int
  gr_provider_calls :: int
  gr_used_tokens :: int
  gr_used_provider_calls :: int
  gr_role_tokens :: "(string \<times> int) list"
  gr_released :: bool

datatype group_error =
    AlreadyReleased
  | NotInGroup string
  | AlreadyReserved string
  | NegativeTokens
  | TokenBudgetExceeded string
  | ProviderBudgetExceeded string
  | NotPositive
  | UnsupportedRole
  | MissingAllocation
  | BranchFailed node_error
  | NoRoleResult string

definition acquire :: "string \<Rightarrow> int \<Rightarrow> group_reservation \<Rightarrow> (group_error, group_reservation) result" where
  "acquire rl tokens g =
     (if gr_released g then Inl AlreadyReleased
      else if rl \<notin> set (gr_roles g) then Inl (NotInGroup rl)
      else if rl \<in> fst ` set (gr_role_tokens g) then Inl (AlreadyReserved rl)
      else if tokens < 0 then Inl NegativeTokens
      else if gr_token_budget g < gr_used_tokens g + tokens then Inl (TokenBudgetExceeded rl)
      else if gr_provider_calls g < gr_used_provider_calls g + 1 then Inl (ProviderBudgetExceeded rl)
      else Inr (g\<lparr>gr_used_tokens := gr_used_tokens g + tokens,
                  gr_used_provider_calls := gr_used_provider_calls g + 1,
                  gr_role_tokens := gr_role_tokens g @ [(rl, tokens)]\<rparr>))"

definition release_role :: "string \<Rightarrow> group_reservation \<Rightarrow> group_reservation" where
  "release_role rl g =
     (if gr_released g then g
      else
        (case map_of (gr_role_tokens g) rl of
           None \<Rightarrow> g
         | Some t \<Rightarrow>
             g\<lparr>gr_used_tokens := gr_used_tokens g - t,
               gr_used_provider_calls := gr_used_provider_calls g - 1,
               gr_role_tokens := filter (\<lambda>p. fst p \<noteq> rl) (gr_role_tokens g)\<rparr>))"

definition release_group :: "group_reservation \<Rightarrow> group_reservation" where
  "release_group g =
     (if gr_released g then g
      else g\<lparr>gr_released := True, gr_used_tokens := 0, gr_used_provider_calls := 0, gr_role_tokens := []\<rparr>)"

definition reserve_group_budget :: "string list \<Rightarrow> int \<Rightarrow> group_reservation" where
  "reserve_group_budget roles budget =
     \<lparr>gr_roles = roles, gr_token_budget = budget, gr_provider_calls = min (int (length roles)) 2,
      gr_used_tokens = 0, gr_used_provider_calls = 0, gr_role_tokens = [], gr_released = False\<rparr>"

definition estimate_role_tokens :: "graph_state \<Rightarrow> string \<Rightarrow> int" where
  "estimate_role_tokens s rl =
     (let rq = st_request s
      in (if rl = ''searcher'' then 64 else 32) + max 1 (int (length (rq_goal rq)) div 4) +
         sum_list (map (\<lambda>c. max 1 (int (length (ck_snippet c)) div 4)) (take 20 (rq_context_chunks rq))))"

section \<open>Branches and deltas\<close>

record role_delta =
  rd_role :: string
  rd_trace_events :: "trace_event list"
  rd_role_result :: role_result

text \<open>The branch's view: the shared result, trace and allocation keys are absent.\<close>

definition branch_snapshot :: "graph_state \<Rightarrow> graph_state" where
  "branch_snapshot s =
     (graph_state0 (st_request s))
       \<lparr>st_trace_events := Some [], st_role_results := Some [],
        st_prompt_version := st_prompt_version s,
        st_retrieved_context_chunks := st_retrieved_context_chunks s,
        st_reranked_context_chunks := st_reranked_context_chunks s,
        st_agentic_context_chunks := st_agentic_context_chunks s,
        st_long_term_memory := st_long_term_memory s,
        st_context_sufficiency := st_context_sufficiency s, st_evidence_pack := st_evidence_pack s,
        st_skill_instructions := st_skill_instructions s\<rparr>"

definition extract_role_result :: "graph_state \<Rightarrow> string \<Rightarrow> (group_error, role_result) result" where
  "extract_role_result out rl =
     (case (if rl = ''searcher'' then st_searcher out else st_memory_agent out) of
        Some r \<Rightarrow> Inr r
      | None \<Rightarrow>
          (case List.find (\<lambda>r. rr_role r = rl) (opt_or (st_role_results out) []) of
             Some r \<Rightarrow> Inr r | None \<Rightarrow> Inl (NoRoleResult rl)))"

text \<open>
  \<open>_run_role\<close>: the executor of the role on its snapshot, its result and its trace, unless the cancellation event is
  set by the time the executor returns.
\<close>

definition run_role ::
  "(string \<Rightarrow> graph_state \<Rightarrow> (node_error, graph_state) result) \<Rightarrow> bool \<Rightarrow> graph_state \<Rightarrow> string
     \<Rightarrow> (group_error, role_delta) result" where
  "run_role executor cancel_set s rl =
     (case executor rl (branch_snapshot s) of
        Inl e \<Rightarrow> Inl (BranchFailed e)
      | Inr out \<Rightarrow>
          if cancel_set then Inl (BranchFailed (Cancelled (execution_cancelled ''shutdown'')))
          else and_then (extract_role_result out rl) (\<lambda>r. Inr
            \<lparr>rd_role = rl, rd_trace_events = opt_or (st_trace_events out) [], rd_role_result = r\<rparr>))"

record merged_roles =
  me_trace_events :: "trace_event list"
  me_role_results :: "role_result list"
  me_citations :: "citation list"
  me_action_items :: "ustring list"
  me_risk_flags :: "ustring list"

definition delta_for :: "role_delta list \<Rightarrow> string \<Rightarrow> role_delta option" where
  "delta_for ds rl = map_of (map (\<lambda>d. (rd_role d, d)) (rev ds)) rl"

definition ordered_deltas :: "role_delta list \<Rightarrow> role_delta list" where
  "ordered_deltas ds = List.map_filter (delta_for ds) canonical_roles"

definition merge_role_deltas ::
  "role_delta list \<Rightarrow> trace_event list \<Rightarrow> role_result list \<Rightarrow> merged_roles" where
  "merge_role_deltas ds parent_trace parent_results =
     (let ordered = ordered_deltas ds;
          results = map rd_role_result ordered
      in \<lparr>me_trace_events = parent_trace @ concat (map rd_trace_events ordered),
          me_role_results =
            filter (\<lambda>r. rr_role r \<notin> rd_role ` set ds) parent_results @ results,
          me_citations =
            dedup_by (\<lambda>c. (cit_chunk_id c, cit_source_type c, cit_source_id c)) {}
              (concat (map rr_citations results)),
          me_action_items = dedup_by id {} (concat (map rr_action_items results)),
          me_risk_flags = dedup_by id {} (concat (map rr_risk_flags results))\<rparr>)"

section \<open>Executing a group\<close>

type_synonym branch_results = "string \<Rightarrow> (group_error, role_delta) result"

text \<open>The parallel branches, collected in the order they finish; the first failure discards all.\<close>

fun collect ::
  "branch_results \<Rightarrow> string list \<Rightarrow> role_delta list \<Rightarrow> group_reservation
     \<Rightarrow> (group_error, role_delta list) result \<times> group_reservation" where
  "collect run [] ds g = (Inr ds, g)"
| "collect run (rl # rest) ds g =
     (case run rl of
        Inl e \<Rightarrow> (Inl e, g)
      | Inr d \<Rightarrow> collect run rest (ds @ [d]) (release_role (rd_role d) g))"

fun acquire_all ::
  "(string \<Rightarrow> int) \<Rightarrow> string list \<Rightarrow> group_reservation \<Rightarrow> group_error option \<times> group_reservation" where
  "acquire_all est [] g = (None, g)"
| "acquire_all est (rl # rest) g =
     (case acquire rl (est rl) g of Inl e \<Rightarrow> (Some e, g) | Inr g' \<Rightarrow> acquire_all est rest g')"

text \<open>The sequential fallback: reserve, run and release one role after the other.\<close>

fun run_sequential ::
  "(string \<Rightarrow> int) \<Rightarrow> branch_results \<Rightarrow> string list \<Rightarrow> role_delta list \<Rightarrow> group_reservation
     \<Rightarrow> (group_error, role_delta list) result \<times> group_reservation" where
  "run_sequential est run [] ds g = (Inr ds, g)"
| "run_sequential est run (rl # rest) ds g =
     (case acquire rl (est rl) g of
        Inl e \<Rightarrow> (Inl e, g)
      | Inr g1 \<Rightarrow>
          (case run rl of
             Inl e \<Rightarrow> (Inl e, g1)
           | Inr d \<Rightarrow> run_sequential est run rest (ds @ [d]) (release_role rl g1)))"

text \<open>\<open>deltas.sort\<close> by the place of the role in the canonical order.\<close>

definition role_index :: "string \<Rightarrow> nat" where
  "role_index rl = length (takeWhile (\<lambda>r. r \<noteq> rl) canonical_roles)"

definition group_order :: "string list \<Rightarrow> string list" where
  "group_order roles = filter (\<lambda>r. r \<in> set roles) canonical_roles"

definition execute_parallel_roles ::
  "(string \<Rightarrow> int) \<Rightarrow> branch_results \<Rightarrow> branch_results \<Rightarrow> string list \<Rightarrow> int \<Rightarrow> int \<Rightarrow> string list
     \<Rightarrow> (group_error, role_delta list) result \<times> group_reservation option" where
  "execute_parallel_roles est pooled inline roles max_parallel token_budget finished =
     (if max_parallel < 1 then (Inl NotPositive, None)
      else if \<not> set roles \<subseteq> {''searcher'', ''memory_agent''} then (Inl UnsupportedRole, None)
      else if roles = [] then (Inr [], None)
      else
        (let ordered = group_order roles;
             estimated = sum_list (map est ordered);
             allowed = (1 < length ordered \<and> estimated \<le> token_budget \<and> length ordered \<le> 2);
             g0 = reserve_group_budget ordered token_budget
         in if allowed then
              (case acquire_all est ordered g0 of
                 (Some e, g) \<Rightarrow> (Inl e, Some (release_group g))
               | (None, g) \<Rightarrow>
                   (case collect pooled finished [] g of
                      (Inl e, g') \<Rightarrow> (Inl e, Some (release_group g'))
                    | (Inr ds, g') \<Rightarrow>
                        (Inr (sort_key (\<lambda>d. role_index (rd_role d)) ds), Some (release_group g'))))
            else
              (case run_sequential est inline ordered [] g0 of
                 (r, g') \<Rightarrow> (r, Some (release_group g')))))"

text \<open>The executors come by the thread they run in: \<^term>\<open>executor True\<close> in a thread of the group's pool.\<close>

definition parallel_roles_node ::
  "runtime_config \<Rightarrow> (bool \<Rightarrow> string \<Rightarrow> graph_state \<Rightarrow> (node_error, graph_state) result) \<Rightarrow> string list
     \<Rightarrow> graph_state \<Rightarrow> (group_error, graph_state) result" where
  "parallel_roles_node cfg executor finished s =
     (case st_role_allocation s of
        None \<Rightarrow> Inl MissingAllocation
      | Some a \<Rightarrow>
          (let roles = filter (\<lambda>r. r \<in> {''searcher'', ''memory_agent''}) (al_roles a)
           in and_then (fst (execute_parallel_roles (estimate_role_tokens s)
                               (run_role (executor True) False s) (run_role (executor False) False s) roles 2
                               (rt_parallel_role_token_budget cfg) finished)) (\<lambda>ds.
             let m = merge_role_deltas ds (opt_or (st_trace_events s) []) (opt_or (st_role_results s) []);
                 pick = (\<lambda>rl. map_option rd_role_result (delta_for ds rl))
             in Inr (s\<lparr>st_trace_events := Some (me_trace_events m), st_role_results := Some (me_role_results m),
                       st_citations := Some (me_citations m), st_action_items := Some (me_action_items m),
                       st_risk_flags := Some (me_risk_flags m),
                       st_searcher := (case pick ''searcher'' of None \<Rightarrow> st_searcher s | Some r \<Rightarrow> Some r),
                       st_memory_agent := (case pick ''memory_agent'' of None \<Rightarrow> st_memory_agent s
                                           | Some r \<Rightarrow> Some r)\<rparr>))))"

section \<open>Properties\<close>

text \<open>A reservation never hands out more than its budgets.\<close>

definition reservation_ok :: "group_reservation \<Rightarrow> bool" where
  "reservation_ok g \<longleftrightarrow>
     gr_used_tokens g = sum_list (map snd (gr_role_tokens g)) \<and>
     gr_used_provider_calls g = int (length (gr_role_tokens g)) \<and>
     distinct (map fst (gr_role_tokens g)) \<and> list_all (\<lambda>p. 0 \<le> snd p) (gr_role_tokens g) \<and>
     gr_used_tokens g \<le> max 0 (gr_token_budget g) \<and>
     gr_used_provider_calls g \<le> max 0 (gr_provider_calls g)"

lemma reservation_ok_start: "reservation_ok (reserve_group_budget roles budget)"
  by (simp add: reservation_ok_def reserve_group_budget_def)

lemma reservation_ok_acquire: "reservation_ok g \<Longrightarrow> acquire rl t g = Inr g' \<Longrightarrow> reservation_ok g'"
  by (auto simp: reservation_ok_def acquire_def split: if_splits)

lemma reservation_ok_release_group: "reservation_ok g \<Longrightarrow> reservation_ok (release_group g)"
  by (auto simp: reservation_ok_def release_group_def)

lemma sum_filter_key:
  "distinct (map fst ps) \<Longrightarrow> map_of ps k = Some t \<Longrightarrow>
     sum_list (map snd (filter (\<lambda>p. fst p \<noteq> k) ps)) = sum_list (map snd ps) - (t :: int) \<and>
     int (length (filter (\<lambda>p. fst p \<noteq> k) ps)) = int (length ps) - 1"
proof (induction ps)
  case (Cons p ps)
  show ?case
  proof (cases "fst p = k")
    case True
    have "k \<notin> fst ` set ps" using Cons.prems(1) True by auto
    then have "filter (\<lambda>p. fst p \<noteq> k) ps = ps"
      by (intro filter_True) (metis image_eqI)
    then show ?thesis using True Cons.prems(2) by (cases p) auto
  next
    case False
    then show ?thesis using Cons by (cases p) auto
  qed
qed simp

lemma reservation_ok_release_role:
  assumes "reservation_ok g"
  shows "reservation_ok (release_role rl g)"
proof (cases "gr_released g \<or> map_of (gr_role_tokens g) rl = None")
  case True
  then show ?thesis using assms by (auto simp: release_role_def)
next
  case False
  then obtain t where t: "\<not> gr_released g" "map_of (gr_role_tokens g) rl = Some t" by auto
  have nn: "0 \<le> t" using assms t(2) by (auto simp: reservation_ok_def list_all_iff dest!: map_of_SomeD)
  have d: "distinct (map fst (gr_role_tokens g))" using assms by (simp add: reservation_ok_def)
  note f = sum_filter_key [OF d t(2)]
  have "distinct (map fst (filter (\<lambda>p. fst p \<noteq> rl) (gr_role_tokens g)))"
    using d by (rule distinct_map_filter)
  moreover have "list_all (\<lambda>p. 0 \<le> snd p) (filter (\<lambda>p. fst p \<noteq> rl) (gr_role_tokens g))"
    using assms by (auto simp: reservation_ok_def list_all_iff)
  ultimately show ?thesis
    using assms f t nn by (auto simp: reservation_ok_def release_role_def)
qed

text \<open>However it ends, a group leaves its reservation released.\<close>

lemma group_reservation_returned:
  "snd (execute_parallel_roles est pooled inline roles mp budget finished) = Some g \<Longrightarrow> gr_released g"
  by (auto simp: execute_parallel_roles_def Let_def release_group_def
      split: if_splits prod.splits option.splits sum.splits)

text \<open>The first failure among the branches in the order they are looked at.\<close>

fun first_failure :: "branch_results \<Rightarrow> string list \<Rightarrow> group_error option" where
  "first_failure run [] = None"
| "first_failure run (rl # rls) = (case run rl of Inl e \<Rightarrow> Some e | Inr d \<Rightarrow> first_failure run rls)"

definition delta_of :: "branch_results \<Rightarrow> string \<Rightarrow> role_delta" where
  "delta_of run rl =
     (case run rl of
        Inr d \<Rightarrow> d
      | Inl e \<Rightarrow> \<lparr>rd_role = rl, rd_trace_events = [], rd_role_result = role_result0 rl\<rparr>)"

lemma collect_result:
  "fst (collect run rls ds g) =
     (case first_failure run rls of Some e \<Rightarrow> Inl e | None \<Rightarrow> Inr (ds @ map (delta_of run) rls))"
  by (induction rls arbitrary: ds g) (auto simp: delta_of_def split: sum.splits option.splits)

lemma run_role_own: "rd_role (delta_of (run_role executor b s) rl) = rl"
  by (auto simp: delta_of_def run_role_def and_then_def split: sum.splits)

lemma acquire_frees: "acquire rl t g = Inr g1 \<Longrightarrow> \<not> gr_released g1 \<and> gr_roles g1 = gr_roles g \<and>
    gr_token_budget g1 = gr_token_budget g \<and> gr_provider_calls g1 = gr_provider_calls g"
  by (auto simp: acquire_def split: if_splits)

text \<open>From an empty reservation any role of the group that fits the budget can be run.\<close>

definition empty_reservation :: "string list \<Rightarrow> int \<Rightarrow> group_reservation \<Rightarrow> bool" where
  "empty_reservation roles budget g \<longleftrightarrow>
     gr_roles g = roles \<and> gr_token_budget g = budget \<and> 1 \<le> gr_provider_calls g \<and> gr_used_tokens g = 0 \<and>
     gr_used_provider_calls g = 0 \<and> gr_role_tokens g = [] \<and> \<not> gr_released g"

lemma acquire_release:
  assumes "empty_reservation roles budget g" and "rl \<in> set roles" and "0 \<le> t" and "t \<le> budget"
  shows "\<exists>g1. acquire rl t g = Inr g1 \<and> empty_reservation roles budget (release_role rl g1)"
  using assms by (auto simp: acquire_def release_role_def empty_reservation_def)

lemma run_sequential_result:
  assumes "empty_reservation roles budget g" and "set rls \<subseteq> set roles"
    and "\<forall>rl \<in> set rls. 0 \<le> est rl \<and> est rl \<le> budget"
  shows "fst (run_sequential est run rls ds g) =
     (case first_failure run rls of Some e \<Rightarrow> Inl e | None \<Rightarrow> Inr (ds @ map (delta_of run) rls))"
  using assms
proof (induction rls arbitrary: ds g)
  case (Cons rl rls)
  obtain g1 where g1: "acquire rl (est rl) g = Inr g1" "empty_reservation roles budget (release_role rl g1)"
    using acquire_release [OF Cons.prems(1), of rl "est rl"] Cons.prems(2,3) by auto
  show ?case
    using Cons.IH [OF g1(2)] Cons.prems(2,3) g1(1) by (cases "run rl") (simp_all add: delta_of_def split: option.splits)
qed simp

lemma group_order_pair:
  "set roles = {''searcher'', ''memory_agent''} \<Longrightarrow> group_order roles = [''searcher'', ''memory_agent'']"
  by (simp add: group_order_def canonical_roles_def)

lemma perm_two:
  assumes "mset xs = mset [a, b]"
  shows "xs = [a, b] \<or> xs = [b, a]"
proof -
  have "length xs = 2" using mset_eq_length [OF assms] by simp
  then obtain x y where "xs = [x, y]" by (auto simp: length_Suc_conv numeral_2_eq_2)
  with assms show ?thesis by (auto simp: add_mset_eq_single add_eq_conv_ex)
qed

lemma sort_pair:
  assumes "finished = [''searcher'', ''memory_agent''] \<or> finished = [''memory_agent'', ''searcher'']"
    and "\<And>rl. rd_role (delta_of run rl) = rl"
  shows "sort_key (\<lambda>d. role_index (rd_role d)) (map (delta_of run) finished)
    = map (delta_of run) [''searcher'', ''memory_agent'']"
proof -
  have "role_index ''searcher'' = 0" "role_index ''memory_agent'' = 1"
    by (simp_all add: role_index_def canonical_roles_def)
  then show ?thesis using assms by auto
qed

text \<open>The state a group of both roles leaves when both branches succeed, written out.\<close>

definition merged_state :: "graph_state \<Rightarrow> role_delta \<Rightarrow> role_delta \<Rightarrow> graph_state" where
  "merged_state s d1 d2 =
     (let r1 = rd_role_result d1; r2 = rd_role_result d2
      in s\<lparr>st_trace_events := Some (opt_or (st_trace_events s) [] @ rd_trace_events d1 @ rd_trace_events d2),
           st_role_results := Some (filter (\<lambda>r. rr_role r \<noteq> ''searcher'' \<and> rr_role r \<noteq> ''memory_agent'')
                                      (opt_or (st_role_results s) []) @ [r1, r2]),
           st_citations := Some (dedup_by (\<lambda>c. (cit_chunk_id c, cit_source_type c, cit_source_id c)) {}
                                   (rr_citations r1 @ rr_citations r2)),
           st_action_items := Some (dedup_by id {} (rr_action_items r1 @ rr_action_items r2)),
           st_risk_flags := Some (dedup_by id {} (rr_risk_flags r1 @ rr_risk_flags r2)),
           st_searcher := Some r1, st_memory_agent := Some r2\<rparr>)"

definition group_outcome :: "graph_state \<Rightarrow> branch_results \<Rightarrow> string list \<Rightarrow> (group_error, graph_state) result" where
  "group_outcome s run order =
     (case first_failure run order of
        Some e \<Rightarrow> Inl e
      | None \<Rightarrow> Inr (merged_state s (delta_of run ''searcher'') (delta_of run ''memory_agent'')))"

lemma delta_for_pair:
  assumes "rd_role d1 = ''searcher''" and "rd_role d2 = ''memory_agent''"
  shows "delta_for [d1, d2] ''searcher'' = Some d1" and "delta_for [d1, d2] ''memory_agent'' = Some d2"
    and "ordered_deltas [d1, d2] = [d1, d2]"
  using assms by (simp_all add: delta_for_def ordered_deltas_def canonical_roles_def map_filter_simps)

lemma estimate_nonneg: "0 \<le> estimate_role_tokens s rl"
proof -
  have "0 \<le> sum_list (map (\<lambda>c. max 1 (int (length (ck_snippet c)) div 4)) (take 20 (rq_context_chunks (st_request s))))"
    by (rule sum_list_nonneg) auto
  then show ?thesis by (simp add: estimate_role_tokens_def Let_def)
qed

text \<open>Which branches a group runs, and in which order it looks at them.\<close>

definition fits_budget :: "(string \<Rightarrow> int) \<Rightarrow> int \<Rightarrow> bool" where
  "fits_budget est budget \<longleftrightarrow> est ''searcher'' + est ''memory_agent'' \<le> budget"

lemma group_result:
  assumes "set roles = {''searcher'', ''memory_agent''}" and "1 \<le> mp"
    and "mset finished = mset [''searcher'', ''memory_agent'']"
    and own: "\<And>rl. rd_role (delta_of pooled rl) = rl"
    and est: "\<And>rl. 0 \<le> est rl" "est ''searcher'' \<le> budget" "est ''memory_agent'' \<le> budget"
  shows "fst (execute_parallel_roles est pooled inline roles mp budget finished) =
     (let run = if fits_budget est budget then pooled else inline
      in case first_failure run (if fits_budget est budget then finished else [''searcher'', ''memory_agent'']) of
           Some e \<Rightarrow> Inl e
         | None \<Rightarrow> Inr [delta_of run ''searcher'', delta_of run ''memory_agent''])"
proof -
  let ?rs = "[''searcher'', ''memory_agent'']"
  let ?g0 = "reserve_group_budget ?rs budget"
  have order: "group_order roles = ?rs" by (rule group_order_pair [OF assms(1)])
  have sub: "set roles \<subseteq> {''searcher'', ''memory_agent''}" by (rule equalityD1 [OF assms(1)])
  have ne: "roles \<noteq> []" using assms(1) by (metis insert_not_empty list.set(1))
  note ok = sub ne assms(2)
  show ?thesis
  proof (cases "fits_budget est budget")
    case True
    have "fst (acquire_all est ?rs ?g0) = None"
      using True est(1) [of "''searcher''"] est(1) [of "''memory_agent''"] est(2,3)
      by (simp add: acquire_def reserve_group_budget_def fits_budget_def not_less)
    then obtain g where g: "acquire_all est ?rs ?g0 = (None, g)" by (cases "acquire_all est ?rs ?g0") auto
    have perm: "finished = ?rs \<or> finished = [''memory_agent'', ''searcher'']"
      using assms(3) perm_two by simp
    obtain r g' where c: "collect pooled finished [] g = (r, g')"
      by (cases "collect pooled finished [] g")
    have r: "r = (case first_failure pooled finished of Some e \<Rightarrow> Inl e | None \<Rightarrow> Inr (map (delta_of pooled) finished))"
      using collect_result [of pooled finished "[]" g] c by (simp split: option.split)
    show ?thesis
      using sort_pair [OF perm own] g c r True ok
      by (simp add: execute_parallel_roles_def Let_def order fits_budget_def del: acquire_all.simps split: option.split)
  next
    case False
    have "empty_reservation ?rs budget ?g0"
      by (simp add: empty_reservation_def reserve_group_budget_def)
    from run_sequential_result [OF this, of ?rs est inline "[]", unfolded append_Nil] est
    have "fst (run_sequential est inline ?rs [] ?g0) =
        (case first_failure inline ?rs of Some e \<Rightarrow> Inl e | None \<Rightarrow> Inr (map (delta_of inline) ?rs))"
      by (simp del: run_sequential.simps first_failure.simps)
    then show ?thesis
      using False ok
      by (simp add: execute_parallel_roles_def Let_def order split_beta fits_budget_def
          del: run_sequential.simps first_failure.simps split: option.split)
  qed
qed

lemma node_outcome:
  assumes "st_role_allocation s = Some a" and "{''searcher'', ''memory_agent''} \<subseteq> set (al_roles a)"
    and "mset finished = mset [''searcher'', ''memory_agent'']"
    and "estimate_role_tokens s ''searcher'' \<le> rt_parallel_role_token_budget cfg"
    and "estimate_role_tokens s ''memory_agent'' \<le> rt_parallel_role_token_budget cfg"
  defines "fits \<equiv> fits_budget (estimate_role_tokens s) (rt_parallel_role_token_budget cfg)"
  shows "parallel_roles_node cfg executor finished s =
     group_outcome s (run_role (executor fits) False s) (if fits then finished else [''searcher'', ''memory_agent''])"
proof -
  let ?run = "run_role (executor fits) False s"
  let ?order = "if fits then finished else [''searcher'', ''memory_agent'']"
  let ?d1 = "delta_of ?run ''searcher''" and ?d2 = "delta_of ?run ''memory_agent''"
  have roles: "set (filter (\<lambda>r. r \<in> {''searcher'', ''memory_agent''}) (al_roles a)) = {''searcher'', ''memory_agent''}"
    using assms(2) by (simp only: set_filter) blast
  have run: "(if fits then run_role (executor True) False s else run_role (executor False) False s) = ?run"
    by (cases fits) simp_all
  have res: "fst (execute_parallel_roles (estimate_role_tokens s) (run_role (executor True) False s)
      (run_role (executor False) False s) (filter (\<lambda>r. r \<in> {''searcher'', ''memory_agent''}) (al_roles a)) 2
      (rt_parallel_role_token_budget cfg) finished) =
      (case first_failure ?run ?order of Some e \<Rightarrow> Inl e | None \<Rightarrow> Inr [?d1, ?d2])"
    by (subst group_result [OF roles _ assms(3) run_role_own estimate_nonneg assms(4,5)])
      (simp_all add: fits_def [symmetric] Let_def run)
  have d: "rd_role ?d1 = ''searcher''" "rd_role ?d2 = ''memory_agent''" by (rule run_role_own)+
  have keep: "(\<lambda>r. rr_role r \<notin> rd_role ` set [?d1, ?d2]) =
      (\<lambda>r. rr_role r \<noteq> ''searcher'' \<and> rr_role r \<noteq> ''memory_agent'')"
    by (simp only: list.set image_insert image_empty d) blast
  show ?thesis
  proof (cases "first_failure ?run ?order")
    case (Some e)
    then show ?thesis
      by (simp only: parallel_roles_node_def assms(1) option.case Let_def res group_outcome_def)
        (simp add: and_then_def)
  next
    case None
    show ?thesis
      unfolding parallel_roles_node_def assms(1) option.case Let_def res group_outcome_def None and_then_def
        sum.case merge_role_deltas_def keep merged_state_def delta_for_pair [OF d]
      by simp
  qed
qed

lemma first_failure_pair:
  assumes "mset finished = mset [a, b]" and "mset finished' = mset [a, b]"
  shows "first_failure run finished = first_failure run finished' \<or>
    (\<exists>e e'. run a = Inl e \<and> run b = Inl e' \<and> e \<noteq> e')"
  using perm_two [OF assms(1)] perm_two [OF assms(2)] by (auto split: sum.splits)

text \<open>
  C16: what a parallel group of both roles leaves behind. As long as each role fits the token budget on its own, the
  group merges the searcher's delta and then the memory agent's into the parent state: traces and results appended
  in this order, the older results of the two roles dropped, citations, action items and flags deduplicated. It does
  so in whatever order the branches finish, and alike when the budget of both together makes it run them one after
  the other (then under the deadline of the request, which the pool threads lack). If a branch fails, nothing is
  merged and the first failure that is collected fails the node; so the order in which the branches finish matters
  only when both fail, and fail differently.
\<close>

theorem parallel_group_is_deterministic:
  assumes "st_role_allocation s = Some a" and "{''searcher'', ''memory_agent''} \<subseteq> set (al_roles a)"
    and "mset finished = mset [''searcher'', ''memory_agent'']"
    and "mset finished' = mset [''searcher'', ''memory_agent'']"
    and "estimate_role_tokens s ''searcher'' \<le> rt_parallel_role_token_budget cfg"
    and "estimate_role_tokens s ''memory_agent'' \<le> rt_parallel_role_token_budget cfg"
  shows "let fits = fits_budget (estimate_role_tokens s) (rt_parallel_role_token_budget cfg);
      run = run_role (executor fits) False s
    in parallel_roles_node cfg executor finished s =
         group_outcome s run (if fits then finished else [''searcher'', ''memory_agent'']) \<and>
       (parallel_roles_node cfg executor finished s = parallel_roles_node cfg executor finished' s \<or>
        (\<exists>e e'. run ''searcher'' = Inl e \<and> run ''memory_agent'' = Inl e' \<and> e \<noteq> e'))"
proof -
  let ?fits = "fits_budget (estimate_role_tokens s) (rt_parallel_role_token_budget cfg)"
  note o1 = node_outcome [OF assms(1-3,5,6), where executor = executor]
  note o2 = node_outcome [OF assms(1,2,4-6), where executor = executor]
  show ?thesis
    unfolding Let_def o1 o2
    using first_failure_pair [OF assms(3,4), of "run_role (executor ?fits) False s"]
    by (auto simp: group_outcome_def)
qed

definition sample_state :: graph_state where
  "sample_state = (graph_state0 (workflow_request0 7 3 1 9 [72, 105]))
     \<lparr>st_role_allocation := Some (role_allocation0\<lparr>al_roles := [''searcher'', ''memory_agent'']\<rparr>)\<rparr>"

definition sample_executor :: "bool \<Rightarrow> string \<Rightarrow> graph_state \<Rightarrow> (node_error, graph_state) result" where
  "sample_executor in_pool rl s = Inr (add_result (role_result0 rl) s)"

theorem parallel_group_is_deterministic_witness:
  "let run = run_role (sample_executor True) False sample_state;
       merged = Inr (merged_state sample_state (delta_of run ''searcher'') (delta_of run ''memory_agent''))
   in parallel_roles_node default_config sample_executor [''memory_agent'', ''searcher''] sample_state = merged \<and>
      parallel_roles_node default_config sample_executor [''searcher'', ''memory_agent''] sample_state = merged"
proof -
  have a: "st_role_allocation sample_state = Some (role_allocation0\<lparr>al_roles := [''searcher'', ''memory_agent'']\<rparr>)"
    by (simp add: sample_state_def)
  have swap: "mset [''memory_agent'', ''searcher''] = mset [''searcher'', ''memory_agent'']"
    by (simp only: mset.simps) (rule add_mset_commute)
  have est: "estimate_role_tokens sample_state rl \<le> 97" for rl
    by (simp add: estimate_role_tokens_def sample_state_def graph_state0_def workflow_request0_def Let_def)
  have budget: "rt_parallel_role_token_budget default_config = 8000" by (simp add: default_config_def)
  have ok: "estimate_role_tokens sample_state rl \<le> rt_parallel_role_token_budget default_config" for rl
    using est [of rl] budget by simp
  have fits: "fits_budget (estimate_role_tokens sample_state) (rt_parallel_role_token_budget default_config)"
    using est [of "''searcher''"] est [of "''memory_agent''"] budget by (simp add: fits_budget_def)
  have runs: "first_failure (run_role (sample_executor True) False sample_state) rls = None" for rls
    by (induction rls) (simp_all add: run_role_def sample_executor_def extract_role_result_def add_result_def
      branch_snapshot_def graph_state0_def role_result0_def and_then_def)
  have roles: "{''searcher'', ''memory_agent''} \<subseteq> set (al_roles (role_allocation0\<lparr>al_roles := [''searcher'', ''memory_agent'']\<rparr>))"
    by simp
  note det = parallel_group_is_deterministic [OF a roles swap HOL.refl ok ok, where executor = sample_executor]
  note det' = parallel_group_is_deterministic [OF a roles HOL.refl HOL.refl ok ok, where executor = sample_executor]
  show ?thesis
    using det det' fits runs by (simp add: group_outcome_def Let_def del: first_failure.simps)
qed

text \<open>
  A token budget that one role alone exceeds does not force sequential execution, as the
  function's comment says, but fails the run: the sequential fallback reserves from the same budget.
\<close>

theorem role_over_budget_fails_the_group:
  assumes "budget < est ''searcher''" and "0 \<le> est ''searcher''" and "0 \<le> est ''memory_agent''"
  shows "fst (execute_parallel_roles est pooled inline [''searcher'', ''memory_agent''] 2 budget finished)
    = Inl (TokenBudgetExceeded ''searcher'')"
proof -
  have "group_order [''searcher'', ''memory_agent''] = [''searcher'', ''memory_agent'']"
    by (rule group_order_pair) auto
  then show ?thesis
    using assms
    by (simp add: execute_parallel_roles_def Let_def acquire_def reserve_group_budget_def)
qed

end
