(* ===== verification/EvidenceNodes.thy ===== *)
theory EvidenceNodes
  imports RetrievalNodes
begin

text \<open>
  The nodes after the retrieval loop, in \<open>nodes/retrieval.py\<close> of
  \<open>services/agent-runtime/allcallall_agent_runtime/\<close>: collecting and reranking the context, the
  evidence pack, the sufficiency gate, the merge of the role results and the critic; the grounding
  check of \<open>grounding.py\<close>; and the tool proposals and the approval gate of \<open>nodes/approval.py\<close>.
\<close>

section \<open>Context and evidence\<close>

definition retrieve_context :: "graph_state \<Rightarrow> graph_state" where
  "retrieve_context s =
     (let preloaded = rq_context_chunks (st_request s);
          agentic = opt_or (st_agentic_context_chunks s) [];
          combined = preloaded @ dedup_by chunk_key (chunk_key ` set preloaded) agentic
      in (add_trace
            [node_started ''retrieve_context'',
             (trace_event0 ''retrieval.context_collected'' ''retrieve_context'')
               \<lparr>ev_metadata := [(''preloaded'', jlen preloaded), (''agentic'', jlen agentic),
                               (''combined'', jlen combined)]\<rparr>,
             node_completed ''retrieve_context''] s)
           \<lparr>st_retrieved_context_chunks := Some combined\<rparr>)"

definition rerank_context ::
  "(string \<Rightarrow> string) \<Rightarrow> retrieval_cache option \<Rightarrow> graph_state \<Rightarrow> graph_state" where
  "rerank_context sha cache s =
     (let goal = rq_goal (st_request s);
          cs = opt_or (st_retrieved_context_chunks s) [];
          warm = (case cache of None \<Rightarrow> False | Some c \<Rightarrow> entries c \<noteq> [])
      in if warm \<and> cs \<noteq> [] then
           (let p = prepare_candidates sha goal cs None;
                out = rerank_prepared p 8
            in (add_trace
                  [ro_trace out,
                   (trace_event0 ''retrieval.rerank_prepared'' ''rerank_context'')
                     \<lparr>ev_metadata := [(''prepared_fingerprint'', jstr (pc_fingerprint p)),
                                     (''candidate_count'', jlen (pc_chunks p))]\<rparr>,
                   node_completed ''rerank_context''] s)
                 \<lparr>st_reranked_context_chunks := Some (ro_chunks out)\<rparr>)
         else
           (let out = rerank_context_chunks goal cs 8
            in (add_trace [ro_trace out, node_completed ''rerank_context''] s)
                 \<lparr>st_reranked_context_chunks := Some (ro_chunks out)\<rparr>))"

definition make_evidence_pack :: "workflow_request \<Rightarrow> retrieval_plan \<Rightarrow> context_chunk list \<Rightarrow> evidence_pack" where
  "make_evidence_pack rq plan cs =
     (let route = rp_intent_route plan;
          source_types = sort (remdups (map ck_source_type cs));
          required = ir_required_source_types route;
          coverage = of_nat (length (filter (\<lambda>t. t \<in> set required) source_types))
                       / of_nat (max (length required) 1)
      in \<lparr>ep_selected_chunk_ids = dedup_by id {} (map chunk_key cs), ep_rejected_count = 0,
          ep_confidence = estimate_retrieval_confidence rq cs, ep_source_types = source_types,
          ep_snippets = map (take 200) (filter (\<lambda>t. t \<noteq> []) (map ck_snippet (take 5 cs))),
          ep_citations = citations_from_chunks cs, ep_route_intent = ir_intent route,
          ep_coverage = min coverage 1, ep_graph_edges = gx_edges (rp_graph_expansion plan)\<rparr>)"

definition build_evidence_pack :: "graph_state \<Rightarrow> graph_state" where
  "build_evidence_pack s =
     (let cs = opt_or (st_reranked_context_chunks s) [];
          plan = opt_or (st_retrieval_plan s) retrieval_plan0
      in (add_trace [node_started ''evidence_pack'', node_completed ''evidence_pack''] s)
           \<lparr>st_evidence_pack := Some (make_evidence_pack (st_request s) plan cs)\<rparr>)"

definition sufficiency_gate :: "graph_state \<Rightarrow> graph_state" where
  "sufficiency_gate s =
     (let r = evaluate_context_sufficiency (st_request s) (opt_or (st_evidence_pack s) evidence_pack0)
      in (add_trace
            [node_started ''sufficiency_gate'',
             (trace_event0 ''context.sufficiency'' ''sufficiency_gate'')
               \<lparr>ev_status := (if cs_sufficient r then ''completed'' else ''insufficient''),
                ev_observation := cs_reason r,
                ev_metadata := [(''sufficient'', JBool (cs_sufficient r)), (''confidence'', JNum (cs_confidence r)),
                               (''missing_info'', jstrs (cs_missing_info r))]\<rparr>,
             node_completed ''sufficiency_gate''] s)
           \<lparr>st_context_sufficiency := Some r\<rparr>)"

section \<open>Merging the role results\<close>

definition merged_summary :: "role_result list \<Rightarrow> ustring" where
  "merged_summary rs =
     first_non_empty (map rr_summary (filter (\<lambda>r. rr_role r = ''summarizer'') rs) @ map rr_summary rs)"

definition merge :: "graph_state \<Rightarrow> graph_state" where
  "merge s =
     (let rs = opt_or (st_role_results s) [];
          summary0 = merged_summary rs;
          items0 = unique_strings (concat (map rr_action_items rs));
          flags = unique_strings (concat (map rr_risk_flags rs));
          cits = dedupe_citations (concat (map rr_citations rs));
          summary = (if summary0 = []
            then (codes ''Python LangGraph meeting brief completed using the supplied meeting transcript context.'')
            else summary0);
          items = (if items0 = [] then synthesize_action_items (st_request s) else items0)
      in (add_trace
            [node_started ''merge'',
             (node_completed ''merge'')
               \<lparr>ev_metadata := [(''citations'', jlen cits), (''risk_flags'', jlen flags)]\<rparr>] s)
           \<lparr>st_summary := Some summary, st_action_items := Some items,
            st_next_step := Some (codes ''Approve or reject the proposed write-back after checking citations.''),
            st_risk_flags := Some flags, st_citations := Some cits\<rparr>)"

section \<open>Grounding\<close>

definition split_claims :: "ustring \<Rightarrow> ustring list" where
  "split_claims t =
     filter (\<lambda>c. c \<noteq> []) (map strip (split_runs (\<lambda>c. c \<in> {12290, 46, 33, 63, 10}) t))"

definition stop_words :: "ustring list" where
  "stop_words = [(codes ''meeting''), (codes ''brief''), (codes ''risk''), (codes ''review''), (codes ''context''), (codes ''based''), (codes ''using''), [24403, 21069], [20250, 35758], [22797, 30424]]"

definition meaningful_tokens :: "ustring \<Rightarrow> ustring list" where
  "meaningful_tokens t =
     filter (\<lambda>w. 2 \<le> length w \<and> w \<notin> set stop_words)
       (map strip (split_runs (\<lambda>c. \<not> is_token_char c) (to_lower t)))"

definition unsupported_claims :: "ustring \<Rightarrow> citation list \<Rightarrow> ustring list" where
  "unsupported_claims summary cits =
     (let citation_text = to_lower (join (codes '' '') (map cit_snippet cits))
      in filter (\<lambda>claim.
           let tokens = meaningful_tokens claim
           in 2 \<le> length tokens \<and> filter (\<lambda>w. substring_in w citation_text) tokens = [])
         (split_claims summary))"

record grounding_result =
  gr_grounded :: bool
  gr_unsupported :: "ustring list"
  gr_trace :: trace_event

definition check_grounding :: "bool \<Rightarrow> ustring \<Rightarrow> citation list \<Rightarrow> grounding_result" where
  "check_grounding enabled summary cits =
     (if \<not> enabled then
        \<lparr>gr_grounded = True, gr_unsupported = [],
         gr_trace = (trace_event0 ''grounding.check'' ''grounding_check'')
           \<lparr>ev_status := ''skipped'', ev_metadata := [(''enabled'', JBool False)]\<rparr>\<rparr>
      else
        (let unsupported = unsupported_claims summary cits;
             grounded = (unsupported = [] \<or> cits \<noteq> [])
         in \<lparr>gr_grounded = grounded, gr_unsupported = take 5 unsupported,
             gr_trace = (trace_event0 ''grounding.check'' ''grounding_check'')
               \<lparr>ev_status := (if grounded then ''completed'' else ''failed''),
                ev_metadata := [(''enabled'', JBool True), (''grounded'', JBool grounded),
                  (''citation_count'', jlen cits), (''unsupported_claims'', jtexts (take 5 unsupported))]\<rparr>\<rparr>))"

definition grounding_check :: "bool \<Rightarrow> graph_state \<Rightarrow> graph_state" where
  "grounding_check enabled s =
     (let r = check_grounding enabled (opt_or (st_summary s) []) (opt_or (st_citations s) [])
      in (add_trace [node_started ''grounding_check'', gr_trace r, node_completed ''grounding_check''] s)
           \<lparr>st_grounding := Some \<lparr>gs_grounded = gr_grounded r, gs_unsupported_claims = gr_unsupported r\<rparr>\<rparr>)"

section \<open>The critic\<close>

definition grounding_passed :: "graph_state \<Rightarrow> bool" where
  "grounding_passed s = (case st_grounding s of None \<Rightarrow> True | Some g \<Rightarrow> gs_grounded g)"

definition critic_of :: "graph_state \<Rightarrow> critic_result" where
  "critic_of s =
     (let sufficiency = opt_or (st_context_sufficiency s) context_sufficiency0;
          pack = opt_or (st_evidence_pack s) evidence_pack0;
          plan = opt_or (st_retrieval_plan s) retrieval_plan0;
          attempts = int (length (opt_or (st_retrieval_attempts s) []));
          proposals = opt_or (st_proposed_tool_calls s) [];
          ok = grounding_passed s;
          write_safe = list_all tp_approval_required proposals;
          issues =
            (if \<not> cs_sufficient sufficiency then [''insufficient_context_guarded''] else []) @
            (if \<not> ok then [''grounding_failed''] else []) @
            (if rp_max_steps plan < attempts then [''retrieval_budget_exceeded''] else []) @
            (if \<not> write_safe then [''unsafe_write_proposal''] else []) @
            (if cs_sufficient sufficiency \<and> ep_citations pack \<noteq> [] \<and> ep_coverage pack \<le> 0
             then [''citation_coverage_missing''] else [])
      in \<lparr>cr_passed = (ok \<and> write_safe \<and> attempts \<le> rp_max_steps plan), cr_issues = issues,
          cr_citation_coverage = ep_coverage pack, cr_budget_respected = (attempts \<le> rp_max_steps plan),
          cr_write_proposal_safe = write_safe, cr_grounding_passed = ok,
          cr_context_sufficient = cs_sufficient sufficiency\<rparr>)"

definition join_issues :: "string list \<Rightarrow> ustring" where
  "join_issues is = join (codes ''; '') (map codes is)"

definition critic_check :: "graph_state \<Rightarrow> graph_state" where
  "critic_check s =
     (let r = critic_of s
      in (add_trace
            [node_started ''critic_check'',
             (trace_event0 ''critic.check'' ''critic_check'')
               \<lparr>ev_status := (if cr_passed r then ''completed'' else ''guarded''),
                ev_observation :=
                  (if cr_issues r \<noteq> [] then join_issues (cr_issues r) else (codes ''critic checks passed'')),
                ev_metadata :=
                  [(''passed'', JBool (cr_passed r)), (''issues'', jstrs (cr_issues r)),
                   (''citation_coverage'', JNum (cr_citation_coverage r)),
                   (''budget_respected'', JBool (cr_budget_respected r)),
                   (''write_proposal_safe'', JBool (cr_write_proposal_safe r)),
                   (''grounding_passed'', JBool (cr_grounding_passed r)),
                   (''context_sufficient'', JBool (cr_context_sufficient r))]\<rparr>,
             node_completed ''critic_check''] s)
           \<lparr>st_critic_result := Some r\<rparr>)"

end
