(* ===== verification/Review.thy ===== *)
theory Review
  imports SynthesisNodes EvidenceNodes
begin

text \<open>
  The write boundary of the graph: the tool proposals and the approval gate
  (\<open>services/agent-runtime/allcallall_agent_runtime/nodes/approval.py\<close>) and the two-tier check
  agents (\<open>nodes/check.py\<close>) with the decision they accumulate.
\<close>

section \<open>Tool proposals\<close>

text \<open>\<open>model_dump(exclude_none=True)\<close> of a citation.\<close>

definition opt_field :: "string \<Rightarrow> int option \<Rightarrow> json_object" where
  "opt_field k v = (case v of None \<Rightarrow> [] | Some i \<Rightarrow> [(k, JInt i)])"

definition citation_json :: "citation \<Rightarrow> json" where
  "citation_json c = JObj
     ([(''chunk_id'', jstr (cit_chunk_id c)), (''source_type'', jstr (cit_source_type c)),
       (''source_id'', jstr (cit_source_id c)), (''source_title'', JStr (cit_source_title c)),
       (''title'', JStr (cit_title c)), (''snippet'', JStr (cit_snippet c)), (''score'', JInt (cit_score c)),
       (''retrieval_mode'', jstr (cit_retrieval_mode c)), (''rerank_score'', JNum (cit_rerank_score c)),
       (''rerank_reason'', JStr (cit_rerank_reason c)), (''final_rank'', JInt (cit_final_rank c))] @
      opt_field ''recording_session_id'' (cit_recording_session_id c) @
      opt_field ''recording_file_id'' (cit_recording_file_id c) @
      opt_field ''transcript_segment_id'' (cit_transcript_segment_id c) @
      opt_field ''start_ms'' (cit_start_ms c) @ opt_field ''end_ms'' (cit_end_ms c))"

definition write_back_reason :: "workflow_request \<Rightarrow> ustring" where
  "write_back_reason rq =
     (codes ''Write the grounded '') @ codes (rq_preset rq) @
     (codes '' result back to the conversation after human approval.'')"

definition workflow_tool_proposals ::
  "workflow_request \<Rightarrow> json_object \<Rightarrow> ustring \<Rightarrow> json_object \<Rightarrow> memory_reflection \<Rightarrow> tool_proposal list" where
  "workflow_tool_proposals rq base next_step message_arguments reflection =
     (if rq_preset rq = ''context_qa'' then []
      else
        (let subject = runtime_subject_id rq;
             prio = (if rq_preset rq = ''risk_review'' then ''high'' else ''normal'');
             limit_key = ''org:'' @ show_id (rq_organization_id rq) @ '':conversation:'' @
                           show_id (rq_conversation_id rq);
             write = (tool_proposal0 ''write_conversation_message'')
               \<lparr>tp_arguments := message_arguments, tp_reason := write_back_reason rq,
                tp_idempotency_key := subject @ '':write_conversation_message:'' @ rq_preset rq,
                tp_priority := prio, tp_rate_limit_key := limit_key\<rparr>;
             follow_up = (tool_proposal0 ''create_follow_up_task'')
               \<lparr>tp_arguments :=
                  [(''conversation_id'', JInt (rq_conversation_id rq)), (''task_type'', jstr ''send_message''),
                   (''next_step'', JStr (if next_step \<noteq> [] then next_step
                                         else (codes ''Follow up on the meeting commitments.'')))],
                tp_reason := (codes ''Create a concrete follow-up task only after human approval.''),
                tp_idempotency_key := subject @ '':create_follow_up_task'',
                tp_queue_name := ''agent_followups'', tp_rate_limit_key := limit_key\<rparr>;
             memory_key = (if rq_preset rq = ''follow_up_planner'' then ''follow_up_commitments''
                           else if rq_preset rq = ''risk_review'' then ''open_risk_register''
                           else ''latest_meeting_brief'');
             memory = (tool_proposal0 ''upsert_agent_memory'')
               \<lparr>tp_arguments := base @ [(''key'', jstr memory_key), (''reflection'', JObj (reflection_json reflection))],
                tp_reason := (codes ''Persist '') @ codes (rq_preset rq) @ (codes '' output as scoped Agent memory after approval.''),
                tp_idempotency_key := subject @ '':upsert_conversation_memory:'' @ memory_key,
                tp_queue_name := ''agent_memory'', tp_priority := prio, tp_rate_limit_key := limit_key\<rparr>
         in [write] @ (if rq_preset rq = ''follow_up_planner'' then [follow_up] else []) @
            (if mr_memory_write_recommended reflection then [memory] else [])))"

definition proposal_base :: "graph_state \<Rightarrow> json_object" where
  "proposal_base s =
     [(''conversation_id'', JInt (rq_conversation_id (st_request s))),
      (''summary'', JStr (opt_or (st_summary s) [])), (''action_items'', jtexts (opt_or (st_action_items s) [])),
      (''next_step'', JStr (opt_or (st_next_step s) [])), (''risk_flags'', jtexts (opt_or (st_risk_flags s) [])),
      (''risk_assessment'', assessment_json (opt_or (st_risk_assessment s) risk_assessment0))]"

definition propose_tools :: "deadline_ctx \<Rightarrow> seconds \<Rightarrow> graph_state \<Rightarrow> (node_error, graph_state) result" where
  "propose_tools ctx now s =
     and_then (node_check ctx now) (\<lambda>_.
       let base = proposal_base s;
           reflection = opt_or (st_memory_reflection s) memory_reflection0;
           message_arguments = base @
             [(''citations'', JList (map citation_json (opt_or (st_citations s) []))),
              (''memory_reflection'', JObj (reflection_json reflection))];
           sufficiency = opt_or (st_context_sufficiency s) context_sufficiency0;
           proposals = (if \<not> cs_sufficient sufficiency then []
                        else workflow_tool_proposals (st_request s) base (opt_or (st_next_step s) [])
                               message_arguments reflection)
       in Inr ((add_trace
            ([node_started ''propose_tools''] @
             (if \<not> cs_sufficient sufficiency then
                [(trace_event0 ''tool.proposal.skipped'' ''propose_tools'')
                   \<lparr>ev_status := ''skipped'',
                    ev_observation := (codes ''context is insufficient; write-tool proposals are suppressed''),
                    ev_metadata := [(''reason'', JStr (cs_reason sufficiency)),
                                    (''missing_info'', jstrs (cs_missing_info sufficiency))]\<rparr>] else []) @
             map (\<lambda>p. (trace_event0 ''tool.proposed'' ''propose_tools'')
                   \<lparr>ev_tool_name := tp_tool_name p,
                    ev_metadata := [(''reason'', JStr (tp_reason p)),
                                    (''approval_required'', JBool (tp_approval_required p))]\<rparr>) proposals @
             [(node_completed ''propose_tools'')\<lparr>ev_metadata := [(''proposed_tool_calls'', jlen proposals)]\<rparr>]) s)
            \<lparr>st_proposed_tool_calls := Some proposals\<rparr>))"

definition approval_gate :: "deadline_ctx \<Rightarrow> seconds \<Rightarrow> graph_state \<Rightarrow> (node_error, graph_state) result" where
  "approval_gate ctx now s =
     and_then (node_check ctx now) (\<lambda>_. Inr (add_trace
       [node_started ''approval_gate'',
        (trace_event0 ''approval.wait'' ''approval_gate'')
          \<lparr>ev_status := ''requires_action'',
           ev_metadata := [(''pending_tools'', jstrs (map tp_tool_name (opt_or (st_proposed_tool_calls s) [])))]\<rparr>] s))"

definition finalize :: "deadline_ctx \<Rightarrow> seconds \<Rightarrow> graph_state \<Rightarrow> (node_error, graph_state) result" where
  "finalize ctx now s =
     and_then (node_check ctx now) (\<lambda>_.
       Inr (add_trace [node_started ''finalize'', node_completed ''finalize''] s))"

section \<open>The check agents\<close>

definition mk_outcome :: "string \<Rightarrow> check_decision \<Rightarrow> ustring \<Rightarrow> rat \<Rightarrow> check_outcome" where
  "mk_outcome agent d why score =
     \<lparr>co_agent = agent, co_decision = d, co_rationale = why, co_score = score\<rparr>"

definition record_outcome :: "check_outcome \<Rightarrow> graph_state \<Rightarrow> graph_state" where
  "record_outcome oc s =
     add_trace
       [(trace_event0 ''check.decision'' (co_agent oc))
          \<lparr>ev_status := decision_value (co_decision oc),
           ev_metadata :=
             [(''agent'', jstr (co_agent oc)), (''decision'', jstr (decision_value (co_decision oc))),
              (''rationale'', JStr (co_rationale oc)), (''score'', JNum (co_score oc))]\<rparr>] s"

definition outcome_payload :: "check_outcome \<Rightarrow> graph_state \<Rightarrow> graph_state" where
  "outcome_payload oc s =
     s\<lparr>st_check_log := Some [oc], st_last_check_decision := Some (decision_value (co_decision oc))\<rparr>"

definition accumulate_quality :: "check_outcome \<Rightarrow> output_decision option \<Rightarrow> output_decision" where
  "accumulate_quality oc prev =
     (let od0 = opt_or prev output_decision0;
          od = od0\<lparr>od_l1_decision := decision_value (co_decision oc),
                   od_quality_trend := od_quality_trend od0 @ [decision_value (co_decision oc)],
                   od_confidence_trajectory := od_confidence_trajectory od0 @ [co_score oc],
                   od_check_log := od_check_log od0 @ [oc]\<rparr>
      in case co_decision oc of
           Revise \<Rightarrow> od\<lparr>od_revision_count := od_revision_count od + 1,
                       od_total_review_cycles := od_total_review_cycles od + 1\<rparr>
         | Escalate \<Rightarrow> od\<lparr>od_final_verdict := ''escalate'', od_rationale := co_rationale oc\<rparr>
         | Pass \<Rightarrow> od\<lparr>od_final_verdict := ''accept'', od_rationale := co_rationale oc\<rparr>)"

definition quality_outcome :: "int \<Rightarrow> graph_state \<Rightarrow> check_outcome \<times> bool" where
  "quality_outcome max_retries s =
     (let retries = opt_or (st_critic_retries s) 0;
          qc = mk_outcome ''quality_check''
      in if max 0 max_retries \<le> retries then
           (qc Pass (codes ''retry budget exhausted; accepting current draft'') (5 / 10), False)
         else
           (case st_critic_result s of
              None \<Rightarrow> (qc Pass (codes ''no critic result available; accepting draft'') (5 / 10), False)
            | Some critic \<Rightarrow>
                (if \<not> cr_passed critic then
                   (if ''insufficient_context_guarded'' \<in> set (cr_issues critic) \<or> \<not> cr_context_sufficient critic
                    then (qc Revise (codes ''context insufficient; re-synthesize with broader retrieval'') (3 / 10), True)
                    else if ''grounding_failed'' \<in> set (cr_issues critic)
                    then (qc Escalate (codes ''grounding check failed; escalate to human review'') 0, True)
                    else (qc Revise (codes ''critic flagged quality issues; re-synthesize'') (3 / 10), True))
                 else (qc Pass (codes ''draft quality acceptable'') (cr_citation_coverage critic), True))))"

text \<open>The flag says whether the branch folds the outcome into \<open>output_decision\<close>.\<close>

definition quality_check ::
  "deadline_ctx \<Rightarrow> seconds \<Rightarrow> int \<Rightarrow> graph_state \<Rightarrow> (node_error, graph_state) result" where
  "quality_check ctx now max_retries s =
     and_then (node_check ctx now) (\<lambda>_.
       let (oc, accumulate) = quality_outcome max_retries s;
           s1 = outcome_payload oc (record_outcome oc s);
           s2 = (if accumulate
                 then s1\<lparr>st_output_decision := Some (accumulate_quality oc (st_output_decision s))\<rparr> else s1)
       in Inr (if co_decision oc = Revise
               then s2\<lparr>st_critic_retries := Some (opt_or (st_critic_retries s) 0 + 1)\<rparr> else s2))"

definition accumulate_safety :: "check_outcome \<Rightarrow> output_decision option \<Rightarrow> output_decision" where
  "accumulate_safety oc prev =
     (let od0 = opt_or prev output_decision0;
          od = od0\<lparr>od_l2_decision := decision_value (co_decision oc), od_check_log := od_check_log od0 @ [oc]\<rparr>
      in case co_decision oc of
           Escalate \<Rightarrow> od\<lparr>od_final_verdict := ''escalate'', od_rationale := co_rationale oc\<rparr>
         | Pass \<Rightarrow> (if od_final_verdict od = ''accept''
                    then od\<lparr>od_rationale := (if od_rationale od \<noteq> [] then od_rationale od else co_rationale oc)\<rparr>
                    else od)
         | Revise \<Rightarrow> od)"

definition safety_outcome :: "graph_state \<Rightarrow> check_outcome" where
  "safety_outcome s =
     (let flags = opt_or (st_risk_flags s) []
      in if list_ex (\<lambda>p. \<not> tp_approval_required p) (opt_or (st_proposed_tool_calls s) []) then
           mk_outcome ''safety_check'' Escalate
             (codes ''unsafe write proposal detected (not approval-gated); escalate'') 0
         else if flags \<noteq> [] then
           mk_outcome ''safety_check'' Escalate
             ((codes ''policy risk flags raised ('') @ show_int (int (length flags)) @ (codes ''); escalate to human'')) (2 / 10)
         else mk_outcome ''safety_check'' Pass (codes ''no unsafe writes or risk flags'') 1)"

definition safety_check :: "deadline_ctx \<Rightarrow> seconds \<Rightarrow> graph_state \<Rightarrow> (node_error, graph_state) result" where
  "safety_check ctx now s =
     and_then (node_check ctx now) (\<lambda>_.
       let oc = safety_outcome s
       in Inr ((outcome_payload oc (record_outcome oc s))
            \<lparr>st_output_decision := Some (accumulate_safety oc (st_output_decision s))\<rparr>))"

definition route_quality :: "graph_state \<Rightarrow> string" where
  "route_quality s =
     (if st_last_check_decision s = Some (decision_value Revise) then ''revise'' else ''safety'')"

section \<open>What the draft review decides\<close>

definition draft_decision :: "int \<Rightarrow> graph_state \<Rightarrow> check_decision" where
  "draft_decision max_retries s = co_decision (fst (quality_outcome max_retries (critic_check s)))"

definition attempts_in_budget :: "graph_state \<Rightarrow> bool" where
  "attempts_in_budget s \<longleftrightarrow>
     int (length (opt_or (st_retrieval_attempts s) []))
       \<le> rp_max_steps (opt_or (st_retrieval_plan s) retrieval_plan0)"

lemma critic_check_frame [simp]:
  "st_critic_retries (critic_check s) = st_critic_retries s"
  "st_critic_result (critic_check s) = Some (critic_of s)"
  by (simp_all add: critic_check_def Let_def)

lemma critic_of_simps:
  "cr_passed (critic_of s) \<longleftrightarrow> grounding_passed s \<and>
     list_all tp_approval_required (opt_or (st_proposed_tool_calls s) []) \<and> attempts_in_budget s"
  "cr_context_sufficient (critic_of s) \<longleftrightarrow> cs_sufficient (opt_or (st_context_sufficiency s) context_sufficiency0)"
  "''grounding_failed'' \<in> set (cr_issues (critic_of s)) \<longleftrightarrow> \<not> grounding_passed s"
  "''insufficient_context_guarded'' \<in> set (cr_issues (critic_of s)) \<longleftrightarrow>
     \<not> cs_sufficient (opt_or (st_context_sufficiency s) context_sufficiency0)"
  by (simp_all add: critic_of_def attempts_in_budget_def Let_def)

text \<open>
  The decision of the draft review (the critic followed by the first check agent) in terms of the draft. The
  critic passes a draft exactly when it is grounded, its writes are gated and the retrieval stayed within
  its steps; an insufficient context alone does not fail it, so the branch that asks for broader retrieval is
  only reached together with another failure. Once the retries are used up every draft passes. The table of
  \<open>docs/architecture/check-agents.md\<close> says otherwise on both: \<open>REVISE\<close> and \<open>ESCALATE\<close>.
\<close>

lemma draft_review_decision:
  "draft_decision m s =
     (if max 0 m \<le> opt_or (st_critic_retries s) 0 then Pass
      else if grounding_passed s \<and> list_all tp_approval_required (opt_or (st_proposed_tool_calls s) []) \<and>
              attempts_in_budget s then Pass
      else if \<not> cs_sufficient (opt_or (st_context_sufficiency s) context_sufficiency0) then Revise
      else if \<not> grounding_passed s then Escalate
      else Revise)"
  by (simp add: draft_decision_def quality_outcome_def mk_outcome_def critic_of_simps Let_def)

lemma exhausted_outcome:
  "max 0 m \<le> opt_or (st_critic_retries s) 0 \<Longrightarrow> quality_outcome m s =
     (mk_outcome ''quality_check'' Pass (codes ''retry budget exhausted; accepting current draft'') (5 / 10), False)"
  unfolding quality_outcome_def Let_def by (rule if_P)

text \<open>
  With the retry budget used up the check agent passes the draft whatever the critic found, a failed
  grounding check included, moves on to the safety gate, and leaves the accumulated \<open>output_decision\<close> as it
  was, so neither the verdict nor the number of cycles tells the caller.
\<close>

theorem exhausted_budget_passes_any_draft:
  "case quality_check ctx now m
          (s\<lparr>st_critic_retries := Some (max 0 m + int k), st_critic_result := Some critic\<rparr>) of
     Inl e \<Rightarrow> node_check ctx now = Inl e
   | Inr s' \<Rightarrow> st_last_check_decision s' = Some ''pass'' \<and> route_quality s' = ''safety'' \<and>
       st_output_decision s' = st_output_decision s \<and> st_critic_result s' = Some critic"
proof -
  let ?s = "s\<lparr>st_critic_retries := Some (max 0 m + int k), st_critic_result := Some critic\<rparr>"
  have out: "quality_outcome m ?s =
      (mk_outcome ''quality_check'' Pass (codes ''retry budget exhausted; accepting current draft'') (5 / 10), False)"
    by (rule exhausted_outcome) simp
  show ?thesis
    by (cases "node_check ctx now")
      (simp_all add: quality_check_def out mk_outcome_def outcome_payload_def record_outcome_def
        route_quality_def and_then_def Let_def)
qed

section \<open>Revisions\<close>

lemma merged_summary_keeps:
  assumes "list_ex (\<lambda>r. rr_role r = ''summarizer'' \<and> strip (rr_summary r) \<noteq> []) rs"
  shows "merged_summary (rs @ new) = merged_summary rs"
proof -
  let ?sums = "\<lambda>qs. map rr_summary (filter (\<lambda>r. rr_role r = ''summarizer'') qs)"
  have ne: "strip (first_non_empty (?sums rs)) \<noteq> []"
    using assms by (induction rs) (auto simp: first_non_empty_cons)
  have "merged_summary (rs @ new) = first_non_empty (?sums rs @ (?sums new @ map rr_summary (rs @ new)))"
    by (simp add: merged_summary_def)
  also have "\<dots> = first_non_empty (?sums rs @ map rr_summary rs)"
    unfolding first_non_empty_append [OF ne] ..
  finally show ?thesis by (simp add: merged_summary_def)
qed

lemma merge_summary: "st_summary (merge s) =
    Some (let m = merged_summary (opt_or (st_role_results s) []) in
      if m = [] then (codes ''Python LangGraph meeting brief completed using the supplied meeting transcript context.'')
      else m)"
  by (simp add: merge_def Let_def)

lemma synthesize_results:
  assumes "synthesize ctx now cfg name prov s = Inr s'"
  shows "\<exists>r. st_role_results s' = Some (opt_or (st_role_results s) [] @ [r]) \<and> rr_role r = ''summarizer''"
  using assms
  by (auto simp: synthesize_def and_then_eq_Inr add_result_def summarizer_result_def role_result0_def Let_def
      split_beta)

text \<open>
  Once a summarizer has produced a non-blank summary, running \<open>synthesize\<close> again - what a \<open>revise\<close>
  decision does - cannot change the merged summary: \<open>merge\<close> takes the first summarizer's text and the
  revised one is appended behind it.
\<close>

theorem revision_keeps_the_summary:
  "list_ex (\<lambda>r. rr_role r = ''summarizer'' \<and> strip (rr_summary r) \<noteq> []) (opt_or (st_role_results s) []) \<Longrightarrow>
     case synthesize ctx now cfg name prov s of
       Inl e \<Rightarrow> True
     | Inr s' \<Rightarrow> length (opt_or (st_role_results s') []) = length (opt_or (st_role_results s) []) + 1 \<and>
         st_summary (merge s') = st_summary (merge s)"
  using synthesize_results [of ctx now cfg name prov s] merged_summary_keeps
  by (auto simp: merge_summary split: sum.split)

definition first_draft :: "workflow_request \<Rightarrow> graph_state" where
  "first_draft rq = (graph_state0 rq)
     \<lparr>st_role_results := Some [(role_result0 ''summarizer'')\<lparr>rr_summary := codes ''a draft''\<rparr>]\<rparr>"

theorem revision_keeps_the_summary_witness:
  "\<forall>rq ctx now cfg name prov.
     case synthesize ctx now cfg name prov (first_draft rq) of
       Inl e \<Rightarrow> True
     | Inr s' \<Rightarrow> length (opt_or (st_role_results s') []) = 2 \<and>
         st_summary (merge s') = Some (codes ''a draft'')"
proof (intro allI)
  fix rq ctx now cfg name prov
  have draft: "strip (codes ''a draft'') \<noteq> []" by (simp add: strip_def codes_def is_space_def)
  have sum: "st_summary (merge (first_draft rq)) = Some (codes ''a draft'')"
    using draft by (simp add: merge_summary first_draft_def merged_summary_def first_non_empty_cons role_result0_def)
      (simp add: codes_def)
  show "case synthesize ctx now cfg name prov (first_draft rq) of
       Inl e \<Rightarrow> True
     | Inr s' \<Rightarrow> length (opt_or (st_role_results s') []) = 2 \<and>
         st_summary (merge s') = Some (codes ''a draft'')"
    using revision_keeps_the_summary [of "first_draft rq" ctx now cfg name prov] draft
    unfolding sum by (simp add: first_draft_def role_result0_def split: sum.splits)
qed

end
