(* ===== verification/Interfaces.thy ===== *)
theory Interfaces
  imports Prelude
begin

text \<open>
  The interfaces the components share, as locales. Each is interpreted, on the model's own
  definitions, in the theory of the component that provides it:

  \<^item> \<open>safe_system\<close>: a step relation with an invariant (the admission controller, the
    tool queue, checkpoint transactions);
  \<^item> \<open>ranked_system\<close>: a safe system whose steps also decrease a rank, so that every
    run is finite and its length is bounded (the workflow graph);
  \<^item> \<open>codec\<close>: an encoder and a decoder that consumes exactly what was encoded (the
    supervisor frames).
\<close>

section \<open>Systems with an invariant\<close>

locale safe_system =
  fixes init :: "'s \<Rightarrow> bool"
    and step :: "'s \<Rightarrow> 's \<Rightarrow> bool"
    and inv :: "'s \<Rightarrow> bool"
  assumes inv_init: "init s \<Longrightarrow> inv s"
    and inv_step: "inv s \<Longrightarrow> step s t \<Longrightarrow> inv t"
begin

lemma inv_run: "step\<^sup>*\<^sup>* s t \<Longrightarrow> inv s \<Longrightarrow> inv t"
  by (induction rule: rtranclp_induct) (auto intro: inv_step)

lemma reachable_inv: "init s \<Longrightarrow> step\<^sup>*\<^sup>* s t \<Longrightarrow> inv t"
  by (blast intro: inv_run inv_init)

end

section \<open>Systems that must stop\<close>

locale ranked_system = safe_system +
  fixes rank :: "'s \<Rightarrow> nat"
  assumes rank_step: "inv s \<Longrightarrow> step s t \<Longrightarrow> rank t < rank s"
begin

lemma run_length:
  assumes "(step ^^ n) s t" and "inv s"
  shows "n + rank t \<le> rank s"
  using assms
proof (induction n arbitrary: t)
  case 0
  then show ?case by simp
next
  case (Suc n)
  from Suc.prems(1) obtain u where run: "(step ^^ n) s u" and last: "step u t"
    by auto
  from run have "step\<^sup>*\<^sup>* s u" by (simp add: relpowp_imp_rtranclp)
  then have "inv u" using Suc.prems(2) by (rule inv_run)
  with last have "rank t < rank u" by (blast intro: rank_step)
  with Suc.IH [OF run Suc.prems(2)] show ?case by simp
qed

lemma run_bounded: "init s \<Longrightarrow> (step ^^ n) s t \<Longrightarrow> n \<le> rank s"
  using run_length inv_init by fastforce

text \<open>Some run from a state that satisfies the invariant ends in a state without a step.\<close>

lemma run_stops: "inv s \<Longrightarrow> \<exists>t. step\<^sup>*\<^sup>* s t \<and> inv t \<and> (\<forall>u. \<not> step t u)"
proof (induction "rank s" arbitrary: s rule: less_induct)
  case less
  show ?case
  proof (cases "\<exists>u. step s u")
    case False
    with less.prems show ?thesis by blast
  next
    case True
    then obtain u where u: "step s u" ..
    with less.prems have "rank u < rank s" and "inv u"
      by (blast intro: rank_step inv_step)+
    from less.hyps [OF this] obtain t
      where "step\<^sup>*\<^sup>* u t" "inv t" "\<forall>v. \<not> step t v" by blast
    with u show ?thesis by (blast intro: converse_rtranclp_into_rtranclp)
  qed
qed

end

section \<open>Codecs\<close>

text \<open>
  \<^term>\<open>decode\<close> takes one message off the front of a byte stream and returns the rest;
  \<^term>\<open>valid\<close> says which messages the encoder accepts.
\<close>

locale codec =
  fixes encode :: "'m \<Rightarrow> 'b list"
    and decode :: "'b list \<Rightarrow> ('m \<times> 'b list) option"
    and valid :: "'m \<Rightarrow> bool"
  assumes decode_encode: "valid m \<Longrightarrow> decode (encode m @ rest) = Some (m, rest)"
begin

lemma encode_inj: "valid m \<Longrightarrow> valid n \<Longrightarrow> encode m = encode n \<Longrightarrow> m = n"
  using decode_encode [of m "[]"] decode_encode [of n "[]"] by simp

text \<open>Prefix-freeness: two concatenations of valid messages agree only when the lists do.\<close>

lemma encode_concat_inj:
  assumes "\<forall>m \<in> set ms. valid m" and "\<forall>m \<in> set ns. valid m"
    and "\<And>m. valid m \<Longrightarrow> encode m \<noteq> []"
    and "concat (map encode ms) = concat (map encode ns)"
  shows "ms = ns"
  using assms
proof (induction ms arbitrary: ns)
  case Nil
  then show ?case by (cases ns) auto
next
  case (Cons m ms)
  have "encode m \<noteq> []" using Cons.prems(1,3) by simp
  then obtain n ns' where ns: "ns = n # ns'"
    using Cons.prems(4) by (cases ns) simp_all
  have "Some (m, concat (map encode ms)) = decode (concat (map encode (m # ms)))"
    using Cons.prems(1) by (simp add: decode_encode)
  also have "\<dots> = Some (n, concat (map encode ns'))"
    using Cons.prems(2,4) ns by (simp add: decode_encode)
  finally have "m = n" and rest: "concat (map encode ms) = concat (map encode ns')" by simp_all
  have "ms = ns'"
  proof (rule Cons.IH)
    show "\<forall>m \<in> set ms. valid m" using Cons.prems(1) by simp
    show "\<forall>m \<in> set ns'. valid m" using Cons.prems(2) ns by simp
    show "\<And>m. valid m \<Longrightarrow> encode m \<noteq> []" by (rule Cons.prems(3))
    show "concat (map encode ms) = concat (map encode ns')" by (rule rest)
  qed
  with \<open>m = n\<close> ns show ?case by simp
qed

end

end
