(* ===== verification/WorkflowGraph.thy ===== *)
theory WorkflowGraph
  imports ParallelRoles Review Interfaces
begin

text \<open>
  \<open>services/agent-runtime/allcallall_agent_runtime/dag.py\<close>: the workflow graph. LangGraph runs a node,
  merges the update it returns into the state and follows the outgoing edge: that is the step relation
  \<open>graph_step\<close> over the node models of the other theories. The interface \<open>ranked_system\<close> is
  interpreted on it: the quality loop is bounded, so every run is.
\<close>

section \<open>Nodes and edges\<close>

datatype node =
    CollectContext | RetrievalPlanner | RetrievalLoop | RetrieveContext | RerankContext | EvidenceNode
  | SufficiencyGate | Decompose | RoleRouter | ParallelNode | Searcher | MemoryAgent | Synthesize
  | RiskAnalyst | MergeNode | GroundingCheck | MemoryReflection | ProposeTools | CriticCheck | QualityCheck
  | SafetyCheck | ApprovalGate | Finalize | EndNode

text \<open>The targets of the router edges.\<close>

definition role_target :: "string \<Rightarrow> node option" where
  "role_target t =
     (if t = ''searcher'' then Some Searcher else if t = ''memory_agent'' then Some MemoryAgent
      else if t = ''parallel_roles'' then Some ParallelNode else if t = ''synthesize'' then Some Synthesize
      else if t = ''risk_analyst'' then Some RiskAnalyst else if t = ''merge'' then Some MergeNode else None)"

definition route_first :: "runtime_config \<Rightarrow> graph_state \<Rightarrow> string" where
  "route_first cfg s =
     (if rt_enable_parallel_roles cfg \<and>
         (case st_role_allocation s of None \<Rightarrow> False
          | Some a \<Rightarrow> ''searcher'' \<in> set (al_roles a) \<and> ''memory_agent'' \<in> set (al_roles a))
      then ''parallel_roles'' else next_role_after s None)"

fun next_node :: "runtime_config \<Rightarrow> node \<Rightarrow> graph_state \<Rightarrow> node option" where
  "next_node cfg CollectContext s = Some RetrievalPlanner"
| "next_node cfg RetrievalPlanner s = Some RetrievalLoop"
| "next_node cfg RetrievalLoop s = Some RetrieveContext"
| "next_node cfg RetrieveContext s = Some RerankContext"
| "next_node cfg RerankContext s = Some EvidenceNode"
| "next_node cfg EvidenceNode s = Some SufficiencyGate"
| "next_node cfg SufficiencyGate s = Some Decompose"
| "next_node cfg Decompose s = Some (if rt_enable_role_router cfg then RoleRouter else Searcher)"
| "next_node cfg RoleRouter s = (if rt_enable_role_router cfg then role_target (route_first cfg s) else None)"
| "next_node cfg ParallelNode s =
     (if rt_enable_role_router cfg then role_target (next_role_after s (Some ''memory_agent'')) else None)"
| "next_node cfg Searcher s =
     (if rt_enable_role_router cfg then role_target (next_role_after s (Some ''searcher''))
      else Some MemoryAgent)"
| "next_node cfg MemoryAgent s =
     (if rt_enable_role_router cfg then role_target (next_role_after s (Some ''memory_agent''))
      else Some Synthesize)"
| "next_node cfg Synthesize s =
     (if rt_enable_role_router cfg then role_target (next_role_after s (Some ''synthesize''))
      else Some RiskAnalyst)"
| "next_node cfg RiskAnalyst s =
     (if rt_enable_role_router cfg then role_target (next_role_after s (Some ''risk_analyst''))
      else Some MergeNode)"
| "next_node cfg MergeNode s = Some GroundingCheck"
| "next_node cfg GroundingCheck s = Some MemoryReflection"
| "next_node cfg MemoryReflection s = Some ProposeTools"
| "next_node cfg ProposeTools s = Some CriticCheck"
| "next_node cfg CriticCheck s = Some QualityCheck"
| "next_node cfg QualityCheck s = Some (if route_quality s = ''revise'' then Synthesize else SafetyCheck)"
| "next_node cfg SafetyCheck s = Some ApprovalGate"
| "next_node cfg ApprovalGate s = Some Finalize"
| "next_node cfg Finalize s = Some EndNode"
| "next_node cfg EndNode s = None"

section \<open>Running a node\<close>

text \<open>Everything the nodes read from outside, per step of the run.\<close>

record world =
  w_ctx :: deadline_ctx
  w_now :: "nat \<Rightarrow> seconds"
  w_loop_now :: "nat \<Rightarrow> nat \<Rightarrow> seconds"
  w_react :: "nat \<Rightarrow> react_world"
  w_rag :: "nat \<Rightarrow> rag_client"
  w_bridge :: "nat \<Rightarrow> read_bridge"
  w_finished :: "nat \<Rightarrow> string list"
  w_provider_name :: string
  w_provider :: provider
  w_sha :: "string \<Rightarrow> string"
  w_prompt_override :: string
  w_planner :: planner_config
  w_config :: runtime_config

datatype graph_error = NodeFailed node_error | GroupFailed group_error

definition lift_node :: "(node_error, 'a) result \<Rightarrow> (graph_error, 'a) result" where
  "lift_node r = (case r of Inl e \<Rightarrow> Inl (NodeFailed e) | Inr x \<Rightarrow> Inr x)"

definition lift_group :: "(group_error, 'a) result \<Rightarrow> (graph_error, 'a) result" where
  "lift_group r = (case r of Inl e \<Rightarrow> Inl (GroupFailed e) | Inr x \<Rightarrow> Inr x)"

text \<open>The executors of a parallel group; a thread of the group's pool has no deadline.\<close>

definition role_executor ::
  "world \<Rightarrow> nat \<Rightarrow> bool \<Rightarrow> string \<Rightarrow> graph_state \<Rightarrow> (node_error, graph_state) result" where
  "role_executor w n in_pool rl s =
     (let ctx = (if in_pool then None else w_ctx w)
      in if rl = ''searcher'' then searcher ctx (w_react w n) (w_config w) s
         else memory_agent ctx (w_react w n) (w_config w) s)"

text \<open>The nodes but the retrieval loop, which also threads the cache.\<close>

fun run_node :: "world \<Rightarrow> nat \<Rightarrow> retrieval_cache option \<Rightarrow> node \<Rightarrow> graph_state \<Rightarrow> (graph_error, graph_state) result"
where
  "run_node w n c CollectContext s = lift_node (collect_context (w_ctx w) (w_now w n) (w_prompt_override w) s)"
| "run_node w n c RetrievalPlanner s = lift_node (retrieval_planner (w_ctx w) (w_now w n) (w_planner w) s)"
| "run_node w n c RetrievalLoop s =
     lift_node (case retrieval_loop (w_sha w) (w_ctx w) (w_loop_now w n) (w_rag w n) (w_bridge w n) c s of
       Inl e \<Rightarrow> Inl e | Inr (c', s') \<Rightarrow> Inr s')"
| "run_node w n c RetrieveContext s = Inr (retrieve_context s)"
| "run_node w n c RerankContext s = Inr (rerank_context (w_sha w) c s)"
| "run_node w n c EvidenceNode s = Inr (build_evidence_pack s)"
| "run_node w n c SufficiencyGate s = Inr (sufficiency_gate s)"
| "run_node w n c Decompose s = lift_node (decompose (w_ctx w) (w_now w n) s)"
| "run_node w n c RoleRouter s = lift_node (route_roles (w_ctx w) (w_now w n) s)"
| "run_node w n c ParallelNode s =
     lift_group (parallel_roles_node (w_config w) (role_executor w n) (w_finished w n) s)"
| "run_node w n c Searcher s = lift_node (searcher (w_ctx w) (w_react w n) (w_config w) s)"
| "run_node w n c MemoryAgent s = lift_node (memory_agent (w_ctx w) (w_react w n) (w_config w) s)"
| "run_node w n c Synthesize s =
     lift_node (synthesize (w_ctx w) (w_now w n) (w_config w) (w_provider_name w) (w_provider w) s)"
| "run_node w n c RiskAnalyst s = lift_node (risk_analyst (w_ctx w) (w_now w n) (w_react w n) (w_config w) s)"
| "run_node w n c MergeNode s = Inr (merge s)"
| "run_node w n c GroundingCheck s = Inr (grounding_check (rt_enable_grounding_check (w_config w)) s)"
| "run_node w n c MemoryReflection s = lift_node (reflect_and_plan_memory (w_ctx w) (w_now w n) s)"
| "run_node w n c ProposeTools s = lift_node (propose_tools (w_ctx w) (w_now w n) s)"
| "run_node w n c CriticCheck s = Inr (critic_check s)"
| "run_node w n c QualityCheck s =
     lift_node (quality_check (w_ctx w) (w_now w n) (rt_max_quality_retries (w_config w)) s)"
| "run_node w n c SafetyCheck s = lift_node (safety_check (w_ctx w) (w_now w n) s)"
| "run_node w n c ApprovalGate s = lift_node (approval_gate (w_ctx w) (w_now w n) s)"
| "run_node w n c Finalize s = lift_node (finalize (w_ctx w) (w_now w n) s)"
| "run_node w n c EndNode s = Inr s"

definition next_cache ::
  "world \<Rightarrow> nat \<Rightarrow> node \<Rightarrow> graph_state \<Rightarrow> retrieval_cache option \<Rightarrow> retrieval_cache option" where
  "next_cache w n nd s c =
     (if nd = RetrievalLoop then
        (case retrieval_loop (w_sha w) (w_ctx w) (w_loop_now w n) (w_rag w n) (w_bridge w n) c s of
           Inl e \<Rightarrow> c | Inr (c', s') \<Rightarrow> Some c')
      else c)"

record run =
  wf_node :: node
  wf_state :: graph_state
  wf_cache :: "retrieval_cache option"
  wf_tick :: nat

inductive graph_step :: "world \<Rightarrow> run \<Rightarrow> run \<Rightarrow> bool" for w where
  "run_node w (wf_tick r) (wf_cache r) (wf_node r) (wf_state r) = Inr s' \<Longrightarrow>
   next_node (w_config w) (wf_node r) s' = Some nd \<Longrightarrow>
   graph_step w r
     \<lparr>wf_node = nd, wf_state = s', wf_cache = next_cache w (wf_tick r) (wf_node r) (wf_state r) (wf_cache r),
      wf_tick = wf_tick r + 1\<rparr>"

inductive_cases graph_stepE: "graph_step w r r'"

text \<open>
  The state the harness invokes the graph with, at the entry point of a fresh thread. (On a durable thread that ran
  before, LangGraph keeps the channels this input does not set.)
\<close>

definition initial_state ::
  "workflow_request \<Rightarrow> trace_event list \<Rightarrow> ustring \<Rightarrow> ustring list \<Rightarrow> graph_state" where
  "initial_state rq trace skill memory =
     (graph_state0 rq)\<lparr>st_trace_events := Some trace, st_role_results := Some [],
       st_skill_instructions := Some skill, st_long_term_memory := Some memory\<rparr>"

definition run_start :: "workflow_request \<Rightarrow> trace_event list \<Rightarrow> ustring \<Rightarrow> ustring list \<Rightarrow> run" where
  "run_start rq trace skill memory =
     \<lparr>wf_node = CollectContext, wf_state = initial_state rq trace skill memory, wf_cache = None, wf_tick = 0\<rparr>"

definition run_init :: "run \<Rightarrow> bool" where
  "run_init r \<longleftrightarrow> (\<exists>rq trace skill memory. r = run_start rq trace skill memory)"

section \<open>What the nodes leave alone\<close>

lemma lift_simps [simp]:
  "lift_node r = Inr x \<longleftrightarrow> r = Inr x"
  "lift_group q = Inr x \<longleftrightarrow> q = Inr x"
  by (auto simp: lift_node_def lift_group_def split: sum.splits)

lemma add_result_simps [simp]:
  "st_critic_retries (add_result r s) = st_critic_retries s"
  "st_role_allocation (add_result r s) = st_role_allocation s"
  "st_request (add_result r s) = st_request s"
  "st_proposed_tool_calls (add_result r s) = st_proposed_tool_calls s"
  "st_context_sufficiency (add_result r s) = st_context_sufficiency s"
  by (simp_all add: add_result_def)

text \<open>
  The retry counter, the allocation, the sufficiency verdict and the tool proposals are each written by one
  node only: the quality check, the role router, the sufficiency gate and \<open>propose_tools\<close>.
\<close>

definition control_frame :: "graph_state \<Rightarrow> graph_state \<Rightarrow> bool" where
  "control_frame s s' \<longleftrightarrow>
     st_critic_retries s' = st_critic_retries s \<and> st_role_allocation s' = st_role_allocation s"

definition write_frame :: "graph_state \<Rightarrow> graph_state \<Rightarrow> bool" where
  "write_frame s s' \<longleftrightarrow>
     st_proposed_tool_calls s' = st_proposed_tool_calls s \<and>
     st_context_sufficiency s' = st_context_sufficiency s"

definition frame :: "graph_state \<Rightarrow> graph_state \<Rightarrow> bool" where
  "frame s s' \<longleftrightarrow> control_frame s s' \<and> write_frame s s'"

lemmas frame_defs = frame_def control_frame_def write_frame_def

named_theorems node_frames \<open>nodes keep the retry counter and the allocation\<close>

lemma frame_collect_context [node_frames]: "collect_context ctx now ov s = Inr s' \<Longrightarrow> frame s s'"
  by (auto simp: collect_context_def frame_defs and_then_eq_Inr Let_def split: prod.splits)

lemma frame_retrieval_planner [node_frames]: "retrieval_planner ctx now app s = Inr s' \<Longrightarrow> frame s s'"
  by (auto simp: retrieval_planner_def frame_defs and_then_eq_Inr Let_def split: prod.splits)

lemma frame_decompose [node_frames]: "decompose ctx now s = Inr s' \<Longrightarrow> frame s s'"
  by (auto simp: decompose_def frame_defs and_then_eq_Inr Let_def split: prod.splits)

lemma frame_searcher [node_frames]: "searcher ctx rw cfg s = Inr s' \<Longrightarrow> frame s s'"
  by (auto simp: searcher_def frame_defs and_then_eq_Inr Let_def split: prod.splits)

lemma frame_memory_agent [node_frames]: "memory_agent ctx rw cfg s = Inr s' \<Longrightarrow> frame s s'"
  by (auto simp: memory_agent_def frame_defs and_then_eq_Inr Let_def split: prod.splits)

lemma frame_synthesize [node_frames]: "synthesize ctx now cfg pn prov s = Inr s' \<Longrightarrow> frame s s'"
  by (auto simp: synthesize_def frame_defs and_then_eq_Inr Let_def split_beta)

lemma frame_risk_analyst [node_frames]: "risk_analyst ctx now rw cfg s = Inr s' \<Longrightarrow> frame s s'"
  by (auto simp: risk_analyst_def frame_defs and_then_eq_Inr Let_def split: prod.splits)

lemma frame_reflect_and_plan_memory [node_frames]: "reflect_and_plan_memory ctx now s = Inr s' \<Longrightarrow> frame s s'"
  by (auto simp: reflect_and_plan_memory_def frame_defs and_then_eq_Inr Let_def split: prod.splits)

lemma frame_propose_tools:
  "propose_tools ctx now s = Inr s' \<Longrightarrow> control_frame s s' \<and> st_context_sufficiency s' = st_context_sufficiency s"
  by (auto simp: propose_tools_def frame_defs and_then_eq_Inr Let_def split: prod.splits)

lemma frame_safety_check [node_frames]: "safety_check ctx now s = Inr s' \<Longrightarrow> frame s s'"
  by (auto simp: safety_check_def outcome_payload_def record_outcome_def frame_defs and_then_eq_Inr Let_def split: prod.splits)

lemma frame_approval_gate [node_frames]: "approval_gate ctx now s = Inr s' \<Longrightarrow> frame s s'"
  by (auto simp: approval_gate_def frame_defs and_then_eq_Inr Let_def split: prod.splits)

lemma frame_finalize [node_frames]: "finalize ctx now s = Inr s' \<Longrightarrow> frame s s'"
  by (auto simp: finalize_def frame_defs and_then_eq_Inr Let_def split: prod.splits)

lemma frame_retrieve_context [node_frames]: "frame s (retrieve_context s)"
  by (simp add: retrieve_context_def frame_defs Let_def)

lemma frame_rerank_context [node_frames]: "frame s (rerank_context sha c s)"
  by (simp add: rerank_context_def frame_defs Let_def)

lemma frame_build_evidence_pack [node_frames]: "frame s (build_evidence_pack s)"
  by (simp add: build_evidence_pack_def frame_defs Let_def)

lemma frame_sufficiency_gate:
  "control_frame s (sufficiency_gate s) \<and> st_proposed_tool_calls (sufficiency_gate s) = st_proposed_tool_calls s"
  by (simp add: sufficiency_gate_def frame_defs Let_def)

lemma frame_merge [node_frames]: "frame s (merge s)"
  by (simp add: merge_def frame_defs Let_def)

lemma frame_grounding_check [node_frames]: "frame s (grounding_check b s)"
  by (simp add: grounding_check_def frame_defs Let_def)

lemma frame_critic_check [node_frames]: "frame s (critic_check s)"
  by (simp add: critic_check_def frame_defs Let_def)

lemma frame_retrieval_loop [node_frames]: "retrieval_loop sha ctx clock rag br c s = Inr (c', s') \<Longrightarrow> frame s s'"
  by (auto simp: retrieval_loop_def frame_defs and_then_eq_Inr Let_def split: if_splits)

lemma frame_parallel [node_frames]: "parallel_roles_node cfg ex fin s = Inr s' \<Longrightarrow> frame s s'"
  by (auto simp: parallel_roles_node_def frame_defs and_then_eq_Inr Let_def split: option.splits)

lemma frame_refl [node_frames]: "frame s s"
  by (simp add: frame_defs)

lemma run_node_frame:
  assumes "run_node w n c nd s = Inr s'"
    and "nd \<notin> {QualityCheck, RoleRouter, ProposeTools, SufficiencyGate}"
  shows "frame s s'"
  using assms by (cases nd) (auto intro: node_frames split: sum.splits)

lemma route_roles_frame:
  "route_roles ctx now s = Inr s' \<Longrightarrow>
     st_critic_retries s' = st_critic_retries s \<and> write_frame s s' \<and>
     map_option al_roles (st_role_allocation s') = Some (allocated_roles s)"
  by (auto simp: route_roles_def and_then_eq_Inr Let_def write_frame_def)

text \<open>A revision uses up one retry, and other decisions leave the counter alone.\<close>

lemma decision_value_revise [simp]: "decision_value d = ''revise'' \<longleftrightarrow> d = Revise"
  by (cases d) simp_all

lemma quality_check_frame:
  assumes "quality_check ctx now m s = Inr s'"
  shows "st_role_allocation s' = st_role_allocation s" and "write_frame s s'"
    and "route_quality s' = ''revise'' \<Longrightarrow>
      opt_or (st_critic_retries s) 0 < max 0 m \<and> st_critic_retries s' = Some (opt_or (st_critic_retries s) 0 + 1)"
    and "route_quality s' \<noteq> ''revise'' \<Longrightarrow> st_critic_retries s' = st_critic_retries s"
proof -
  obtain oc acc where q: "quality_outcome m s = (oc, acc)" by (cases "quality_outcome m s")
  show "write_frame s s'"
    using assms q by (cases acc)
      (auto simp: quality_check_def and_then_eq_Inr Let_def outcome_payload_def record_outcome_def write_frame_def)
  have dec: "st_last_check_decision s' = Some (decision_value (co_decision oc)) \<and>
    st_critic_retries s' = (if co_decision oc = Revise then Some (opt_or (st_critic_retries s) 0 + 1)
      else st_critic_retries s) \<and> st_role_allocation s' = st_role_allocation s"
    using assms q
    by (cases acc) (auto simp: quality_check_def and_then_eq_Inr Let_def outcome_payload_def record_outcome_def)
  have budget: "co_decision oc = Revise \<Longrightarrow> opt_or (st_critic_retries s) 0 < max 0 m"
    using q by (auto simp: quality_outcome_def mk_outcome_def Let_def split: if_splits option.splits)
  show "st_role_allocation s' = st_role_allocation s" using dec by simp
  show "route_quality s' = ''revise'' \<Longrightarrow>
      opt_or (st_critic_retries s) 0 < max 0 m \<and> st_critic_retries s' = Some (opt_or (st_critic_retries s) 0 + 1)"
    using dec budget by (auto simp: route_quality_def split: if_splits)
  show "route_quality s' \<noteq> ''revise'' \<Longrightarrow> st_critic_retries s' = st_critic_retries s"
    using dec by (auto simp: route_quality_def split: if_splits)
qed

section \<open>Every run stops\<close>

text \<open>The position of a node on the way to the end, and the rank: revisions first, position second.\<close>

fun node_pos :: "node \<Rightarrow> nat" where
  "node_pos EndNode = 0" | "node_pos Finalize = 1" | "node_pos ApprovalGate = 2"
| "node_pos SafetyCheck = 3" | "node_pos QualityCheck = 4" | "node_pos CriticCheck = 5"
| "node_pos ProposeTools = 6" | "node_pos MemoryReflection = 7" | "node_pos GroundingCheck = 8"
| "node_pos MergeNode = 9" | "node_pos RiskAnalyst = 10" | "node_pos Synthesize = 11"
| "node_pos MemoryAgent = 12" | "node_pos Searcher = 13" | "node_pos ParallelNode = 14"
| "node_pos RoleRouter = 15" | "node_pos Decompose = 16" | "node_pos SufficiencyGate = 17"
| "node_pos EvidenceNode = 18" | "node_pos RerankContext = 19" | "node_pos RetrieveContext = 20"
| "node_pos RetrievalLoop = 21" | "node_pos RetrievalPlanner = 22" | "node_pos CollectContext = 23"

definition run_rank :: "world \<Rightarrow> run \<Rightarrow> nat" where
  "run_rank w r =
     nat (max 0 (rt_max_quality_retries (w_config w)) - opt_or (st_critic_retries (wf_state r)) 0) * 8 +
     node_pos (wf_node r)"

text \<open>The allocation lists roles in the canonical order.\<close>

definition alloc_ok :: "graph_state \<Rightarrow> bool" where
  "alloc_ok s \<longleftrightarrow>
     (case st_role_allocation s of None \<Rightarrow> True | Some a \<Rightarrow> al_roles a = ordered_subset (al_roles a))"

definition run_ok :: "run \<Rightarrow> bool" where
  "run_ok r \<longleftrightarrow> alloc_ok (wf_state r)"

definition role_after :: "string list \<Rightarrow> string option \<Rightarrow> string" where
  "role_after roles current =
     (if roles = [] then ''merge''
      else case current of
          None \<Rightarrow> hd roles
        | Some r \<Rightarrow> (case dropWhile (\<lambda>x. x \<noteq> r) roles of _ # nxt # _ \<Rightarrow> nxt | _ \<Rightarrow> ''merge''))"

text \<open>The role chain only moves forward, for each of the sixteen allocations.\<close>

definition forward :: "string option \<Rightarrow> nat \<Rightarrow> string list \<Rightarrow> bool" where
  "forward current p roles \<longleftrightarrow>
     (case role_target (role_after roles current) of None \<Rightarrow> True | Some nd \<Rightarrow> node_pos nd < p)"

lemma forward_all:
  "list_all (forward None 14) (subseqs canonical_roles)"
  "list_all (forward (Some ''searcher'') 13) (subseqs canonical_roles)"
  "list_all (forward (Some ''memory_agent'') 12) (subseqs canonical_roles)"
  "list_all (forward (Some ''synthesize'') 11) (subseqs canonical_roles)"
  "list_all (forward (Some ''risk_analyst'') 10) (subseqs canonical_roles)"
  by code_simp+

lemma filter_in_subseqs: "filter P xs \<in> set (subseqs xs)"
  by (induction xs) (auto simp: Let_def)

lemma role_chain:
  assumes "alloc_ok s" and "list_all (forward current p) (subseqs canonical_roles)"
    and "role_target (next_role_after s current) = Some nd"
  shows "node_pos nd < p"
proof -
  define roles where "roles = (case st_role_allocation s of None \<Rightarrow> canonical_roles | Some a \<Rightarrow> al_roles a)"
  have "roles \<in> set (subseqs canonical_roles)"
  proof (cases "st_role_allocation s")
    case None
    then show ?thesis using filter_in_subseqs [of "\<lambda>_. True" canonical_roles] by (simp add: roles_def)
  next
    case (Some a)
    have "al_roles a = filter (\<lambda>r. r \<in> set (al_roles a)) canonical_roles"
      using assms(1) by (simp add: alloc_ok_def Some ordered_subset_def)
    then show ?thesis unfolding roles_def Some option.case by (metis filter_in_subseqs)
  qed
  then have "forward current p roles" using assms(2) by (simp only: list_all_iff)
  moreover have "next_role_after s current = role_after roles current"
    by (simp add: next_role_after_def role_after_def roles_def Let_def)
  ultimately show ?thesis using assms(3) by (simp add: forward_def)
qed

lemma next_node_forward:
  assumes "alloc_ok s"
    and "next_node cfg nd s = Some nd'"
  shows "node_pos nd' < node_pos nd \<or> nd = QualityCheck \<and> route_quality s = ''revise'' \<and> nd' = Synthesize"
proof -
  note chain = role_chain [OF assms(1) forward_all(1)] role_chain [OF assms(1) forward_all(2)]
    role_chain [OF assms(1) forward_all(3)] role_chain [OF assms(1) forward_all(4)]
    role_chain [OF assms(1) forward_all(5)]
  have par: "role_target ''parallel_roles'' = Some ParallelNode" by (simp add: role_target_def)
  show ?thesis
  proof (cases nd)
    case RoleRouter
    show ?thesis
    proof (cases "route_first cfg s = next_role_after s None")
      case True
      then show ?thesis using assms(2) RoleRouter chain(1) [of nd'] by (auto split: if_splits)
    next
      case False
      then have "route_first cfg s = ''parallel_roles''" by (simp add: route_first_def split: if_splits)
      then show ?thesis using assms(2) RoleRouter par by (auto split: if_splits)
    qed
  qed (use assms(2) chain [of nd'] in \<open>auto split: if_splits\<close>)
qed

lemma run_ok_init: "run_init r \<Longrightarrow> run_ok r"
  by (auto simp: run_init_def run_start_def initial_state_def graph_state0_def run_ok_def alloc_ok_def)

text \<open>Which node writes which key.\<close>

lemma run_node_keeps:
  assumes "run_node w n c nd s = Inr s'"
  shows "nd \<noteq> QualityCheck \<Longrightarrow> st_critic_retries s' = st_critic_retries s"
    and "nd \<noteq> RoleRouter \<Longrightarrow> st_role_allocation s' = st_role_allocation s"
    and "nd \<noteq> ProposeTools \<Longrightarrow> st_proposed_tool_calls s' = st_proposed_tool_calls s"
    and "nd \<noteq> SufficiencyGate \<Longrightarrow> st_context_sufficiency s' = st_context_sufficiency s"
proof -
  let ?special = "{QualityCheck, RoleRouter, ProposeTools, SufficiencyGate}"
  have "frame s s'" if "nd \<notin> ?special"
    using run_node_frame [OF assms that] .
  then show "nd \<noteq> QualityCheck \<Longrightarrow> st_critic_retries s' = st_critic_retries s"
    and "nd \<noteq> RoleRouter \<Longrightarrow> st_role_allocation s' = st_role_allocation s"
    and "nd \<noteq> ProposeTools \<Longrightarrow> st_proposed_tool_calls s' = st_proposed_tool_calls s"
    and "nd \<noteq> SufficiencyGate \<Longrightarrow> st_context_sufficiency s' = st_context_sufficiency s"
    using assms quality_check_frame(1,2) route_roles_frame frame_propose_tools frame_sufficiency_gate [of s]
    by (cases "nd \<in> ?special"; force simp: frame_defs)+
qed

lemma run_node_allocation:
  assumes "run_node w n c nd s = Inr s'" and "run_ok r" and "wf_state r = s"
  shows "alloc_ok s'"
proof (cases "nd = RoleRouter")
  case True
  then obtain a where "st_role_allocation s' = Some a" "al_roles a = allocated_roles s"
    using assms(1) route_roles_frame by fastforce
  then show ?thesis using allocated_roles_ordered [of s] by (simp add: alloc_ok_def ordered_subset_def)
next
  case False
  then show ?thesis using assms run_node_keeps(2) [OF assms(1)] by (simp add: run_ok_def alloc_ok_def)
qed

lemma run_ok_step:
  assumes "run_ok r" and "graph_step w r r'"
  shows "run_ok r'"
  using assms(2)
proof (rule graph_stepE)
  fix s' nd
  assume r': "r' = \<lparr>wf_node = nd, wf_state = s',
      wf_cache = next_cache w (wf_tick r) (wf_node r) (wf_state r) (wf_cache r), wf_tick = Suc (wf_tick r)\<rparr>"
    and run: "run_node w (wf_tick r) (wf_cache r) (wf_node r) (wf_state r) = Inr s'"
    and "next_node (w_config w) (wf_node r) s' = Some nd"
  show ?thesis
    using run_node_allocation [OF run assms(1) refl] by (simp add: r' run_ok_def)
qed

lemma revise_rank: "a < (b::int) \<Longrightarrow> nat (b - (a + 1)) * 8 + 11 < nat (b - a) * 8 + 4"
  by linarith

lemma rank_step:
  assumes "run_ok r" and "graph_step w r r'"
  shows "run_rank w r' < run_rank w r"
  using assms(2)
proof (rule graph_stepE)
  fix s' nd
  assume r': "r' = \<lparr>wf_node = nd, wf_state = s',
      wf_cache = next_cache w (wf_tick r) (wf_node r) (wf_state r) (wf_cache r), wf_tick = Suc (wf_tick r)\<rparr>"
    and run: "run_node w (wf_tick r) (wf_cache r) (wf_node r) (wf_state r) = Inr s'"
    and nxt: "next_node (w_config w) (wf_node r) s' = Some nd"
  note forward = next_node_forward [OF run_node_allocation [OF run assms(1) refl] nxt]
  show ?thesis
  proof (cases "wf_node r = QualityCheck \<and> route_quality s' = ''revise''")
    case True
    then have "quality_check (w_ctx w) (w_now w (wf_tick r)) (rt_max_quality_retries (w_config w)) (wf_state r) = Inr s'"
      using run by simp
    note q = quality_check_frame(3) [OF this]
    from True nxt have "nd = Synthesize" by simp
    then show ?thesis using q True revise_rank by (simp add: r' run_rank_def)
  next
    case False
    have "st_critic_retries s' = st_critic_retries (wf_state r)"
    proof (cases "wf_node r = QualityCheck")
      case True
      then show ?thesis using run False quality_check_frame(4) by simp
    qed (rule run_node_keeps(1) [OF run])
    then show ?thesis using forward False by (auto simp: r' run_rank_def)
  qed
qed

interpretation graph: ranked_system run_init "graph_step w" run_ok "run_rank w" for w
  by unfold_locales (auto intro: run_ok_init run_ok_step rank_step)

lemma start_rank:
  "run_rank w (run_start rq trace skill memory) = 23 + 8 * nat (max 0 (rt_max_quality_retries (w_config w)))"
  by (simp add: run_rank_def run_start_def initial_state_def graph_state0_def)

lemma run_start_init: "run_init (run_start rq trace skill memory)"
  by (auto simp: run_init_def)

text \<open>
  C2: every workflow run stops: from the initial state of any request, whatever the model, the retrieval
  service, the tools and the clock answer, at most 23 node executions plus 8 for each quality retry happen,
  and some run of that kind ends in a state without a next step. The role router, the parallel group and the
  revise loop do not change that.
\<close>

theorem workflow_run_is_bounded:
  "{n. \<exists>r. (graph_step w ^^ n) (run_start rq trace skill memory) r}
     \<subseteq> {..23 + 8 * nat (max 0 (rt_max_quality_retries (w_config w)))} \<and>
   (\<exists>r. (graph_step w)\<^sup>*\<^sup>* (run_start rq trace skill memory) r \<and> (\<forall>r'. \<not> graph_step w r r'))"
  using graph.run_bounded [OF run_start_init] graph.run_stops [OF run_ok_init [OF run_start_init], of w]
  unfolding start_rank by blast

section \<open>What a finished run hands over\<close>

text \<open>
  Tool proposals are approval-gated at every point of a run, there are none on insufficient context, and none
  before the roles have run; once the safety check has run, risk flags stand next to an escalation.
\<close>

definition proposals :: "graph_state \<Rightarrow> tool_proposal list" where
  "proposals s = opt_or (st_proposed_tool_calls s) []"

definition context_sufficient :: "graph_state \<Rightarrow> bool" where
  "context_sufficient s = cs_sufficient (opt_or (st_context_sufficiency s) context_sufficiency0)"

definition verdict :: "graph_state \<Rightarrow> string" where
  "verdict s = od_final_verdict (opt_or (st_output_decision s) output_decision0)"

definition writes_ok :: "run \<Rightarrow> bool" where
  "writes_ok r \<longleftrightarrow>
     run_ok r \<and> list_all tp_approval_required (proposals (wf_state r)) \<and>
     (proposals (wf_state r) = [] \<or> context_sufficient (wf_state r)) \<and>
     (11 < node_pos (wf_node r) \<longrightarrow> proposals (wf_state r) = []) \<and>
     (node_pos (wf_node r) \<le> 2 \<longrightarrow>
        opt_or (st_risk_flags (wf_state r)) [] = [] \<or> verdict (wf_state r) = ''escalate'')"

lemma proposals_gated: "list_all tp_approval_required (workflow_tool_proposals rq base ns args mr)"
  by (simp add: workflow_tool_proposals_def tool_proposal0_def Let_def)

lemma propose_tools_proposals:
  assumes "propose_tools ctx now s = Inr s'"
  shows "list_all tp_approval_required (proposals s')" and "proposals s' = [] \<or> context_sufficient s'"
  using assms
  by (auto simp: propose_tools_def proposals_def context_sufficient_def and_then_eq_Inr Let_def proposals_gated)

lemma safety_check_verdict:
  assumes "safety_check ctx now s = Inr s'"
  shows "opt_or (st_risk_flags s') [] = [] \<or> verdict s' = ''escalate''"
  using assms
  by (auto simp: safety_check_def and_then_eq_Inr Let_def outcome_payload_def record_outcome_def verdict_def
      safety_outcome_def mk_outcome_def accumulate_safety_def split: if_splits)

lemma last_nodes_keep:
  "approval_gate ctx now s = Inr s' \<Longrightarrow> st_risk_flags s' = st_risk_flags s \<and> verdict s' = verdict s"
  "finalize ctx now s = Inr s' \<Longrightarrow> st_risk_flags s' = st_risk_flags s \<and> verdict s' = verdict s"
  by (auto simp: approval_gate_def finalize_def verdict_def and_then_eq_Inr)

lemma writes_ok_init: "run_init r \<Longrightarrow> writes_ok r"
  using run_ok_init
  by (auto simp: run_init_def run_start_def initial_state_def graph_state0_def writes_ok_def proposals_def)

lemma writes_ok_step:
  assumes ok: "writes_ok r" and "graph_step w r r'"
  shows "writes_ok r'"
  using assms(2)
proof (rule graph_stepE)
  fix s' nd
  assume r': "r' = \<lparr>wf_node = nd, wf_state = s',
      wf_cache = next_cache w (wf_tick r) (wf_node r) (wf_state r) (wf_cache r), wf_tick = Suc (wf_tick r)\<rparr>"
    and run: "run_node w (wf_tick r) (wf_cache r) (wf_node r) (wf_state r) = Inr s'"
    and nxt: "next_node (w_config w) (wf_node r) s' = Some nd"
  let ?s = "wf_state r"
  have rok: "run_ok r" using ok by (simp add: writes_ok_def)
  note forward = next_node_forward [OF run_node_allocation [OF run rok refl] nxt]
  note keeps = run_node_keeps [OF run]
  have gated: "list_all tp_approval_required (proposals s')"
  proof (cases "wf_node r = ProposeTools")
    case True
    then show ?thesis using run propose_tools_proposals(1) by simp
  next
    case False
    then show ?thesis using ok keeps(3) by (simp add: writes_ok_def proposals_def)
  qed
  have sufficient: "proposals s' = [] \<or> context_sufficient s'"
  proof (cases "wf_node r = ProposeTools")
    case True
    then show ?thesis using run propose_tools_proposals(2) by simp
  next
    case False
    then show ?thesis
      using ok keeps(3,4) by (cases "wf_node r = SufficiencyGate")
        (auto simp: writes_ok_def proposals_def context_sufficient_def)
  qed
  have early: "11 < node_pos nd \<Longrightarrow> proposals s' = []"
    using ok forward keeps(3) by (cases "wf_node r = ProposeTools") (auto simp: writes_ok_def proposals_def)
  have late: "opt_or (st_risk_flags s') [] = [] \<or> verdict s' = ''escalate''" if "node_pos nd \<le> 2"
  proof (cases "wf_node r = SafetyCheck")
    case True
    then show ?thesis using run safety_check_verdict by simp
  next
    case False
    then have "wf_node r = ApprovalGate \<or> wf_node r = Finalize"
      using that nxt by (cases "wf_node r") (auto simp: role_target_def split: if_splits)
    then show ?thesis using run ok last_nodes_keep by (auto simp: writes_ok_def)
  qed
  show ?thesis
    using graph.inv_step [OF rok assms(2)] gated sufficient early late by (simp add: r' writes_ok_def)
qed

interpretation writes: safe_system run_init "graph_step w" writes_ok for w
  by unfold_locales (auto intro: writes_ok_init writes_ok_step)

definition finished_states :: "world \<Rightarrow> run \<Rightarrow> graph_state set" where
  "finished_states w r0 = {wf_state r | r. (graph_step w)\<^sup>*\<^sup>* r0 r \<and> wf_node r = EndNode}"

text \<open>
  C1: whatever the model and the retrieval service answer, a finished run hands over only write proposals that
  require approval, hands over none when the context was insufficient, and never reports risk flags without
  the escalation verdict: the safety gate has the last word on \<open>output_decision\<close>, also after revisions.
\<close>

theorem finished_run_is_gated:
  "finished_states w (run_start rq trace skill memory) \<subseteq>
     {s. list_all tp_approval_required (proposals s) \<and> (proposals s = [] \<or> context_sufficient s) \<and>
         (opt_or (st_risk_flags s) [] = [] \<or> verdict s = ''escalate'')}"
proof -
  have "writes_ok r" if "(graph_step w)\<^sup>*\<^sup>* (run_start rq trace skill memory) r" for r
    using writes.reachable_inv [OF run_start_init that] .
  then show ?thesis by (fastforce simp: finished_states_def writes_ok_def)
qed

end
