(* ===== verification/Admission.thy ===== *)
theory Admission
  imports Interfaces
begin

text \<open>
  \<open>services/agent-runtime/allcallall_agent_runtime/admission.py\<close>: the bounded admission
  controller. This theory holds the controller's state, its operations as they run under the
  condition lock, and the controller invariant; \<open>AdmissionThreads\<close> adds the calling threads.

  Leases and waiters are mutable objects shared by reference, so the state keeps them in two
  heaps (lists that only grow; a reference is an index), and the deque holds references. The
  Prometheus gauges and counters the code sets are fields as well. \<open>lease_released\<close> is a ghost
  flag: it records that \<open>_release\<close> has run for the lease.
\<close>

section \<open>State\<close>

type_synonym lease_ref = nat
type_synonym waiter_ref = nat

datatype reject_reason = QueueFull | Timeout | Cancelled

record lease =
  lease_org :: int
  lease_closed :: bool
  lease_released :: bool

record waiter =
  w_event :: bool
  w_acquired :: bool
  w_lease :: "lease_ref option"
  w_cancelled :: bool
  w_org :: int
  w_enqueued_at :: seconds

record controller =
  max_active :: int
  max_queued :: int
  max_queue_wait_seconds :: seconds
  max_active_per_org :: int
  active :: int
  org_active :: "int \<rightharpoonup> int"
  queue :: "waiter_ref list"
  lease_heap :: "lease list"
  waiter_heap :: "waiter list"
  active_gauge :: int
  queued_gauge :: int
  accepted_total :: nat
  rejected_total :: "reject_reason \<Rightarrow> nat"

text \<open>\<open>max_active_per_org or max((max_active + 1) // 2, 1)\<close>: \<open>None\<close> and \<open>0\<close> give the default.\<close>

definition new_controller :: "int \<Rightarrow> int \<Rightarrow> seconds \<Rightarrow> int option \<Rightarrow> controller" where
  "new_controller ma mq wait per_org =
     \<lparr>max_active = ma, max_queued = mq, max_queue_wait_seconds = wait,
      max_active_per_org =
        (case per_org of
           None \<Rightarrow> max ((ma + 1) div 2) 1
         | Some p \<Rightarrow> if p = 0 then max ((ma + 1) div 2) 1 else p),
      active = 0, org_active = Map.empty, queue = [], lease_heap = [], waiter_heap = [],
      active_gauge = 0, queued_gauge = 0, accepted_total = 0, rejected_total = (\<lambda>_. 0)\<rparr>"

definition new_lease :: "int \<Rightarrow> lease" where
  "new_lease org = \<lparr>lease_org = org, lease_closed = False, lease_released = False\<rparr>"

definition new_waiter :: "int \<Rightarrow> seconds \<Rightarrow> waiter" where
  "new_waiter org now =
     \<lparr>w_event = False, w_acquired = False, w_lease = None, w_cancelled = False,
      w_org = org, w_enqueued_at = now\<rparr>"

section \<open>Operations under the condition lock\<close>

definition can_grant :: "controller \<Rightarrow> int \<Rightarrow> bool" where
  "can_grant c org =
     (if max_active c \<le> active c then False
      else if max_active_per_org c \<le> get_or (org_active c) org 0 then False
      else True)"

definition grant :: "controller \<Rightarrow> int \<Rightarrow> lease_ref \<times> controller" where
  "grant c org =
     (length (lease_heap c),
      c\<lparr>lease_heap := lease_heap c @ [new_lease org],
        active := active c + 1,
        org_active := (org_active c)(org \<mapsto> get_or (org_active c) org 0 + 1),
        active_gauge := active c + 1,
        accepted_total := accepted_total c + 1\<rparr>)"

definition count_rejection :: "reject_reason \<Rightarrow> controller \<Rightarrow> controller" where
  "count_rejection r c =
     c\<lparr>rejected_total := (rejected_total c)(r := rejected_total c r + 1)\<rparr>"

datatype enter_result = Granted lease_ref | Enqueued waiter_ref | Refused reject_reason seconds

text \<open>The critical section of \<open>acquire\<close>.\<close>

definition acquire_enter :: "int \<Rightarrow> seconds \<Rightarrow> controller \<Rightarrow> enter_result \<times> controller" where
  "acquire_enter org now c =
     (if can_grant c org then (let (l, c') = grant c org in (Granted l, c'))
      else if max_queued c \<le> int (length (queue c)) then
        (Refused QueueFull (max 1 (max_queue_wait_seconds c)), count_rejection QueueFull c)
      else
        (let w = length (waiter_heap c); q = queue c @ [w]
         in (Enqueued w,
             c\<lparr>waiter_heap := waiter_heap c @ [new_waiter org now], queue := q,
               queued_gauge := int (length q)\<rparr>)))"

text \<open>The \<open>for\<close> loop of \<open>_try_grant_waiters\<close>: position of the first eligible waiter.\<close>

fun find_eligible :: "controller \<Rightarrow> waiter_ref list \<Rightarrow> nat option" where
  "find_eligible c [] = None"
| "find_eligible c (w # ws) =
     (if w_cancelled (waiter_heap c ! w) then map_option Suc (find_eligible c ws)
      else if get_or (org_active c) (w_org (waiter_heap c ! w)) 0 < max_active_per_org c
      then Some 0
      else map_option Suc (find_eligible c ws))"

definition grant_waiter :: "nat \<Rightarrow> controller \<Rightarrow> controller" where
  "grant_waiter i c =
     (let w = queue c ! i;
          org = w_org (waiter_heap c ! w);
          (l, c') = grant c org
      in c'\<lparr>queued_gauge := int (length (queue c)) - 1,
            waiter_heap := (waiter_heap c)
              [w := (waiter_heap c ! w)\<lparr>w_acquired := True, w_lease := Some l, w_event := True\<rparr>],
            queue := take i (queue c) @ drop (Suc i) (queue c)\<rparr>)"

lemma find_eligible_less: "find_eligible c ws = Some i \<Longrightarrow> i < length ws"
  by (induction ws arbitrary: i) (auto split: if_splits)

lemma queue_grant_waiter [simp]:
  "queue (grant_waiter i c) = take i (queue c) @ drop (Suc i) (queue c)"
  by (simp add: grant_waiter_def grant_def Let_def)

function grant_loop :: "controller \<Rightarrow> controller" where
  "grant_loop c =
     (if queue c \<noteq> [] \<and> active c < max_active c then
        (case find_eligible c (queue c) of
           None \<Rightarrow> c
         | Some i \<Rightarrow> grant_loop (grant_waiter i c))
      else c)"
  by pat_completeness auto
termination
  by (relation "measure (\<lambda>c. length (queue c))") (auto dest: find_eligible_less)

declare grant_loop.simps [simp del]

definition try_grant_waiters :: "controller \<Rightarrow> controller" where
  "try_grant_waiters c =
     (let c' = grant_loop c;
          q = dropWhile (\<lambda>w. w_cancelled (waiter_heap c' ! w)) (queue c')
      in c'\<lparr>queue := q, queued_gauge := int (length q)\<rparr>)"

text \<open>\<open>_release\<close>: the slot goes back to the counters, then the next waiters are woken.\<close>

definition return_slot :: "lease_ref \<Rightarrow> controller \<Rightarrow> controller" where
  "return_slot l c =
     (let org = lease_org (lease_heap c ! l);
          org_count = get_or (org_active c) org 0
      in c\<lparr>active := active c - 1,
           org_active :=
             (if org_count \<le> 1 then (org_active c)(org := None)
              else (org_active c)(org \<mapsto> org_count - 1)),
           active_gauge := active c - 1,
           lease_heap := (lease_heap c)[l := (lease_heap c ! l)\<lparr>lease_released := True\<rparr>]\<rparr>)"

definition release :: "lease_ref \<Rightarrow> controller \<Rightarrow> controller" where
  "release l c = try_grant_waiters (return_slot l c)"

definition remove_waiter :: "waiter_ref \<Rightarrow> controller \<Rightarrow> controller" where
  "remove_waiter w c =
     (let q = remove1 w (queue c) in c\<lparr>queue := q, queued_gauge := int (length q)\<rparr>)"

text \<open>\<open>AdmissionLease.close\<close>: the flag is set under the lease's own lock, then \<open>_release\<close> runs.\<close>

definition mark_closed :: "lease_ref \<Rightarrow> controller \<Rightarrow> controller" where
  "mark_closed l c =
     c\<lparr>lease_heap := (lease_heap c)[l := (lease_heap c ! l)\<lparr>lease_closed := True\<rparr>]\<rparr>"

definition close :: "lease_ref \<Rightarrow> controller \<Rightarrow> controller" where
  "close l c =
     (if lease_closed (lease_heap c ! l) then c else release l (mark_closed l c))"

section \<open>The controller invariant\<close>

definition config_ok :: "controller \<Rightarrow> bool" where
  "config_ok c \<longleftrightarrow> 0 \<le> max_active c \<and> 0 \<le> max_active_per_org c"

definition open_count :: "controller \<Rightarrow> nat" where
  "open_count c = length (filter (\<lambda>x. \<not> lease_released x) (lease_heap c))"

definition open_count_of :: "int \<Rightarrow> controller \<Rightarrow> nat" where
  "open_count_of org c =
     length (filter (\<lambda>x. \<not> lease_released x \<and> lease_org x = org) (lease_heap c))"

text \<open>The counters say how many leases are open, and neither passes its limit.\<close>

definition accounting_ok :: "controller \<Rightarrow> bool" where
  "accounting_ok c \<longleftrightarrow>
     active c = int (open_count c) \<and> active c \<le> max_active c \<and>
     (\<forall>org. get_or (org_active c) org 0 = int (open_count_of org c)) \<and>
     (\<forall>org. get_or (org_active c) org 0 \<le> max_active_per_org c) \<and>
     (\<forall>org n. org_active c org = Some n \<longrightarrow> 0 < n)"

text \<open>The deque holds each waiter once, and only waiters that have not been granted a lease.\<close>

definition queue_ok :: "controller \<Rightarrow> bool" where
  "queue_ok c \<longleftrightarrow>
     distinct (queue c) \<and>
     (\<forall>w \<in> set (queue c). w < length (waiter_heap c) \<and> w_lease (waiter_heap c ! w) = None \<and>
        \<not> w_acquired (waiter_heap c ! w))"

definition gauges_ok :: "controller \<Rightarrow> bool" where
  "gauges_ok c \<longleftrightarrow> active_gauge c = active c \<and> queued_gauge c = int (length (queue c))"

text \<open>No lost wake-up: nobody waits for a slot that could be granted.\<close>

definition none_stranded :: "controller \<Rightarrow> bool" where
  "none_stranded c \<longleftrightarrow>
     (\<forall>w \<in> set (queue c). \<not> w_cancelled (waiter_heap c ! w) \<longrightarrow>
        \<not> can_grant c (w_org (waiter_heap c ! w)))"

definition controller_ok :: "controller \<Rightarrow> bool" where
  "controller_ok c \<longleftrightarrow>
     config_ok c \<and> accounting_ok c \<and> queue_ok c \<and> gauges_ok c \<and> none_stranded c"

lemmas controller_defs = controller_ok_def config_ok_def accounting_ok_def queue_ok_def
  gauges_ok_def none_stranded_def

lemma accountingD:
  assumes "controller_ok c"
  shows "active c = int (open_count c)" and "active c \<le> max_active c"
    and "get_or (org_active c) org 0 = int (open_count_of org c)"
    and "get_or (org_active c) org 0 \<le> max_active_per_org c"
    and "org_active c org = Some n \<Longrightarrow> 0 < n"
  using assms unfolding controller_ok_def accounting_ok_def by blast+

lemma can_grant_iff:
  "can_grant c org \<longleftrightarrow>
     active c < max_active c \<and> get_or (org_active c) org 0 < max_active_per_org c"
  by (auto simp: can_grant_def)

text \<open>Which parts of the state each part of the invariant reads.\<close>

lemma can_grant_frame [simp]:
  "can_grant (c\<lparr>queue := q\<rparr>) org = can_grant c org"
  "can_grant (c\<lparr>waiter_heap := h\<rparr>) org = can_grant c org"
  "can_grant (c\<lparr>queued_gauge := g\<rparr>) org = can_grant c org"
  "can_grant (c\<lparr>lease_heap := lh\<rparr>) org = can_grant c org"
  "can_grant (c\<lparr>rejected_total := rt\<rparr>) org = can_grant c org"
  by (simp_all add: can_grant_iff)

lemma accounting_frame [simp]:
  "accounting_ok (c\<lparr>queue := q\<rparr>) = accounting_ok c"
  "accounting_ok (c\<lparr>waiter_heap := h\<rparr>) = accounting_ok c"
  "accounting_ok (c\<lparr>queued_gauge := g\<rparr>) = accounting_ok c"
  "accounting_ok (c\<lparr>rejected_total := rt\<rparr>) = accounting_ok c"
  by (simp_all add: accounting_ok_def open_count_def open_count_of_def)

lemma queue_ok_frame [simp]:
  "queue_ok (c\<lparr>queued_gauge := g\<rparr>) = queue_ok c"
  "queue_ok (c\<lparr>lease_heap := lh\<rparr>) = queue_ok c"
  "queue_ok (c\<lparr>rejected_total := rt\<rparr>) = queue_ok c"
  by (simp_all add: queue_ok_def)

lemma new_controller_ok:
  assumes "0 \<le> ma" and "\<And>p. per_org = Some p \<Longrightarrow> 0 \<le> p"
  shows "controller_ok (new_controller ma mq wait per_org)"
  using assms
  by (auto simp: new_controller_def controller_defs open_count_def open_count_of_def
      split: option.splits)

subsection \<open>Granting\<close>

lemma grant_frame [simp]:
  "queue (snd (grant c org)) = queue c"
  "waiter_heap (snd (grant c org)) = waiter_heap c"
  "max_active (snd (grant c org)) = max_active c"
  "max_active_per_org (snd (grant c org)) = max_active_per_org c"
  "max_queued (snd (grant c org)) = max_queued c"
  "active (snd (grant c org)) = active c + 1"
  "lease_heap (snd (grant c org)) = lease_heap c @ [new_lease org]"
  "fst (grant c org) = length (lease_heap c)"
  by (simp_all add: grant_def)

lemma grant_accounting:
  assumes "accounting_ok c" and "can_grant c org"
  shows "accounting_ok (snd (grant c org))"
proof -
  have counts: "open_count (snd (grant c org)) = open_count c + 1"
    "\<And>o'. open_count_of o' (snd (grant c org)) = open_count_of o' c + (if o' = org then 1 else 0)"
    by (simp_all add: open_count_def open_count_of_def grant_def new_lease_def)
  have dict: "get_or (org_active (snd (grant c org))) o' 0
      = get_or (org_active c) o' 0 + (if o' = org then 1 else 0)" for o'
    by (simp add: grant_def)
  have pos: "0 \<le> get_or (org_active c) org 0"
    using assms(1) by (simp add: accounting_ok_def)
  from assms show ?thesis
    unfolding accounting_ok_def counts dict
    using pos by (auto simp: can_grant_iff grant_def split: if_splits)
qed

lemma grant_gauge: "gauges_ok c \<Longrightarrow> gauges_ok (snd (grant c org))"
  by (simp add: gauges_ok_def grant_def)

text \<open>A grant only makes others less eligible.\<close>

lemma can_grant_after_grant: "can_grant (snd (grant c org)) o' \<Longrightarrow> can_grant c o'"
  by (auto simp: can_grant_iff grant_def get_or_def split: if_splits option.splits)

lemma grant_ok:
  assumes "controller_ok c" and "can_grant c org"
  shows "controller_ok (snd (grant c org))"
  using assms grant_accounting [of c org] grant_gauge [of c org] can_grant_after_grant [of c org]
  by (auto simp: controller_ok_def config_ok_def queue_ok_def none_stranded_def)

subsection \<open>Entering\<close>

lemma count_rejection_ok [simp]: "controller_ok (count_rejection r c) = controller_ok c"
  by (simp add: count_rejection_def controller_ok_def config_ok_def gauges_ok_def none_stranded_def)

lemma acquire_enter_ok:
  assumes ok: "controller_ok c"
  shows "controller_ok (snd (acquire_enter org now c))"
proof -
  consider (grant) "can_grant c org"
    | (full) "\<not> can_grant c org" "max_queued c \<le> int (length (queue c))"
    | (enqueue) "\<not> can_grant c org" "\<not> max_queued c \<le> int (length (queue c))" by blast
  then show ?thesis
  proof cases
    case grant
    with ok grant_ok [of c org] show ?thesis
      by (simp add: acquire_enter_def case_prod_beta)
  next
    case full
    with ok show ?thesis by (simp add: acquire_enter_def)
  next
    case enqueue
    let ?h = "waiter_heap c @ [new_waiter org now]"
    let ?q = "queue c @ [length (waiter_heap c)]"
    have old: "?h ! w = waiter_heap c ! w" if "w \<in> set (queue c)" for w
      using that ok by (auto simp: controller_defs nth_append)
    have "queue_ok (c\<lparr>waiter_heap := ?h, queue := ?q\<rparr>)"
      using ok old by (auto simp: controller_ok_def queue_ok_def new_waiter_def)
    moreover have "none_stranded (c\<lparr>waiter_heap := ?h, queue := ?q\<rparr>)"
      using ok old enqueue(1) by (auto simp: controller_ok_def none_stranded_def new_waiter_def)
    ultimately show ?thesis
      using ok enqueue
      by (simp add: acquire_enter_def Let_def controller_ok_def config_ok_def gauges_ok_def
          none_stranded_def)
  qed
qed

subsection \<open>Waking waiters\<close>

lemma find_eligible_Some:
  assumes "find_eligible c ws = Some i"
  shows "i < length ws" and "\<not> w_cancelled (waiter_heap c ! (ws ! i))"
    and "get_or (org_active c) (w_org (waiter_heap c ! (ws ! i))) 0 < max_active_per_org c"
  using assms by (induction ws arbitrary: i) (auto split: if_splits)

text \<open>FIFO: everybody in front of the waiter that is chosen is cancelled or at its quota.\<close>

lemma find_eligible_first:
  assumes "find_eligible c ws = Some i" and "j < i"
  shows "w_cancelled (waiter_heap c ! (ws ! j)) \<or>
    max_active_per_org c \<le> get_or (org_active c) (w_org (waiter_heap c ! (ws ! j))) 0"
  using assms
proof (induction ws arbitrary: i j)
  case (Cons w ws)
  show ?case
  proof (cases j)
    case 0
    with Cons.prems show ?thesis by (auto split: if_splits)
  next
    case (Suc j')
    with Cons.prems obtain i' where "find_eligible c ws = Some i'" "j' < i'"
      by (auto split: if_splits)
    from Cons.IH [OF this] Suc show ?thesis by simp
  qed
qed simp

lemma find_eligible_None:
  assumes "find_eligible c ws = None" and "w \<in> set ws"
  shows "w_cancelled (waiter_heap c ! w) \<or>
    max_active_per_org c \<le> get_or (org_active c) (w_org (waiter_heap c ! w)) 0"
  using assms by (induction ws) (auto split: if_splits)

text \<open>What one grant to a queued waiter changes, for the part of the invariant kept in the loop.\<close>

definition loop_ok :: "controller \<Rightarrow> bool" where
  "loop_ok c \<longleftrightarrow> config_ok c \<and> accounting_ok c \<and> queue_ok c \<and> active_gauge c = active c"

lemma set_remove_nth:
  "distinct xs \<Longrightarrow> i < length xs \<Longrightarrow> set (take i xs @ drop (Suc i) xs) = set xs - {xs ! i}"
proof -
  assume "distinct xs" and "i < length xs"
  then have "distinct (take i xs @ xs ! i # drop (Suc i) xs)"
    and "set xs = set (take i xs @ xs ! i # drop (Suc i) xs)"
    by (simp_all add: id_take_nth_drop [symmetric])
  then show ?thesis by auto
qed

lemma grant_waiter_loop_ok:
  assumes ok: "loop_ok c" and found: "find_eligible c (queue c) = Some i"
    and free: "active c < max_active c"
  shows "loop_ok (grant_waiter i c)"
proof -
  let ?w = "queue c ! i"
  let ?org = "w_org (waiter_heap c ! ?w)"
  let ?c = "snd (grant c ?org)"
  note el = find_eligible_Some [OF found]
  have q: "distinct (queue c)" using ok by (simp add: loop_ok_def queue_ok_def)
  have "can_grant c ?org" using el(3) free by (simp add: can_grant_iff)
  then have acc: "accounting_ok ?c"
    using ok grant_accounting by (simp add: loop_ok_def)
  have "distinct (take i (queue c) @ drop (Suc i) (queue c))"
    using q by (simp add: distinct_take distinct_drop set_take_disj_set_drop_if_distinct)
  moreover have "set (take i (queue c) @ drop (Suc i) (queue c)) = set (queue c) - {?w}"
    using q el(1) by (rule set_remove_nth)
  ultimately have "queue_ok (grant_waiter i c)"
    using ok by (auto simp: loop_ok_def queue_ok_def grant_waiter_def grant_def Let_def)
  moreover have "accounting_ok (grant_waiter i c)"
    using acc by (simp add: grant_waiter_def grant_def Let_def)
  ultimately show ?thesis
    using ok by (simp add: loop_ok_def grant_waiter_def grant_def Let_def config_ok_def)
qed

lemma grant_loop_ok: "loop_ok c \<Longrightarrow> loop_ok (grant_loop c)"
proof (induction c rule: grant_loop.induct)
  case (1 c)
  show ?case
  proof (cases "queue c \<noteq> [] \<and> active c < max_active c")
    case False
    with 1 show ?thesis by (subst grant_loop.simps) auto
  next
    case True
    show ?thesis
    proof (cases "find_eligible c (queue c)")
      case None
      with 1 show ?thesis by (subst grant_loop.simps) auto
    next
      case (Some i)
      from "1.IH" [OF True Some grant_waiter_loop_ok [OF "1.prems" Some]] True Some
      show ?thesis by (subst grant_loop.simps) simp
    qed
  qed
qed

lemma grant_loop_none_stranded: "none_stranded (grant_loop c)"
proof (induction c rule: grant_loop.induct)
  case (1 c)
  show ?case
  proof (cases "queue c \<noteq> [] \<and> active c < max_active c")
    case False
    then have "none_stranded c" by (auto simp: none_stranded_def can_grant_iff)
    with False show ?thesis by (subst grant_loop.simps) auto
  next
    case True
    show ?thesis
    proof (cases "find_eligible c (queue c)")
      case None
      then have "none_stranded c"
        by (auto simp: none_stranded_def can_grant_iff dest: find_eligible_None)
      with True None show ?thesis by (subst grant_loop.simps) simp
    next
      case (Some i)
      with True 1 show ?thesis by (subst grant_loop.simps) simp
    qed
  qed
qed

lemma try_grant_waiters_ok:
  assumes "loop_ok c"
  shows "controller_ok (try_grant_waiters c)"
proof -
  let ?c = "grant_loop c"
  let ?q = "dropWhile (\<lambda>w. w_cancelled (waiter_heap ?c ! w)) (queue ?c)"
  have "loop_ok ?c" using assms by (rule grant_loop_ok)
  moreover have "set ?q \<subseteq> set (queue ?c)" by (rule set_dropWhileD [THEN subsetI])
  moreover have "none_stranded ?c" by (rule grant_loop_none_stranded)
  ultimately show ?thesis
    by (auto simp: try_grant_waiters_def Let_def controller_ok_def loop_ok_def config_ok_def
        queue_ok_def gauges_ok_def none_stranded_def)
qed

subsection \<open>Releasing\<close>

lemma gauges_frame [simp]:
  "gauges_ok (c\<lparr>lease_heap := lh\<rparr>) = gauges_ok c"
  "gauges_ok (c\<lparr>waiter_heap := h\<rparr>) = gauges_ok c"
  by (simp_all add: gauges_ok_def)

lemma return_slot_ok:
  assumes ok: "controller_ok c" and l: "l < length (lease_heap c)"
    and unreleased: "\<not> lease_released (lease_heap c ! l)"
  shows "loop_ok (return_slot l c)"
proof -
  let ?org = "lease_org (lease_heap c ! l)"
  let ?n = "get_or (org_active c) ?org 0"
  let ?c = "c\<lparr>active := active c - 1,
      org_active := (if ?n \<le> 1 then (org_active c)(?org := None)
                     else (org_active c)(?org \<mapsto> ?n - 1)),
      active_gauge := active c - 1,
      lease_heap := (lease_heap c)[l := (lease_heap c ! l)\<lparr>lease_released := True\<rparr>]\<rparr>"
  have total: "open_count c = open_count ?c + 1"
    using length_filter_update [OF l, of "\<lambda>x. \<not> lease_released x"] unreleased
    by (simp add: open_count_def)
  have per: "open_count_of o' c = open_count_of o' ?c + (if o' = ?org then 1 else 0)" for o'
    using length_filter_update [OF l, of "\<lambda>x. \<not> lease_released x \<and> lease_org x = o'"
        "(lease_heap c ! l)\<lparr>lease_released := True\<rparr>"] unreleased
    by (auto simp: open_count_of_def split: if_splits)
  have n: "?n = int (open_count_of ?org c)"
    using ok by (simp add: controller_ok_def accounting_ok_def)
  then have "1 \<le> ?n" using per [of ?org] by simp
  have dict: "get_or (org_active ?c) o' 0
      = get_or (org_active c) o' 0 - (if o' = ?org then 1 else 0)" for o'
    using \<open>1 \<le> ?n\<close> by simp
  have "accounting_ok ?c"
    unfolding accounting_ok_def
  proof (intro conjI allI impI)
    have "active ?c = active c - 1" and "max_active ?c = max_active c"
      and per_org: "max_active_per_org ?c = max_active_per_org c" by simp_all
    with accountingD(1,2) [OF ok] total
    show "active ?c = int (open_count ?c)" "active ?c \<le> max_active ?c" by linarith+
    show "get_or (org_active ?c) org 0 = int (open_count_of org ?c)" for org
      using accountingD(3) [OF ok, of org] per [of org] unfolding dict by (simp split: if_splits)
    show "get_or (org_active ?c) org 0 \<le> max_active_per_org ?c" for org
      using accountingD(4) [OF ok, of org] unfolding dict per_org by auto
    show "0 < m" if "org_active ?c org = Some m" for org m
      using that accountingD(5) [OF ok] by (auto split: if_splits)
  qed
  then have "loop_ok ?c"
    using ok by (simp add: loop_ok_def controller_ok_def config_ok_def queue_ok_def gauges_ok_def)
  then show ?thesis by (simp add: return_slot_def Let_def)
qed

lemma release_ok:
  assumes "controller_ok c" and "l < length (lease_heap c)"
    and "\<not> lease_released (lease_heap c ! l)"
  shows "controller_ok (release l c)"
  unfolding release_def by (rule try_grant_waiters_ok [OF return_slot_ok [OF assms]])

lemma mark_closed_ok:
  assumes "controller_ok c" and "l < length (lease_heap c)"
  shows "controller_ok (mark_closed l c)"
proof -
  let ?x = "(lease_heap c ! l)\<lparr>lease_closed := True\<rparr>"
  have "open_count (mark_closed l c) = open_count c"
    "\<And>o'. open_count_of o' (mark_closed l c) = open_count_of o' c"
    using assms(2) by (simp_all add: mark_closed_def open_count_def open_count_of_def
        length_filter_update_same)
  moreover have "max_active (mark_closed l c) = max_active c"
    "max_active_per_org (mark_closed l c) = max_active_per_org c"
    "active (mark_closed l c) = active c" "org_active (mark_closed l c) = org_active c"
    by (simp_all add: mark_closed_def)
  ultimately have "accounting_ok (mark_closed l c) = accounting_ok c"
    by (simp only: accounting_ok_def)
  with assms(1) show ?thesis
    by (simp add: controller_ok_def mark_closed_def config_ok_def none_stranded_def)
qed

lemma close_ok:
  assumes "controller_ok c" and "l < length (lease_heap c)"
    and "\<not> lease_closed (lease_heap c ! l) \<Longrightarrow> \<not> lease_released (lease_heap c ! l)"
  shows "controller_ok (close l c)"
proof (cases "lease_closed (lease_heap c ! l)")
  case True
  with assms(1) show ?thesis by (simp add: close_def)
next
  case False
  then have "controller_ok (release l (mark_closed l c))"
    using assms by (intro release_ok mark_closed_ok) (simp_all add: mark_closed_def)
  with False show ?thesis by (simp add: close_def)
qed

lemma remove_waiter_ok:
  assumes "controller_ok c"
  shows "controller_ok (remove_waiter w c)"
  using assms set_remove1_subset [of w "queue c"]
  by (auto simp: remove_waiter_def Let_def controller_ok_def config_ok_def queue_ok_def
      gauges_ok_def none_stranded_def)

end
