(* ===== verification/AdmissionThreads.thy ===== *)
theory AdmissionThreads
  imports Admission
begin

text \<open>
  The threads that call \<open>AdmissionController.acquire\<close> and \<open>AdmissionLease.close\<close>. What the
  source does under the condition lock is one step; what it does outside the lock (the check
  of the remaining time, the wait on the waiter's event, the reads of \<open>cancelled\<close>,
  \<open>acquired\<close> and \<open>lease\<close> after it) are steps of their own, so that every interleaving the
  code allows is a run of \<open>thread_step\<close>.
\<close>

section \<open>Program counters\<close>

type_synonym thread = nat

datatype pc =
    Idle
  | Queued waiter_ref seconds        \<comment> \<open>enqueued, lock released, deadline not yet checked\<close>
  | Waiting waiter_ref seconds       \<comment> \<open>inside \<open>event.wait\<close>\<close>
  | Woken waiter_ref                 \<comment> \<open>\<open>event.wait\<close> has returned\<close>
  | Removing waiter_ref reject_reason \<comment> \<open>about to remove the waiter and raise\<close>
  | Running lease_ref                \<comment> \<open>\<open>acquire\<close> returned this lease\<close>
  | Closing lease_ref                \<comment> \<open>\<open>close\<close> has set the flag, \<open>_release\<close> not yet run\<close>
  | Finished
  | Failed reject_reason

record system =
  ctl :: controller
  pcs :: "thread \<Rightarrow> pc"
  now :: seconds

definition initial :: "controller \<Rightarrow> seconds \<Rightarrow> system" where
  "initial c t0 = \<lparr>ctl = c, pcs = (\<lambda>_. Idle), now = t0\<rparr>"

text \<open>\<open>deadline if deadline is not None else time.monotonic() + self._max_queue_wait_seconds\<close>\<close>

definition effective_deadline :: "controller \<Rightarrow> seconds \<Rightarrow> seconds option \<Rightarrow> seconds" where
  "effective_deadline c t d = (case d of Some x \<Rightarrow> x | None \<Rightarrow> t + max_queue_wait_seconds c)"

definition after_enter :: "seconds \<Rightarrow> enter_result \<Rightarrow> pc" where
  "after_enter d r =
     (case r of Granted l \<Rightarrow> Running l | Enqueued w \<Rightarrow> Queued w d | Refused reason _ \<Rightarrow> Failed reason)"

section \<open>Steps\<close>

inductive thread_step :: "system \<Rightarrow> system \<Rightarrow> bool" where
  call: "pcs s t = Idle \<Longrightarrow> acquire_enter org (now s) (ctl s) = (r, c') \<Longrightarrow>
     thread_step s (s\<lparr>ctl := c',
       pcs := (pcs s)(t := after_enter (effective_deadline (ctl s) (now s) d) r)\<rparr>)"
| already_expired: "pcs s t = Queued w d \<Longrightarrow> d - now s \<le> 0 \<Longrightarrow>
     thread_step s (s\<lparr>pcs := (pcs s)(t := Removing w Timeout)\<rparr>)"
| start_wait: "pcs s t = Queued w d \<Longrightarrow> 0 < d - now s \<Longrightarrow>
     thread_step s (s\<lparr>pcs := (pcs s)(t := Waiting w d)\<rparr>)"
| event_set: "pcs s t = Waiting w d \<Longrightarrow> w_event (waiter_heap (ctl s) ! w) \<Longrightarrow>
     thread_step s (s\<lparr>pcs := (pcs s)(t := Woken w)\<rparr>)"
| event_timeout: "pcs s t = Waiting w d \<Longrightarrow> d \<le> now s \<Longrightarrow>
     thread_step s (s\<lparr>pcs := (pcs s)(t := Woken w)\<rparr>)"
| woken_cancelled: "pcs s t = Woken w \<Longrightarrow> w_cancelled (waiter_heap (ctl s) ! w) \<Longrightarrow>
     thread_step s (s\<lparr>pcs := (pcs s)(t := Removing w Cancelled)\<rparr>)"
| woken_granted: "pcs s t = Woken w \<Longrightarrow> \<not> w_cancelled (waiter_heap (ctl s) ! w) \<Longrightarrow>
     w_acquired (waiter_heap (ctl s) ! w) \<Longrightarrow> w_lease (waiter_heap (ctl s) ! w) = Some l \<Longrightarrow>
     thread_step s (s\<lparr>pcs := (pcs s)(t := Running l)\<rparr>)"
| woken_timeout: "pcs s t = Woken w \<Longrightarrow> \<not> w_cancelled (waiter_heap (ctl s) ! w) \<Longrightarrow>
     \<not> (w_acquired (waiter_heap (ctl s) ! w) \<and> w_lease (waiter_heap (ctl s) ! w) \<noteq> None) \<Longrightarrow>
     thread_step s (s\<lparr>pcs := (pcs s)(t := Removing w Timeout)\<rparr>)"
| remove: "pcs s t = Removing w reason \<Longrightarrow>
     thread_step s (s\<lparr>ctl := count_rejection reason (remove_waiter w (ctl s)),
       pcs := (pcs s)(t := Failed reason)\<rparr>)"
| close_flag: "pcs s t = Running l \<Longrightarrow> \<not> lease_closed (lease_heap (ctl s) ! l) \<Longrightarrow>
     thread_step s (s\<lparr>ctl := mark_closed l (ctl s), pcs := (pcs s)(t := Closing l)\<rparr>)"
| close_release: "pcs s t = Closing l \<Longrightarrow>
     thread_step s (s\<lparr>ctl := release l (ctl s), pcs := (pcs s)(t := Finished)\<rparr>)"
| tick: "now s \<le> t' \<Longrightarrow> thread_step s (s\<lparr>now := t'\<rparr>)"

text \<open>The lease a thread holds, or will be handed by the waiter it waits on.\<close>

fun holds :: "controller \<Rightarrow> pc \<Rightarrow> lease_ref option" where
  "holds c (Running l) = Some l"
| "holds c (Closing l) = Some l"
| "holds c (Queued w d) = w_lease (waiter_heap c ! w)"
| "holds c (Waiting w d) = w_lease (waiter_heap c ! w)"
| "holds c (Woken w) = w_lease (waiter_heap c ! w)"
| "holds c _ = None"

fun waits_on :: "pc \<Rightarrow> waiter_ref option" where
  "waits_on (Queued w d) = Some w"
| "waits_on (Waiting w d) = Some w"
| "waits_on (Woken w) = Some w"
| "waits_on (Removing w r) = Some w"
| "waits_on _ = None"

section \<open>What the controller's operations do to the heaps\<close>

text \<open>
  Waking waiters appends fresh leases and hands each to one waiter of the deque, which leaves
  it; every other waiter keeps what it had.
\<close>

definition hands_out :: "controller \<Rightarrow> controller \<Rightarrow> bool" where
  "hands_out c c' \<longleftrightarrow>
     (\<exists>ns. lease_heap c' = lease_heap c @ ns \<and>
        (\<forall>x \<in> set ns. \<not> lease_closed x \<and> \<not> lease_released x)) \<and>
     length (waiter_heap c') = length (waiter_heap c) \<and>
     set (queue c') \<subseteq> set (queue c) \<and>
     (\<forall>w < length (waiter_heap c).
        (w_lease (waiter_heap c' ! w) = w_lease (waiter_heap c ! w) \<and>
         w_acquired (waiter_heap c' ! w) = w_acquired (waiter_heap c ! w)) \<or>
        (w_acquired (waiter_heap c' ! w) \<and> (\<exists>l. w_lease (waiter_heap c' ! w) = Some l \<and>
           length (lease_heap c) \<le> l \<and> l < length (lease_heap c')))) \<and>
     (\<forall>w w' l. w < length (waiter_heap c) \<longrightarrow> w' < length (waiter_heap c) \<longrightarrow>
        w_lease (waiter_heap c' ! w) = Some l \<longrightarrow> w_lease (waiter_heap c' ! w') = Some l \<longrightarrow>
        length (lease_heap c) \<le> l \<longrightarrow> w = w')"

text \<open>Leases recorded in waiters exist.\<close>

definition leases_in_range :: "controller \<Rightarrow> bool" where
  "leases_in_range c \<longleftrightarrow>
     (\<forall>w < length (waiter_heap c). \<forall>l. w_lease (waiter_heap c ! w) = Some l \<longrightarrow>
        l < length (lease_heap c))"

lemma hands_out_refl: "leases_in_range c \<Longrightarrow> hands_out c c"
  by (auto simp: hands_out_def leases_in_range_def)

lemma hands_out_range: "hands_out c c' \<Longrightarrow> leases_in_range c \<Longrightarrow> leases_in_range c'"
  unfolding hands_out_def leases_in_range_def
  by (auto simp: nth_append) (metis option.inject trans_less_add1)

lemma hands_out_waiter:
  "hands_out a b \<Longrightarrow> w < length (waiter_heap a) \<Longrightarrow>
     w_lease (waiter_heap b ! w) = w_lease (waiter_heap a ! w) \<and>
       w_acquired (waiter_heap b ! w) = w_acquired (waiter_heap a ! w) \<or>
     w_acquired (waiter_heap b ! w) \<and> (\<exists>l. w_lease (waiter_heap b ! w) = Some l \<and>
       length (lease_heap a) \<le> l \<and> l < length (lease_heap b))"
  by (simp add: hands_out_def)

lemma hands_out_heaps:
  assumes "hands_out a b"
  obtains ns where "lease_heap b = lease_heap a @ ns" "\<forall>x \<in> set ns. \<not> lease_closed x \<and> \<not> lease_released x"
    "length (waiter_heap b) = length (waiter_heap a)"
  using assms unfolding hands_out_def by blast

lemma hands_out_trans:
  assumes "hands_out a b" and "hands_out b c"
  shows "hands_out a c"
proof -
  obtain ns ms where heaps: "lease_heap b = lease_heap a @ ns" "lease_heap c = lease_heap b @ ms"
    and fresh: "\<forall>x \<in> set ns \<union> set ms. \<not> lease_closed x \<and> \<not> lease_released x"
    and len: "length (waiter_heap c) = length (waiter_heap a)" "length (waiter_heap b) = length (waiter_heap a)"
    by (rule hands_out_heaps [OF assms(1)], rule hands_out_heaps [OF assms(2)]) auto
  note ab = hands_out_waiter [OF assms(1)]
  note bc = hands_out_waiter [OF assms(2), unfolded len]
  show ?thesis
    unfolding hands_out_def
  proof (intro conjI allI impI)
    show "\<exists>ns. lease_heap c = lease_heap a @ ns \<and>
        (\<forall>x \<in> set ns. \<not> lease_closed x \<and> \<not> lease_released x)"
      using heaps fresh by (intro exI [of _ "ns @ ms"]) auto
    show "length (waiter_heap c) = length (waiter_heap a)" by (fact len)
    show "set (queue c) \<subseteq> set (queue a)" using assms by (auto simp: hands_out_def)
    show "w_lease (waiter_heap c ! w) = w_lease (waiter_heap a ! w) \<and>
         w_acquired (waiter_heap c ! w) = w_acquired (waiter_heap a ! w) \<or>
      w_acquired (waiter_heap c ! w) \<and> (\<exists>l. w_lease (waiter_heap c ! w) = Some l \<and>
           length (lease_heap a) \<le> l \<and> l < length (lease_heap c))"
      if "w < length (waiter_heap a)" for w
      using ab [OF that] bc [OF that] heaps by auto
    show "w = w'" if w: "w < length (waiter_heap a)" "w' < length (waiter_heap a)"
      "w_lease (waiter_heap c ! w) = Some l" "w_lease (waiter_heap c ! w') = Some l"
      "length (lease_heap a) \<le> l" for w w' l
    proof (cases "length (lease_heap b) \<le> l")
      case True
      with assms(2) w len show ?thesis unfolding hands_out_def by metis
    next
      case False
      with bc [OF w(1)] bc [OF w(2)] w(3,4)
      have "w_lease (waiter_heap b ! w) = Some l" "w_lease (waiter_heap b ! w') = Some l" by auto
      with assms(1) w(1,2,5) show ?thesis unfolding hands_out_def by metis
    qed
  qed
qed

lemma grant_waiter_hands_out:
  assumes "loop_ok c" and "leases_in_range c" and "find_eligible c (queue c) = Some i"
  shows "hands_out c (grant_waiter i c)"
proof -
  let ?w = "queue c ! i"
  have "i < length (queue c)" using find_eligible_Some(1) [OF assms(3)] .
  then have w: "?w \<in> set (queue c)" by simp
  then have range: "?w < length (waiter_heap c)"
    using assms(1) by (simp add: loop_ok_def queue_ok_def)
  have "set (take i (queue c) @ drop (Suc i) (queue c)) \<subseteq> set (queue c)"
    by (auto dest: in_set_takeD in_set_dropD)
  with range assms(2) show ?thesis
    unfolding hands_out_def leases_in_range_def
    by (auto simp: grant_waiter_def grant_def Let_def new_lease_def nth_list_update
        dest: in_set_takeD in_set_dropD split: if_splits)
qed

lemma grant_loop_hands_out:
  "loop_ok c \<Longrightarrow> leases_in_range c \<Longrightarrow> hands_out c (grant_loop c)"
proof (induction c rule: grant_loop.induct)
  case (1 c)
  show ?case
  proof (cases "(queue c \<noteq> [] \<and> active c < max_active c) \<and> find_eligible c (queue c) \<noteq> None")
    case False
    then have "grant_loop c = c" by (subst grant_loop.simps) auto
    with 1 show ?thesis by (simp add: hands_out_refl)
  next
    case True
    then obtain i where i: "find_eligible c (queue c) = Some i" by blast
    note one = grant_waiter_hands_out [OF "1.prems" i]
    have "loop_ok (grant_waiter i c)" using "1.prems"(1) i True by (blast intro: grant_waiter_loop_ok)
    with "1.IH" [of i] True i one "1.prems"
    have "hands_out (grant_waiter i c) (grant_loop (grant_waiter i c))"
      by (blast intro: hands_out_range)
    with one have "hands_out c (grant_loop (grant_waiter i c))" by (rule hands_out_trans)
    with True i show ?thesis by (subst grant_loop.simps) simp
  qed
qed

section \<open>The system invariant\<close>

text \<open>
  Every lease has at most one owner (a thread that runs with it, is closing it, or waits on
  the waiter that was handed it); owned leases are not released, and closed exactly while
  their owner is between the two halves of \<open>close\<close>; threads wait on distinct waiters.
\<close>

definition owners_ok :: "system \<Rightarrow> bool" where
  "owners_ok s \<longleftrightarrow>
     (\<forall>t l. holds (ctl s) (pcs s t) = Some l \<longrightarrow>
        l < length (lease_heap (ctl s)) \<and> \<not> lease_released (lease_heap (ctl s) ! l) \<and>
        (lease_closed (lease_heap (ctl s) ! l) \<longleftrightarrow> pcs s t = Closing l)) \<and>
     (\<forall>t u l. holds (ctl s) (pcs s t) = Some l \<longrightarrow> holds (ctl s) (pcs s u) = Some l \<longrightarrow> t = u)"

definition waiters_ok :: "system \<Rightarrow> bool" where
  "waiters_ok s \<longleftrightarrow>
     (\<forall>t w. waits_on (pcs s t) = Some w \<longrightarrow> w < length (waiter_heap (ctl s))) \<and>
     (\<forall>t u w. waits_on (pcs s t) = Some w \<longrightarrow> waits_on (pcs s u) = Some w \<longrightarrow> t = u) \<and>
     (\<forall>w < length (waiter_heap (ctl s)).
        w_acquired (waiter_heap (ctl s) ! w) \<longleftrightarrow> w_lease (waiter_heap (ctl s) ! w) \<noteq> None)"

definition system_ok :: "system \<Rightarrow> bool" where
  "system_ok s \<longleftrightarrow>
     controller_ok (ctl s) \<and> leases_in_range (ctl s) \<and> owners_ok s \<and> waiters_ok s"

lemma ownersD:
  assumes "system_ok s" and "holds (ctl s) (pcs s t) = Some l"
  shows "l < length (lease_heap (ctl s))" and "\<not> lease_released (lease_heap (ctl s) ! l)"
    and "lease_closed (lease_heap (ctl s) ! l) \<longleftrightarrow> pcs s t = Closing l"
    and "holds (ctl s) (pcs s u) = Some l \<Longrightarrow> u = t"
  using assms unfolding system_ok_def owners_ok_def by blast+

lemma waitersD:
  assumes "system_ok s" and "waits_on (pcs s t) = Some w"
  shows "w < length (waiter_heap (ctl s))" and "waits_on (pcs s u) = Some w \<Longrightarrow> u = t"
  using assms unfolding system_ok_def waiters_ok_def by blast+

lemma holds_waits_on: "waits_on p = Some w \<Longrightarrow> holds c p = w_lease (waiter_heap c ! w) \<or> holds c p = None"
  by (cases p) auto

lemma holds_cases:
  "holds c p = Some l \<Longrightarrow> p = Running l \<or> p = Closing l \<or>
     (\<exists>w. waits_on p = Some w \<and> w_lease (waiter_heap c ! w) = Some l \<and>
        (\<forall>c'. holds c' p = w_lease (waiter_heap c' ! w)))"
  by (cases p) auto

lemma system_okI:
  assumes "controller_ok (ctl s)" and "leases_in_range (ctl s)"
    and "\<And>t l. holds (ctl s) (pcs s t) = Some l \<Longrightarrow>
        l < length (lease_heap (ctl s)) \<and> \<not> lease_released (lease_heap (ctl s) ! l) \<and>
        (lease_closed (lease_heap (ctl s) ! l) \<longleftrightarrow> pcs s t = Closing l)"
    and "\<And>t u l. holds (ctl s) (pcs s t) = Some l \<Longrightarrow> holds (ctl s) (pcs s u) = Some l \<Longrightarrow> t = u"
    and "\<And>t w. waits_on (pcs s t) = Some w \<Longrightarrow> w < length (waiter_heap (ctl s))"
    and "\<And>t u w. waits_on (pcs s t) = Some w \<Longrightarrow> waits_on (pcs s u) = Some w \<Longrightarrow> t = u"
    and "\<And>w. w < length (waiter_heap (ctl s)) \<Longrightarrow>
        w_acquired (waiter_heap (ctl s) ! w) \<longleftrightarrow> w_lease (waiter_heap (ctl s) ! w) \<noteq> None"
  shows "system_ok s"
  unfolding system_ok_def owners_ok_def waiters_ok_def using assms by blast

lemma system_okD:
  assumes "system_ok s"
  shows "controller_ok (ctl s)" and "leases_in_range (ctl s)"
    and "w < length (waiter_heap (ctl s)) \<Longrightarrow>
        w_acquired (waiter_heap (ctl s) ! w) \<longleftrightarrow> w_lease (waiter_heap (ctl s) ! w) \<noteq> None"
  using assms unfolding system_ok_def waiters_ok_def by blast+

text \<open>Steps that only move one thread's program counter.\<close>

lemma move_ok:
  assumes ok: "system_ok s"
    and h: "holds (ctl s) p = None \<or> holds (ctl s) p = holds (ctl s) (pcs s t)"
    and w: "waits_on p = None \<or> waits_on p = waits_on (pcs s t)"
    and c: "\<And>l. p \<noteq> Closing l" "\<And>l. pcs s t \<noteq> Closing l"
  shows "system_ok (s\<lparr>pcs := (pcs s)(t := p)\<rparr>)"
proof -
  have hb: "holds (ctl s) (pcs s u) = Some l" if "holds (ctl s) (((pcs s)(t := p)) u) = Some l"
    for u l using that h by (auto split: if_splits)
  have wb: "waits_on (pcs s u) = Some w" if "waits_on (((pcs s)(t := p)) u) = Some w"
    for u w using that w by (auto split: if_splits)
  have closing: "((pcs s)(t := p)) u = Closing l \<longleftrightarrow> pcs s u = Closing l" for u l
    using c by auto
  show ?thesis
  proof (rule system_okI, goal_cases)
    case (3 u l)
    then have "holds (ctl s) (pcs s u) = Some l" using hb by (simp del: fun_upd_apply)
    from ownersD [OF ok this] show ?case by (simp add: closing del: fun_upd_apply)
  next
    case (4 u v l)
    then have "holds (ctl s) (pcs s u) = Some l" "holds (ctl s) (pcs s v) = Some l"
      using hb by (simp_all del: fun_upd_apply)
    then show ?case using ownersD(4) [OF ok] by blast
  next
    case (5 u w)
    then show ?case using waitersD(1) [OF ok wb] by (simp del: fun_upd_apply)
  next
    case (6 u v w)
    then have "waits_on (pcs s u) = Some w" "waits_on (pcs s v) = Some w" using wb by (simp_all del: fun_upd_apply)
    then show ?case using waitersD(2) [OF ok] by blast
  qed (use system_okD [OF ok] in simp_all)
qed

section \<open>Every step keeps the invariant\<close>

lemma try_grant_waiters_hands_out:
  assumes "loop_ok c" and "leases_in_range c"
  shows "hands_out c (try_grant_waiters c)"
  using grant_loop_hands_out [OF assms]
  by (auto simp: hands_out_def try_grant_waiters_def Let_def dest: set_dropWhileD)

lemma hands_out_lease:
  assumes "hands_out c c'" and "l < length (lease_heap c)"
  shows "lease_heap c' ! l = lease_heap c ! l" and "l < length (lease_heap c')"
  using assms by (auto simp: hands_out_def nth_append)

lemma hands_out_fresh:
  assumes "hands_out c c'" and "length (lease_heap c) \<le> l" and "l < length (lease_heap c')"
  shows "\<not> lease_closed (lease_heap c' ! l) \<and> \<not> lease_released (lease_heap c' ! l)"
proof -
  from assms(1) obtain ns where ns: "lease_heap c' = lease_heap c @ ns"
    "\<forall>x \<in> set ns. \<not> lease_closed x \<and> \<not> lease_released x"
    unfolding hands_out_def by blast
  with assms(2,3) have "lease_heap c' ! l \<in> set ns" by (simp add: nth_append)
  with ns show ?thesis by blast
qed

text \<open>What a thread holds after leases were handed out: what it held before, or a fresh lease.\<close>

lemma hands_out_holds:
  assumes "hands_out c c'" and "\<And>w. waits_on p = Some w \<Longrightarrow> w < length (waiter_heap c)"
    and "holds c' p = Some l"
  shows "holds c p = Some l \<or>
    (length (lease_heap c) \<le> l \<and> l < length (lease_heap c') \<and>
     (\<exists>w. waits_on p = Some w \<and> w_lease (waiter_heap c' ! w) = Some l) \<and> p \<noteq> Closing l)"
  using holds_cases [OF assms(3)]
proof (elim disjE exE conjE)
  fix w
  assume w: "waits_on p = Some w" "w_lease (waiter_heap c' ! w) = Some l"
    "\<forall>c'. holds c' p = w_lease (waiter_heap c' ! w)"
  have "w < length (waiter_heap c)" using assms(2) w(1) .
  then consider "w_lease (waiter_heap c' ! w) = w_lease (waiter_heap c ! w)"
    | "length (lease_heap c) \<le> l \<and> l < length (lease_heap c')"
    using assms(1) w(2) unfolding hands_out_def by (metis option.inject)
  then show ?thesis using w by cases auto
qed auto

text \<open>
  Giving a lease back: the waiters stay, and a lease that a thread holds afterwards it held before, or it is fresh and
  was handed to the waiter the thread waits on.
\<close>

lemma return_slot_heaps:
  "lease_heap (return_slot l c) = (lease_heap c)[l := (lease_heap c ! l)\<lparr>lease_released := True\<rparr>]"
  "waiter_heap (return_slot l c) = waiter_heap c"
  "holds (return_slot l c) p = holds c p"
  by (simp_all add: return_slot_def Let_def) (cases p; simp add: return_slot_def Let_def)

lemma release_hands_out:
  assumes ok: "system_ok s" and hl: "holds (ctl s) (pcs s t) = Some l"
  shows "hands_out (return_slot l (ctl s)) (release l (ctl s))" and "leases_in_range (release l (ctl s))"
proof -
  have range: "leases_in_range (return_slot l (ctl s))"
    using system_okD(2) [OF ok] by (simp add: leases_in_range_def return_slot_heaps)
  show out: "hands_out (return_slot l (ctl s)) (release l (ctl s))"
    unfolding release_def
    using try_grant_waiters_hands_out [OF return_slot_ok range] system_okD(1) [OF ok] ownersD [OF ok hl] by blast
  show "leases_in_range (release l (ctl s))" using hands_out_range [OF out range] .
qed

lemma release_holds:
  assumes ok: "system_ok s" and hl: "holds (ctl s) (pcs s t) = Some l" and u: "u \<noteq> t"
    and k: "holds (release l (ctl s)) (pcs s u) = Some k"
  shows "(holds (ctl s) (pcs s u) = Some k \<and> k \<noteq> l) \<or>
    (length (lease_heap (ctl s)) \<le> k \<and> k < length (lease_heap (release l (ctl s))) \<and> pcs s u \<noteq> Closing k \<and>
     (\<exists>w. waits_on (pcs s u) = Some w \<and> w_lease (waiter_heap (release l (ctl s)) ! w) = Some k))"
proof -
  have "holds (ctl s) (pcs s u) \<noteq> Some l" using ownersD(4) [OF ok hl] u by blast
  then show ?thesis
    using hands_out_holds [OF release_hands_out(1) [OF ok hl] _ k] waitersD(1) [OF ok, of u]
    by (auto simp: return_slot_heaps)
qed

lemma release_lease:
  assumes ok: "system_ok s" and t: "pcs s t = Closing l" and u: "u \<noteq> t"
    and k: "holds (release l (ctl s)) (pcs s u) = Some k"
  shows "k < length (lease_heap (release l (ctl s))) \<and> \<not> lease_released (lease_heap (release l (ctl s)) ! k) \<and>
    (lease_closed (lease_heap (release l (ctl s)) ! k) \<longleftrightarrow> pcs s u = Closing k)"
proof -
  have hl: "holds (ctl s) (pcs s t) = Some l" using t by simp
  note out = release_hands_out(1) [OF ok hl]
  from release_holds [OF ok hl u k] show ?thesis
  proof (elim disjE conjE)
    assume before: "holds (ctl s) (pcs s u) = Some k" "k \<noteq> l"
    have "k < length (lease_heap (return_slot l (ctl s)))"
      using ownersD(1) [OF ok before(1)] by (simp add: return_slot_heaps)
    from hands_out_lease [OF out this] ownersD(1-3) [OF ok before(1)] before(2) show ?thesis
      by (simp add: return_slot_heaps)
  next
    assume fresh: "length (lease_heap (ctl s)) \<le> k" "k < length (lease_heap (release l (ctl s)))" "pcs s u \<noteq> Closing k"
    from hands_out_fresh [OF out _ fresh(2)] fresh show ?thesis by (simp add: return_slot_heaps)
  qed
qed

lemma release_unique:
  assumes ok: "system_ok s" and hl: "holds (ctl s) (pcs s t) = Some l"
    and u: "u \<noteq> t" "holds (release l (ctl s)) (pcs s u) = Some k"
    and v: "v \<noteq> t" "holds (release l (ctl s)) (pcs s v) = Some k"
  shows "u = v"
  using release_holds [OF ok hl u] release_holds [OF ok hl v]
proof (elim disjE conjE exE)
  assume "holds (ctl s) (pcs s u) = Some k" "holds (ctl s) (pcs s v) = Some k"
  then show ?thesis using ownersD(4) [OF ok] by blast
next
  fix w w'
  assume w: "waits_on (pcs s u) = Some w" "w_lease (waiter_heap (release l (ctl s)) ! w) = Some k"
    "waits_on (pcs s v) = Some w'" "w_lease (waiter_heap (release l (ctl s)) ! w') = Some k"
    and big: "length (lease_heap (ctl s)) \<le> k"
  have "w < length (waiter_heap (ctl s))" "w' < length (waiter_heap (ctl s))"
    using waitersD(1) [OF ok] w by blast+
  with w big release_hands_out(1) [OF ok hl] have "w = w'"
    unfolding hands_out_def return_slot_heaps length_list_update by blast
  with w show ?thesis using waitersD(2) [OF ok] by blast
qed (use ownersD(1) [OF ok] in force)+

lemma release_step_ok:
  assumes ok: "system_ok s" and t: "pcs s t = Closing l"
  shows "system_ok (s\<lparr>ctl := release l (ctl s), pcs := (pcs s)(t := Finished)\<rparr>)"
proof -
  let ?c' = "release l (ctl s)"
  have hl: "holds (ctl s) (pcs s t) = Some l" using t by simp
  note out = release_hands_out [OF ok hl]
  have len: "length (waiter_heap ?c') = length (waiter_heap (ctl s))"
    using out by (simp add: hands_out_def return_slot_heaps)
  show ?thesis
  proof (rule system_okI, goal_cases)
    case 1
    then show ?case using release_ok system_okD(1) [OF ok] ownersD [OF ok hl] by simp
  next
    case 2
    then show ?case using out by simp
  next
    case (3 u k)
    then show ?case using release_lease [OF ok t, of u k] by (auto split: if_splits)
  next
    case (4 u v k)
    then show ?case using release_unique [OF ok hl, of u k v] by (auto split: if_splits)
  next
    case (5 u w)
    then show ?case using waitersD(1) [OF ok, of u w] by (auto simp: len split: if_splits)
  next
    case (6 u v w)
    then show ?case using waitersD(2) [OF ok, of u w v] by (auto split: if_splits)
  next
    case (7 w)
    with system_okD(3) [OF ok, of w] out(1) len show ?case
      unfolding hands_out_def by (simp add: return_slot_heaps) (metis option.distinct(1))
  qed
qed

lemma close_flag_step_ok:
  assumes ok: "system_ok s" and t: "pcs s t = Running l"
  shows "system_ok (s\<lparr>ctl := mark_closed l (ctl s), pcs := (pcs s)(t := Closing l)\<rparr>)"
proof -
  let ?c = "mark_closed l (ctl s)"
  let ?p = "(pcs s)(t := Closing l)"
  have hl: "holds (ctl s) (pcs s t) = Some l" using t by simp
  note own = ownersD [OF ok hl]
  have heaps: "waiter_heap ?c = waiter_heap (ctl s)"
    "lease_heap ?c = (lease_heap (ctl s))[l := (lease_heap (ctl s) ! l)\<lparr>lease_closed := True\<rparr>]"
    by (simp_all add: mark_closed_def)
  have same: "holds ?c p = holds (ctl s) p" for p by (cases p) (simp_all add: heaps)
  have hb: "holds (ctl s) (pcs s u) = Some k" if "holds ?c (?p u) = Some k" for u k
    using that t by (auto simp: same split: if_splits)
  have wb: "waits_on (pcs s u) = Some w" if "waits_on (?p u) = Some w" for u w
    using that by (auto split: if_splits)
  show ?thesis
  proof (rule system_okI, goal_cases)
    case 1
    then show ?case using mark_closed_ok system_okD(1) [OF ok] own(1) by simp
  next
    case 2
    then show ?case using system_okD(2) [OF ok] by (simp add: leases_in_range_def heaps)
  next
    case (3 u k)
    then have k: "holds (ctl s) (pcs s u) = Some k" using hb by simp
    from ownersD(1-3) [OF ok k] own(4) [of u] k own(1,2) t show ?case
      by (cases "k = l") (auto simp: heaps)
  next
    case (4 u v k)
    then have "holds (ctl s) (pcs s u) = Some k" "holds (ctl s) (pcs s v) = Some k"
      using hb by simp_all
    then show ?case using ownersD(4) [OF ok] by blast
  next
    case (5 u w)
    then show ?case using waitersD(1) [OF ok wb [of u w]] by (simp add: heaps del: fun_upd_apply)
  next
    case (6 u v w)
    then have "waits_on (?p u) = Some w" "waits_on (?p v) = Some w" by simp_all
    then show ?case using wb waitersD(2) [OF ok] by blast
  next
    case (7 w)
    then show ?case using system_okD(3) [OF ok, of w] by (simp add: heaps)
  qed
qed

text \<open>
  Steps that leave the existing objects alone, and may append fresh leases and waiters of
  which the moving thread takes at most the fresh ones.
\<close>

lemma unique_fresh:
  fixes n :: nat
  assumes "f u = Some r" "f v = Some r" and "\<And>x. x \<noteq> t \<Longrightarrow> f x = Some r \<Longrightarrow> g x = Some r \<and> r < n"
    and "f t = Some r \<Longrightarrow> n \<le> r" and "\<And>u v. g u = Some r \<Longrightarrow> g v = Some r \<Longrightarrow> u = v"
  shows "u = v"
proof -
  consider "u \<noteq> t" "v \<noteq> t" | "u = t" "v \<noteq> t" | "u \<noteq> t" "v = t" | "u = v" by blast
  then show ?thesis using assms by cases (blast, fastforce+)
qed

lemma extend_holds:
  assumes ok: "system_ok s" and wh: "waiter_heap c' = waiter_heap (ctl s) @ ws"
  shows "holds c' (pcs s u) = holds (ctl s) (pcs s u)"
proof -
  have "waits_on (pcs s u) = Some w \<Longrightarrow> waiter_heap c' ! w = waiter_heap (ctl s) ! w" for w
    using waitersD(1) [OF ok] by (simp add: wh nth_append)
  then show ?thesis by (cases "pcs s u") simp_all
qed

lemma extend_owners:
  assumes ok: "system_ok s"
    and lh: "lease_heap c' = lease_heap (ctl s) @ ls"
      "list_all (\<lambda>x. \<not> lease_closed x \<and> \<not> lease_released x) ls"
    and wh: "waiter_heap c' = waiter_heap (ctl s) @ ws"
    and hp: "\<And>l. holds c' p = Some l \<Longrightarrow> length (lease_heap (ctl s)) \<le> l \<and> l < length (lease_heap c')"
    and cp: "\<And>l. p \<noteq> Closing l"
  shows "owners_ok (s\<lparr>ctl := c', pcs := (pcs s)(t := p)\<rparr>)"
  unfolding owners_ok_def
proof (intro conjI allI impI, goal_cases)
  note same = extend_holds [OF ok wh]
  have old: "l < length (lease_heap (ctl s)) \<and> lease_heap c' ! l = lease_heap (ctl s) ! l"
    if "holds c' (pcs s u) = Some l" for u l
    using ownersD(1) [OF ok that [unfolded same]] by (simp add: lh nth_append)
  have fresh: "\<not> lease_closed (lease_heap c' ! l) \<and> \<not> lease_released (lease_heap c' ! l)"
    if "length (lease_heap (ctl s)) \<le> l" "l < length (lease_heap c')" for l
    using that lh by (simp add: nth_append list_all_iff)
  have one: "l < length (lease_heap c') \<and> \<not> lease_released (lease_heap c' ! l) \<and>
      (lease_closed (lease_heap c' ! l) \<longleftrightarrow> ((pcs s)(t := p)) u = Closing l)"
    if h: "holds c' (((pcs s)(t := p)) u) = Some l" for u l
  proof (cases "u = t")
    case True
    with h hp [of l] fresh [of l] cp show ?thesis by simp
  next
    case False
    with h have h': "holds c' (pcs s u) = Some l" by simp
    from False old [OF h'] ownersD(1-3) [OF ok h' [unfolded same]] show ?thesis by (simp add: lh)
  qed
  {
    case (1 u l)
    then show ?case using one [of u l] by simp
  next
    case (2 u l)
    then show ?case using one [of u l] by simp
  next
    case (3 u l)
    then show ?case using one [of u l] by simp
  next
    case (4 u v l)
    then show ?case
      using old [of _ l] hp [of l] ownersD(4) [OF ok]
      by (intro unique_fresh [of "\<lambda>x. holds c' (((pcs s)(t := p)) x)" u l v t "\<lambda>x. holds (ctl s) (pcs s x)"
          "length (lease_heap (ctl s))"])
        (auto simp: same)
  }
qed

lemma extend_waiters:
  assumes ok: "system_ok s"
    and wh: "waiter_heap c' = waiter_heap (ctl s) @ ws"
      "list_all (\<lambda>x. w_lease x = None \<and> \<not> w_acquired x) ws"
    and wp: "\<And>w. waits_on p = Some w \<Longrightarrow> length (waiter_heap (ctl s)) \<le> w \<and> w < length (waiter_heap c')"
  shows "waiters_ok (s\<lparr>ctl := c', pcs := (pcs s)(t := p)\<rparr>)"
  unfolding waiters_ok_def
proof (intro conjI allI impI, goal_cases)
  case (1 u w)
  then show ?case
    using wp [of w] waitersD(1) [OF ok, of u w] by (auto simp: wh split: if_splits)
next
  case (2 u v w)
  then show ?case
    using wp [of w] waitersD [OF ok]
    by (intro unique_fresh [of "\<lambda>x. waits_on (((pcs s)(t := p)) x)" u w v t "\<lambda>x. waits_on (pcs s x)"
        "length (waiter_heap (ctl s))"]) auto
next
  case (3 w)
  then show ?case
    using system_okD(3) [OF ok, of w] wh
    by (cases "w < length (waiter_heap (ctl s))") (auto simp: nth_append list_all_iff)
qed

lemma extend_ok:
  assumes ok: "system_ok s" and c': "controller_ok c'"
    and lh: "lease_heap c' = lease_heap (ctl s) @ ls"
      "list_all (\<lambda>x. \<not> lease_closed x \<and> \<not> lease_released x) ls"
    and wh: "waiter_heap c' = waiter_heap (ctl s) @ ws"
      "list_all (\<lambda>x. w_lease x = None \<and> \<not> w_acquired x) ws"
    and hp: "\<And>l. holds c' p = Some l \<Longrightarrow> length (lease_heap (ctl s)) \<le> l \<and> l < length (lease_heap c')"
    and wp: "\<And>w. waits_on p = Some w \<Longrightarrow> length (waiter_heap (ctl s)) \<le> w \<and> w < length (waiter_heap c')"
    and cp: "\<And>l. p \<noteq> Closing l"
  shows "system_ok (s\<lparr>ctl := c', pcs := (pcs s)(t := p)\<rparr>)"
proof -
  have "l < length (lease_heap c')"
    if "w < length (waiter_heap c')" "w_lease (waiter_heap c' ! w) = Some l" for w l
    using that system_okD(2) [OF ok] wh(2)
    by (cases "w < length (waiter_heap (ctl s))")
      (auto simp: wh lh nth_append leases_in_range_def list_all_iff intro: trans_less_add1)
  then have "leases_in_range c'" by (simp add: leases_in_range_def)
  then show ?thesis
    using c' extend_owners [OF ok lh wh(1) hp cp] extend_waiters [OF ok wh wp] by (simp add: system_ok_def)
qed

lemma remove_step_ok:
  assumes ok: "system_ok s"
  shows "system_ok (s\<lparr>ctl := count_rejection r (remove_waiter w (ctl s)),
    pcs := (pcs s)(t := Failed r)\<rparr>)"
  by (rule extend_ok [OF ok, where ls = "[]" and ws = "[]"])
    (use system_okD(1) [OF ok] in
      \<open>simp_all add: remove_waiter_ok, simp_all add: count_rejection_def remove_waiter_def Let_def\<close>)

lemma call_step_ok:
  assumes ok: "system_ok s" and enter: "acquire_enter org (now s) (ctl s) = (r, c')"
  shows "system_ok (s\<lparr>ctl := c', pcs := (pcs s)(t := after_enter d r)\<rparr>)"
proof -
  have c': "controller_ok c'"
    using acquire_enter_ok [OF system_okD(1) [OF ok], of org "now s"] enter by simp
  consider (granted) "can_grant (ctl s) org"
    | (full) "\<not> can_grant (ctl s) org" "max_queued (ctl s) \<le> int (length (queue (ctl s)))"
    | (enqueue) "\<not> can_grant (ctl s) org" "\<not> max_queued (ctl s) \<le> int (length (queue (ctl s)))"
    by blast
  then show ?thesis
  proof cases
    case full
    then show ?thesis
      using enter c'
      by (intro extend_ok [OF ok, where ls = "[]" and ws = "[]"])
        (auto simp: acquire_enter_def after_enter_def count_rejection_def)
  next
    case granted
    then show ?thesis
      using enter c'
      by (intro extend_ok [OF ok, where ls = "[new_lease org]" and ws = "[]"])
        (auto simp: acquire_enter_def after_enter_def grant_def new_lease_def)
  next
    case enqueue
    then show ?thesis
      using enter c'
      by (intro extend_ok [OF ok, where ls = "[]" and ws = "[new_waiter org (now s)]"])
        (auto simp: acquire_enter_def after_enter_def Let_def new_waiter_def)
  qed
qed

lemma thread_step_ok:
  assumes step: "thread_step s s'" and ok: "system_ok s"
  shows "system_ok s'"
  using step
proof cases
  case (call t org r c' d)
  then show ?thesis using call_step_ok [OF ok] by simp
next
  case (remove t w reason)
  then show ?thesis using remove_step_ok [OF ok] by simp
next
  case (close_flag t l)
  then show ?thesis using close_flag_step_ok [OF ok] by simp
next
  case (close_release t l)
  then show ?thesis using release_step_ok [OF ok] by simp
next
  case (tick t')
  then show ?thesis using ok by (simp add: system_ok_def owners_ok_def waiters_ok_def)
qed (auto intro!: move_ok [OF ok])

section \<open>Configuration never changes\<close>

definition config_of :: "controller \<Rightarrow> int \<times> int \<times> seconds \<times> int" where
  "config_of c = (max_active c, max_queued c, max_queue_wait_seconds c, max_active_per_org c)"

lemma config_grant_waiter [simp]: "config_of (grant_waiter i c) = config_of c"
  by (simp add: config_of_def grant_waiter_def grant_def Let_def)

lemma config_grant_loop [simp]: "config_of (grant_loop c) = config_of c"
proof (induction c rule: grant_loop.induct)
  case (1 c)
  then show ?case
    by (subst grant_loop.simps) (auto split: option.split)
qed

lemma config_release [simp]: "config_of (release l c) = config_of c"
  using config_grant_loop [of "return_slot l c"]
  by (simp add: config_of_def release_def try_grant_waiters_def return_slot_def Let_def)

lemma config_enter: "acquire_enter org t c = (r, c') \<Longrightarrow> config_of c' = config_of c"
  by (auto simp: config_of_def acquire_enter_def grant_def count_rejection_def Let_def
      split: if_splits)

lemma config_step: "thread_step s s' \<Longrightarrow> config_of (ctl s') = config_of (ctl s)"
proof (induction rule: thread_step.induct)
  case (call s t org r c' d)
  then show ?case by (simp add: config_enter)
qed (simp_all add: config_of_def count_rejection_def remove_waiter_def mark_closed_def Let_def
      config_release [unfolded config_of_def])

lemma config_run: "thread_step\<^sup>*\<^sup>* s s' \<Longrightarrow> config_of (ctl s') = config_of (ctl s)"
  by (induction rule: rtranclp_induct) (simp_all add: config_step)

section \<open>Runs\<close>

definition started :: "int \<Rightarrow> int \<Rightarrow> seconds \<Rightarrow> int option \<Rightarrow> seconds \<Rightarrow> system" where
  "started ma mq wait per_org t0 = initial (new_controller ma mq wait per_org) t0"

definition well_started :: "system \<Rightarrow> bool" where
  "well_started s \<longleftrightarrow>
     (\<exists>ma mq wait per_org t0. s = started ma mq wait per_org t0 \<and> 0 \<le> ma \<and>
        (\<forall>p. per_org = Some p \<longrightarrow> 0 \<le> p))"

lemma well_startedI:
  "0 \<le> ma \<Longrightarrow> (\<And>p. per_org = Some p \<Longrightarrow> 0 \<le> p) \<Longrightarrow> well_started (started ma mq wait per_org t0)"
  unfolding well_started_def by blast

interpretation admission: safe_system well_started thread_step system_ok
proof unfold_locales
  fix s assume "well_started s"
  then obtain ma mq wait per_org t0 where s: "s = started ma mq wait per_org t0" and "0 \<le> ma"
    "\<And>p. per_org = Some p \<Longrightarrow> 0 \<le> p" by (auto simp: well_started_def)
  then have "controller_ok (new_controller ma mq wait per_org)" by (intro new_controller_ok)
  then show "system_ok s"
    by (intro system_okI) (simp_all add: s started_def initial_def leases_in_range_def new_controller_def)
qed (rule thread_step_ok)

text \<open>Threads that run with a lease are counted by the open leases.\<close>

definition running :: "system \<Rightarrow> thread set" where
  "running s = {t. \<exists>l. pcs s t = Running l}"

definition running_for :: "int \<Rightarrow> system \<Rightarrow> thread set" where
  "running_for org s =
     {t. \<exists>l. pcs s t = Running l \<and> lease_org (lease_heap (ctl s) ! l) = org}"

lemma running_bound:
  assumes ok: "system_ok s"
    and sub: "\<And>t. t \<in> T \<Longrightarrow> \<exists>l. pcs s t = Running l \<and> P (lease_heap (ctl s) ! l)"
  shows "finite T \<and> card T \<le> length (filter (\<lambda>x. \<not> lease_released x \<and> P x) (lease_heap (ctl s)))"
proof -
  let ?L = "{l. l < length (lease_heap (ctl s)) \<and>
      \<not> lease_released (lease_heap (ctl s) ! l) \<and> P (lease_heap (ctl s) ! l)}"
  define f where "f t = (case pcs s t of Running l \<Rightarrow> l | _ \<Rightarrow> 0)" for t
  have f: "pcs s t = Running (f t)" if "t \<in> T" for t using sub [OF that] by (auto simp: f_def)
  have into: "f ` T \<subseteq> ?L"
  proof (rule image_subsetI)
    fix t assume "t \<in> T"
    then obtain l where l: "pcs s t = Running l" "P (lease_heap (ctl s) ! l)" using sub by blast
    then have "f t = l" by (simp add: f_def)
    with l ownersD(1,2) [OF ok, of t l] show "f t \<in> ?L" by simp
  qed
  have inj: "inj_on f T"
  proof (rule inj_onI)
    fix t u assume "t \<in> T" "u \<in> T" "f t = f u"
    then have "holds (ctl s) (pcs s t) = Some (f t)" "holds (ctl s) (pcs s u) = Some (f t)"
      using f by simp_all
    then show "t = u" using ownersD(4) [OF ok] by blast
  qed
  have fin: "finite ?L" by simp
  have "finite T" using inj_on_finite [OF inj into fin] .
  moreover have "card T \<le> card ?L" using card_inj_on_le [OF inj into fin] .
  ultimately show ?thesis by (simp add: length_filter_conv_card)
qed

section \<open>Open leases\<close>

text \<open>
  The leases that were handed out and not given back: those whose \<open>close\<close> has not been called, and those a thread is
  in the middle of closing. A lease is marked as given back only by \<open>_release\<close>, after \<open>close\<close> has set its flag.
\<close>

definition open_leases :: "system \<Rightarrow> lease_ref set" where
  "open_leases s = {l. l < length (lease_heap (ctl s)) \<and>
     (\<not> lease_closed (lease_heap (ctl s) ! l) \<or> (\<exists>t. pcs s t = Closing l))}"

definition closing_ok :: "system \<Rightarrow> bool" where
  "closing_ok s \<longleftrightarrow> (\<forall>l < length (lease_heap (ctl s)).
     (lease_released (lease_heap (ctl s) ! l) \<longrightarrow> lease_closed (lease_heap (ctl s) ! l)) \<and>
     (lease_closed (lease_heap (ctl s) ! l) \<and> \<not> lease_released (lease_heap (ctl s) ! l) \<longrightarrow>
        (\<exists>t. pcs s t = Closing l)))"

lemma closing_okD:
  assumes "closing_ok s" and "l < length (lease_heap (ctl s))"
  shows "lease_released (lease_heap (ctl s) ! l) \<Longrightarrow> lease_closed (lease_heap (ctl s) ! l)"
    and "lease_closed (lease_heap (ctl s) ! l) \<Longrightarrow> \<not> lease_released (lease_heap (ctl s) ! l) \<Longrightarrow>
      \<exists>t. pcs s t = Closing l"
  using assms by (auto simp: closing_ok_def)

text \<open>Steps that leave the leases alone, or append fresh ones, and move a thread that is not closing.\<close>

lemma closing_ok_extend:
  assumes ok: "closing_ok s" and lh: "lease_heap c' = lease_heap (ctl s) @ ls"
      "list_all (\<lambda>x. \<not> lease_closed x \<and> \<not> lease_released x) ls"
    and c: "\<And>l. pcs s t \<noteq> Closing l"
  shows "closing_ok (s\<lparr>ctl := c', pcs := (pcs s)(t := p)\<rparr>)"
  unfolding closing_ok_def
proof (intro allI impI, goal_cases)
  case (1 l)
  have "\<exists>u. ((pcs s)(t := p)) u = Closing l" if "\<exists>u. pcs s u = Closing l"
    using that c by (metis fun_upd_other)
  with 1 closing_okD [OF ok, of l] lh(2) show ?case
    by (cases "l < length (lease_heap (ctl s))") (auto simp: lh(1) nth_append list_all_iff)
qed

lemma closing_ok_flag:
  assumes ok: "closing_ok s" and t: "pcs s t = Running k"
  shows "closing_ok (s\<lparr>ctl := mark_closed k (ctl s), pcs := (pcs s)(t := Closing k)\<rparr>)"
  unfolding closing_ok_def
proof (intro allI impI, goal_cases)
  case (1 l)
  have "\<exists>u. ((pcs s)(t := Closing k)) u = Closing l" if "\<exists>u. pcs s u = Closing l"
    using that t by (metis fun_upd_other pc.distinct)
  with 1 closing_okD [OF ok, of l] show ?case
    by (cases "l = k") (auto simp: mark_closed_def)
qed

lemma closing_ok_release:
  assumes sys: "system_ok s" and ok: "closing_ok s" and t: "pcs s t = Closing k"
  shows "closing_ok (s\<lparr>ctl := release k (ctl s), pcs := (pcs s)(t := Finished)\<rparr>)"
  unfolding closing_ok_def
proof (intro allI impI, goal_cases)
  case (1 l)
  have hk: "holds (ctl s) (pcs s t) = Some k" using t by simp
  note own = ownersD [OF sys hk]
  note out = release_hands_out(1) [OF sys hk]
  show ?case
  proof (cases "l < length (lease_heap (ctl s))")
    case True
    have same: "lease_heap (release k (ctl s)) ! l = lease_heap (return_slot k (ctl s)) ! l"
      using hands_out_lease(1) [OF out, of l] True by (simp add: return_slot_heaps)
    have "\<exists>u. ((pcs s)(t := Finished)) u = Closing l" if "\<exists>u. pcs s u = Closing l" "l \<noteq> k"
      using that t by (metis fun_upd_other pc.inject(6))
    with same True closing_okD [OF ok True] own(1,3) t show ?thesis
      by (cases "l = k") (auto simp: return_slot_heaps)
  next
    case False
    with 1 hands_out_fresh [OF out, of l] show ?thesis by (simp add: return_slot_heaps)
  qed
qed

lemma closing_ok_step:
  assumes step: "thread_step s s'" and sys: "system_ok s" and ok: "closing_ok s"
  shows "closing_ok s'"
  using step
proof cases
  case (call t org r c' d)
  then show ?thesis
    using closing_ok_extend [OF ok, of c' "if can_grant (ctl s) org then [new_lease org] else []" t]
    by (auto simp: acquire_enter_def grant_def count_rejection_def Let_def new_lease_def split: if_splits)
next
  case (remove t w reason)
  then show ?thesis
    using closing_ok_extend [OF ok, of _ "[]" t] by (simp add: count_rejection_def remove_waiter_def Let_def)
next
  case (close_flag t l)
  then show ?thesis using closing_ok_flag [OF ok] by simp
next
  case (close_release t l)
  then show ?thesis using closing_ok_release [OF sys ok] by simp
next
  case (tick t')
  then show ?thesis using ok by (simp add: closing_ok_def)
qed (use closing_ok_extend [OF ok, of "ctl s" "[]"] in simp_all)

interpretation slots: safe_system well_started thread_step "\<lambda>s. system_ok s \<and> closing_ok s"
proof unfold_locales
  fix s assume "well_started s"
  then show "system_ok s \<and> closing_ok s"
    using admission.reachable_inv [of s s]
    by (auto simp: well_started_def closing_ok_def started_def initial_def new_controller_def)
qed (blast intro: thread_step_ok closing_ok_step)

text \<open>So the open leases are the ones the counters count.\<close>

lemma open_leases_unreleased:
  assumes sys: "system_ok s" and ok: "closing_ok s"
  shows "open_leases s =
    {l. l < length (lease_heap (ctl s)) \<and> \<not> lease_released (lease_heap (ctl s) ! l)}"
proof (intro set_eqI iffI CollectI)
  fix l assume l: "l \<in> open_leases s"
  have "\<not> lease_released (lease_heap (ctl s) ! l)" if "pcs s t = Closing l" for t
    using ownersD(2) [OF sys, of t l] that by simp
  with l show "l < length (lease_heap (ctl s)) \<and> \<not> lease_released (lease_heap (ctl s) ! l)"
    using closing_okD(1) [OF ok] by (auto simp: open_leases_def)
next
  fix l assume "l \<in> {l. l < length (lease_heap (ctl s)) \<and> \<not> lease_released (lease_heap (ctl s) ! l)}"
  then show "l \<in> open_leases s"
    using closing_okD [OF ok] by (auto simp: open_leases_def)
qed

lemma card_open_leases:
  assumes "system_ok s" and "closing_ok s"
  shows "card (open_leases s) = open_count (ctl s)"
    and "card {l \<in> open_leases s. lease_org (lease_heap (ctl s) ! l) = org} = open_count_of org (ctl s)"
  unfolding open_leases_unreleased [OF assms] open_count_def open_count_of_def length_filter_conv_card
  by (auto intro: arg_cong [where f = card])

section \<open>Slots nobody can return\<close>

text \<open>An open lease that no thread holds or will be handed.\<close>

definition orphaned :: "lease_ref \<Rightarrow> system \<Rightarrow> bool" where
  "orphaned l s \<longleftrightarrow>
     l < length (lease_heap (ctl s)) \<and> \<not> lease_released (lease_heap (ctl s) ! l) \<and>
     (\<forall>t. holds (ctl s) (pcs s t) \<noteq> Some l)"

text \<open>Nobody comes to hold an existing lease it did not hold or wait for before.\<close>

lemma holds_before:
  assumes step: "thread_step s s'" and ok: "system_ok s"
    and l: "l < length (lease_heap (ctl s))" and h: "holds (ctl s') (pcs s' u) = Some l"
  shows "holds (ctl s) (pcs s u) = Some l"
  using step
proof cases
  case (call t org r c' d)
  show ?thesis
  proof (cases "u = t")
    case True
    then show ?thesis
      using h l call
      by (auto simp: acquire_enter_def after_enter_def grant_def count_rejection_def Let_def
          new_waiter_def split: if_splits)
  next
    case False
    with h have "holds c' (pcs s u) = Some l" using call(1) by simp
    moreover have "waiter_heap c' ! w = waiter_heap (ctl s) ! w" if "waits_on (pcs s u) = Some w" for w
      using waitersD(1) [OF ok that] call(3)
      by (auto simp: acquire_enter_def grant_def count_rejection_def Let_def nth_append
          split: if_splits)
    ultimately show ?thesis by (cases "pcs s u") simp_all
  qed
next
  case (remove t w reason)
  have "holds (count_rejection reason (remove_waiter w (ctl s))) p = holds (ctl s) p" for p
    by (cases p) (simp_all add: count_rejection_def remove_waiter_def Let_def)
  with remove h show ?thesis by (auto split: if_splits)
next
  case (close_flag t k)
  have "holds (mark_closed k (ctl s)) p = holds (ctl s) p" for p
    by (cases p) (simp_all add: mark_closed_def)
  with close_flag h show ?thesis by (auto split: if_splits)
next
  case (close_release t k)
  let ?c = "return_slot k (ctl s)"
  have slot: "length (lease_heap ?c) = length (lease_heap (ctl s))" "waiter_heap ?c = waiter_heap (ctl s)"
    by (simp_all add: return_slot_def Let_def)
  have same: "holds ?c p = holds (ctl s) p" for p by (cases p) (simp_all add: slot)
  have hk: "holds (ctl s) (pcs s t) = Some k" using close_release by simp
  have range: "leases_in_range ?c"
    using system_okD(2) [OF ok] by (simp add: leases_in_range_def slot)
  have out: "hands_out ?c (release k (ctl s))"
    unfolding release_def
    using try_grant_waiters_hands_out [OF return_slot_ok range] system_okD(1) [OF ok]
      ownersD(1,2) [OF ok hk] by blast
  have "u \<noteq> t" using h close_release by auto
  with h close_release have "holds (release k (ctl s)) (pcs s u) = Some l" by simp
  with hands_out_holds [OF out, of "pcs s u" l] waitersD(1) [OF ok, of u] l show ?thesis
    by (auto simp: same slot)
qed (use h in \<open>auto split: if_splits\<close>)

lemma unreleased_step:
  assumes step: "thread_step s s'" and ok: "system_ok s"
    and l: "l < length (lease_heap (ctl s))" "\<not> lease_released (lease_heap (ctl s) ! l)"
    and nobody: "\<And>t. holds (ctl s) (pcs s t) \<noteq> Some l"
  shows "l < length (lease_heap (ctl s')) \<and> \<not> lease_released (lease_heap (ctl s') ! l)"
  using step
proof cases
  case (call t org r c' d)
  with l show ?thesis
    by (auto simp: acquire_enter_def grant_def count_rejection_def Let_def nth_append split: if_splits)
next
  case (close_flag t k)
  with l show ?thesis by (cases "k = l") (simp_all add: mark_closed_def)
next
  case (close_release t k)
  let ?c = "return_slot k (ctl s)"
  have hk: "holds (ctl s) (pcs s t) = Some k" using close_release by simp
  with nobody have "k \<noteq> l" by blast
  then have slot: "length (lease_heap ?c) = length (lease_heap (ctl s))"
    "lease_heap ?c ! l = lease_heap (ctl s) ! l" "waiter_heap ?c = waiter_heap (ctl s)"
    by (simp_all add: return_slot_def Let_def)
  have range: "leases_in_range ?c"
    using system_okD(2) [OF ok] by (simp add: leases_in_range_def slot)
  have out: "hands_out ?c (release k (ctl s))"
    unfolding release_def
    using try_grant_waiters_hands_out [OF return_slot_ok range] system_okD(1) [OF ok]
      ownersD(1,2) [OF ok hk] by blast
  from hands_out_lease [OF out, of l] l slot close_release show ?thesis by simp
qed (use l in \<open>simp_all add: count_rejection_def remove_waiter_def Let_def\<close>)

lemma orphaned_step: "thread_step s s' \<Longrightarrow> system_ok s \<Longrightarrow> orphaned l s \<Longrightarrow> orphaned l s'"
  unfolding orphaned_def by (blast dest: holds_before unreleased_step)

interpretation orphan: safe_system "\<lambda>s. system_ok s \<and> orphaned l s" thread_step
    "\<lambda>s. system_ok s \<and> orphaned l s"
  by unfold_locales (blast intro: thread_step_ok orphaned_step)+

lemma orphaned_counts:
  assumes "orphaned l s"
  shows "1 \<le> open_count (ctl s)"
proof -
  have "lease_heap (ctl s) ! l \<in> set (filter (\<lambda>x. \<not> lease_released x) (lease_heap (ctl s)))"
    using assms by (simp add: orphaned_def)
  then have "0 < length (filter (\<lambda>x. \<not> lease_released x) (lease_heap (ctl s)))"
    by (rule length_pos_if_in_set)
  then show ?thesis by (simp add: open_count_def Suc_le_eq)
qed

section \<open>Properties\<close>

text \<open>A call of \<open>acquire\<close> by a given thread with a given deadline, for the concrete runs below.\<close>

definition enter_as :: "thread \<Rightarrow> int \<Rightarrow> seconds \<Rightarrow> system \<Rightarrow> system" where
  "enter_as t org d s =
     (let (r, c') = acquire_enter org (now s) (ctl s)
      in s\<lparr>ctl := c', pcs := (pcs s)(t := after_enter d r)\<rparr>)"

lemma enter_as_step:
  assumes "pcs s t = Idle"
  shows "thread_step s (enter_as t org d s)"
proof -
  obtain r c' where e: "acquire_enter org (now s) (ctl s) = (r, c')" by fastforce
  have "enter_as t org d s = s\<lparr>ctl := c', pcs := (pcs s)(t := after_enter d r)\<rparr>"
    by (simp add: enter_as_def e)
  with thread_step.call [OF assms e, where d = "Some d"] show ?thesis
    by (simp only: effective_deadline_def option.case)
qed

text \<open>
  C3: admission is bounded and its counters are exact. In every state any interleaving of callers, waiters, time-outs
  and releases can reach, at most \<open>max_active\<close> threads run with a lease and at most \<open>max_active_per_org\<close> of one
  organisation do; \<open>_active\<close> is the number of leases handed out and not yet given back, and so is each organisation's
  counter among its leases; the gauges agree with the controller.
\<close>

theorem admission_is_bounded:
  assumes "0 \<le> ma" and "\<And>p. per_org = Some p \<Longrightarrow> 0 \<le> p"
    and "thread_step\<^sup>*\<^sup>* (started ma mq wait per_org t0) s"
  shows "finite (running s) \<and> int (card (running s)) \<le> active (ctl s) \<and> active (ctl s) \<le> ma \<and>
    int (card (running_for org s)) \<le> get_or (org_active (ctl s)) org 0 \<and>
    get_or (org_active (ctl s)) org 0 \<le> max_active_per_org (ctl s) \<and>
    active (ctl s) = int (card (open_leases s)) \<and>
    get_or (org_active (ctl s)) org 0 =
      int (card {l \<in> open_leases s. lease_org (lease_heap (ctl s) ! l) = org}) \<and>
    active_gauge (ctl s) = active (ctl s) \<and> queued_gauge (ctl s) = int (length (queue (ctl s)))"
proof -
  have "well_started (started ma mq wait per_org t0)"
    using assms(1,2) by (rule well_startedI)
  then have "system_ok s \<and> closing_ok s" using assms(3) by (rule slots.reachable_inv)
  then have ok: "system_ok s" "closing_ok s" by simp_all
  note c = system_okD(1) [OF ok(1)]
  have "max_active (ctl s) = ma"
    using config_run [OF assms(3)]
    by (simp add: config_of_def started_def initial_def new_controller_def)
  moreover have "finite (running s) \<and> card (running s) \<le> open_count (ctl s)"
    using running_bound [OF ok(1), of "running s" "\<lambda>_. True"] by (simp add: running_def open_count_def)
  moreover have "card (running_for org s) \<le> open_count_of org (ctl s)"
    using running_bound [OF ok(1), of "running_for org s" "\<lambda>x. lease_org x = org"]
    by (simp add: running_for_def open_count_of_def)
  ultimately show ?thesis
    using accountingD(1,2) [OF c] accountingD(3,4) [OF c, where org = org] c
    by (simp add: controller_ok_def gauges_ok_def card_open_leases [OF ok])
qed

text \<open>
  A run of three threads with one slot per organisation: thread 0 is admitted, threads 1 and 2 queue behind it, and
  thread 0 closes its lease, which hands the slot to thread 1.
\<close>

definition three_started :: system where "three_started = started 2 16 5 (Some 1) 0"

definition three_queued :: system where
  "three_queued = enter_as 2 7 9 (enter_as 1 7 9 (enter_as 0 7 9 three_started))"

definition three_closing :: system where
  "three_closing = three_queued\<lparr>ctl := mark_closed 0 (ctl three_queued), pcs := (pcs three_queued)(0 := Closing 0)\<rparr>"

definition three_handed :: system where
  "three_handed = three_closing\<lparr>ctl := release 0 (ctl three_closing), pcs := (pcs three_closing)(0 := Finished)\<rparr>"

lemma three_pcs: "pcs three_started t = Idle" "pcs (enter_as 0 7 9 three_started) 1 = Idle"
  "pcs (enter_as 1 7 9 (enter_as 0 7 9 three_started)) 2 = Idle" "pcs three_queued 0 = Running 0"
  "lease_closed (lease_heap (ctl three_queued) ! 0) = False"
  by (simp add: three_started_def started_def initial_def, code_simp+)

lemma three_run: "thread_step\<^sup>*\<^sup>* three_started three_handed"
proof -
  have "thread_step three_started (enter_as 0 7 9 three_started)" by (rule enter_as_step) (rule three_pcs)
  moreover have "thread_step \<dots> (enter_as 1 7 9 (enter_as 0 7 9 three_started))" by (rule enter_as_step) (rule three_pcs)
  moreover have "thread_step \<dots> three_queued" unfolding three_queued_def by (rule enter_as_step) (rule three_pcs)
  moreover have "thread_step \<dots> three_closing"
    unfolding three_closing_def using three_pcs(4,5) by (intro thread_step.close_flag) simp_all
  moreover have "thread_step \<dots> three_handed"
    unfolding three_handed_def by (rule thread_step.close_release) (simp add: three_closing_def)
  ultimately show ?thesis by (meson rtranclp.rtrancl_into_rtrancl r_into_rtranclp)
qed

lemma three_state:
  "queue (ctl three_handed) = [1]" "active (ctl three_handed) = 1" "get_or (org_active (ctl three_handed)) 7 0 = 1"
  "w_org (waiter_heap (ctl three_handed) ! 1) = 7" "w_lease (waiter_heap (ctl three_handed) ! 0) = Some 1"
  "w_cancelled (waiter_heap (ctl three_handed) ! 1) = False"
  by code_simp+

theorem admission_is_bounded_witness:
  "\<exists>s. thread_step\<^sup>*\<^sup>* (started 2 16 5 (Some 1) 0) s \<and> queue (ctl s) = [1] \<and> active (ctl s) = 1 \<and>
     card (open_leases s) = 1 \<and> card {l \<in> open_leases s. lease_org (lease_heap (ctl s) ! l) = 7} = 1"
proof (intro exI conjI)
  show run: "thread_step\<^sup>*\<^sup>* (started 2 16 5 (Some 1) 0) three_handed"
    using three_run by (simp add: three_started_def)
  note bounded = admission_is_bounded [OF _ _ run, where org = 7]
  show "card (open_leases three_handed) = 1"
    "card {l \<in> open_leases three_handed. lease_org (lease_heap (ctl three_handed) ! l) = 7} = 1"
    using bounded by (simp_all add: three_state)
qed (fact three_state)+

text \<open>
  C4: no lost wake-up. In every reachable state, nobody in the deque could be granted a slot:
  every waiter there is cancelled, or the controller is full, or its organisation is at its
  quota.
\<close>

theorem no_lost_wakeup:
  assumes "0 \<le> ma" and "\<And>p. per_org = Some p \<Longrightarrow> 0 \<le> p"
    and "thread_step\<^sup>*\<^sup>* (started ma mq wait per_org t0) s"
  shows "list_all (\<lambda>w. w_cancelled (waiter_heap (ctl s) ! w) \<or>
    \<not> can_grant (ctl s) (w_org (waiter_heap (ctl s) ! w))) (queue (ctl s))"
proof -
  have "well_started (started ma mq wait per_org t0)"
    using assms(1,2) by (rule well_startedI)
  then have "system_ok s" using assms(3) by (rule admission.reachable_inv)
  from system_okD(1) [OF this] show ?thesis
    by (auto simp: controller_ok_def none_stranded_def list_all_iff)
qed

theorem no_lost_wakeup_witness:
  "\<exists>s. thread_step\<^sup>*\<^sup>* (started 2 16 5 (Some 1) 0) s \<and> queue (ctl s) = [1] \<and>
     w_lease (waiter_heap (ctl s) ! 0) = Some 1 \<and>
     \<not> w_cancelled (waiter_heap (ctl s) ! 1) \<and> \<not> can_grant (ctl s) (w_org (waiter_heap (ctl s) ! 1))"
proof (intro exI conjI)
  show run: "thread_step\<^sup>*\<^sup>* (started 2 16 5 (Some 1) 0) three_handed"
    using three_run by (simp add: three_started_def)
  show "\<not> can_grant (ctl three_handed) (w_org (waiter_heap (ctl three_handed) ! 1))"
    using no_lost_wakeup [OF _ _ run] by (simp add: three_state [simplified])
qed (simp_all add: three_state three_state [simplified])

text \<open>
  Waiters are served first in, first out, among the eligible. A granted waiter is not
  cancelled and below its organisation's quota, and everybody ahead of it in the deque is
  cancelled or belongs to an organisation at its quota.
\<close>

theorem grants_are_fifo_among_eligible:
  assumes "find_eligible c (queue c) = Some i"
  shows "i < length (queue c) \<and>
    queue (grant_waiter i c) = take i (queue c) @ drop (Suc i) (queue c) \<and>
    get_or (org_active c) (w_org (waiter_heap c ! (queue c ! i))) 0 < max_active_per_org c \<and>
    list_all (\<lambda>w. w_cancelled (waiter_heap c ! w) \<or>
        max_active_per_org c \<le> get_or (org_active c) (w_org (waiter_heap c ! w)) 0)
      (take i (queue c))"
proof -
  note el = find_eligible_Some [OF assms]
  have "list_all (\<lambda>w. w_cancelled (waiter_heap c ! w) \<or>
        max_active_per_org c \<le> get_or (org_active c) (w_org (waiter_heap c ! w)) 0)
      (take i (queue c))"
    using find_eligible_first [OF assms] el(1) by (auto simp: list_all_length)
  with el show ?thesis by simp
qed

definition two_waiters :: controller where
  "two_waiters = (new_controller 2 4 5 (Some 1))
     \<lparr>org_active := [7 \<mapsto> 1], active := 1, queue := [0, 1],
      waiter_heap := [new_waiter 7 0, new_waiter 8 0]\<rparr>"

theorem grants_are_fifo_among_eligible_witness:
  "queue (grant_waiter 1 two_waiters) = [0]"
proof -
  have "find_eligible two_waiters (queue two_waiters) = Some 1"
    by (simp add: two_waiters_def new_controller_def new_waiter_def get_or_def)
  from grants_are_fifo_among_eligible [OF this]
  show ?thesis by (simp add: two_waiters_def new_controller_def)
qed

text \<open>
  An orphaned slot stays occupied. A lease that is open but that no thread holds or will be
  handed is never released again, whatever the threads do: it counts against
  \<open>max_active\<close> for ever.
\<close>

theorem orphaned_slot_is_never_returned:
  assumes "system_ok s" and "orphaned l s" and "thread_step\<^sup>*\<^sup>* s s'"
  shows "orphaned l s' \<and> 1 \<le> active (ctl s')"
proof -
  have both: "system_ok s' \<and> orphaned l s'"
    by (rule orphan.reachable_inv [OF conjI [OF assms(1,2)] assms(3)])
  then have "active (ctl s') = int (open_count (ctl s'))"
    using accountingD(1) system_okD(1) by blast
  with both orphaned_counts [of l s'] show ?thesis by simp
qed

text \<open>
  The run of two threads behind the next theorem: thread 1 queues behind thread 0 with a
  deadline that passes before it looks at it; thread 0 releases in between and hands it the
  slot; thread 1 then raises \<open>AdmissionRejected("timeout")\<close> without looking at its waiter.
\<close>

definition leak0 :: system where "leak0 = started 1 16 5 None 0"

definition leak1 :: system where "leak1 = enter_as 1 8 1 (enter_as 0 7 9 leak0)"

definition leak2 :: system where
  "leak2 = (let s = leak1\<lparr>now := 2\<rparr>;
                s' = s\<lparr>ctl := mark_closed 0 (ctl s), pcs := (pcs s)(0 := Closing 0)\<rparr>
            in s'\<lparr>ctl := release 0 (ctl s'), pcs := (pcs s')(0 := Finished)\<rparr>)"

definition leak3 :: system where
  "leak3 = (let s = leak2\<lparr>pcs := (pcs leak2)(1 := Removing 0 Timeout)\<rparr>
            in s\<lparr>ctl := count_rejection Timeout (remove_waiter 0 (ctl s)),
                 pcs := (pcs s)(1 := Failed Timeout)\<rparr>)"

lemma pcs_leak0: "pcs leak0 t = Idle"
  by (simp add: leak0_def started_def initial_def)

lemma pcs_leak1: "pcs leak1 0 = Running 0" "pcs leak1 1 = Queued 0 1"
  "pcs (enter_as 0 7 9 leak0) 1 = Idle" "lease_closed (lease_heap (ctl leak1) ! 0) = False"
  by code_simp+

lemma pcs_leak2: "pcs leak2 1 = Queued 0 1" "now leak2 = 2"
  by code_simp+

lemma pcs_leak3:
  "pcs leak3 = (\<lambda>t. if t = 0 then Finished else if t = 1 then Failed Timeout else Idle)"
  by (auto simp: leak3_def leak2_def leak1_def enter_as_def pcs_leak0 Let_def fun_eq_iff
      split: prod.split)

lemma leak3_state: "lease_heap (ctl leak3)
    = [\<lparr>lease_org = 7, lease_closed = True, lease_released = True\<rparr>, new_lease 8]"
  "active (ctl leak3) = 1" "max_active (ctl leak3) = 1"
  by code_simp+

lemma leak_run1: "thread_step\<^sup>*\<^sup>* leak0 leak1"
proof -
  have "thread_step leak0 (enter_as 0 7 9 leak0)" by (rule enter_as_step) (rule pcs_leak0)
  moreover have "thread_step (enter_as 0 7 9 leak0) leak1"
    unfolding leak1_def by (rule enter_as_step) (rule pcs_leak1(3))
  ultimately show ?thesis by (meson rtranclp.rtrancl_into_rtrancl r_into_rtranclp)
qed

lemma leak_run2: "thread_step\<^sup>*\<^sup>* leak1 leak2"
proof -
  let ?a = "leak1\<lparr>now := 2\<rparr>"
  let ?b = "?a\<lparr>ctl := mark_closed 0 (ctl ?a), pcs := (pcs ?a)(0 := Closing 0)\<rparr>"
  have "now leak1 = 0" by code_simp
  then have "thread_step leak1 ?a" by (intro thread_step.tick) simp
  moreover have "thread_step ?a ?b"
    using pcs_leak1(1,4) by (intro thread_step.close_flag) simp_all
  moreover have "thread_step ?b leak2"
    unfolding leak2_def Let_def by (rule thread_step.close_release) simp
  ultimately show ?thesis by (meson rtranclp.rtrancl_into_rtrancl r_into_rtranclp)
qed

lemma leak_run3: "thread_step\<^sup>*\<^sup>* leak2 leak3"
proof -
  let ?a = "leak2\<lparr>pcs := (pcs leak2)(1 := Removing 0 Timeout)\<rparr>"
  have "thread_step leak2 ?a"
    by (rule thread_step.already_expired [OF pcs_leak2(1)]) (simp add: pcs_leak2(2))
  moreover have "thread_step ?a leak3"
    unfolding leak3_def Let_def by (rule thread_step.remove) simp
  ultimately show ?thesis by (meson rtranclp.rtrancl_into_rtrancl r_into_rtranclp)
qed

lemma leak_run: "thread_step\<^sup>*\<^sup>* leak0 leak3"
  using leak_run1 leak_run2 leak_run3 by (meson rtranclp_trans)

lemma leak3_ok: "system_ok leak3" "orphaned 1 leak3"
proof -
  have "well_started leak0" unfolding leak0_def by (rule well_startedI) simp_all
  then show "system_ok leak3" using leak_run by (rule admission.reachable_inv)
  show "orphaned 1 leak3"
    by (simp add: orphaned_def leak3_state new_lease_def pcs_leak3)
qed

theorem orphaned_slot_is_never_returned_witness: "orphaned 1 leak3 \<and> 1 \<le> active (ctl leak3)"
  by (rule orphaned_slot_is_never_returned [OF leak3_ok]) simp

text \<open>
  C8: a timed-out waiter can leak its slot. With one slot there is an interleaving after which
  every thread has finished or failed, and from then on no caller of any organisation can be
  admitted in any continuation: a waiter that is granted a lease after its deadline has passed,
  but before it looks, raises without closing that lease.
\<close>

theorem timed_out_waiter_can_leak_its_slot:
  "\<exists>s. thread_step\<^sup>*\<^sup>* (started 1 16 5 None 0) s \<and>
     (\<forall>t. pcs s t \<in> {Idle, Finished, Failed Timeout}) \<and>
     {s'. thread_step\<^sup>*\<^sup>* s s'} \<subseteq> {s'. active (ctl s') = 1 \<and> (\<forall>org. \<not> can_grant (ctl s') org)}"
proof (intro exI conjI)
  show "thread_step\<^sup>*\<^sup>* (started 1 16 5 None 0) leak3" using leak_run by (simp add: leak0_def)
  show "\<forall>t. pcs leak3 t \<in> {Idle, Finished, Failed Timeout}" by (simp add: pcs_leak3)
  show "{s'. thread_step\<^sup>*\<^sup>* leak3 s'}
      \<subseteq> {s'. active (ctl s') = 1 \<and> (\<forall>org. \<not> can_grant (ctl s') org)}"
  proof clarify
    fix s' assume run: "thread_step\<^sup>*\<^sup>* leak3 s'"
    from run have both: "system_ok s' \<and> orphaned 1 s'"
        by (rule orphan.reachable_inv [OF conjI [OF leak3_ok]])
    have "max_active (ctl s') = 1"
      using config_run [OF run] by (simp add: config_of_def leak3_state)
    moreover have "active (ctl s') \<le> max_active (ctl s')" "active (ctl s') = int (open_count (ctl s'))"
      using both accountingD(1,2) system_okD(1) by blast+
    moreover have "1 \<le> open_count (ctl s')" using both orphaned_counts by blast
    ultimately have "active (ctl s') = 1" "active (ctl s') = max_active (ctl s')" by linarith+
    then show "active (ctl s') = 1 \<and> (\<forall>org. \<not> can_grant (ctl s') org)"
      by (simp add: can_grant_iff)
  qed
qed

end
