(* ===== verification/ToolQueue.thy ===== *)
theory ToolQueue
  imports Interfaces "HOL-Library.AList"
begin

text \<open>
  \<open>services/agent-runtime/allcallall_agent_runtime/async_tool_queue.py\<close>: the queue of approved
  write tools, its pluggable store and its worker.

  The queue calls its store through the \<open>TaskStore\<close> protocol: the operations are a record
  \<open>store_ops\<close>, and the laws the queue relies on are the locale \<open>task_store\<close>, interpreted on
  \<open>InMemoryTaskStore\<close>. Payloads are copied and never inspected: their type is a parameter. A
  Python \<open>dict\<close> keeps insertion order and is an association list updated in place
  (\<^const>\<open>AList.update\<close>). The dead-letter list holds references to tasks, so it is a list of
  task ids. \<open>uuid.uuid4().hex\<close> is the argument \<open>uid\<close>.
\<close>

section \<open>Priorities and tasks\<close>

text \<open>\<open>str.lower\<close> on ASCII.\<close>

definition lower_char :: "char \<Rightarrow> char" where
  "lower_char c =
     (if 65 \<le> (of_char c :: nat) \<and> (of_char c :: nat) \<le> 90 then char_of (of_char c + 32 :: nat) else c)"

definition lower :: "string \<Rightarrow> string" where
  "lower s = map lower_char s"

definition priority_to_int :: "string \<Rightarrow> int" where
  "priority_to_int p =
     (let label = lower p
      in if label = ''high'' then 1 else if label = ''normal'' then 5
         else if label = ''low'' then 9 else 5)"

datatype task_status = TaskQueued | TaskProcessing | TaskDone | TaskDead

record 'p task =
  task_id :: string
  tool_name :: string
  payload :: 'p
  idempotency_key :: string
  queue_name :: string
  priority :: int
  rate_limit_key :: string
  task_max_attempts :: int
  attempts :: int
  status :: task_status
  lease_owner :: string
  lease_until :: seconds
  scheduled_at :: seconds
  last_error :: string

section \<open>The store protocol\<close>

record ('s, 'p) store_ops =
  st_add :: "'p task \<Rightarrow> 's \<Rightarrow> 's"
  st_get :: "'s \<Rightarrow> string \<Rightarrow> 'p task option"
  st_all :: "'s \<Rightarrow> 'p task list"
  st_update :: "'p task \<Rightarrow> 's \<Rightarrow> 's"
  st_mark_dead :: "'p task \<Rightarrow> 's \<Rightarrow> 's"
  st_id_for_key :: "'s \<Rightarrow> string \<Rightarrow> string option"
  st_dead_letters :: "'s \<Rightarrow> 'p task list"

subsection \<open>The in-memory store\<close>

record 'p memory_store =
  tasks :: "(string \<times> 'p task) list"
  by_key :: "string \<rightharpoonup> string"
  dead :: "string list"

definition empty_store :: "'p memory_store" where
  "empty_store = \<lparr>tasks = [], by_key = Map.empty, dead = []\<rparr>"

definition mem_add :: "'p task \<Rightarrow> 'p memory_store \<Rightarrow> 'p memory_store" where
  "mem_add t s =
     s\<lparr>tasks := AList.update (task_id t) t (tasks s),
       by_key := (by_key s)(idempotency_key t \<mapsto> task_id t)\<rparr>"

definition mem_get :: "'p memory_store \<Rightarrow> string \<Rightarrow> 'p task option" where
  "mem_get s i = map_of (tasks s) i"

definition mem_all :: "'p memory_store \<Rightarrow> 'p task list" where
  "mem_all s = map snd (tasks s)"

definition mem_update :: "'p task \<Rightarrow> 'p memory_store \<Rightarrow> 'p memory_store" where
  "mem_update t s = s\<lparr>tasks := AList.update (task_id t) t (tasks s)\<rparr>"

definition mem_mark_dead :: "'p task \<Rightarrow> 'p memory_store \<Rightarrow> 'p memory_store" where
  "mem_mark_dead t s = s\<lparr>dead := dead s @ [task_id t]\<rparr>"

definition mem_id_for_key :: "'p memory_store \<Rightarrow> string \<Rightarrow> string option" where
  "mem_id_for_key s k = by_key s k"

definition mem_dead_letters :: "'p memory_store \<Rightarrow> 'p task list" where
  "mem_dead_letters s = List.map_filter (mem_get s) (dead s)"

definition memory_ops :: "('p memory_store, 'p) store_ops" where
  "memory_ops =
     \<lparr>st_add = mem_add, st_get = mem_get, st_all = mem_all, st_update = mem_update,
      st_mark_dead = mem_mark_dead, st_id_for_key = mem_id_for_key,
      st_dead_letters = mem_dead_letters\<rparr>"

text \<open>For another store the queue searches \<open>all()\<close> for a key and for dead tasks.\<close>

definition scan_id_for_key :: "'p task list \<Rightarrow> string \<Rightarrow> string option" where
  "scan_id_for_key ts k = map_option task_id (List.find (\<lambda>t. idempotency_key t = k) ts)"

definition scan_dead_letters :: "'p task list \<Rightarrow> 'p task list" where
  "scan_dead_letters ts = filter (\<lambda>t. status t = TaskDead) ts"

section \<open>The queue\<close>

record queue_config =
  rate_limit_max :: int
  base_backoff :: seconds

definition new_queue :: "int \<Rightarrow> seconds \<Rightarrow> queue_config" where
  "new_queue limit backoff = \<lparr>rate_limit_max = max 1 limit, base_backoff = max 0 backoff\<rparr>"

definition new_task ::
  "string \<Rightarrow> string \<Rightarrow> 'p \<Rightarrow> string \<Rightarrow> string \<Rightarrow> int \<Rightarrow> string \<Rightarrow> int \<Rightarrow> 'p task" where
  "new_task uid tool pay key qname prio limit_key max_att =
     \<lparr>task_id = uid, tool_name = tool, payload = pay, idempotency_key = key, queue_name = qname,
      priority = prio, rate_limit_key = limit_key, task_max_attempts = max_att, attempts = 0,
      status = TaskQueued, lease_owner = '''', lease_until = 0, scheduled_at = 0, last_error = ''''\<rparr>"

text \<open>\<open>enqueue\<close>: the task is added unless its key is known and that task still exists.\<close>

definition enqueue_task :: "('s, 'p) store_ops \<Rightarrow> 'p task \<Rightarrow> 's \<Rightarrow> string \<times> 's" where
  "enqueue_task ops task s =
     (let existing_task_id = st_id_for_key ops s (idempotency_key task);
          existing = (case existing_task_id of None \<Rightarrow> None | Some i \<Rightarrow> st_get ops s i)
      in case existing of
           Some t \<Rightarrow> (task_id t, s)
         | None \<Rightarrow> (task_id task, st_add ops task s))"

definition enqueue ::
  "('s, 'p) store_ops \<Rightarrow> string \<Rightarrow> string \<Rightarrow> 'p \<Rightarrow> string \<Rightarrow> string \<Rightarrow> int \<Rightarrow> string \<Rightarrow> int \<Rightarrow> 's
     \<Rightarrow> string \<times> 's" where
  "enqueue ops uid tool pay key qname prio limit_key max_att s =
     enqueue_task ops (new_task uid tool pay key qname prio limit_key max_att) s"

definition claimable :: "seconds \<Rightarrow> 'p task \<Rightarrow> bool" where
  "claimable t0 t \<longleftrightarrow>
     (status t = TaskQueued \<or> status t = TaskProcessing) \<and> scheduled_at t \<le> t0 \<and>
     (lease_until t \<le> t0 \<or> lease_owner t = '''')"

text \<open>The dictionary \<open>in_flight\<close>: tasks in processing, per rate-limit key.\<close>

definition in_flight :: "'p task list \<Rightarrow> string \<Rightarrow> int" where
  "in_flight ts k = int (length (filter (\<lambda>t. status t = TaskProcessing \<and> rate_limit_key t = k) ts))"

definition throttled :: "queue_config \<Rightarrow> 'p task list \<Rightarrow> 'p task \<Rightarrow> bool" where
  "throttled cfg ts t \<longleftrightarrow>
     rate_limit_key t \<noteq> '''' \<and> rate_limit_max cfg \<le> in_flight ts (rate_limit_key t)"

definition lease_to :: "string \<Rightarrow> seconds \<Rightarrow> seconds \<Rightarrow> 'p task \<Rightarrow> 'p task" where
  "lease_to owner t0 visibility_timeout t =
     t\<lparr>status := TaskProcessing, lease_owner := owner, lease_until := t0 + visibility_timeout\<rparr>"

definition claim ::
  "('s, 'p) store_ops \<Rightarrow> queue_config \<Rightarrow> string \<Rightarrow> seconds \<Rightarrow> seconds \<Rightarrow> 's
     \<Rightarrow> 'p task option \<times> 's" where
  "claim ops cfg owner t0 visibility_timeout s =
     (let ts = st_all ops s;
          eligible = sort_key priority (filter (claimable t0) ts)
      in case List.find (\<lambda>t. \<not> throttled cfg ts t) eligible of
           None \<Rightarrow> (None, s)
         | Some t \<Rightarrow>
             (let t' = lease_to owner t0 visibility_timeout t in (Some t', st_update ops t' s)))"

definition complete :: "('s, 'p) store_ops \<Rightarrow> string \<Rightarrow> 's \<Rightarrow> 's" where
  "complete ops i s =
     (case st_get ops s i of
        None \<Rightarrow> s
      | Some t \<Rightarrow> st_update ops (t\<lparr>status := TaskDone, lease_owner := '''', lease_until := 0\<rparr>) s)"

definition fail :: "('s, 'p) store_ops \<Rightarrow> queue_config \<Rightarrow> string \<Rightarrow> string \<Rightarrow> seconds \<Rightarrow> 's \<Rightarrow> 's" where
  "fail ops cfg i err t0 s =
     (case st_get ops s i of
        None \<Rightarrow> s
      | Some t \<Rightarrow>
          (let t1 = t\<lparr>attempts := attempts t + 1, last_error := err\<rparr>
           in if task_max_attempts t1 \<le> attempts t1 then
                (let t2 = t1\<lparr>status := TaskDead, lease_owner := '''', lease_until := 0\<rparr>
                 in st_mark_dead ops t2 (st_update ops t2 s))
              else
                (let backoff = base_backoff cfg * 2 ^ nat (attempts t1 - 1)
                 in st_update ops
                      (t1\<lparr>status := TaskQueued, lease_owner := '''', lease_until := 0,
                          scheduled_at := t0 + backoff\<rparr>) s)))"

definition dead_letters :: "('s, 'p) store_ops \<Rightarrow> 's \<Rightarrow> 'p task list" where
  "dead_letters ops s = st_dead_letters ops s"

section \<open>The worker\<close>

text \<open>The executor is a parameter: \<^const>\<open>None\<close> when it returns, the message when it raises.\<close>

definition run_once ::
  "('s, 'p) store_ops \<Rightarrow> queue_config \<Rightarrow> ('p task \<Rightarrow> string option) \<Rightarrow> string \<Rightarrow> seconds
     \<Rightarrow> seconds \<Rightarrow> 's \<Rightarrow> bool \<times> 's" where
  "run_once ops cfg executor owner visibility_timeout t0 s =
     (case claim ops cfg owner t0 visibility_timeout s of
        (None, s') \<Rightarrow> (False, s')
      | (Some t, s') \<Rightarrow>
          (case executor t of
             Some err \<Rightarrow> (True, fail ops cfg (task_id t) err t0 s')
           | None \<Rightarrow> (True, complete ops (task_id t) s')))"

text \<open>The polling loop: each round reads the stop flag and then the clock.\<close>

fun worker_run ::
  "('s, 'p) store_ops \<Rightarrow> queue_config \<Rightarrow> ('p task \<Rightarrow> string option) \<Rightarrow> string \<Rightarrow> seconds
     \<Rightarrow> (bool \<times> seconds) list \<Rightarrow> 's \<Rightarrow> 's" where
  "worker_run ops cfg executor owner vt [] s = s"
| "worker_run ops cfg executor owner vt ((stop, t0) # rounds) s =
     (if stop then s
      else worker_run ops cfg executor owner vt rounds (snd (run_once ops cfg executor owner vt t0 s)))"

section \<open>The store's contract\<close>

locale task_store =
  fixes ops :: "('s, 'p) store_ops" and store_ok :: "'s \<Rightarrow> bool"
  assumes get_all: "store_ok s \<Longrightarrow> st_get ops s i = List.find (\<lambda>t. task_id t = i) (st_all ops s)"
    and distinct_ids: "store_ok s \<Longrightarrow> distinct (map task_id (st_all ops s))"
    and distinct_keys: "store_ok s \<Longrightarrow> distinct (map idempotency_key (st_all ops s))"
    and id_for_key: "store_ok s \<Longrightarrow> st_id_for_key ops s k = scan_id_for_key (st_all ops s) k"
    and all_add: "store_ok s \<Longrightarrow> task_id t \<notin> task_id ` set (st_all ops s) \<Longrightarrow>
      st_all ops (st_add ops t s) = st_all ops s @ [t]"
    and all_update: "store_ok s \<Longrightarrow> n < length (st_all ops s) \<Longrightarrow>
      task_id t = task_id (st_all ops s ! n) \<Longrightarrow>
      st_all ops (st_update ops t s) = (st_all ops s)[n := t]"
    and all_mark_dead: "store_ok s \<Longrightarrow> st_all ops (st_mark_dead ops t s) = st_all ops s"
    and ok_add: "store_ok s \<Longrightarrow> task_id t \<notin> task_id ` set (st_all ops s) \<Longrightarrow>
      idempotency_key t \<notin> idempotency_key ` set (st_all ops s) \<Longrightarrow> store_ok (st_add ops t s)"
    and ok_update: "store_ok s \<Longrightarrow> n < length (st_all ops s) \<Longrightarrow>
      task_id t = task_id (st_all ops s ! n) \<Longrightarrow>
      idempotency_key t = idempotency_key (st_all ops s ! n) \<Longrightarrow> store_ok (st_update ops t s)"
    and ok_mark_dead: "store_ok s \<Longrightarrow> store_ok (st_mark_dead ops t s)"
begin

lemma find_id: "store_ok s \<Longrightarrow> t \<in> set (st_all ops s) \<Longrightarrow> st_get ops s (task_id t) = Some t"
proof -
  assume ok: "store_ok s" and t: "t \<in> set (st_all ops s)"
  have "inj_on task_id (set (st_all ops s))" using distinct_ids [OF ok] by (simp add: distinct_map)
  then have "x = t" if "x \<in> set (st_all ops s)" "task_id x = task_id t" for x
    using that t by (auto dest: inj_onD)
  moreover have "List.find (\<lambda>x. task_id x = task_id t) (st_all ops s) \<noteq> None"
    using t by (auto simp: find_None_iff)
  then obtain x where x: "List.find (\<lambda>x. task_id x = task_id t) (st_all ops s) = Some x" by auto
  then have "x \<in> set (st_all ops s)" "task_id x = task_id t"
    by (auto simp: find_Some_iff)
  ultimately show ?thesis using x by (simp add: get_all [OF ok])
qed

lemma getD: "store_ok s \<Longrightarrow> st_get ops s i = Some t \<Longrightarrow> t \<in> set (st_all ops s) \<and> task_id t = i"
  by (auto simp: get_all find_Some_iff)

text \<open>A task of the store, by its position.\<close>

lemma get_nth:
  assumes "store_ok s" and "st_get ops s i = Some t"
  obtains n where "n < length (st_all ops s)" and "st_all ops s ! n = t"
  using getD [OF assms] by (auto simp: in_set_conv_nth)

lemma known_key:
  assumes ok: "store_ok s" and t: "t \<in> set (st_all ops s)"
  shows "st_id_for_key ops s (idempotency_key t) = Some (task_id t)"
proof -
  have "inj_on idempotency_key (set (st_all ops s))"
    using distinct_keys [OF ok] by (simp add: distinct_map)
  then have same: "x = t" if "x \<in> set (st_all ops s)" "idempotency_key x = idempotency_key t" for x
    using that t by (auto dest: inj_onD)
  have "List.find (\<lambda>x. idempotency_key x = idempotency_key t) (st_all ops s) \<noteq> None"
    using t by (auto simp: find_None_iff)
  then obtain x where x: "List.find (\<lambda>x. idempotency_key x = idempotency_key t) (st_all ops s) = Some x"
    by auto
  then have "x = t" by (intro same) (auto simp: find_Some_iff)
  with x show ?thesis by (simp add: id_for_key [OF ok] scan_id_for_key_def)
qed

lemma unknown_key:
  "store_ok s \<Longrightarrow> k \<notin> idempotency_key ` set (st_all ops s) \<Longrightarrow> st_id_for_key ops s k = None"
  by (auto simp: id_for_key scan_id_for_key_def find_None_iff)

end

section \<open>The in-memory store keeps the contract\<close>

definition mem_ok :: "'p memory_store \<Rightarrow> bool" where
  "mem_ok s \<longleftrightarrow>
     distinct (map fst (tasks s)) \<and> list_all (\<lambda>(i, t). task_id t = i) (tasks s) \<and>
     distinct (map idempotency_key (mem_all s)) \<and>
     by_key s = map_of (map (\<lambda>t. (idempotency_key t, task_id t)) (mem_all s))"

lemma alist_update_new: "k \<notin> fst ` set xs \<Longrightarrow> AList.update k v xs = xs @ [(k, v)]"
  by (induction xs) auto

lemma alist_update_nth:
  "distinct (map fst xs) \<Longrightarrow> n < length xs \<Longrightarrow> fst (xs ! n) = k \<Longrightarrow>
     AList.update k v xs = xs[n := (k, v)]"
proof (induction xs arbitrary: n)
  case (Cons x xs)
  then show ?case
    by (cases n; cases x) auto
qed simp

lemma mem_ids: "mem_ok s \<Longrightarrow> map task_id (mem_all s) = map fst (tasks s)"
  by (auto simp: mem_ok_def mem_all_def list_all_iff)

lemma find_map_of:
  "list_all (\<lambda>(i, t). task_id t = i) xs \<Longrightarrow>
     map_of xs i = List.find (\<lambda>t. task_id t = i) (map snd xs)"
  by (induction xs) auto

lemma map_of_keys:
  "map_of (map (\<lambda>t. (idempotency_key t, task_id t)) ts) k = scan_id_for_key ts k"
  by (induction ts) (auto simp: scan_id_for_key_def)

lemma mem_all_add:
  assumes "mem_ok s" and "task_id t \<notin> task_id ` set (mem_all s)"
  shows "tasks (mem_add t s) = tasks s @ [(task_id t, t)]"
    and "mem_all (mem_add t s) = mem_all s @ [t]"
proof -
  have "fst ` set (tasks s) = task_id ` set (mem_all s)"
    using arg_cong [OF mem_ids [OF assms(1)], of set] by simp
  then show "tasks (mem_add t s) = tasks s @ [(task_id t, t)]"
    using assms(2) by (simp add: mem_add_def alist_update_new)
  then show "mem_all (mem_add t s) = mem_all s @ [t]"
    by (simp add: mem_all_def)
qed

lemma mem_all_update:
  assumes "mem_ok s" and "n < length (mem_all s)" and "task_id t = task_id (mem_all s ! n)"
  shows "tasks (mem_update t s) = (tasks s)[n := (task_id t, t)]"
    and "mem_all (mem_update t s) = (mem_all s)[n := t]"
proof -
  have "fst (tasks s ! n) = task_id t"
    using assms arg_cong [OF mem_ids [OF assms(1)], of "\<lambda>xs. xs ! n"]
    by (simp add: mem_all_def)
  then show "tasks (mem_update t s) = (tasks s)[n := (task_id t, t)]"
    using assms by (simp add: mem_update_def alist_update_nth mem_ok_def mem_all_def)
  then show "mem_all (mem_update t s) = (mem_all s)[n := t]"
    by (simp add: mem_all_def map_update)
qed

lemma mem_ok_add:
  assumes "mem_ok s" and "task_id t \<notin> task_id ` set (mem_all s)"
    and "idempotency_key t \<notin> idempotency_key ` set (mem_all s)"
  shows "mem_ok (mem_add t s)"
proof -
  have ids: "fst ` set (tasks s) = task_id ` set (mem_all s)"
    using arg_cong [OF mem_ids [OF assms(1)], of set] by simp
  have "by_key (mem_add t s) = map_of (map (\<lambda>t. (idempotency_key t, task_id t)) (mem_all s @ [t]))"
  proof -
    have "map_of (map (\<lambda>t. (idempotency_key t, task_id t)) (mem_all s)) (idempotency_key t) = None"
      using assms(3) by (auto simp: map_of_eq_None_iff)
    moreover have "by_key (mem_add t s) = (by_key s)(idempotency_key t \<mapsto> task_id t)"
      by (simp add: mem_add_def)
    ultimately show ?thesis
      using assms(1) by (auto simp: mem_ok_def map_add_def split: option.split)
  qed
  then show ?thesis
    using assms ids unfolding mem_ok_def mem_all_add [OF assms(1,2)] by simp
qed

lemma mem_ok_update:
  assumes ok: "mem_ok s" and n: "n < length (mem_all s)"
    and i: "task_id t = task_id (mem_all s ! n)"
    and k: "idempotency_key t = idempotency_key (mem_all s ! n)"
  shows "mem_ok (mem_update t s)"
proof -
  note all = mem_all_update [OF ok n i]
  have n': "n < length (tasks s)" using n by (simp add: mem_all_def)
  have fst: "fst (tasks s ! n) = task_id t"
    using n' i arg_cong [OF mem_ids [OF ok], of "\<lambda>xs. xs ! n"] by (simp add: mem_all_def)
  have "map fst (tasks (mem_update t s)) = map fst (tasks s)"
    using fst n' by (simp add: all map_update list_update_same_conv)
  moreover have "map idempotency_key (mem_all (mem_update t s)) = map idempotency_key (mem_all s)"
    using k n by (simp add: all map_update list_update_same_conv)
  moreover have "map (\<lambda>t. (idempotency_key t, task_id t)) (mem_all (mem_update t s))
      = map (\<lambda>t. (idempotency_key t, task_id t)) (mem_all s)"
    using k i n by (simp add: all map_update list_update_same_conv)
  moreover have "list_all (\<lambda>(i, t). task_id t = i) (tasks (mem_update t s))"
    using ok set_update_subset_insert [of "tasks s" n "(task_id t, t)"]
    by (auto simp: all mem_ok_def list_all_iff)
  moreover have "by_key (mem_update t s) = by_key s" by (simp add: mem_update_def)
  ultimately show ?thesis using ok by (simp add: mem_ok_def)
qed

interpretation mem: task_store memory_ops mem_ok
proof (unfold_locales, goal_cases)
  case (1 s i)
  then show ?case by (simp add: memory_ops_def mem_get_def mem_ok_def find_map_of mem_all_def)
next
  case (2 s)
  then show ?case using mem_ids [of s] by (simp add: memory_ops_def mem_ok_def)
next
  case (3 s)
  then show ?case by (simp add: memory_ops_def mem_ok_def)
next
  case (4 s k)
  then show ?case by (simp add: memory_ops_def mem_id_for_key_def mem_ok_def map_of_keys)
next
  case (5 s t)
  then show ?case by (simp add: memory_ops_def mem_all_add)
next
  case (6 s n t)
  then show ?case by (simp add: memory_ops_def mem_all_update)
next
  case (7 s t)
  then show ?case by (simp add: memory_ops_def mem_all_def mem_mark_dead_def)
next
  case (8 s t)
  then show ?case by (simp add: memory_ops_def mem_ok_add)
next
  case (9 s n t)
  then show ?case by (simp add: memory_ops_def mem_ok_update)
next
  case (10 s t)
  then show ?case by (simp add: memory_ops_def mem_ok_def mem_all_def mem_mark_dead_def)
qed

end
