(* ===== verification/ToolQueueRuns.thy ===== *)
theory ToolQueueRuns
  imports ToolQueue
begin

text \<open>
  What the tool queue guarantees over runs: the lemmas of \<open>claim\<close>, \<open>complete\<close> and
  \<open>fail\<close> over any store that keeps the contract \<open>task_store\<close>, the operations as a labelled step
  relation, and the properties over the in-memory store: idempotent creation, exclusive
  leases, the concurrency cap, priority order, and what happens to the tasks of a crashed worker.
  Each operation is one step: the source takes no lock around reading and updating the store, so the runs are those
  of one worker thread, or of callers that do not interrupt each other inside an operation.
\<close>

section \<open>The operations over a lawful store\<close>

text \<open>The task \<open>fail\<close> writes back.\<close>

definition failed :: "queue_config \<Rightarrow> string \<Rightarrow> seconds \<Rightarrow> 'p task \<Rightarrow> 'p task" where
  "failed cfg err t0 t =
     (if task_max_attempts t \<le> attempts t + 1 then
        t\<lparr>attempts := attempts t + 1, last_error := err, status := TaskDead, lease_owner := '''',
          lease_until := 0\<rparr>
      else
        t\<lparr>attempts := attempts t + 1, last_error := err, status := TaskQueued, lease_owner := '''',
          lease_until := 0, scheduled_at := t0 + base_backoff cfg * 2 ^ nat (attempts t)\<rparr>)"

lemma failed_simps [simp]:
  "task_id (failed cfg err t0 t) = task_id t"
  "idempotency_key (failed cfg err t0 t) = idempotency_key t"
  "rate_limit_key (failed cfg err t0 t) = rate_limit_key t"
  "status (failed cfg err t0 t) = (if task_max_attempts t \<le> attempts t + 1 then TaskDead else TaskQueued)"
  by (simp_all add: failed_def)

lemma lease_to_simps [simp]:
  "task_id (lease_to owner t0 vt t) = task_id t"
  "idempotency_key (lease_to owner t0 vt t) = idempotency_key t"
  "rate_limit_key (lease_to owner t0 vt t) = rate_limit_key t"
  "priority (lease_to owner t0 vt t) = priority t"
  "status (lease_to owner t0 vt t) = TaskProcessing"
  "lease_owner (lease_to owner t0 vt t) = owner"
  "lease_until (lease_to owner t0 vt t) = t0 + vt"
  by (simp_all add: lease_to_def)

context task_store
begin

lemma claim_None:
  "claim ops cfg owner t0 vt s = (None, s') \<Longrightarrow> s' = s"
  by (auto simp: claim_def Let_def split: option.splits)

lemma claim_Some:
  assumes ok: "store_ok s" and claim: "claim ops cfg owner t0 vt s = (Some t', s')"
  obtains n t where "n < length (st_all ops s)" and "t = st_all ops s ! n"
    and "t' = lease_to owner t0 vt t" and "claimable t0 t" and "\<not> throttled cfg (st_all ops s) t"
    and "s' = st_update ops t' s" and "st_all ops s' = (st_all ops s)[n := t']" and "store_ok s'"
    and "List.find (\<lambda>u. (claimable t0 u \<and> \<not> throttled cfg (st_all ops s) u) \<and> priority u = priority t)
           (st_all ops s) = Some t"
    and "\<forall>u \<in> set (st_all ops s). claimable t0 u \<and> \<not> throttled cfg (st_all ops s) u \<longrightarrow>
           priority t \<le> priority u"
proof -
  let ?ts = "st_all ops s"
  let ?P = "\<lambda>u. claimable t0 u \<and> \<not> throttled cfg ?ts u"
  from claim obtain t where
    f: "List.find (\<lambda>t. \<not> throttled cfg ?ts t) (sort_key priority (filter (claimable t0) ?ts)) = Some t"
    and t': "t' = lease_to owner t0 vt t" and s': "s' = st_update ops t' s"
    by (auto simp: claim_def Let_def split: option.splits)
  have "List.find ?P (sort_key priority ?ts) = Some t"
    using f unfolding filter_sort [symmetric] find_filter_hd by (simp add: conj_commute)
  note first = find_sort_key [OF this]
  then have t: "t \<in> set ?ts" "?P t" by (auto simp: find_Some_iff)
  then obtain n where n: "n < length ?ts" "t = ?ts ! n" by (auto simp: in_set_conv_nth)
  have ids: "task_id t' = task_id (?ts ! n)" "idempotency_key t' = idempotency_key (?ts ! n)"
    by (simp_all add: t' n(2))
  show ?thesis
    using that [OF n t' _ _ s' _ _ first(2) first(1)] t(2)
      all_update [OF ok n(1) ids(1)] ok_update [OF ok n(1) ids] by (simp add: s')
qed

lemma ok_claim: "store_ok s \<Longrightarrow> claim ops cfg owner t0 vt s = (r, s') \<Longrightarrow> store_ok s'"
  by (cases r) (use claim_None claim_Some in blast)+

lemma enqueue_known:
  "store_ok s \<Longrightarrow> u \<in> set (st_all ops s) \<Longrightarrow> idempotency_key t = idempotency_key u \<Longrightarrow>
     enqueue_task ops t s = (task_id u, s)"
  by (simp add: enqueue_task_def known_key find_id)

lemma enqueue_new:
  "store_ok s \<Longrightarrow> idempotency_key t \<notin> idempotency_key ` set (st_all ops s) \<Longrightarrow>
     enqueue_task ops t s = (task_id t, st_add ops t s)"
  by (simp add: enqueue_task_def unknown_key)

lemma ok_enqueue:
  assumes "store_ok s" and "task_id t \<notin> task_id ` set (st_all ops s)"
  shows "store_ok (snd (enqueue_task ops t s))"
  using assms enqueue_new [of s t] enqueue_known [of s _ t]
  by (cases "idempotency_key t \<in> idempotency_key ` set (st_all ops s)") (auto simp: ok_add)

text \<open>A task replaced by one with the same identity.\<close>

lemma get_update:
  assumes "store_ok s" and "st_get ops s i = Some t"
    and "task_id t' = task_id t" and "idempotency_key t' = idempotency_key t"
  obtains n where "n < length (st_all ops s)" and "t = st_all ops s ! n"
    and "st_all ops (st_update ops t' s) = (st_all ops s)[n := t']"
    and "store_ok (st_update ops t' s)"
proof -
  obtain n where n: "n < length (st_all ops s)" "st_all ops s ! n = t"
    using get_nth [OF assms(1,2)] .
  with assms(3,4) show ?thesis
    using that all_update [OF assms(1) n(1), of t'] ok_update [OF assms(1) n(1), of t'] by simp
qed

lemma complete_Some:
  assumes ok: "store_ok s" and get: "st_get ops s i = Some t"
  obtains n where "n < length (st_all ops s)" and "t = st_all ops s ! n"
    and "st_all ops (complete ops i s) =
      (st_all ops s)[n := t\<lparr>status := TaskDone, lease_owner := '''', lease_until := 0\<rparr>]"
    and "store_ok (complete ops i s)"
proof -
  let ?t = "t\<lparr>status := TaskDone, lease_owner := '''', lease_until := 0\<rparr>"
  have "complete ops i s = st_update ops ?t s" by (simp add: complete_def get)
  then show ?thesis using get_update [OF ok get, of ?t] that by (auto simp del: nth_list_update)
qed

lemma fail_Some:
  assumes ok: "store_ok s" and get: "st_get ops s i = Some t"
  obtains n where "n < length (st_all ops s)" and "t = st_all ops s ! n"
    and "st_all ops (fail ops cfg i err t0 s) = (st_all ops s)[n := failed cfg err t0 t]"
    and "store_ok (fail ops cfg i err t0 s)"
proof -
  obtain n where n: "n < length (st_all ops s)" "t = st_all ops s ! n"
    "st_all ops (st_update ops (failed cfg err t0 t) s) = (st_all ops s)[n := failed cfg err t0 t]"
    "store_ok (st_update ops (failed cfg err t0 t) s)"
    using get_update [OF ok get, of "failed cfg err t0 t"] by auto
  show ?thesis
  proof (cases "task_max_attempts t \<le> attempts t + 1")
    case True
    then have "fail ops cfg i err t0 s
        = st_mark_dead ops (failed cfg err t0 t) (st_update ops (failed cfg err t0 t) s)"
      by (simp add: fail_def get failed_def Let_def)
    then show ?thesis using that n all_mark_dead [OF n(4)] ok_mark_dead [OF n(4)] by simp
  next
    case False
    then have "fail ops cfg i err t0 s = st_update ops (failed cfg err t0 t) s"
      by (simp add: fail_def get failed_def Let_def)
    then show ?thesis using that n by simp
  qed
qed

lemma complete_None: "st_get ops s i = None \<Longrightarrow> complete ops i s = s"
  by (simp add: complete_def)

lemma fail_None: "st_get ops s i = None \<Longrightarrow> fail ops cfg i err t0 s = s"
  by (simp add: fail_def)

lemma ok_complete: "store_ok s \<Longrightarrow> store_ok (complete ops i s)"
  by (cases "st_get ops s i") (auto simp: complete_None elim: complete_Some)

lemma ok_fail: "store_ok s \<Longrightarrow> store_ok (fail ops cfg i err t0 s)"
  by (cases "st_get ops s i") (auto simp: fail_None elim: fail_Some)

end

section \<open>Runs over the in-memory store\<close>

lemma memory_ops_simps [simp]:
  "st_all memory_ops s = mem_all s"
  "st_get memory_ops s = mem_get s"
  "st_add memory_ops t s = mem_add t s"
  "st_update memory_ops t s = mem_update t s"
  "st_dead_letters memory_ops s = mem_dead_letters s"
  by (simp_all add: memory_ops_def)

text \<open>The operations as labels; the worker's rounds are claims followed by an acknowledgement.\<close>

datatype 'p queue_op =
    OpEnqueue string string 'p string string int string int
  | OpClaim string seconds seconds
  | OpComplete string
  | OpFail string string seconds

fun queue_do :: "queue_config \<Rightarrow> 'p queue_op \<Rightarrow> 'p memory_store \<Rightarrow> 'p memory_store" where
  "queue_do cfg (OpEnqueue uid tool pay key qname prio limit_key max_att) s =
     snd (enqueue memory_ops uid tool pay key qname prio limit_key max_att s)"
| "queue_do cfg (OpClaim owner t0 vt) s = snd (claim memory_ops cfg owner t0 vt s)"
| "queue_do cfg (OpComplete i) s = complete memory_ops i s"
| "queue_do cfg (OpFail i err t0) s = fail memory_ops cfg i err t0 s"

text \<open>\<open>uuid4\<close> draws an id that is not in the store.\<close>

fun fresh_op :: "'p queue_op \<Rightarrow> 'p memory_store \<Rightarrow> bool" where
  "fresh_op (OpEnqueue uid tool pay key qname prio limit_key max_att) s \<longleftrightarrow>
     uid \<notin> task_id ` set (mem_all s)"
| "fresh_op op s \<longleftrightarrow> True"

text \<open>A step of a run whose operations all satisfy \<^term>\<open>P\<close>.\<close>

inductive queue_step ::
  "('p queue_op \<Rightarrow> bool) \<Rightarrow> queue_config \<Rightarrow> 'p memory_store \<Rightarrow> 'p memory_store \<Rightarrow> bool"
  for P :: "'p queue_op \<Rightarrow> bool" and cfg :: queue_config where
  "P op \<Longrightarrow> fresh_op op s \<Longrightarrow> queue_step P cfg s (queue_do cfg op s)"

inductive_cases queue_stepE: "queue_step P cfg s s'"

text \<open>What one operation does to the list of tasks.\<close>

lemma queue_do_enqueue:
  assumes ok: "mem_ok s" and uid: "uid \<notin> task_id ` set (mem_all s)"
  shows "mem_all (queue_do cfg (OpEnqueue uid tool pay key qname prio limit_key max_att) s) = mem_all s \<or>
    mem_all (queue_do cfg (OpEnqueue uid tool pay key qname prio limit_key max_att) s) =
      mem_all s @ [new_task uid tool pay key qname prio limit_key max_att]"
proof -
  let ?t = "new_task uid tool pay key qname prio limit_key max_att"
  have id: "task_id ?t = uid" by (simp add: new_task_def)
  show ?thesis
  proof (cases "idempotency_key ?t \<in> idempotency_key ` set (mem_all s)")
    case True
    then show ?thesis using mem.enqueue_known [OF ok, of _ ?t] by (auto simp: enqueue_def)
  next
    case False
    then have "queue_do cfg (OpEnqueue uid tool pay key qname prio limit_key max_att) s = mem_add ?t s"
      using mem.enqueue_new [OF ok, of ?t] by (simp add: enqueue_def)
    then show ?thesis using mem_all_add(2) [OF ok, of ?t] uid id by simp
  qed
qed

lemma queue_do_cases:
  assumes ok: "mem_ok s" and fresh: "fresh_op op s"
  obtains (same) "mem_all (queue_do cfg op s) = mem_all s"
  | (new) uid tool pay key qname prio limit_key max_att where
      "op = OpEnqueue uid tool pay key qname prio limit_key max_att"
      "mem_all (queue_do cfg op s) =
         mem_all s @ [new_task uid tool pay key qname prio limit_key max_att]"
      "uid \<notin> task_id ` set (mem_all s)"
  | (lease) owner t0 vt n where "op = OpClaim owner t0 vt" "n < length (mem_all s)"
      "claimable t0 (mem_all s ! n)" "\<not> throttled cfg (mem_all s) (mem_all s ! n)"
      "mem_all (queue_do cfg op s) = (mem_all s)[n := lease_to owner t0 vt (mem_all s ! n)]"
  | (completed) i n where "op = OpComplete i" "n < length (mem_all s)" "task_id (mem_all s ! n) = i"
      "mem_all (queue_do cfg op s) =
        (mem_all s)[n := (mem_all s ! n)\<lparr>status := TaskDone, lease_owner := '''', lease_until := 0\<rparr>]"
  | (failed) i err t0 n where "op = OpFail i err t0" "n < length (mem_all s)"
      "task_id (mem_all s ! n) = i"
      "mem_all (queue_do cfg op s) = (mem_all s)[n := failed cfg err t0 (mem_all s ! n)]"
proof (cases op)
  case (OpEnqueue uid tool pay key qname prio limit_key max_att)
  then show ?thesis
    using queue_do_enqueue [OF ok, of uid cfg tool pay key qname prio limit_key max_att] fresh same new [OF OpEnqueue]
    by auto
next
  case (OpClaim owner t0 vt)
  show ?thesis
  proof (cases "claim memory_ops cfg owner t0 vt s")
    case (Pair r s')
    show ?thesis
    proof (cases r)
      case None
      then show ?thesis using mem.claim_None [of cfg owner t0 vt s s'] Pair OpClaim
        by (intro same) simp
    next
      case (Some t')
      from mem.claim_Some [OF ok Pair [unfolded Some]] lease [OF OpClaim] OpClaim Pair
      show ?thesis by (metis memory_ops_simps(1) queue_do.simps(2) snd_conv)
    qed
  qed
next
  case (OpComplete i)
  show ?thesis
  proof (cases "mem_get s i")
    case None
    then show ?thesis using mem.complete_None [of s i] OpComplete by (intro same) simp
  next
    case (Some t)
    with mem.getD [OF ok, of i t] have "task_id t = i" by simp
    with mem.complete_Some [OF ok, of i t] Some completed [OF OpComplete] OpComplete
    show ?thesis by (metis memory_ops_simps(1,2) queue_do.simps(3))
  qed
next
  case (OpFail i err t0)
  show ?thesis
  proof (cases "mem_get s i")
    case None
    then show ?thesis using mem.fail_None [of s i] OpFail by (intro same) simp
  next
    case (Some t)
    with mem.getD [OF ok, of i t] have "task_id t = i" by simp
    with mem.fail_Some [OF ok, of i t cfg err t0] Some failed [OF OpFail] OpFail
    show ?thesis by (metis memory_ops_simps(1,2) queue_do.simps(4))
  qed
qed

lemma queue_do_ok: "mem_ok s \<Longrightarrow> fresh_op op s \<Longrightarrow> mem_ok (queue_do cfg op s)"
proof (cases op)
  case (OpEnqueue uid tool pay key qname prio limit_key max_att)
  let ?t = "new_task uid tool pay key qname prio limit_key max_att"
  have "task_id ?t = uid" by (simp add: new_task_def)
  moreover assume "mem_ok s" "fresh_op op s"
  ultimately show ?thesis using mem.ok_enqueue [of s ?t] OpEnqueue by (simp add: enqueue_def)
next
  case (OpClaim owner t0 vt)
  assume "mem_ok s"
  then show ?thesis using mem.ok_claim [of s cfg owner t0 vt] OpClaim
    by (cases "claim memory_ops cfg owner t0 vt s") simp
next
  case (OpComplete i)
  assume "mem_ok s"
  then show ?thesis using mem.ok_complete [of s i] OpComplete by simp
next
  case (OpFail i err t0)
  assume "mem_ok s"
  then show ?thesis using mem.ok_fail [of s cfg i err t0] OpFail by simp
qed

lemma mem_ok_empty [simp]: "mem_ok empty_store"
  by (simp add: mem_ok_def empty_store_def mem_all_def)

lemma enqueue_ok:
  "mem_ok s \<Longrightarrow> uid \<notin> task_id ` set (mem_all s) \<Longrightarrow>
     mem_ok (snd (enqueue memory_ops uid tool pay key qname prio limit_key max_att s))"
  using mem.ok_enqueue [of s "new_task uid tool pay key qname prio limit_key max_att"]
  by (simp add: enqueue_def new_task_def)

lemma claim_ok: "mem_ok s \<Longrightarrow> mem_ok (snd (claim memory_ops cfg owner t0 vt s))"
  by (cases "claim memory_ops cfg owner t0 vt s") (simp add: mem.ok_claim)

subsection \<open>The concurrency cap\<close>

definition within_cap :: "queue_config \<Rightarrow> 'p memory_store \<Rightarrow> bool" where
  "within_cap cfg s \<longleftrightarrow> (\<forall>k. k \<noteq> '''' \<longrightarrow> in_flight (mem_all s) k \<le> rate_limit_max cfg)"

definition processing :: "string \<Rightarrow> 'p task \<Rightarrow> bool" where
  "processing k t \<longleftrightarrow> status t = TaskProcessing \<and> rate_limit_key t = k"

lemma in_flight_processing: "in_flight ts k = int (length (filter (processing k) ts))"
  unfolding in_flight_def processing_def ..

lemma in_flight_update:
  assumes "n < length ts"
  shows "in_flight (ts[n := t]) k
    = in_flight ts k + of_bool (processing k t) - of_bool (processing k (ts ! n))"
  using length_filter_update [OF assms, of "processing k" t]
  by (simp add: in_flight_processing split: if_splits)

lemma in_flight_append: "in_flight (ts @ [t]) k = in_flight ts k + of_bool (processing k t)"
  by (simp add: in_flight_processing)

lemma queue_do_cap:
  assumes ok: "mem_ok s" and fresh: "fresh_op op s" and cap: "within_cap cfg s"
  shows "within_cap cfg (queue_do cfg op s)"
  unfolding within_cap_def
proof (intro allI impI)
  fix k :: string assume k: "k \<noteq> ''''"
  have old: "in_flight (mem_all s) k \<le> rate_limit_max cfg" using cap k by (simp add: within_cap_def)
  show "in_flight (mem_all (queue_do cfg op s)) k \<le> rate_limit_max cfg"
    using ok fresh
  proof (cases rule: queue_do_cases [where cfg = cfg, case_names same new lease completed failed])
    case same
    then show ?thesis using old by simp
  next
    case (new uid tool pay key qname prio limit_key max_att)
    then show ?thesis using old by (simp add: in_flight_append processing_def new_task_def)
  next
    case (lease owner t0 vt n)
    have "\<not> rate_limit_max cfg \<le> in_flight (mem_all s) k" if "rate_limit_key (mem_all s ! n) = k"
      using lease(4) that k by (simp add: throttled_def)
    then show ?thesis using old lease(2,5) by (auto simp: in_flight_update processing_def)
  next
    case (completed i n)
    then show ?thesis using old by (simp add: in_flight_update processing_def)
  next
    case (failed i err t0 n)
    then show ?thesis using old by (simp add: in_flight_update processing_def)
  qed
qed

interpretation tool_queue: safe_system "\<lambda>s. s = empty_store" "queue_step (\<lambda>_. True) cfg"
  "\<lambda>s. mem_ok s \<and> (1 \<le> rate_limit_max cfg \<longrightarrow> within_cap cfg s)" for cfg
proof (unfold_locales, goal_cases)
  case (1 s)
  then show ?case by (simp add: within_cap_def in_flight_def) (simp add: empty_store_def mem_all_def)
next
  case (2 s t)
  then show ?case by (auto elim!: queue_stepE intro: queue_do_ok queue_do_cap)
qed

text \<open>
  C11: per rate-limit key, the queue never has more tasks in processing than the cap it was
  constructed with (at least 1), whatever operations ran before.
\<close>

theorem concurrency_cap_holds:
  assumes "(queue_step (\<lambda>_. True) (new_queue limit backoff))\<^sup>*\<^sup>* empty_store s" and "k \<noteq> ''''"
  shows "in_flight (mem_all s) k \<le> max 1 limit"
proof -
  have "mem_ok s \<and> (1 \<le> rate_limit_max (new_queue limit backoff) \<longrightarrow> within_cap (new_queue limit backoff) s)"
    by (rule tool_queue.reachable_inv [OF refl assms(1)])
  then show ?thesis using assms(2) by (simp add: within_cap_def new_queue_def)
qed

theorem concurrency_cap_holds_witness:
  "in_flight (mem_all (queue_do (new_queue 0 1) (OpClaim ''w'' 0 30)
      (queue_do (new_queue 0 1) (OpEnqueue ''a'' ''export'' () ''ka'' ''default'' 5 ''room'' 3)
        empty_store))) ''room'' \<le> max 1 0"
proof (rule concurrency_cap_holds [where backoff = 1])
  let ?cfg = "new_queue 0 1"
  have "queue_step (\<lambda>_. True) ?cfg empty_store
     (queue_do ?cfg (OpEnqueue ''a'' ''export'' () ''ka'' ''default'' 5 ''room'' 3) empty_store)"
    by (intro queue_step.intros) (simp_all add: empty_store_def mem_all_def)
  moreover have "queue_step (\<lambda>_. True) ?cfg s (queue_do ?cfg (OpClaim ''w'' 0 30) s)"
    for s :: "unit memory_store"
    by (intro queue_step.intros) simp_all
  ultimately show "(queue_step (\<lambda>_. True) ?cfg)\<^sup>*\<^sup>* empty_store
     (queue_do ?cfg (OpClaim ''w'' 0 30)
       (queue_do ?cfg (OpEnqueue ''a'' ''export'' () ''ka'' ''default'' 5 ''room'' 3) empty_store))"
    by (rule rtranclp.rtrancl_into_rtrancl [OF r_into_rtranclp])
qed simp

subsection \<open>Idempotent creation\<close>

text \<open>A task never loses its id or its key: operations keep the pairs in place.\<close>

definition identities :: "'p memory_store \<Rightarrow> (string \<times> string) list" where
  "identities s = map (\<lambda>t. (task_id t, idempotency_key t)) (mem_all s)"

lemma queue_do_identities:
  assumes ok: "mem_ok s" and fresh: "fresh_op op s"
  shows "\<exists>new. identities (queue_do cfg op s) = identities s @ new"
  using ok fresh
proof (cases rule: queue_do_cases [where cfg = cfg, case_names same new lease completed failed])
  case (lease owner t0 vt n)
  then show ?thesis by (intro exI [of _ "[]"]) (simp add: identities_def map_update_same)
next
  case (completed i n)
  then show ?thesis by (intro exI [of _ "[]"]) (simp add: identities_def map_update_same)
next
  case (failed i err t0 n)
  then show ?thesis by (intro exI [of _ "[]"]) (simp add: identities_def map_update_same)
qed (auto simp: identities_def)

lemma queue_run_identities:
  assumes "(queue_step P cfg)\<^sup>*\<^sup>* s s'" and "mem_ok s"
  shows "mem_ok s' \<and> set (identities s) \<subseteq> set (identities s')"
  using assms
proof (induction rule: rtranclp_induct)
  case (step u v)
  then have u: "mem_ok u" "set (identities s) \<subseteq> set (identities u)" by auto
  from step.hyps(2) obtain op where op: "fresh_op op u" "v = queue_do cfg op u"
    by (blast elim: queue_stepE)
  then show ?case using queue_do_ok [OF u(1) op(1)] queue_do_identities [OF u(1) op(1), of cfg] u(2)
    by auto
qed simp

lemma known_identity:
  assumes "mem_ok s" and "(i, key) \<in> set (identities s)"
  shows "enqueue memory_ops uid tool pay key qname prio limit_key max_att s = (i, s)"
proof -
  from assms(2) obtain u where u: "u \<in> set (mem_all s)" "task_id u = i" "idempotency_key u = key"
    by (auto simp: identities_def)
  then show ?thesis
    using mem.enqueue_known [OF assms(1), of u "new_task uid tool pay key qname prio limit_key max_att"]
    by (simp add: enqueue_def new_task_def)
qed

lemma enqueue_identity:
  assumes ok: "mem_ok s" and uid: "uid \<notin> task_id ` set (mem_all s)"
    and enq: "enqueue memory_ops uid tool pay key qname prio limit_key max_att s = (i, s')"
  shows "mem_ok s' \<and> (i, key) \<in> set (identities s')"
proof -
  let ?t = "new_task uid tool pay key qname prio limit_key max_att"
  have t: "task_id ?t = uid" "idempotency_key ?t = key" by (simp_all add: new_task_def)
  show ?thesis
  proof (cases "key \<in> idempotency_key ` set (mem_all s)")
    case True
    then obtain u where u: "u \<in> set (mem_all s)" "idempotency_key ?t = idempotency_key u"
      by (auto simp: t)
    then have "i = task_id u" "s' = s"
      using mem.enqueue_known [OF ok, of u ?t] enq by (auto simp: enqueue_def)
    then show ?thesis using ok u t by (auto simp: identities_def)
  next
    case False
    then have "i = uid \<and> s' = mem_add ?t s"
      using mem.enqueue_new [OF ok, of ?t] enq t by (auto simp: enqueue_def)
    then show ?thesis
      using mem_all_add(2) [OF ok, of ?t] mem_ok_add [OF ok, of ?t] uid t False
      by (simp add: identities_def)
  qed
qed

text \<open>
  C9: enqueueing is idempotent per key: once a key was enqueued with task id \<open>i\<close>, then after any
  further operations (claims, completions, failures, dead-lettering, other tasks) enqueueing the
  same key, with whatever tool and payload, returns \<open>i\<close> again and leaves the store unchanged.
\<close>

theorem enqueue_is_idempotent:
  assumes "(queue_step (\<lambda>_. True) cfg)\<^sup>*\<^sup>* empty_store s" and "uid \<notin> task_id ` set (mem_all s)"
    and "enqueue memory_ops uid tool pay key qname prio limit_key max_att s = (i, s1)"
    and "(queue_step (\<lambda>_. True) cfg)\<^sup>*\<^sup>* s1 s2"
  shows "enqueue memory_ops uid' tool' pay' key qname' prio' limit_key' max_att' s2 = (i, s2)"
proof -
  have "mem_ok s" using queue_run_identities [OF assms(1)] by simp
  from enqueue_identity [OF this assms(2,3)]
  have s1: "mem_ok s1" "(i, key) \<in> set (identities s1)" by auto
  with queue_run_identities [OF assms(4)] have "mem_ok s2" "(i, key) \<in> set (identities s2)" by auto
  then show ?thesis by (rule known_identity)
qed

theorem enqueue_is_idempotent_witness:
  "\<exists>s1 s2 :: nat memory_store.
     enqueue memory_ops ''a'' ''export'' 1 ''k'' ''default'' 5 '''' 3 empty_store = (''a'', s1) \<and>
     s2 = queue_do (new_queue 4 1) (OpComplete ''a'') s1 \<and>
     enqueue memory_ops ''b'' ''other'' 2 ''k'' ''default'' 1 '''' 1 s2 = (''a'', s2)"
proof (intro exI conjI)
  let ?s1 = "snd (enqueue memory_ops ''a'' ''export'' (1 :: nat) ''k'' ''default'' 5 '''' 3 empty_store)"
  let ?s2 = "queue_do (new_queue 4 1) (OpComplete ''a'') ?s1"
  show enq: "enqueue memory_ops ''a'' ''export'' 1 ''k'' ''default'' 5 '''' 3 empty_store = (''a'', ?s1)"
    proof (rule prod_eqI)
    show "fst (enqueue memory_ops ''a'' ''export'' (1 :: nat) ''k'' ''default'' 5 '''' 3 empty_store)
      = fst (''a'', ?s1)" by code_simp
  qed simp
  have "queue_step (\<lambda>_. True) (new_queue 4 1) ?s1 ?s2" by (intro queue_step.intros) simp_all
  then have run: "(queue_step (\<lambda>_. True) (new_queue 4 1))\<^sup>*\<^sup>* ?s1 ?s2" by simp
  show "enqueue memory_ops ''b'' ''other'' 2 ''k'' ''default'' 1 '''' 1 ?s2 = (''a'', ?s2)"
    by (rule enqueue_is_idempotent [OF rtranclp.rtrancl_refl _ enq run])
      (simp add: empty_store_def mem_all_def)
qed (rule refl)

subsection \<open>Leases\<close>

text \<open>Task \<open>i\<close> is held by a lease that lasts until \<open>t1\<close>.\<close>

definition held_until :: "string \<Rightarrow> seconds \<Rightarrow> 'p memory_store \<Rightarrow> bool" where
  "held_until i t1 s \<longleftrightarrow>
     (\<exists>t \<in> set (mem_all s). task_id t = i \<and> status t = TaskProcessing \<and> lease_owner t \<noteq> '''' \<and>
        lease_until t = t1)"

text \<open>The operations other parties do: claims before \<open>t1\<close>, and acknowledgements of other tasks.\<close>

fun leaves_alone :: "string \<Rightarrow> seconds \<Rightarrow> 'p queue_op \<Rightarrow> bool" where
  "leaves_alone i t1 (OpEnqueue uid tool pay key qname prio limit_key max_att) \<longleftrightarrow> True"
| "leaves_alone i t1 (OpClaim owner t0 vt) \<longleftrightarrow> t0 < t1"
| "leaves_alone i t1 (OpComplete j) \<longleftrightarrow> j \<noteq> i"
| "leaves_alone i t1 (OpFail j err t0) \<longleftrightarrow> j \<noteq> i"

lemma member_update:
  "x \<in> set xs \<Longrightarrow> x \<noteq> xs ! n \<Longrightarrow> x \<in> set (xs[n := y])"
  by (metis in_set_conv_nth length_list_update nth_list_update_neq)

lemma mem_claim:
  assumes "mem_ok s" and "claim memory_ops cfg owner t0 vt s = (Some t', s')"
  shows "\<exists>n < length (mem_all s). t' = lease_to owner t0 vt (mem_all s ! n) \<and>
    claimable t0 (mem_all s ! n) \<and> \<not> throttled cfg (mem_all s) (mem_all s ! n) \<and>
    mem_all s' = (mem_all s)[n := t'] \<and> mem_ok s'"
  by (rule mem.claim_Some [OF assms]) auto

lemma held_claim:
  assumes ok: "mem_ok s" and held: "held_until i t1 s" and t0: "t0 < t1"
    and claim: "claim memory_ops cfg owner t0 vt s = (Some t', s')"
  shows "task_id t' \<noteq> i"
proof
  assume i: "task_id t' = i"
  obtain n where n: "n < length (mem_all s)" "t' = lease_to owner t0 vt (mem_all s ! n)"
    and free: "claimable t0 (mem_all s ! n)"
    using mem_claim [OF ok claim] by auto
  obtain u where u: "u \<in> set (mem_all s)" "task_id u = i" "lease_owner u \<noteq> ''''" "lease_until u = t1"
    using held by (auto simp: held_until_def)
  have "mem_get s i = Some u" using mem.find_id [OF ok, of u] u by simp
  moreover have "mem_get s i = Some (mem_all s ! n)"
    using mem.find_id [OF ok, of "mem_all s ! n"] n i by simp
  ultimately show False using free u t0 by (simp add: claimable_def)
qed

lemma queue_do_held:
  assumes ok: "mem_ok s" and fresh: "fresh_op op s" and held: "held_until i t1 s"
    and alone: "leaves_alone i t1 op"
  shows "held_until i t1 (queue_do cfg op s)"
proof -
  obtain u where u: "u \<in> set (mem_all s)" "task_id u = i" "lease_owner u \<noteq> ''''" "lease_until u = t1"
    "status u = TaskProcessing" using held by (auto simp: held_until_def)
  have keep: "held_until i t1 s'" if "u \<in> set (mem_all s')" for s'
    using that u by (auto simp: held_until_def)
  show ?thesis
    using ok fresh
  proof (cases rule: queue_do_cases [where cfg = cfg, case_names same new lease completed failed])
    case same
    then show ?thesis using u(1) by (intro keep) simp
  next
    case (new uid tool pay key qname prio limit_key max_att)
    then show ?thesis using u(1) by (intro keep) simp
  next
    case (lease owner t0 vt n)
    have "u \<noteq> mem_all s ! n"
      using lease(1,3) alone u by (auto simp: claimable_def)
    then show ?thesis using u(1) lease(5) by (intro keep) (simp add: member_update)
  next
    case (completed j n)
    have "u \<noteq> mem_all s ! n" using completed(1,3) alone u(2) by auto
    then show ?thesis using u(1) completed(4) by (intro keep) (simp add: member_update)
  next
    case (failed j err t0 n)
    have "u \<noteq> mem_all s ! n" using failed(1,3) alone u(2) by auto
    then show ?thesis using u(1) failed(4) by (intro keep) (simp add: member_update)
  qed
qed

lemma queue_run_held:
  assumes "(queue_step (leaves_alone i t1) cfg)\<^sup>*\<^sup>* s s'" and "mem_ok s" and "held_until i t1 s"
  shows "mem_ok s' \<and> held_until i t1 s'"
  using assms
proof (induction rule: rtranclp_induct)
  case (step u v)
  then show ?case by (blast elim: queue_stepE intro: queue_do_ok queue_do_held)
qed simp

text \<open>
  C10: a claimed task is leased exclusively: until the visibility timeout has passed, no other
  worker can claim it, whatever is enqueued, claimed, completed or failed in between, as long as
  nobody acknowledges that task itself.
\<close>

theorem lease_is_exclusive:
  assumes "mem_ok s" and "owner \<noteq> ''''"
    and "claim memory_ops cfg owner t0 vt s = (Some t, s1)"
    and "(queue_step (leaves_alone (task_id t) (t0 + vt)) cfg)\<^sup>*\<^sup>* s1 s2"
    and "t1 < t0 + vt"
    and "claim memory_ops cfg owner' t1 vt' s2 = (Some u, s3)"
  shows "task_id u \<noteq> task_id t"
proof -
  obtain n v where n: "n < length (mem_all s)" "t = lease_to owner t0 vt v" "mem_ok s1"
    "mem_all s1 = (mem_all s)[n := t]"
    using mem_claim [OF assms(1,3)] by auto
  then have "held_until (task_id t) (t0 + vt) s1"
    using assms(2) set_update_memI [of n "mem_all s" t]
    unfolding held_until_def by (intro bexI [of _ t]) simp_all
  with queue_run_held [OF assms(4) n(3)] show ?thesis
    using held_claim assms(5,6) by blast
qed

definition two_tasks :: "unit memory_store" where
  "two_tasks =
     snd (enqueue memory_ops ''b'' ''export'' () ''kb'' ''default'' 5 '''' 3
       (snd (enqueue memory_ops ''a'' ''export'' () ''ka'' ''default'' 5 '''' 3 empty_store)))"

lemma mem_ok_two_tasks: "mem_ok two_tasks"
  unfolding two_tasks_def by (intro enqueue_ok mem_ok_empty) (code_simp, code_simp)

theorem lease_is_exclusive_witness:
  "\<exists>s1 s3 t u. claim memory_ops (new_queue 4 1) ''w1'' 0 30 two_tasks = (Some t, s1) \<and>
     claim memory_ops (new_queue 4 1) ''w2'' 29 30 s1 = (Some u, s3) \<and> task_id u \<noteq> task_id t"
proof (intro exI conjI)
  let ?r1 = "claim memory_ops (new_queue 4 1) ''w1'' 0 30 two_tasks"
  let ?r2 = "claim memory_ops (new_queue 4 1) ''w2'' 29 30 (snd ?r1)"
  have "fst ?r1 \<noteq> None" "fst ?r2 \<noteq> None" by code_simp+
  then show r1: "?r1 = (Some (the (fst ?r1)), snd ?r1)" and r2: "?r2 = (Some (the (fst ?r2)), snd ?r2)"
    by (simp_all add: prod_eq_iff)
  have ok: "mem_ok two_tasks" by (rule mem_ok_two_tasks)
  show "task_id (the (fst ?r2)) \<noteq> task_id (the (fst ?r1))"
    by (rule lease_is_exclusive [OF ok _ r1 rtranclp.rtrancl_refl _ r2]) simp_all
qed

subsection \<open>Order\<close>

text \<open>
  C12: a claim takes, among the tasks that are due, not leased and under their key's cap, one of the
  smallest priority number, and among those the one that was enqueued first.
\<close>

theorem claim_takes_first_of_highest_priority:
  assumes "mem_ok s" and "claim memory_ops cfg owner t0 vt s = (Some t', s')"
  shows "\<exists>t. t' = lease_to owner t0 vt t \<and>
     list_all (\<lambda>u. claimable t0 u \<and> \<not> throttled cfg (mem_all s) u \<longrightarrow> priority t \<le> priority u)
       (mem_all s) \<and>
     List.find (\<lambda>u. (claimable t0 u \<and> \<not> throttled cfg (mem_all s) u) \<and> priority u = priority t)
       (mem_all s) = Some t"
  using mem.claim_Some [OF assms] by (auto simp: list_all_iff)

theorem claim_takes_first_of_highest_priority_witness:
  "\<exists>t' s'. claim memory_ops (new_queue 4 1) ''w1'' 0 30 two_tasks = (Some t', s') \<and>
     (\<exists>t. t' = lease_to ''w1'' 0 30 t \<and>
       list_all (\<lambda>u. claimable 0 u \<and> \<not> throttled (new_queue 4 1) (mem_all two_tasks) u \<longrightarrow>
         priority t \<le> priority u) (mem_all two_tasks) \<and>
       List.find (\<lambda>u. (claimable 0 u \<and> \<not> throttled (new_queue 4 1) (mem_all two_tasks) u) \<and>
         priority u = priority t) (mem_all two_tasks) = Some t)"
proof (rule exI, rule exI, rule conjI)
  let ?r1 = "claim memory_ops (new_queue 4 1) ''w1'' 0 30 two_tasks"
  have "fst ?r1 \<noteq> None" by code_simp
  then show r1: "?r1 = (Some (the (fst ?r1)), snd ?r1)" by (simp add: prod_eq_iff)
  have ok: "mem_ok two_tasks" by (rule mem_ok_two_tasks)
  show "\<exists>t. the (fst ?r1) = lease_to ''w1'' 0 30 t \<and>
       list_all (\<lambda>u. claimable 0 u \<and> \<not> throttled (new_queue 4 1) (mem_all two_tasks) u \<longrightarrow>
         priority t \<le> priority u) (mem_all two_tasks) \<and>
       List.find (\<lambda>u. (claimable 0 u \<and> \<not> throttled (new_queue 4 1) (mem_all two_tasks) u) \<and>
         priority u = priority t) (mem_all two_tasks) = Some t"
    by (rule claim_takes_first_of_highest_priority [OF ok r1])
qed

subsection \<open>Crashed and stale workers\<close>

text \<open>Nobody acknowledges anything: the workers that hold the tasks have crashed.\<close>

fun no_ack :: "'p queue_op \<Rightarrow> bool" where
  "no_ack (OpComplete i) \<longleftrightarrow> False"
| "no_ack (OpFail i err t0) \<longleftrightarrow> False"
| "no_ack op \<longleftrightarrow> True"

lemma queue_do_no_ack:
  assumes ok: "mem_ok s" and fresh: "fresh_op op s" and op: "no_ack op"
  shows "in_flight (mem_all s) k \<le> in_flight (mem_all (queue_do cfg op s)) k"
  using ok fresh
proof (cases rule: queue_do_cases [where cfg = cfg, case_names same new lease completed failed])
  case (lease owner t0 vt n)
  then show ?thesis by (simp add: in_flight_update processing_def)
qed (use op in \<open>auto simp: in_flight_append\<close>)

lemma queue_run_no_ack:
  assumes "(queue_step no_ack cfg)\<^sup>*\<^sup>* s s'" and "mem_ok s"
  shows "mem_ok s' \<and> in_flight (mem_all s) k \<le> in_flight (mem_all s') k"
  using assms
proof (induction rule: rtranclp_induct)
  case (step u v)
  then have u: "mem_ok u" "in_flight (mem_all s) k \<le> in_flight (mem_all u) k" by auto
  from step.hyps(2) obtain op where op: "no_ack op" "fresh_op op u" "v = queue_do cfg op u"
    by (blast elim: queue_stepE)
  then show ?case using queue_do_ok [OF u(1) op(2)] queue_do_no_ack [OF u(1) op(2,1), of k cfg] u(2)
    by auto
qed simp

text \<open>
  C13: an expired lease does not free its place under the cap. Once the tasks in processing for a
  key reach the cap and their workers crash, no task of that key is ever claimed again, however
  long ago the leases expired: the expired tasks count themselves as in flight. The module's
  promise that \<open>uncompleted leases expire and the task becomes claimable again\<close> fails for keyed
  tasks.
\<close>

theorem crashed_workers_block_their_key:
  assumes "mem_ok s" and "k \<noteq> ''''" and "rate_limit_max cfg \<le> in_flight (mem_all s) k"
    and "(queue_step no_ack cfg)\<^sup>*\<^sup>* s s1" and "claim memory_ops cfg owner t0 vt s1 = (Some t, s2)"
  shows "rate_limit_key t \<noteq> k"
proof -
  have s1: "mem_ok s1" "rate_limit_max cfg \<le> in_flight (mem_all s1) k"
    using queue_run_no_ack [OF assms(4,1), of k] assms(3) by auto
  obtain n where "t = lease_to owner t0 vt (mem_all s1 ! n)"
    "\<not> throttled cfg (mem_all s1) (mem_all s1 ! n)"
    using mem_claim [OF s1(1) assms(5)] by auto
  then show ?thesis using s1(2) assms(2) by (auto simp: throttled_def)
qed

definition crashed_room :: "unit memory_store" where
  "crashed_room =
     snd (enqueue memory_ops ''b'' ''export'' () ''kb'' ''default'' 5 '''' 3
       (snd (claim memory_ops (new_queue 1 1) ''w1'' 0 30
         (snd (enqueue memory_ops ''a'' ''export'' () ''ka'' ''default'' 1 ''room'' 3 empty_store)))))"

lemma mem_ok_crashed_room: "mem_ok crashed_room"
  unfolding crashed_room_def by (intro enqueue_ok claim_ok mem_ok_empty) (code_simp, code_simp)

theorem crashed_workers_block_their_key_witness:
  "\<exists>t s2. claim memory_ops (new_queue 1 1) ''w2'' 1000 30 crashed_room = (Some t, s2) \<and>
     rate_limit_key t \<noteq> ''room''"
proof (intro exI conjI)
  let ?r = "claim memory_ops (new_queue 1 1) ''w2'' 1000 30 crashed_room"
  have "fst ?r \<noteq> None" by code_simp
  then show r: "?r = (Some (the (fst ?r)), snd ?r)" by (simp add: prod_eq_iff)
  show "rate_limit_key (the (fst ?r)) \<noteq> ''room''"
    by (rule crashed_workers_block_their_key [OF mem_ok_crashed_room _ _ rtranclp.rtrancl_refl r])
      (simp, code_simp)
qed

text \<open>The task itself stays lost: at any later time the queue has nothing to claim.\<close>

lemma crashed_task_is_never_reclaimed:
  "30 \<le> t0 \<Longrightarrow>
   fst (claim memory_ops (new_queue 1 1) owner t0 vt
     (snd (claim memory_ops (new_queue 1 1) ''w1'' 0 30
       (snd (enqueue memory_ops ''a'' ''export'' () ''ka'' ''default'' 1 ''room'' 3 empty_store))))) = None"
proof -
  let ?s0 = "snd (enqueue memory_ops ''a'' ''export'' () ''ka'' ''default'' 1 ''room'' 3 empty_store)"
  let ?s = "snd (claim memory_ops (new_queue 1 1) ''w1'' 0 30 ?s0)"
  have all: "list_all (throttled (new_queue 1 1) (mem_all ?s)) (mem_all ?s)" by code_simp
  show ?thesis
  proof (rule ccontr)
    assume "fst (claim memory_ops (new_queue 1 1) owner t0 vt ?s) \<noteq> None"
    then obtain t s' where c: "claim memory_ops (new_queue 1 1) owner t0 vt ?s = (Some t, s')"
      by (cases "claim memory_ops (new_queue 1 1) owner t0 vt ?s") auto
    have "mem_ok ?s" by (intro claim_ok enqueue_ok mem_ok_empty) code_simp
    from mem_claim [OF this c] all show False by (auto simp: list_all_length)
  qed
qed

text \<open>
  \<open>fail\<close> does not ask whether the caller still holds the lease. A worker whose lease expired and
  whose task was meanwhile completed by another worker re-queues the finished task, so the write
  is executed again.
\<close>

theorem stale_failure_requeues_finished_task:
  "fst (run_once memory_ops (new_queue 4 1) (\<lambda>t. None) ''w2'' 30 40
      (fail memory_ops (new_queue 4 1) ''a'' ''timeout'' 35
        (snd (run_once memory_ops (new_queue 4 1) (\<lambda>t. None) ''w2'' 30 31
          (snd (claim memory_ops (new_queue 4 1) ''w1'' 0 30
            (snd (enqueue memory_ops ''a'' ''export'' () ''ka'' ''default'' 1 '''' 3 empty_store))))))))
   \<and> map status (mem_all
        (snd (run_once memory_ops (new_queue 4 1) (\<lambda>t. None) ''w2'' 30 31
          (snd (claim memory_ops (new_queue 4 1) ''w1'' 0 30
            (snd (enqueue memory_ops ''a'' ''export'' () ''ka'' ''default'' 1 '''' 3 empty_store)))))))
     = [TaskDone]"
  by code_simp

subsection \<open>Failures\<close>

lemma mem_get_after:
  assumes "mem_ok s'" and "mem_all s' = ts[n := t]" and "n < length ts" and "task_id t = i"
  shows "mem_get s' i = Some t"
  using mem.find_id [OF assms(1), of t] assms set_update_memI [of n ts t] by auto

text \<open>
  A failed task is retried with exponential backoff until its attempts are used up, and then
  it is dead and in the dead-letter list. Before its backoff has passed it cannot be claimed, and
  a dead task cannot be claimed at any time.
\<close>

theorem failed_task_backs_off_or_dies:
  assumes "mem_ok s" and "mem_get s i = Some t"
    and "claim memory_ops cfg owner t1 vt (fail memory_ops cfg i err t0 s) = (Some u, s')"
    and "task_id u = i"
  shows "attempts t + 1 < task_max_attempts t \<and> t0 + base_backoff cfg * 2 ^ nat (attempts t) \<le> t1 \<and>
    attempts u = attempts t + 1"
proof -
  let ?s = "fail memory_ops cfg i err t0 s"
  have i: "task_id t = i" using mem.getD [OF assms(1), of i t] assms(2) by simp
  obtain n where n: "n < length (mem_all s)" "mem_all ?s = (mem_all s)[n := failed cfg err t0 t]"
    "mem_ok ?s"
    by (rule mem.fail_Some [OF assms(1), of i t cfg err t0]) (use assms(2) in auto)
  have get: "mem_get ?s i = Some (failed cfg err t0 t)"
    using mem_get_after [OF n(3,2,1)] i by simp
  obtain m where m: "m < length (mem_all ?s)" "u = lease_to owner t1 vt (mem_all ?s ! m)"
    "claimable t1 (mem_all ?s ! m)"
    using mem_claim [OF n(3) assms(3)] by auto
  have "mem_all ?s ! m = failed cfg err t0 t"
    using mem.find_id [OF n(3), of "mem_all ?s ! m"] m assms(4) get by simp
  then show ?thesis using m by (auto simp: claimable_def failed_def lease_to_def split: if_splits)
qed

lemma dead_task_is_a_dead_letter:
  assumes "mem_ok s" and "mem_get s i = Some t" and "task_max_attempts t \<le> attempts t + 1"
  shows "failed cfg err t0 t \<in> set (dead_letters memory_ops (fail memory_ops cfg i err t0 s))"
proof -
  let ?s = "fail memory_ops cfg i err t0 s"
  have i: "task_id t = i" using mem.getD [OF assms(1), of i t] assms(2) by simp
  obtain n where n: "n < length (mem_all s)" "mem_all ?s = (mem_all s)[n := failed cfg err t0 t]"
    "mem_ok ?s"
    by (rule mem.fail_Some [OF assms(1), of i t cfg err t0]) (use assms(2) in auto)
  have get: "mem_get ?s i = Some (failed cfg err t0 t)"
    using mem_get_after [OF n(3,2,1)] i by simp
  have "i \<in> set (dead ?s)"
    using assms(2,3) i by (simp add: fail_def Let_def mem_mark_dead_def memory_ops_def)
  with get show ?thesis
    by (force simp: dead_letters_def mem_dead_letters_def map_filter_def)
qed

theorem failed_task_backs_off_or_dies_witness:
  "\<exists>u s'. claim memory_ops (new_queue 4 1) ''w2'' 50 30
      (fail memory_ops (new_queue 4 1) ''a'' ''boom'' 0 two_tasks) = (Some u, s') \<and>
     attempts u = 0 + 1"
proof (rule exI, rule exI, rule conjI)
  let ?t = "the (mem_get two_tasks ''a'')"
  let ?r = "claim memory_ops (new_queue 4 1) ''w2'' 50 30
      (fail memory_ops (new_queue 4 1) ''a'' ''boom'' 0 two_tasks)"
  have "fst ?r \<noteq> None" by code_simp
  then show r: "?r = (Some (the (fst ?r)), snd ?r)" by (simp add: prod_eq_iff)
  have ok: "mem_ok two_tasks" by (rule mem_ok_two_tasks)
  have "mem_get two_tasks ''a'' \<noteq> None" by code_simp
  then have get: "mem_get two_tasks ''a'' = Some ?t" by simp
  have "attempts ?t = 0" by code_simp
  moreover have "task_id (the (fst ?r)) = ''a''" by code_simp
  ultimately show "attempts (the (fst ?r)) = 0 + 1"
    using failed_task_backs_off_or_dies [OF ok get r] by simp
qed

end
