(* ===== verification/Retry.thy ===== *)
theory Retry
  imports Deadline
begin

text \<open>
  \<open>services/agent-runtime/allcallall_agent_runtime/retry.py\<close>: exponential backoff around a
  fallible call, synchronous and asynchronous, optionally charged to a shared
  \<^typ>\<open>retry_budget\<close>.

  The world of one retry loop is a \<open>retry_env\<close>: what the \<open>k\<close>-th call of \<open>func\<close> does, what
  the hook does, the clock and the random numbers read on the way, and whether the sleep
  after the \<open>k\<close>-th call is interrupted (\<open>KeyboardInterrupt\<close>, or the cancellation of the
  awaiting task). The \<open>except Exception\<close> of the source does not catch a \<open>BaseException\<close>;
  the two kinds of raise are separate constructors.
\<close>

section \<open>The world of a loop\<close>

datatype ('e, 'a) call_outcome = Returned 'a | Raised 'e | BaseRaised 'e

text \<open>What calling the hook gives; awaiting its result may raise in turn.\<close>

datatype 'e hook_outcome =
    HookDone
  | HookRaised
  | HookBaseRaised 'e
  | HookAwaitable "('e, unit) call_outcome"

record ('e, 'a) retry_env =
  func :: "nat \<Rightarrow> ('e, 'a) call_outcome"
  should_retry :: "'e \<Rightarrow> bool"
  on_retry :: "('e \<Rightarrow> nat \<Rightarrow> 'e hook_outcome) option"
  env_now :: "nat \<Rightarrow> seconds"
  env_jitter :: "nat \<Rightarrow> seconds \<Rightarrow> seconds"
  env_random :: "nat \<Rightarrow> rat"
  sleep_interrupt :: "nat \<Rightarrow> 'e option"

datatype retry_event = Called nat | Hooked nat | Slept seconds

datatype ('e, 'a) retry_result = Value 'a | Error 'e | AssertionFailed

section \<open>The code\<close>

definition backoff_delay :: "rat \<Rightarrow> nat \<Rightarrow> seconds \<Rightarrow> seconds \<Rightarrow> seconds" where
  "backoff_delay r attempt base_delay max_delay =
     (let delay = min max_delay (base_delay * 2 ^ (attempt - 1))
      in delay + r * max (delay / 4) (base_delay / 10))"

text \<open>The delay of one retry, from the budget when there is one; \<^const>\<open>None\<close> re-raises.\<close>

definition retry_delay ::
  "('e, 'a) retry_env \<Rightarrow> seconds \<Rightarrow> seconds \<Rightarrow> nat \<Rightarrow> retry_budget option
     \<Rightarrow> seconds option \<times> retry_budget option" where
  "retry_delay env base maxd attempt budget =
     (case budget of
        Some b \<Rightarrow>
          (let (d, b') = next_delay (env_jitter env attempt) (env_now env attempt) base maxd b
           in (d, Some b'))
      | None \<Rightarrow> (Some (backoff_delay (env_random env attempt) attempt base maxd), None))"

text \<open>
  The hook's failure is swallowed unless it is a \<open>BaseException\<close>. The synchronous loop ignores
  what the hook returns; the asynchronous one awaits it.
\<close>

definition run_hook :: "('e, 'a) retry_env \<Rightarrow> 'e \<Rightarrow> nat \<Rightarrow> 'e option" where
  "run_hook env e attempt =
     (case on_retry env of
        None \<Rightarrow> None
      | Some h \<Rightarrow> (case h e attempt of HookBaseRaised b \<Rightarrow> Some b | _ \<Rightarrow> None))"

definition run_hook_async :: "('e, 'a) retry_env \<Rightarrow> 'e \<Rightarrow> nat \<Rightarrow> 'e option" where
  "run_hook_async env e attempt =
     (case on_retry env of
        None \<Rightarrow> None
      | Some h \<Rightarrow>
          (case h e attempt of
             HookBaseRaised b \<Rightarrow> Some b
           | HookAwaitable (BaseRaised b) \<Rightarrow> Some b
           | _ \<Rightarrow> None))"

definition hook_events :: "('e, 'a) retry_env \<Rightarrow> nat \<Rightarrow> retry_event list" where
  "hook_events env attempt = (if on_retry env = None then [] else [Hooked attempt])"

function retry_loop ::
  "(('e, 'a) retry_env \<Rightarrow> 'e \<Rightarrow> nat \<Rightarrow> 'e option) \<Rightarrow> ('e, 'a) retry_env \<Rightarrow> int \<Rightarrow>
     seconds \<Rightarrow> seconds \<Rightarrow> nat \<Rightarrow> 'e option \<Rightarrow> retry_budget option
     \<Rightarrow> ('e, 'a) retry_result \<times> retry_budget option \<times> retry_event list" where
  "retry_loop hook env max_att base maxd attempt last_exc budget =
     (if int attempt < max_att then
        (let attempt' = Suc attempt in
         case func env attempt' of
           Returned x \<Rightarrow> (Value x, budget, [Called attempt'])
         | BaseRaised e \<Rightarrow> (Error e, budget, [Called attempt'])
         | Raised e \<Rightarrow>
             (if max_att \<le> int attempt' \<or> \<not> should_retry env e
              then (Error e, budget, [Called attempt'])
              else
                (case retry_delay env base maxd attempt' budget of
                   (None, budget') \<Rightarrow> (Error e, budget', [Called attempt'])
                 | (Some delay, budget') \<Rightarrow>
                     (case hook env e attempt' of
                        Some b \<Rightarrow> (Error b, budget', Called attempt' # hook_events env attempt')
                      | None \<Rightarrow>
                          (case sleep_interrupt env attempt' of
                             Some b \<Rightarrow>
                               (Error b, budget', Called attempt' # hook_events env attempt')
                           | None \<Rightarrow>
                               (let (r, budget'', evs) =
                                      retry_loop hook env max_att base maxd attempt' (Some e) budget'
                                in (r, budget'',
                                    Called attempt' # hook_events env attempt' @ Slept delay # evs)))))))
      else
        (case last_exc of
           None \<Rightarrow> (AssertionFailed, budget, [])
         | Some e \<Rightarrow> (Error e, budget, [])))"
  by pat_completeness auto
termination
  by (relation "measure (\<lambda>(hook, env, m, b, d, attempt, e, bud). nat (m - int attempt))") auto

declare retry_loop.simps [simp del]

definition with_retry ::
  "('e, 'a) retry_env \<Rightarrow> int \<Rightarrow> seconds \<Rightarrow> seconds \<Rightarrow> retry_budget option
     \<Rightarrow> ('e, 'a) retry_result \<times> retry_budget option \<times> retry_event list" where
  "with_retry env max_att base maxd budget =
     retry_loop run_hook env (if max_att < 1 then 1 else max_att) base maxd 0 None budget"

definition with_retry_async ::
  "('e, 'a) retry_env \<Rightarrow> int \<Rightarrow> seconds \<Rightarrow> seconds \<Rightarrow> retry_budget option
     \<Rightarrow> ('e, 'a) retry_result \<times> retry_budget option \<times> retry_event list" where
  "with_retry_async env max_att base maxd budget =
     retry_loop run_hook_async env (if max_att < 1 then 1 else max_att) base maxd 0 None budget"

section \<open>Reading a trace\<close>

definition calls :: "retry_event list \<Rightarrow> nat list" where
  "calls evs = List.map_filter (\<lambda>e. case e of Called k \<Rightarrow> Some k | _ \<Rightarrow> None) evs"

definition sleeps :: "retry_event list \<Rightarrow> seconds list" where
  "sleeps evs = List.map_filter (\<lambda>e. case e of Slept d \<Rightarrow> Some d | _ \<Rightarrow> None) evs"

lemma calls_simps [simp]:
  "calls [] = []" "calls (Called k # evs) = k # calls evs" "calls (Hooked k # evs) = calls evs"
  "calls (Slept d # evs) = calls evs" "calls (hook_events env k @ evs) = calls evs"
  "calls (hook_events env k) = []"
  by (simp_all add: calls_def List.map_filter_simps hook_events_def)

lemma sleeps_simps [simp]:
  "sleeps [] = []" "sleeps (Called k # evs) = sleeps evs" "sleeps (Hooked k # evs) = sleeps evs"
  "sleeps (Slept d # evs) = d # sleeps evs" "sleeps (hook_events env k @ evs) = sleeps evs"
  "sleeps (hook_events env k) = []"
  by (simp_all add: sleeps_def List.map_filter_simps hook_events_def)

section \<open>One iteration\<close>

lemma retry_loop_cases:
  assumes "int attempt < m"
  obtains
    (returned) x where "func env (Suc attempt) = Returned x"
      "retry_loop hook env m base maxd attempt l bud = (Value x, bud, [Called (Suc attempt)])"
  | (base_raised) e where "func env (Suc attempt) = BaseRaised e"
      "retry_loop hook env m base maxd attempt l bud = (Error e, bud, [Called (Suc attempt)])"
  | (final) e where "func env (Suc attempt) = Raised e"
      "m \<le> int (Suc attempt) \<or> \<not> should_retry env e"
      "retry_loop hook env m base maxd attempt l bud = (Error e, bud, [Called (Suc attempt)])"
  | (refused) e bud' where "func env (Suc attempt) = Raised e"
      "retry_delay env base maxd (Suc attempt) bud = (None, bud')"
      "retry_loop hook env m base maxd attempt l bud = (Error e, bud', [Called (Suc attempt)])"
  | (interrupted) e d bud' b where "func env (Suc attempt) = Raised e" "should_retry env e"
      "int (Suc attempt) < m"
      "retry_delay env base maxd (Suc attempt) bud = (Some d, bud')"
      "hook env e (Suc attempt) = Some b \<or> sleep_interrupt env (Suc attempt) = Some b"
      "retry_loop hook env m base maxd attempt l bud
         = (Error b, bud', Called (Suc attempt) # hook_events env (Suc attempt))"
  | (again) e d bud' r bud'' evs where "func env (Suc attempt) = Raised e" "should_retry env e"
      "int (Suc attempt) < m"
      "retry_delay env base maxd (Suc attempt) bud = (Some d, bud')"
      "hook env e (Suc attempt) = None" "sleep_interrupt env (Suc attempt) = None"
      "retry_loop hook env m base maxd (Suc attempt) (Some e) bud' = (r, bud'', evs)"
      "retry_loop hook env m base maxd attempt l bud
         = (r, bud'', Called (Suc attempt) # hook_events env (Suc attempt) @ Slept d # evs)"
proof (cases "func env (Suc attempt)")
  case (Returned x)
  with assms show ?thesis by (intro returned) (simp_all add: retry_loop.simps)
next
  case (BaseRaised e)
  with assms show ?thesis by (intro base_raised) (simp_all add: retry_loop.simps)
next
  case (Raised e)
  show ?thesis
  proof (cases "m \<le> int (Suc attempt) \<or> \<not> should_retry env e")
    case True
    with assms Raised show ?thesis by (intro final [of e]) (auto simp: retry_loop.simps)
  next
    case False
    obtain d bud' where delay: "retry_delay env base maxd (Suc attempt) bud = (d, bud')"
      by fastforce
    show ?thesis
    proof (cases d)
      case None
      with assms Raised False delay show ?thesis
        by (intro refused [of e bud']) (auto simp: retry_loop.simps [of hook env m base maxd attempt])
    next
      case (Some delay')
      obtain r bud'' evs where rest:
        "retry_loop hook env m base maxd (Suc attempt) (Some e) bud' = (r, bud'', evs)"
        by (metis prod_cases3)
      show ?thesis
        using assms Raised False delay Some rest
        by (cases "hook env e (Suc attempt)"; cases "sleep_interrupt env (Suc attempt)")
          (auto intro: interrupted again simp: retry_loop.simps [of hook env m base maxd attempt])
    qed
  qed
qed

section \<open>Lemmas on whole loops\<close>

text \<open>
  The shape of every run: calls \<open>attempt + 1, \<dots>, k\<close>, all but the last raising a retryable
  exception, and a result that is the outcome of call \<open>k\<close> (or of the hook or sleep after it).
\<close>

definition ends_with :: "('e, 'a) retry_env \<Rightarrow> ('e \<Rightarrow> nat \<Rightarrow> 'e option) \<Rightarrow> nat
    \<Rightarrow> ('e, 'a) retry_result \<Rightarrow> bool" where
  "ends_with env hook k r =
     (case func env k of
        Returned x \<Rightarrow> r = Value x
      | BaseRaised e \<Rightarrow> r = Error e
      | Raised e \<Rightarrow> r = Error e \<or> (case hook e k of Some b \<Rightarrow> r = Error b | None \<Rightarrow> False)
          \<or> (case sleep_interrupt env k of Some b \<Rightarrow> r = Error b | None \<Rightarrow> False))"

lemma retry_loop_shape:
  assumes "int attempt < m"
    and "retry_loop hook env m base maxd attempt l bud = (r, bud', evs)"
  shows "\<exists>k. attempt < k \<and> int k \<le> m \<and> calls evs = [Suc attempt..<Suc k] \<and>
    length (sleeps evs) = k - Suc attempt \<and> ends_with env (hook env) k r \<and>
    (\<forall>j \<in> {Suc attempt..<k}. \<exists>e. func env j = Raised e \<and> should_retry env e)"
  using assms
proof (induction "nat (m - int attempt)" arbitrary: attempt l bud evs rule: less_induct)
  case less
  have stop: ?case if "calls evs = [Suc attempt]" "sleeps evs = []"
    "ends_with env (hook env) (Suc attempt) r"
    using that less.prems(1) by (intro exI [of _ "Suc attempt"]) auto
  from less.prems(1) show ?case
  proof (cases rule: retry_loop_cases [where hook = hook and env = env and base = base
        and maxd = maxd and l = l and bud = bud])
    case (again e d bud1 r1 bud2 evs1)
    from again(3) have smaller: "nat (m - int (Suc attempt)) < nat (m - int attempt)" by simp
    from again(7,8) less.prems(2)
    have evs: "evs = Called (Suc attempt) # hook_events env (Suc attempt) @ Slept d # evs1"
      and rest: "retry_loop hook env m base maxd (Suc attempt) (Some e) bud1 = (r, bud', evs1)"
      by simp_all
    from less.hyps [OF smaller again(3) rest]
    obtain k where k: "Suc attempt < k" "int k \<le> m" "calls evs1 = [Suc (Suc attempt)..<Suc k]"
      "length (sleeps evs1) = k - Suc (Suc attempt)" "ends_with env (hook env) k r"
      and earlier: "\<forall>j \<in> {Suc (Suc attempt)..<k}. \<exists>e. func env j = Raised e \<and> should_retry env e"
      by blast
    have "[Suc attempt..<Suc k] = Suc attempt # [Suc (Suc attempt)..<Suc k]"
      using k(1) by (simp add: upt_rec)
    moreover have "{Suc attempt..<k} = insert (Suc attempt) {Suc (Suc attempt)..<k}"
      using k(1) by auto
    ultimately show ?thesis
      using k earlier again(1,2) by (intro exI [of _ k]) (auto simp: evs simp del: upt_Suc)
  qed (insert less.prems(2), (rule stop; auto simp: ends_with_def)+)
qed

text \<open>Without a budget and undisturbed, the loop gives up only after its last attempt or on a final exception.\<close>

lemma retry_loop_gives_up:
  assumes "int attempt < m" and "retry_loop hook env m base maxd attempt l None = (r, bud', evs)"
    and "\<And>e j. hook env e j = None" and "calls evs = [Suc attempt..<Suc k]" and "attempt < k"
    and "sleep_interrupt env k = None" and "func env k = Raised e" and "should_retry env e"
  shows "m \<le> int k"
  using assms(1,2,4,5)
proof (induction "nat (m - int attempt)" arbitrary: attempt l evs rule: less_induct)
  case less
  have stop: "k = Suc attempt" if "calls evs = [Suc attempt]"
    using that less.prems(3,4) by (cases "k = Suc attempt") (auto simp: upt_rec [of "Suc attempt"] simp del: upt_Suc)
  from less.prems(1) show ?case
  proof (cases rule: retry_loop_cases [where hook = hook and env = env and base = base
        and maxd = maxd and l = l and bud = None])
    case (again e' d bud1 r1 bud2 evs1)
    have none: "bud1 = None" using again(4) by (simp add: retry_delay_def)
    have evs: "calls evs = Suc attempt # calls evs1" and rest: "retry_loop hook env m base maxd (Suc attempt) (Some e') None = (r, bud', evs1)"
      using again(7,8) less.prems(2) none by auto
    have first: "calls evs1 \<noteq> []" using retry_loop_shape [OF again(3) rest] by auto
    have "[Suc attempt..<Suc k] = Suc attempt # [Suc (Suc attempt)..<Suc k]" using less.prems(4) by (simp add: upt_rec)
    then have c: "calls evs1 = [Suc (Suc attempt)..<Suc k]" using evs less.prems(3) by simp
    then have "Suc attempt < k" using first by (cases "Suc attempt < k") auto
    then show ?thesis using less.hyps [OF _ again(3) rest c] again(3) by simp
  next
    case (interrupted e' d bud1 b)
    then show ?thesis using stop less.prems(2) assms(3,6) by auto
  next
    case (refused e' bud1)
    then show ?thesis by (simp add: retry_delay_def)
  qed (use stop less.prems(2) assms(7,8) in auto)
qed

lemma retry_delay_budget:
  "retry_delay env base maxd k (Some b) = (d, bud') \<Longrightarrow> \<exists>b'. bud' = Some b' \<and>
     next_delay (env_jitter env k) (env_now env k) base maxd b = (d, b')"
  by (auto simp: retry_delay_def split: prod.splits)

text \<open>With a budget every sleep is one grant of it.\<close>

lemma retry_loop_budget:
  assumes "retry_loop hook env m base maxd attempt l (Some b) = (r, bud', evs)"
    and "int (attempts_used b) \<le> max_attempts b"
  shows "\<exists>b'. bud' = Some b' \<and> attempts_used b + length (sleeps evs) \<le> attempts_used b' \<and>
    int (attempts_used b') \<le> max_attempts b \<and>
    list_all (\<lambda>d. d \<le> maxd) (sleeps evs)"
  using assms
proof (induction "nat (m - int attempt)" arbitrary: attempt l b evs rule: less_induct)
  case less
  show ?case
  proof (cases "int attempt < m")
    case False
    with less.prems show ?thesis
      by (auto simp: retry_loop.simps [of hook env m base maxd attempt] split: option.splits)
  next
    case True
    then show ?thesis
    proof (cases rule: retry_loop_cases [where hook = hook and env = env and base = base
          and maxd = maxd and l = l and bud = "Some b"])
      case (again e d bud1 r1 bud2 evs1)
      obtain b1 where b1: "bud1 = Some b1"
        and granted: "next_delay (env_jitter env (Suc attempt)) (env_now env (Suc attempt)) base maxd b
           = (Some d, b1)"
        using retry_delay_budget [OF again(4)] by blast
      note one = next_delay_SomeD [OF granted]
      from again(3) have smaller: "nat (m - int (Suc attempt)) < nat (m - int attempt)" by simp
      from again(7,8) less.prems(1)
      have evs: "evs = Called (Suc attempt) # hook_events env (Suc attempt) @ Slept d # evs1"
        and rest: "retry_loop hook env m base maxd (Suc attempt) (Some e) (Some b1) = (r, bud', evs1)"
        by (simp_all add: b1)
      have "int (attempts_used b1) \<le> max_attempts b1" using one(3,4) by simp
      from less.hyps [OF smaller rest this] one(1,3) evs show ?thesis by auto
    next
      case (refused e bud1)
      then show ?thesis
        using less.prems retry_delay_budget [OF refused(2)] by (auto dest: next_delay_NoneD)
    next
      case (interrupted e d bud1 b2)
      obtain b1 where b1: "bud1 = Some b1"
        and granted: "next_delay (env_jitter env (Suc attempt)) (env_now env (Suc attempt)) base maxd b
           = (Some d, b1)"
        using retry_delay_budget [OF interrupted(4)] by blast
      show ?thesis
        using less.prems interrupted(6) b1 next_delay_SomeD(3,4) [OF granted] by auto
    qed (use less.prems in auto)
  qed
qed

section \<open>Properties\<close>

lemma with_retry_shape:
  assumes run: "with_retry env n base maxd bud = (r, bud', evs)"
  shows "\<exists>k. 1 \<le> k \<and> int k \<le> max 1 n \<and> calls evs = [1..<Suc k] \<and> length (sleeps evs) = k - 1 \<and>
       ends_with env (run_hook env) k r \<and> r \<noteq> AssertionFailed \<and>
       list_all (\<lambda>j. \<exists>e. func env j = Raised e \<and> should_retry env e) [1..<k]"
proof -
  let ?m = "if n < 1 then 1 else n"
  have m: "int 0 < ?m" by simp
  from retry_loop_shape [OF m run [unfolded with_retry_def]]
  obtain k where k: "0 < k" "int k \<le> ?m" "calls evs = [Suc 0..<Suc k]"
    "length (sleeps evs) = k - Suc 0" "ends_with env (run_hook env) k r"
    "\<forall>j \<in> {Suc 0..<k}. \<exists>e. func env j = Raised e \<and> should_retry env e" by blast
  have bound: "1 \<le> k" "int k \<le> max 1 n" using k(1,2) by (auto split: if_splits)
  have evs: "calls evs = [1..<Suc k]" "length (sleeps evs) = k - 1"
    using k(3,4) by (simp_all del: upt_Suc)
  have last: "r \<noteq> AssertionFailed"
    using k(5) by (cases "func env k") (auto simp: ends_with_def split: option.splits)
  have earlier: "list_all (\<lambda>j. \<exists>e. func env j = Raised e \<and> should_retry env e) [1..<k]"
    using k(6) by (simp add: list_all_iff)
  from bound evs k(5) last earlier show ?thesis by blast
qed

text \<open>
  What a retry loop does, in every world. \<open>with_retry\<close> never falls through to its
  final assertion; it calls \<open>func\<close> some \<open>k\<close> times with \<open>1 \<le> k \<le> max(1, max_attempts)\<close>, numbered
  in order; every call but the last raised an exception the predicate accepts; it slept once
  between calls; and its outcome is the outcome of the last call, unless a \<open>BaseException\<close>
  came out of the hook or the sleep that followed it.
\<close>

theorem with_retry_outcome:
  "case with_retry env n base maxd bud of (r, bud', evs) \<Rightarrow>
     \<exists>k. 1 \<le> k \<and> int k \<le> max 1 n \<and> calls evs = [1..<Suc k] \<and> length (sleeps evs) = k - 1 \<and>
       ends_with env (run_hook env) k r \<and> r \<noteq> AssertionFailed \<and>
       list_all (\<lambda>j. \<exists>e. func env j = Raised e \<and> should_retry env e) [1..<k]"
  using with_retry_shape by (cases "with_retry env n base maxd bud") fastforce

lemma retry_loop_reaches:
  assumes "int attempt < m" and "attempt < k" and "int k \<le> m"
    and "\<And>j. attempt < j \<Longrightarrow> j < k \<Longrightarrow> \<exists>e. func env j = Raised e \<and> should_retry env e"
    and "func env k = Returned x"
    and "\<And>e j. hook env e j = None" and "\<And>j. sleep_interrupt env j = None"
  shows "\<exists>evs. retry_loop hook env m base maxd attempt l None = (Value x, None, evs) \<and>
    calls evs = [Suc attempt..<Suc k]"
  using assms(1-4)
proof (induction "k - attempt" arbitrary: attempt l rule: less_induct)
  case less
  show ?case
  proof (cases "Suc attempt = k")
    case True
    with less.prems assms(5) show ?thesis
      by (simp add: retry_loop.simps [of hook env m base maxd attempt])
  next
    case False
    with less.prems(2) have lt: "Suc attempt < k" by simp
    obtain e where e: "func env (Suc attempt) = Raised e" "should_retry env e"
      using less.prems(4) [of "Suc attempt"] lt by auto
    obtain evs where rest: "retry_loop hook env m base maxd (Suc attempt) (Some e) None
        = (Value x, None, evs)" and evs: "calls evs = [Suc (Suc attempt)..<Suc k]"
      using less.hyps [of "Suc attempt" "Some e"] less.prems lt by fastforce
    have "\<not> m \<le> int (Suc attempt)" using lt less.prems(3) by simp
    moreover have "[Suc attempt..<Suc k] = Suc attempt # [Suc (Suc attempt)..<Suc k]"
      using lt by (simp add: upt_rec)
    ultimately show ?thesis
      using e rest evs less.prems(1) assms(6,7)
      by (simp add: retry_loop.simps [of hook env m base maxd attempt] retry_delay_def del: upt_Suc)
  qed
qed

text \<open>
  A provider that recovers is reached. If the first \<open>k - 1\<close> calls raise retryable exceptions
  and the \<open>k\<close>-th returns \<open>x\<close>, with \<open>k\<close> within \<open>max_attempts\<close>, no budget, and neither the hook nor
  the sleeps raising a \<open>BaseException\<close>, then \<open>with_retry\<close> returns \<open>x\<close> after exactly \<open>k\<close> calls.
\<close>

theorem with_retry_reaches_recovery:
  assumes "1 \<le> k" and "int k \<le> n"
    and "\<And>j. 1 \<le> j \<Longrightarrow> j < k \<Longrightarrow> \<exists>e. func env j = Raised e \<and> should_retry env e"
    and "func env k = Returned x"
    and "\<And>e j. run_hook env e j = None" and "\<And>j. sleep_interrupt env j = None"
  shows "\<exists>evs. with_retry env n base maxd None = (Value x, None, evs) \<and> calls evs = [1..<Suc k]"
proof -
  have "\<exists>evs. retry_loop run_hook env (if n < 1 then 1 else n) base maxd 0 None None
      = (Value x, None, evs) \<and> calls evs = [Suc 0..<Suc k]"
    by (rule retry_loop_reaches) (use assms in \<open>auto simp del: upt_Suc\<close>)
  then show ?thesis by (simp add: with_retry_def del: upt_Suc)
qed

definition flaky_env :: "(nat, string) retry_env" where
  "flaky_env = \<lparr>func = (\<lambda>k. if k < 3 then Raised 503 else Returned ''ok''),
     should_retry = (\<lambda>e. 500 \<le> e), on_retry = None, env_now = (\<lambda>_. 0),
     env_jitter = (\<lambda>_ _. 0), env_random = (\<lambda>_. 0), sleep_interrupt = (\<lambda>_. None)\<rparr>"

theorem with_retry_reaches_recovery_witness:
  "\<exists>evs. with_retry flaky_env 3 (1/2) 4 None = (Value ''ok'', None, evs) \<and> calls evs = [1..<4]"
  using with_retry_reaches_recovery [of 3 3 flaky_env "''ok''" "1/2" 4]
  by (simp add: flaky_env_def run_hook_def)

text \<open>
  Retries that are charged to a budget never exceed it. With a fresh shared budget of
  \<open>m\<close> attempts the loop sleeps at most \<open>max(1, m)\<close> times whatever its own \<open>max_attempts\<close>
  says, no sleep is longer than \<open>max_delay_sec\<close>, and the budget never counts more than \<open>max(1, m)\<close>.
\<close>

theorem with_retry_respects_budget:
  "case with_retry env n base maxd (Some (new_retry_budget m d)) of (r, bud', evs) \<Rightarrow>
     \<exists>b'. bud' = Some b' \<and> int (length (sleeps evs)) \<le> max 1 m \<and>
       int (attempts_used b') \<le> max 1 m \<and> list_all (\<lambda>s. s \<le> maxd) (sleeps evs)"
proof -
  obtain r bud' evs where run: "with_retry env n base maxd (Some (new_retry_budget m d)) = (r, bud', evs)"
    by (metis prod_cases3)
  have "int (attempts_used (new_retry_budget m d)) \<le> max_attempts (new_retry_budget m d)"
    by (simp add: new_retry_budget_def)
  from retry_loop_budget [OF run [unfolded with_retry_def] this] run
  show ?thesis by (auto simp: new_retry_budget_def)
qed

text \<open>
  The asynchronous loop is the synchronous one wherever awaiting the hook's result does not
  itself raise a \<open>BaseException\<close> (a cancellation delivered at that await).
\<close>

theorem with_retry_async_agrees:
  assumes "\<And>h e k b. on_retry env = Some h \<Longrightarrow> h e k \<noteq> HookAwaitable (BaseRaised b)"
  shows "with_retry_async env n base maxd bud = with_retry env n base maxd bud"
proof -
  have "run_hook_async env = run_hook env"
    using assms
    by (fastforce simp: run_hook_async_def run_hook_def fun_eq_iff
        split: option.splits hook_outcome.splits call_outcome.splits)
  have "retry_loop run_hook_async env m base maxd a l bud = retry_loop run_hook env m base maxd a l bud"
    for m a l bud
  proof (induction "nat (m - int a)" arbitrary: a l bud rule: less_induct)
    case less
    then show ?case
      using \<open>run_hook_async env = run_hook env\<close>
      by (subst (1 2) retry_loop.simps)
        (auto simp: Let_def split: call_outcome.split option.split prod.split)
  qed
  then show ?thesis by (simp add: with_retry_async_def with_retry_def)
qed

theorem with_retry_async_agrees_witness:
  "with_retry_async flaky_env 5 1 2 None = with_retry flaky_env 5 1 2 None"
  by (rule with_retry_async_agrees) (simp add: flaky_env_def)

end
