(* ===== verification/Json.thy ===== *)
theory Json
  imports Text "HOL-Library.Word" "HOL-Library.List_Lexorder"
begin

text \<open>
  \<open>json.dumps\<close> with compact separators and \<open>str.encode("utf-8")\<close>, as the tool digests, the sandbox frames
  and the secret scan of the sandbox runner use them. The shortest representation of a float is a parameter
  (\<open>repr\<close> of the interpreter); object keys are strings of 8-bit characters.
\<close>

section \<open>UTF-8\<close>

type_synonym byte = "8 word"

definition byte_of :: "nat \<Rightarrow> byte" where
  "byte_of n = word_of_nat n"

text \<open>A lone surrogate cannot be encoded (\<open>UnicodeEncodeError\<close>).\<close>

definition encodable :: "nat \<Rightarrow> bool" where
  "encodable c \<longleftrightarrow> c < 55296 \<or> 57343 < c \<and> c < 1114112"

definition utf8_char :: "nat \<Rightarrow> byte list" where
  "utf8_char c =
     (if c < 128 then [byte_of c]
      else if c < 2048 then [byte_of (192 + c div 64), byte_of (128 + c mod 64)]
      else if c < 65536 then
        [byte_of (224 + c div 4096), byte_of (128 + c div 64 mod 64), byte_of (128 + c mod 64)]
      else
        [byte_of (240 + c div 262144), byte_of (128 + c div 4096 mod 64), byte_of (128 + c div 64 mod 64),
         byte_of (128 + c mod 64)])"

definition utf8 :: "ustring \<Rightarrow> byte list option" where
  "utf8 t = (if list_all encodable t then Some (concat (map utf8_char t)) else None)"

section \<open>Printing\<close>

definition hex_digit :: "nat \<Rightarrow> nat" where
  "hex_digit d = (if d < 10 then 48 + d else 87 + d)"

definition u_escape :: "nat \<Rightarrow> ustring" where
  "u_escape c =
     [92, 117, hex_digit (c div 4096 mod 16), hex_digit (c div 256 mod 16), hex_digit (c div 16 mod 16),
      hex_digit (c mod 16)]"

definition escape_char :: "bool \<Rightarrow> nat \<Rightarrow> ustring" where
  "escape_char ensure_ascii c =
     (if c = 34 then [92, 34] else if c = 92 then [92, 92]
      else if c = 10 then [92, 110] else if c = 13 then [92, 114] else if c = 9 then [92, 116]
      else if c = 12 then [92, 102] else if c = 8 then [92, 98]
      else if c < 32 \<or> ensure_ascii \<and> 126 < c then
        (if c < 65536 then u_escape c
         else u_escape (55296 + (c - 65536) div 1024 mod 1024) @ u_escape (56320 + (c - 65536) mod 1024))
      else [c])"

definition quote_text :: "bool \<Rightarrow> ustring \<Rightarrow> ustring" where
  "quote_text ensure_ascii t = [34] @ concat (map (escape_char ensure_ascii) t) @ [34]"

fun json_dumps :: "(rat \<Rightarrow> ustring) \<Rightarrow> bool \<Rightarrow> json \<Rightarrow> ustring" where
  "json_dumps float_repr asc JNull = codes ''null''"
| "json_dumps float_repr asc (JBool b) = codes (if b then ''true'' else ''false'')"
| "json_dumps float_repr asc (JInt i) = show_int i"
| "json_dumps float_repr asc (JNum x) = float_repr x"
| "json_dumps float_repr asc (JStr t) = quote_text asc t"
| "json_dumps float_repr asc (JList js) = [91] @ join [44] (map (json_dumps float_repr asc) js) @ [93]"
| "json_dumps float_repr asc (JObj kvs) =
     [123] @ join [44] (map (\<lambda>kv. quote_text asc (codes (fst kv)) @ [58] @ json_dumps float_repr asc (snd kv)) kvs)
       @ [125]"

text \<open>\<open>sort_keys=True\<close>: members in the order of their keys, at every depth.\<close>

fun sort_members :: "json \<Rightarrow> json" where
  "sort_members (JList js) = JList (map sort_members js)"
| "sort_members (JObj kvs) =
     JObj (sort_key (\<lambda>kv. codes (fst kv)) (map (\<lambda>kv. (fst kv, sort_members (snd kv))) kvs))"
| "sort_members j = j"

section \<open>Truth and integers\<close>

text \<open>\<open>bool(value)\<close>.\<close>

definition truthy :: "json \<Rightarrow> bool" where
  "truthy v = (case v of
       JNull \<Rightarrow> False | JBool b \<Rightarrow> b | JInt i \<Rightarrow> i \<noteq> 0 | JNum x \<Rightarrow> x \<noteq> 0
     | JStr t \<Rightarrow> t \<noteq> [] | JList js \<Rightarrow> js \<noteq> [] | JObj kvs \<Rightarrow> kvs \<noteq> [])"

text \<open>\<open>int(text)\<close> on ASCII digits: an optional sign and digits, single underscores allowed between digits.\<close>

fun parse_digits :: "int \<Rightarrow> ustring \<Rightarrow> int option" where
  "parse_digits acc [] = Some acc"
| "parse_digits acc [c] = (if 48 \<le> c \<and> c \<le> 57 then Some (10 * acc + (int c - 48)) else None)"
| "parse_digits acc (c # d # cs) =
     (if 48 \<le> c \<and> c \<le> 57 then
        (if d = 95 \<and> cs \<noteq> [] then parse_digits (10 * acc + (int c - 48)) cs
         else parse_digits (10 * acc + (int c - 48)) (d # cs))
      else None)"

definition parse_int :: "ustring \<Rightarrow> int option" where
  "parse_int t =
     (case strip t of
        [] \<Rightarrow> None
      | c # cs \<Rightarrow>
          if c = 45 then (if cs = [] then None else map_option uminus (parse_digits 0 cs))
          else if c = 43 then (if cs = [] then None else parse_digits 0 cs)
          else parse_digits 0 (c # cs))"

definition truncate_rat :: "rat \<Rightarrow> int" where
  "truncate_rat x = (if 0 \<le> x then floor x else - floor (- x))"

text \<open>\<open>int(value)\<close>; containers and \<open>None\<close> raise.\<close>

definition json_int :: "json \<Rightarrow> int option" where
  "json_int v = (case v of
       JInt i \<Rightarrow> Some i | JBool b \<Rightarrow> Some (if b then 1 else 0) | JNum x \<Rightarrow> Some (truncate_rat x)
     | JStr t \<Rightarrow> parse_int t | _ \<Rightarrow> None)"

section \<open>Lemmas\<close>

lemma utf8_append: "utf8 (s @ t) = (case utf8 s of None \<Rightarrow> None | Some a \<Rightarrow> map_option (\<lambda>b. a @ b) (utf8 t))"
  by (simp add: utf8_def)

lemma utf8_Nil [simp]: "utf8 [] = Some []"
  by (simp add: utf8_def)

text \<open>Everything ASCII prints as ASCII, which always encodes, one byte per character.\<close>

lemma codes_append [simp]: "codes (s @ t) = codes s @ codes t"
  by (simp add: codes_def)

definition is_ascii :: "ustring \<Rightarrow> bool" where
  "is_ascii t \<longleftrightarrow> list_all (\<lambda>c. c < 128) t"

lemma is_ascii_append [simp]: "is_ascii (s @ t) \<longleftrightarrow> is_ascii s \<and> is_ascii t"
  by (simp add: is_ascii_def)

lemma is_ascii_Cons [simp]: "is_ascii (c # t) \<longleftrightarrow> c < 128 \<and> is_ascii t"
  by (simp add: is_ascii_def)

lemma is_ascii_Nil [simp]: "is_ascii []"
  by (simp add: is_ascii_def)

lemma is_ascii_concat: "(\<And>x. x \<in> set xs \<Longrightarrow> is_ascii x) \<Longrightarrow> is_ascii (concat xs)"
  by (induction xs) auto

lemma is_ascii_join: "is_ascii sep \<Longrightarrow> (\<And>x. x \<in> set xs \<Longrightarrow> is_ascii x) \<Longrightarrow> is_ascii (join sep xs)"
  by (induction sep xs rule: join.induct) auto

lemma hex_digit_ascii: "d < 16 \<Longrightarrow> hex_digit d < 128"
  by (simp add: hex_digit_def)

lemma u_escape_ascii [simp]: "is_ascii (u_escape c)"
  by (simp add: u_escape_def hex_digit_ascii)

lemma escape_char_ascii [simp]: "is_ascii (escape_char True c)"
  by (simp add: escape_char_def codes_def)

lemma quote_text_ascii [simp]: "is_ascii (quote_text True t)"
  by (auto simp: quote_text_def intro!: is_ascii_concat)

lemma show_nat_ascii [simp]: "is_ascii (show_nat n)"
proof (induction n rule: show_nat.induct)
  case (1 n)
  then show ?case by (subst show_nat.simps) auto
qed

lemma show_int_ascii [simp]: "is_ascii (show_int i)"
  by (simp add: show_int_def)

lemma json_dumps_ascii: "(\<And>x. is_ascii (fr x)) \<Longrightarrow> is_ascii (json_dumps fr True j)"
proof (induction fr True j rule: json_dumps.induct)
  case (6 fr js)
  then show ?case by (auto intro!: is_ascii_join)
next
  case (7 fr kvs)
  then show ?case by (auto intro!: is_ascii_join)
qed (simp_all add: codes_def)

lemma utf8_ascii: "is_ascii t \<Longrightarrow> utf8 t = Some (map byte_of t)"
  by (induction t) (auto simp: utf8_def is_ascii_def encodable_def utf8_char_def split: if_splits)

end
