(* ===== verification/RunnerSecurity.thy ===== *)
theory RunnerSecurity
  imports Json
begin

text \<open>
  \<open>services/sandbox-runner/allcallall_sandbox_runner/security.py\<close>: which HTTPS endpoint the sandbox runner may
  reach, the transport pinned to the validated address, and the unwrapping and mapping of secrets.
  The environment is a function from names to values, the empty string for a missing one. Name resolution,
  the classification of IP addresses (\<open>ipaddress\<close>), the IDNA codec and the parsed URL are parameters.
\<close>

section \<open>Errors and text\<close>

text \<open>The exceptions of the runner; \<open>OtherError\<close> is any exception outside its own classes.\<close>

datatype runner_error =
    McpError string
  | SecurityError string
  | TransportFailed string
  | TimedOut
  | OtherError

type_synonym env = "string \<Rightarrow> ustring"

definition rstrip_char :: "nat \<Rightarrow> ustring \<Rightarrow> ustring" where
  "rstrip_char c t = rev (dropWhile (\<lambda>x. x = c) (rev t))"

definition ends_with :: "ustring \<Rightarrow> ustring \<Rightarrow> bool" where
  "ends_with s t \<longleftrightarrow> starts_with (rev s) (rev t)"

text \<open>\<open>item.strip().lower().rstrip(".")\<close>.\<close>

definition normal_host :: "ustring \<Rightarrow> ustring" where
  "normal_host t = rstrip_char 46 (to_lower (strip t))"

section \<open>Trusted hosts of the interview environment\<close>

definition interview :: "env \<Rightarrow> bool" where
  "interview env \<longleftrightarrow> to_lower (strip (env ''APP_ENV'')) = codes ''interview''"

definition validate_interview_network_config :: "env \<Rightarrow> (ustring \<Rightarrow> bool) \<Rightarrow> (runner_error, unit) result" where
  "validate_interview_network_config env is_ip =
     (let raw = strip (env ''MCP_INTERVIEW_TRUSTED_HOSTS'')
      in if raw = [] then Inr ()
         else if \<not> interview env then
           Inl (SecurityError ''MCP_INTERVIEW_TRUSTED_HOSTS is only allowed when APP_ENV=interview'')
         else if list_ex (\<lambda>item. let host = normal_host item in host = [] \<or> 42 \<in> set host \<or> is_ip host)
                   (split_chars (\<lambda>c. c = 44) raw) then
           Inl (SecurityError ''MCP_INTERVIEW_TRUSTED_HOSTS must contain exact DNS names'')
         else Inr ())"

definition interview_trusted_hosts :: "env \<Rightarrow> (ustring \<Rightarrow> bool) \<Rightarrow> (runner_error, ustring list) result" where
  "interview_trusted_hosts env is_ip =
     and_then (validate_interview_network_config env is_ip) (\<lambda>_.
       Inr (if \<not> interview env then []
            else map normal_host (filter (\<lambda>item. strip item \<noteq> [])
                   (split_chars (\<lambda>c. c = 44) (env ''MCP_INTERVIEW_TRUSTED_HOSTS'')))))"

section \<open>The allowlist\<close>

definition entry_matches :: "bool \<Rightarrow> ustring \<Rightarrow> ustring \<Rightarrow> bool" where
  "entry_matches trusted normalized item =
     (let allowed = normal_host item
      in normalized = allowed \<or>
         \<not> trusted \<and> starts_with (codes ''*.'') allowed \<and> ends_with (drop 1 allowed) normalized \<and>
           normalized \<noteq> drop 2 allowed)"

definition host_allowed ::
  "env \<Rightarrow> (ustring \<Rightarrow> bool) \<Rightarrow> ustring \<Rightarrow> ustring list \<Rightarrow> (runner_error, bool) result" where
  "host_allowed env is_ip host allowlist =
     (if allowlist = [] then Inr False
      else
        (let normalized = rstrip_char 46 (to_lower host)
         in and_then (interview_trusted_hosts env is_ip) (\<lambda>hosts.
              Inr (list_ex (entry_matches (normalized \<in> set hosts) normalized) allowlist))))"

section \<open>The endpoint\<close>

text \<open>What \<open>urlparse\<close> returns; a missing part is the empty string, a missing port is None.\<close>

record parsed_url =
  url_scheme :: ustring
  url_hostname :: ustring
  url_username :: ustring
  url_password :: ustring
  url_port :: "nat option"

record destination =
  dest_hostname :: ustring
  dest_port :: nat
  dest_ip :: ustring

definition authority :: "destination \<Rightarrow> ustring" where
  "authority d =
     (let hostname = (if 58 \<in> set (dest_hostname d) then [91] @ dest_hostname d @ [93] else dest_hostname d)
      in if dest_port d = 443 then hostname else hostname @ [58] @ show_nat (dest_port d))"

text \<open>\<open>endpoint.port or 443\<close>: port 0 is falsy.\<close>

definition port_or_443 :: "nat option \<Rightarrow> nat" where
  "port_or_443 p = (case p of None \<Rightarrow> 443 | Some n \<Rightarrow> if n = 0 then 443 else n)"

text \<open>The outside world of the endpoint check.\<close>

record network =
  net_is_ip :: "ustring \<Rightarrow> bool"
  net_is_global :: "ustring \<Rightarrow> bool"
  net_idna :: "ustring \<Rightarrow> ustring option"
  net_resolve :: "ustring \<Rightarrow> nat \<Rightarrow> ustring list option"

definition validate_https_endpoint ::
  "env \<Rightarrow> network \<Rightarrow> parsed_url \<Rightarrow> ustring list \<Rightarrow> (runner_error, destination) result" where
  "validate_https_endpoint env net url allowlist =
     (if url_scheme url \<noteq> codes ''https'' \<or> url_hostname url = [] \<or> url_username url \<noteq> [] \<or> url_password url \<noteq> []
      then Inl (SecurityError ''MCP endpoint must be HTTPS without embedded credentials'')
      else
        (case net_idna net (url_hostname url) of
           None \<Rightarrow> Inl OtherError
         | Some ascii \<Rightarrow>
             (let hostname = rstrip_char 46 (to_lower ascii); port = port_or_443 (url_port url)
              in and_then (host_allowed env (net_is_ip net) hostname allowlist) (\<lambda>allowed.
                   if \<not> allowed then Inl (SecurityError ''MCP endpoint is outside the declared allowlist'')
                   else
                     (case net_resolve net hostname port of
                        None \<Rightarrow> Inl OtherError
                      | Some found \<Rightarrow>
                          (let addresses = sort (remdups found)
                           in and_then (interview_trusted_hosts env (net_is_ip net)) (\<lambda>hosts.
                                if addresses = [] \<or>
                                   hostname \<notin> set hosts \<and> list_ex (\<lambda>a. \<not> net_is_global net a) addresses
                                then Inl (SecurityError ''MCP endpoint resolved to a non-public address'')
                                else Inr \<lparr>dest_hostname = hostname, dest_port = port,
                                          dest_ip = hd addresses\<rparr>)))))))"

section \<open>The pinned transport\<close>

record http_request =
  req_method :: string
  req_url :: parsed_url
  req_headers :: "(string \<times> ustring) list"
  req_sni :: "ustring option"

text \<open>Header names are case-insensitive.\<close>

definition same_header :: "string \<Rightarrow> string \<Rightarrow> bool" where
  "same_header k k' \<longleftrightarrow> to_lower (codes k) = to_lower (codes k')"

definition set_header :: "string \<Rightarrow> ustring \<Rightarrow> (string \<times> ustring) list \<Rightarrow> (string \<times> ustring) list" where
  "set_header k v hs = filter (\<lambda>(k', _). \<not> same_header k' k) hs @ [(k, v)]"

definition handle_async_request ::
  "network \<Rightarrow> destination \<Rightarrow> http_request \<Rightarrow> (runner_error, http_request) result" where
  "handle_async_request net d rq =
     (case net_idna net (url_hostname (req_url rq)) of
        None \<Rightarrow> Inl OtherError
      | Some ascii \<Rightarrow>
          (if url_scheme (req_url rq) \<noteq> codes ''https'' \<or>
              rstrip_char 46 (to_lower ascii) \<noteq> dest_hostname d \<or>
              port_or_443 (url_port (req_url rq)) \<noteq> dest_port d
           then Inl (SecurityError ''MCP request attempted to leave its validated HTTPS origin'')
           else Inr (rq\<lparr>req_url := (req_url rq)\<lparr>url_hostname := dest_ip d\<rparr>,
                       req_headers := set_header ''Host'' (authority d) (req_headers rq),
                       req_sni := Some (dest_hostname d)\<rparr>)))"

section \<open>Secrets\<close>

type_synonym secrets = "(ustring \<times> ustring) list"

definition secret_text :: "(rat \<Rightarrow> ustring) \<Rightarrow> json \<Rightarrow> ustring option" where
  "secret_text fr v =
     (case v of JStr t \<Rightarrow> Some t | JInt i \<Rightarrow> Some (show_int i) | JNum x \<Rightarrow> Some (fr x)
      | JBool b \<Rightarrow> Some (codes (if b then ''True'' else ''False'')) | _ \<Rightarrow> None)"

text \<open>The answer of the secret store: a status and the JSON body, or a failed call.\<close>

definition unwrap_secrets ::
  "env \<Rightarrow> (rat \<Rightarrow> ustring) \<Rightarrow> (ustring \<Rightarrow> ustring \<Rightarrow> (int \<times> json) option) \<Rightarrow> ustring \<Rightarrow> (runner_error, secrets) result"
where
  "unwrap_secrets env fr post token =
     (if token = [] then Inr []
      else
        (let address = rstrip_char 47 (strip (env ''OPENBAO_ADDR''))
         in if address = [] then Inl (SecurityError ''OpenBao address is not configured'')
            else
              (case post (address @ codes ''/v1/sys/wrapping/unwrap'') token of
                 None \<Rightarrow> Inl OtherError
               | Some (status, body) \<Rightarrow>
                   (if 400 \<le> status then Inl (SecurityError ''secret unwrap failed'')
                    else
                      (case body of
                         JObj members \<Rightarrow>
                           (let data = (case map_of members ''data'' of None \<Rightarrow> JObj [] | Some d \<Rightarrow> d);
                                inner = (case data of
                                   JObj kvs \<Rightarrow> (case map_of kvs ''data'' of Some (JObj kvs') \<Rightarrow> JObj kvs' | _ \<Rightarrow> data)
                                 | _ \<Rightarrow> data)
                            in case inner of
                                 JObj kvs \<Rightarrow> Inr (List.map_filter
                                     (\<lambda>(k, v). map_option (Pair (codes k)) (secret_text fr v)) kvs)
                               | _ \<Rightarrow> Inl (SecurityError ''secret unwrap returned invalid data''))
                       | _ \<Rightarrow> Inl OtherError)))))"

fun map_secrets :: "string \<Rightarrow> secrets \<Rightarrow> json_object \<Rightarrow> (runner_error, (string \<times> ustring) list) result" where
  "map_secrets err secrets [] = Inr []"
| "map_secrets err secrets ((name, v) # kvs) =
     (case v of
        JStr secret_key \<Rightarrow>
          (case map_of secrets secret_key of
             None \<Rightarrow> Inl (SecurityError err)
           | Some s \<Rightarrow> and_then (map_secrets err secrets kvs) (\<lambda>rest. Inr ((name, s) # rest)))
      | _ \<Rightarrow> Inl (SecurityError err))"

definition secret_headers :: "json_object \<Rightarrow> secrets \<Rightarrow> (runner_error, (string \<times> ustring) list) result" where
  "secret_headers config secrets =
     (case map_of config ''secret_headers'' of
        None \<Rightarrow> Inr []
      | Some (JObj mapping) \<Rightarrow> map_secrets ''secret header references an unavailable secret'' secrets mapping
      | Some _ \<Rightarrow> Inl (SecurityError ''secret_headers must be an object''))"

definition secret_environment :: "json_object \<Rightarrow> secrets \<Rightarrow> (runner_error, (string \<times> ustring) list) result" where
  "secret_environment config secrets =
     (case map_of config ''secret_env'' of
        None \<Rightarrow> Inr []
      | Some (JObj mapping) \<Rightarrow> map_secrets ''secret environment references an unavailable secret'' secrets mapping
      | Some _ \<Rightarrow> Inl (SecurityError ''secret_env must be an object''))"

section \<open>Which endpoints are reached\<close>

lemma starts_with_append: "starts_with p t \<longleftrightarrow> (\<exists>r. t = p @ r)"
  by (induction p t rule: starts_with.induct) auto

lemma ends_with_append: "ends_with s t \<longleftrightarrow> (\<exists>p. t = p @ s)"
  unfolding ends_with_def starts_with_append by (metis rev_append rev_rev_ident)

text \<open>A wildcard entry covers the names below its domain, at any depth, and not the domain itself.\<close>

lemma entry_matches_iff:
  "entry_matches trusted h item \<longleftrightarrow>
     h = normal_host item \<or>
     \<not> trusted \<and> (\<exists>d p. normal_host item = codes ''*.'' @ d \<and> h = p @ codes ''.'' @ d)"
proof -
  have star: "codes ''*.'' = [42, 46]" "codes ''.'' = [46]" by (simp_all add: codes_def)
  show ?thesis
    unfolding entry_matches_def Let_def starts_with_append ends_with_append star by auto
qed

lemma no_trusted_hosts: "\<not> interview env \<Longrightarrow> interview_trusted_hosts env is_ip = Inr hosts \<Longrightarrow> hosts = []"
  by (simp add: interview_trusted_hosts_def and_then_eq_Inr)

lemma validated_endpoint:
  assumes "validate_https_endpoint env net url allowlist = Inr d"
  shows "url_scheme url = codes ''https'' \<and> url_username url = [] \<and> url_password url = []"
    and "\<exists>ascii. net_idna net (url_hostname url) = Some ascii \<and> dest_hostname d = rstrip_char 46 (to_lower ascii) \<and>
      dest_port d = port_or_443 (url_port url)"
    and "\<exists>found. net_resolve net (dest_hostname d) (dest_port d) = Some found \<and> dest_ip d \<in> set found \<and>
      (list_all (net_is_global net) found \<or>
       (\<exists>hosts. interview_trusted_hosts env (net_is_ip net) = Inr hosts \<and> dest_hostname d \<in> set hosts))"
    and "host_allowed env (net_is_ip net) (dest_hostname d) allowlist = Inr True"
proof -
  obtain ascii where ascii: "net_idna net (url_hostname url) = Some ascii"
    using assms by (auto simp: validate_https_endpoint_def split: if_splits option.splits)
  let ?h = "rstrip_char 46 (to_lower ascii)" and ?p = "port_or_443 (url_port url)"
  obtain found hosts where res: "net_resolve net ?h ?p = Some found"
    and allowed: "host_allowed env (net_is_ip net) ?h allowlist = Inr True"
    and hosts: "interview_trusted_hosts env (net_is_ip net) = Inr hosts"
    and ok: "sort (remdups found) \<noteq> []" "?h \<in> set hosts \<or> list_all (net_is_global net) (sort (remdups found))"
    and d: "d = \<lparr>dest_hostname = ?h, dest_port = ?p, dest_ip = hd (sort (remdups found))\<rparr>"
    using assms ascii
    by (auto simp: validate_https_endpoint_def Let_def and_then_eq_Inr list_ex_iff list_all_iff
        split: if_splits option.splits)
  have "hd (sort (remdups found)) \<in> set found" using ok(1) by (metis hd_in_set set_remdups set_sort)
  then show "\<exists>found. net_resolve net (dest_hostname d) (dest_port d) = Some found \<and> dest_ip d \<in> set found \<and>
      (list_all (net_is_global net) found \<or>
       (\<exists>hosts. interview_trusted_hosts env (net_is_ip net) = Inr hosts \<and> dest_hostname d \<in> set hosts))"
    using res hosts ok(2) d by (auto simp: list_all_iff)
  show "host_allowed env (net_is_ip net) (dest_hostname d) allowlist = Inr True" using allowed d by simp
  show "url_scheme url = codes ''https'' \<and> url_username url = [] \<and> url_password url = []"
    using assms by (auto simp: validate_https_endpoint_def split: if_splits)
  show "\<exists>ascii. net_idna net (url_hostname url) = Some ascii \<and> dest_hostname d = rstrip_char 46 (to_lower ascii) \<and>
      dest_port d = port_or_443 (url_port url)"
    using ascii d by simp
qed

lemma one_host_header:
  "filter (\<lambda>h. same_header (fst h) ''Host'') (set_header ''Host'' v hs) = [(''Host'', v)]"
  by (induction hs) (auto simp: set_header_def same_header_def)

lemma sent_request:
  assumes "handle_async_request net d rq = Inr sent"
  shows "url_hostname (req_url sent) = dest_ip d" and "req_sni sent = Some (dest_hostname d)"
    and "req_headers sent = set_header ''Host'' (authority d) (req_headers rq)"
    and "url_scheme (req_url sent) = codes ''https''" and "port_or_443 (url_port (req_url sent)) = dest_port d"
  using assms by (auto simp: handle_async_request_def split: option.splits if_splits)

text \<open>
  C17: the runner talks to the endpoint that was declared, at an address that was checked. Whatever the endpoint,
  the allowlist and the name server answer, a request that the pinned transport sends for a validated endpoint is
  HTTPS without credentials in its address; it goes to one of the addresses the declared host resolved to, on the
  declared port (443 when there is none), and outside the interview environment all of these are public; the
  declared host, in its ASCII form without capitals and final dots, is covered by the allowlist and is the TLS
  identity and, with a port other than 443 behind it, the only Host header. Anything else is refused.
\<close>

theorem runner_reaches_public_addresses_only:
  "case and_then (validate_https_endpoint env net url allowlist)
          (\<lambda>d. handle_async_request net d rq) of
     Inl e \<Rightarrow> True
   | Inr sent \<Rightarrow>
       (case net_idna net (url_hostname url) of
          None \<Rightarrow> False
        | Some ascii \<Rightarrow>
            (let host = rstrip_char 46 (to_lower ascii);
                 port = port_or_443 (url_port url);
                 shown = (if 58 \<in> set host then [91] @ host @ [93] else host)
             in url_scheme url = codes ''https'' \<and> url_username url = [] \<and> url_password url = [] \<and>
                url_scheme (req_url sent) = codes ''https'' \<and> port_or_443 (url_port (req_url sent)) = port \<and>
                host_allowed env (net_is_ip net) host allowlist = Inr True \<and>
                (case net_resolve net host port of
                   None \<Rightarrow> False
                 | Some found \<Rightarrow> url_hostname (req_url sent) \<in> set found \<and>
                     (interview env \<or> list_all (net_is_global net) found)) \<and>
                req_sni sent = Some host \<and>
                filter (\<lambda>h. same_header (fst h) ''Host'') (req_headers sent) =
                  [(''Host'', if port = 443 then shown else shown @ [58] @ show_nat port)]))"
proof (cases "and_then (validate_https_endpoint env net url allowlist) (\<lambda>d. handle_async_request net d rq)")
  case (Inr sent)
  then obtain d where d: "validate_https_endpoint env net url allowlist = Inr d"
    and sent: "handle_async_request net d rq = Inr sent"
    by (auto simp: and_then_eq_Inr)
  note v = validated_endpoint [OF d]
  obtain ascii where ascii: "net_idna net (url_hostname url) = Some ascii"
      "dest_hostname d = rstrip_char 46 (to_lower ascii)" "dest_port d = port_or_443 (url_port url)"
    using v(2) by blast
  obtain found where found: "net_resolve net (dest_hostname d) (dest_port d) = Some found" "dest_ip d \<in> set found"
      "interview env \<or> list_all (net_is_global net) found"
    using v(3) no_trusted_hosts by fastforce
  show ?thesis
    using v(1,4) ascii found sent_request [OF sent]
    by (simp add: Inr one_host_header authority_def Let_def)
qed simp

section \<open>Secrets are mapped, never made up\<close>

lemma map_secrets_values:
  "map_secrets err secrets kvs = Inr hs \<Longrightarrow>
     map fst hs = map fst kvs \<and> list_all (\<lambda>h. snd h \<in> snd ` set secrets) hs"
proof (induction kvs arbitrary: hs)
  case (Cons kv kvs)
  then show ?case
    by (cases kv) (force simp: and_then_eq_Inr dest: map_of_SomeD split: json.splits option.splits)
qed simp

end
