(* ===== verification/Transport.thy ===== *)
theory Transport
  imports Json Interfaces
begin

text \<open>
  \<open>services/sandbox-runner/allcallall_sandbox_runner/supervisor_transport.py\<close>: the frames between the sandbox
  runner and its supervisor - a kind byte, a 32-bit big-endian length and at most one MiB of payload - over a
  byte stream that delivers in arbitrary chunks, and the client's reader and writer tasks on top of them. The
  interface \<open>codec\<close> is interpreted on the frames.
\<close>

section \<open>Frames\<close>

definition max_frame_size :: nat where
  "max_frame_size = 1024 * 1024"

datatype frame_kind = START | READY | STDIN | STDOUT | ERROR | EXIT | CLOSE_STDIN | CANCEL

fun frame_value :: "frame_kind \<Rightarrow> nat" where
  "frame_value START = 1" | "frame_value READY = 2" | "frame_value STDIN = 3" | "frame_value STDOUT = 4"
| "frame_value ERROR = 5" | "frame_value EXIT = 6" | "frame_value CLOSE_STDIN = 7" | "frame_value CANCEL = 8"

definition frame_kind_of :: "nat \<Rightarrow> frame_kind option" where
  "frame_kind_of v =
     List.find (\<lambda>k. frame_value k = v) [START, READY, STDIN, STDOUT, ERROR, EXIT, CLOSE_STDIN, CANCEL]"

text \<open>\<open>SupervisorTransportError\<close> with its message, and the end of the stream.\<close>

datatype transport_error = Supervisor string | EndOfStream

text \<open>\<open>struct.Struct(">BI")\<close>.\<close>

definition header_size :: nat where
  "header_size = 5"

definition pack_header :: "frame_kind \<Rightarrow> nat \<Rightarrow> byte list" where
  "pack_header k n =
     [byte_of (frame_value k), byte_of (n div 16777216), byte_of (n div 65536), byte_of (n div 256), byte_of n]"

fun unpack_header :: "byte list \<Rightarrow> nat \<times> nat" where
  "unpack_header [k, a, b, c, d] = (unat k, unat a * 16777216 + unat b * 65536 + unat c * 256 + unat d)"
| "unpack_header _ = (0, 0)"

definition frame_bytes :: "frame_kind \<times> byte list \<Rightarrow> byte list" where
  "frame_bytes f = pack_header (fst f) (length (snd f)) @ snd f"

definition send_frame :: "frame_kind \<Rightarrow> byte list \<Rightarrow> (transport_error, byte list) result" where
  "send_frame k payload =
     (if max_frame_size < length payload then Inl (Supervisor ''sandbox supervisor frame exceeds limit'')
      else Inr (frame_bytes (k, payload)))"

definition send_json_frame ::
  "(rat \<Rightarrow> ustring) \<Rightarrow> frame_kind \<Rightarrow> json \<Rightarrow> (transport_error, byte list) result" where
  "send_json_frame fr k j =
     (case utf8 (json_dumps fr False j) of
        None \<Rightarrow> Inl (Supervisor ''sandbox supervisor request is invalid'')
      | Some payload \<Rightarrow> send_frame k payload)"

section \<open>Receiving\<close>

text \<open>
  The bytes that will arrive before the stream ends, and how many of them the next \<open>receive\<close> calls hand out:
  at least one and at most what the caller asks for.
\<close>

record byte_stream =
  bs_incoming :: "byte list"
  bs_sizes :: "nat \<Rightarrow> nat"
  bs_reads :: nat

definition stream_receive :: "nat \<Rightarrow> byte_stream \<Rightarrow> (transport_error, byte list \<times> byte_stream) result" where
  "stream_receive n st =
     (if bs_incoming st = [] then Inl EndOfStream
      else
        (let k = max 1 (min n (bs_sizes st (bs_reads st)))
         in Inr (take k (bs_incoming st),
                 st\<lparr>bs_incoming := drop k (bs_incoming st), bs_reads := bs_reads st + 1\<rparr>)))"

function receive_exact :: "nat \<Rightarrow> byte_stream \<Rightarrow> (transport_error, byte list \<times> byte_stream) result" where
  "receive_exact n st =
     (if n = 0 then Inr ([], st)
      else
        (case stream_receive n st of
           Inl e \<Rightarrow> Inl e
         | Inr (chunk, st') \<Rightarrow>
             (if chunk = [] then Inl EndOfStream
              else and_then (receive_exact (n - length chunk) st')
                (\<lambda>(rest, st''). Inr (chunk @ rest, st'')))))"
  by pat_completeness auto
termination
  by (relation "measure (\<lambda>(n, st). n)") auto

declare receive_exact.simps [simp del]

definition receive_frame ::
  "byte_stream \<Rightarrow> (transport_error, (frame_kind \<times> byte list) \<times> byte_stream) result" where
  "receive_frame st =
     and_then (receive_exact header_size st) (\<lambda>(header, st1).
       case unpack_header header of (raw_kind, len) \<Rightarrow>
         if max_frame_size < len then Inl (Supervisor ''sandbox supervisor frame exceeds limit'')
         else
           (case frame_kind_of raw_kind of
              None \<Rightarrow> Inl (Supervisor ''sandbox supervisor sent an unknown frame'')
            | Some kind \<Rightarrow> and_then (receive_exact len st1) (\<lambda>(payload, st2). Inr ((kind, payload), st2))))"

section \<open>What a chunked stream delivers\<close>

lemma receive_exact_enough:
  assumes "n \<le> length (bs_incoming st)"
  shows "\<exists>k. receive_exact n st =
    Inr (take n (bs_incoming st), st\<lparr>bs_incoming := drop n (bs_incoming st), bs_reads := k\<rparr>)"
  using assms
proof (induction n st rule: receive_exact.induct)
  case (1 n st)
  show ?case
  proof (cases "n = 0")
    case True
    then show ?thesis by (subst receive_exact.simps) (auto intro: exI [of _ "bs_reads st"])
  next
    case False
    with 1(2) have ne: "bs_incoming st \<noteq> []" by auto
    define k where "k = max 1 (min n (bs_sizes st (bs_reads st)))"
    define st' where "st' = st\<lparr>bs_incoming := drop k (bs_incoming st), bs_reads := bs_reads st + 1\<rparr>"
    have rec: "stream_receive n st = Inr (take k (bs_incoming st), st')"
      using ne by (simp add: stream_receive_def k_def st'_def Let_def)
    have k: "1 \<le> k" "k \<le> n" using False by (auto simp: k_def)
    then have len: "length (take k (bs_incoming st)) = k" using 1(2) by simp
    have ne': "take k (bs_incoming st) \<noteq> []" using k ne by simp
    have "n - k \<le> length (bs_incoming st) - k" using 1(2) by (rule diff_le_mono)
    then obtain m where m: "receive_exact (n - k) st' =
        Inr (take (n - k) (bs_incoming st'), st'\<lparr>bs_incoming := drop (n - k) (bs_incoming st'), bs_reads := m\<rparr>)"
      using 1(1) [OF False rec refl ne'] 1(2) len k by (auto simp: st'_def)
    show ?thesis
      using False rec ne' m len k by (subst receive_exact.simps)
        (auto simp: st'_def take_add [symmetric] add.commute intro!: exI [of _ m])
  qed
qed

lemma receive_exact_short:
  assumes "length (bs_incoming st) < n"
  shows "receive_exact n st = Inl EndOfStream"
  using assms
proof (induction n st rule: receive_exact.induct)
  case (1 n st)
  show ?case
  proof (cases "bs_incoming st = []")
    case True
    then show ?thesis using 1(2) by (subst receive_exact.simps) (simp add: stream_receive_def)
  next
    case False
    define k where "k = max 1 (min n (bs_sizes st (bs_reads st)))"
    define st' where "st' = st\<lparr>bs_incoming := drop k (bs_incoming st), bs_reads := bs_reads st + 1\<rparr>"
    have rec: "stream_receive n st = Inr (take k (bs_incoming st), st')"
      using False by (simp add: stream_receive_def k_def st'_def Let_def)
    have k: "1 \<le> k" by (simp add: k_def)
    have ne': "take k (bs_incoming st) \<noteq> []" using k False by simp
    have "receive_exact (n - length (take k (bs_incoming st))) st' = Inl EndOfStream"
      using 1(2) by (intro 1(1) [OF _ rec refl ne']) (auto simp: st'_def)
    then show ?thesis
      using 1(2) rec ne' by (subst receive_exact.simps) simp
  qed
qed

lemma unat_byte_of: "unat (byte_of n) = n mod 256"
  by (simp add: byte_of_def unat_of_nat)

text \<open>The four digits of a number to the base 256.\<close>

lemma base_256: "n div 16777216 * 16777216 + n div 65536 mod 256 * 65536 + n div 256 mod 256 * 256 + n mod 256 = (n::nat)"
proof -
  have "n div 65536 div 256 = n div 16777216" and "n div 256 div 256 = n div 65536"
    by (simp_all add: div_mult2_eq [symmetric])
  moreover have "n div 65536 = n div 65536 div 256 * 256 + n div 65536 mod 256"
    and "n div 256 = n div 256 div 256 * 256 + n div 256 mod 256"
    and "n = n div 256 * 256 + n mod 256"
    by (rule div_mult_mod_eq [symmetric])+
  ultimately show ?thesis by linarith
qed

lemma unpack_pack:
  assumes "n < 4294967296"
  shows "unpack_header (pack_header k n) = (frame_value k, n)"
proof -
  have "n div 16777216 mod 256 = n div 16777216" using assms by simp
  moreover note base_256 [of n]
  moreover have "frame_value k < 256" by (cases k) simp_all
  ultimately show ?thesis by (simp add: pack_header_def unat_byte_of)
qed

lemma frame_kind_of_value [simp]: "frame_kind_of (frame_value k) = Some k"
  by (cases k) (simp_all add: frame_kind_of_def)

definition fits :: "frame_kind \<times> byte list \<Rightarrow> bool" where
  "fits f \<longleftrightarrow> length (snd f) \<le> max_frame_size"

lemma send_frame_fits: "send_frame k p = Inr b \<longleftrightarrow> fits (k, p) \<and> b = frame_bytes (k, p)"
  by (auto simp: send_frame_def fits_def)

lemma receive_frame_sent:
  assumes "fits (k, p)" and "bs_incoming st = frame_bytes (k, p) @ rest"
  shows "\<exists>r. receive_frame st = Inr ((k, p), st\<lparr>bs_incoming := rest, bs_reads := r\<rparr>)"
proof -
  let ?h = "pack_header k (length p)"
  have len: "length ?h = header_size" by (simp add: pack_header_def header_size_def)
  have n: "length p < 4294967296" using assms(1) by (simp add: fits_def max_frame_size_def)
  have inc: "bs_incoming st = ?h @ p @ rest" using assms(2) by (simp add: frame_bytes_def)
  then have "header_size \<le> length (bs_incoming st)" by (simp add: len)
  from receive_exact_enough [OF this] obtain r1 where
    h: "receive_exact header_size st = Inr (?h, st\<lparr>bs_incoming := p @ rest, bs_reads := r1\<rparr>)"
    by (auto simp: inc len)
  have "length p \<le> length (bs_incoming (st\<lparr>bs_incoming := p @ rest, bs_reads := r1\<rparr>))" by simp
  from receive_exact_enough [OF this] obtain r2 where
    "receive_exact (length p) (st\<lparr>bs_incoming := p @ rest, bs_reads := r1\<rparr>)
      = Inr (p, st\<lparr>bs_incoming := rest, bs_reads := r2\<rparr>)"
    by auto
  then show ?thesis
    using h assms(1) by (auto simp: receive_frame_def unpack_pack [OF n] fits_def)
qed

section \<open>The frames are a codec\<close>

text \<open>The decoder that the receiving side is, for one way of chunking the stream.\<close>

definition decode_frame ::
  "(nat \<Rightarrow> nat) \<Rightarrow> byte list \<Rightarrow> ((frame_kind \<times> byte list) \<times> byte list) option" where
  "decode_frame sizes bs =
     (case receive_frame \<lparr>bs_incoming = bs, bs_sizes = sizes, bs_reads = 0\<rparr> of
        Inl e \<Rightarrow> None
      | Inr (f, st) \<Rightarrow> Some (f, bs_incoming st))"

lemma decode_frame_sent: "fits f \<Longrightarrow> decode_frame sizes (frame_bytes f @ rest) = Some (f, rest)"
  using receive_frame_sent
    [of "fst f" "snd f" "\<lparr>bs_incoming = frame_bytes f @ rest, bs_sizes = sizes, bs_reads = 0\<rparr>" rest]
  by (auto simp: decode_frame_def)

interpretation frames: codec frame_bytes "decode_frame sizes" fits for sizes
  by unfold_locales (rule decode_frame_sent)

lemma frame_bytes_non_empty: "frame_bytes f \<noteq> []"
  by (simp add: frame_bytes_def pack_header_def)

text \<open>Two sequences of frames put the same bytes on the wire only when they are the same.\<close>

lemma frame_sequences_inj:
  assumes "list_all fits fs" and "list_all fits gs"
    and "concat (map frame_bytes fs) = concat (map frame_bytes gs)"
  shows "fs = gs"
  using assms frames.encode_concat_inj [of fs gs] frame_bytes_non_empty by (auto simp: list_all_iff)

section \<open>The client's session\<close>

text \<open>The payload of the START frame.\<close>

definition start_payload :: "ustring \<Rightarrow> ustring list \<Rightarrow> (string \<times> ustring) list \<Rightarrow> int \<Rightarrow> json" where
  "start_payload cmd args env timeout_ms =
     JObj [(''version'', JInt 1), (''command'', JStr cmd), (''args'', jtexts args),
           (''env'', JObj (map (\<lambda>(k, v). (k, JStr v)) env)), (''timeout_ms'', JInt timeout_ms)]"

text \<open>The handshake: START out, an empty READY in.\<close>

definition handshake :: "byte_stream \<Rightarrow> (transport_error, byte_stream) result" where
  "handshake st =
     (case receive_frame st of
        Inl EndOfStream \<Rightarrow> Inl (Supervisor ''sandbox supervisor handshake failed'')
      | Inl (Supervisor m) \<Rightarrow> Inl (Supervisor m)
      | Inr ((k, payload), st') \<Rightarrow>
          (if k \<noteq> READY \<or> payload \<noteq> [] then Inl (Supervisor ''sandbox supervisor handshake failed'')
           else Inr st'))"

text \<open>
  The reader task: what it hands to the session and the error it closes the session with. The parser of the
  protocol messages (\<open>validate_json\<close> of the MCP library) and the test for a JSON object are parameters.
\<close>

lemma receive_exact_shrinks:
  "receive_exact n st = Inr (b, st') \<Longrightarrow> length (bs_incoming st') + n = length (bs_incoming st)"
  using receive_exact_enough [of n st] receive_exact_short [of st n]
  by (cases "n \<le> length (bs_incoming st)") auto

lemma receive_frame_shrinks:
  "receive_frame st = Inr (f, st') \<Longrightarrow> length (bs_incoming st') < length (bs_incoming st)"
proof -
  assume "receive_frame st = Inr (f, st')"
  then obtain h st1 where h: "receive_exact header_size st = Inr (h, st1)"
    and rest: "(case unpack_header h of (raw_kind, len) \<Rightarrow>
         if max_frame_size < len then Inl (Supervisor ''sandbox supervisor frame exceeds limit'')
         else
           (case frame_kind_of raw_kind of
              None \<Rightarrow> Inl (Supervisor ''sandbox supervisor sent an unknown frame'')
            | Some kind \<Rightarrow> and_then (receive_exact len st1) (\<lambda>(payload, st2). Inr ((kind, payload), st2)))) = Inr (f, st')"
    unfolding receive_frame_def and_then_eq_Inr by auto
  obtain k len where u: "unpack_header h = (k, len)" by (cases "unpack_header h")
  from rest obtain p where "receive_exact len st1 = Inr (p, st')"
    by (auto simp: u and_then_eq_Inr split: if_splits option.splits)
  then show ?thesis
    using receive_exact_shrinks [OF h] receive_exact_shrinks by (fastforce simp: header_size_def)
qed

function socket_reader ::
  "(byte list \<Rightarrow> 'm option) \<Rightarrow> (byte list \<Rightarrow> bool) \<Rightarrow> byte_stream \<Rightarrow> 'm list \<times> string" where
  "socket_reader parse is_object st =
     (case receive_frame st of
        Inl (Supervisor m) \<Rightarrow> ([], ''sandbox supervisor protocol failed'')
      | Inl EndOfStream \<Rightarrow> ([], ''sandbox supervisor connection ended'')
      | Inr ((k, payload), st') \<Rightarrow>
          (if k = STDOUT then
             (case parse payload of
                None \<Rightarrow> ([], ''sandbox supervisor sent invalid MCP data'')
              | Some m \<Rightarrow> (case socket_reader parse is_object st' of (ms, e) \<Rightarrow> (m # ms, e)))
           else if k = ERROR then
             ([], if is_object payload then ''sandbox supervisor reported an error''
                  else ''sandbox supervisor sent an invalid error frame'')
           else if k = EXIT then
             ([], if is_object payload then ''sandbox supervisor process exited''
                  else ''sandbox supervisor sent an invalid exit frame'')
           else ([], ''sandbox supervisor sent an unexpected frame'')))"
  by pat_completeness auto
termination
  by (relation "measure (\<lambda>(_, _, st). length (bs_incoming st))") (auto dest: receive_frame_shrinks)

declare socket_reader.simps [simp del]

text \<open>The writer task: one STDIN frame per message, until one does not fit.\<close>

fun socket_writer :: "byte list list \<Rightarrow> byte list \<times> string option" where
  "socket_writer [] = ([], None)"
| "socket_writer (m # ms) =
     (case send_frame STDIN m of
        Inl e \<Rightarrow> ([], Some ''sandbox supervisor protocol failed'')
      | Inr b \<Rightarrow> (case socket_writer ms of (bs, e) \<Rightarrow> (b @ bs, e)))"

text \<open>Everything one session puts on the wire: START, its messages, and the control frame at its end.\<close>

definition client_bytes ::
  "(rat \<Rightarrow> ustring) \<Rightarrow> json \<Rightarrow> byte list list \<Rightarrow> bool \<Rightarrow> (transport_error, byte list) result" where
  "client_bytes fr start messages failed =
     and_then (send_json_frame fr START start) (\<lambda>b.
       Inr (b @ fst (socket_writer messages) @ frame_bytes (if failed then CANCEL else CLOSE_STDIN, [])))"

section \<open>What a session puts on the wire and hands over\<close>

text \<open>A reader on frames instead of bytes: the specification of the reader task.\<close>

fun read_frames ::
  "(byte list \<Rightarrow> 'm option) \<Rightarrow> (byte list \<Rightarrow> bool) \<Rightarrow> (frame_kind \<times> byte list) list \<Rightarrow> 'm list \<times> string" where
  "read_frames parse is_object [] = ([], ''sandbox supervisor connection ended'')"
| "read_frames parse is_object ((k, payload) # fs) =
     (if k = STDOUT then
        (case parse payload of
           None \<Rightarrow> ([], ''sandbox supervisor sent invalid MCP data'')
         | Some m \<Rightarrow> (case read_frames parse is_object fs of (ms, e) \<Rightarrow> (m # ms, e)))
      else if k = ERROR then
        ([], if is_object payload then ''sandbox supervisor reported an error''
             else ''sandbox supervisor sent an invalid error frame'')
      else if k = EXIT then
        ([], if is_object payload then ''sandbox supervisor process exited''
             else ''sandbox supervisor sent an invalid exit frame'')
      else ([], ''sandbox supervisor sent an unexpected frame''))"

lemma receive_frame_end: "bs_incoming st = [] \<Longrightarrow> receive_frame st = Inl EndOfStream"
  by (simp add: receive_frame_def receive_exact_short header_size_def)

lemma reader_refines_frames:
  "list_all fits fs \<Longrightarrow> bs_incoming st = concat (map frame_bytes fs) \<Longrightarrow>
     socket_reader parse is_object st = read_frames parse is_object fs"
proof (induction fs arbitrary: st)
  case Nil
  then show ?case by (subst socket_reader.simps) (simp add: receive_frame_end)
next
  case (Cons f fs)
  obtain k p where f: "f = (k, p)" by (cases f)
  have inc: "bs_incoming st = frame_bytes (k, p) @ concat (map frame_bytes fs)" using Cons.prems(2) f by simp
  obtain r where r: "receive_frame st
      = Inr ((k, p), st\<lparr>bs_incoming := concat (map frame_bytes fs), bs_reads := r\<rparr>)"
    using receive_frame_sent [OF _ inc] Cons.prems(1) f by auto
  have "socket_reader parse is_object (st\<lparr>bs_incoming := concat (map frame_bytes fs), bs_reads := r\<rparr>)
      = read_frames parse is_object fs"
    using Cons.prems(1) by (intro Cons.IH) auto
  then show ?case
    by (subst socket_reader.simps) (simp add: r f split: option.split)
qed

fun send_all :: "(frame_kind \<times> byte list) list \<Rightarrow> (transport_error, byte list) result" where
  "send_all [] = Inr []"
| "send_all ((k, p) # fs) = and_then (send_frame k p) (\<lambda>b. and_then (send_all fs) (\<lambda>bs. Inr (b @ bs)))"

lemma send_all_fits: "send_all fs = Inr bs \<longleftrightarrow> list_all fits fs \<and> bs = concat (map frame_bytes fs)"
  by (induction fs arbitrary: bs rule: send_all.induct) (auto simp: and_then_eq_Inr send_frame_fits)

text \<open>
  Framing survives any chunking. Whatever frames a supervisor sends, the client's reader hands over the
  messages and the final error that the frames themselves determine, one message per STDOUT frame in order,
  however the socket cuts the bytes into chunks; a payload over the limit is refused by the sender.
\<close>

theorem reader_is_independent_of_chunking:
  "case send_all fs of
     Inl e \<Rightarrow> e = Supervisor ''sandbox supervisor frame exceeds limit'' \<and>
       list_ex (\<lambda>f. max_frame_size < length (snd f)) fs
   | Inr bs \<Rightarrow> socket_reader parse is_object \<lparr>bs_incoming = bs, bs_sizes = sizes, bs_reads = n\<rparr>
       = read_frames parse is_object fs"
proof (cases "send_all fs")
  case (Inl e)
  have "send_all fs = Inl e \<Longrightarrow> e = Supervisor ''sandbox supervisor frame exceeds limit'' \<and>
      list_ex (\<lambda>f. max_frame_size < length (snd f)) fs" for e
    by (induction fs arbitrary: e rule: send_all.induct)
      (auto simp: and_then_eq_Inl send_frame_def split: if_splits)
  then show ?thesis using Inl by simp
next
  case (Inr bs)
  then have "list_all fits fs" and "bs = concat (map frame_bytes fs)" by (simp_all add: send_all_fits)
  then show ?thesis using Inr by (simp add: reader_refines_frames)
qed

text \<open>
  C19: a frame comes out of the stream as it went in, whatever follows it and however the bytes are chunked,
  and the bytes after it are left in the stream: encoding and decoding is a round trip.
\<close>

theorem frame_roundtrip:
  "case send_frame k p of
     Inl e \<Rightarrow> max_frame_size < length p
   | Inr bs \<Rightarrow> \<exists>r. receive_frame \<lparr>bs_incoming = bs @ rest, bs_sizes = sizes, bs_reads = n\<rparr> =
       Inr ((k, p), \<lparr>bs_incoming = rest, bs_sizes = sizes, bs_reads = r\<rparr>)"
  using receive_frame_sent [of k p "\<lparr>bs_incoming = frame_bytes (k, p) @ rest, bs_sizes = sizes, bs_reads = n\<rparr>" rest]
  by (auto simp: send_frame_def fits_def)

text \<open>The frames of a byte string, as the peer reads them.\<close>

function peer_frames :: "byte_stream \<Rightarrow> (frame_kind \<times> byte list) list" where
  "peer_frames st = (case receive_frame st of Inl e \<Rightarrow> [] | Inr (f, st') \<Rightarrow> f # peer_frames st')"
  by pat_completeness auto
termination
  by (relation "measure (\<lambda>st. length (bs_incoming st))") (auto dest: receive_frame_shrinks)

declare peer_frames.simps [simp del]

lemma peer_frames_sent:
  "list_all fits fs \<Longrightarrow> bs_incoming st = concat (map frame_bytes fs) \<Longrightarrow> peer_frames st = fs"
proof (induction fs arbitrary: st)
  case Nil
  then show ?case by (subst peer_frames.simps) (simp add: receive_frame_end)
next
  case (Cons f fs)
  have inc: "bs_incoming st = frame_bytes (fst f, snd f) @ concat (map frame_bytes fs)"
    using Cons.prems(2) by simp
  obtain r where "receive_frame st = Inr (f, st\<lparr>bs_incoming := concat (map frame_bytes fs), bs_reads := r\<rparr>)"
    using receive_frame_sent [OF _ inc] Cons.prems(1) by auto
  then show ?case
    using Cons.prems(1) by (subst peer_frames.simps) (simp add: Cons.IH)
qed

lemma socket_writer_frames:
  "fst (socket_writer ms) = concat (map frame_bytes (map (Pair STDIN) (takeWhile (\<lambda>m. fits (STDIN, m)) ms)))"
  by (induction ms) (auto simp: send_frame_def fits_def split: prod.split)

text \<open>
  The supervisor sees a well-framed session: one START frame with the request, then the session's
  messages as STDIN frames in order, up to the first one over the limit, then CLOSE_STDIN, or CANCEL when
  the session failed - whatever the messages contain and however the bytes arrive.
\<close>

theorem client_session_is_well_framed:
  "case client_bytes fr start messages failed of
     Inl e \<Rightarrow> \<exists>m. e = Supervisor m
   | Inr bs \<Rightarrow> \<exists>payload. utf8 (json_dumps fr False start) = Some payload \<and>
       peer_frames \<lparr>bs_incoming = bs, bs_sizes = sizes, bs_reads = n\<rparr> =
         (START, payload) # map (Pair STDIN) (takeWhile (\<lambda>m. length m \<le> max_frame_size) messages) @
         [(if failed then CANCEL else CLOSE_STDIN, [])]"
proof (cases "client_bytes fr start messages failed")
  case (Inl e)
  then show ?thesis
    by (auto simp: client_bytes_def and_then_eq_Inl send_json_frame_def send_frame_def split: option.splits if_splits)
next
  case (Inr bs)
  then obtain payload where p: "utf8 (json_dumps fr False start) = Some payload" "fits (START, payload)"
    and bs: "bs = frame_bytes (START, payload) @ fst (socket_writer messages)
      @ frame_bytes (if failed then CANCEL else CLOSE_STDIN, [])"
    by (auto simp: client_bytes_def and_then_eq_Inr send_json_frame_def send_frame_fits split: option.splits)
  let ?fs = "(START, payload) # map (Pair STDIN) (takeWhile (\<lambda>m. fits (STDIN, m)) messages) @
    [(if failed then CANCEL else CLOSE_STDIN, [])]"
  have "list_all fits ?fs"
    using p(2) set_takeWhileD by (fastforce simp: list_all_iff fits_def)
  moreover have "bs = concat (map frame_bytes ?fs)" by (simp add: bs socket_writer_frames)
  ultimately have "peer_frames \<lparr>bs_incoming = bs, bs_sizes = sizes, bs_reads = n\<rparr> = ?fs"
    by (intro peer_frames_sent) auto
  then show ?thesis using Inr p(1) by (simp add: fits_def)
qed

end
