(* ===== verification/McpRunner.thy ===== *)
theory McpRunner
  imports RunnerSecurity Transport
begin

text \<open>
  \<open>services/sandbox-runner/allcallall_sandbox_runner/mcp_runner.py\<close> with \<open>models.py\<close> and the one-shot guard of
  \<open>main.py\<close>: validating an MCP installation (bounded tool discovery) and executing one tool call, with the scan
  for secrets in whatever leaves the sandbox. The MCP session and the secret store are parameters.
\<close>

section \<open>Requests and responses\<close>

record installation_definition =
  in_transport :: string
  in_image_ref :: ustring
  in_endpoint_url :: ustring
  in_command :: "ustring list"
  in_args :: "ustring list"
  in_config :: json_object
  in_network_allowlist :: "ustring list"

record validation_request =
  vr_installation_id :: int
  vr_revision_id :: int
  vr_source_type :: string
  vr_definition :: installation_definition
  vr_secret_wrap_token :: ustring

record execution_request =
  er_execution_id :: string
  er_source_type :: string
  er_definition :: installation_definition
  er_tool_name :: string
  er_arguments :: json_object
  er_secret_wrap_token :: ustring
  er_timeout_ms :: int
  er_output_limit :: int

record discovered_tool =
  dt_name :: ustring
  dt_description :: ustring
  dt_input_schema :: json_object
  dt_output_schema :: json_object
  dt_risk :: string
  dt_schema_version :: string

text \<open>\<open>model_dump(mode="json")\<close> of a discovered tool.\<close>

definition tool_json :: "discovered_tool \<Rightarrow> json" where
  "tool_json t = JObj
     [(''name'', JStr (dt_name t)), (''description'', JStr (dt_description t)),
      (''input_schema'', JObj (dt_input_schema t)), (''output_schema'', JObj (dt_output_schema t)),
      (''risk'', jstr (dt_risk t)), (''schema_version'', jstr (dt_schema_version t))]"

section \<open>Opening a session\<close>

datatype channel =
    StreamableHttp destination "(string \<times> ustring) list"
  | Sse destination "(string \<times> ustring) list"
  | SupervisorSocket ustring ustring "ustring list" "(string \<times> ustring) list" int
  | LocalStdio ustring "ustring list" "(string \<times> ustring) list"

definition open_channel ::
  "env \<Rightarrow> network \<Rightarrow> (ustring \<Rightarrow> parsed_url) \<Rightarrow> string \<Rightarrow> installation_definition \<Rightarrow> secrets \<Rightarrow> int
     \<Rightarrow> (runner_error, channel) result" where
  "open_channel env net urlparse source_type def secrets timeout_ms =
     (if source_type = ''https'' then
        and_then (validate_https_endpoint env net (urlparse (in_endpoint_url def)) (in_network_allowlist def))
          (\<lambda>dest. and_then (secret_headers (in_config def) secrets) (\<lambda>headers.
             if in_transport def = ''http'' \<or> in_transport def = ''streamable_http''
             then Inr (StreamableHttp dest headers)
             else if in_transport def = ''sse'' then Inr (Sse dest headers)
             else Inl (McpError ''unsupported HTTPS MCP transport'')))
      else if source_type = ''oci'' then
        (case in_command def of
           [] \<Rightarrow> Inl (McpError ''stdio MCP command is required'')
         | command # rest \<Rightarrow>
             and_then (secret_environment (in_config def) secrets) (\<lambda>environment.
               let args = rest @ in_args def; supervisor = strip (env ''SANDBOX_SUPERVISOR_SOCKET'')
               in if supervisor \<noteq> [] then Inr (SupervisorSocket supervisor command args environment timeout_ms)
                  else if env ''SANDBOX_ALLOW_STDIO'' \<noteq> codes ''1''
                  then Inl (SecurityError ''stdio MCP is only allowed inside an isolated sandbox'')
                  else Inr (LocalStdio command args environment)))
      else Inl (McpError ''unsupported MCP source type''))"

section \<open>Discovering the tools\<close>

definition max_validation_pages :: nat where "max_validation_pages = 16"
definition max_validation_tools :: nat where "max_validation_tools = 256"
definition max_validation_schema_bytes :: nat where "max_validation_schema_bytes = 1024 * 1024"

text \<open>A tool and a page of tools as the MCP session returns them; a missing cursor is the empty string.\<close>

record mcp_tool =
  mt_name :: ustring
  mt_description :: ustring
  mt_read_only_hint :: bool
  mt_input_schema :: json_object
  mt_output_schema :: json_object

record tool_page =
  tp_tools :: "mcp_tool list"
  tp_next_cursor :: ustring

definition string_set :: "json option \<Rightarrow> ustring list" where
  "string_set v =
     (case v of
        Some (JList items) \<Rightarrow>
          List.map_filter (\<lambda>i. case i of JStr t \<Rightarrow> if t \<noteq> [] then Some t else None | _ \<Rightarrow> None) items
      | _ \<Rightarrow> [])"

definition map_tool :: "json_object \<Rightarrow> mcp_tool \<Rightarrow> discovered_tool" where
  "map_tool config t =
     (let reads = string_set (map_of config ''read_tools'');
          writes = string_set (map_of config ''write_tools'')
      in \<lparr>dt_name = mt_name t, dt_description = mt_description t, dt_input_schema = mt_input_schema t,
          dt_output_schema = mt_output_schema t,
          dt_risk = (if mt_name t \<in> set writes then ''write''
                     else if mt_name t \<in> set reads \<and> mt_read_only_hint t then ''read'' else ''unknown''),
          dt_schema_version = ''mcp-1''\<rparr>)"

definition schema_size :: "(rat \<Rightarrow> ustring) \<Rightarrow> discovered_tool \<Rightarrow> nat option" where
  "schema_size fr t =
     map_option length (utf8 (json_dumps fr False (JList [JObj (dt_input_schema t), JObj (dt_output_schema t)])))"

fun add_tools ::
  "(rat \<Rightarrow> ustring) \<Rightarrow> json_object \<Rightarrow> mcp_tool list \<Rightarrow> discovered_tool list \<Rightarrow> nat
     \<Rightarrow> (runner_error, discovered_tool list \<times> nat) result" where
  "add_tools fr config [] tools bytes = Inr (tools, bytes)"
| "add_tools fr config (t # ts) tools bytes =
     (let mapped = map_tool config t; tools' = tools @ [mapped]
      in if max_validation_tools < length tools' then Inl (McpError ''MCP tool catalog exceeds configured limit'')
         else
           (case schema_size fr mapped of
              None \<Rightarrow> Inl OtherError
            | Some n \<Rightarrow>
                (if max_validation_schema_bytes < bytes + n
                 then Inl (McpError ''MCP tool schemas exceed configured limit'')
                 else add_tools fr config ts tools' (bytes + n))))"

text \<open>The session answers the \<open>k\<close>-th request for the page at a cursor.\<close>

fun discover_pages ::
  "(rat \<Rightarrow> ustring) \<Rightarrow> json_object \<Rightarrow> (ustring option \<Rightarrow> nat \<Rightarrow> (runner_error, tool_page) result)
     \<Rightarrow> nat \<Rightarrow> nat \<Rightarrow> ustring \<Rightarrow> ustring list \<Rightarrow> discovered_tool list \<Rightarrow> nat
     \<Rightarrow> (runner_error, discovered_tool list) result" where
  "discover_pages fr config list_tools 0 k cursor seen tools bytes =
     Inl (McpError ''MCP tool catalog exceeds page limit'')"
| "discover_pages fr config list_tools (Suc n) k cursor seen tools bytes =
     and_then (list_tools (if cursor = [] then None else Some cursor) k) (\<lambda>page.
       and_then (add_tools fr config (tp_tools page) tools bytes) (\<lambda>(tools', bytes').
         let next = tp_next_cursor page
         in if next = [] then Inr tools'
            else if next \<in> set seen then Inl (McpError ''MCP tool pagination cursor repeated'')
            else discover_pages fr config list_tools n (k + 1) next (next # seen) tools' bytes'))"

definition discover_tools ::
  "(rat \<Rightarrow> ustring) \<Rightarrow> (ustring option \<Rightarrow> nat \<Rightarrow> (runner_error, tool_page) result) \<Rightarrow> json_object
     \<Rightarrow> (runner_error, discovered_tool list) result" where
  "discover_tools fr list_tools config =
     discover_pages fr config list_tools max_validation_pages 0 [] [] [] 0"

section \<open>The scan for secrets\<close>

fun infix_of :: "'a list \<Rightarrow> 'a list \<Rightarrow> bool" where
  "infix_of sub [] \<longleftrightarrow> sub = []"
| "infix_of sub (x # xs) \<longleftrightarrow> take (length sub) (x # xs) = sub \<or> infix_of sub xs"

fun visit :: "ustring list \<Rightarrow> json \<Rightarrow> bool" where
  "visit protected (JStr t) = list_ex (\<lambda>s. substring_in s t) protected"
| "visit protected (JObj kvs) =
     list_ex (\<lambda>kv. list_ex (\<lambda>s. substring_in s (codes (fst kv))) protected \<or> visit protected (snd kv)) kvs"
| "visit protected (JList js) = list_ex (visit protected) js"
| "visit protected _ = False"

fun any_encoded :: "ustring list \<Rightarrow> byte list \<Rightarrow> (runner_error, bool) result" where
  "any_encoded [] encoded = Inr False"
| "any_encoded (v # vs) encoded =
     (case utf8 v of None \<Rightarrow> Inl OtherError
      | Some b \<Rightarrow> if infix_of b encoded then Inr True else any_encoded vs encoded)"

definition contains_protected_value :: "json \<Rightarrow> byte list \<Rightarrow> ustring list \<Rightarrow> (runner_error, bool) result" where
  "contains_protected_value output encoded values =
     (let protected = filter (\<lambda>v. v \<noteq> []) values
      in if protected = [] then Inr False
         else if visit protected output then Inr True
         else any_encoded protected encoded)"

section \<open>Validation and execution\<close>

text \<open>The classes of the runner pass through; everything else becomes the runner's own error.\<close>

definition wrap_errors :: "string \<Rightarrow> (runner_error, 'a) result \<Rightarrow> (runner_error, 'a) result" where
  "wrap_errors msg r = (case r of Inl OtherError \<Rightarrow> Inl (McpError msg) | _ \<Rightarrow> r)"

definition encode_json :: "(rat \<Rightarrow> ustring) \<Rightarrow> json \<Rightarrow> (runner_error, byte list) result" where
  "encode_json fr j = (case utf8 (json_dumps fr False j) of None \<Rightarrow> Inl OtherError | Some b \<Rightarrow> Inr b)"

text \<open>What surrounds the runner: the environment, the network, and the MCP session behind a channel.\<close>

record surroundings =
  sr_env :: env
  sr_net :: network
  sr_urlparse :: "ustring \<Rightarrow> parsed_url"
  sr_float_repr :: "rat \<Rightarrow> ustring"
  sr_unwrap :: "ustring \<Rightarrow> ustring \<Rightarrow> (int \<times> json) option"

definition validate_installation ::
  "surroundings \<Rightarrow> (channel \<Rightarrow> ustring option \<Rightarrow> nat \<Rightarrow> (runner_error, tool_page) result) \<Rightarrow> validation_request
     \<Rightarrow> (runner_error, discovered_tool list) result" where
  "validate_installation w session rq =
     wrap_errors ''MCP validation failed''
       (and_then (unwrap_secrets (sr_env w) (sr_float_repr w) (sr_unwrap w) (vr_secret_wrap_token rq)) (\<lambda>secrets.
          and_then (open_channel (sr_env w) (sr_net w) (sr_urlparse w) (vr_source_type rq) (vr_definition rq)
              secrets 30000) (\<lambda>ch.
            and_then (discover_tools (sr_float_repr w) (session ch) (in_config (vr_definition rq))) (\<lambda>tools.
              let catalog = JList (map tool_json tools)
              in and_then (encode_json (sr_float_repr w) catalog) (\<lambda>encoded.
                   and_then (contains_protected_value catalog encoded (vr_secret_wrap_token rq # map snd secrets))
                     (\<lambda>leak. if leak then Inl (McpError ''MCP tool catalog contains protected data'')
                             else Inr tools))))))"

record tool_result =
  tr_content :: "json list"
  tr_structured :: "json option"
  tr_is_error :: bool

definition normalize_tool_result :: "tool_result \<Rightarrow> (runner_error, json) result" where
  "normalize_tool_result r =
     (if tr_is_error r then Inl (McpError ''MCP tool returned an error'')
      else Inr (JObj ([(''content'', JList (tr_content r))] @
        (case tr_structured r of Some (JObj kvs) \<Rightarrow> [(''structured_content'', JObj kvs)] | _ \<Rightarrow> []))))"

definition timeout_seconds :: "execution_request \<Rightarrow> rat" where
  "timeout_seconds rq = max 1 (min (of_int (er_timeout_ms rq) / 1000) 30)"

definition execute_tool ::
  "surroundings \<Rightarrow> (channel \<Rightarrow> string \<Rightarrow> json_object \<Rightarrow> seconds \<Rightarrow> (runner_error, tool_result) result)
     \<Rightarrow> execution_request \<Rightarrow> (runner_error, string \<times> json) result" where
  "execute_tool w session rq =
     wrap_errors ''MCP tool execution failed''
       (and_then (unwrap_secrets (sr_env w) (sr_float_repr w) (sr_unwrap w) (er_secret_wrap_token rq)) (\<lambda>secrets.
          and_then (open_channel (sr_env w) (sr_net w) (sr_urlparse w) (er_source_type rq) (er_definition rq)
              secrets (floor (timeout_seconds rq * 1000))) (\<lambda>ch.
            and_then (session ch (er_tool_name rq) (er_arguments rq) (timeout_seconds rq)) (\<lambda>result.
              and_then (normalize_tool_result result) (\<lambda>output.
                and_then (encode_json (sr_float_repr w) output) (\<lambda>encoded.
                  and_then (contains_protected_value output encoded (er_secret_wrap_token rq # map snd secrets))
                    (\<lambda>leak.
                      if leak then Inl (McpError ''MCP tool output contains protected data'')
                      else if min (max 1 (er_output_limit rq)) (256 * 1024) < int (length encoded)
                      then Inl (McpError ''MCP tool output exceeds configured limit'')
                      else Inr (er_execution_id rq, output))))))))"

section \<open>One request per sandbox\<close>

datatype claim_outcome = Granted | Refused nat

definition claim_one_shot :: "env \<Rightarrow> string \<Rightarrow> string \<Rightarrow> bool \<Rightarrow> claim_outcome \<times> bool" where
  "claim_one_shot env operation execution_id consumed =
     (if strip (env ''SANDBOX_ONE_SHOT'') \<noteq> codes ''1'' then (Granted, consumed)
      else if codes operation \<noteq> strip (env ''SANDBOX_OPERATION'') then (Refused 403, consumed)
      else if operation = ''execute'' \<and> codes execution_id \<noteq> strip (env ''SANDBOX_EXPECTED_EXECUTION_ID'')
      then (Refused 403, consumed)
      else if consumed then (Refused 409, consumed)
      else (Granted, True))"

fun claims :: "env \<Rightarrow> (string \<times> string) list \<Rightarrow> bool \<Rightarrow> claim_outcome list" where
  "claims env [] consumed = []"
| "claims env ((operation, execution_id) # rs) consumed =
     (case claim_one_shot env operation execution_id consumed of (o1, c1) \<Rightarrow> o1 # claims env rs c1)"

section \<open>What may leave the sandbox\<close>

definition occurs_in :: "'a list \<Rightarrow> 'a list \<Rightarrow> bool" where
  "occurs_in s t \<longleftrightarrow> (\<exists>a b. t = a @ s @ b)"

lemma occurs_in_Cons: "occurs_in s (x # xs) \<longleftrightarrow> (\<exists>b. x # xs = s @ b) \<or> occurs_in s xs"
  unfolding occurs_in_def by (metis Cons_eq_append_conv append_Cons append_self_conv2)

lemma substring_in_iff: "substring_in s t \<longleftrightarrow> occurs_in s t"
proof (induction s t rule: substring_in.induct)
  case (1 s)
  then show ?case by (simp add: occurs_in_def)
next
  case (2 s c cs)
  then show ?case by (simp add: occurs_in_Cons starts_with_append)
qed

lemma infix_of_iff: "infix_of s t \<longleftrightarrow> occurs_in s t"
proof (induction s t rule: infix_of.induct)
  case (1 s)
  then show ?case by (simp add: occurs_in_def)
next
  case (2 s c cs)
  have "take (length s) (c # cs) = s \<longleftrightarrow> (\<exists>b. c # cs = s @ b)"
    by (metis append_eq_conv_conj append_take_drop_id)
  then show ?case using 2 by (simp add: occurs_in_Cons)
qed

text \<open>The strings of a JSON value: its texts and its keys, at every depth.\<close>

fun texts :: "json \<Rightarrow> ustring list" where
  "texts (JStr t) = [t]"
| "texts (JObj kvs) = concat (map (\<lambda>kv. codes (fst kv) # texts (snd kv)) kvs)"
| "texts (JList js) = concat (map texts js)"
| "texts _ = []"

lemma visit_iff: "visit protected j \<longleftrightarrow> (\<exists>s \<in> set protected. \<exists>t \<in> set (texts j). occurs_in s t)"
proof (induction protected j rule: visit.induct)
  case (2 protected kvs)
  then have "visit protected (JObj kvs) \<longleftrightarrow>
      (\<exists>kv \<in> set kvs. \<exists>s \<in> set protected. \<exists>t \<in> insert (codes (fst kv)) (set (texts (snd kv))). occurs_in s t)"
    by (simp add: list_ex_iff substring_in_iff bex_disj_distrib cong: bex_cong)
  then show ?case by auto
next
  case (3 protected js)
  then have "visit protected (JList js) \<longleftrightarrow>
      (\<exists>j \<in> set js. \<exists>s \<in> set protected. \<exists>t \<in> set (texts j). occurs_in s t)"
    by (simp add: list_ex_iff cong: bex_cong)
  then show ?case by auto
qed (simp_all add: list_ex_iff substring_in_iff)

definition clean :: "json \<Rightarrow> byte list \<Rightarrow> ustring \<Rightarrow> bool" where
  "clean output encoded s \<longleftrightarrow>
     list_all (\<lambda>t. \<not> occurs_in s t) (texts output) \<and>
     (\<exists>b. utf8 s = Some b \<and> \<not> occurs_in b encoded)"

lemma any_encoded_False:
  "any_encoded vs encoded = Inr False \<Longrightarrow> v \<in> set vs \<Longrightarrow> \<exists>b. utf8 v = Some b \<and> \<not> occurs_in b encoded"
  by (induction vs encoded rule: any_encoded.induct)
    (auto simp: infix_of_iff split: option.splits if_splits)

lemma scan_clean:
  assumes "contains_protected_value output encoded values = Inr False"
  shows "list_all (\<lambda>s. s = [] \<or> clean output encoded s) values"
proof -
  have "clean output encoded s" if "s \<in> set values" "s \<noteq> []" for s
  proof -
    have s: "s \<in> set (filter (\<lambda>v. v \<noteq> []) values)" using that by simp
    then have "filter (\<lambda>v. v \<noteq> []) values \<noteq> []" by (cases "filter (\<lambda>v. v \<noteq> []) values") auto
    then have "\<not> visit (filter (\<lambda>v. v \<noteq> []) values) output"
      and enc: "any_encoded (filter (\<lambda>v. v \<noteq> []) values) encoded = Inr False"
      using assms unfolding contains_protected_value_def Let_def by (metis sum.inject(2))+
    then have "\<forall>t \<in> set (texts output). \<not> occurs_in s t" using s unfolding visit_iff by blast
    then show ?thesis using any_encoded_False [OF enc s] by (simp add: clean_def list_all_iff)
  qed
  then show ?thesis by (auto simp: list_all_iff)
qed

lemma wrap_errors_Inr [simp]: "wrap_errors msg r = Inr x \<longleftrightarrow> r = Inr x"
  by (auto simp: wrap_errors_def split: sum.splits runner_error.splits)

lemma wrap_errors_Inl: "wrap_errors msg r = Inl e \<Longrightarrow> e \<noteq> OtherError"
  by (auto simp: wrap_errors_def split: sum.splits runner_error.splits)

text \<open>
  C18: no secret leaves the sandbox through a tool's output. When an execution returns, no string of the
  output, and no part of its JSON text, contains the wrapping token or one of the unwrapped secrets, and the
  JSON text keeps the output limit; when it does not return, the caller sees one of the runner's own errors.
\<close>

theorem executed_output_is_clean:
  "case execute_tool w session rq of
     Inl e \<Rightarrow> e \<noteq> OtherError
   | Inr (job, out) \<Rightarrow> job = er_execution_id rq \<and>
       (\<exists>secrets encoded.
          unwrap_secrets (sr_env w) (sr_float_repr w) (sr_unwrap w) (er_secret_wrap_token rq) = Inr secrets \<and>
          encode_json (sr_float_repr w) out = Inr encoded \<and>
          int (length encoded) \<le> min (max 1 (er_output_limit rq)) 262144 \<and>
          list_all (\<lambda>s. s = [] \<or> clean out encoded s) (er_secret_wrap_token rq # map snd secrets))"
proof (cases "execute_tool w session rq")
  case (Inl e)
  then show ?thesis by (auto simp: execute_tool_def dest: wrap_errors_Inl)
next
  case (Inr r)
  obtain job out where r: "r = (job, out)" by (cases r)
  obtain secrets encoded where
    sec: "unwrap_secrets (sr_env w) (sr_float_repr w) (sr_unwrap w) (er_secret_wrap_token rq) = Inr secrets"
    and enc: "encode_json (sr_float_repr w) out = Inr encoded"
    and scan: "contains_protected_value out encoded (er_secret_wrap_token rq # map snd secrets) = Inr False"
    and len: "\<not> min (max 1 (er_output_limit rq)) (256 * 1024) < int (length encoded)"
    and job: "job = er_execution_id rq"
    using Inr unfolding execute_tool_def wrap_errors_Inr and_then_eq_Inr r
    by (auto split: if_splits)
  from len have "int (length encoded) \<le> min (max 1 (er_output_limit rq)) 262144"
    by linarith
  then show ?thesis
    using Inr r sec enc job scan_clean [OF scan] by auto
qed

section \<open>The discovered catalog\<close>

text \<open>The pages a session returns from a cursor on, to the last one.\<close>

fun page_chain ::
  "(ustring option \<Rightarrow> nat \<Rightarrow> (runner_error, tool_page) result) \<Rightarrow> nat \<Rightarrow> ustring \<Rightarrow> tool_page list \<Rightarrow> bool" where
  "page_chain list_tools k cursor [] \<longleftrightarrow> False"
| "page_chain list_tools k cursor [p] \<longleftrightarrow>
     list_tools (if cursor = [] then None else Some cursor) k = Inr p \<and> tp_next_cursor p = []"
| "page_chain list_tools k cursor (p # q # ps) \<longleftrightarrow>
     list_tools (if cursor = [] then None else Some cursor) k = Inr p \<and> tp_next_cursor p \<noteq> [] \<and>
     page_chain list_tools (k + 1) (tp_next_cursor p) (q # ps)"

lemma page_chain_Cons:
  "page_chain list_tools k cursor (p # ps) \<longleftrightarrow>
     list_tools (if cursor = [] then None else Some cursor) k = Inr p \<and>
     (if ps = [] then tp_next_cursor p = []
      else tp_next_cursor p \<noteq> [] \<and> page_chain list_tools (k + 1) (tp_next_cursor p) ps)"
  by (cases ps) auto

lemma add_tools_result:
  "add_tools fr config ts tools bytes = Inr (tools', bytes') \<Longrightarrow>
     length tools \<le> max_validation_tools \<Longrightarrow>
     tools' = tools @ map (map_tool config) ts \<and> length tools' \<le> max_validation_tools"
  by (induction fr config ts tools bytes rule: add_tools.induct)
    (auto simp: Let_def split: if_splits option.splits)

lemma discover_pages_chain:
  "discover_pages fr config list_tools n k cursor seen tools bytes = Inr result \<Longrightarrow>
     length tools \<le> max_validation_tools \<Longrightarrow>
     \<exists>pages. page_chain list_tools k cursor pages \<and> length pages \<le> n \<and>
       distinct (map tp_next_cursor pages) \<and> set (map tp_next_cursor pages) \<inter> (set seen - {[]}) = {} \<and>
       result = tools @ concat (map (\<lambda>p. map (map_tool config) (tp_tools p)) pages) \<and>
       length result \<le> max_validation_tools"
proof (induction fr config list_tools n k cursor seen tools bytes
    arbitrary: result rule: discover_pages.induct)
  case (2 fr config list_tools n k cursor seen tools bytes)
  obtain page tools' bytes' where
    page: "list_tools (if cursor = [] then None else Some cursor) k = Inr page"
    and add: "add_tools fr config (tp_tools page) tools bytes = Inr (tools', bytes')"
    and rest: "(if tp_next_cursor page = [] then Inr tools'
            else if tp_next_cursor page \<in> set seen then Inl (McpError ''MCP tool pagination cursor repeated'')
            else discover_pages fr config list_tools n (k + 1) (tp_next_cursor page) (tp_next_cursor page # seen)
                   tools' bytes') = Inr result"
    using 2(2) by (auto simp: and_then_eq_Inr Let_def)
  have tools': "tools' = tools @ map (map_tool config) (tp_tools page)" "length tools' \<le> max_validation_tools"
    using add_tools_result [OF add 2(3)] by auto
  show ?case
  proof (cases "tp_next_cursor page = []")
    case True
    then show ?thesis using rest page tools' by (intro exI [of _ "[page]"]) simp
  next
    case False
    then have fresh: "tp_next_cursor page \<notin> set seen"
      and rec: "discover_pages fr config list_tools n (k + 1) (tp_next_cursor page) (tp_next_cursor page # seen)
                   tools' bytes' = Inr result"
      using rest by (auto split: if_splits)
    obtain pages where ih: "page_chain list_tools (k + 1) (tp_next_cursor page) pages" "length pages \<le> n"
      "distinct (map tp_next_cursor pages)"
      "set (map tp_next_cursor pages) \<inter> (set (tp_next_cursor page # seen) - {[]}) = {}"
      "result = tools' @ concat (map (\<lambda>p. map (map_tool config) (tp_tools p)) pages)"
      "length result \<le> max_validation_tools"
      using 2(1) [OF refl False fresh rec tools'(2)] by blast
    then have "pages \<noteq> []" by (cases pages) auto
    then show ?thesis
      using ih page tools' False fresh by (intro exI [of _ "page # pages"]) (auto simp: page_chain_Cons)
  qed
qed simp

text \<open>
  Tool discovery returns the whole catalog or an error. A returned catalog is the tools of every page of
  the session in order, from the first page to the one without a further cursor, each classified by the
  installation's configuration; it took at most sixteen requests, no cursor was followed twice, and it holds
  at most 256 tools. A tool is a read tool only when the configuration lists it and its own annotation agrees.
\<close>

theorem discovered_catalog_is_complete:
  "case discover_tools fr list_tools config of
     Inl e \<Rightarrow> True
   | Inr tools \<Rightarrow> \<exists>pages. page_chain list_tools 0 [] pages \<and> length pages \<le> 16 \<and>
       distinct (map tp_next_cursor pages) \<and> length tools \<le> 256 \<and>
       tools = map (map_tool config) (concat (map tp_tools pages)) \<and>
       map dt_risk tools = map (\<lambda>t.
         if mt_name t \<in> set (string_set (map_of config ''write_tools'')) then ''write''
         else if mt_name t \<in> set (string_set (map_of config ''read_tools'')) \<and> mt_read_only_hint t then ''read''
         else ''unknown'') (concat (map tp_tools pages))"
proof (cases "discover_tools fr list_tools config")
  case (Inr tools)
  have bounds: "max_validation_tools = 256" "max_validation_pages = 16"
    by (simp_all add: max_validation_tools_def max_validation_pages_def)
  obtain pages where "page_chain list_tools 0 [] pages" "length pages \<le> 16" "distinct (map tp_next_cursor pages)"
    "tools = concat (map (\<lambda>p. map (map_tool config) (tp_tools p)) pages)" "length tools \<le> 256"
    using discover_pages_chain [of fr config list_tools max_validation_pages 0 "[]" "[]" "[]" 0 tools] Inr
    unfolding discover_tools_def bounds by auto
  then show ?thesis
    using Inr by (auto simp: map_concat map_tool_def Let_def comp_def intro!: exI [of _ pages])
qed simp

section \<open>At most one request\<close>

definition claim_ok :: "env \<Rightarrow> claim_outcome \<Rightarrow> string \<times> string \<Rightarrow> bool" where
  "claim_ok env out r \<longleftrightarrow>
     (case out of
        Granted \<Rightarrow> codes (fst r) = strip (env ''SANDBOX_OPERATION'') \<and>
          (fst r = ''execute'' \<longrightarrow> codes (snd r) = strip (env ''SANDBOX_EXPECTED_EXECUTION_ID''))
      | Refused code \<Rightarrow> code \<in> {403, 409})"

lemma claim_step:
  assumes "strip (env ''SANDBOX_ONE_SHOT'') = codes ''1''"
    and "claim_one_shot env operation execution_id consumed = (out, consumed')"
  shows "claim_ok env out (operation, execution_id)" and "out = Granted \<Longrightarrow> \<not> consumed \<and> consumed'"
    and "consumed \<Longrightarrow> consumed'"
  using assms by (auto simp: claim_one_shot_def claim_ok_def split: if_splits)

text \<open>
  A one-shot sandbox serves at most one request, and only the operation and the execution it was started
  for; every other request is refused with 403 or 409. Without the one-shot flag every request is served.
\<close>

theorem one_shot_sandbox_serves_once:
  "if strip (env ''SANDBOX_ONE_SHOT'') = codes ''1''
   then length (filter (\<lambda>out. out = Granted) (claims env rs consumed)) \<le> (if consumed then 0 else 1) \<and>
     list_all2 (claim_ok env) (claims env rs consumed) rs
   else claims env rs consumed = map (\<lambda>r. Granted) rs"
proof (induction env rs consumed rule: claims.induct)
  case (2 env operation execution_id rs consumed)
  obtain out c where oc: "claim_one_shot env operation execution_id consumed = (out, c)"
    by (cases "claim_one_shot env operation execution_id consumed")
  show ?case
  proof (cases "strip (env ''SANDBOX_ONE_SHOT'') = codes ''1''")
    case True
    then show ?thesis
      using 2 [OF oc [symmetric]] claim_step [OF True oc] oc by (cases c) (auto split: if_splits)
  next
    case False
    then show ?thesis using 2 [OF oc [symmetric]] oc by (auto simp: claim_one_shot_def)
  qed
qed simp

end
