(* ===== verification/CheckpointPayload.thy ===== *)
theory CheckpointPayload
  imports Json
begin

text \<open>
  What a checkpoint keeps of the graph state: \<open>checkpoint/payload.py\<close> and the method
  \<open>_drop_unserializable_channels\<close> the MySQL and the SQLite saver share.

  A channel value is a \<open>None\<close>, a list or tuple of trace events (dictionaries or objects with attributes) or
  anything else, \<^typ>\<open>'o\<close>, which the code only hands on. The serializer of LangGraph is the parameter
  \<^term>\<open>can_dump\<close>: whether \<open>serde.dumps_typed({"__probe__": value})\<close> returns. The payload histograms only
  observe sizes and are not modelled.
\<close>

section \<open>Values\<close>

datatype event_like = EventDict json_object | EventObject json_object

datatype 'o channel_value = NoneValue | Events "event_like list" | Other 'o

type_synonym 'o channels = "(string \<times> 'o channel_value) list"

section \<open>Projection\<close>

definition excluded_keys :: "string list" where
  "excluded_keys = [''provider'', ''tool_bridge'', ''rag_runtime'', ''retrieval_cache'']"

definition event_field :: "json_object \<Rightarrow> string \<Rightarrow> json \<Rightarrow> string \<times> json" where
  "event_field ev key missing = (key, case map_of ev key of None \<Rightarrow> missing | Some v \<Rightarrow> v)"

fun event_members :: "event_like \<Rightarrow> json_object" where
  "event_members (EventDict ev) = ev"
| "event_members (EventObject ev) = ev"

definition compact_event :: "event_like \<Rightarrow> event_like" where
  "compact_event e =
     (let ev = event_members e
      in EventDict [event_field ev ''event'' (jstr ''''), event_field ev ''node'' (jstr ''''),
           event_field ev ''status'' (jstr ''''), event_field ev ''iteration'' JNull,
           event_field ev ''role'' (jstr ''''), event_field ev ''tool_name'' (jstr '''')])"

fun compact_trace_events :: "'o channel_value \<Rightarrow> 'o channel_value" where
  "compact_trace_events (Events es) = Events (map compact_event es)"
| "compact_trace_events v = Events []"

fun project_checkpoint_state :: "'o channels \<Rightarrow> 'o channels" where
  "project_checkpoint_state [] = []"
| "project_checkpoint_state ((key, v) # st) =
     (if key \<in> set excluded_keys then project_checkpoint_state st
      else if key = ''trace_events'' then (key, compact_trace_events v) # project_checkpoint_state st
      else (key, v) # project_checkpoint_state st)"

text \<open>
  The channels are replaced by \<open>None\<close> one by one, then projected. The projection returns a new dictionary, so
  the test \<open>projected is not channel_values\<close> always holds and the rebuilt checkpoint is always returned.
\<close>

definition drop_unserializable_channels :: "('o channel_value \<Rightarrow> bool) \<Rightarrow> 'o channels \<Rightarrow> 'o channels" where
  "drop_unserializable_channels can_dump st =
     project_checkpoint_state (map (\<lambda>(k, v). (k, if can_dump v then v else NoneValue)) st)"

section \<open>Lemmas\<close>

lemma compact_event_idem [simp]: "compact_event (compact_event e) = compact_event e"
  by (simp add: compact_event_def event_field_def Let_def)

lemma compact_trace_events_idem [simp]:
  "compact_trace_events (compact_trace_events v) = compact_trace_events v"
  by (cases v) simp_all

lemma project_lookup:
  "map_of (project_checkpoint_state st) k =
     (if k \<in> set excluded_keys then None
      else if k = ''trace_events'' then map_option compact_trace_events (map_of st k)
      else map_of st k)"
  by (induction st rule: project_checkpoint_state.induct) auto

lemma project_idem: "project_checkpoint_state (project_checkpoint_state st) = project_checkpoint_state st"
  by (induction st rule: project_checkpoint_state.induct) auto

lemma map_of_map_value: "map_of (map (\<lambda>(k, v). (k, f v)) st) k = map_option f (map_of st k)"
  by (induction st) auto

text \<open>
  What a resumed run finds in a checkpoint, key by key: the injected clients and the per-run cache are gone,
  the trace is reduced to its six fields, a channel the serializer refuses is \<open>None\<close>, and every other channel
  is the value that was put. Saving a restored checkpoint once more, with a serializer that accepts what it
  stored, changes nothing.
\<close>

theorem checkpoint_keeps_durable_state:
  "map_of (drop_unserializable_channels can_dump st) k =
     (if k \<in> {''provider'', ''tool_bridge'', ''rag_runtime'', ''retrieval_cache''} then None
      else case map_of st k of
        None \<Rightarrow> None
      | Some v \<Rightarrow>
          (let kept = if can_dump v then v else NoneValue
           in Some (if k = ''trace_events'' then compact_trace_events kept else kept)))
   \<and> drop_unserializable_channels (\<lambda>v. True) (drop_unserializable_channels can_dump st)
       = drop_unserializable_channels can_dump st"
proof
  have kept: "map (\<lambda>(k, v). (k, if True then v else NoneValue)) xs = xs" for xs :: "'o channels"
    by (induction xs) auto
  show "drop_unserializable_channels (\<lambda>v. True) (drop_unserializable_channels can_dump st)
      = drop_unserializable_channels can_dump st"
    unfolding drop_unserializable_channels_def kept by (rule project_idem)
  show "map_of (drop_unserializable_channels can_dump st) k =
     (if k \<in> {''provider'', ''tool_bridge'', ''rag_runtime'', ''retrieval_cache''} then None
      else case map_of st k of
        None \<Rightarrow> None
      | Some v \<Rightarrow>
          (let kept = if can_dump v then v else NoneValue
           in Some (if k = ''trace_events'' then compact_trace_events kept else kept)))"
    by (cases "map_of st k")
      (auto simp: drop_unserializable_channels_def project_lookup map_of_map_value excluded_keys_def Let_def)
qed

end
