(* ===== verification/CheckpointTables.thy ===== *)
theory CheckpointTables
  imports CheckpointPayload "HOL-Library.AList" "HOL-Library.Product_Lexorder"
begin

text \<open>
  The three checkpoint tables and the statements the MySQL saver runs on them outside of a transaction buffer
  (\<open>checkpoint/mysql.py\<close>): reading a checkpoint, putting one, putting pending writes, deleting a thread, and
  the helpers \<open>checkpoint_safe_config\<close>, \<open>optional_int\<close> and \<open>metadata_matches\<close>.

  A table is an association list from its primary key to its row, in insertion order; keys compare exactly
  (identifiers without trailing blanks), and \<open>updated_at\<close>, which nothing reads, is left out. Each method is one
  database transaction: it changes the tables as a whole or, rolled back, not at all.

  LangGraph is not part of the sources. Its serializer, \<open>get_checkpoint_id\<close>, \<open>get_checkpoint_metadata\<close> and
  \<open>WRITES_IDX_MAP\<close> are the record \<open>langgraph\<close> every operation takes.
\<close>

section \<open>Records\<close>

type_synonym ns_key = "ustring \<times> ustring"
type_synonym checkpoint_key = "ustring \<times> ustring \<times> ustring"
type_synonym write_key = "ustring \<times> ustring \<times> ustring \<times> ustring \<times> ustring \<times> int"

record checkpoint_record =
  cr_thread_id :: ustring
  cr_checkpoint_ns :: ustring
  cr_checkpoint_id :: ustring
  cr_parent_checkpoint_id :: ustring
  cr_execution_id :: ustring
  cr_workflow_run_id :: "int option"
  cr_agent_run_id :: "int option"
  cr_version :: int
  cr_checkpoint_type :: ustring
  cr_checkpoint_blob :: "byte list"
  cr_metadata_type :: ustring
  cr_metadata_blob :: "byte list"

record checkpoint_row = checkpoint_record +
  created_at :: seconds

record write_record =
  wr_thread_id :: ustring
  wr_checkpoint_ns :: ustring
  wr_checkpoint_id :: ustring
  wr_task_id :: ustring
  wr_task_path :: ustring
  wr_write_index :: int
  wr_channel :: ustring
  wr_value_type :: ustring
  wr_value_blob :: "byte list"

definition checkpoint_payload :: "'r checkpoint_record_scheme \<Rightarrow> int" where
  "checkpoint_payload r = int (length (cr_checkpoint_blob r)) + int (length (cr_metadata_blob r))"

definition write_payload :: "write_record \<Rightarrow> int" where
  "write_payload w = int (length (wr_value_blob w))"

definition checkpoint_key :: "'r checkpoint_record_scheme \<Rightarrow> checkpoint_key" where
  "checkpoint_key r = (cr_thread_id r, cr_checkpoint_ns r, cr_checkpoint_id r)"

definition write_key :: "write_record \<Rightarrow> write_key" where
  "write_key w =
     (wr_thread_id w, wr_checkpoint_ns w, wr_checkpoint_id w, wr_task_id w, wr_task_path w, wr_write_index w)"

record database =
  db_threads :: "(ns_key \<times> int) list"
  db_checkpoints :: "(checkpoint_key \<times> checkpoint_row) list"
  db_writes :: "(write_key \<times> write_record) list"

datatype saver_error =
    KeyMissing string
  | BadInteger
  | Unserializable
  | RuntimeFault string
  | ValueFault string
  | TransactionTooLarge string
  | VersionConflict int int
  | ExecutionBusy ustring

section \<open>LangGraph's configuration and serializer\<close>

record config =
  configurable :: json_object
  config_rest :: json_object

record 'o checkpoint =
  ckpt_id :: json
  channel_values :: "'o channels option"
  ckpt_rest :: "(string \<times> 'o) list"

type_synonym typed_blob = "ustring \<times> byte list"

record 'o langgraph =
  dumps_checkpoint :: "'o checkpoint \<Rightarrow> typed_blob option"
  dumps_metadata :: "json_object \<Rightarrow> typed_blob option"
  dumps_value :: "'o channel_value \<Rightarrow> typed_blob option"
  dumps_probe :: "'o channel_value \<Rightarrow> bool"
  loads_checkpoint :: "typed_blob \<Rightarrow> 'o checkpoint"
  loads_metadata :: "typed_blob \<Rightarrow> json_object"
  loads_value :: "typed_blob \<Rightarrow> 'o channel_value"
  get_checkpoint_metadata :: "config \<Rightarrow> json_object \<Rightarrow> json_object"
  get_checkpoint_id :: "config \<Rightarrow> ustring option"
  writes_idx_map :: "ustring \<Rightarrow> int option"
  object_repr :: "json \<Rightarrow> ustring"

text \<open>\<open>str(value)\<close>: numbers with a fraction and containers print as the interpreter prints them.\<close>

definition py_str :: "'o langgraph \<Rightarrow> json \<Rightarrow> ustring" where
  "py_str lg v = (case v of
       JStr t \<Rightarrow> t
     | JInt i \<Rightarrow> show_int i
     | JNull \<Rightarrow> codes ''None''
     | JBool b \<Rightarrow> codes (if b then ''True'' else ''False'')
     | _ \<Rightarrow> object_repr lg v)"

definition str_at :: "'o langgraph \<Rightarrow> json_object \<Rightarrow> string \<Rightarrow> (saver_error, ustring) result" where
  "str_at lg cfg k = (case map_of cfg k of None \<Rightarrow> Inl (KeyMissing k) | Some v \<Rightarrow> Inr (py_str lg v))"

definition str_or_empty :: "'o langgraph \<Rightarrow> json_object \<Rightarrow> string \<Rightarrow> ustring" where
  "str_or_empty lg cfg k = (case map_of cfg k of None \<Rightarrow> [] | Some v \<Rightarrow> py_str lg v)"

definition checkpoint_safe_config :: "config \<Rightarrow> config" where
  "checkpoint_safe_config cfg = cfg\<lparr>configurable := AList.delete ''tool_capability'' (configurable cfg)\<rparr>"

definition optional_int :: "json option \<Rightarrow> (saver_error, int option) result" where
  "optional_int value =
     (let positive = (\<lambda>i. Inr (if 0 < i then Some i else None))
      in case value of
           None \<Rightarrow> Inr None
         | Some JNull \<Rightarrow> Inr None
         | Some (JStr t) \<Rightarrow>
             if t = [] then Inr None
             else (case parse_int t of None \<Rightarrow> Inl BadInteger | Some i \<Rightarrow> positive i)
         | Some (JInt i) \<Rightarrow> positive i
         | Some (JBool b) \<Rightarrow> positive (if b then 1 else 0)
         | Some (JNum x) \<Rightarrow> positive (truncate_rat x)
         | _ \<Rightarrow> Inl BadInteger)"

definition metadata_matches :: "json_object \<Rightarrow> json_object \<Rightarrow> bool" where
  "metadata_matches metadata expected =
     list_all (\<lambda>kv. (case map_of metadata (fst kv) of None \<Rightarrow> JNull | Some v \<Rightarrow> v) = snd kv) expected"

section \<open>Statements\<close>

definition upsert_checkpoint :: "seconds \<Rightarrow> checkpoint_record \<Rightarrow> database \<Rightarrow> database" where
  "upsert_checkpoint now r db =
     (let row = (case map_of (db_checkpoints db) (checkpoint_key r) of
          None \<Rightarrow> checkpoint_record.extend r \<lparr>created_at = now\<rparr>
        | Some old \<Rightarrow> old\<lparr>cr_parent_checkpoint_id := cr_parent_checkpoint_id r,
            cr_checkpoint_type := cr_checkpoint_type r, cr_checkpoint_blob := cr_checkpoint_blob r,
            cr_metadata_type := cr_metadata_type r, cr_metadata_blob := cr_metadata_blob r\<rparr>)
      in db\<lparr>db_checkpoints := AList.update (checkpoint_key r) row (db_checkpoints db)\<rparr>)"

definition upsert_write :: "write_record \<Rightarrow> database \<Rightarrow> database" where
  "upsert_write w db =
     (let row = (case map_of (db_writes db) (write_key w) of
          None \<Rightarrow> w
        | Some old \<Rightarrow> old\<lparr>wr_channel := wr_channel w, wr_value_type := wr_value_type w,
            wr_value_blob := wr_value_blob w\<rparr>)
      in db\<lparr>db_writes := AList.update (write_key w) row (db_writes db)\<rparr>)"

definition set_version :: "ns_key \<Rightarrow> int \<Rightarrow> database \<Rightarrow> database" where
  "set_version ns v db = db\<lparr>db_threads := AList.update ns v (db_threads db)\<rparr>"

definition current_version_of :: "database \<Rightarrow> ns_key \<Rightarrow> int" where
  "current_version_of db ns = (case map_of (db_threads db) ns of None \<Rightarrow> 0 | Some v \<Rightarrow> v)"

text \<open>The body of \<open>put\<close> outside of a transaction; the result is the stored version.\<close>

definition put_direct :: "seconds \<Rightarrow> checkpoint_record \<Rightarrow> database \<Rightarrow> database \<times> int" where
  "put_direct now r db =
     (let ns = (cr_thread_id r, cr_checkpoint_ns r);
          (db', version) = (case map_of (db_checkpoints db) (checkpoint_key r) of
            None \<Rightarrow> (let v = current_version_of db ns + 1 in (set_version ns v db, v))
          | Some old \<Rightarrow> (db, cr_version old));
          db'' = upsert_checkpoint now (r\<lparr>cr_version := version\<rparr>) db'
      in (db'', case map_of (db_checkpoints db'') (checkpoint_key r) of None \<Rightarrow> version | Some row \<Rightarrow> cr_version row))"

definition put_writes_direct :: "write_record list \<Rightarrow> database \<Rightarrow> database" where
  "put_writes_direct ws db = fold upsert_write ws db"

definition delete_thread :: "ustring \<Rightarrow> database \<Rightarrow> database" where
  "delete_thread thread_id db =
     \<lparr>db_threads = filter (\<lambda>(k, v). fst k \<noteq> thread_id) (db_threads db),
      db_checkpoints = filter (\<lambda>(k, v). fst k \<noteq> thread_id) (db_checkpoints db),
      db_writes = filter (\<lambda>(k, v). fst k \<noteq> thread_id) (db_writes db)\<rparr>"

section \<open>Queries\<close>

text \<open>\<open>max(xs, key=f)\<close>, and \<open>ORDER BY f DESC LIMIT 1\<close> where the key is unique.\<close>

fun max_by :: "('a \<Rightarrow> 'k::linorder) \<Rightarrow> 'a list \<Rightarrow> 'a option" where
  "max_by f [] = None"
| "max_by f (x # xs) =
     (case max_by f xs of None \<Rightarrow> Some x | Some y \<Rightarrow> if f x < f y then Some y else Some x)"

definition version_order :: "'r checkpoint_record_scheme \<Rightarrow> int \<times> ustring" where
  "version_order r = (cr_version r, cr_checkpoint_id r)"

definition wanted :: "ustring \<Rightarrow> ustring \<Rightarrow> ustring option \<Rightarrow> checkpoint_key \<Rightarrow> bool" where
  "wanted thread_id ns checkpoint_id k \<longleftrightarrow>
     fst k = thread_id \<and> fst (snd k) = ns \<and>
     (case checkpoint_id of None \<Rightarrow> True | Some i \<Rightarrow> i = [] \<or> snd (snd k) = i)"

definition newest :: "ustring \<Rightarrow> ustring \<Rightarrow> ustring option \<Rightarrow> (checkpoint_key \<times> 'r checkpoint_record_scheme) list
    \<Rightarrow> 'r checkpoint_record_scheme option" where
  "newest thread_id ns checkpoint_id rows =
     max_by version_order (map snd (filter (\<lambda>(k, r). wanted thread_id ns checkpoint_id k) rows))"

text \<open>\<open>find_execution_config\<close>: the configuration of the newest checkpoint one execution wrote.\<close>

definition find_execution_config :: "ustring \<Rightarrow> ustring \<Rightarrow> ustring \<Rightarrow> database \<Rightarrow> json_object option" where
  "find_execution_config thread_id ns execution_id db =
     (if strip execution_id = [] then None
      else map_option (\<lambda>row.
          [(''thread_id'', JStr thread_id), (''checkpoint_ns'', JStr ns),
           (''checkpoint_id'', JStr (cr_checkpoint_id row)), (''checkpoint_version'', JInt (cr_version row)),
           (''execution_id'', JStr execution_id)])
        (max_by version_order (map snd (filter (\<lambda>(k, r). wanted thread_id ns None k \<and> cr_execution_id r = execution_id)
           (db_checkpoints db)))))"

section \<open>Association lists as tables\<close>

lemma map_of_update [simp]: "map_of (AList.update k v al) = (map_of al)(k \<mapsto> v)"
  by (rule AList.update_conv')

lemma keys_update: "fst ` set (AList.update k v al) = insert k (fst ` set al)"
  by (induction al) auto

lemma distinct_keys_update: "distinct (map fst al) \<Longrightarrow> distinct (map fst (AList.update k v al))"
  by (rule AList.distinct_update)

lemma length_update:
  "length (AList.update k v al) = (if map_of al k = None then length al + 1 else length al)"
  by (induction al) (auto simp: map_of_eq_None_iff)

lemma sum_update:
  fixes f :: "'v \<Rightarrow> int"
  shows "(\<Sum>kv\<leftarrow>AList.update k v al. f (snd kv)) =
     (\<Sum>kv\<leftarrow>al. f (snd kv)) + f v - (case map_of al k of None \<Rightarrow> 0 | Some w \<Rightarrow> f w)"
  by (induction al) auto

text \<open>A table: each key once, and each row under its own key.\<close>

definition table_ok :: "('v \<Rightarrow> 'k) \<Rightarrow> ('k \<times> 'v) list \<Rightarrow> bool" where
  "table_ok key al \<longleftrightarrow> distinct (map fst al) \<and> list_all (\<lambda>(k, v). k = key v) al"

lemma table_ok_Nil [simp]: "table_ok key []"
  by (simp add: table_ok_def)

lemma table_ok_update:
  assumes "table_ok key al" and "key v = k"
  shows "table_ok key (AList.update k v al)"
proof -
  have "list_all (\<lambda>(k, v). k = key v) (AList.update k v al)"
    using assms(1) assms(2) [symmetric] unfolding table_ok_def by (induction al) auto
  then show ?thesis
    using assms(1) distinct_keys_update [of al k v] by (simp add: table_ok_def)
qed

lemma table_ok_map_of: "table_ok key al \<Longrightarrow> (k, v) \<in> set al \<longleftrightarrow> map_of al k = Some v"
  by (auto simp: table_ok_def dest: map_of_SomeD)

lemma table_ok_key: "table_ok key al \<Longrightarrow> map_of al k = Some v \<Longrightarrow> key v = k"
  by (auto simp: table_ok_def list_all_iff dest: map_of_SomeD)

section \<open>Queries as maxima\<close>

lemma max_by_None [simp]: "max_by f xs = None \<longleftrightarrow> xs = []"
  by (cases xs) (auto split: option.splits)

lemma max_by_Some: "max_by f xs = Some x \<Longrightarrow> x \<in> set xs \<and> (\<forall>y \<in> set xs. f y \<le> f x)"
  by (induction xs arbitrary: x) (force split: option.splits if_splits)+

lemma max_by_eqI:
  assumes "x \<in> set xs" and "\<And>y. y \<in> set xs \<Longrightarrow> f y \<le> f x" and "\<And>y. y \<in> set xs \<Longrightarrow> f y = f x \<Longrightarrow> y = x"
  shows "max_by f xs = Some x"
proof (cases "max_by f xs")
  case None
  with assms(1) show ?thesis by simp
next
  case (Some y)
  then have y: "y \<in> set xs" "\<forall>z \<in> set xs. f z \<le> f y" by (auto dest: max_by_Some)
  then have "f y = f x" using assms(1,2) by (simp add: order_antisym)
  with assms(3) y Some show ?thesis by blast
qed

section \<open>The state of the tables\<close>

definition ns_of :: "checkpoint_key \<Rightarrow> ns_key" where
  "ns_of k = (fst k, fst (snd k))"

lemma ns_of_simps [simp]: "ns_of (t, ns, i) = (t, ns)"
  by (simp add: ns_of_def)

definition version_at :: "database \<Rightarrow> checkpoint_key \<Rightarrow> int option" where
  "version_at db k = map_option cr_version (map_of (db_checkpoints db) k)"

definition versions_bounded :: "database \<Rightarrow> bool" where
  "versions_bounded db \<longleftrightarrow>
     (\<forall>ns. 0 \<le> current_version_of db ns) \<and>
     (\<forall>k v. version_at db k = Some v \<longrightarrow> 1 \<le> v \<and> v \<le> current_version_of db (ns_of k))"

definition versions_unique :: "database \<Rightarrow> bool" where
  "versions_unique db \<longleftrightarrow>
     (\<forall>k l v. version_at db k = Some v \<and> version_at db l = Some v \<and> ns_of k = ns_of l \<longrightarrow> k = l)"

definition db_ok :: "database \<Rightarrow> bool" where
  "db_ok db \<longleftrightarrow>
     table_ok checkpoint_key (db_checkpoints db) \<and> table_ok write_key (db_writes db) \<and>
     versions_bounded db \<and> versions_unique db"

lemma db_ok_versions:
  assumes "db_ok db"
  shows "0 \<le> current_version_of db ns"
    and "version_at db k = Some v \<Longrightarrow> 1 \<le> v"
    and "version_at db k = Some v \<Longrightarrow> v \<le> current_version_of db (ns_of k)"
    and "version_at db k = Some v \<Longrightarrow> version_at db l = Some v \<Longrightarrow> ns_of k = ns_of l \<Longrightarrow> k = l"
  using assms unfolding db_ok_def versions_bounded_def versions_unique_def by blast+

lemma db_okI:
  assumes "table_ok checkpoint_key (db_checkpoints db)" and "table_ok write_key (db_writes db)"
    and "\<And>ns. 0 \<le> current_version_of db ns"
    and "\<And>k v. version_at db k = Some v \<Longrightarrow> 1 \<le> v \<and> v \<le> current_version_of db (ns_of k)"
    and "\<And>k l v. version_at db k = Some v \<Longrightarrow> version_at db l = Some v \<Longrightarrow> ns_of k = ns_of l \<Longrightarrow> k = l"
  shows "db_ok db"
proof -
  have "versions_bounded db" unfolding versions_bounded_def by (blast intro: assms(3) dest: assms(4))
  moreover have "versions_unique db" unfolding versions_unique_def by (blast intro: assms(5))
  ultimately show ?thesis using assms(1,2) by (simp add: db_ok_def)
qed

text \<open>What every write does to the version counters: they never fall, and a namespace whose counter stands
  still has the same checkpoints with the same versions.\<close>

definition advances :: "database \<Rightarrow> database \<Rightarrow> bool" where
  "advances db db' \<longleftrightarrow>
     (\<forall>ns. current_version_of db ns \<le> current_version_of db' ns) \<and>
     (\<forall>k. current_version_of db (ns_of k) = current_version_of db' (ns_of k) \<longrightarrow> version_at db' k = version_at db k)"

lemma advances_refl [simp]: "advances db db"
  by (simp add: advances_def)

lemma advances_trans: "advances a b \<Longrightarrow> advances b c \<Longrightarrow> advances a c"
  unfolding advances_def by (metis order_antisym order_trans)

lemma current_version_set [simp]:
  "current_version_of (set_version ns v db) ns' = (if ns' = ns then v else current_version_of db ns')"
  by (simp add: current_version_of_def set_version_def)

lemma set_version_tables [simp]:
  "db_checkpoints (set_version ns v db) = db_checkpoints db"
  "db_writes (set_version ns v db) = db_writes db"
  "version_at (set_version ns v db) k = version_at db k"
  by (simp_all add: set_version_def version_at_def)

lemma upsert_checkpoint_tables [simp]:
  "db_threads (upsert_checkpoint now r db) = db_threads db"
  "db_writes (upsert_checkpoint now r db) = db_writes db"
  "current_version_of (upsert_checkpoint now r db) = current_version_of db"
  by (simp_all add: upsert_checkpoint_def Let_def current_version_of_def fun_eq_iff)

lemma upsert_write_tables [simp]:
  "db_threads (upsert_write w db) = db_threads db"
  "db_checkpoints (upsert_write w db) = db_checkpoints db"
  "current_version_of (upsert_write w db) = current_version_of db"
  "version_at (upsert_write w db) = version_at db"
  by (simp_all add: upsert_write_def Let_def current_version_of_def version_at_def fun_eq_iff)

lemma version_at_upsert:
  "version_at (upsert_checkpoint now r db) k =
     (if k = checkpoint_key r then Some (case version_at db k of None \<Rightarrow> cr_version r | Some v \<Rightarrow> v)
      else version_at db k)"
  by (simp add: version_at_def upsert_checkpoint_def Let_def checkpoint_record.defs split: option.split)

lemma upsert_checkpoint_table_ok:
  assumes "table_ok checkpoint_key (db_checkpoints db)"
  shows "table_ok checkpoint_key (db_checkpoints (upsert_checkpoint now r db))"
proof (cases "map_of (db_checkpoints db) (checkpoint_key r)")
  case None
  with assms show ?thesis
    by (simp add: upsert_checkpoint_def Let_def table_ok_update checkpoint_key_def checkpoint_record.defs)
next
  case (Some old)
  then have "checkpoint_key old = checkpoint_key r" using assms by (rule table_ok_key [rotated])
  with assms Some show ?thesis
    by (simp add: upsert_checkpoint_def Let_def table_ok_update checkpoint_key_def)
qed

lemma upsert_write_table_ok:
  assumes "table_ok write_key (db_writes db)"
  shows "table_ok write_key (db_writes (upsert_write w db))"
proof (cases "map_of (db_writes db) (write_key w)")
  case None
  with assms show ?thesis by (simp add: upsert_write_def Let_def table_ok_update)
next
  case (Some old)
  then have "write_key old = write_key w" using assms by (rule table_ok_key [rotated])
  with assms Some show ?thesis by (simp add: upsert_write_def Let_def table_ok_update write_key_def)
qed

text \<open>An upsert of a write stores the write itself: the columns it leaves alone are its key.\<close>

lemma upsert_write_lookup:
  assumes "table_ok write_key (db_writes db)"
  shows "map_of (db_writes (upsert_write w db)) = (map_of (db_writes db))(write_key w \<mapsto> w)"
proof (cases "map_of (db_writes db) (write_key w)")
  case (Some old)
  then have "write_key old = write_key w" using assms by (rule table_ok_key [rotated])
  then have "old\<lparr>wr_channel := wr_channel w, wr_value_type := wr_value_type w,
      wr_value_blob := wr_value_blob w\<rparr> = w"
    by (simp add: write_key_def)
  then show ?thesis using Some by (simp add: upsert_write_def)
qed (simp add: upsert_write_def)

lemma fold_upsert_write:
  assumes "table_ok write_key (db_writes db)"
  shows "table_ok write_key (db_writes (fold upsert_write ws db))"
    and "db_checkpoints (fold upsert_write ws db) = db_checkpoints db"
    and "db_threads (fold upsert_write ws db) = db_threads db"
  using assms by (induction ws arbitrary: db) (simp_all add: upsert_write_table_ok)

lemma db_ok_same:
  assumes "db_ok db" and "table_ok checkpoint_key (db_checkpoints db')" and "table_ok write_key (db_writes db')"
    and "version_at db' = version_at db" and "current_version_of db' = current_version_of db"
  shows "db_ok db'" and "advances db db'"
proof -
  have "versions_bounded db' = versions_bounded db" "versions_unique db' = versions_unique db"
    by (simp_all only: versions_bounded_def versions_unique_def assms(4,5))
  with assms(1-3) show "db_ok db'" by (simp add: db_ok_def)
  show "advances db db'" by (simp add: advances_def assms(4,5))
qed

lemma db_ok_new_checkpoint:
  assumes ok: "db_ok db" and "table_ok checkpoint_key (db_checkpoints db')" and "table_ok write_key (db_writes db')"
    and at: "version_at db' = (version_at db)(k \<mapsto> v)" and new: "current_version_of db (ns_of k) < v"
    and cur: "current_version_of db' = (current_version_of db)(ns_of k := v)"
  shows "db_ok db'" and "advances db db'"
proof -
  note pos = db_ok_versions(1) [OF ok] and bnd = db_ok_versions(2,3) [OF ok] and inj = db_ok_versions(4) [OF ok]
  have pos': "0 \<le> current_version_of db' ns" for ns using pos [of ns] pos [of "ns_of k"] new by (simp add: cur)
  have bnd': "1 \<le> w \<and> w \<le> current_version_of db' (ns_of l)" if "version_at db' l = Some w" for l w
    using that bnd [of l w] pos [of "ns_of k"] new by (auto simp: at cur split: if_splits)
  have inj': "l = m" if "version_at db' l = Some w" "version_at db' m = Some w" "ns_of l = ns_of m" for l m w
  proof (rule ccontr)
    assume "l \<noteq> m"
    then consider "l \<noteq> k" "m \<noteq> k" | "l = k" "m \<noteq> k" | "l \<noteq> k" "m = k" by blast
    then show False
    proof cases
      case 1
      with that have "l = m" by (intro inj [of l w m]) (simp_all add: at)
      with \<open>l \<noteq> m\<close> show False ..
    next
      case 2
      then show False using that bnd(2) [of m w] new by (simp add: at)
    next
      case 3
      then show False using that bnd(2) [of l w] new by (simp add: at)
    qed
  qed
  show "db_ok db'"
    by (rule db_okI [OF assms(2,3) pos' bnd' inj'])
  show "advances db db'"
    unfolding advances_def
  proof (intro conjI allI impI)
    show "current_version_of db ns \<le> current_version_of db' ns" for ns using new by (simp add: cur)
    show "version_at db' l = version_at db l"
      if "current_version_of db (ns_of l) = current_version_of db' (ns_of l)" for l
      using that new by (cases "l = k") (simp_all add: at cur)
  qed
qed

lemma put_direct_effect:
  assumes ok: "db_ok db" and res: "put_direct now r db = (db', v)"
  shows "db_ok db'" and "advances db db'"
proof -
  let ?k = "checkpoint_key r" and ?ns = "(cr_thread_id r, cr_checkpoint_ns r)"
  have ns: "ns_of ?k = ?ns" by (simp add: checkpoint_key_def)
  have key: "checkpoint_key (r\<lparr>cr_version := w\<rparr>) = ?k" for w by (simp add: checkpoint_key_def)
  have tabs: "table_ok checkpoint_key (db_checkpoints db)" "table_ok write_key (db_writes db)"
    using ok by (simp_all add: db_ok_def)
  have "db_ok db' \<and> advances db db'"
  proof (cases "map_of (db_checkpoints db) ?k")
    case None
    let ?v = "current_version_of db ?ns + 1"
    have db': "db' = upsert_checkpoint now (r\<lparr>cr_version := ?v\<rparr>) (set_version ?ns ?v db)"
      using res None by (simp add: put_direct_def Let_def)
    have tabs': "table_ok checkpoint_key (db_checkpoints db')" "table_ok write_key (db_writes db')"
      using tabs by (simp_all add: db' upsert_checkpoint_table_ok)
    have at: "version_at db' = (version_at db)(?k \<mapsto> ?v)"
      using None by (simp add: fun_eq_iff db' version_at_upsert key) (simp add: version_at_def)
    have cur: "current_version_of db' = (current_version_of db)(ns_of ?k := ?v)"
      by (simp add: fun_eq_iff db' ns)
    show ?thesis
      using db_ok_new_checkpoint [OF ok tabs' at _ cur] by (simp add: ns)
  next
    case (Some old)
    have db': "db' = upsert_checkpoint now (r\<lparr>cr_version := cr_version old\<rparr>) db"
      using res Some by (simp add: put_direct_def Let_def)
    have tabs': "table_ok checkpoint_key (db_checkpoints db')" "table_ok write_key (db_writes db')"
      using tabs by (simp_all add: db' upsert_checkpoint_table_ok)
    have at: "version_at db' = version_at db"
      using Some by (simp add: fun_eq_iff db' version_at_upsert key) (simp add: version_at_def)
    have cur: "current_version_of db' = current_version_of db" by (simp add: db')
    show ?thesis using db_ok_same [OF ok tabs' at cur] by simp
  qed
  then show "db_ok db'" and "advances db db'" by simp_all
qed

lemma put_writes_direct_effect:
  assumes "db_ok db"
  shows "db_ok (put_writes_direct ws db)" and "advances db (put_writes_direct ws db)"
proof -
  have tabs: "table_ok checkpoint_key (db_checkpoints db)" "table_ok write_key (db_writes db)"
    using assms by (simp_all add: db_ok_def)
  note same = fold_upsert_write [OF tabs(2), of ws, folded put_writes_direct_def]
  have "version_at (put_writes_direct ws db) = version_at db"
    "current_version_of (put_writes_direct ws db) = current_version_of db"
    by (simp_all add: fun_eq_iff version_at_def current_version_of_def same)
  with assms tabs same show "db_ok (put_writes_direct ws db)" and "advances db (put_writes_direct ws db)"
    by (auto intro: db_ok_same)
qed

end
