(* ===== verification/CheckpointSaver.thy ===== *)
theory CheckpointSaver
  imports CheckpointTables
begin

text \<open>
  The transactional saver of \<open>checkpoint/mysql.py\<close>: transaction buffers (\<open>_CheckpointTransaction\<close>), their
  registry, \<open>checkpoint_transaction\<close> (entering, committing, aborting), the buffered and the direct \<open>put\<close> and
  \<open>put_writes\<close>, \<open>_flush_transaction\<close> and the reads \<open>get_tuple\<close> and \<open>list\<close>, which lay an open buffer over the
  tables.

  A transaction object is an index into \<open>buffers\<close>, so that the context variable, the registry and the caller
  share it. The argument \<open>active\<close> of an operation is the value of the context variable. Every method holds the
  buffer's lock and uses one database transaction, so it is one step; sealing and flushing is one step too,
  since a sealed buffer refuses every change.
\<close>

section \<open>Transaction buffers\<close>

datatype phase = Open | Sealed | Committing | Closed

text \<open>Phases are ordered: a buffer only advances.\<close>

fun phase_rank :: "phase \<Rightarrow> nat" where
  "phase_rank Open = 0"
| "phase_rank Sealed = 1"
| "phase_rank Committing = 2"
| "phase_rank Closed = 3"

instantiation phase :: linorder
begin

definition less_eq_phase :: "phase \<Rightarrow> phase \<Rightarrow> bool" where
  "less_eq_phase p q \<longleftrightarrow> phase_rank p \<le> phase_rank q"

definition less_phase :: "phase \<Rightarrow> phase \<Rightarrow> bool" where
  "less_phase p q \<longleftrightarrow> phase_rank p < phase_rank q"

instance
proof
  fix p q :: phase
  show "p \<le> q \<Longrightarrow> q \<le> p \<Longrightarrow> p = q"
    by (cases p; cases q) (simp_all add: less_eq_phase_def)
qed (auto simp: less_eq_phase_def less_phase_def)

end

definition phase_name :: "phase \<Rightarrow> string" where
  "phase_name p = (case p of Open \<Rightarrow> ''open'' | Sealed \<Rightarrow> ''sealed'' | Committing \<Rightarrow> ''committing'' | Closed \<Rightarrow> ''closed'')"

record namespace_snapshot =
  base_version :: int
  current_version :: int
  checkpoint_versions :: "(ustring \<times> int) list"

record transaction =
  tx_thread_id :: ustring
  tx_execution_id :: ustring
  tx_phase :: phase
  tx_namespaces :: "(ns_key \<times> namespace_snapshot) list"
  tx_checkpoints :: "(checkpoint_key \<times> checkpoint_record) list"
  tx_writes :: "(write_key \<times> write_record) list"
  tx_payload_bytes :: int

definition max_transaction_checkpoints :: nat where "max_transaction_checkpoints = 256"
definition max_transaction_writes :: nat where "max_transaction_writes = 4096"
definition max_transaction_payload :: int where "max_transaction_payload = 16 * 1024 * 1024"

definition new_transaction :: "ustring \<Rightarrow> ustring \<Rightarrow> transaction" where
  "new_transaction thread_id execution_id =
     \<lparr>tx_thread_id = thread_id, tx_execution_id = execution_id, tx_phase = Open, tx_namespaces = [],
      tx_checkpoints = [], tx_writes = [], tx_payload_bytes = 0\<rparr>"

definition ensure_open :: "transaction \<Rightarrow> (saver_error, unit) result" where
  "ensure_open tx =
     (if tx_phase tx = Open then Inr ()
      else Inl (RuntimeFault (''checkpoint transaction is '' @ phase_name (tx_phase tx))))"

definition ensure_capacity :: "nat \<Rightarrow> nat \<Rightarrow> int \<Rightarrow> (saver_error, unit) result" where
  "ensure_capacity n_checkpoints n_writes payload =
     (if max_transaction_checkpoints < n_checkpoints
        then Inl (TransactionTooLarge ''checkpoint transaction contains too many checkpoints'')
      else if max_transaction_writes < n_writes
        then Inl (TransactionTooLarge ''checkpoint transaction contains too many writes'')
      else if max_transaction_payload < payload
        then Inl (TransactionTooLarge ''checkpoint transaction payload exceeds 16 MiB'')
      else Inr ())"

definition load_namespace_snapshot :: "database \<Rightarrow> ns_key \<Rightarrow> (saver_error, namespace_snapshot) result" where
  "load_namespace_snapshot db ns =
     (let rows = filter (\<lambda>(k, r). wanted (fst ns) (snd ns) None k) (db_checkpoints db);
          versions = map (\<lambda>(k, r). (cr_checkpoint_id r, cr_version r)) rows;
          current = current_version_of db ns
      in if list_ex (\<lambda>(i, v). current < v) versions
         then Inl (RuntimeFault ''checkpoint namespace version is behind its persisted checkpoints'')
         else Inr \<lparr>base_version = current, current_version = current, checkpoint_versions = versions\<rparr>)"

text \<open>
  The buffered branch of \<open>put\<close>. The snapshot is a shared object: it keeps the version it handed out even when
  \<open>ensure_capacity\<close> then refuses the record.
\<close>

definition assign_version :: "ustring \<Rightarrow> namespace_snapshot \<Rightarrow> namespace_snapshot \<times> int" where
  "assign_version checkpoint_id snap =
     (let version = (case map_of (checkpoint_versions snap) checkpoint_id of None \<Rightarrow> 0 | Some v \<Rightarrow> v)
      in if version = 0 then
           (let v = current_version snap + 1
            in (snap\<lparr>current_version := v,
                  checkpoint_versions := AList.update checkpoint_id v (checkpoint_versions snap)\<rparr>, v))
         else (snap, version))"

definition buffer_checkpoint :: "database \<Rightarrow> checkpoint_record \<Rightarrow> transaction
    \<Rightarrow> transaction \<times> (saver_error, int) result" where
  "buffer_checkpoint db r tx =
     (let ns = (cr_thread_id r, cr_checkpoint_ns r);
          loaded = (case map_of (tx_namespaces tx) ns of None \<Rightarrow> load_namespace_snapshot db ns | Some s \<Rightarrow> Inr s)
      in case ensure_open tx of Inl e \<Rightarrow> (tx, Inl e) | Inr u \<Rightarrow>
         case loaded of Inl e \<Rightarrow> (tx, Inl e) | Inr snap \<Rightarrow>
           (let (snap', version) = assign_version (cr_checkpoint_id r) snap;
                tx' = tx\<lparr>tx_namespaces := AList.update ns snap' (tx_namespaces tx)\<rparr>;
                rec = r\<lparr>cr_version := version\<rparr>;
                previous = map_of (tx_checkpoints tx') (checkpoint_key rec);
                payload = tx_payload_bytes tx' + checkpoint_payload rec
                  - (case previous of None \<Rightarrow> 0 | Some p \<Rightarrow> checkpoint_payload p)
            in case ensure_capacity (length (tx_checkpoints tx') + (if previous = None then 1 else 0))
                   (length (tx_writes tx')) payload of
                 Inl e \<Rightarrow> (tx', Inl e)
               | Inr v \<Rightarrow>
                   (tx'\<lparr>tx_checkpoints := AList.update (checkpoint_key rec) rec (tx_checkpoints tx'),
                      tx_payload_bytes := payload\<rparr>, Inr version)))"

definition update_all :: "('k \<times> 'v) list \<Rightarrow> ('k \<times> 'v) list \<Rightarrow> ('k \<times> 'v) list" where
  "update_all kvs al = fold (\<lambda>(k, v). AList.update k v) kvs al"

definition buffer_writes :: "(write_key \<times> write_record) list \<Rightarrow> transaction
    \<Rightarrow> transaction \<times> (saver_error, unit) result" where
  "buffer_writes records tx =
     (case ensure_open tx of Inl e \<Rightarrow> (tx, Inl e) | Inr u \<Rightarrow>
        (let replaced = (\<Sum>kw\<leftarrow>records. case map_of (tx_writes tx) (fst kw) of None \<Rightarrow> 0 | Some w \<Rightarrow> write_payload w);
             payload = tx_payload_bytes tx - replaced + (\<Sum>kw\<leftarrow>records. write_payload (snd kw));
             n = length (remdups (map fst (tx_writes tx) @ map fst records))
         in case ensure_capacity (length (tx_checkpoints tx)) n payload of
              Inl e \<Rightarrow> (tx, Inl e)
            | Inr v \<Rightarrow> (tx\<lparr>tx_writes := update_all records (tx_writes tx), tx_payload_bytes := payload\<rparr>, Inr ())))"

section \<open>Flushing\<close>

text \<open>
  One database transaction: every namespace's version row is created with the base version when it is missing,
  locked and compared; the checkpoints that buffered writes belong to must exist (an empty identifier excepted);
  then checkpoints, writes and versions are stored. An exception rolls everything back.
\<close>

fun check_namespaces :: "(ns_key \<times> namespace_snapshot) list \<Rightarrow> database \<Rightarrow> (saver_error, database) result" where
  "check_namespaces [] db = Inr db"
| "check_namespaces ((ns, snap) # rest) db =
     (let db' = (case map_of (db_threads db) ns of
          None \<Rightarrow> set_version ns (base_version snap) db | Some v \<Rightarrow> db);
          current = current_version_of db' ns
      in if current \<noteq> base_version snap then Inl (VersionConflict (base_version snap) current)
         else check_namespaces rest db')"

definition writes_have_checkpoints :: "transaction \<Rightarrow> database \<Rightarrow> bool" where
  "writes_have_checkpoints tx db =
     list_all (\<lambda>(k, w). wr_checkpoint_id w = [] \<or>
         (wr_thread_id w, wr_checkpoint_ns w, wr_checkpoint_id w) \<in> fst ` set (tx_checkpoints tx) \<or>
         (wr_thread_id w, wr_checkpoint_ns w, wr_checkpoint_id w) \<in> fst ` set (db_checkpoints db))
       (tx_writes tx)"

definition sorted_namespaces :: "transaction \<Rightarrow> (ns_key \<times> namespace_snapshot) list" where
  "sorted_namespaces tx = sort_key fst (tx_namespaces tx)"

definition store_buffer :: "seconds \<Rightarrow> transaction \<Rightarrow> database \<Rightarrow> database" where
  "store_buffer now tx db =
     (let db1 = fold (upsert_checkpoint now) (map snd (tx_checkpoints tx)) db;
          db2 = fold upsert_write (map snd (tx_writes tx)) db1
      in fold (\<lambda>(ns, snap). set_version ns (current_version snap)) (sorted_namespaces tx) db2)"

definition flush_transaction :: "seconds \<Rightarrow> transaction \<Rightarrow> database \<Rightarrow> database \<times> (saver_error, unit) result" where
  "flush_transaction now tx db =
     (if tx_phase tx \<noteq> Sealed
        then (db, Inl (RuntimeFault (''checkpoint transaction cannot flush while '' @ phase_name (tx_phase tx))))
      else case check_namespaces (sorted_namespaces tx) db of
        Inl e \<Rightarrow> (db, Inl e)
      | Inr db1 \<Rightarrow>
          if \<not> writes_have_checkpoints tx db1
            then (db, Inl (RuntimeFault ''pending writes reference a missing checkpoint''))
          else (store_buffer now tx db1, Inr ()))"

section \<open>The saver\<close>

record saver =
  tables :: database
  buffers :: "transaction list"
  registry :: "((ustring \<times> ustring) \<times> nat) list"

datatype entered = Owns nat | Joins nat

definition transaction_key :: "ustring \<Rightarrow> ustring \<Rightarrow> (saver_error, ustring \<times> ustring) result" where
  "transaction_key thread_id execution_id =
     (if strip thread_id = [] \<or> strip execution_id = []
      then Inl (ValueFault ''thread_id and execution_id are required for checkpoint transactions'')
      else Inr (strip thread_id, strip execution_id))"

definition enter_transaction :: "nat option \<Rightarrow> ustring \<Rightarrow> ustring \<Rightarrow> saver
    \<Rightarrow> saver \<times> (saver_error, entered) result" where
  "enter_transaction active thread_id execution_id s =
     (case transaction_key thread_id execution_id of Inl e \<Rightarrow> (s, Inl e) | Inr key \<Rightarrow>
        case active of
          Some i \<Rightarrow>
            if (tx_thread_id (buffers s ! i), tx_execution_id (buffers s ! i)) \<noteq> key
              then (s, Inl (RuntimeFault ''cannot nest checkpoint transactions for different executions''))
            else (case ensure_open (buffers s ! i) of Inl e \<Rightarrow> (s, Inl e) | Inr u \<Rightarrow> (s, Inr (Joins i)))
        | None \<Rightarrow>
            if map_of (registry s) key \<noteq> None then (s, Inl (ExecutionBusy thread_id))
            else (s\<lparr>buffers := buffers s @ [new_transaction (fst key) (snd key)],
                    registry := (key, length (buffers s)) # registry s\<rparr>, Inr (Owns (length (buffers s)))))"

text \<open>Leaving the block: the buffer is closed and taken out of the registry if it is still the one there.\<close>

definition set_buffer :: "nat \<Rightarrow> transaction \<Rightarrow> saver \<Rightarrow> saver" where
  "set_buffer i tx s = s\<lparr>buffers := (buffers s)[i := tx]\<rparr>"

definition close_transaction :: "nat \<Rightarrow> saver \<Rightarrow> saver" where
  "close_transaction i s =
     (let s' = set_buffer i ((buffers s ! i)\<lparr>tx_phase := Closed\<rparr>) s
      in s'\<lparr>registry := filter (\<lambda>(k, j). j \<noteq> i) (registry s')\<rparr>)"

definition abort_transaction :: "nat \<Rightarrow> saver \<Rightarrow> saver" where
  "abort_transaction i s = close_transaction i s"

definition commit_transaction :: "seconds \<Rightarrow> nat \<Rightarrow> saver \<Rightarrow> saver \<times> (saver_error, unit) result" where
  "commit_transaction now i s =
     (case ensure_open (buffers s ! i) of
        Inl e \<Rightarrow> (close_transaction i s, Inl e)
      | Inr u \<Rightarrow>
          (let (db, r) = flush_transaction now ((buffers s ! i)\<lparr>tx_phase := Sealed\<rparr>) (tables s)
           in (close_transaction i (s\<lparr>tables := db\<rparr>), r)))"

text \<open>
  \<open>acheckpoint_transaction\<close> enters and leaves in the same way. The flush runs on another thread and is awaited
  to its end even when the task is cancelled meanwhile: the error of the flush wins, else the cancellation is
  raised after the tables have been written.
\<close>

datatype async_exit = Finished | CancelledAfterFlush | FlushFailed saver_error

definition acommit_transaction :: "bool \<Rightarrow> seconds \<Rightarrow> nat \<Rightarrow> saver \<Rightarrow> saver \<times> async_exit" where
  "acommit_transaction cancelled now i s =
     (case commit_transaction now i s of
        (s', Inl e) \<Rightarrow> (s', FlushFailed e)
      | (s', Inr u) \<Rightarrow> (s', if cancelled then CancelledAfterFlush else Finished))"

definition transaction_for :: "'o langgraph \<Rightarrow> nat option \<Rightarrow> json_object option \<Rightarrow> saver
    \<Rightarrow> (saver_error, nat option) result" where
  "transaction_for lg active cfg s =
     (case active of
        Some i \<Rightarrow>
          (case cfg of None \<Rightarrow> Inr (Some i) | Some c \<Rightarrow>
             (let thread_id = strip (str_or_empty lg c ''thread_id'');
                  execution_id = strip (str_or_empty lg c ''execution_id'')
              in if thread_id \<noteq> [] \<and> thread_id \<noteq> tx_thread_id (buffers s ! i)
                   then Inl (RuntimeFault ''checkpoint write attempted to cross transaction threads'')
                 else if execution_id \<noteq> [] \<and> execution_id \<noteq> tx_execution_id (buffers s ! i)
                   then Inl (RuntimeFault ''checkpoint write attempted to cross transaction executions'')
                 else Inr (Some i)))
      | None \<Rightarrow>
          (case cfg of None \<Rightarrow> Inr None | Some c \<Rightarrow>
             (let thread_id = strip (str_or_empty lg c ''thread_id'');
                  execution_id = strip (str_or_empty lg c ''execution_id'')
              in if thread_id = [] \<or> execution_id = [] then Inr None
                 else Inr (map_of (registry s) (thread_id, execution_id)))))"

section \<open>Writing\<close>

text \<open>What \<open>put\<close> computes before it touches a buffer or the database; the version is filled in later.\<close>

definition prepare_checkpoint :: "'o langgraph \<Rightarrow> config \<Rightarrow> 'o checkpoint \<Rightarrow> json_object
    \<Rightarrow> (saver_error, checkpoint_record) result" where
  "prepare_checkpoint lg cfg cp metadata =
     (let c = configurable cfg;
          slim = cp\<lparr>channel_values := Some (drop_unserializable_channels (dumps_probe lg)
            (case channel_values cp of None \<Rightarrow> [] | Some st \<Rightarrow> st))\<rparr>
      in and_then (str_at lg c ''thread_id'') (\<lambda>thread_id.
         case dumps_checkpoint lg slim of None \<Rightarrow> Inl Unserializable | Some cb \<Rightarrow>
         case dumps_metadata lg (get_checkpoint_metadata lg (checkpoint_safe_config cfg) metadata) of
           None \<Rightarrow> Inl Unserializable
         | Some mb \<Rightarrow>
         and_then (optional_int (map_of c ''workflow_run_id'')) (\<lambda>workflow_run_id.
         and_then (optional_int (map_of c ''agent_run_id'')) (\<lambda>agent_run_id.
         Inr \<lparr>cr_thread_id = thread_id, cr_checkpoint_ns = str_or_empty lg c ''checkpoint_ns'',
           cr_checkpoint_id = py_str lg (ckpt_id cp),
           cr_parent_checkpoint_id = str_or_empty lg c ''checkpoint_id'',
           cr_execution_id = str_or_empty lg c ''execution_id'',
           cr_workflow_run_id = workflow_run_id, cr_agent_run_id = agent_run_id, cr_version = 0,
           cr_checkpoint_type = fst cb, cr_checkpoint_blob = snd cb,
           cr_metadata_type = fst mb, cr_metadata_blob = snd mb\<rparr>))))"

definition saved_configurable :: "json_object \<Rightarrow> checkpoint_record \<Rightarrow> int \<Rightarrow> json_object" where
  "saved_configurable c r version =
     update_all [(''thread_id'', JStr (cr_thread_id r)), (''checkpoint_ns'', JStr (cr_checkpoint_ns r)),
       (''checkpoint_id'', JStr (cr_checkpoint_id r)), (''checkpoint_version'', JInt version)] c"

definition put_checkpoint :: "'o langgraph \<Rightarrow> nat option \<Rightarrow> seconds \<Rightarrow> config \<Rightarrow> 'o checkpoint \<Rightarrow> json_object \<Rightarrow> saver
    \<Rightarrow> saver \<times> (saver_error, json_object) result" where
  "put_checkpoint lg active now cfg cp metadata s =
     (case and_then (prepare_checkpoint lg cfg cp metadata) (\<lambda>r.
         and_then (transaction_for lg active (Some (configurable cfg)) s) (\<lambda>t. Inr (r, t))) of
        Inl e \<Rightarrow> (s, Inl e)
      | Inr (r, Some i) \<Rightarrow>
          (let (tx, res) = buffer_checkpoint (tables s) r (buffers s ! i)
           in (set_buffer i tx s, and_then res (\<lambda>v. Inr (saved_configurable (configurable cfg) r v))))
      | Inr (r, None) \<Rightarrow>
          (let (db, v) = put_direct now r (tables s)
           in (s\<lparr>tables := db\<rparr>, Inr (saved_configurable (configurable cfg) r v))))"

text \<open>A value the serializer refuses is written as \<open>None\<close>.\<close>

definition make_write :: "'o langgraph \<Rightarrow> json_object \<Rightarrow> ustring \<Rightarrow> ustring \<Rightarrow> nat \<Rightarrow> ustring \<times> 'o channel_value
    \<Rightarrow> (saver_error, write_record) result" where
  "make_write lg c task_id task_path index cv =
     (let blob = (case dumps_value lg (snd cv) of None \<Rightarrow> dumps_value lg NoneValue | Some b \<Rightarrow> Some b)
      in case blob of None \<Rightarrow> Inl Unserializable | Some b \<Rightarrow>
         and_then (str_at lg c ''thread_id'') (\<lambda>thread_id.
         and_then (str_at lg c ''checkpoint_id'') (\<lambda>checkpoint_id.
         Inr \<lparr>wr_thread_id = thread_id, wr_checkpoint_ns = str_or_empty lg c ''checkpoint_ns'',
           wr_checkpoint_id = checkpoint_id, wr_task_id = task_id, wr_task_path = task_path,
           wr_write_index = (case writes_idx_map lg (fst cv) of None \<Rightarrow> int index | Some i \<Rightarrow> i),
           wr_channel = fst cv, wr_value_type = fst b, wr_value_blob = snd b\<rparr>)))"

fun make_writes :: "'o langgraph \<Rightarrow> json_object \<Rightarrow> ustring \<Rightarrow> ustring \<Rightarrow> nat \<Rightarrow> (ustring \<times> 'o channel_value) list
    \<Rightarrow> (write_key \<times> write_record) list \<Rightarrow> (saver_error, (write_key \<times> write_record) list) result" where
  "make_writes lg c task_id task_path index [] records = Inr records"
| "make_writes lg c task_id task_path index (cv # cvs) records =
     and_then (make_write lg c task_id task_path index cv)
       (\<lambda>w. make_writes lg c task_id task_path (index + 1) cvs (AList.update (write_key w) w records))"

definition put_writes :: "'o langgraph \<Rightarrow> nat option \<Rightarrow> config \<Rightarrow> (ustring \<times> 'o channel_value) list \<Rightarrow> ustring
    \<Rightarrow> ustring \<Rightarrow> saver \<Rightarrow> saver \<times> (saver_error, unit) result" where
  "put_writes lg active cfg ws task_id task_path s =
     (case make_writes lg (configurable cfg) task_id task_path 0 ws [] of
        Inl e \<Rightarrow> (s, Inl e)
      | Inr [] \<Rightarrow> (s, Inr ())
      | Inr (r # rs) \<Rightarrow>
          (case transaction_for lg active (Some (configurable cfg)) s of
             Inl e \<Rightarrow> (s, Inl e)
           | Inr (Some i) \<Rightarrow>
               (let (tx, res) = buffer_writes (r # rs) (buffers s ! i) in (set_buffer i tx s, res))
           | Inr None \<Rightarrow> (s\<lparr>tables := put_writes_direct (map snd (r # rs)) (tables s)\<rparr>, Inr ())))"

section \<open>Reading\<close>

record 'o checkpoint_tuple =
  ct_thread_id :: ustring
  ct_checkpoint_ns :: ustring
  ct_checkpoint_id :: ustring
  ct_version :: int
  ct_parent_id :: "ustring option"
  ct_checkpoint :: "'o checkpoint"
  ct_metadata :: json_object
  ct_pending_writes :: "(ustring \<times> ustring \<times> 'o channel_value) list"

definition write_order :: "write_record \<Rightarrow> int \<times> ustring \<times> ustring" where
  "write_order w = (wr_write_index w, wr_task_id w, wr_task_path w)"

definition writes_of :: "checkpoint_key \<Rightarrow> (write_key \<times> write_record) list \<Rightarrow> (write_key \<times> write_record) list" where
  "writes_of ck ws = filter (\<lambda>(k, w). (fst k, fst (snd k), fst (snd (snd k))) = ck) ws"

text \<open>
  The pending writes of a checkpoint: the rows of the table, then the buffered ones in their place, sorted.
\<close>

definition pending_rows :: "database \<Rightarrow> transaction option \<Rightarrow> checkpoint_key \<Rightarrow> write_record list" where
  "pending_rows db tx ck =
     (let stored = sort_key (\<lambda>(k, w). write_order w) (writes_of ck (db_writes db));
          buffered = (case tx of None \<Rightarrow> [] | Some t \<Rightarrow> writes_of ck (tx_writes t))
      in sort_key write_order (map snd (update_all buffered stored)))"

definition tuple_of :: "'o langgraph \<Rightarrow> database \<Rightarrow> transaction option \<Rightarrow> 'r checkpoint_record_scheme
    \<Rightarrow> 'o checkpoint_tuple" where
  "tuple_of lg db tx row =
     (let ws = pending_rows db tx (checkpoint_key row)
      in \<lparr>ct_thread_id = cr_thread_id row, ct_checkpoint_ns = cr_checkpoint_ns row,
          ct_checkpoint_id = cr_checkpoint_id row, ct_version = cr_version row,
          ct_parent_id = (if cr_parent_checkpoint_id row = [] then None else Some (cr_parent_checkpoint_id row)),
          ct_checkpoint = loads_checkpoint lg (cr_checkpoint_type row, cr_checkpoint_blob row),
          ct_metadata = loads_metadata lg (cr_metadata_type row, cr_metadata_blob row),
          ct_pending_writes = map (\<lambda>w. (wr_task_id w, wr_channel w,
            loads_value lg (wr_value_type w, wr_value_blob w))) ws\<rparr>)"

definition read_tuple :: "'o langgraph \<Rightarrow> database \<Rightarrow> transaction option \<Rightarrow> ustring \<Rightarrow> ustring \<Rightarrow> ustring option
    \<Rightarrow> 'o checkpoint_tuple option" where
  "read_tuple lg db tx thread_id ns checkpoint_id =
     (let buffered = (case tx of None \<Rightarrow> None | Some t \<Rightarrow> newest thread_id ns checkpoint_id (tx_checkpoints t))
      in case (buffered, newest thread_id ns checkpoint_id (db_checkpoints db)) of
           (None, None) \<Rightarrow> None
         | (None, Some row) \<Rightarrow> Some (tuple_of lg db tx row)
         | (Some b, None) \<Rightarrow> Some (tuple_of lg db tx b)
         | (Some b, Some row) \<Rightarrow>
             Some (if cr_version row \<le> cr_version b then tuple_of lg db tx b else tuple_of lg db tx row))"

definition get_tuple :: "'o langgraph \<Rightarrow> nat option \<Rightarrow> config \<Rightarrow> saver
    \<Rightarrow> (saver_error, 'o checkpoint_tuple option) result" where
  "get_tuple lg active cfg s =
     and_then (str_at lg (configurable cfg) ''thread_id'') (\<lambda>thread_id.
     and_then (transaction_for lg active (Some (configurable cfg)) s) (\<lambda>t.
     Inr (read_tuple lg (tables s) (map_option (\<lambda>i. buffers s ! i) t) thread_id
       (str_or_empty lg (configurable cfg) ''checkpoint_ns'') (get_checkpoint_id lg cfg))))"

section \<open>Asynchronous commits\<close>

lemma acommit_state [simp]: "fst (acommit_transaction cancelled now i s) = fst (commit_transaction now i s)"
  by (auto simp: acommit_transaction_def split: prod.split sum.split)

lemma cancelled_commit_is_written:
  "snd (acommit_transaction cancelled now i s) = CancelledAfterFlush \<longleftrightarrow>
     cancelled \<and> snd (commit_transaction now i s) = Inr ()"
  by (auto simp: acommit_transaction_def split: prod.split sum.split)

end
