(* ===== verification/CheckpointRuns.thy ===== *)
theory CheckpointRuns
  imports CheckpointSaver Interfaces
begin

text \<open>
  The checkpoint saver under any interleaving of transactions, direct writes, commits and aborts: the tables stay
  consistent, and a commit is isolated from every other writer of its namespaces. A thread may be deleted
  (\<open>delete_thread\<close>) as long as no open transaction has read one of its namespaces: deleting resets the counters the
  transactions compare, so that a transaction with a snapshot from before could commit over what was written since.
\<close>

section \<open>Well-formed buffers\<close>

definition buffered_payload :: "transaction \<Rightarrow> int" where
  "buffered_payload tx =
     (\<Sum>kv\<leftarrow>tx_checkpoints tx. checkpoint_payload (snd kv)) + (\<Sum>kv\<leftarrow>tx_writes tx. write_payload (snd kv))"

definition buffer_bounded :: "transaction \<Rightarrow> bool" where
  "buffer_bounded tx \<longleftrightarrow>
     table_ok checkpoint_key (tx_checkpoints tx) \<and> table_ok write_key (tx_writes tx) \<and>
     distinct (map fst (tx_namespaces tx)) \<and> tx_payload_bytes tx = buffered_payload tx \<and>
     length (tx_checkpoints tx) \<le> max_transaction_checkpoints \<and>
     length (tx_writes tx) \<le> max_transaction_writes \<and> tx_payload_bytes tx \<le> max_transaction_payload"

definition buffer_versioned :: "transaction \<Rightarrow> bool" where
  "buffer_versioned tx \<longleftrightarrow>
     (\<forall>k r. map_of (tx_checkpoints tx) k = Some r \<longrightarrow>
        (\<exists>snap. map_of (tx_namespaces tx) (ns_of k) = Some snap \<and>
           map_of (checkpoint_versions snap) (snd (snd k)) = Some (cr_version r)))"

text \<open>A snapshot is fresh as long as nobody moved the counter of its namespace: then it knows exactly the stored
  versions, and every version above its base is its own.\<close>

definition snapshot_ok :: "database \<Rightarrow> ns_key \<Rightarrow> namespace_snapshot \<Rightarrow> bool" where
  "snapshot_ok db ns snap \<longleftrightarrow>
     0 \<le> base_version snap \<and> base_version snap \<le> current_version snap \<and>
     (\<forall>i v. map_of (checkpoint_versions snap) i = Some v \<longrightarrow> 1 \<le> v \<and> v \<le> current_version snap) \<and>
     (\<forall>i j v. map_of (checkpoint_versions snap) i = Some v \<and> map_of (checkpoint_versions snap) j = Some v \<longrightarrow> i = j) \<and>
     base_version snap \<le> current_version_of db ns \<and>
     (base_version snap = current_version_of db ns \<longrightarrow>
        (\<forall>i v. map_of (checkpoint_versions snap) i = Some v \<and> v \<le> base_version snap \<longleftrightarrow>
           version_at db (fst ns, snd ns, i) = Some v))"

definition tx_ok :: "database \<Rightarrow> transaction \<Rightarrow> bool" where
  "tx_ok db tx \<longleftrightarrow>
     buffer_bounded tx \<and> buffer_versioned tx \<and>
     (\<forall>ns snap. map_of (tx_namespaces tx) ns = Some snap \<longrightarrow> snapshot_ok db ns snap)"

lemma tx_ok_snapshot: "tx_ok db tx \<Longrightarrow> map_of (tx_namespaces tx) ns = Some snap \<Longrightarrow> snapshot_ok db ns snap"
  unfolding tx_ok_def by blast

lemma tx_ok_buffered:
  assumes "tx_ok db tx" and "map_of (tx_checkpoints tx) k = Some r"
  obtains snap where "map_of (tx_namespaces tx) (ns_of k) = Some snap"
    and "map_of (checkpoint_versions snap) (snd (snd k)) = Some (cr_version r)"
  using assms unfolding tx_ok_def buffer_versioned_def by blast

lemma tx_ok_bounded: "tx_ok db tx \<Longrightarrow> buffer_bounded tx"
  by (simp add: tx_ok_def)

definition registered :: "saver \<Rightarrow> bool" where
  "registered s \<longleftrightarrow>
     distinct (map fst (registry s)) \<and>
     (\<forall>key i. (key, i) \<in> set (registry s) \<longrightarrow> i < length (buffers s)) \<and>
     (\<forall>i < length (buffers s). tx_phase (buffers s ! i) = Open \<longrightarrow>
        ((tx_thread_id (buffers s ! i), tx_execution_id (buffers s ! i)), i) \<in> set (registry s))"

definition saver_ok :: "saver \<Rightarrow> bool" where
  "saver_ok s \<longleftrightarrow>
     db_ok (tables s) \<and> registered s \<and>
     (\<forall>i < length (buffers s). tx_phase (buffers s ! i) = Open \<longrightarrow> tx_ok (tables s) (buffers s ! i))"

lemma snapshot_fresh:
  assumes "snapshot_ok db (ns_of k) snap" and "current_version_of db (ns_of k) = base_version snap"
  shows "version_at db k = Some v \<longleftrightarrow>
    map_of (checkpoint_versions snap) (snd (snd k)) = Some v \<and> v \<le> base_version snap"
proof -
  obtain t n i where k: "k = (t, n, i)" by (cases k)
  then show ?thesis using assms unfolding snapshot_ok_def by simp
qed

section \<open>Runs\<close>

definition saver_init :: "saver \<Rightarrow> bool" where
  "saver_init s \<longleftrightarrow> db_ok (tables s) \<and> buffers s = [] \<and> registry s = []"

definition active_ok :: "nat option \<Rightarrow> saver \<Rightarrow> bool" where
  "active_ok active s \<longleftrightarrow> (case active of None \<Rightarrow> True | Some i \<Rightarrow> i < length (buffers s))"

text \<open>No open transaction holds a snapshot of a namespace of the thread.\<close>

definition unobserved :: "ustring \<Rightarrow> saver \<Rightarrow> bool" where
  "unobserved thread_id s \<longleftrightarrow>
     list_all (\<lambda>tx. tx_phase tx = Open \<longrightarrow> thread_id \<notin> fst ` fst ` set (tx_namespaces tx)) (buffers s)"

inductive saver_step :: "'o langgraph \<Rightarrow> saver \<Rightarrow> saver \<Rightarrow> bool" for lg where
  enter: "active_ok active s \<Longrightarrow>
    saver_step lg s (fst (enter_transaction active thread_id execution_id s))"
| put: "active_ok active s \<Longrightarrow> saver_step lg s (fst (put_checkpoint lg active now cfg cp metadata s))"
| writes: "active_ok active s \<Longrightarrow> saver_step lg s (fst (put_writes lg active cfg ws task_id task_path s))"
| commit: "i < length (buffers s) \<Longrightarrow> saver_step lg s (fst (commit_transaction now i s))"
| abort: "i < length (buffers s) \<Longrightarrow> saver_step lg s (abort_transaction i s)"
| delete: "unobserved thread_id s \<Longrightarrow> saver_step lg s (s\<lparr>tables := delete_thread thread_id (tables s)\<rparr>)"

section \<open>Snapshots\<close>

lemma advances_current: "advances db db' \<Longrightarrow> current_version_of db ns \<le> current_version_of db' ns"
  unfolding advances_def by blast

lemma advances_version:
  "advances db db' \<Longrightarrow> current_version_of db (ns_of k) = current_version_of db' (ns_of k) \<Longrightarrow>
     version_at db' k = version_at db k"
  unfolding advances_def by blast

lemma snapshot_advances:
  assumes ok: "snapshot_ok db ns snap" and adv: "advances db db'"
  shows "snapshot_ok db' ns snap"
proof -
  have le: "base_version snap \<le> current_version_of db ns" "current_version_of db ns \<le> current_version_of db' ns"
    using ok adv by (simp_all add: snapshot_ok_def advances_current)
  show ?thesis
  proof (cases "base_version snap = current_version_of db' ns")
    case True
    with le have cur: "current_version_of db' ns = current_version_of db ns" by simp
    have same: "version_at db' (fst ns, snd ns, i) = version_at db (fst ns, snd ns, i)" for i
      using advances_version [OF adv, of "(fst ns, snd ns, i)"] cur by simp
    show ?thesis using ok unfolding snapshot_ok_def cur same .
  next
    case False
    with ok le show ?thesis by (simp add: snapshot_ok_def)
  qed
qed

lemma tx_advances: "tx_ok db tx \<Longrightarrow> advances db db' \<Longrightarrow> tx_ok db' tx"
  unfolding tx_ok_def by (blast intro: snapshot_advances)

lemma namespace_lookup:
  assumes "list_all (\<lambda>(k, r). k = checkpoint_key r) rows"
  shows "map_of (map (\<lambda>(k, r). (cr_checkpoint_id r, cr_version r)) (filter (\<lambda>(k, r). wanted t ns None k) rows)) i
       = map_option cr_version (map_of rows (t, ns, i))"
  using assms by (induction rows) (auto simp: wanted_def checkpoint_key_def)

lemma load_snapshot_ok:
  assumes ok: "db_ok db" and res: "load_namespace_snapshot db ns = Inr snap"
  shows "snapshot_ok db ns snap" and "base_version snap = current_version_of db ns"
proof -
  have look: "map_of (checkpoint_versions snap) i = version_at db (fst ns, snd ns, i)" for i
    using ok res namespace_lookup [of "db_checkpoints db" "fst ns" "snd ns" i]
    by (auto simp: load_namespace_snapshot_def Let_def version_at_def db_ok_def table_ok_def split: if_splits)
  have base: "base_version snap = current_version_of db ns" "current_version snap = current_version_of db ns"
    using res by (auto simp: load_namespace_snapshot_def Let_def split: if_splits)
  then show "base_version snap = current_version_of db ns" by simp
  have low: "1 \<le> v" and up: "v \<le> current_version_of db ns" if "version_at db (fst ns, snd ns, i) = Some v" for i v
    using db_ok_versions(2,3) [OF ok that] by (simp_all add: ns_of_def)
  have uniq: "i = j" if "version_at db (fst ns, snd ns, i) = Some v" "version_at db (fst ns, snd ns, j) = Some v" for i j v
    using db_ok_versions(4) [OF ok that] by (simp add: ns_of_def)
  show "snapshot_ok db ns snap"
    unfolding snapshot_ok_def look base
    using db_ok_versions(1) [OF ok, of ns] by (auto dest: low up intro: uniq)
qed

lemma assign_version_ok:
  assumes ok: "snapshot_ok db ns snap" and res: "assign_version i snap = (snap', v)"
  shows "snapshot_ok db ns snap' \<and> map_of (checkpoint_versions snap') i = Some v \<and>
    base_version snap' = base_version snap \<and> map_of (checkpoint_versions snap) \<subseteq>\<^sub>m map_of (checkpoint_versions snap')"
proof (cases "map_of (checkpoint_versions snap) i")
  case (Some w)
  then have "w \<noteq> 0" using ok unfolding snapshot_ok_def by fastforce
  with Some res ok show ?thesis by (simp add: assign_version_def)
next
  case None
  let ?c = "current_version snap + 1"
  have snap': "snap' = snap\<lparr>current_version := ?c,
      checkpoint_versions := AList.update i ?c (checkpoint_versions snap)\<rparr>" and v: "v = ?c"
    using res None by (auto simp: assign_version_def Let_def)
  have "snapshot_ok db ns snap'"
    using ok None unfolding snapshot_ok_def snap' by (simp split: if_splits) fastforce
  with None show ?thesis by (auto simp: snap' v map_le_def)
qed

section \<open>Buffering\<close>

lemma ensure_open_Inr [simp]: "ensure_open tx = Inr u \<longleftrightarrow> tx_phase tx = Open"
  by (simp add: ensure_open_def)

lemma ensure_capacity_Inr [simp]:
  "ensure_capacity c w p = Inr u \<longleftrightarrow>
     c \<le> max_transaction_checkpoints \<and> w \<le> max_transaction_writes \<and> p \<le> max_transaction_payload"
  by (auto simp: ensure_capacity_def)

text \<open>What an operation on a buffer keeps: its identity, its phase and the bases of its snapshots.\<close>

definition same_buffer :: "transaction \<Rightarrow> transaction \<Rightarrow> bool" where
  "same_buffer tx tx' \<longleftrightarrow>
     tx_thread_id tx' = tx_thread_id tx \<and> tx_execution_id tx' = tx_execution_id tx \<and> tx_phase tx' = tx_phase tx \<and>
     (\<forall>ns snap. map_of (tx_namespaces tx) ns = Some snap \<longrightarrow>
        (\<exists>snap'. map_of (tx_namespaces tx') ns = Some snap' \<and> base_version snap' = base_version snap))"

lemma same_buffer_refl [simp]: "same_buffer tx tx"
  by (simp add: same_buffer_def)

lemma set_namespace_ok:
  assumes ok: "tx_ok db tx" and snap: "snapshot_ok db ns snap"
    and old: "\<And>s. map_of (tx_namespaces tx) ns = Some s \<Longrightarrow>
      base_version snap = base_version s \<and> map_of (checkpoint_versions s) \<subseteq>\<^sub>m map_of (checkpoint_versions snap)"
  defines "tx1 \<equiv> tx\<lparr>tx_namespaces := AList.update ns snap (tx_namespaces tx)\<rparr>"
  shows "tx_ok db tx1" and "same_buffer tx tx1"
proof -
  have "buffer_bounded tx1"
    using ok by (simp add: tx_ok_def tx1_def buffer_bounded_def buffered_payload_def distinct_keys_update)
  moreover have "buffer_versioned tx1"
    using ok old unfolding tx_ok_def buffer_versioned_def tx1_def by (fastforce dest: map_le_imp_upd_le simp: map_le_def dom_def)
  moreover have "\<forall>ns' s. map_of (tx_namespaces tx1) ns' = Some s \<longrightarrow> snapshot_ok db ns' s"
    using ok snap by (auto simp: tx_ok_def tx1_def split: if_splits)
  ultimately show "tx_ok db tx1" by (simp add: tx_ok_def)
  show "same_buffer tx tx1" using old by (auto simp: same_buffer_def tx1_def)
qed

lemma set_checkpoint_ok:
  assumes ok: "tx_ok db tx" and ns: "map_of (tx_namespaces tx) (ns_of (checkpoint_key r)) = Some snap"
    and v: "map_of (checkpoint_versions snap) (cr_checkpoint_id r) = Some (cr_version r)"
    and payload: "p = tx_payload_bytes tx + checkpoint_payload r -
      (case map_of (tx_checkpoints tx) (checkpoint_key r) of None \<Rightarrow> 0 | Some q \<Rightarrow> checkpoint_payload q)"
    and "p \<le> max_transaction_payload"
    and "length (AList.update (checkpoint_key r) r (tx_checkpoints tx)) \<le> max_transaction_checkpoints"
  shows "tx_ok db (tx\<lparr>tx_checkpoints := AList.update (checkpoint_key r) r (tx_checkpoints tx), tx_payload_bytes := p\<rparr>)"
    (is "tx_ok db ?tx")
proof -
  have "buffer_bounded ?tx"
    using assms(1,4-6) by (simp add: tx_ok_def buffer_bounded_def buffered_payload_def table_ok_update sum_update)
  moreover have "buffer_versioned ?tx"
    using ok ns v by (auto simp: tx_ok_def buffer_versioned_def checkpoint_key_def ns_of_def)
  ultimately show ?thesis using ok by (simp add: tx_ok_def)
qed

lemma buffer_checkpoint_effect:
  assumes db: "db_ok db" and ok: "tx_ok db tx" and res: "buffer_checkpoint db r tx = (tx', q)"
  shows "tx_ok db tx' \<and> same_buffer tx tx'"
proof -
  let ?ns = "(cr_thread_id r, cr_checkpoint_ns r)"
  let ?loaded = "case map_of (tx_namespaces tx) ?ns of None \<Rightarrow> load_namespace_snapshot db ?ns | Some s \<Rightarrow> Inr s"
  consider "tx' = tx" | snap where "tx_phase tx = Open" "?loaded = Inr snap"
    using res by (auto simp: buffer_checkpoint_def Let_def ensure_open_def split: sum.splits if_splits)
  then show ?thesis
  proof cases
    case 1
    with ok show ?thesis by simp
  next
    case 2
    have snap: "snapshot_ok db ?ns snap"
      using 2(2) ok load_snapshot_ok(1) [OF db] by (auto simp: tx_ok_def split: option.splits)
    obtain snap' v where v: "assign_version (cr_checkpoint_id r) snap = (snap', v)" by fastforce
    note snap' = assign_version_ok [OF snap v]
    let ?tx1 = "tx\<lparr>tx_namespaces := AList.update ?ns snap' (tx_namespaces tx)\<rparr>" and ?r = "r\<lparr>cr_version := v\<rparr>"
    have old: "base_version snap' = base_version s \<and> map_of (checkpoint_versions s) \<subseteq>\<^sub>m map_of (checkpoint_versions snap')"
      if "map_of (tx_namespaces tx) ?ns = Some s" for s
      using that 2(2) snap' by simp
    note ok1 = set_namespace_ok [OF ok conjunct1 [OF snap'] old]
    let ?p = "tx_payload_bytes tx + checkpoint_payload ?r -
      (case map_of (tx_checkpoints tx) (checkpoint_key ?r) of None \<Rightarrow> 0 | Some q \<Rightarrow> checkpoint_payload q)"
    let ?tx2 = "?tx1\<lparr>tx_checkpoints := AList.update (checkpoint_key ?r) ?r (tx_checkpoints tx), tx_payload_bytes := ?p\<rparr>"
    have cases: "tx' = ?tx1 \<or> tx' = ?tx2 \<and> ?p \<le> max_transaction_payload \<and>
        length (AList.update (checkpoint_key ?r) ?r (tx_checkpoints tx)) \<le> max_transaction_checkpoints"
      using res 2 v by (auto simp: buffer_checkpoint_def ensure_open_def Let_def length_update split: sum.splits)
    have "tx_ok db ?tx2" if "?p \<le> max_transaction_payload"
      "length (AList.update (checkpoint_key ?r) ?r (tx_checkpoints tx)) \<le> max_transaction_checkpoints"
      using set_checkpoint_ok [OF ok1(1), of ?r snap' ?p] snap' that by (simp add: checkpoint_key_def)
    moreover have "same_buffer tx ?tx2" using ok1(2) by (simp add: same_buffer_def)
    ultimately show ?thesis using cases ok1 by auto
  qed
qed

text \<open>Adding a batch of writes.\<close>

lemma map_of_update_all: "map_of (update_all kvs al) = map_of al ++ map_of (rev kvs)"
proof (induction kvs arbitrary: al)
  case (Cons kv kvs)
  have "update_all (kv # kvs) al = update_all kvs (AList.update (fst kv) (snd kv) al)"
    by (cases kv) (simp add: update_all_def)
  with Cons show ?case by (cases kv) (auto simp: fun_eq_iff map_add_def split: option.split)
qed (simp add: update_all_def)

lemma update_all_Cons: "update_all ((k, v) # kvs) al = update_all kvs (AList.update k v al)"
  by (simp add: update_all_def)

lemma table_ok_update_all:
  "table_ok key al \<Longrightarrow> list_all (\<lambda>(k, v). k = key v) kvs \<Longrightarrow> table_ok key (update_all kvs al)"
proof (induction kvs arbitrary: al)
  case (Cons kv kvs)
  obtain k v where kv: "kv = (k, v)" by fastforce
  with Cons.prems have "table_ok key (AList.update k v al)" by (simp add: table_ok_update)
  with Cons kv show ?case by (simp add: update_all_Cons)
qed (simp add: update_all_def)

lemma keys_update_all: "fst ` set (update_all kvs al) = fst ` set al \<union> fst ` set kvs"
proof (induction kvs arbitrary: al)
  case (Cons kv kvs)
  then show ?case by (cases kv) (auto simp: update_all_Cons keys_update)
qed (simp add: update_all_def)

lemma length_table: "distinct (map fst al) \<Longrightarrow> length al = card (fst ` set al)"
  by (metis distinct_card length_map list.set_map)

lemma sum_update_all:
  fixes f :: "'v \<Rightarrow> int"
  assumes "distinct (map fst kvs)"
  shows "(\<Sum>kv\<leftarrow>update_all kvs al. f (snd kv)) =
     (\<Sum>kv\<leftarrow>al. f (snd kv)) - (\<Sum>kv\<leftarrow>kvs. case map_of al (fst kv) of None \<Rightarrow> 0 | Some w \<Rightarrow> f w)
       + (\<Sum>kv\<leftarrow>kvs. f (snd kv))"
  using assms
proof (induction kvs arbitrary: al)
  case (Cons kv kvs)
  obtain k v where kv: "kv = (k, v)" by fastforce
  have "(\<Sum>kv\<leftarrow>kvs. case map_of (AList.update k v al) (fst kv) of None \<Rightarrow> 0 | Some w \<Rightarrow> f w)
      = (\<Sum>kv\<leftarrow>kvs. case map_of al (fst kv) of None \<Rightarrow> 0 | Some w \<Rightarrow> f w)"
    using Cons.prems kv by (intro arg_cong [where f = sum_list] map_cong) force+
  with Cons.IH [of "AList.update k v al"] Cons.prems kv show ?case
    by (simp add: update_all_Cons sum_update split: option.splits)
qed (simp add: update_all_def)

lemma make_writes_ok:
  "make_writes lg c task path n cvs records = Inr rs \<Longrightarrow> table_ok write_key records \<Longrightarrow> table_ok write_key rs"
  by (induction lg c task path n cvs records rule: make_writes.induct)
    (auto simp: and_then_eq_Inr table_ok_update)

lemma buffer_writes_effect:
  assumes ok: "tx_ok db tx" and rs: "table_ok write_key rs" and res: "buffer_writes rs tx = (tx', q)"
  shows "tx_ok db tx' \<and> same_buffer tx tx'"
proof -
  let ?p = "tx_payload_bytes tx - (\<Sum>kw\<leftarrow>rs. case map_of (tx_writes tx) (fst kw) of None \<Rightarrow> 0 | Some w \<Rightarrow> write_payload w)
    + (\<Sum>kw\<leftarrow>rs. write_payload (snd kw))"
  let ?n = "length (remdups (map fst (tx_writes tx) @ map fst rs))"
  let ?tx = "tx\<lparr>tx_writes := update_all rs (tx_writes tx), tx_payload_bytes := ?p\<rparr>"
  have cases: "tx' = tx \<or> tx' = ?tx \<and> ?n \<le> max_transaction_writes \<and> ?p \<le> max_transaction_payload"
    using res by (auto simp: buffer_writes_def ensure_open_def Let_def split: sum.splits if_splits)
  have tab: "table_ok write_key (update_all rs (tx_writes tx))"
    using ok rs by (intro table_ok_update_all) (simp_all add: tx_ok_def buffer_bounded_def table_ok_def)
  then have "length (update_all rs (tx_writes tx)) = card (fst ` set (tx_writes tx) \<union> fst ` set rs)"
    by (simp add: table_ok_def length_table keys_update_all)
  also have "\<dots> = ?n" by (simp add: length_remdups_card_conv image_Un)
  finally have len: "length (update_all rs (tx_writes tx)) = ?n" .
  have "distinct (map fst rs)" using rs by (simp add: table_ok_def)
  note sum = sum_update_all [OF this, of write_payload "tx_writes tx"]
  have "buffer_bounded ?tx" if "?n \<le> max_transaction_writes" "?p \<le> max_transaction_payload"
    using ok that tab len sum by (simp add: tx_ok_def buffer_bounded_def buffered_payload_def)
  then have "tx_ok db ?tx" if "?n \<le> max_transaction_writes" "?p \<le> max_transaction_payload"
    using ok that by (simp add: tx_ok_def buffer_versioned_def [of ?tx] buffer_versioned_def [of tx])
  moreover have "same_buffer tx ?tx" by (simp add: same_buffer_def)
  ultimately show ?thesis using cases ok by auto
qed

section \<open>Flushing\<close>

lemma check_namespaces_effect:
  assumes "check_namespaces nss db = Inr db1" and "\<forall>(ns, snap) \<in> set nss. base_version snap \<le> current_version_of db ns"
    and "\<forall>ns. 0 \<le> current_version_of db ns" and "\<forall>(ns, snap) \<in> set nss. 0 \<le> base_version snap"
  shows "current_version_of db1 = current_version_of db \<and> db_checkpoints db1 = db_checkpoints db \<and>
    db_writes db1 = db_writes db \<and> (\<forall>(ns, snap) \<in> set nss. current_version_of db ns = base_version snap)"
  using assms
proof (induction nss db rule: check_namespaces.induct)
  case (2 ns snap rest db)
  let ?db' = "case map_of (db_threads db) ns of None \<Rightarrow> set_version ns (base_version snap) db | Some v \<Rightarrow> db"
  have cur: "current_version_of ?db' = current_version_of db"
    using 2(3,4,5) by (fastforce simp: fun_eq_iff current_version_of_def [of db ns] split: option.splits)
  have "current_version_of db ns = base_version snap" and rest: "check_namespaces rest ?db' = Inr db1"
    using 2(2) cur by (auto simp: Let_def split: if_splits)
  moreover have "db_checkpoints ?db' = db_checkpoints db" "db_writes ?db' = db_writes db"
    by (simp_all split: option.split)
  ultimately show ?case using 2(1) [OF refl refl] 2 cur by (simp add: Let_def split: if_splits)
qed simp

lemma fold_upsert_checkpoint:
  "version_at (fold (upsert_checkpoint now) rs db) k =
     (case version_at db k of Some v \<Rightarrow> Some v
      | None \<Rightarrow> map_option cr_version (map_of (map (\<lambda>r. (checkpoint_key r, r)) rs) k))"
proof (induction rs arbitrary: db)
  case (Cons r rs)
  then show ?case by (simp add: version_at_upsert split: option.split)
qed (simp split: option.split)

lemma fold_upsert_checkpoint_tables:
  "table_ok checkpoint_key (db_checkpoints db) \<Longrightarrow>
     table_ok checkpoint_key (db_checkpoints (fold (upsert_checkpoint now) rs db))"
  "db_writes (fold (upsert_checkpoint now) rs db) = db_writes db"
  "current_version_of (fold (upsert_checkpoint now) rs db) = current_version_of db"
  by (induction rs arbitrary: db) (simp_all add: upsert_checkpoint_table_ok)

lemma fold_set_version:
  assumes "distinct (map fst nss)"
  shows "current_version_of (fold (\<lambda>(ns, snap). set_version ns (current_version snap)) nss db) ns =
     (case map_of nss ns of None \<Rightarrow> current_version_of db ns | Some snap \<Rightarrow> current_version snap)"
    and "db_checkpoints (fold (\<lambda>(ns, snap). set_version ns (current_version snap)) nss db) = db_checkpoints db"
    and "db_writes (fold (\<lambda>(ns, snap). set_version ns (current_version snap)) nss db) = db_writes db"
  using assms
  by (induction nss arbitrary: db) (auto simp: map_of_eq_None_iff image_iff split: option.split dest: map_of_SomeD)

lemma map_of_sorted_namespaces:
  assumes "distinct (map fst (tx_namespaces tx))"
  shows "map_of (sorted_namespaces tx) = map_of (tx_namespaces tx)"
    and "distinct (map fst (sorted_namespaces tx))"
    and "set (sorted_namespaces tx) = set (tx_namespaces tx)"
proof -
  have eq: "mset (map fst (sorted_namespaces tx)) = mset (map fst (tx_namespaces tx))"
    by (simp add: sorted_namespaces_def)
  show set: "set (sorted_namespaces tx) = set (tx_namespaces tx)" by (simp add: sorted_namespaces_def)
  show dis: "distinct (map fst (sorted_namespaces tx))"
    using eq assms by (metis mset_eq_imp_distinct_iff)
  show "map_of (sorted_namespaces tx) = map_of (tx_namespaces tx)"
    by (rule map_of_inject_set [THEN iffD2]) (use assms dis set in auto)
qed

lemma map_of_own_key:
  "list_all (\<lambda>(k, v). k = key v) al \<Longrightarrow> map (\<lambda>r. (key r, r)) (map snd al) = al"
  by (induction al) auto

text \<open>Nobody moved a counter the buffer has a snapshot of.\<close>

definition unchallenged :: "database \<Rightarrow> transaction \<Rightarrow> bool" where
  "unchallenged db tx \<longleftrightarrow>
     (\<forall>ns snap. map_of (tx_namespaces tx) ns = Some snap \<longrightarrow> current_version_of db ns = base_version snap)"

lemma unchallengedD [dest]:
  "unchallenged db tx \<Longrightarrow> map_of (tx_namespaces tx) ns = Some snap \<Longrightarrow> current_version_of db ns = base_version snap"
  unfolding unchallenged_def by blast

lemma buffered_version_agrees:
  assumes ok: "tx_ok db tx" and fresh: "unchallenged db tx" and r: "map_of (tx_checkpoints tx) k = Some r"
    and w: "version_at db k = Some w"
  shows "w = cr_version r"
proof -
  from ok r obtain snap where snap: "map_of (tx_namespaces tx) (ns_of k) = Some snap"
    and v: "map_of (checkpoint_versions snap) (snd (snd k)) = Some (cr_version r)" by (rule tx_ok_buffered)
  have "snapshot_ok db (ns_of k) snap" using ok snap by (rule tx_ok_snapshot)
  then have "map_of (checkpoint_versions snap) (snd (snd k)) = Some w"
    using unchallengedD [OF fresh snap] w by (simp add: snapshot_fresh)
  with v show ?thesis by simp
qed

text \<open>A flushed buffer: the counters move to the snapshots' versions and its checkpoints are stored under the
  versions it gave them.\<close>

lemma store_buffer_state:
  assumes ok: "tx_ok db tx" and fresh: "unchallenged db tx"
  shows "current_version_of (store_buffer now tx db) ns =
      (case map_of (tx_namespaces tx) ns of None \<Rightarrow> current_version_of db ns | Some snap \<Rightarrow> current_version snap)"
    and "version_at (store_buffer now tx db) k =
      (case map_of (tx_checkpoints tx) k of None \<Rightarrow> version_at db k | Some r \<Rightarrow> Some (cr_version r))"
proof -
  have dis: "distinct (map fst (tx_namespaces tx))" and own: "list_all (\<lambda>(k, r). k = checkpoint_key r) (tx_checkpoints tx)"
    using ok by (simp_all add: tx_ok_def buffer_bounded_def table_ok_def)
  let ?db1 = "fold (upsert_checkpoint now) (map snd (tx_checkpoints tx)) db"
  let ?db2 = "fold upsert_write (map snd (tx_writes tx)) ?db1"
  have w: "current_version_of (fold upsert_write ws d) = current_version_of d"
    "db_checkpoints (fold upsert_write ws d) = db_checkpoints d" for ws d
    by (induction ws arbitrary: d) simp_all
  note sorted = map_of_sorted_namespaces [OF dis]
  show "current_version_of (store_buffer now tx db) ns =
      (case map_of (tx_namespaces tx) ns of None \<Rightarrow> current_version_of db ns | Some snap \<Rightarrow> current_version snap)"
    by (simp add: store_buffer_def Let_def fold_set_version(1) [OF sorted(2)] sorted(1) w
        fold_upsert_checkpoint_tables split: option.split)
  have "version_at (store_buffer now tx db) k = version_at ?db1 k"
    by (simp add: store_buffer_def Let_def version_at_def fold_set_version(2) [OF sorted(2)] w)
  also have "\<dots> = (case version_at db k of Some v \<Rightarrow> Some v
      | None \<Rightarrow> map_option cr_version (map_of (tx_checkpoints tx) k))"
    unfolding fold_upsert_checkpoint map_of_own_key [OF own] ..
  also have "\<dots> = (case map_of (tx_checkpoints tx) k of None \<Rightarrow> version_at db k | Some r \<Rightarrow> Some (cr_version r))"
  proof (cases "map_of (tx_checkpoints tx) k")
    case (Some r)
    with buffered_version_agrees [OF ok fresh this] show ?thesis by (auto split: option.split)
  qed (simp split: option.split)
  finally show "version_at (store_buffer now tx db) k =
      (case map_of (tx_checkpoints tx) k of None \<Rightarrow> version_at db k | Some r \<Rightarrow> Some (cr_version r))" .
qed

lemma flush_cases:
  assumes db: "db_ok db" and ok: "tx_ok db tx" and res: "flush_transaction now tx db = (db', q)"
  shows "q = Inr () \<and> unchallenged db tx \<and>
      (\<exists>db1. current_version_of db1 = current_version_of db \<and> db_checkpoints db1 = db_checkpoints db \<and>
         db_writes db1 = db_writes db \<and> db' = store_buffer now tx db1)
    \<or> (\<exists>e. q = Inl e) \<and> db' = db"
proof -
  consider "\<exists>e. q = Inl e" "db' = db"
    | db1 where "check_namespaces (sorted_namespaces tx) db = Inr db1" "q = Inr ()" "db' = store_buffer now tx db1"
    using res by (auto simp: flush_transaction_def split: sum.splits if_splits)
  then show ?thesis
  proof cases
    case 2
    have dis: "distinct (map fst (tx_namespaces tx))" using ok by (simp add: tx_ok_def buffer_bounded_def)
    have snap: "snapshot_ok db ns snap" if "(ns, snap) \<in> set (sorted_namespaces tx)" for ns snap
      using that ok dis map_of_sorted_namespaces(3) [OF dis] by (blast intro: tx_ok_snapshot map_of_is_SomeI)
    have eff: "current_version_of db1 = current_version_of db \<and> db_checkpoints db1 = db_checkpoints db \<and>
        db_writes db1 = db_writes db \<and>
        (\<forall>(ns, snap) \<in> set (sorted_namespaces tx). current_version_of db ns = base_version snap)"
      using 2(1)
    proof (rule check_namespaces_effect)
      show "\<forall>(ns, snap) \<in> set (sorted_namespaces tx). base_version snap \<le> current_version_of db ns"
        using snap by (auto simp: snapshot_ok_def)
      show "\<forall>ns. 0 \<le> current_version_of db ns" using db_ok_versions(1) [OF db] by blast
      show "\<forall>(ns, snap) \<in> set (sorted_namespaces tx). 0 \<le> base_version snap"
        using snap by (auto simp: snapshot_ok_def)
    qed
    then have "unchallenged db tx"
      using map_of_sorted_namespaces(3) [OF dis] unfolding unchallenged_def by (blast dest: map_of_SomeD)
    with 2 eff show ?thesis by blast
  qed blast
qed

text \<open>Storing a fresh buffer keeps the tables consistent.\<close>

lemma store_buffer_known:
  assumes ok: "tx_ok db tx" and fresh: "unchallenged db tx"
    and at: "version_at (store_buffer now tx db) k = Some v" "map_of (tx_namespaces tx) (ns_of k) = Some s"
  shows "map_of (checkpoint_versions s) (snd (snd k)) = Some v"
proof (cases "map_of (tx_checkpoints tx) k")
  case None
  with at(1) have "version_at db k = Some v" by (simp add: store_buffer_state [OF ok fresh])
  with tx_ok_snapshot [OF ok at(2)] unchallengedD [OF fresh at(2)] show ?thesis by (simp add: snapshot_fresh)
next
  case (Some r)
  with ok obtain s' where "map_of (tx_namespaces tx) (ns_of k) = Some s'"
    "map_of (checkpoint_versions s') (snd (snd k)) = Some (cr_version r)" by (blast elim: tx_ok_buffered)
  with at Some show ?thesis by (simp add: store_buffer_state [OF ok fresh])
qed

lemma store_buffer_outside:
  assumes ok: "tx_ok db tx" and fresh: "unchallenged db tx" and "map_of (tx_namespaces tx) (ns_of k) = None"
  shows "version_at (store_buffer now tx db) k = version_at db k"
  using assms(3) by (auto simp: store_buffer_state [OF ok fresh] split: option.split elim: tx_ok_buffered [OF ok])

lemma store_buffer_tables:
  assumes db: "db_ok db" and ok: "tx_ok db tx"
  shows "table_ok checkpoint_key (db_checkpoints (store_buffer now tx db))"
    and "table_ok write_key (db_writes (store_buffer now tx db))"
proof -
  have tabs: "table_ok checkpoint_key (db_checkpoints db)" "table_ok write_key (db_writes db)"
    and dis: "distinct (map fst (tx_namespaces tx))"
    using db ok by (simp_all add: db_ok_def tx_ok_def buffer_bounded_def)
  note sorted = map_of_sorted_namespaces(2) [OF dis]
  have w: "db_checkpoints (fold upsert_write ws d) = db_checkpoints d" for ws d
    by (induction ws arbitrary: d) simp_all
  show "table_ok checkpoint_key (db_checkpoints (store_buffer now tx db))"
    using tabs by (simp add: store_buffer_def Let_def fold_set_version(2) [OF sorted] w fold_upsert_checkpoint_tables)
  show "table_ok write_key (db_writes (store_buffer now tx db))"
    using tabs by (simp add: store_buffer_def Let_def fold_set_version(3) [OF sorted] fold_upsert_write(1)
        fold_upsert_checkpoint_tables)
qed

lemma store_buffer_unique:
  assumes db: "db_ok db" and ok: "tx_ok db tx" and fresh: "unchallenged db tx"
    and vk: "version_at (store_buffer now tx db) k = Some v" and vl: "version_at (store_buffer now tx db) l = Some v"
    and ns: "ns_of k = ns_of l"
  shows "k = l"
proof (cases "map_of (tx_namespaces tx) (ns_of k)")
  case None
  have "version_at db k = Some v" using vk store_buffer_outside [OF ok fresh None] by simp
  moreover have "version_at db l = Some v" using vl store_buffer_outside [OF ok fresh, of l] None ns by simp
  ultimately show ?thesis using ns by (rule db_ok_versions(4) [OF db])
next
  case (Some s)
  have "map_of (checkpoint_versions s) (snd (snd k)) = Some v"
    and "map_of (checkpoint_versions s) (snd (snd l)) = Some v"
    using store_buffer_known [OF ok fresh vk Some] store_buffer_known [OF ok fresh vl, of s] Some ns by simp_all
  with tx_ok_snapshot [OF ok Some] have "snd (snd k) = snd (snd l)" unfolding snapshot_ok_def by blast
  with ns show ?thesis by (simp add: ns_of_def prod_eq_iff)
qed

lemma store_buffer_advances:
  assumes ok: "tx_ok db tx" and fresh: "unchallenged db tx"
  shows "advances db (store_buffer now tx db)"
  unfolding advances_def
proof (intro conjI allI impI)
  let ?db' = "store_buffer now tx db"
  note state = store_buffer_state [OF ok fresh]
  show "current_version_of db ns \<le> current_version_of ?db' ns" for ns
    using unchallengedD [OF fresh, of ns] tx_ok_snapshot [OF ok, of ns]
    by (auto simp: state snapshot_ok_def split: option.split)
  show "version_at ?db' k = version_at db k"
    if "current_version_of db (ns_of k) = current_version_of ?db' (ns_of k)" for k
  proof (cases "map_of (tx_checkpoints tx) k")
    case (Some r)
    then obtain s where s: "map_of (tx_namespaces tx) (ns_of k) = Some s"
      and v: "map_of (checkpoint_versions s) (snd (snd k)) = Some (cr_version r)"
      using ok Some by (blast elim: tx_ok_buffered)
    have "current_version s = base_version s" using that s unchallengedD [OF fresh s] by (simp add: state)
    moreover have "cr_version r \<le> current_version s" using tx_ok_snapshot [OF ok s] v by (auto simp: snapshot_ok_def)
    ultimately have "version_at db k = Some (cr_version r)"
      using tx_ok_snapshot [OF ok s] v unchallengedD [OF fresh s] by (simp add: snapshot_fresh)
    with Some show ?thesis by (simp add: state)
  qed (simp add: state)
qed

lemma store_buffer_ok:
  assumes db: "db_ok db" and ok: "tx_ok db tx" and fresh: "unchallenged db tx"
  shows "db_ok (store_buffer now tx db)" and "advances db (store_buffer now tx db)"
proof -
  let ?db' = "store_buffer now tx db"
  note state = store_buffer_state [OF ok fresh]
  show "db_ok ?db'"
  proof (rule db_okI)
    show "0 \<le> current_version_of ?db' ns" for ns
      using db_ok_versions(1) [OF db, of ns] tx_ok_snapshot [OF ok, of ns]
      by (auto simp: state snapshot_ok_def split: option.split)
    show "1 \<le> v \<and> v \<le> current_version_of ?db' (ns_of k)" if v: "version_at ?db' k = Some v" for k v
    proof (cases "map_of (tx_namespaces tx) (ns_of k)")
      case None
      with v store_buffer_outside [OF ok fresh None] db_ok_versions(2,3) [OF db] show ?thesis by (simp add: state)
    next
      case (Some s)
      with store_buffer_known [OF ok fresh v Some] tx_ok_snapshot [OF ok Some] show ?thesis
        by (simp add: state snapshot_ok_def)
    qed
  qed (use store_buffer_tables [OF db ok] store_buffer_unique [OF db ok fresh] in blast)+
  show "advances db ?db'" using ok fresh by (rule store_buffer_advances)
qed

section \<open>What a flush writes\<close>

text \<open>The columns of a checkpoint row that a write sets and a read returns.\<close>

definition contents :: "'r checkpoint_record_scheme \<Rightarrow> ustring \<times> typed_blob \<times> typed_blob" where
  "contents r = (cr_parent_checkpoint_id r, (cr_checkpoint_type r, cr_checkpoint_blob r),
     (cr_metadata_type r, cr_metadata_blob r))"

lemma upsert_other:
  "k \<noteq> checkpoint_key r \<Longrightarrow> map_of (db_checkpoints (upsert_checkpoint now r db)) k = map_of (db_checkpoints db) k"
  by (simp add: upsert_checkpoint_def Let_def)

lemma fold_upsert_other:
  "k \<notin> checkpoint_key ` set rs \<Longrightarrow>
     map_of (db_checkpoints (fold (upsert_checkpoint now) rs db)) k = map_of (db_checkpoints db) k"
  by (induction rs arbitrary: db) (simp_all add: upsert_other)

lemma upsert_contents:
  "\<exists>row. map_of (db_checkpoints (upsert_checkpoint now r db)) (checkpoint_key r) = Some row \<and> contents row = contents r"
  by (simp add: upsert_checkpoint_def Let_def contents_def checkpoint_record.defs split: option.split)

lemma fold_upsert_contents:
  assumes "distinct (map checkpoint_key rs)" and "r \<in> set rs"
  shows "\<exists>row. map_of (db_checkpoints (fold (upsert_checkpoint now) rs db)) (checkpoint_key r) = Some row \<and>
    contents row = contents r"
  using assms
proof (induction rs arbitrary: db)
  case (Cons a rs)
  show ?case
  proof (cases "r = a")
    case True
    with Cons.prems have "checkpoint_key r \<notin> checkpoint_key ` set rs" by simp
    with True upsert_contents [of now r db] show ?thesis by (simp add: fold_upsert_other)
  next
    case False
    with Cons show ?thesis by simp
  qed
qed simp

lemma store_buffer_rows:
  assumes "tx_ok db tx"
  shows "map_of (tx_checkpoints tx) k = None \<Longrightarrow>
      map_of (db_checkpoints (store_buffer now tx db)) k = map_of (db_checkpoints db) k"
    and "map_of (tx_checkpoints tx) k = Some r \<Longrightarrow>
      \<exists>row. map_of (db_checkpoints (store_buffer now tx db)) k = Some row \<and> contents row = contents r"
proof -
  have dis: "distinct (map fst (tx_namespaces tx))" and tab: "table_ok checkpoint_key (tx_checkpoints tx)"
    using assms by (simp_all add: tx_ok_def buffer_bounded_def)
  have own: "map (\<lambda>r. (checkpoint_key r, r)) (map snd (tx_checkpoints tx)) = tx_checkpoints tx"
    using tab by (intro map_of_own_key) (simp add: table_ok_def)
  have keys: "map checkpoint_key (map snd (tx_checkpoints tx)) = map fst (tx_checkpoints tx)"
    using arg_cong [OF own, of "map fst"] by (simp add: comp_def)
  have w: "db_checkpoints (fold upsert_write ws d) = db_checkpoints d" for ws d
    by (induction ws arbitrary: d) simp_all
  have rows: "db_checkpoints (store_buffer now tx db)
      = db_checkpoints (fold (upsert_checkpoint now) (map snd (tx_checkpoints tx)) db)"
    by (simp add: store_buffer_def Let_def fold_set_version(2) [OF map_of_sorted_namespaces(2) [OF dis]] w)
  show "map_of (db_checkpoints (store_buffer now tx db)) k = map_of (db_checkpoints db) k"
    if "map_of (tx_checkpoints tx) k = None"
  proof -
    have "k \<notin> set (map checkpoint_key (map snd (tx_checkpoints tx)))"
      using that unfolding keys map_of_eq_None_iff by simp
    then show ?thesis unfolding rows by (simp only: fold_upsert_other set_map simp_thms)
  qed
  show "\<exists>row. map_of (db_checkpoints (store_buffer now tx db)) k = Some row \<and> contents row = contents r"
    if "map_of (tx_checkpoints tx) k = Some r"
  proof -
    have "distinct (map checkpoint_key (map snd (tx_checkpoints tx)))"
      using tab unfolding keys by (simp add: table_ok_def)
    moreover have "r \<in> set (map snd (tx_checkpoints tx))" using map_of_SomeD [OF that] by force
    ultimately show ?thesis
      using fold_upsert_contents [of "map snd (tx_checkpoints tx)" r now db] table_ok_key [OF tab that]
      unfolding rows by simp
  qed
qed

lemma map_of_rev: "distinct (map fst al) \<Longrightarrow> map_of (rev al) = map_of al"
  by (rule map_of_inject_set [THEN iffD2]) (simp_all add: rev_map [symmetric])

lemma fold_upsert_writes:
  assumes "table_ok write_key (db_writes db)" and "list_all (\<lambda>(k, w). k = write_key w) ws"
  shows "map_of (db_writes (fold upsert_write (map snd ws) db)) = map_of (db_writes db) ++ map_of (rev ws)"
  using assms
proof (induction ws arbitrary: db)
  case (Cons kw ws)
  obtain k w where kw: "kw = (k, w)" by fastforce
  with Cons.prems have k: "k = write_key w" by simp
  show ?case
    using Cons.IH [of "upsert_write w db"] Cons.prems kw k
    by (simp add: upsert_write_table_ok upsert_write_lookup) (auto simp: fun_eq_iff map_add_def split: option.split)
qed simp

lemma store_buffer_writes:
  assumes db: "table_ok write_key (db_writes db)" and tx: "table_ok write_key (tx_writes tx)"
    and dis: "distinct (map fst (tx_namespaces tx))"
  shows "map_of (db_writes (store_buffer now tx db)) = map_of (db_writes db) ++ map_of (tx_writes tx)"
    and "table_ok write_key (db_writes (store_buffer now tx db))"
proof -
  have own: "list_all (\<lambda>(k, w). k = write_key w) (tx_writes tx)" "distinct (map fst (tx_writes tx))"
    using tx by (simp_all add: table_ok_def)
  have eq: "db_writes (store_buffer now tx db) = db_writes (fold upsert_write (map snd (tx_writes tx))
      (fold (upsert_checkpoint now) (map snd (tx_checkpoints tx)) db))" (is "_ = db_writes (fold _ _ ?d)")
    by (simp add: store_buffer_def Let_def fold_set_version(3) [OF map_of_sorted_namespaces(2) [OF dis]])
  have "db_writes ?d = db_writes db" by (rule fold_upsert_checkpoint_tables(2))
  then show "map_of (db_writes (store_buffer now tx db)) = map_of (db_writes db) ++ map_of (tx_writes tx)"
    and "table_ok write_key (db_writes (store_buffer now tx db))"
    using fold_upsert_writes [of ?d, OF _ own(1)] fold_upsert_write(1) [of ?d] db map_of_rev [OF own(2)]
    by (simp_all add: eq)
qed

text \<open>
  The tables hold a buffer over what they held before: each buffered checkpoint with its version, parent, blobs and
  types, each buffered write as it was buffered, the counters of the buffer's namespaces where it left them, and
  everything else unchanged.
\<close>

definition stores :: "transaction \<Rightarrow> database \<Rightarrow> database \<Rightarrow> bool" where
  "stores tx db db' \<longleftrightarrow>
     (\<forall>k. case map_of (tx_checkpoints tx) k of
          None \<Rightarrow> map_of (db_checkpoints db') k = map_of (db_checkpoints db) k
        | Some r \<Rightarrow> (case map_of (db_checkpoints db') k of
              None \<Rightarrow> False
            | Some row \<Rightarrow> cr_version row = cr_version r \<and> contents row = contents r)) \<and>
     (\<forall>k. map_of (db_writes db') k =
        (case map_of (tx_writes tx) k of None \<Rightarrow> map_of (db_writes db) k | Some w \<Rightarrow> Some w)) \<and>
     (\<forall>ns. current_version_of db' ns =
        (case map_of (tx_namespaces tx) ns of None \<Rightarrow> current_version_of db ns | Some snap \<Rightarrow> current_version snap))"

lemma stores_row:
  assumes "stores tx db db'" and "map_of (tx_checkpoints tx) k = Some r"
  obtains row where "map_of (db_checkpoints db') k = Some row" and "cr_version row = cr_version r"
    and "contents row = contents r"
proof -
  have "case map_of (db_checkpoints db') k of None \<Rightarrow> False
      | Some row \<Rightarrow> cr_version row = cr_version r \<and> contents row = contents r"
    using assms(1) [unfolded stores_def, THEN conjunct1, rule_format, of k] unfolding assms(2) option.case .
  with that show thesis by (cases "map_of (db_checkpoints db') k") simp_all
qed

lemma store_buffer_stores:
  assumes db: "db_ok db" and ok: "tx_ok db tx" and fresh: "unchallenged db tx"
  shows "stores tx db (store_buffer now tx db)"
  unfolding stores_def
proof (intro conjI allI)
  let ?db' = "store_buffer now tx db"
  show "case map_of (tx_checkpoints tx) k of
      None \<Rightarrow> map_of (db_checkpoints ?db') k = map_of (db_checkpoints db) k
    | Some r \<Rightarrow> (case map_of (db_checkpoints ?db') k of None \<Rightarrow> False
        | Some row \<Rightarrow> cr_version row = cr_version r \<and> contents row = contents r)" for k
  proof (cases "map_of (tx_checkpoints tx) k")
    case None
    with store_buffer_rows(1) [OF ok, of k] show ?thesis by simp
  next
    case (Some r)
    from store_buffer_rows(2) [OF ok Some, of now] obtain row where
        row: "map_of (db_checkpoints ?db') k = Some row" "contents row = contents r" by blast
    moreover have "cr_version row = cr_version r"
      using store_buffer_state(2) [OF ok fresh, of now k] by (simp add: version_at_def row Some)
    ultimately show ?thesis by (simp add: Some)
  qed
  have "table_ok write_key (db_writes db)" "table_ok write_key (tx_writes tx)" "distinct (map fst (tx_namespaces tx))"
    using db ok by (simp_all add: db_ok_def tx_ok_def buffer_bounded_def)
  from store_buffer_writes(1) [OF this, of now]
  show "map_of (db_writes ?db') k =
      (case map_of (tx_writes tx) k of None \<Rightarrow> map_of (db_writes db) k | Some w \<Rightarrow> Some w)" for k
    by (simp add: map_add_def)
  show "current_version_of ?db' ns =
      (case map_of (tx_namespaces tx) ns of None \<Rightarrow> current_version_of db ns | Some snap \<Rightarrow> current_version snap)" for ns
    by (rule store_buffer_state(1) [OF ok fresh])
qed

section \<open>Preservation\<close>

lemma set_buffer_simps [simp]:
  "tables (set_buffer i tx s) = tables s"
  "registry (set_buffer i tx s) = registry s"
  "buffers (set_buffer i tx s) = (buffers s)[i := tx]"
  by (simp_all add: set_buffer_def)

lemma nth_update_if: "j < length xs \<Longrightarrow> xs[i := x] ! j = (if i = j then x else xs ! j)"
  by (auto simp: nth_list_update)

lemma tx_ok_phase [simp]: "tx_ok db (tx\<lparr>tx_phase := p\<rparr>) \<longleftrightarrow> tx_ok db tx"
  by (simp add: tx_ok_def buffer_bounded_def buffered_payload_def buffer_versioned_def)

lemma saver_ok_db: "saver_ok s \<Longrightarrow> db_ok (tables s)"
  by (simp add: saver_ok_def)

lemma saver_ok_buffer: "saver_ok s \<Longrightarrow> i < length (buffers s) \<Longrightarrow> tx_phase (buffers s ! i) = Open \<Longrightarrow>
    tx_ok (tables s) (buffers s ! i)"
  by (simp add: saver_ok_def)

lemma set_tables_ok:
  assumes "saver_ok s" and "db_ok db" and "advances (tables s) db"
  shows "saver_ok (s\<lparr>tables := db\<rparr>)"
  using assms by (auto simp: saver_ok_def registered_def intro: tx_advances)

lemma set_buffer_ok:
  assumes "saver_ok s" and "same_buffer (buffers s ! i) tx" and "tx_phase tx = Open \<Longrightarrow> tx_ok (tables s) tx"
  shows "saver_ok (set_buffer i tx s)"
  using assms by (auto simp: saver_ok_def registered_def same_buffer_def nth_update_if)

lemma close_transaction_ok:
  assumes "saver_ok s"
  shows "saver_ok (close_transaction i s)"
proof -
  have "distinct (map fst (filter P (registry s)))" for P
    using assms by (auto simp: saver_ok_def registered_def distinct_map intro: inj_on_subset)
  then show ?thesis
    using assms by (auto simp: saver_ok_def registered_def close_transaction_def Let_def nth_update_if)
qed

lemma enter_ok:
  assumes ok: "saver_ok s"
  shows "saver_ok (fst (enter_transaction active thread_id execution_id s))"
proof -
  let ?s = "\<lambda>key. s\<lparr>buffers := buffers s @ [new_transaction (fst key) (snd key)],
    registry := (key, length (buffers s)) # registry s\<rparr>"
  have "tx_ok (tables s) (new_transaction t e)" for t e
    by (simp add: tx_ok_def buffer_bounded_def buffer_versioned_def buffered_payload_def new_transaction_def
        max_transaction_payload_def)
  moreover have "tx_phase (new_transaction t e) = Open" "tx_thread_id (new_transaction t e) = t"
    "tx_execution_id (new_transaction t e) = e" for t e by (simp_all add: new_transaction_def)
  ultimately have "saver_ok (?s key)" if "map_of (registry s) key = None" for key
    using ok that
    by (auto simp: saver_ok_def registered_def nth_append less_Suc_eq map_of_eq_None_iff image_iff dest: less_imp_le)
  with ok show ?thesis
    by (auto simp: enter_transaction_def split: sum.split option.split)
qed

lemma put_ok:
  assumes ok: "saver_ok s"
  shows "saver_ok (fst (put_checkpoint lg active now cfg cp metadata s))"
proof -
  have direct: "saver_ok (s\<lparr>tables := db\<rparr>)" if "put_direct now r (tables s) = (db, v)" for r db v
    using put_direct_effect [OF saver_ok_db [OF ok] that] ok by (simp add: set_tables_ok)
  have buffered: "saver_ok (set_buffer i tx s)" if "buffer_checkpoint (tables s) r (buffers s ! i) = (tx, q)" for i r tx q
  proof (cases "i < length (buffers s) \<and> tx_phase (buffers s ! i) = Open")
    case True
    with ok have "tx_ok (tables s) (buffers s ! i)" by (simp add: saver_ok_buffer)
    from buffer_checkpoint_effect [OF saver_ok_db [OF ok] this that] show ?thesis
      using ok by (simp add: set_buffer_ok)
  next
    case False
    then have "tx = buffers s ! i \<or> \<not> i < length (buffers s)"
      using that by (auto simp: buffer_checkpoint_def ensure_open_def)
    then show ?thesis using ok by (auto simp: set_buffer_def saver_ok_def registered_def)
  qed
  show ?thesis
    using ok direct buffered by (auto simp: put_checkpoint_def split: sum.split option.split prod.split)
qed

lemma put_writes_ok:
  assumes ok: "saver_ok s"
  shows "saver_ok (fst (put_writes lg active cfg ws task_id task_path s))"
proof -
  have direct: "saver_ok (s\<lparr>tables := put_writes_direct rs (tables s)\<rparr>)" for rs
    using put_writes_direct_effect [OF saver_ok_db [OF ok]] ok by (simp add: set_tables_ok)
  have buffered: "saver_ok (set_buffer i tx s)"
    if "table_ok write_key rs" "buffer_writes rs (buffers s ! i) = (tx, q)" for i rs tx q
  proof (cases "i < length (buffers s) \<and> tx_phase (buffers s ! i) = Open")
    case True
    with ok have "tx_ok (tables s) (buffers s ! i)" by (simp add: saver_ok_buffer)
    from buffer_writes_effect [OF this that] show ?thesis
      using ok by (simp add: set_buffer_ok)
  next
    case False
    then have "tx = buffers s ! i \<or> \<not> i < length (buffers s)"
      using that by (auto simp: buffer_writes_def ensure_open_def)
    then show ?thesis using ok by (auto simp: set_buffer_def saver_ok_def registered_def)
  qed
  show ?thesis
  proof (cases "make_writes lg (configurable cfg) task_id task_path 0 ws []")
    case (Inl e)
    then show ?thesis using ok by (simp add: put_writes_def)
  next
    case (Inr rs)
    then have "table_ok write_key rs" by (rule make_writes_ok) simp
    note this [THEN buffered]
    with Inr ok direct show ?thesis
      by (simp add: put_writes_def split: sum.split option.split prod.split list.split)
  qed
qed

lemma commit_effect:
  assumes ok: "saver_ok s" and i: "i < length (buffers s)" and res: "commit_transaction now i s = (s', q)"
  shows "saver_ok s' \<and> advances (tables s) (tables s') \<and> (\<forall>e. q = Inl e \<longrightarrow> tables s' = tables s)"
proof (cases "tx_phase (buffers s ! i) = Open")
  case False
  with res ok show ?thesis
    by (auto simp: commit_transaction_def ensure_open_def close_transaction_ok)
      (simp_all add: close_transaction_def Let_def)
next
  case True
  let ?tx = "(buffers s ! i)\<lparr>tx_phase := Sealed\<rparr>"
  have tx: "tx_ok (tables s) ?tx"
    using saver_ok_buffer [OF ok i True] by simp
  obtain db where flush: "flush_transaction now ?tx (tables s) = (db, q)" and s': "s' = close_transaction i (s\<lparr>tables := db\<rparr>)"
    using res True by (auto simp: commit_transaction_def ensure_open_def split: prod.splits)
  have db: "db_ok db \<and> advances (tables s) db \<and> (\<forall>e. q = Inl e \<longrightarrow> db = tables s)"
    using flush_cases [OF saver_ok_db [OF ok] tx flush]
  proof (elim disjE exE conjE)
    fix db1
    assume q: "q = Inr ()" and fresh: "unchallenged (tables s) ?tx" and cur: "current_version_of db1 = current_version_of (tables s)"
      and cps: "db_checkpoints db1 = db_checkpoints (tables s)" and ws: "db_writes db1 = db_writes (tables s)"
      and db: "db = store_buffer now ?tx db1"
    have at: "version_at db1 = version_at (tables s)" using cps by (simp add: fun_eq_iff version_at_def)
    have tabs: "table_ok checkpoint_key (db_checkpoints db1)" "table_ok write_key (db_writes db1)"
      using saver_ok_db [OF ok] by (simp_all add: cps ws db_ok_def)
    note db1 = db_ok_same [OF saver_ok_db [OF ok] tabs at cur]
    have tx1: "tx_ok db1 ?tx" using tx db1(2) by (rule tx_advances)
    have fresh1: "unchallenged db1 ?tx" using fresh by (simp add: unchallenged_def cur)
    show ?thesis
      using store_buffer_ok [OF db1(1) tx1 fresh1] db1(2) q db by (auto intro: advances_trans)
  next
    fix e
    assume "q = Inl e" "db = tables s"
    then show ?thesis using saver_ok_db [OF ok] by simp
  qed
  have "tables s' = db" by (simp add: s' close_transaction_def Let_def)
  with db ok show ?thesis by (auto simp: s' intro!: close_transaction_ok set_tables_ok)
qed

text \<open>Deleting a thread.\<close>

lemma delete_thread_state:
  "current_version_of (delete_thread th db) ns = (if fst ns = th then 0 else current_version_of db ns)"
  "version_at (delete_thread th db) k = (if fst k = th then None else version_at db k)"
proof -
  have look: "map_of (filter (\<lambda>(k, v). fst k \<noteq> th) al) k = (if fst k = th then None else map_of al k)"
    for al :: "((ustring \<times> 'k) \<times> 'v) list" and k
    by (induction al) auto
  show "current_version_of (delete_thread th db) ns = (if fst ns = th then 0 else current_version_of db ns)"
    "version_at (delete_thread th db) k = (if fst k = th then None else version_at db k)"
    by (simp_all add: delete_thread_def current_version_of_def version_at_def look)
qed

lemma delete_thread_ok:
  assumes db: "db_ok db"
  shows "db_ok (delete_thread th db)"
proof (rule db_okI)
  have tab: "table_ok key (filter P al)" if "table_ok key al" for key al and P :: "'k \<times> 'v \<Rightarrow> bool"
    using that by (auto simp: table_ok_def list_all_iff distinct_map intro: inj_on_subset)
  show "table_ok checkpoint_key (db_checkpoints (delete_thread th db))"
    "table_ok write_key (db_writes (delete_thread th db))"
    using db by (simp_all add: delete_thread_def db_ok_def tab)
  show "0 \<le> current_version_of (delete_thread th db) ns" for ns
    using db_ok_versions(1) [OF db] by (simp add: delete_thread_state)
  show "1 \<le> v \<and> v \<le> current_version_of (delete_thread th db) (ns_of k)"
    if "version_at (delete_thread th db) k = Some v" for k v
    using that db_ok_versions(2,3) [OF db] by (auto simp: delete_thread_state ns_of_def split: if_splits)
  show "k = l" if "version_at (delete_thread th db) k = Some v" "version_at (delete_thread th db) l = Some v"
    "ns_of k = ns_of l" for k l v
    using that db_ok_versions(4) [OF db] by (simp add: delete_thread_state split: if_splits)
qed

lemma unobservedD:
  assumes "unobserved th s" and "i < length (buffers s)" and "tx_phase (buffers s ! i) = Open"
    and "map_of (tx_namespaces (buffers s ! i)) ns = Some snap"
  shows "fst ns \<noteq> th"
proof -
  have "(ns, snap) \<in> set (tx_namespaces (buffers s ! i))" using assms(4) by (rule map_of_SomeD)
  then show ?thesis using assms(1-3) by (force simp: unobserved_def list_all_length)
qed

lemma delete_step_ok:
  assumes ok: "saver_ok s" and un: "unobserved th s"
  shows "saver_ok (s\<lparr>tables := delete_thread th (tables s)\<rparr>)"
proof -
  have "tx_ok (delete_thread th (tables s)) (buffers s ! i)"
    if i: "i < length (buffers s)" "tx_phase (buffers s ! i) = Open" for i
  proof -
    have "snapshot_ok (delete_thread th (tables s)) ns snap"
      if "map_of (tx_namespaces (buffers s ! i)) ns = Some snap" for ns snap
      using tx_ok_snapshot [OF saver_ok_buffer [OF ok i] that] unobservedD [OF un i that]
      by (simp add: snapshot_ok_def delete_thread_state)
    then show ?thesis using saver_ok_buffer [OF ok i] by (simp add: tx_ok_def)
  qed
  then show ?thesis using ok delete_thread_ok by (simp add: saver_ok_def registered_def)
qed

lemma saver_step_ok: "saver_step lg s t \<Longrightarrow> saver_ok s \<Longrightarrow> saver_ok t"
proof (induction rule: saver_step.induct)
  case (commit i s now)
  then show ?case using commit_effect [of s i now] by (cases "commit_transaction now i s") auto
qed (auto simp: enter_ok put_ok put_writes_ok abort_transaction_def close_transaction_ok delete_step_ok)

interpretation checkpoints: safe_system saver_init "saver_step lg" saver_ok for lg
proof
  show "saver_init s \<Longrightarrow> saver_ok s" for s by (simp add: saver_init_def saver_ok_def registered_def)
  show "saver_ok s \<Longrightarrow> saver_step lg s t \<Longrightarrow> saver_ok t" for s t by (rule saver_step_ok)
qed

section \<open>What a run leaves alone\<close>

text \<open>
  Along a run a buffer that is still open is the same buffer with the same bases, and in the namespaces it has a
  snapshot of the counter only grows, and nothing changes while it stays the same.
\<close>

definition advances_in :: "ns_key \<Rightarrow> database \<Rightarrow> database \<Rightarrow> bool" where
  "advances_in ns db db' \<longleftrightarrow>
     current_version_of db ns \<le> current_version_of db' ns \<and>
     (current_version_of db ns = current_version_of db' ns \<longrightarrow>
        (\<forall>k. ns_of k = ns \<longrightarrow> version_at db' k = version_at db k))"

lemma advances_in: "advances db db' \<Longrightarrow> advances_in ns db db'"
  unfolding advances_def advances_in_def by blast

lemma advances_in_trans: "advances_in ns a b \<Longrightarrow> advances_in ns b c \<Longrightarrow> advances_in ns a c"
  unfolding advances_in_def by (metis order_antisym order_trans)

definition grows :: "saver \<Rightarrow> saver \<Rightarrow> bool" where
  "grows s t \<longleftrightarrow>
     length (buffers s) \<le> length (buffers t) \<and>
     (\<forall>i < length (buffers s). tx_phase (buffers t ! i) = Open \<longrightarrow>
        tx_phase (buffers s ! i) = Open \<and> same_buffer (buffers s ! i) (buffers t ! i) \<and>
        (\<forall>ns \<in> dom (map_of (tx_namespaces (buffers s ! i))). advances_in ns (tables s) (tables t)))"

lemma growsD:
  assumes "grows s t" and "i < length (buffers s)" and "tx_phase (buffers t ! i) = Open"
  shows "i < length (buffers t)" and "tx_phase (buffers s ! i) = Open" and "same_buffer (buffers s ! i) (buffers t ! i)"
    and "map_of (tx_namespaces (buffers s ! i)) ns = Some snap \<Longrightarrow> advances_in ns (tables s) (tables t)"
  using assms unfolding grows_def by auto

lemma same_buffer_namespaces: "same_buffer a b \<Longrightarrow> dom (map_of (tx_namespaces a)) \<subseteq> dom (map_of (tx_namespaces b))"
  unfolding same_buffer_def by blast

lemma same_buffer_trans: "same_buffer a b \<Longrightarrow> same_buffer b c \<Longrightarrow> same_buffer a c"
  unfolding same_buffer_def by metis


lemma growsI:
  assumes "advances (tables s) (tables t)" and "length (buffers s) \<le> length (buffers t)"
    and "\<And>i. i < length (buffers s) \<Longrightarrow> tx_phase (buffers t ! i) = Open \<Longrightarrow>
      tx_phase (buffers s ! i) = Open \<and> same_buffer (buffers s ! i) (buffers t ! i)"
  shows "grows s t"
  using assms advances_in by (simp add: grows_def)

lemma grows_refl [simp]: "grows s s"
  by (rule growsI) (simp_all add: advances_refl)

lemma grows_trans:
  assumes "grows s t" and "grows t u"
  shows "grows s u"
  unfolding grows_def
proof (intro conjI allI impI ballI)
  show "length (buffers s) \<le> length (buffers u)" using assms by (simp add: grows_def)
  fix i assume i: "i < length (buffers s)" and u: "tx_phase (buffers u ! i) = Open"
  have it: "i < length (buffers t)" using assms(1) i by (simp add: grows_def)
  note tu = growsD [OF assms(2) it u]
  note st = growsD [OF assms(1) i tu(2)]
  show "tx_phase (buffers s ! i) = Open" "same_buffer (buffers s ! i) (buffers u ! i)"
    using st(2,3) tu(3) by (auto intro: same_buffer_trans)
  fix ns assume "ns \<in> dom (map_of (tx_namespaces (buffers s ! i)))"
  then show "advances_in ns (tables s) (tables u)"
    using st(4) tu(4) same_buffer_namespaces [OF st(3)] by (blast intro: advances_in_trans)
qed

lemma grows_tables: "advances (tables s) db \<Longrightarrow> grows s (s\<lparr>tables := db\<rparr>)"
  by (rule growsI) simp_all

lemma grows_buffer:
  assumes "i < length (buffers s) \<Longrightarrow> tx_phase (buffers s ! i) = Open \<Longrightarrow> same_buffer (buffers s ! i) tx"
    and "tx_phase (buffers s ! i) \<noteq> Open \<Longrightarrow> tx_phase tx \<noteq> Open"
  shows "grows s (set_buffer i tx s)"
  using assms
  by (cases "tx_phase (buffers s ! i) = Open") (auto simp: advances_refl nth_update_if intro!: growsI split: if_splits)

lemma grows_close: "grows s (close_transaction i s)"
  by (rule growsI) (auto simp: advances_refl close_transaction_def Let_def nth_update_if)

lemma grows_delete: "unobserved th s \<Longrightarrow> grows s (s\<lparr>tables := delete_thread th (tables s)\<rparr>)"
  unfolding grows_def
  by (auto simp: advances_in_def delete_thread_state ns_of_def dest: unobservedD)

lemma buffer_ops_closed:
  "buffer_checkpoint db r tx = (tx', q) \<Longrightarrow> tx_phase tx \<noteq> Open \<Longrightarrow> tx' = tx"
  "buffer_writes rs tx = (tx', q') \<Longrightarrow> tx_phase tx \<noteq> Open \<Longrightarrow> tx' = tx"
  by (auto simp: buffer_checkpoint_def buffer_writes_def ensure_open_def)

lemma put_grows:
  assumes ok: "saver_ok s"
  shows "grows s (fst (put_checkpoint lg active now cfg cp metadata s))"
proof -
  have "grows s (s\<lparr>tables := db\<rparr>)" if "put_direct now r (tables s) = (db, v)" for r db v
    using put_direct_effect(2) [OF saver_ok_db [OF ok] that] by (rule grows_tables)
  moreover have "grows s (set_buffer i tx s)" if "buffer_checkpoint (tables s) r (buffers s ! i) = (tx, q)" for i r tx q
    using buffer_checkpoint_effect [OF saver_ok_db [OF ok] saver_ok_buffer [OF ok] that] buffer_ops_closed(1) [OF that]
    by (intro grows_buffer) auto
  ultimately show ?thesis
    by (auto simp: put_checkpoint_def split: sum.split option.split prod.split)
qed

lemma put_writes_grows:
  assumes ok: "saver_ok s"
  shows "grows s (fst (put_writes lg active cfg ws task_id task_path s))"
proof -
  have direct: "grows s (s\<lparr>tables := put_writes_direct rs (tables s)\<rparr>)" for rs
    using put_writes_direct_effect(2) [OF saver_ok_db [OF ok]] by (rule grows_tables)
  have buffered: "grows s (set_buffer i tx s)"
    if "table_ok write_key rs" "buffer_writes rs (buffers s ! i) = (tx, q)" for i rs tx q
    using buffer_writes_effect [OF saver_ok_buffer [OF ok] that] buffer_ops_closed(2) [OF that(2)]
    by (intro grows_buffer) auto
  show ?thesis
  proof (cases "make_writes lg (configurable cfg) task_id task_path 0 ws []")
    case (Inl e)
    then show ?thesis by (simp add: put_writes_def)
  next
    case (Inr rs)
    then have "table_ok write_key rs" by (rule make_writes_ok) simp
    note this [THEN buffered]
    with Inr direct show ?thesis
      by (simp add: put_writes_def split: sum.split option.split prod.split list.split)
  qed
qed

lemma commit_closes:
  assumes "commit_transaction now i s = (s', q)"
  shows "buffers s' = (buffers s)[i := (buffers s ! i)\<lparr>tx_phase := Closed\<rparr>]"
  using assms by (auto simp: commit_transaction_def close_transaction_def Let_def split: sum.splits prod.splits)

lemma step_grows: "saver_step lg s t \<Longrightarrow> saver_ok s \<Longrightarrow> grows s t"
proof (induction rule: saver_step.induct)
  case (enter active s thread_id execution_id)
  then show ?case
    by (auto simp: enter_transaction_def nth_append advances_refl intro!: growsI split: sum.split option.split)
next
  case (commit i s now)
  obtain s' q where res: "commit_transaction now i s = (s', q)" by fastforce
  with commit commit_effect [of s i now s' q] commit_closes [OF res] show ?case
    by (intro growsI) (auto simp: nth_update_if)
qed (simp_all add: put_grows put_writes_grows grows_close grows_delete abort_transaction_def)

lemma run_grows: "(saver_step lg)\<^sup>*\<^sup>* s t \<Longrightarrow> saver_ok s \<Longrightarrow> grows s t \<and> saver_ok t"
proof (induction rule: rtranclp_induct)
  case (step t u)
  then show ?case by (meson grows_trans saver_step_ok step_grows)
qed simp

section \<open>A run\<close>

text \<open>One transaction that stores one checkpoint, for the witnesses.\<close>

definition example_langgraph :: "unit langgraph" where
  "example_langgraph =
     \<lparr>dumps_checkpoint = (\<lambda>c. Some ([1], [2, 3])), dumps_metadata = (\<lambda>m. Some ([1], [4])),
      dumps_value = (\<lambda>v. Some ([1], [5])), dumps_probe = (\<lambda>v. True),
      loads_checkpoint = (\<lambda>b. \<lparr>ckpt_id = JNull, channel_values = None, ckpt_rest = []\<rparr>),
      loads_metadata = (\<lambda>b. []), loads_value = (\<lambda>b. NoneValue), get_checkpoint_metadata = (\<lambda>c m. m),
      get_checkpoint_id = (\<lambda>c. None), writes_idx_map = (\<lambda>c. None), object_repr = (\<lambda>j. [])\<rparr>"

definition example_config :: config where
  "example_config = \<lparr>configurable = [(''thread_id'', JStr [65]), (''execution_id'', JStr [66])], config_rest = []\<rparr>"

definition example_checkpoint :: "unit checkpoint" where
  "example_checkpoint = \<lparr>ckpt_id = JStr [67], channel_values = None, ckpt_rest = []\<rparr>"

definition empty_saver :: saver where
  "empty_saver = \<lparr>tables = \<lparr>db_threads = [], db_checkpoints = [], db_writes = []\<rparr>, buffers = [], registry = []\<rparr>"

definition entered_saver :: saver where
  "entered_saver = fst (enter_transaction None [65] [66] empty_saver)"

definition written_saver :: saver where
  "written_saver = fst (put_checkpoint example_langgraph (Some 0) 0 example_config example_checkpoint [] entered_saver)"

lemma empty_saver_init: "saver_init empty_saver"
  by (simp add: saver_init_def empty_saver_def db_ok_def versions_bounded_def versions_unique_def version_at_def
      current_version_of_def)

lemma strip_letter [simp]: "strip [65] = [65]" "strip [66] = [66]"
  by (simp_all add: strip_def is_space_def)

lemma entered_saver_eq:
  "entered_saver = empty_saver\<lparr>buffers := [new_transaction [65] [66]], registry := [(([65], [66]), 0)]\<rparr>"
  by (simp add: entered_saver_def enter_transaction_def transaction_key_def empty_saver_def)

lemma example_prepared:
  "prepare_checkpoint example_langgraph example_config example_checkpoint [] =
     Inr \<lparr>cr_thread_id = [65], cr_checkpoint_ns = [], cr_checkpoint_id = [67], cr_parent_checkpoint_id = [],
       cr_execution_id = [66], cr_workflow_run_id = None, cr_agent_run_id = None, cr_version = 0,
       cr_checkpoint_type = [1], cr_checkpoint_blob = [2, 3], cr_metadata_type = [1], cr_metadata_blob = [4]\<rparr>"
  by (simp add: prepare_checkpoint_def example_langgraph_def example_config_def example_checkpoint_def str_at_def
      str_or_empty_def py_str_def optional_int_def Let_def)

definition example_buffer :: transaction where
  "example_buffer = (new_transaction [65] [66])
     \<lparr>tx_namespaces := [(([65], []), \<lparr>base_version = 0, current_version = 1, checkpoint_versions = [([67], 1)]\<rparr>)],
      tx_checkpoints := [(([65], [], [67]),
        \<lparr>cr_thread_id = [65], cr_checkpoint_ns = [], cr_checkpoint_id = [67], cr_parent_checkpoint_id = [],
         cr_execution_id = [66], cr_workflow_run_id = None, cr_agent_run_id = None, cr_version = 1,
         cr_checkpoint_type = [1], cr_checkpoint_blob = [2, 3], cr_metadata_type = [1], cr_metadata_blob = [4]\<rparr>)],
      tx_payload_bytes := 3\<rparr>"

lemma written_saver_eq: "written_saver = entered_saver\<lparr>buffers := [example_buffer]\<rparr>"
proof -
  have "transaction_for example_langgraph (Some 0) (Some (configurable example_config)) entered_saver = Inr (Some 0)"
    by (simp add: transaction_for_def example_config_def entered_saver_eq str_or_empty_def py_str_def new_transaction_def)
  then show ?thesis
    by (simp add: written_saver_def put_checkpoint_def example_prepared buffer_checkpoint_def entered_saver_eq
        empty_saver_def new_transaction_def ensure_open_def load_namespace_snapshot_def current_version_of_def
        assign_version_def ensure_capacity_def checkpoint_payload_def checkpoint_key_def set_buffer_def example_buffer_def
        max_transaction_checkpoints_def max_transaction_writes_def max_transaction_payload_def)
qed

lemma written_saver_reached: "(saver_step example_langgraph)\<^sup>*\<^sup>* empty_saver written_saver"
proof -
  have "saver_step example_langgraph empty_saver entered_saver"
    unfolding entered_saver_def by (rule saver_step.enter) (simp add: active_ok_def)
  moreover have "saver_step example_langgraph entered_saver written_saver"
    unfolding written_saver_def by (rule saver_step.put) (simp add: active_ok_def entered_saver_eq)
  ultimately show ?thesis by (meson rtranclp.simps)
qed

lemma written_saver_commits: "\<exists>u. commit_transaction 0 0 written_saver = (u, Inr ())"
  by (simp add: commit_transaction_def written_saver_eq entered_saver_eq empty_saver_def example_buffer_def
      new_transaction_def ensure_open_def flush_transaction_def sorted_namespaces_def current_version_of_def
      set_version_def writes_have_checkpoints_def)

section \<open>Consistency, isolation, atomicity\<close>

text \<open>
  C5: after any interleaving of transactions, buffered and direct writes, commits, aborts and deletions of threads that
  no open transaction has read, each row lies under its key and each key has one row, the checkpoints of a namespace
  carry distinct versions between 1 and its counter, no open buffer exceeds 256 checkpoints, 4096 writes or 16 MiB (and
  its byte count is exact), and no two open transactions belong to the same thread and execution.
\<close>

theorem checkpoint_store_stays_consistent:
  assumes "saver_init s" and "(saver_step lg)\<^sup>*\<^sup>* s t"
  shows "table_ok checkpoint_key (db_checkpoints (tables t)) \<and> table_ok write_key (db_writes (tables t)) \<and>
    versions_bounded (tables t) \<and> versions_unique (tables t) \<and>
    (\<forall>tx \<in> set (buffers t). tx_phase tx = Open \<longrightarrow>
       tx_payload_bytes tx = buffered_payload tx \<and> tx_payload_bytes tx \<le> 16777216 \<and>
       length (tx_checkpoints tx) \<le> 256 \<and> length (tx_writes tx) \<le> 4096) \<and>
    (\<forall>i j. i < length (buffers t) \<and> j < length (buffers t) \<and>
       tx_phase (buffers t ! i) = Open \<and> tx_phase (buffers t ! j) = Open \<and>
       tx_thread_id (buffers t ! i) = tx_thread_id (buffers t ! j) \<and>
       tx_execution_id (buffers t ! i) = tx_execution_id (buffers t ! j) \<longrightarrow> i = j)"
proof -
  have ok: "saver_ok t" using assms by (rule checkpoints.reachable_inv)
  have limits: "tx_payload_bytes tx = buffered_payload tx \<and> tx_payload_bytes tx \<le> 16777216 \<and>
      length (tx_checkpoints tx) \<le> 256 \<and> length (tx_writes tx) \<le> 4096"
    if "tx \<in> set (buffers t)" "tx_phase tx = Open" for tx
    using saver_ok_buffer [OF ok] that unfolding in_set_conv_nth
    by (auto simp: tx_ok_def buffer_bounded_def max_transaction_checkpoints_def max_transaction_writes_def
        max_transaction_payload_def)
  have single: "i = j"
    if "i < length (buffers t)" "j < length (buffers t)" "tx_phase (buffers t ! i) = Open"
      "tx_phase (buffers t ! j) = Open" "tx_thread_id (buffers t ! i) = tx_thread_id (buffers t ! j)"
      "tx_execution_id (buffers t ! i) = tx_execution_id (buffers t ! j)" for i j
  proof -
    let ?key = "(tx_thread_id (buffers t ! j), tx_execution_id (buffers t ! j))"
    have "(?key, i) \<in> set (registry t)" "(?key, j) \<in> set (registry t)" "distinct (map fst (registry t))"
      using ok that by (simp_all add: saver_ok_def registered_def) metis
    then show ?thesis by (simp add: eq_key_imp_eq_value)
  qed
  have "table_ok checkpoint_key (db_checkpoints (tables t))" "table_ok write_key (db_writes (tables t))"
    "versions_bounded (tables t)" "versions_unique (tables t)"
    using ok by (simp_all add: saver_ok_def db_ok_def)
  with limits single show ?thesis by blast
qed

theorem checkpoint_store_stays_consistent_witness: "versions_unique (tables written_saver)"
  using checkpoint_store_stays_consistent [OF empty_saver_init written_saver_reached] by blast

text \<open>What a commit that succeeds found and left.\<close>

lemma commit_success:
  assumes ok: "saver_ok t" and i: "i < length (buffers t)" and opened: "tx_phase (buffers t ! i) = Open"
    and res: "commit_transaction now i t = (u, Inr x)"
  shows "unchallenged (tables t) (buffers t ! i)" and "stores (buffers t ! i) (tables t) (tables u)"
proof -
  let ?tx = "(buffers t ! i)\<lparr>tx_phase := Sealed\<rparr>"
  have sealed: "tx_ok (tables t) ?tx" using saver_ok_buffer [OF ok i opened] by simp
  have flush: "flush_transaction now ?tx (tables t) = (tables u, Inr x)"
    using res opened by (auto simp: commit_transaction_def ensure_open_def close_transaction_def Let_def split: prod.splits)
  from flush_cases [OF saver_ok_db [OF ok] sealed flush] obtain db where fresh: "unchallenged (tables t) ?tx"
    and db: "current_version_of db = current_version_of (tables t)" "db_checkpoints db = db_checkpoints (tables t)"
      "db_writes db = db_writes (tables t)" and u: "tables u = store_buffer now ?tx db" by auto
  show "unchallenged (tables t) (buffers t ! i)" using fresh by (simp add: unchallenged_def)
  have tabs: "table_ok checkpoint_key (db_checkpoints db)" "table_ok write_key (db_writes db)"
    using saver_ok_db [OF ok] by (simp_all add: db db_ok_def)
  have at: "version_at db = version_at (tables t)" by (simp add: fun_eq_iff version_at_def db)
  note db' = db_ok_same [OF saver_ok_db [OF ok] tabs at db(1)]
  have "stores ?tx db (tables u)"
    unfolding u using store_buffer_stores [OF db'(1) tx_advances [OF sealed db'(2)]] fresh by (simp add: unchallenged_def db)
  moreover have "tx_checkpoints ?tx = tx_checkpoints (buffers t ! i)" "tx_writes ?tx = tx_writes (buffers t ! i)"
    "tx_namespaces ?tx = tx_namespaces (buffers t ! i)" by simp_all
  ultimately show "stores (buffers t ! i) (tables t) (tables u)" unfolding stores_def db by (simp only: simp_thms)
qed

text \<open>
  C6: optimistic concurrency. Once a transaction holds a snapshot of a namespace, whatever runs in between (a deletion
  of a thread it has read excepted), its commit either changes no table, or finds the namespace with the very
  checkpoints and versions it had and then stores the whole buffer: every buffered checkpoint with its version, parent,
  blobs and types, every buffered write, and the counters; no other row changes.
\<close>

theorem commit_is_isolated_or_changes_nothing:
  assumes "saver_init s0" and "(saver_step lg)\<^sup>*\<^sup>* s0 s" and "(saver_step lg)\<^sup>*\<^sup>* s t"
    and i: "i < length (buffers s)" and opened: "tx_phase (buffers t ! i) = Open"
    and snap: "map_of (tx_namespaces (buffers s ! i)) ns = Some snap"
  shows "case commit_transaction now i t of (u, q) \<Rightarrow>
    (case q of
       Inl e \<Rightarrow> tables u = tables t
     | Inr x \<Rightarrow>
         (\<forall>k. ns_of k = ns \<longrightarrow> version_at (tables t) k = version_at (tables s) k) \<and>
         stores (buffers t ! i) (tables t) (tables u))"
proof -
  have ok: "saver_ok s" using assms(1,2) by (rule checkpoints.reachable_inv)
  with assms(3) have g: "grows s t" and ok': "saver_ok t" using run_grows by blast+
  note grown = growsD [OF g i opened]
  have tx0: "tx_ok (tables s) (buffers s ! i)" using ok i grown(2) by (rule saver_ok_buffer)
  obtain u q where res: "commit_transaction now i t = (u, q)" by fastforce
  show ?thesis
  proof (cases q)
    case (Inl e)
    with commit_effect [OF ok' grown(1) res] res show ?thesis by simp
  next
    case (Inr x)
    note commit = commit_success [OF ok' grown(1) opened res [unfolded Inr]]
    obtain snap' where "map_of (tx_namespaces (buffers t ! i)) ns = Some snap'" "base_version snap' = base_version snap"
      using grown(3) snap unfolding same_buffer_def by fastforce
    then have "current_version_of (tables t) ns = base_version snap" using commit(1) by auto
    moreover have "base_version snap \<le> current_version_of (tables s) ns"
      using tx_ok_snapshot [OF tx0 snap] by (simp add: snapshot_ok_def)
    ultimately have "version_at (tables t) k = version_at (tables s) k" if "ns_of k = ns" for k
      using grown(4) [OF snap] that unfolding advances_in_def by (metis order_antisym)
    with commit(2) res Inr show ?thesis by simp
  qed
qed

theorem commit_is_isolated_or_changes_nothing_witness:
  "\<exists>u row. commit_transaction 0 0 written_saver = (u, Inr ()) \<and>
     map_of (db_checkpoints (tables u)) ([65], [], [67]) = Some row \<and> cr_version row = 1 \<and> cr_checkpoint_blob row = [2, 3]"
proof -
  obtain u where u: "commit_transaction 0 0 written_saver = (u, Inr ())" using written_saver_commits ..
  have "0 < length (buffers written_saver)" "tx_phase (buffers written_saver ! 0) = Open"
    and snap: "map_of (tx_namespaces (buffers written_saver ! 0)) ([65], []) =
      Some \<lparr>base_version = 0, current_version = 1, checkpoint_versions = [([67], 1)]\<rparr>"
    by (simp_all add: written_saver_eq example_buffer_def new_transaction_def)
  from commit_is_isolated_or_changes_nothing [OF empty_saver_init written_saver_reached rtranclp.rtrancl_refl this, of 0] u
  have "stores (buffers written_saver ! 0) (tables written_saver) (tables u)" by simp
  moreover have "map_of (tx_checkpoints (buffers written_saver ! 0)) ([65], [], [67]) =
      Some (snd (hd (tx_checkpoints example_buffer)))" by (simp add: written_saver_eq example_buffer_def)
  ultimately obtain row where "map_of (db_checkpoints (tables u)) ([65], [], [67]) = Some row"
      "cr_version row = cr_version (snd (hd (tx_checkpoints example_buffer)))"
      "contents row = contents (snd (hd (tx_checkpoints example_buffer)))"
    by (rule stores_row)
  then show ?thesis using u by (simp add: example_buffer_def contents_def)
qed

end
