(* ===== verification/CheckpointReads.thy ===== *)
theory CheckpointReads
  imports CheckpointRuns
begin

text \<open>
  Reads of the checkpoint saver: through an open transaction \<open>get_tuple\<close> returns what it returns after the commit.
  The newest checkpoint is a maximum over the table and the buffer, and the pending writes are a sorted overlay;
  both agree with the flushed tables.
\<close>

section \<open>Reading through an open transaction\<close>

lemma candidates:
  assumes "table_ok checkpoint_key al"
  shows "x \<in> set (map snd (filter (\<lambda>(k, r). wanted t n c k) al)) \<longleftrightarrow>
    map_of al (checkpoint_key x) = Some x \<and> wanted t n c (checkpoint_key x)"
proof
  assume "x \<in> set (map snd (filter (\<lambda>(k, r). wanted t n c k) al))"
  then obtain k where k: "(k, x) \<in> set al" "wanted t n c k" by auto
  then have at: "map_of al k = Some x" using assms by (simp add: table_ok_map_of)
  with table_ok_key [OF assms at] k show "map_of al (checkpoint_key x) = Some x \<and> wanted t n c (checkpoint_key x)" by simp
next
  assume "map_of al (checkpoint_key x) = Some x \<and> wanted t n c (checkpoint_key x)"
  then have "(checkpoint_key x, x) \<in> set (filter (\<lambda>(k, r). wanted t n c k) al)" by (auto dest: map_of_SomeD)
  then have "snd (checkpoint_key x, x) \<in> snd ` set (filter (\<lambda>(k, r). wanted t n c k) al)" by (rule imageI)
  then show "x \<in> set (map snd (filter (\<lambda>(k, r). wanted t n c k) al))" by simp
qed

lemma newest_None:
  assumes "table_ok checkpoint_key al"
  shows "newest t n c al = None \<longleftrightarrow> (\<forall>x. map_of al (checkpoint_key x) = Some x \<longrightarrow> \<not> wanted t n c (checkpoint_key x))"
  using candidates [OF assms, of _ t n c] unfolding newest_def max_by_None by (metis ex_in_conv set_empty)

lemma newest_Some:
  assumes "table_ok checkpoint_key al" and "newest t n c al = Some x"
  shows "map_of al (checkpoint_key x) = Some x" and "wanted t n c (checkpoint_key x)"
    and "map_of al (checkpoint_key y) = Some y \<Longrightarrow> wanted t n c (checkpoint_key y) \<Longrightarrow>
      version_order y \<le> version_order x"
  using max_by_Some [OF assms(2) [unfolded newest_def]] candidates [OF assms(1), of _ t n c] by blast+

lemma version_order_key:
  "wanted t n c (checkpoint_key x) \<Longrightarrow> wanted t n c (checkpoint_key y) \<Longrightarrow> version_order x = version_order y \<Longrightarrow>
     checkpoint_key x = checkpoint_key y"
  by (simp add: wanted_def version_order_def checkpoint_key_def)

lemma newest_eqI:
  assumes "table_ok checkpoint_key al" and "map_of al (checkpoint_key x) = Some x" and "wanted t n c (checkpoint_key x)"
    and "\<And>y. map_of al (checkpoint_key y) = Some y \<Longrightarrow> wanted t n c (checkpoint_key y) \<Longrightarrow>
      version_order y \<le> version_order x"
  shows "newest t n c al = Some x"
  unfolding newest_def
proof (rule max_by_eqI)
  fix y
  assume y: "y \<in> set (map snd (filter (\<lambda>(k, r). wanted t n c k) al))" and "version_order y = version_order x"
  then have "checkpoint_key y = checkpoint_key x"
    using assms(3) unfolding candidates [OF assms(1)] by (intro version_order_key) simp_all
  moreover have "map_of al (checkpoint_key y) = Some y" using y unfolding candidates [OF assms(1)] ..
  ultimately show "y = x" using assms(2) by (metis option.inject)
next
  show "x \<in> set (map snd (filter (\<lambda>(k, r). wanted t n c k) al))"
    unfolding candidates [OF assms(1)] using assms(2,3) ..
  show "version_order y \<le> version_order x" if "y \<in> set (map snd (filter (\<lambda>(k, r). wanted t n c k) al))" for y
    using that assms(4) [of y] unfolding candidates [OF assms(1)] by simp
qed

lemma sort_table_eq:
  assumes "table_ok write_key xs" and "table_ok write_key ys" and "map_of xs = map_of ys"
    and "list_all (\<lambda>(k, w). (fst k, fst (snd k), fst (snd (snd k))) = ck) xs"
  shows "sort_key write_order (map snd xs) = sort_key write_order (map snd ys)"
proof -
  have "set zs = {(k, w). map_of zs k = Some w}" if "table_ok write_key zs" for zs
    using table_ok_map_of [OF that] by auto
  then have "set xs = set ys" using assms(1-3) by simp
  moreover have "distinct xs" "distinct ys" using assms(1,2) by (auto simp: table_ok_def distinct_map)
  ultimately have "mset xs = mset ys" by (simp add: set_eq_iff_mset_eq_distinct)
  then have mset: "mset (map snd xs) = mset (map snd ys)" by simp
  have "inj_on write_order (set (map snd xs))"
  proof (rule inj_onI)
    fix v w
    assume vw: "v \<in> set (map snd xs)" "w \<in> set (map snd xs)" "write_order v = write_order w"
    then obtain k l where kl: "(k, v) \<in> set xs" "(l, w) \<in> set xs" by auto
    then have "k = write_key v" "l = write_key w" using assms(1) by (auto simp: table_ok_def list_all_iff)
    moreover have "(fst k, fst (snd k), fst (snd (snd k))) = (fst l, fst (snd l), fst (snd (snd l)))"
      using bspec [OF assms(4) [unfolded list_all_iff] kl(1)] bspec [OF assms(4) [unfolded list_all_iff] kl(2)] by simp
    ultimately have "k = l" using vw(3) by (simp add: write_key_def write_order_def)
    with kl assms(1) show "v = w" by (auto simp: table_ok_def intro: eq_key_imp_eq_value)
  qed
  then show ?thesis
    using sort_key_inj_key_eq [of "map snd xs" "sort_key write_order (map snd ys)" write_order] mset by simp
qed

lemma map_of_writes_of:
  "map_of (writes_of ck al) k = (if (fst k, fst (snd k), fst (snd (snd k))) = ck then map_of al k else None)"
  unfolding writes_of_def by (induction al) auto

lemma table_ok_sort: "table_ok key al \<Longrightarrow> table_ok key (sort_key f al)"
  unfolding table_ok_def by (auto simp: list_all_iff) (metis distinct_map distinct_sort set_sort)

lemma map_of_sort: "table_ok key al \<Longrightarrow> map_of (sort_key f al) = map_of al"
  using table_ok_sort [of key al f] by (metis map_of_inject_set set_sort table_ok_def)

lemma table_ok_writes_of: "table_ok key al \<Longrightarrow> table_ok key (writes_of ck al)"
  unfolding table_ok_def writes_of_def by (auto simp: list_all_iff distinct_map intro: inj_on_subset)

text \<open>The pending writes of a checkpoint, read through the buffer and read after the flush.\<close>

lemma pending_writes_agree:
  assumes db: "table_ok write_key (db_writes db)" and tx: "table_ok write_key (tx_writes tx)"
    and dis: "distinct (map fst (tx_namespaces tx))"
  shows "pending_rows db (Some tx) ck = pending_rows (store_buffer now tx db) None ck"
  unfolding pending_rows_def Let_def option.case
proof (rule sort_table_eq)
  let ?srt = "sort_key (\<lambda>(k, w). write_order w)"
  let ?xs = "update_all (writes_of ck (tx_writes tx)) (?srt (writes_of ck (db_writes db)))"
  let ?db' = "store_buffer now tx db"
  note look = store_buffer_writes(1) [OF db tx dis, of now] and tab' = store_buffer_writes(2) [OF db tx dis, of now]
  have sub: "table_ok write_key (?srt (writes_of ck al))" "map_of (?srt (writes_of ck al)) = map_of (writes_of ck al)"
    if "table_ok write_key al" for al
    using table_ok_writes_of [OF that, of ck] by (simp_all add: table_ok_sort map_of_sort)
  have wtx: "table_ok write_key (writes_of ck (tx_writes tx))" using tx by (rule table_ok_writes_of)
  show "table_ok write_key ?xs"
    using sub(1) [OF db] wtx by (intro table_ok_update_all) (simp_all add: table_ok_def)
  show "table_ok write_key (update_all [] (?srt (writes_of ck (db_writes ?db'))))"
    using sub(1) [OF tab'] by (simp add: update_all_def)
  have "map_of (rev (writes_of ck (tx_writes tx))) = map_of (writes_of ck (tx_writes tx))"
    using wtx by (simp add: map_of_rev table_ok_def)
  then show "map_of ?xs = map_of (update_all [] (?srt (writes_of ck (db_writes ?db'))))"
    by (auto simp: fun_eq_iff map_of_update_all sub(2) [OF db] sub(2) [OF tab'] map_of_writes_of look map_add_def
        split: option.split)
  have "fst ` set ?xs \<subseteq> {k. (fst k, fst (snd k), fst (snd (snd k))) = ck}"
    by (auto simp: keys_update_all writes_of_def)
  then show "list_all (\<lambda>(k, w). (fst k, fst (snd k), fst (snd (snd k))) = ck) ?xs"
    unfolding list_all_iff by force
qed

lemma tuple_of_cong:
  assumes "checkpoint_key r = checkpoint_key r'" and "cr_version r = cr_version r'" and "contents r = contents r'"
    and "pending_rows db tx (checkpoint_key r) = pending_rows db' tx' (checkpoint_key r')"
  shows "tuple_of lg db tx r = tuple_of lg db' tx' r'"
  using assms by (simp add: tuple_of_def Let_def) (simp add: checkpoint_key_def contents_def)

lemma version_order_cong:
  "checkpoint_key x = checkpoint_key y \<Longrightarrow> cr_version x = cr_version y \<Longrightarrow> version_order x = version_order y"
  by (simp add: version_order_def checkpoint_key_def)

lemma version_order_le:
  "version_order x \<le> version_order y \<Longrightarrow> cr_version x \<le> cr_version y"
  "cr_version x < cr_version y \<Longrightarrow> version_order x \<le> version_order y"
  by (auto simp: version_order_def)

text \<open>
  Reading through a fresh buffer is reading the tables the buffer leaves. The newest checkpoint is a buffered one
  exactly when the buffer's candidate is at least as new as the table's.
\<close>

lemma flushed_tables:
  assumes db: "db_ok db" and ok: "tx_ok db tx" and fresh: "unchallenged db tx"
  shows "table_ok checkpoint_key (db_checkpoints db)"
    and "table_ok checkpoint_key (db_checkpoints (store_buffer now tx db))"
    and "table_ok checkpoint_key (tx_checkpoints tx)"
  using db store_buffer_ok(1) [OF db ok fresh, of now] ok by (simp_all add: db_ok_def tx_ok_def buffer_bounded_def)

lemma flushed_row:
  assumes db: "db_ok db" and ok: "tx_ok db tx" and fresh: "unchallenged db tx"
    and y: "map_of (db_checkpoints (store_buffer now tx db)) (checkpoint_key y) = Some y"
    and r: "map_of (tx_checkpoints tx) (checkpoint_key y) = Some r"
  shows "cr_version y = cr_version r" and "version_order y = version_order r"
    and "checkpoint_key r = checkpoint_key y" and "map_of (tx_checkpoints tx) (checkpoint_key r) = Some r"
proof -
  show ver: "cr_version y = cr_version r"
    using y r store_buffer_state(2) [OF ok fresh, of now "checkpoint_key y"] by (simp add: version_at_def)
  show key: "checkpoint_key r = checkpoint_key y" using flushed_tables(3) [OF db ok fresh] r by (rule table_ok_key)
  show "version_order y = version_order r" by (rule version_order_cong [OF key [symmetric] ver])
  show "map_of (tx_checkpoints tx) (checkpoint_key r) = Some r" unfolding key by (rule r)
qed

lemma flushed_tuple:
  assumes db: "db_ok db" and ok: "tx_ok db tx"
    and "checkpoint_key r = checkpoint_key r'" and "cr_version r = cr_version r'" and "contents r = contents r'"
  shows "tuple_of lg (store_buffer now tx db) None r' = tuple_of lg db (Some tx) r"
proof -
  have "pending_rows db (Some tx) ck = pending_rows (store_buffer now tx db) None ck" for ck
    using db ok by (intro pending_writes_agree) (simp_all add: db_ok_def tx_ok_def buffer_bounded_def)
  with assms(3-5) show ?thesis by (intro tuple_of_cong) simp_all
qed

lemma buffer_wins:
  assumes db: "db_ok db" and ok: "tx_ok db tx" and fresh: "unchallenged db tx"
    and B: "newest t n c (tx_checkpoints tx) = Some b"
    and D: "\<And>d. newest t n c (db_checkpoints db) = Some d \<Longrightarrow> cr_version d \<le> cr_version b"
  shows "read_tuple lg (store_buffer now tx db) None t n c = Some (tuple_of lg db (Some tx) b)"
proof -
  let ?db' = "store_buffer now tx db"
  note tab = flushed_tables [OF db ok fresh] and row_of = flushed_row [OF db ok fresh]
  note b = newest_Some [OF tab(3) B]
  obtain row where row: "map_of (db_checkpoints ?db') (checkpoint_key b) = Some row" "contents row = contents b"
    using store_buffer_rows(2) [OF ok b(1)] by blast
  have key: "checkpoint_key row = checkpoint_key b" using tab(2) row(1) by (rule table_ok_key)
  have vb: "cr_version row = cr_version b" using row_of(1) [where y = row and r = b] row(1) b(1) by (simp add: key)
  have "newest t n c (db_checkpoints ?db') = Some row"
  proof (rule newest_eqI [OF tab(2)])
    show "map_of (db_checkpoints ?db') (checkpoint_key row) = Some row" using row(1) by (simp add: key)
    show "wanted t n c (checkpoint_key row)" using b(2) by (simp add: key)
    fix y
    assume y: "map_of (db_checkpoints ?db') (checkpoint_key y) = Some y" and w: "wanted t n c (checkpoint_key y)"
    have "version_order y \<le> version_order b"
    proof (cases "map_of (tx_checkpoints tx) (checkpoint_key y)")
      case (Some r)
      with row_of(2-4) [OF y Some] b(3) [of r] w show ?thesis by simp
    next
      case None
      then have old: "map_of (db_checkpoints db) (checkpoint_key y) = Some y" 
        using y store_buffer_rows(1) [OF ok None] by simp
      then obtain d where d: "newest t n c (db_checkpoints db) = Some d"
        using newest_None [OF tab(1), of t n c] w by fastforce
      have "cr_version y \<le> cr_version b"
        using newest_Some(3) [OF tab(1) d old w] D [OF d] by (auto dest: version_order_le(1))
      moreover have "cr_version y \<noteq> cr_version b"
      proof
        assume "cr_version y = cr_version b"
        then have "version_at ?db' (checkpoint_key y) = Some (cr_version b)"
          "version_at ?db' (checkpoint_key b) = Some (cr_version b)"
          using y row(1) vb by (simp_all add: version_at_def)
        then have "checkpoint_key y = checkpoint_key b"
          using db_ok_versions(4) [OF store_buffer_ok(1) [OF db ok fresh]] w b(2) by (fastforce simp: wanted_def ns_of_def)
        with None b(1) show False by simp
      qed
      ultimately show ?thesis by (intro version_order_le(2)) simp
    qed
    also have "\<dots> = version_order row" by (rule version_order_cong [OF key [symmetric] vb [symmetric]])
    finally show "version_order y \<le> version_order row" .
  qed
  then show ?thesis using flushed_tuple [OF db ok, where r = b and r' = row] key vb row(2) by (simp add: read_tuple_def)
qed

lemma table_wins:
  assumes db: "db_ok db" and ok: "tx_ok db tx" and fresh: "unchallenged db tx"
    and D: "newest t n c (db_checkpoints db) = Some d"
    and B: "\<And>b. newest t n c (tx_checkpoints tx) = Some b \<Longrightarrow> cr_version b < cr_version d"
  shows "read_tuple lg (store_buffer now tx db) None t n c = Some (tuple_of lg db (Some tx) d)"
proof -
  let ?db' = "store_buffer now tx db"
  note tab = flushed_tables [OF db ok fresh] and row_of = flushed_row [OF db ok fresh]
  note d = newest_Some [OF tab(1) D]
  have below: "cr_version r < cr_version d"
    if r: "map_of (tx_checkpoints tx) (checkpoint_key r) = Some r" "wanted t n c (checkpoint_key r)" for r
  proof -
    obtain b where b: "newest t n c (tx_checkpoints tx) = Some b"
      using newest_None [OF tab(3), of t n c] r by fastforce
    show ?thesis using newest_Some(3) [OF tab(3) b r] B [OF b] by (auto dest: version_order_le(1))
  qed
  have "map_of (tx_checkpoints tx) (checkpoint_key d) = None"
  proof (rule ccontr)
    assume "map_of (tx_checkpoints tx) (checkpoint_key d) \<noteq> None"
    then obtain r where r: "map_of (tx_checkpoints tx) (checkpoint_key d) = Some r" by blast
    have "cr_version d = cr_version r"
      using buffered_version_agrees [OF ok fresh r] d(1) by (simp add: version_at_def)
    moreover have "checkpoint_key r = checkpoint_key d" using tab(3) r by (rule table_ok_key)
    ultimately show False using below [of r] r d(2) by simp
  qed
  then have at: "map_of (db_checkpoints ?db') (checkpoint_key d) = Some d" using d(1) store_buffer_rows(1) [OF ok] by simp
  have "newest t n c (db_checkpoints ?db') = Some d"
  proof (rule newest_eqI [OF tab(2) at d(2)])
    fix y
    assume y: "map_of (db_checkpoints ?db') (checkpoint_key y) = Some y" and w: "wanted t n c (checkpoint_key y)"
    show "version_order y \<le> version_order d"
    proof (cases "map_of (tx_checkpoints tx) (checkpoint_key y)")
      case (Some r)
      with row_of(2-4) [OF y Some] below [of r] w show ?thesis by (simp add: version_order_le(2))
    next
      case None
      then show ?thesis using y w store_buffer_rows(1) [OF ok None] d(3) [of y] by simp
    qed
  qed
  then show ?thesis using flushed_tuple [OF db ok, where r = d and r' = d] by (simp add: read_tuple_def)
qed

lemma nothing_found:
  assumes db: "db_ok db" and ok: "tx_ok db tx" and fresh: "unchallenged db tx"
    and B: "newest t n c (tx_checkpoints tx) = None" and D: "newest t n c (db_checkpoints db) = None"
  shows "read_tuple lg (store_buffer now tx db) None t n c = None"
proof -
  note tab = flushed_tables [OF db ok fresh] and row_of = flushed_row [OF db ok fresh]
  have "newest t n c (db_checkpoints (store_buffer now tx db)) = None"
    unfolding newest_None [OF tab(2)]
  proof (intro allI impI notI)
    fix y
    assume y: "map_of (db_checkpoints (store_buffer now tx db)) (checkpoint_key y) = Some y"
      and w: "wanted t n c (checkpoint_key y)"
    show False
    proof (cases "map_of (tx_checkpoints tx) (checkpoint_key y)")
      case (Some r)
      have "wanted t n c (checkpoint_key r)" using w row_of(3) [OF y Some] by simp
      with row_of(4) [OF y Some] B newest_None [OF tab(3), of t n c] show False by blast
    next
      case None
      with y have "map_of (db_checkpoints db) (checkpoint_key y) = Some y" using store_buffer_rows(1) [OF ok None] by simp
      with w D newest_None [OF tab(1), of t n c] show False by blast
    qed
  qed
  then show ?thesis by (simp add: read_tuple_def)
qed

lemma read_through_buffer:
  assumes "db_ok db" and "tx_ok db tx" and "unchallenged db tx"
  shows "read_tuple lg db (Some tx) t n c = read_tuple lg (store_buffer now tx db) None t n c"
proof (cases "newest t n c (tx_checkpoints tx)")
  case B: (Some b)
  note wins = buffer_wins [OF assms B, where lg = lg and now = now]
  show ?thesis
  proof (cases "newest t n c (db_checkpoints db)")
    case None
    with B wins show ?thesis by (simp add: read_tuple_def [of lg db])
  next
    case D: (Some d)
    with B wins table_wins [OF assms D, where lg = lg and now = now] show ?thesis
      by (cases "cr_version d \<le> cr_version b") (simp_all add: read_tuple_def [of lg db])
  qed
next
  case B: None
  show ?thesis
  proof (cases "newest t n c (db_checkpoints db)")
    case None
    with B nothing_found [OF assms B None, where lg = lg and now = now] show ?thesis
      by (simp add: read_tuple_def [of lg db])
  next
    case D: (Some d)
    with B table_wins [OF assms D, where lg = lg and now = now] show ?thesis
      by (simp add: read_tuple_def [of lg db])
  qed
qed

lemma read_tuple_cong:
  "db_checkpoints db = db_checkpoints db' \<Longrightarrow> db_writes db = db_writes db' \<Longrightarrow>
     read_tuple lg db (Some tx) t n c = read_tuple lg db' (Some (tx\<lparr>tx_phase := p\<rparr>)) t n c"
  by (simp add: read_tuple_def tuple_of_def pending_rows_def Let_def split: option.split)

lemma committed_read:
  assumes ok: "saver_ok t" and i: "i < length (buffers t)" and opened: "tx_phase (buffers t ! i) = Open"
    and res: "commit_transaction now i t = (u, Inr x)"
  shows "read_tuple lg (tables t) (Some (buffers t ! i)) th n c = read_tuple lg (tables u) None th n c"
proof -
  let ?tx = "(buffers t ! i)\<lparr>tx_phase := Sealed\<rparr>"
  have tx: "tx_ok (tables t) ?tx" using saver_ok_buffer [OF ok i opened] by simp
  obtain db where flush: "flush_transaction now ?tx (tables t) = (db, Inr x)" and u: "tables u = db"
    using res opened by (auto simp: commit_transaction_def ensure_open_def close_transaction_def Let_def split: prod.splits)
  then obtain db1 where fresh: "unchallenged (tables t) ?tx" and cur: "current_version_of db1 = current_version_of (tables t)"
    and same: "db_checkpoints db1 = db_checkpoints (tables t)" "db_writes db1 = db_writes (tables t)"
    and db: "db = store_buffer now ?tx db1"
    using flush_cases [OF saver_ok_db [OF ok] tx flush] by auto
  have at: "version_at db1 = version_at (tables t)" using same by (simp add: fun_eq_iff version_at_def)
  have tabs: "table_ok checkpoint_key (db_checkpoints db1)" "table_ok write_key (db_writes db1)"
    using saver_ok_db [OF ok] by (simp_all add: same db_ok_def)
  note db1 = db_ok_same [OF saver_ok_db [OF ok] tabs at cur]
  have "tx_ok db1 ?tx" using tx db1(2) by (rule tx_advances)
  moreover have "unchallenged db1 ?tx" using fresh by (simp add: unchallenged_def cur)
  ultimately have "read_tuple lg db1 (Some ?tx) th n c = read_tuple lg db None th n c"
    unfolding db using db1(1) by (intro read_through_buffer)
  then show ?thesis using read_tuple_cong [OF same [symmetric]] u by metis
qed

lemma committed_registry:
  assumes ok: "saver_ok t" and i: "i < length (buffers t)" and opened: "tx_phase (buffers t ! i) = Open"
    and res: "commit_transaction now i t = (u, q)"
  shows "map_of (registry u) (tx_thread_id (buffers t ! i), tx_execution_id (buffers t ! i)) = None"
proof -
  let ?key = "(tx_thread_id (buffers t ! i), tx_execution_id (buffers t ! i))"
  have reg: "registry u = filter (\<lambda>(k, j). j \<noteq> i) (registry t)"
    using res by (auto simp: commit_transaction_def close_transaction_def Let_def split: sum.splits prod.splits)
  have "distinct (map fst (registry t))" and "(?key, i) \<in> set (registry t)"
    using ok i opened by (simp_all add: saver_ok_def registered_def)
  then have "j = i" if "(?key, j) \<in> set (registry t)" for j using that by (metis eq_key_imp_eq_value)
  then show ?thesis by (auto simp: map_of_eq_None_iff reg)
qed

text \<open>
  C7: a read through an open transaction refines a read of the committed tables: whatever checkpoint it asks for,
  \<open>get_tuple\<close> inside the transaction returns the very tuple (checkpoint, metadata, parent, version and pending
  writes) that the same call returns once the transaction is committed.
\<close>

theorem open_transaction_reads_what_it_will_commit:
  assumes "saver_init s" and "(saver_step lg)\<^sup>*\<^sup>* s t" and i: "i < length (buffers t)"
    and opened: "tx_phase (buffers t ! i) = Open" and res: "commit_transaction now i t = (u, Inr ())"
  shows "case get_tuple lg (Some i) cfg t of Inl e \<Rightarrow> True | Inr r \<Rightarrow> get_tuple lg None cfg u = Inr r"
proof -
  have ok: "saver_ok t" using assms(1,2) by (rule checkpoints.reachable_inv)
  let ?c = "configurable cfg"
  have "get_tuple lg None cfg u = Inr r" if got: "get_tuple lg (Some i) cfg t = Inr r" for r
  proof -
    obtain th where th: "str_at lg ?c ''thread_id'' = Inr th"
      using got by (cases "str_at lg ?c ''thread_id''") (auto simp: get_tuple_def)
    obtain j where j: "transaction_for lg (Some i) (Some ?c) t = Inr j"
      using got th by (cases "transaction_for lg (Some i) (Some ?c) t") (auto simp: get_tuple_def)
    have r: "read_tuple lg (tables t) (map_option (\<lambda>i. buffers t ! i) j) th (str_or_empty lg ?c ''checkpoint_ns'')
        (get_checkpoint_id lg cfg) = r"
      using got th j by (simp add: get_tuple_def)
    have "j = Some i" using j by (simp add: transaction_for_def Let_def split: if_splits)
    moreover have "transaction_for lg None (Some ?c) u = Inr None"
      using j committed_registry [OF ok i opened res] by (auto simp: transaction_for_def Let_def split: if_splits)
    ultimately show ?thesis
      using th r committed_read [OF ok i opened res, where lg = lg] by (simp add: get_tuple_def)
  qed
  then show ?thesis by (cases "get_tuple lg (Some i) cfg t") simp_all
qed

theorem open_transaction_reads_what_it_will_commit_witness:
  "\<exists>u. commit_transaction 0 0 written_saver = (u, Inr ()) \<and>
     get_tuple example_langgraph None example_config u = get_tuple example_langgraph (Some 0) example_config written_saver"
proof -
  obtain u where u: "commit_transaction 0 0 written_saver = (u, Inr ())" using written_saver_commits ..
  have "0 < length (buffers written_saver)" "tx_phase (buffers written_saver ! 0) = Open"
    by (simp_all add: written_saver_eq example_buffer_def new_transaction_def)
  note agree = open_transaction_reads_what_it_will_commit [OF empty_saver_init written_saver_reached this u, of example_config]
  have "\<exists>r. get_tuple example_langgraph (Some 0) example_config written_saver = Inr r"
    by (simp add: get_tuple_def str_at_def example_config_def transaction_for_def written_saver_eq example_buffer_def
        new_transaction_def str_or_empty_def py_str_def)
  with agree u show ?thesis by auto
qed

end
