(* ===== verification/CheckpointBackends.thy ===== *)
theory CheckpointBackends
  imports CheckpointRuns
begin

text \<open>
  The rest of the savers: \<open>list\<close> of the MySQL saver, the SQLite saver of \<open>checkpoint/sqlite_saver.py\<close> on the
  same tables, and where the two backends differ.

  SQLite returns pending writes in table order, since its query has no \<open>ORDER BY\<close>.
\<close>

section \<open>Listing\<close>

definition requested_thread :: "'o langgraph \<Rightarrow> config option \<Rightarrow> ustring option" where
  "requested_thread lg cfg = (case cfg of None \<Rightarrow> None | Some c \<Rightarrow>
     (case map_of (configurable c) ''thread_id'' of None \<Rightarrow> None
      | Some v \<Rightarrow> if truthy v then Some (py_str lg v) else None))"

definition requested_ns :: "'o langgraph \<Rightarrow> config option \<Rightarrow> ustring option" where
  "requested_ns lg cfg = (case cfg of None \<Rightarrow> None | Some c \<Rightarrow>
     map_option (py_str lg) (map_of (configurable c) ''checkpoint_ns''))"

definition before_id :: "'o langgraph \<Rightarrow> config option \<Rightarrow> ustring option" where
  "before_id lg before = (case before of None \<Rightarrow> None | Some c \<Rightarrow>
     (case get_checkpoint_id lg c of None \<Rightarrow> None | Some i \<Rightarrow> if i = [] then None else Some i))"

definition list_filter :: "ustring option \<Rightarrow> ustring option \<Rightarrow> ustring option \<Rightarrow> checkpoint_key \<Rightarrow> bool" where
  "list_filter th ns bef k \<longleftrightarrow>
     (case th of None \<Rightarrow> True | Some t \<Rightarrow> t = [] \<or> fst k = t) \<and>
     (case ns of None \<Rightarrow> True | Some n \<Rightarrow> fst (snd k) = n) \<and>
     (case bef of None \<Rightarrow> True | Some i \<Rightarrow> snd (snd k) < i)"

text \<open>\<open>sorted(rows, key=f, reverse=True)\<close>: descending, equal rows in their order.\<close>

definition sorted_desc :: "('a \<Rightarrow> 'k::linorder) \<Rightarrow> 'a list \<Rightarrow> 'a list" where
  "sorted_desc f xs = rev (sort_key f (rev xs))"

definition row_order :: "checkpoint_key \<times> int \<Rightarrow> int \<times> ustring" where
  "row_order kv = (snd kv, snd (snd (fst kv)))"

definition listed_rows :: "ustring option \<Rightarrow> ustring option \<Rightarrow> ustring option \<Rightarrow> transaction option \<Rightarrow> database
    \<Rightarrow> (checkpoint_key \<times> int) list" where
  "listed_rows th ns bef tx db =
     (let rows = sort_key (\<lambda>(k, r). (- created_at r, - cr_version r))
            (filter (\<lambda>(k, r). list_filter th ns bef k) (db_checkpoints db));
          stored = map (\<lambda>(k, r). (k, cr_version r)) rows;
          buffered = (case tx of None \<Rightarrow> [] | Some t \<Rightarrow>
            map (\<lambda>(k, r). (k, cr_version r)) (filter (\<lambda>(k, r). list_filter th ns bef k) (tx_checkpoints t)))
      in sorted_desc row_order (update_all buffered stored))"

definition key_config :: "checkpoint_key \<Rightarrow> config" where
  "key_config k = \<lparr>configurable = [(''thread_id'', JStr (fst k)), (''checkpoint_ns'', JStr (fst (snd k))),
     (''checkpoint_id'', JStr (snd (snd k)))], config_rest = []\<rparr>"

text \<open>The generator: what it yields, and the exception that ends it, if any. The limit is tested after a tuple is
  yielded.\<close>

fun emit_tuples :: "(checkpoint_key \<Rightarrow> (saver_error, 'o checkpoint_tuple option) result) \<Rightarrow> json_object \<Rightarrow> int option
    \<Rightarrow> int \<Rightarrow> checkpoint_key list \<Rightarrow> 'o checkpoint_tuple list \<times> saver_error option" where
  "emit_tuples get flt limit emitted [] = ([], None)"
| "emit_tuples get flt limit emitted (k # ks) =
     (case get k of
        Inl e \<Rightarrow> ([], Some e)
      | Inr None \<Rightarrow> emit_tuples get flt limit emitted ks
      | Inr (Some t) \<Rightarrow>
          if flt \<noteq> [] \<and> \<not> metadata_matches (ct_metadata t) flt then emit_tuples get flt limit emitted ks
          else if (case limit of None \<Rightarrow> False | Some l \<Rightarrow> l \<le> emitted + 1) then ([t], None)
          else (let (ts, e) = emit_tuples get flt limit (emitted + 1) ks in (t # ts, e)))"

definition list_checkpoints :: "'o langgraph \<Rightarrow> nat option \<Rightarrow> config option \<Rightarrow> json_object \<Rightarrow> config option
    \<Rightarrow> int option \<Rightarrow> saver \<Rightarrow> 'o checkpoint_tuple list \<times> saver_error option" where
  "list_checkpoints lg active cfg flt before limit s =
     (case transaction_for lg active (map_option configurable cfg) s of
        Inl e \<Rightarrow> ([], Some e)
      | Inr t \<Rightarrow>
          emit_tuples (\<lambda>k. get_tuple lg active (key_config k) s) flt limit 0
            (map fst (listed_rows (requested_thread lg cfg) (requested_ns lg cfg) (before_id lg before)
              (map_option (\<lambda>i. buffers s ! i) t) (tables s))))"

section \<open>The SQLite saver\<close>

definition sqlite_put :: "'o langgraph \<Rightarrow> seconds \<Rightarrow> config \<Rightarrow> 'o checkpoint \<Rightarrow> json_object \<Rightarrow> database
    \<Rightarrow> database \<times> (saver_error, json_object) result" where
  "sqlite_put lg now cfg cp metadata db =
     (case prepare_checkpoint lg cfg cp metadata of
        Inl e \<Rightarrow> (db, Inl e)
      | Inr r \<Rightarrow>
          (let ns = (cr_thread_id r, cr_checkpoint_ns r);
               version = current_version_of db ns + 1;
               row = (case map_of (db_checkpoints db) (checkpoint_key r) of
                   None \<Rightarrow> checkpoint_record.extend (r\<lparr>cr_version := version\<rparr>) \<lparr>created_at = now\<rparr>
                 | Some old \<Rightarrow> old\<lparr>cr_parent_checkpoint_id := cr_parent_checkpoint_id r,
                     cr_checkpoint_type := cr_checkpoint_type r, cr_checkpoint_blob := cr_checkpoint_blob r,
                     cr_metadata_type := cr_metadata_type r, cr_metadata_blob := cr_metadata_blob r,
                     cr_version := version\<rparr>);
               db1 = set_version ns version db
           in (db1\<lparr>db_checkpoints := AList.update (checkpoint_key r) row (db_checkpoints db1)\<rparr>,
               Inr (saved_configurable (configurable cfg) r version))))"

fun sqlite_records :: "'o langgraph \<Rightarrow> json_object \<Rightarrow> ustring \<Rightarrow> ustring \<Rightarrow> nat \<Rightarrow> (ustring \<times> 'o channel_value) list
    \<Rightarrow> (saver_error, write_record list) result" where
  "sqlite_records lg c task_id task_path index [] = Inr []"
| "sqlite_records lg c task_id task_path index (cv # cvs) =
     and_then (make_write lg c task_id task_path index cv) (\<lambda>w.
     and_then (sqlite_records lg c task_id task_path (index + 1) cvs) (\<lambda>ws. Inr (w # ws)))"

definition sqlite_put_writes :: "'o langgraph \<Rightarrow> config \<Rightarrow> (ustring \<times> 'o channel_value) list \<Rightarrow> ustring \<Rightarrow> ustring
    \<Rightarrow> database \<Rightarrow> database \<times> (saver_error, unit) result" where
  "sqlite_put_writes lg cfg ws task_id task_path db =
     (case and_then (str_at lg (configurable cfg) ''thread_id'') (\<lambda>t.
         and_then (str_at lg (configurable cfg) ''checkpoint_id'') (\<lambda>i.
         sqlite_records lg (configurable cfg) task_id task_path 0 ws)) of
        Inl e \<Rightarrow> (db, Inl e)
      | Inr rs \<Rightarrow> (fold upsert_write rs db, Inr ()))"

definition sqlite_get_tuple :: "'o langgraph \<Rightarrow> config \<Rightarrow> database
    \<Rightarrow> (saver_error, 'o checkpoint_tuple option) result" where
  "sqlite_get_tuple lg cfg db =
     and_then (str_at lg (configurable cfg) ''thread_id'') (\<lambda>thread_id.
     Inr (map_option (\<lambda>row.
         \<lparr>ct_thread_id = cr_thread_id row, ct_checkpoint_ns = cr_checkpoint_ns row,
          ct_checkpoint_id = cr_checkpoint_id row, ct_version = cr_version row,
          ct_parent_id = (if cr_parent_checkpoint_id row = [] then None else Some (cr_parent_checkpoint_id row)),
          ct_checkpoint = loads_checkpoint lg (cr_checkpoint_type row, cr_checkpoint_blob row),
          ct_metadata = loads_metadata lg (cr_metadata_type row, cr_metadata_blob row),
          ct_pending_writes = map (\<lambda>(k, w). (wr_task_id w, wr_channel w,
            loads_value lg (wr_value_type w, wr_value_blob w))) (writes_of (checkpoint_key row) (db_writes db))\<rparr>)
       (newest thread_id (str_or_empty lg (configurable cfg) ''checkpoint_ns'') (get_checkpoint_id lg cfg)
         (db_checkpoints db))))"

text \<open>\<open>LIMIT n\<close> of the query: a negative number is no limit. The metadata filter comes after it.\<close>

definition sql_limit :: "int option \<Rightarrow> 'a list \<Rightarrow> 'a list" where
  "sql_limit limit xs = (case limit of None \<Rightarrow> xs | Some n \<Rightarrow> if n < 0 then xs else take (nat n) xs)"

definition sqlite_list :: "'o langgraph \<Rightarrow> config option \<Rightarrow> json_object \<Rightarrow> config option \<Rightarrow> int option \<Rightarrow> database
    \<Rightarrow> 'o checkpoint_tuple list \<times> saver_error option" where
  "sqlite_list lg cfg flt before limit db =
     (let c = (case cfg of None \<Rightarrow> [] | Some c \<Rightarrow> configurable c);
          th = str_or_empty lg c ''thread_id''; ns = str_or_empty lg c ''checkpoint_ns'';
          rows = sorted_desc row_order (map (\<lambda>(k, r). (k, cr_version r))
            (filter (\<lambda>(k, r). wanted th ns None k \<and>
               (case before_id lg before of None \<Rightarrow> True | Some i \<Rightarrow> snd (snd k) < i)) (db_checkpoints db)))
      in emit_tuples (\<lambda>k. sqlite_get_tuple lg (key_config k) db) flt None 0 (map fst (sql_limit limit rows)))"

definition sqlite_delete_thread :: "ustring \<Rightarrow> database \<Rightarrow> database" where
  "sqlite_delete_thread thread_id db =
     (let db1 = db\<lparr>db_writes := filter (\<lambda>(k, v). fst k \<noteq> thread_id) (db_writes db)\<rparr>;
          db2 = db1\<lparr>db_checkpoints := filter (\<lambda>(k, v). fst k \<noteq> thread_id) (db_checkpoints db1)\<rparr>
      in db2\<lparr>db_threads := filter (\<lambda>(k, v). fst k \<noteq> thread_id) (db_threads db2)\<rparr>)"

section \<open>Where the backends agree\<close>

text \<open>
  C20: on a checkpoint that is not stored yet the SQLite saver and the MySQL saver (outside of a transaction) do the
  same: same tables, same returned configuration, same errors. On a stored one they differ: MySQL keeps its
  version, SQLite moves the namespace's counter and the checkpoint's version.
\<close>

theorem backends_agree_on_new_checkpoints:
  "case prepare_checkpoint lg cfg cp metadata of
     Inl e \<Rightarrow> sqlite_put lg now cfg cp metadata db = (db, Inl e) \<and>
       put_checkpoint lg None now cfg cp metadata \<lparr>tables = db, buffers = [], registry = []\<rparr>
         = (\<lparr>tables = db, buffers = [], registry = []\<rparr>, Inl e)
   | Inr r \<Rightarrow>
       (case (sqlite_put lg now cfg cp metadata db,
              put_checkpoint lg None now cfg cp metadata \<lparr>tables = db, buffers = [], registry = []\<rparr>) of
          ((ds, qs), (m, qm)) \<Rightarrow>
            (case version_at db (checkpoint_key r) of
               None \<Rightarrow> ds = tables m \<and> qs = qm
             | Some v \<Rightarrow>
                 version_at (tables m) (checkpoint_key r) = Some v \<and>
                 version_at ds (checkpoint_key r) = Some (current_version_of db (cr_thread_id r, cr_checkpoint_ns r) + 1)))"
proof (cases "prepare_checkpoint lg cfg cp metadata")
  case (Inl e)
  then show ?thesis by (simp add: sqlite_put_def put_checkpoint_def)
next
  case (Inr r)
  let ?k = "checkpoint_key r"
  have key: "checkpoint_key (r\<lparr>cr_version := w\<rparr>) = ?k" for w by (simp add: checkpoint_key_def)
  have t: "transaction_for lg None (Some c) \<lparr>tables = db, buffers = [], registry = []\<rparr> = Inr None" for c
    by (simp add: transaction_for_def Let_def)
  have saved: "saved_configurable c (r\<lparr>cr_version := w\<rparr>) v = saved_configurable c r v" for c w v
    by (simp add: saved_configurable_def)
  show ?thesis
  proof (cases "map_of (db_checkpoints db) ?k")
    case None
    then show ?thesis using Inr
      by (simp add: sqlite_put_def put_checkpoint_def t version_at_def put_direct_def upsert_checkpoint_def key Let_def
          checkpoint_record.defs)
  next
    case (Some old)
    then show ?thesis using Inr
      by (simp add: sqlite_put_def put_checkpoint_def t version_at_def put_direct_def upsert_checkpoint_def key Let_def)
  qed
qed

lemma delete_thread_agrees: "sqlite_delete_thread t db = delete_thread t db"
  by (simp add: sqlite_delete_thread_def delete_thread_def)

section \<open>Where listing loses checkpoints\<close>

lemma emit_nothing: "(\<And>k. get k = Inr None) \<Longrightarrow> emit_tuples get flt limit n ks = ([], None)"
  by (induction ks) simp_all

lemma key_config_outside: "transaction_for lg None (Some (configurable (key_config k))) s = Inr None"
  by (simp add: transaction_for_def key_config_def str_or_empty_def strip_def Let_def)

text \<open>
  Outside of the context that entered the transaction (the background threads LangGraph uses), \<open>list\<close> finds the
  buffer through the registry, but reads each row with a configuration that names no execution and so misses the
  buffer: no buffered checkpoint is ever listed.
\<close>

theorem list_outside_the_context_misses_buffered_checkpoints:
  assumes "db_checkpoints (tables s) = []"
  shows "fst (list_checkpoints lg None cfg flt before limit s) = []"
proof -
  have "get_tuple lg None (key_config k) s = Inr None" for k
    using key_config_outside [of lg k s] assms
    by (simp add: get_tuple_def str_at_def read_tuple_def newest_def) (simp add: key_config_def)
  then show ?thesis by (simp add: list_checkpoints_def emit_nothing split: sum.split)
qed

theorem list_outside_the_context_misses_buffered_checkpoints_witness:
  "tx_checkpoints (buffers written_saver ! 0) \<noteq> [] \<and>
   map_of (registry written_saver) ([65], [66]) = Some 0 \<and>
   fst (list_checkpoints example_langgraph None (Some example_config) [] None None written_saver) = []"
proof -
  have "db_checkpoints (tables written_saver) = []"
    by (simp add: written_saver_eq entered_saver_eq empty_saver_def)
  from list_outside_the_context_misses_buffered_checkpoints [OF this]
  have "fst (list_checkpoints example_langgraph None (Some example_config) [] None None written_saver) = []" .
  moreover have "tx_checkpoints (buffers written_saver ! 0) \<noteq> []" "map_of (registry written_saver) ([65], [66]) = Some 0"
    by (simp_all add: written_saver_eq entered_saver_eq example_buffer_def)
  ultimately show ?thesis by blast
qed

text \<open>The MySQL listing yields a tuple before it tests the limit; SQLite limits the rows before it filters them.\<close>

lemma emit_limit_zero:
  "get k = Inr (Some t) \<Longrightarrow> flt = [] \<Longrightarrow> emit_tuples get flt (Some 0) 0 (k # ks) = ([t], None)"
  by simp

lemma sqlite_limit_before_filter:
  assumes "sql_limit limit rows = [row]" and "get (fst row) = Inr (Some t)" and "flt \<noteq> []"
    and "\<not> metadata_matches (ct_metadata t) flt"
  shows "emit_tuples get flt None 0 (map fst (sql_limit limit rows)) = ([], None)"
  using assms by simp

end
