(* ===== verification/ConnectionPool.thy ===== *)
theory ConnectionPool
  imports Interfaces
begin

text \<open>
  The connection pool of \<open>persistence/mysql_pool.py\<close> under any interleaving of its users. A connection is a
  number; \<open>in_use\<close> are the connections callers hold and \<open>waiting\<close> the number of callers blocked in
  \<open>Queue.get\<close>. The outcomes the pool does not control (whether the factory connects, whether a rollback or the
  caller's block raises) are arguments of the operations, so that a run may take any of them. Looking for a free connection and growing the pool
  are one step here; in the code another caller may come between them, which then finds or grows what this one would have.
\<close>

section \<open>Operations\<close>

record pool =
  pool_size :: int
  free_connections :: "nat list"
  created_connections :: int
  next_connection :: nat
  in_use :: "nat list"
  waiting :: nat

definition new_pool :: "int \<Rightarrow> pool" where
  "new_pool limit = \<lparr>pool_size = max 1 limit, free_connections = [], created_connections = 0,
     next_connection = 0, in_use = [], waiting = 0\<rparr>"

text \<open>\<open>_connection_factory()\<close>: a fresh connection, or an exception.\<close>

datatype acquired = Got nat | ConnectFailed | Blocks

definition acquire :: "bool \<Rightarrow> pool \<Rightarrow> pool \<times> acquired" where
  "acquire connects p = (case free_connections p of
       c # cs \<Rightarrow> (p\<lparr>free_connections := cs, in_use := c # in_use p\<rparr>, Got c)
     | [] \<Rightarrow>
         if created_connections p < pool_size p then
           (let p1 = p\<lparr>created_connections := created_connections p + 1\<rparr>;
                c = next_connection p
            in if connects then (p1\<lparr>next_connection := c + 1, in_use := c # in_use p\<rparr>, Got c)
               else (p1, ConnectFailed))
         else (p\<lparr>waiting := waiting p + 1\<rparr>, Blocks))"

text \<open>A blocked caller continues when the queue has a connection.\<close>

definition resume_waiter :: "pool \<Rightarrow> pool option" where
  "resume_waiter p = (case free_connections p of
       [] \<Rightarrow> None
     | c # cs \<Rightarrow> if waiting p = 0 then None
         else Some (p\<lparr>free_connections := cs, in_use := c # in_use p, waiting := waiting p - 1\<rparr>))"

definition queue_full :: "pool \<Rightarrow> bool" where
  "queue_full p \<longleftrightarrow> pool_size p \<le> int (length (free_connections p))"

definition retire_and_replenish :: "bool \<Rightarrow> nat \<Rightarrow> pool \<Rightarrow> pool" where
  "retire_and_replenish connects c p =
     (let p1 = p\<lparr>in_use := remove1 c (in_use p), created_connections := created_connections p - 1\<rparr>
      in if connects then
           (let p2 = p1\<lparr>created_connections := created_connections p1 + 1, next_connection := next_connection p1 + 1\<rparr>
            in if queue_full p2 then p2
               else p2\<lparr>free_connections := free_connections p2 @ [next_connection p1]\<rparr>)
         else p1)"

definition release :: "bool \<Rightarrow> bool \<Rightarrow> nat \<Rightarrow> pool \<Rightarrow> pool" where
  "release rolls_back connects c p =
     (if \<not> rolls_back then retire_and_replenish connects c p
      else if queue_full p then retire_and_replenish connects c p
      else p\<lparr>in_use := remove1 c (in_use p), free_connections := free_connections p @ [c]\<rparr>)"

text \<open>Leaving \<open>with pool.connection()\<close>: a block that raised retires its connection.\<close>

definition leave_block :: "bool \<Rightarrow> bool \<Rightarrow> bool \<Rightarrow> nat \<Rightarrow> pool \<Rightarrow> pool" where
  "leave_block raised rolls_back connects c p =
     (if raised then retire_and_replenish connects c p else release rolls_back connects c p)"

inductive pool_step :: "pool \<Rightarrow> pool \<Rightarrow> bool" where
  enter: "pool_step p (fst (acquire connects p))"
| wake: "resume_waiter p = Some q \<Longrightarrow> pool_step p q"
| leave: "c \<in> set (in_use p) \<Longrightarrow> pool_step p (leave_block raised rolls_back connects c p)"

section \<open>Bounds\<close>

text \<open>The counter covers every open connection; what it exceeds them by was lost to failed connects.\<close>

definition open_connections :: "pool \<Rightarrow> nat" where
  "open_connections p = length (free_connections p) + length (in_use p)"

definition pool_ok :: "pool \<Rightarrow> bool" where
  "pool_ok p \<longleftrightarrow> int (open_connections p) \<le> created_connections p \<and> created_connections p \<le> pool_size p \<and>
     distinct (free_connections p @ in_use p) \<and> (\<forall>c \<in> set (free_connections p @ in_use p). c < next_connection p)"

lemma acquire_ok: "pool_ok p \<Longrightarrow> pool_ok (fst (acquire connects p))"
  by (auto simp: acquire_def pool_ok_def open_connections_def Let_def less_Suc_eq split: list.split)

lemma resume_waiter_ok: "pool_ok p \<Longrightarrow> resume_waiter p = Some q \<Longrightarrow> pool_ok q"
  by (auto simp: resume_waiter_def pool_ok_def open_connections_def split: list.splits if_splits)

lemma not_full: 
  "pool_ok p \<Longrightarrow> c \<in> set (in_use p) \<Longrightarrow> int (length (free_connections p)) < pool_size p"
  by (cases "in_use p") (auto simp: pool_ok_def open_connections_def)

lemma length_remove_in_use: "c \<in> set cs \<Longrightarrow> int (length (remove1 c cs)) = int (length cs) - 1"
  using length_pos_if_in_set [of c cs] by (simp add: length_remove1 del: length_greater_0_conv)

lemma retire_ok:
  assumes ok: "pool_ok p" and c: "c \<in> set (in_use p)"
  shows "pool_ok (retire_and_replenish connects c p)"
proof -
  have "\<not> queue_full (p\<lparr>in_use := cs, created_connections := n, next_connection := m\<rparr>)" for cs n m
    using not_full [OF ok c] by (simp add: queue_full_def)
  moreover have "set (remove1 c (in_use p)) \<subseteq> set (in_use p)" by (rule set_remove1_subset)
  ultimately show ?thesis
    using ok length_remove_in_use [OF c]
    by (auto simp: retire_and_replenish_def pool_ok_def open_connections_def Let_def queue_full_def less_Suc_eq
        dest: notin_set_remove1)
qed

lemma leave_ok:
  assumes ok: "pool_ok p" and c: "c \<in> set (in_use p)"
  shows "pool_ok (leave_block raised rolls_back connects c p)"
proof -
  have "pool_ok (p\<lparr>in_use := remove1 c (in_use p), free_connections := free_connections p @ [c]\<rparr>)"
    using ok c length_remove_in_use [OF c] set_remove1_subset [of c "in_use p"]
    by (auto simp: pool_ok_def open_connections_def dest: notin_set_remove1)
  then show ?thesis
    using retire_ok [OF ok c] not_full [OF ok c] by (simp add: leave_block_def release_def queue_full_def)
qed

interpretation pool: safe_system "\<lambda>p. p = new_pool limit" pool_step pool_ok for limit
proof
  show "p = new_pool limit \<Longrightarrow> pool_ok p" for p
    by (simp add: new_pool_def pool_ok_def open_connections_def)
  show "pool_ok p \<Longrightarrow> pool_step p q \<Longrightarrow> pool_ok q" for p q
    by (erule pool_step.cases) (auto simp: acquire_ok resume_waiter_ok leave_ok)
qed

lemma pool_size_step: "pool_step p q \<Longrightarrow> pool_size q = pool_size p"
  by (erule pool_step.cases)
    (auto simp: acquire_def resume_waiter_def leave_block_def release_def retire_and_replenish_def Let_def
      split: list.splits if_splits)

lemma pool_size_run: "pool_step\<^sup>*\<^sup>* p q \<Longrightarrow> pool_size q = pool_size p"
  by (induction rule: rtranclp_induct) (simp_all add: pool_size_step)

text \<open>
  C21: whatever the interleaving and whatever fails, the pool never has more open connections than its size (at
  least one), and no connection is held twice or both held and free.
\<close>

theorem pool_never_exceeds_its_size:
  assumes "pool_step\<^sup>*\<^sup>* (new_pool limit) p"
  shows "int (open_connections p) \<le> max 1 limit \<and> distinct (free_connections p @ in_use p)"
proof -
  have "pool_ok p" by (rule pool.reachable_inv [OF refl assms])
  then show ?thesis using pool_size_run [OF assms] by (simp add: pool_ok_def new_pool_def)
qed

theorem pool_never_exceeds_its_size_witness:
  "int (open_connections (fst (acquire True (new_pool 0)))) \<le> 1"
proof -
  have "pool_step\<^sup>*\<^sup>* (new_pool 0) (fst (acquire True (new_pool 0)))"
    by (rule r_into_rtranclp [of pool_step, OF pool_step.enter])
  then show ?thesis using pool_never_exceeds_its_size [of 0] by simp
qed

section \<open>Lost slots\<close>

text \<open>
  \<open>_acquire\<close> counts a connection before the factory creates it and does not give the slot back when the factory
  raises. As many failed connects as the pool has slots leave a pool without a connection that never creates
  another: every later caller blocks for ever.
\<close>

definition exhausted :: "pool \<Rightarrow> bool" where
  "exhausted p \<longleftrightarrow> free_connections p = [] \<and> in_use p = [] \<and> pool_size p \<le> created_connections p"

lemma exhausted_step: "exhausted p \<Longrightarrow> pool_step p q \<Longrightarrow> exhausted q"
  by (erule pool_step.cases) (auto simp: exhausted_def acquire_def resume_waiter_def)

lemma exhausted_run: "pool_step\<^sup>*\<^sup>* p q \<Longrightarrow> exhausted p \<Longrightarrow> exhausted q"
  by (induction rule: rtranclp_induct) (auto intro: exhausted_step)

lemma failed_connects:
  "int n \<le> max 1 limit \<Longrightarrow> pool_step\<^sup>*\<^sup>* (new_pool limit) ((new_pool limit)\<lparr>created_connections := int n\<rparr>)"
proof (induction n)
  case 0
  have "(new_pool limit)\<lparr>created_connections := int 0\<rparr> = new_pool limit" by (simp add: new_pool_def)
  then show ?case by simp
next
  case (Suc n)
  let ?p = "(new_pool limit)\<lparr>created_connections := int n\<rparr>"
  have "fst (acquire False ?p) = (new_pool limit)\<lparr>created_connections := int (Suc n)\<rparr>"
    using Suc.prems by (simp add: acquire_def new_pool_def Let_def)
  with pool_step.enter [of ?p False] Suc show ?case by (simp add: rtranclp.rtrancl_into_rtrancl)
qed

text \<open>
  C22: a database outage can kill the pool for good. A run of failed connects reaches a state from which no run
  ever hands out a connection again, although from then on every connect may succeed.
\<close>

theorem failed_connects_exhaust_the_pool:
  "\<exists>p. pool_step\<^sup>*\<^sup>* (new_pool limit) p \<and> 
     {q. pool_step\<^sup>*\<^sup>* p q} \<subseteq> {q. open_connections q = 0 \<and> snd (acquire True q) = Blocks}"
proof -
  let ?p = "(new_pool limit)\<lparr>created_connections := int (nat (max 1 limit))\<rparr>"
  have "pool_step\<^sup>*\<^sup>* (new_pool limit) ?p" by (rule failed_connects) simp
  moreover have "exhausted ?p" by (simp add: exhausted_def new_pool_def)
  then have "open_connections q = 0 \<and> snd (acquire True q) = Blocks" if "pool_step\<^sup>*\<^sup>* ?p q" for q
    using exhausted_run [OF that] by (simp add: exhausted_def open_connections_def acquire_def)
  ultimately show ?thesis by blast
qed

end
