(* ===== verification/Projection.thy ===== *)
theory Projection
  imports WorkflowGraph Json "HOL-Library.Char_ord"
begin

text \<open>
  What the harness reports of a finished graph: the projection half of
  \<open>services/agent-runtime/allcallall_agent_runtime/orchestration/harness.py\<close> with the models of
  \<open>models/trace.py\<close> and \<open>models/workflows.py\<close> it fills: loop traces per role, budgets, the fallback critic
  verdict, the stop reason, the tool-call contract and the pending approval.

  SHA-256 (as lower-case hex of the UTF-8 text) and \<open>repr\<close> of a float are parameters. A projection that raises
  (an iteration in the metadata of a trace event that is no number) is \<^term>\<open>None\<close>. Messages of exceptions are
  \<^typ>\<open>string\<close>.
\<close>

section \<open>Models\<close>

datatype loop_stop =
    StopCompleted | StopConfidenceReached | StopMaxIterations | StopInsufficientContext | StopToolError
  | StopNoToolNeeded

record loop_budget =
  lb_max_steps :: int
  lb_used_steps :: int
  lb_read_tool_calls :: int
  lb_write_tool_proposals :: int

record loop_spec =
  lp_role :: string
  lp_objective :: ustring
  lp_max_steps :: int
  lp_allowed_tools :: "string list"
  lp_stop_conditions :: "string list"

record loop_step =
  ls_iteration :: int
  ls_role :: string
  ls_thought_summary :: ustring
  ls_selected_skill :: string
  ls_input_schema :: json_object
  ls_observation :: ustring
  ls_citation_ids :: "string list"
  ls_confidence :: rat
  ls_stop_reason :: loop_stop
  ls_budget_used :: loop_budget

record loop_trace =
  lt_role :: string
  lt_spec :: loop_spec
  lt_steps :: "loop_step list"
  lt_stop_reason :: loop_stop
  lt_completed :: bool
  lt_budget :: loop_budget
  lt_termination_signal :: "termination_signal option"

record route_decision =
  rd_route :: string
  rd_intent :: string
  rd_target_workflow :: string
  rd_confidence :: rat
  rd_rationale :: string
  rd_retrieval_strategy :: string

record harness_metadata =
  hm_name :: string
  hm_graph_name :: string
  hm_runtime :: string
  hm_prompt_version :: string
  hm_input_modalities :: "string list"

record pending_approval_tool =
  pt_tool_call_id :: string
  pt_tool_name :: string
  pt_arguments :: json_object
  pt_arguments_sha256 :: string
  pt_reason :: ustring
  pt_mcp_installation_id :: int
  pt_mcp_revision_id :: int
  pt_mcp_tool_id :: int

record pending_approval =
  pa_approval_request_id :: string
  pa_tools :: "pending_approval_tool list"

datatype run_status = Ready | RequiresAction | RunFailed

record workflow_response =
  rs_status :: run_status
  rs_provider :: string
  rs_execution_id :: string
  rs_checkpoint_id :: string
  rs_checkpoint_version :: int
  rs_summary :: ustring
  rs_action_items :: "ustring list"
  rs_next_step :: ustring
  rs_risk_flags :: "ustring list"
  rs_citations :: "citation list"
  rs_role_results :: "role_result list"
  rs_trace_events :: "trace_event list"
  rs_proposed_tool_calls :: "tool_proposal list"
  rs_pending_approval :: "pending_approval option"
  rs_approval_decisions :: "approval_decision list"
  rs_prompt_version :: string
  rs_grounding_check_result :: "grounding_summary option"
  rs_retrieval_plan :: retrieval_plan
  rs_retrieval_attempts :: "retrieval_attempt list"
  rs_evidence_pack :: evidence_pack
  rs_context_sufficiency :: context_sufficiency
  rs_intent_route :: intent_route
  rs_route_decision :: route_decision
  rs_critic_result :: critic_result
  rs_harness :: harness_metadata
  rs_loop_traces :: "loop_trace list"
  rs_stop_reason :: string
  rs_budget :: loop_budget
  rs_graph_expansion :: graph_expansion
  rs_memory_reflection :: memory_reflection
  rs_risk_assessment :: risk_assessment
  rs_output_decision :: "output_decision option"
  rs_termination_signals :: "termination_signal list"
  rs_error :: string

definition loop_budget0 :: loop_budget where
  "loop_budget0 = \<lparr>lb_max_steps = 0, lb_used_steps = 0, lb_read_tool_calls = 0, lb_write_tool_proposals = 0\<rparr>"

section \<open>Loop traces\<close>

definition role_max_steps :: "int \<Rightarrow> workflow_request \<Rightarrow> string \<Rightarrow> int" where
  "role_max_steps loop_max_steps rq rl =
     (let usual = (if rl = ''searcher'' then 3 else if rl = ''risk_analyst'' then 2
        else if rl = ''risk_guardian'' then 2 else if rl = ''memory_agent'' then 1
        else if rl = ''follow_up_planner'' then 2 else 1);
          asked = (case map_of (rq_max_iterations rq) rl of None \<Rightarrow> usual | Some n \<Rightarrow> n)
      in max 1 (min asked loop_max_steps))"

definition role_objective :: "workflow_request \<Rightarrow> string \<Rightarrow> ustring" where
  "role_objective rq rl =
     (if rl = ''risk_analyst'' then
        codes ''Inspect retrieved evidence for approval, blocker, timeline, or policy risk.''
      else if rl = ''memory_agent'' then
        codes ''Summarize durable memory and decide whether reflection should be proposed.''
      else if rl = ''follow_up_planner'' then
        codes ''Extract owner-bound action items and propose follow-up writes through approval.''
      else codes ''Collect evidence for preset='' @ codes (rq_preset rq) @ codes '' goal='' @ take 120 (rq_goal rq))"

definition last_event :: "trace_event list \<Rightarrow> string \<Rightarrow> trace_event option" where
  "last_event evs name = List.find (\<lambda>e. ev_event e = name) (rev evs)"

definition event_iteration :: "trace_event \<Rightarrow> int option" where
  "event_iteration e =
     (let declared = (case ev_iteration e of None \<Rightarrow> 0 | Some i \<Rightarrow> i)
      in if declared \<noteq> 0 then Some declared
         else (case map_of (ev_metadata e) ''iteration'' of
                 None \<Rightarrow> Some 0 | Some v \<Rightarrow> if truthy v then json_int v else Some 0))"

text \<open>The events of a loop with their iteration; events of iteration 0 are left out.\<close>

fun numbered_events :: "trace_event list \<Rightarrow> (int \<times> trace_event) list option" where
  "numbered_events [] = Some []"
| "numbered_events (e # es) =
     (case event_iteration e of
        None \<Rightarrow> None
      | Some i \<Rightarrow> map_option (\<lambda>rest. if i \<noteq> 0 then (i, e) # rest else rest) (numbered_events es))"

definition events_at :: "(int \<times> trace_event) list \<Rightarrow> int \<Rightarrow> trace_event list" where
  "events_at evs i = map snd (filter (\<lambda>x. fst x = i) evs)"

definition iterations :: "(int \<times> trace_event) list \<Rightarrow> int list" where
  "iterations evs = sort (remdups (map fst evs))"

definition citation_ids_of :: "citation list \<Rightarrow> string list" where
  "citation_ids_of cits =
     filter (\<lambda>i. i \<noteq> '''') (map (\<lambda>c. if cit_chunk_id c \<noteq> '''' then cit_chunk_id c else cit_source_id c) cits)"

definition loop_step_of :: "int \<Rightarrow> role_result \<Rightarrow> int \<Rightarrow> trace_event list \<Rightarrow> loop_step" where
  "loop_step_of max_steps r i evs =
     (let observation_event = (case last_event evs ''react.observe'' of
          None \<Rightarrow> last_event evs ''tool.result'' | Some e \<Rightarrow> Some e);
          tool_event = (case last_event evs ''tool.call'' of None \<Rightarrow> observation_event | Some e \<Rightarrow> Some e);
          failed = list_ex (\<lambda>e. ev_status e = ''failed'') evs;
          ids = citation_ids_of (rr_citations r)
      in \<lparr>ls_iteration = i, ls_role = rr_role r,
          ls_thought_summary = take 240 (case observation_event of None \<Rightarrow> [] | Some e \<Rightarrow> ev_thought e),
          ls_selected_skill = (case tool_event of None \<Rightarrow> '''' | Some e \<Rightarrow> ev_tool_name e),
          ls_input_schema = (case tool_event of None \<Rightarrow> [] | Some e \<Rightarrow> ev_tool_input e),
          ls_observation = take 600 (case observation_event of None \<Rightarrow> [] | Some e \<Rightarrow> ev_observation e),
          ls_citation_ids = sort (remdups ids),
          ls_confidence = min 1 (35 / 100 + 15 / 100 * of_nat (length ids)),
          ls_stop_reason = (if failed then StopToolError
            else if max_steps \<le> i then StopMaxIterations else StopCompleted),
          ls_budget_used = loop_budget0\<lparr>lb_max_steps := max_steps, lb_used_steps := i,
            lb_read_tool_calls := int (length (filter (\<lambda>e. ev_event e = ''tool.call'') evs))\<rparr>\<rparr>)"

definition loop_stop_reason :: "int \<Rightarrow> loop_step list \<Rightarrow> loop_stop" where
  "loop_stop_reason max_steps steps =
     (if steps = [] then StopNoToolNeeded
      else if list_ex (\<lambda>s. ls_stop_reason s = StopToolError) steps then StopToolError
      else if max_steps \<le> int (length steps) then StopMaxIterations
      else if list_ex (\<lambda>s. 6 / 10 \<le> ls_confidence s) steps then StopConfidenceReached
      else StopCompleted)"

definition loop_trace_of :: "int \<Rightarrow> workflow_request \<Rightarrow> role_result \<Rightarrow> (int \<times> trace_event) list \<Rightarrow> loop_trace" where
  "loop_trace_of loop_max_steps rq r numbered =
     (let max_steps = role_max_steps loop_max_steps rq (rr_role r);
          role_events = rr_react_trace r;
          steps = map (\<lambda>i. loop_step_of max_steps r i (events_at numbered i)) (iterations numbered);
          loop_stop = loop_stop_reason max_steps steps
      in \<lparr>lt_role = rr_role r,
          lt_spec = \<lparr>lp_role = rr_role r, lp_objective = role_objective rq (rr_role r), lp_max_steps = max_steps,
            lp_allowed_tools = sort (remdups (map ev_tool_name (filter
              (\<lambda>e. ev_tool_name e \<noteq> '''' \<and> ev_event e \<in> {''tool.call'', ''react.observe''}) role_events))),
            lp_stop_conditions = [''confidence_reached'', ''max_iterations'', ''tool_error'']\<rparr>,
          lt_steps = steps, lt_stop_reason = loop_stop, lt_completed = (loop_stop \<noteq> StopToolError),
          lt_budget = loop_budget0\<lparr>lb_max_steps := max_steps, lb_used_steps := int (length steps),
            lb_read_tool_calls := int (length (filter
              (\<lambda>e. ev_event e = ''tool.call'' \<and> ev_tool_name e \<noteq> '''') role_events))\<rparr>,
          lt_termination_signal = rr_termination_signal r\<rparr>)"

fun loop_traces :: "int \<Rightarrow> workflow_request \<Rightarrow> role_result list \<Rightarrow> loop_trace list option" where
  "loop_traces loop_max_steps rq [] = Some []"
| "loop_traces loop_max_steps rq (r # rs) =
     (if rr_react_trace r = [] then loop_traces loop_max_steps rq rs
      else (case numbered_events (rr_react_trace r) of
              None \<Rightarrow> None
            | Some numbered \<Rightarrow>
                map_option (\<lambda>ts. loop_trace_of loop_max_steps rq r numbered # ts)
                  (loop_traces loop_max_steps rq rs)))"

definition aggregate_budget :: "loop_trace list \<Rightarrow> tool_proposal list \<Rightarrow> loop_budget" where
  "aggregate_budget lts proposed =
     \<lparr>lb_max_steps = (\<Sum>l\<leftarrow>lts. lb_max_steps (lt_budget l)), lb_used_steps = (\<Sum>l\<leftarrow>lts. lb_used_steps (lt_budget l)),
      lb_read_tool_calls = (\<Sum>l\<leftarrow>lts. lb_read_tool_calls (lt_budget l)),
      lb_write_tool_proposals = int (length proposed)\<rparr>"

section \<open>The tool-call contract\<close>

definition canonical_arguments_digest :: "(ustring \<Rightarrow> string) \<Rightarrow> (rat \<Rightarrow> ustring) \<Rightarrow> json_object \<Rightarrow> string" where
  "canonical_arguments_digest sha float_repr arguments =
     sha (json_dumps float_repr True (sort_members (JObj arguments)))"

definition tool_call_id :: "(ustring \<Rightarrow> string) \<Rightarrow> tool_proposal \<Rightarrow> string \<Rightarrow> nat \<Rightarrow> string" where
  "tool_call_id sha p execution_id index =
     (let candidate = (if tp_tool_call_id p \<noteq> '''' then tp_tool_call_id p else tp_idempotency_key p)
      in if candidate \<noteq> '''' \<and> length candidate \<le> 96 then candidate
         else if candidate \<noteq> '''' then execution_id @ '':'' @ take 24 (sha (codes candidate))
         else execution_id @ '':'' @ show_id (int index + 1))"

definition contract_tool_calls :: "(ustring \<Rightarrow> string) \<Rightarrow> string \<Rightarrow> tool_proposal list \<Rightarrow> tool_proposal list" where
  "contract_tool_calls sha execution_id ps =
     map (\<lambda>(index, p). p\<lparr>tp_tool_call_id := tool_call_id sha p execution_id index\<rparr>) (enumerate 0 ps)"

definition approval_request_id :: "(ustring \<Rightarrow> string) \<Rightarrow> string \<Rightarrow> string" where
  "approval_request_id sha execution_id =
     (let i = execution_id @ '':approval''
      in if 96 < length i then ''approval:'' @ take 32 (sha (codes execution_id)) else i)"

definition pending_tool :: "(ustring \<Rightarrow> string) \<Rightarrow> (rat \<Rightarrow> ustring) \<Rightarrow> tool_proposal \<Rightarrow> pending_approval_tool" where
  "pending_tool sha float_repr p =
     \<lparr>pt_tool_call_id = tp_tool_call_id p, pt_tool_name = tp_tool_name p, pt_arguments = tp_arguments p,
      pt_arguments_sha256 = canonical_arguments_digest sha float_repr (tp_arguments p), pt_reason = tp_reason p,
      pt_mcp_installation_id = tp_mcp_installation_id p, pt_mcp_revision_id = tp_mcp_revision_id p,
      pt_mcp_tool_id = tp_mcp_tool_id p\<rparr>"

definition pending_approval_of ::
  "(ustring \<Rightarrow> string) \<Rightarrow> (rat \<Rightarrow> ustring) \<Rightarrow> string \<Rightarrow> tool_proposal list \<Rightarrow> pending_approval option" where
  "pending_approval_of sha float_repr execution_id ps =
     (if ps = [] then None
      else Some \<lparr>pa_approval_request_id = approval_request_id sha execution_id,
                 pa_tools = map (pending_tool sha float_repr) ps\<rparr>)"

section \<open>Verdicts\<close>

text \<open>The verdict of the harness when the graph state carries none.\<close>

definition projected_critic :: "context_sufficiency \<Rightarrow> grounding_summary option \<Rightarrow> evidence_pack
    \<Rightarrow> tool_proposal list \<Rightarrow> loop_trace list \<Rightarrow> critic_result" where
  "projected_critic sufficiency grounding pack proposed lts =
     (let grounding_passed = (case grounding of None \<Rightarrow> True | Some g \<Rightarrow> gs_grounded g);
          budget_respected = list_all (\<lambda>l. lb_used_steps (lt_budget l) \<le> lb_max_steps (lt_budget l)) lts;
          write_safe = list_all tp_approval_required proposed
      in \<lparr>cr_passed = (grounding_passed \<and> budget_respected \<and> write_safe),
          cr_issues = (if grounding_passed then [] else [''grounding_failed'']) @
            (if budget_respected then [] else [''loop_budget_exceeded'']) @
            (if write_safe then [] else [''unsafe_write_proposal'']) @
            (if cs_sufficient sufficiency then [] else [''insufficient_context_guarded'']),
          cr_citation_coverage = ep_coverage pack, cr_budget_respected = budget_respected,
          cr_write_proposal_safe = write_safe, cr_grounding_passed = grounding_passed,
          cr_context_sufficient = cs_sufficient sufficiency\<rparr>)"

definition response_stop_reason :: "run_status \<Rightarrow> context_sufficiency \<Rightarrow> critic_result \<Rightarrow> loop_trace list \<Rightarrow> string" where
  "response_stop_reason status sufficiency critic lts =
     (if \<not> cs_sufficient sufficiency then ''insufficient_context''
      else if \<not> cr_grounding_passed critic then ''grounding_failed''
      else if status = RequiresAction then ''approval_required''
      else if list_ex (\<lambda>l. lt_stop_reason l = StopMaxIterations) lts then ''max_iterations''
      else ''completed'')"

definition route_decision_of :: "workflow_request \<Rightarrow> intent_route \<Rightarrow> route_decision" where
  "route_decision_of rq ir =
     \<lparr>rd_route =
        (if rq_preset rq = ''meeting_brief'' then ''MEETING_RECAP''
         else if rq_preset rq = ''follow_up_planner'' then ''FOLLOW_UP''
         else if ir_intent ir = ''risk'' \<or> rq_preset rq = ''risk_review'' then ''RISK''
         else if ir_intent ir = ''consult'' \<or> rq_preset rq = ''context_qa'' then ''CONSULT''
         else ''CHAT''),
      rd_intent = ir_intent ir,
      rd_target_workflow = (if rq_preset rq \<noteq> '''' then rq_preset rq else ir_target_workflow ir),
      rd_confidence = ir_confidence ir, rd_rationale = ir_rationale ir,
      rd_retrieval_strategy = ir_retrieval_strategy ir\<rparr>"

definition input_modality :: "attachment \<Rightarrow> string" where
  "input_modality a =
     (if at_modality a = ''image'' then ''image_metadata''
      else if at_modality a = ''audio'' then ''audio_transcript''
      else if at_modality a = ''video'' then ''video_transcript'' else at_modality a)"

definition harness_metadata_of :: "workflow_request \<Rightarrow> string \<Rightarrow> harness_metadata" where
  "harness_metadata_of rq prompt_version =
     \<lparr>hm_name = ''allcallall_v1'', hm_graph_name = ''supervisor_workflow_with_bounded_loops'',
      hm_runtime = ''python_langgraph'', hm_prompt_version = prompt_version,
      hm_input_modalities = sort (remdups ([''text''] @
        (if rq_meeting_transcripts rq \<noteq> [] then [''audio_transcript''] else []) @
        map input_modality (rq_attachments rq)))\<rparr>"

section \<open>The responses\<close>

definition response_from_graph_result :: "(ustring \<Rightarrow> string) \<Rightarrow> (rat \<Rightarrow> ustring) \<Rightarrow> int \<Rightarrow> string
    \<Rightarrow> workflow_request \<Rightarrow> string \<Rightarrow> graph_state \<Rightarrow> string \<Rightarrow> int \<Rightarrow> approval_decision list
    \<Rightarrow> workflow_response option" where
  "response_from_graph_result sha float_repr loop_max_steps override rq provider_name s
       checkpoint_id checkpoint_version decisions =
     (let proposed = contract_tool_calls sha (rq_execution_id rq) (opt_or (st_proposed_tool_calls s) []);
          status = (if proposed \<noteq> [] then RequiresAction else Ready);
          pending = pending_approval_of sha float_repr (rq_execution_id rq) proposed;
          role_results = opt_or (st_role_results s) [];
          ir = opt_or (st_intent_route s) intent_route0;
          sufficiency = opt_or (st_context_sufficiency s) context_sufficiency0;
          pack = opt_or (st_evidence_pack s) evidence_pack0;
          grounding = st_grounding s;
          version = opt_or (st_prompt_version s) (prompt_version_for override rq)
      in case loop_traces loop_max_steps rq role_results of None \<Rightarrow> None | Some lts \<Rightarrow>
         (let critic = (case st_critic_result s of
                Some c \<Rightarrow> c | None \<Rightarrow> projected_critic sufficiency grounding pack proposed lts)
          in Some \<lparr>rs_status = status, rs_provider = provider_name, rs_execution_id = rq_execution_id rq,
            rs_checkpoint_id = checkpoint_id, rs_checkpoint_version = checkpoint_version,
            rs_summary = opt_or (st_summary s) [], rs_action_items = opt_or (st_action_items s) [],
            rs_next_step = opt_or (st_next_step s) [], rs_risk_flags = opt_or (st_risk_flags s) [],
            rs_citations = opt_or (st_citations s) [], rs_role_results = role_results,
            rs_trace_events = opt_or (st_trace_events s) [], rs_proposed_tool_calls = proposed,
            rs_pending_approval = pending, rs_approval_decisions = decisions, rs_prompt_version = version,
            rs_grounding_check_result = grounding,
            rs_retrieval_plan = opt_or (st_retrieval_plan s) retrieval_plan0,
            rs_retrieval_attempts = opt_or (st_retrieval_attempts s) [], rs_evidence_pack = pack,
            rs_context_sufficiency = sufficiency, rs_intent_route = ir,
            rs_route_decision = route_decision_of rq ir, rs_critic_result = critic,
            rs_harness = harness_metadata_of rq version, rs_loop_traces = lts,
            rs_stop_reason = response_stop_reason status sufficiency critic lts,
            rs_budget = aggregate_budget lts proposed,
            rs_graph_expansion = opt_or (st_graph_expansion s) graph_expansion0,
            rs_memory_reflection = opt_or (st_memory_reflection s) memory_reflection0,
            rs_risk_assessment = opt_or (st_risk_assessment s) risk_assessment0,
            rs_output_decision = st_output_decision s,
            rs_termination_signals = List.map_filter rr_termination_signal role_results, rs_error = ''''\<rparr>))"

definition failure_response :: "string \<Rightarrow> workflow_request \<Rightarrow> string \<Rightarrow> string \<Rightarrow> trace_event list
    \<Rightarrow> workflow_response" where
  "failure_response override rq provider_name err trace =
     (let version = prompt_version_for override rq
      in \<lparr>rs_status = RunFailed, rs_provider = provider_name, rs_execution_id = '''', rs_checkpoint_id = '''',
          rs_checkpoint_version = 0, rs_summary = [], rs_action_items = [], rs_next_step = [], rs_risk_flags = [],
          rs_citations = [], rs_role_results = [], rs_trace_events = trace, rs_proposed_tool_calls = [],
          rs_pending_approval = None, rs_approval_decisions = [], rs_prompt_version = version,
          rs_grounding_check_result = None, rs_retrieval_plan = retrieval_plan0, rs_retrieval_attempts = [],
          rs_evidence_pack = evidence_pack0, rs_context_sufficiency = context_sufficiency0,
          rs_intent_route = intent_route0, rs_route_decision = route_decision_of rq intent_route0,
          rs_critic_result = critic_result0\<lparr>cr_passed := False, cr_issues := [err],
            cr_grounding_passed := False, cr_context_sufficient := False\<rparr>,
          rs_harness = harness_metadata_of rq version, rs_loop_traces = [], rs_stop_reason = ''runtime_error'',
          rs_budget = loop_budget0, rs_graph_expansion = graph_expansion0,
          rs_memory_reflection = memory_reflection0, rs_risk_assessment = risk_assessment0,
          rs_output_decision = None, rs_termination_signals = [], rs_error = err\<rparr>)"

section \<open>Well-formed loop traces\<close>

definition step_ok :: "string \<Rightarrow> loop_step \<Rightarrow> bool" where
  "step_ok rl s \<longleftrightarrow>
     ls_role s = rl \<and> ls_iteration s \<noteq> 0 \<and> 35 / 100 \<le> ls_confidence s \<and> ls_confidence s \<le> 1 \<and>
     length (ls_thought_summary s) \<le> 240 \<and> length (ls_observation s) \<le> 600 \<and>
     sorted (ls_citation_ids s) \<and> distinct (ls_citation_ids s) \<and>
     0 \<le> lb_read_tool_calls (ls_budget_used s)"

definition trace_ok :: "int \<Rightarrow> loop_trace \<Rightarrow> bool" where
  "trace_ok limit lt \<longleftrightarrow>
     list_all (step_ok (lt_role lt)) (lt_steps lt) \<and> sorted_wrt (<) (map ls_iteration (lt_steps lt)) \<and>
     1 \<le> lb_max_steps (lt_budget lt) \<and> lb_max_steps (lt_budget lt) \<le> max 1 limit \<and>
     lb_used_steps (lt_budget lt) = int (length (lt_steps lt)) \<and>
     lt_completed lt = list_all (\<lambda>s. ls_stop_reason s \<noteq> StopToolError) (lt_steps lt) \<and>
     (lt_stop_reason lt = StopNoToolNeeded) = (lt_steps lt = [])"

lemma role_max_steps_bounds [bounds_simps]:
  "1 \<le> role_max_steps limit rq rl" "role_max_steps limit rq rl \<le> max 1 limit"
  by (auto simp: role_max_steps_def Let_def)

lemma numbered_events_nonzero: "numbered_events evs = Some xs \<Longrightarrow> 0 \<notin> fst ` set xs"
proof (induction evs arbitrary: xs)
  case (Cons e evs)
  then obtain i ys where "numbered_events evs = Some ys" "xs = (if i \<noteq> 0 then (i, e) # ys else ys)"
    by (auto split: option.splits)
  with Cons.IH [of ys] show ?case by (auto split: if_splits)
qed simp

lemma iterations_props:
  "sorted_wrt (<) (iterations xs)" "set (iterations xs) = fst ` set xs"
  by (simp_all add: iterations_def strict_sorted_iff)

lemma confidence_bounds: "35 / 100 \<le> min 1 (35 / 100 + 15 / 100 * of_nat n :: rat)"
  by simp

lemma loop_step_simps [simp]:
  "ls_iteration (loop_step_of m r i evs) = i"
  "ls_role (loop_step_of m r i evs) = rr_role r"
  by (simp_all add: loop_step_of_def Let_def)

lemma step_ok_loop_step: "i \<noteq> 0 \<Longrightarrow> step_ok (rr_role r) (loop_step_of m r i evs)"
  by (simp add: step_ok_def loop_step_of_def Let_def loop_budget0_def)

lemma loop_trace_simps [simp]:
  "lt_role (loop_trace_of limit rq r xs) = rr_role r"
  "lt_steps (loop_trace_of limit rq r xs) =
     map (\<lambda>i. loop_step_of (role_max_steps limit rq (rr_role r)) r i (events_at xs i)) (iterations xs)"
  by (simp_all add: loop_trace_of_def Let_def)

lemma trace_ok_loop_trace:
  assumes "0 \<notin> fst ` set xs"
  shows "trace_ok limit (loop_trace_of limit rq r xs)"
proof -
  let ?m = "role_max_steps limit rq (rr_role r)"
  let ?t = "loop_trace_of limit rq r xs"
  have "list_all (step_ok (rr_role r)) (lt_steps ?t)"
    using assms iterations_props(2) [of xs] by (auto simp: list_all_iff intro!: step_ok_loop_step)
  moreover have "map ls_iteration (lt_steps ?t) = iterations xs" by (simp add: comp_def)
  moreover have "lt_stop_reason ?t = loop_stop_reason ?m (lt_steps ?t)"
    "lb_max_steps (lt_budget ?t) = ?m" "lb_used_steps (lt_budget ?t) = int (length (lt_steps ?t))"
    "lt_completed ?t = (lt_stop_reason ?t \<noteq> StopToolError)"
    by (simp_all add: loop_trace_of_def Let_def loop_budget0_def)
  moreover have "(loop_stop_reason ?m ss \<noteq> StopToolError) = list_all (\<lambda>s. ls_stop_reason s \<noteq> StopToolError) ss" for ss
    by (auto simp: loop_stop_reason_def list_all_iff list_ex_iff)
  moreover have "(loop_stop_reason ?m ss = StopNoToolNeeded) = (ss = [])" for ss
    by (simp add: loop_stop_reason_def)
  ultimately show ?thesis
    using iterations_props(1) [of xs] role_max_steps_bounds [of limit rq "rr_role r"]
    by (simp add: trace_ok_def)
qed

text \<open>
  C30: the loop traces of a response are well formed, one for each role that has a trace, in their order: a trace
  lists each iteration once in rising order, its budget lies within the configured maximum, texts are trimmed,
  the confidence lies between 0.35 and 1, and a loop is reported completed exactly when no step failed.
\<close>

theorem loop_traces_are_well_formed:
  "case loop_traces limit rq rrs of
     None \<Rightarrow> list_ex (\<lambda>r. numbered_events (rr_react_trace r) = None) rrs
   | Some lts \<Rightarrow> list_all (trace_ok limit) lts \<and>
       map lt_role lts = map rr_role (filter (\<lambda>r. rr_react_trace r \<noteq> []) rrs)"
proof (induction rrs)
  case (Cons r rs)
  then show ?case
    by (cases "numbered_events (rr_react_trace r)"; cases "loop_traces limit rq rs")
      (auto intro!: trace_ok_loop_trace dest: numbered_events_nonzero)
qed simp

section \<open>What the response takes from the graph state\<close>

lemma length_contract [simp]: "length (contract_tool_calls sha e ps) = length ps"
  by (simp add: contract_tool_calls_def)

lemma contract_eq_Nil [simp]: "contract_tool_calls sha e ps = [] \<longleftrightarrow> ps = []"
  by (metis length_0_conv length_contract)

lemma contract_keeps:
  assumes "\<And>p i. f (p\<lparr>tp_tool_call_id := i\<rparr>) = f p"
  shows "map f (contract_tool_calls sha e ps) = map f ps"
proof (rule nth_equalityI)
  fix n
  assume "n < length (map f (contract_tool_calls sha e ps))"
  then show "map f (contract_tool_calls sha e ps) ! n = map f ps ! n"
    by (simp add: contract_tool_calls_def nth_enumerate_eq assms)
qed simp

lemma contract_approval [simp]:
  "list_all tp_approval_required (contract_tool_calls sha e ps) = list_all tp_approval_required ps"
proof -
  have "list_all id (map tp_approval_required (contract_tool_calls sha e ps)) = list_all id (map tp_approval_required ps)"
    by (subst contract_keeps) simp_all
  then show ?thesis by (simp add: list.pred_map)
qed

lemma response_fields:
  assumes "response_from_graph_result sha fr limit ov rq pn s cid v ds = Some r"
  defines "ps \<equiv> contract_tool_calls sha (rq_execution_id rq) (opt_or (st_proposed_tool_calls s) [])"
  shows "rs_proposed_tool_calls r = ps"
    and "rs_status r = (if ps \<noteq> [] then RequiresAction else Ready)"
    and "rs_pending_approval r = pending_approval_of sha fr (rq_execution_id rq) ps"
    and "rs_context_sufficiency r = opt_or (st_context_sufficiency s) context_sufficiency0"
    and "rs_stop_reason r = response_stop_reason (rs_status r) (rs_context_sufficiency r) (rs_critic_result r)
           (rs_loop_traces r)"
    and "rs_execution_id r = rq_execution_id rq" and "rs_checkpoint_version r = v"
    and "rs_approval_decisions r = ds"
proof -
  from assms(1) obtain lts where l: "loop_traces limit rq (opt_or (st_role_results s) []) = Some lts"
    by (cases "loop_traces limit rq (opt_or (st_role_results s) [])")
      (simp_all add: response_from_graph_result_def Let_def)
  note r = assms(1) [symmetric, unfolded response_from_graph_result_def Let_def l option.case option.inject]
  show "rs_proposed_tool_calls r = ps" "rs_status r = (if ps \<noteq> [] then RequiresAction else Ready)"
    "rs_pending_approval r = pending_approval_of sha fr (rq_execution_id rq) ps"
    "rs_context_sufficiency r = opt_or (st_context_sufficiency s) context_sufficiency0"
    "rs_stop_reason r = response_stop_reason (rs_status r) (rs_context_sufficiency r) (rs_critic_result r)
       (rs_loop_traces r)"
    "rs_execution_id r = rq_execution_id rq" "rs_checkpoint_version r = v" "rs_approval_decisions r = ds"
    by (simp_all add: r ps_def)
qed

end
