(* ===== verification/Harness.thy ===== *)
theory Harness
  imports Projection ToolQueueRuns SkillRegistry Compression
begin

text \<open>
  \<open>services/agent-runtime/allcallall_agent_runtime/orchestration/harness.py\<close>: running a workflow.
  \<open>run_workflow\<close> normalises the request, resolves a skill, invokes the compiled graph, hands the proposed writes
  to the tool queue and projects the result.

  LangGraph's compiled graph and its checkpointer are the record \<open>graph_ops\<close> over a durable state \<^typ>\<open>'g\<close>; the
  tool queue is the one of \<open>ToolQueue\<close> over any store. Configuration values, the provider factory, SHA-256 and
  fresh UUIDs are the record \<open>harness_env\<close>. An absent \<open>agent_run_id\<close> is 0: the code only tests its truth.
  Capturing bad cases has no effect on the response and is left to the component that models it.
\<close>

section \<open>The runtime around the harness\<close>

record run_config =
  rg_thread_id :: string
  rg_execution_id :: string
  rg_workflow_run_id :: "int option"
  rg_agent_run_id :: "int option"

text \<open>A snapshot of durable state: whether \<open>values["request"]\<close> is a request, the values, the identity.\<close>

record snapshot =
  sn_has_request :: bool
  sn_values :: graph_state
  sn_checkpoint_id :: string
  sn_checkpoint_version :: int

record provider_failure =
  pf_kind :: string
  pf_message :: string
  pf_retryable :: bool

datatype invocation =
    GraphReturned graph_state
  | GraphCancelled string
  | GraphProviderError provider_failure
  | GraphRaised

record 'g graph_ops =
  g_invoke :: "graph_state \<Rightarrow> run_config \<Rightarrow> 'g \<Rightarrow> 'g \<times> invocation"
  g_get_state :: "'g \<Rightarrow> run_config \<Rightarrow> snapshot option"
  g_history :: "'g \<Rightarrow> run_config \<Rightarrow> nat"
  g_update :: "run_config \<Rightarrow> approval_decision list \<Rightarrow> 'g \<Rightarrow> 'g"

record harness_env =
  he_sha :: "ustring \<Rightarrow> string"
  he_float_repr :: "rat \<Rightarrow> ustring"
  he_loop_max_steps :: int
  he_prompt_override :: string
  he_provider_setting :: string
  he_provider :: "provider_failure + string"
  he_enable_skills :: bool
  he_skill_manifest :: ustring
  he_skill_world :: skill_world
  he_enable_compression :: bool
  he_queue_enabled :: bool
  he_store_kind :: string
  he_task_uuid :: "nat \<Rightarrow> string"
  he_key_uuid :: "nat \<Rightarrow> string"

datatype harness_error =
    CheckpointConflict string
  | CheckpointVersionConflict string
  | SkillLoadFailed skill_error
  | ProjectionFailed
  | Escaped

definition supported_workflows :: "string list" where
  "supported_workflows =
     [''react_general'', ''meeting_brief'', ''risk_review'', ''follow_up_planner'', ''context_qa'']"

section \<open>Durable identity\<close>

definition make_run_config :: "int \<Rightarrow> int \<Rightarrow> string \<Rightarrow> run_config" where
  "make_run_config agent_run_id workflow_run_id execution_id =
     \<lparr>rg_thread_id = ''aca-'' @ show_id (if agent_run_id \<noteq> 0 then agent_run_id else workflow_run_id),
      rg_execution_id = execution_id,
      rg_workflow_run_id = (if workflow_run_id \<noteq> 0 then Some workflow_run_id else None),
      rg_agent_run_id = (if agent_run_id \<noteq> 0 then Some agent_run_id else None)\<rparr>"

definition run_config_of :: "workflow_request \<Rightarrow> run_config" where
  "run_config_of rq = make_run_config (rq_agent_run_id rq) (rq_workflow_run_id rq) (rq_execution_id rq)"

text \<open>Savers without a numeric version (the in-memory one) are given the length of the history.\<close>

definition checkpoint_contract :: "'g graph_ops \<Rightarrow> 'g \<Rightarrow> run_config \<Rightarrow> (harness_error, string \<times> int) result" where
  "checkpoint_contract ops g cfg =
     (case g_get_state ops g cfg of
        None \<Rightarrow> Inl (CheckpointConflict ''runtime checkpoint not found'')
      | Some sn \<Rightarrow>
          (let version = (if sn_checkpoint_version sn = 0 then int (g_history ops g cfg)
                          else sn_checkpoint_version sn)
           in if sn_checkpoint_id sn = '''' then Inl (CheckpointConflict ''runtime checkpoint_id is missing'')
              else Inr (sn_checkpoint_id sn, max 1 version)))"

section \<open>Opt-in enhancements\<close>

definition swallowed :: "skill_error \<Rightarrow> bool" where
  "swallowed e = (case e of
       SkillKeyError n \<Rightarrow> True | SkillValueError m \<Rightarrow> True | SkillOSError \<Rightarrow> True
     | SkillYamlError \<Rightarrow> False | SkillAttributeError \<Rightarrow> False | SkillTypeError \<Rightarrow> False)"

definition skill_name_for :: "registry \<Rightarrow> string \<Rightarrow> ustring option" where
  "skill_name_for r preset =
     (if map_of r (codes preset) \<noteq> None then Some (codes preset)
      else (case r of [] \<Rightarrow> None | (n, s) # r' \<Rightarrow> if sk_name s = [] then None else Some (sk_name s)))"

definition skill_event :: "resolved_skill \<Rightarrow> trace_event" where
  "skill_event k = (trace_event0 ''skill.resolved'' ''harness'')\<lparr>ev_status := ''injected'',
     ev_metadata := [(''skill'', JStr (rk_name k)), (''risk_level'', JStr (rk_risk_level k)),
       (''requires_approval'', JBool (rk_requires_approval k)), (''allowed_tools'', jtexts (rk_allowed_tools k))]\<rparr>"

definition resolve_skill_instructions ::
  "harness_env \<Rightarrow> workflow_request \<Rightarrow> (harness_error, trace_event list \<times> ustring) result" where
  "resolve_skill_instructions env rq =
     (if \<not> he_enable_skills env \<or> he_skill_manifest env = [] then Inr ([], [])
      else (case and_then (build_production_registry (he_skill_world env) (he_skill_manifest env)) (\<lambda>r.
              case skill_name_for r (rq_preset rq) of
                None \<Rightarrow> Inr ([], [])
              | Some n \<Rightarrow> and_then (resolve r n) (\<lambda>k. Inr ([skill_event k], rk_system_instructions k))) of
              Inr x \<Rightarrow> Inr x
            | Inl e \<Rightarrow> if swallowed e then Inr ([], []) else Inl (SkillLoadFailed e)))"

text \<open>A new, empty store is made for every request.\<close>

definition resolve_long_term_memory :: "harness_env \<Rightarrow> workflow_request \<Rightarrow> ustring list" where
  "resolve_long_term_memory env rq = (if \<not> he_enable_compression env then [] else retrieve [] 3)"

section \<open>Handing writes to the queue\<close>

definition setdefault :: "string \<Rightarrow> json \<Rightarrow> json_object \<Rightarrow> json_object" where
  "setdefault k v m = (if map_of m k = None then m @ [(k, v)] else m)"

definition proposal_payload :: "workflow_request \<Rightarrow> tool_proposal \<Rightarrow> json_object" where
  "proposal_payload rq p =
     setdefault ''user_id'' (JInt (rq_user_id rq))
       (setdefault ''organization_id'' (JInt (rq_organization_id rq)) (tp_arguments p))"

definition proposal_key :: "harness_env \<Rightarrow> nat \<Rightarrow> tool_proposal \<Rightarrow> string" where
  "proposal_key env i p =
     (if tp_idempotency_key p \<noteq> '''' then tp_idempotency_key p else tp_tool_name p @ '':'' @ he_key_uuid env i)"

definition enqueue_proposal ::
  "harness_env \<Rightarrow> ('s, json_object) store_ops \<Rightarrow> workflow_request \<Rightarrow> nat \<Rightarrow> tool_proposal \<Rightarrow> 's \<Rightarrow> 's" where
  "enqueue_proposal env ops rq i p s =
     snd (enqueue ops (he_task_uuid env i) (tp_tool_name p) (proposal_payload rq p) (proposal_key env i p)
       (tp_queue_name p) (priority_to_int (tp_priority p)) (tp_rate_limit_key p) (tp_max_attempts p) s)"

fun enqueue_from ::
  "harness_env \<Rightarrow> ('s, json_object) store_ops \<Rightarrow> workflow_request \<Rightarrow> nat \<Rightarrow> tool_proposal list \<Rightarrow> 's \<Rightarrow> 's" where
  "enqueue_from env ops rq i [] s = s"
| "enqueue_from env ops rq i (p # ps) s = enqueue_from env ops rq (i + 1) ps (enqueue_proposal env ops rq i p s)"

definition enqueue_proposals ::
  "harness_env \<Rightarrow> ('s, json_object) store_ops \<Rightarrow> workflow_request \<Rightarrow> tool_proposal list \<Rightarrow> 's \<Rightarrow> 's" where
  "enqueue_proposals env ops rq ps s =
     (if \<not> he_queue_enabled env \<or> ps = [] then s else enqueue_from env ops rq 0 ps s)"

section \<open>Running a workflow\<close>

definition respond ::
  "harness_env \<Rightarrow> workflow_request \<Rightarrow> string \<Rightarrow> graph_state \<Rightarrow> string \<Rightarrow> int \<Rightarrow> approval_decision list
     \<Rightarrow> (harness_error, workflow_response) result" where
  "respond env rq provider s cid version decisions =
     (case response_from_graph_result (he_sha env) (he_float_repr env) (he_loop_max_steps env)
             (he_prompt_override env) rq provider s cid version decisions of
        None \<Rightarrow> Inl ProjectionFailed | Some r \<Rightarrow> Inr r)"

definition finish_run ::
  "harness_env \<Rightarrow> 'g graph_ops \<Rightarrow> workflow_request \<Rightarrow> string \<Rightarrow> graph_state \<Rightarrow> 'g
     \<Rightarrow> (harness_error, workflow_response) result" where
  "finish_run env gops rq provider s g =
     and_then (if rq_execution_id rq \<noteq> '''' \<and> he_store_kind env \<noteq> ''none''
               then checkpoint_contract gops g (run_config_of rq) else Inr ('''', 0)) (\<lambda>(cid, version).
     let proposed = contract_tool_calls (he_sha env) (rq_execution_id rq) (opt_or (st_proposed_tool_calls s) [])
     in respond env rq provider (s\<lparr>st_proposed_tool_calls := Some proposed\<rparr>) cid version [])"

definition failed_run :: "harness_env \<Rightarrow> workflow_request \<Rightarrow> string \<Rightarrow> string \<Rightarrow> trace_event list \<Rightarrow> workflow_response"
where "failed_run env rq provider err trace = failure_response (he_prompt_override env) rq provider err trace"

definition cancelled_run :: "harness_env \<Rightarrow> workflow_request \<Rightarrow> string \<Rightarrow> string \<Rightarrow> workflow_response" where
  "cancelled_run env rq provider reason =
     failed_run env rq provider (''execution cancelled: '' @ reason)
       [(trace_event0 ''execution.cancelled'' ''harness'')\<lparr>ev_status := ''cancelled'',
          ev_metadata := [(''reason'', jstr reason)]\<rparr>]"

definition provider_failed_run :: "harness_env \<Rightarrow> workflow_request \<Rightarrow> string \<Rightarrow> provider_failure \<Rightarrow> workflow_response"
where
  "provider_failed_run env rq provider f =
     failed_run env rq provider (pf_kind f @ '': '' @ pf_message f)
       [(trace_event0 ''provider.error'' ''provider'')\<lparr>ev_status := ''failed'',
          ev_metadata := [(''kind'', jstr (pf_kind f)), (''retryable'', JBool (pf_retryable f))]\<rparr>]"

definition run_workflow ::
  "harness_env \<Rightarrow> 'g graph_ops \<Rightarrow> ('s, json_object) store_ops \<Rightarrow> workflow_request \<Rightarrow> 'g \<times> 's
     \<Rightarrow> ('g \<times> 's) \<times> (harness_error, workflow_response) result" where
  "run_workflow env gops qops rq0 gs =
     (let preset = normalize_workflow_preset (rq_preset rq0);
          rq = rq0\<lparr>rq_preset := preset\<rparr>;
          setting = (if he_provider_setting env \<noteq> '''' then he_provider_setting env else ''rules'')
      in if preset \<notin> set supported_workflows then
           (gs, Inr (failed_run env rq setting (''unsupported workflow preset: '' @ preset) []))
         else (case he_provider env of
           Inl f \<Rightarrow> (gs, Inr (provider_failed_run env rq setting f))
         | Inr provider \<Rightarrow>
             (case resolve_skill_instructions env rq of Inl e \<Rightarrow> (gs, Inl e) | Inr (trace, skill) \<Rightarrow>
               (let memory = resolve_long_term_memory env rq;
                    rq1 = (if memory \<noteq> [] then rq\<lparr>rq_long_term_memory := memory\<rparr> else rq)
                in case g_invoke gops (initial_state rq1 trace skill memory) (run_config_of rq1) (fst gs) of
                     (g, GraphReturned s) \<Rightarrow>
                       (let q = enqueue_proposals env qops rq1 (opt_or (st_proposed_tool_calls s) []) (snd gs)
                        in ((g, q), finish_run env gops rq1 provider s g))
                   | (g, GraphCancelled reason) \<Rightarrow> ((g, snd gs), Inr (cancelled_run env rq1 provider reason))
                   | (g, GraphProviderError f) \<Rightarrow> ((g, snd gs), Inr (provider_failed_run env rq1 provider f))
                   | (g, GraphRaised) \<Rightarrow> ((g, snd gs), Inl Escaped)))))"

definition run_meeting_brief ::
  "harness_env \<Rightarrow> 'g graph_ops \<Rightarrow> ('s, json_object) store_ops \<Rightarrow> workflow_request \<Rightarrow> 'g \<times> 's
     \<Rightarrow> ('g \<times> 's) \<times> (harness_error, workflow_response) result" where
  "run_meeting_brief env gops qops rq gs = run_workflow env gops qops (rq\<lparr>rq_preset := ''meeting_brief''\<rparr>) gs"

definition run_react_agent ::
  "harness_env \<Rightarrow> 'g graph_ops \<Rightarrow> ('s, json_object) store_ops \<Rightarrow> workflow_request \<Rightarrow> 'g \<times> 's
     \<Rightarrow> ('g \<times> 's) \<times> (harness_error, workflow_response) result" where
  "run_react_agent env gops qops rq gs = run_workflow env gops qops (rq\<lparr>rq_preset := ''react_general''\<rparr>) gs"

section \<open>What a run offers for approval\<close>

lemma run_respond_fields:
  assumes "respond env rq pn s cid v ds = Inr r"
  shows "response_from_graph_result (he_sha env) (he_float_repr env) (he_loop_max_steps env)
     (he_prompt_override env) rq pn s cid v ds = Some r"
  using assms by (simp add: respond_def split: option.splits)

text \<open>The proposals a response carries: the contract is applied to the graph's proposals twice.\<close>

definition offered_proposals :: "harness_env \<Rightarrow> string \<Rightarrow> tool_proposal list \<Rightarrow> tool_proposal list" where
  "offered_proposals env e ps = contract_tool_calls (he_sha env) e (contract_tool_calls (he_sha env) e ps)"

lemma finish_run_fields:
  assumes "finish_run env gops rq pn s g = Inr r"
  defines "ps \<equiv> offered_proposals env (rq_execution_id rq) (opt_or (st_proposed_tool_calls s) [])"
  shows "rs_proposed_tool_calls r = ps" and "rs_status r = (if ps \<noteq> [] then RequiresAction else Ready)"
    and "rs_pending_approval r = pending_approval_of (he_sha env) (he_float_repr env) (rq_execution_id rq) ps"
    and "rs_context_sufficiency r = opt_or (st_context_sufficiency s) context_sufficiency0"
    and "rs_stop_reason r = response_stop_reason (rs_status r) (rs_context_sufficiency r) (rs_critic_result r)
           (rs_loop_traces r)"
proof -
  obtain cid v where "respond env rq pn (s\<lparr>st_proposed_tool_calls := Some (contract_tool_calls (he_sha env)
      (rq_execution_id rq) (opt_or (st_proposed_tool_calls s) []))\<rparr>) cid v [] = Inr r"
    using assms(1) by (auto simp: finish_run_def and_then_eq_Inr Let_def)
  note f = response_fields [OF run_respond_fields [OF this]]
  show "rs_proposed_tool_calls r = ps" "rs_status r = (if ps \<noteq> [] then RequiresAction else Ready)"
    "rs_pending_approval r = pending_approval_of (he_sha env) (he_float_repr env) (rq_execution_id rq) ps"
    "rs_context_sufficiency r = opt_or (st_context_sufficiency s) context_sufficiency0"
    "rs_stop_reason r = response_stop_reason (rs_status r) (rs_context_sufficiency r) (rs_critic_result r)
       (rs_loop_traces r)"
    using f by (simp_all add: ps_def offered_proposals_def)
qed

lemma pending_tools:
  "map pt_tool_call_id (map (pending_tool sha fr) ps) = map tp_tool_call_id ps"
  "map pt_arguments (map (pending_tool sha fr) ps) = map tp_arguments ps"
  by (simp_all add: pending_tool_def comp_def)

text \<open>What a response may offer, given that every proposal of the graph was gated.\<close>

definition offer_ok :: "workflow_response \<Rightarrow> bool" where
  "offer_ok r \<longleftrightarrow>
     (case rs_pending_approval r of
        None \<Rightarrow> rs_status r = Ready \<and> rs_proposed_tool_calls r = []
      | Some pa \<Rightarrow> rs_status r = RequiresAction \<and> cs_sufficient (rs_context_sufficiency r) \<and>
          rs_stop_reason r \<in> {''approval_required'', ''grounding_failed''} \<and>
          list_all tp_approval_required (rs_proposed_tool_calls r) \<and>
          map pt_tool_call_id (pa_tools pa) = map tp_tool_call_id (rs_proposed_tool_calls r) \<and>
          map pt_arguments (pa_tools pa) = map tp_arguments (rs_proposed_tool_calls r))"

lemma finish_run_offer:
  assumes "finish_run env gops rq pn s g = Inr r" and "list_all tp_approval_required (proposals s)"
    and "proposals s = [] \<or> context_sufficient s"
  shows "offer_ok r"
proof (cases "proposals s = []")
  case True
  then show ?thesis
    using finish_run_fields [OF assms(1)]
    by (simp add: offer_ok_def pending_approval_of_def proposals_def offered_proposals_def)
next
  case False
  let ?ps = "offered_proposals env (rq_execution_id rq) (proposals s)"
  note f = finish_run_fields [OF assms(1), folded proposals_def]
  have ne: "?ps \<noteq> []" using False by (simp add: offered_proposals_def)
  have suff: "cs_sufficient (rs_context_sufficiency r)"
    using assms(3) False f(4) by (simp add: context_sufficient_def)
  have gated: "list_all tp_approval_required ?ps" using assms(2) by (simp add: offered_proposals_def)
  have status: "rs_status r = RequiresAction" using f(2) ne by simp
  have stop: "rs_stop_reason r \<in> {''approval_required'', ''grounding_failed''}"
    using f(5) suff status by (simp add: response_stop_reason_def)
  show ?thesis
    using f(1,3) ne suff gated status stop pending_tools [of "he_sha env" "he_float_repr env" ?ps]
    by (simp add: offer_ok_def pending_approval_of_def)
qed

lemma run_reaches_gated:
  assumes "s \<in> finished_states w (run_start rq trace skill memory)"
  shows "list_all tp_approval_required (proposals s)" and "proposals s = [] \<or> context_sufficient s"
proof -
  obtain r where run: "(graph_step w)\<^sup>*\<^sup>* (run_start rq trace skill memory) r" and s: "s = wf_state r"
      "wf_node r = EndNode"
    using assms by (auto simp: finished_states_def)
  have "writes_ok r" using writes.reachable_inv [OF run_start_init run] .
  then show "list_all tp_approval_required (proposals s)" "proposals s = [] \<or> context_sufficient s"
    by (simp_all add: s writes_ok_def)
qed

text \<open>
  C23: a run of the graph that finished is answered with an approval request exactly when it proposes writes, and
  then only for writes that need approval, proposed on sufficient context; the request lists the proposals of the
  response in order, with their ids and arguments, and the stop reason says that approval is awaited unless the
  grounding check failed.
\<close>

theorem approval_offer_is_gated:
  "{r. \<exists>s \<in> finished_states w (run_start rq trace skill memory). finish_run env gops rq' pn s g = Inr r}
     \<subseteq> {r. offer_ok r}"
proof clarify
  fix r s
  assume s: "s \<in> finished_states w (run_start rq trace skill memory)"
    and r: "finish_run env gops rq' pn s g = Inr r"
  show "offer_ok r" by (rule finish_run_offer [OF r run_reaches_gated [OF s]])
qed

section \<open>Writes handed over once\<close>

text \<open>Handing over one proposal is an operation of the queue; only its own task id can be new.\<close>

lemma enqueue_proposal_step:
  assumes "he_task_uuid env i \<notin> task_id ` set (mem_all s)"
  shows "queue_step (\<lambda>_. True) cfg s (enqueue_proposal env memory_ops rq i p s)"
proof -
  let ?op = "OpEnqueue (he_task_uuid env i) (tp_tool_name p) (proposal_payload rq p) (proposal_key env i p)
    (tp_queue_name p) (priority_to_int (tp_priority p)) (tp_rate_limit_key p) (tp_max_attempts p)"
  have "enqueue_proposal env memory_ops rq i p s = queue_do cfg ?op s" by (simp add: enqueue_proposal_def)
  with queue_step.intros [of "\<lambda>_. True" ?op s cfg] assms show ?thesis by simp
qed

lemma enqueue_proposal_effect:
  fixes p :: tool_proposal and rq :: workflow_request
  assumes ok: "mem_ok s" and fresh: "he_task_uuid env i \<notin> task_id ` set (mem_all s)"
  defines "s' \<equiv> enqueue_proposal env memory_ops rq i p s"
  shows "mem_ok s'" and "proposal_key env i p \<in> snd ` set (identities s')"
    and "task_id ` set (mem_all s') \<subseteq> insert (he_task_uuid env i) (task_id ` set (mem_all s))"
proof -
  let ?t = "new_task (he_task_uuid env i) (tp_tool_name p) (proposal_payload rq p) (proposal_key env i p)
    (tp_queue_name p) (priority_to_int (tp_priority p)) (tp_rate_limit_key p) (tp_max_attempts p)"
  have t: "task_id ?t = he_task_uuid env i" by (simp add: new_task_def)
  obtain n where e: "enqueue_task memory_ops ?t s = (n, s')"
    by (cases "enqueue_task memory_ops ?t s") (simp add: s'_def enqueue_proposal_def enqueue_def)
  with enqueue_identity [OF ok fresh] show "mem_ok s'" "proposal_key env i p \<in> snd ` set (identities s')"
    by (force simp: enqueue_def)+
  show "task_id ` set (mem_all s') \<subseteq> insert (he_task_uuid env i) (task_id ` set (mem_all s))"
  proof (cases "idempotency_key ?t \<in> idempotency_key ` set (mem_all s)")
    case True
    then show ?thesis using mem.enqueue_known [OF ok, of _ ?t] e by auto
  next
    case False
    then have "s' = mem_add ?t s" using mem.enqueue_new [OF ok, of ?t] e by simp
    then show ?thesis using mem_all_add(2) [OF ok, of ?t] fresh t by simp
  qed
qed

lemma enqueue_from_run:
  assumes "mem_ok s" and "inj (he_task_uuid env)" and "\<And>j. i \<le> j \<Longrightarrow> he_task_uuid env j \<notin> task_id ` set (mem_all s)"
  shows "(queue_step (\<lambda>_. True) cfg)\<^sup>*\<^sup>* s (enqueue_from env memory_ops rq i ps s) \<and>
    tp_idempotency_key ` set ps - {''''} \<subseteq> snd ` set (identities (enqueue_from env memory_ops rq i ps s))"
  using assms
proof (induction ps arbitrary: i s)
  case Nil
  then show ?case by simp
next
  case (Cons p ps)
  let ?s1 = "enqueue_proposal env memory_ops rq i p s"
  let ?s2 = "enqueue_from env memory_ops rq (i + 1) ps ?s1"
  have step: "queue_step (\<lambda>_. True) cfg s ?s1" by (rule enqueue_proposal_step) (simp add: Cons.prems(3))
  note eff = enqueue_proposal_effect [OF Cons.prems(1) Cons.prems(3) [of i, OF order_refl], where p = p and rq = rq]
  have fresh: "he_task_uuid env j \<notin> task_id ` set (mem_all ?s1)" if "i + 1 \<le> j" for j
    using eff(3) Cons.prems(3) [of j] that injD [OF Cons.prems(2), of j i] by auto
  have IH: "(queue_step (\<lambda>_. True) cfg)\<^sup>*\<^sup>* ?s1 ?s2 \<and>
      tp_idempotency_key ` set ps - {''''} \<subseteq> snd ` set (identities ?s2)"
    using Cons.IH [OF eff(1) Cons.prems(2) fresh] by blast
  then have "set (identities ?s1) \<subseteq> set (identities ?s2)" using queue_run_identities eff(1) by blast
  with eff(2) have "tp_idempotency_key p \<in> insert '''' (snd ` set (identities ?s2))"
    by (auto simp: proposal_key_def split: if_splits)
  with IH step show ?case by (auto intro: converse_rtranclp_into_rtranclp)
qed

lemma enqueue_from_known:
  assumes "mem_ok s" and "tp_idempotency_key ` set ps \<subseteq> snd ` set (identities s) - {''''}"
  shows "enqueue_from env memory_ops rq i ps s = s"
  using assms
proof (induction ps arbitrary: i)
  case (Cons p ps)
  then obtain n where "(n, tp_idempotency_key p) \<in> set (identities s)" "tp_idempotency_key p \<noteq> ''''" by auto
  then have "enqueue_proposal env memory_ops rq i p s = s"
    using known_identity [OF Cons.prems(1)] by (simp add: enqueue_proposal_def proposal_key_def)
  with Cons show ?case by simp
qed simp

text \<open>
  C24: a retried run hands each write over once. However far the queue has come since the first run handed over its
  proposals, a retry that proposes the same idempotency keys (with whatever arguments, tools or fresh ids) leaves
  the queue unchanged, also for tasks that failed and died.
\<close>

theorem retried_run_hands_over_nothing_new:
  assumes "(queue_step (\<lambda>_. True) cfg)\<^sup>*\<^sup>* empty_store s" and "inj (he_task_uuid env)"
    and "range (he_task_uuid env) \<inter> task_id ` set (mem_all s) = {}"
    and "(queue_step (\<lambda>_. True) cfg)\<^sup>*\<^sup>* (enqueue_proposals env memory_ops rq ps s) s2"
    and "tp_idempotency_key ` set ps' \<subseteq> tp_idempotency_key ` set ps - {''''}"
    and "he_queue_enabled env"
  shows "enqueue_proposals env' memory_ops rq' ps' s2 = s2"
proof (cases "ps = []")
  case True
  then show ?thesis using assms(5) by (simp add: enqueue_proposals_def)
next
  case False
  have ok: "mem_ok s" using queue_run_identities [OF assms(1)] by simp
  have fresh: "he_task_uuid env j \<notin> task_id ` set (mem_all s)" for j using assms(3) by blast
  have s1: "enqueue_proposals env memory_ops rq ps s = enqueue_from env memory_ops rq 0 ps s"
    using False assms(6) by (simp add: enqueue_proposals_def)
  note run = enqueue_from_run [of s env 0 cfg rq ps, OF ok assms(2) fresh]
  then have ok1: "mem_ok (enqueue_from env memory_ops rq 0 ps s)" using queue_run_identities ok by blast
  from queue_run_identities [OF assms(4) [unfolded s1] ok1] run
  have "mem_ok s2" and "tp_idempotency_key ` set ps - {''''} \<subseteq> snd ` set (identities s2)" by blast+
  with assms(5) have "enqueue_from env' memory_ops rq' 0 ps' s2 = s2" by (intro enqueue_from_known) auto
  then show ?thesis by (simp add: enqueue_proposals_def)
qed

definition example_env :: harness_env where
  "example_env = \<lparr>he_sha = (\<lambda>t. replicate 64 (CHR ''0'')), he_float_repr = (\<lambda>x. []), he_loop_max_steps = 3,
     he_prompt_override = '''', he_provider_setting = ''rules'', he_provider = Inr ''rules'',
     he_enable_skills = False, he_skill_manifest = [],
     he_skill_world = \<lparr>yaml_load = (\<lambda>t. None), file_exists = (\<lambda>p. False), read_file = (\<lambda>p. Inl SkillOSError),
       beside = (\<lambda>a b. b), skill_sha = (\<lambda>t. ''''), container_repr = (\<lambda>j. [])\<rparr>,
     he_enable_compression = False, he_queue_enabled = True, he_store_kind = ''sqlite'',
     he_task_uuid = (\<lambda>n. replicate n (CHR ''t'')), he_key_uuid = (\<lambda>n. replicate n (CHR ''k''))\<rparr>"

definition example_write :: tool_proposal where
  "example_write = (tool_proposal0 ''write_conversation_message'')\<lparr>tp_idempotency_key := ''workflow:7:write''\<rparr>"

theorem retried_run_hands_over_nothing_new_witness:
  "enqueue_proposals example_env memory_ops (workflow_request0 1 2 3 7 []) [example_write]
     (enqueue_proposals example_env memory_ops (workflow_request0 1 2 3 7 []) [example_write] empty_store)
   = enqueue_proposals example_env memory_ops (workflow_request0 1 2 3 7 []) [example_write] empty_store"
proof (rule retried_run_hands_over_nothing_new [OF rtranclp.rtrancl_refl _ _ rtranclp.rtrancl_refl])
  show "inj (he_task_uuid example_env)"
    by (auto simp: example_env_def intro!: injI dest: arg_cong [where f = length])
  show "range (he_task_uuid example_env) \<inter> task_id ` set (mem_all (empty_store :: json_object memory_store)) = {}"
    by (simp add: empty_store_def mem_all_def)
  show "tp_idempotency_key ` set [example_write] \<subseteq> tp_idempotency_key ` set [example_write] - {''''}"
    by (simp add: example_write_def)
  show "he_queue_enabled example_env" by (simp add: example_env_def)
qed

end
