(* ===== verification/GraphRun.thy ===== *)
theory GraphRun
  imports Harness
begin

text \<open>
  The compiled graph as the harness invokes it: \<open>graph.invoke\<close> of \<open>orchestration/harness.py\<close> over the nodes and edges of
  \<open>WorkflowGraph\<close>, executed step by step until the end node or an exception, with the exceptions the harness tells
  apart. A run never changes its request, and the writes it proposes are those drawn up for this request.

  LangGraph gives the channels of a new run their values from the input; what it keeps of an earlier run on the same
  durable thread is not modelled.
\<close>

section \<open>Executing the graph\<close>

definition next_run :: "world \<Rightarrow> run \<Rightarrow> graph_state \<Rightarrow> node \<Rightarrow> run" where
  "next_run w r s' nd =
     \<lparr>wf_node = nd, wf_state = s', wf_cache = next_cache w (wf_tick r) (wf_node r) (wf_state r) (wf_cache r),
      wf_tick = wf_tick r + 1\<rparr>"

text \<open>\<^term>\<open>None\<close>: the steps did not suffice, or an edge leads nowhere.\<close>

fun graph_run :: "nat \<Rightarrow> world \<Rightarrow> run \<Rightarrow> (graph_error, graph_state) result option" where
  "graph_run 0 w r = (if wf_node r = EndNode then Some (Inr (wf_state r)) else None)"
| "graph_run (Suc k) w r =
     (if wf_node r = EndNode then Some (Inr (wf_state r))
      else (case run_node w (wf_tick r) (wf_cache r) (wf_node r) (wf_state r) of
          Inl e \<Rightarrow> Some (Inl e)
        | Inr s' \<Rightarrow>
            (case next_node (w_config w) (wf_node r) s' of
               None \<Rightarrow> None
             | Some nd \<Rightarrow> graph_run k w (next_run w r s' nd))))"

text \<open>Which exceptions of a node the harness catches: a cancellation; every other one escapes.\<close>

definition node_exception :: "node_error \<Rightarrow> invocation" where
  "node_exception e = (case e of Cancelled (ExecutionCancelled reason) \<Rightarrow> GraphCancelled reason | _ \<Rightarrow> GraphRaised)"

definition graph_exception :: "graph_error \<Rightarrow> invocation" where
  "graph_exception e = (case e of
       NodeFailed ne \<Rightarrow> node_exception ne
     | GroupFailed (BranchFailed ne) \<Rightarrow> node_exception ne
     | GroupFailed _ \<Rightarrow> GraphRaised)"

text \<open>
  LangGraph runs at most \<open>recursion_limit\<close> steps and raises \<open>GraphRecursionError\<close> when they do not suffice. The harness
  sets none, so the limit is LangGraph's default and an argument here; no run needs more steps than \<open>step_bound\<close>, the
  bound of \<open>workflow_run_is_bounded\<close>.
\<close>

definition step_bound :: "world \<Rightarrow> nat" where
  "step_bound w = 23 + 8 * nat (max 0 (rt_max_quality_retries (w_config w)))"

definition graph_invocation :: "nat \<Rightarrow> world \<Rightarrow> graph_state \<Rightarrow> invocation" where
  "graph_invocation limit w s0 =
     (case graph_run limit w \<lparr>wf_node = CollectContext, wf_state = s0, wf_cache = None, wf_tick = 0\<rparr> of
        Some (Inr s) \<Rightarrow> GraphReturned s
      | Some (Inl e) \<Rightarrow> graph_exception e
      | None \<Rightarrow> GraphRaised)"

text \<open>The graph over any durable state: what it leaves in the checkpoints is an argument.\<close>

definition with_graph ::
  "nat \<Rightarrow> world \<Rightarrow> (graph_state \<Rightarrow> run_config \<Rightarrow> 'g \<Rightarrow> 'g) \<Rightarrow> 'g graph_ops \<Rightarrow> 'g graph_ops" where
  "with_graph limit w save gops = gops\<lparr>g_invoke := \<lambda>s cfg g. (save s cfg g, graph_invocation limit w s)\<rparr>"

lemma graph_step_next:
  assumes "run_node w (wf_tick r) (wf_cache r) (wf_node r) (wf_state r) = Inr s'"
    and "next_node (w_config w) (wf_node r) s' = Some nd"
  shows "graph_step w r (next_run w r s' nd)"
  using graph_step.intros [OF assms] by (simp add: next_run_def)

lemma graph_run_sound:
  "graph_run k w r = Some (Inr s) \<Longrightarrow> \<exists>r'. (graph_step w)\<^sup>*\<^sup>* r r' \<and> wf_node r' = EndNode \<and> s = wf_state r'"
proof (induction k arbitrary: r)
  case 0
  then show ?case by (auto split: if_splits)
next
  case (Suc k)
  show ?case
  proof (cases "wf_node r = EndNode")
    case True
    then show ?thesis using Suc.prems by auto
  next
    case False
    then obtain s' nd where step: "run_node w (wf_tick r) (wf_cache r) (wf_node r) (wf_state r) = Inr s'"
        "next_node (w_config w) (wf_node r) s' = Some nd" "graph_run k w (next_run w r s' nd) = Some (Inr s)"
      using Suc.prems by (auto split: sum.splits option.splits)
    with Suc.IH [OF step(3)] graph_step_next [OF step(1,2)] show ?thesis
      by (blast intro: converse_rtranclp_into_rtranclp)
  qed
qed

lemma invocation_finished:
  "graph_invocation limit w (initial_state rq trace skill memory) = GraphReturned s \<Longrightarrow>
     s \<in> finished_states w (run_start rq trace skill memory)"
proof -
  assume "graph_invocation limit w (initial_state rq trace skill memory) = GraphReturned s"
  then have "graph_run limit w (run_start rq trace skill memory) = Some (Inr s)"
    by (auto simp: graph_invocation_def run_start_def graph_exception_def node_exception_def
        split: option.splits sum.splits graph_error.splits group_error.splits node_error.splits deadline_error.splits)
  from graph_run_sound [OF this] show ?thesis by (auto simp: finished_states_def)
qed

text \<open>The steps always suffice: a run without an edge to go on is the only one that gives nothing.\<close>

lemma enough_steps:
  assumes "run_ok r" and "run_rank w r \<le> k" and "graph_run k w r = None"
  shows "\<exists>r' s'. (graph_step w)\<^sup>*\<^sup>* r r' \<and> run_node w (wf_tick r') (wf_cache r') (wf_node r') (wf_state r') = Inr s' \<and>
     next_node (w_config w) (wf_node r') s' = None \<and> wf_node r' \<noteq> EndNode"
  using assms
proof (induction k arbitrary: r)
  case 0
  then have "wf_node r \<noteq> EndNode" "node_pos (wf_node r) = 0" by (auto simp: run_rank_def split: if_splits)
  then show ?case by (cases "wf_node r") simp_all
next
  case (Suc k)
  then have ne: "wf_node r \<noteq> EndNode" by (auto split: if_splits)
  then obtain s' where run: "run_node w (wf_tick r) (wf_cache r) (wf_node r) (wf_state r) = Inr s'"
    using Suc.prems(3) by (auto split: sum.splits)
  show ?case
  proof (cases "next_node (w_config w) (wf_node r) s'")
    case None
    then show ?thesis using run ne by blast
  next
    case (Some nd)
    note step = graph_step_next [OF run Some]
    have "run_rank w (next_run w r s' nd) \<le> k" using rank_step [OF Suc.prems(1) step] Suc.prems(2) by simp
    from Suc.IH [OF run_ok_step [OF Suc.prems(1) step] this] Suc.prems(3) ne run Some step
    show ?thesis by (auto intro: converse_rtranclp_into_rtranclp)
  qed
qed

section \<open>The request of a run\<close>

named_theorems request_frames \<open>nodes keep the request\<close>

lemma request_simps [simp]:
  "st_request (add_trace evs s) = st_request s" "st_request (record_outcome oc s) = st_request s"
  "st_request (outcome_payload oc s) = st_request s"
  by (simp_all add: add_trace_def record_outcome_def outcome_payload_def Let_def)

lemma request_context [request_frames]:
  "collect_context ctx now ov s = Inr s' \<Longrightarrow> st_request s' = st_request s"
  "retrieval_planner ctx now app s = Inr s' \<Longrightarrow> st_request s' = st_request s"
  "decompose ctx now s = Inr s' \<Longrightarrow> st_request s' = st_request s"
  "route_roles ctx now s = Inr s' \<Longrightarrow> st_request s' = st_request s"
  by (auto simp: collect_context_def retrieval_planner_def decompose_def route_roles_def and_then_eq_Inr Let_def
      split: prod.splits)

lemma request_roles [request_frames]:
  "searcher ctx rw cfg s = Inr s' \<Longrightarrow> st_request s' = st_request s"
  "memory_agent ctx rw cfg s = Inr s' \<Longrightarrow> st_request s' = st_request s"
  "synthesize ctx now cfg pn prov s = Inr s' \<Longrightarrow> st_request s' = st_request s"
  "risk_analyst ctx now rw cfg s = Inr s' \<Longrightarrow> st_request s' = st_request s"
  by (auto simp: searcher_def memory_agent_def synthesize_def risk_analyst_def and_then_eq_Inr Let_def split_beta)

lemma request_review [request_frames]:
  "reflect_and_plan_memory ctx now s = Inr s' \<Longrightarrow> st_request s' = st_request s"
  "propose_tools ctx now s = Inr s' \<Longrightarrow> st_request s' = st_request s"
  "approval_gate ctx now s = Inr s' \<Longrightarrow> st_request s' = st_request s"
  "finalize ctx now s = Inr s' \<Longrightarrow> st_request s' = st_request s"
  by (auto simp: reflect_and_plan_memory_def propose_tools_def approval_gate_def finalize_def and_then_eq_Inr Let_def)

lemma request_checks [request_frames]:
  "quality_check ctx now m s = Inr s' \<Longrightarrow> st_request s' = st_request s"
  "safety_check ctx now s = Inr s' \<Longrightarrow> st_request s' = st_request s"
  by (auto simp: quality_check_def safety_check_def and_then_eq_Inr Let_def split: prod.splits if_splits)

lemma request_evidence [request_frames]:
  "st_request (retrieve_context s) = st_request s"
  "st_request (rerank_context sha c s) = st_request s"
  "st_request (build_evidence_pack s) = st_request s"
  "st_request (sufficiency_gate s) = st_request s"
  "st_request (merge s) = st_request s"
  "st_request (grounding_check b s) = st_request s"
  "st_request (critic_check s) = st_request s"
  by (simp_all add: retrieve_context_def rerank_context_def build_evidence_pack_def sufficiency_gate_def merge_def
      grounding_check_def critic_check_def Let_def)

lemma request_loop [request_frames]:
  "retrieval_loop sha ctx clock rag br c s = Inr (c', s') \<Longrightarrow> st_request s' = st_request s"
  "parallel_roles_node cfg ex fin s = Inr s' \<Longrightarrow> st_request s' = st_request s"
  by (auto simp: retrieval_loop_def parallel_roles_node_def and_then_eq_Inr Let_def split: if_splits option.splits)

lemma run_node_request: "run_node w n c nd s = Inr s' \<Longrightarrow> st_request s' = st_request s"
  by (cases nd) (auto intro: request_frames split: sum.splits)

section \<open>The proposals of a run\<close>

text \<open>Nothing, or the writes of the preset for this request.\<close>

definition drafted :: "workflow_request \<Rightarrow> tool_proposal list \<Rightarrow> bool" where
  "drafted rq ps \<longleftrightarrow> ps = [] \<or> (\<exists>base ns args mr. ps = workflow_tool_proposals rq base ns args mr)"

definition drafts_ok :: "workflow_request \<Rightarrow> run \<Rightarrow> bool" where
  "drafts_ok rq r \<longleftrightarrow> st_request (wf_state r) = rq \<and> drafted rq (proposals (wf_state r))"

lemma drafted_writes: "drafted rq []" "drafted rq (workflow_tool_proposals rq base ns args mr)"
  unfolding drafted_def by blast+

lemma propose_tools_drafted: "propose_tools ctx now s = Inr s' \<Longrightarrow> drafted (st_request s) (proposals s')"
  by (auto simp: propose_tools_def proposals_def and_then_eq_Inr Let_def intro: drafted_writes)

lemma drafts_ok_start: "drafts_ok rq (run_start rq trace skill memory)"
  by (simp add: drafts_ok_def run_start_def initial_state_def graph_state0_def proposals_def drafted_def)

lemma drafts_ok_step:
  assumes "drafts_ok rq r" and "graph_step w r r'"
  shows "drafts_ok rq r'"
  using assms(2)
proof (rule graph_stepE)
  fix s' nd
  assume r': "r' = \<lparr>wf_node = nd, wf_state = s',
      wf_cache = next_cache w (wf_tick r) (wf_node r) (wf_state r) (wf_cache r), wf_tick = Suc (wf_tick r)\<rparr>"
    and run: "run_node w (wf_tick r) (wf_cache r) (wf_node r) (wf_state r) = Inr s'"
  have "drafted rq (proposals s')"
  proof (cases "wf_node r = ProposeTools")
    case True
    then show ?thesis using run propose_tools_drafted assms(1) by (fastforce simp: drafts_ok_def)
  next
    case False
    then show ?thesis using assms(1) run_node_keeps(3) [OF run] by (simp add: drafts_ok_def proposals_def)
  qed
  then show ?thesis using run_node_request [OF run] assms(1) by (simp add: r' drafts_ok_def)
qed

interpretation drafts: safe_system "\<lambda>r. \<exists>trace skill memory. r = run_start rq trace skill memory" "graph_step w"
    "drafts_ok rq" for rq w
  by unfold_locales (auto intro: drafts_ok_start drafts_ok_step)

lemma finished_drafts:
  assumes "s \<in> finished_states w (run_start rq trace skill memory)"
  shows "st_request s = rq" and "drafted rq (proposals s)"
proof -
  obtain r where run: "(graph_step w)\<^sup>*\<^sup>* (run_start rq trace skill memory) r" and s: "s = wf_state r"
    using assms by (auto simp: finished_states_def)
  have "drafts_ok rq r" using drafts.reachable_inv [OF _ run] by blast
  then show "st_request s = rq" "drafted rq (proposals s)" by (simp_all add: s drafts_ok_def)
qed

end
