(* ===== verification/RunLiveness.thy ===== *)
theory RunLiveness
  imports GraphRun
begin

text \<open>
  Runs that nothing disturbs come to an end: without a deadline in the graph's thread, without a cancelled branch and
  without the parallel group (whose budget can fail a run), every node of \<open>WorkflowGraph\<close> returns and every edge leads
  somewhere, whatever the model, the retrieval service, the tools and the checks say. The react traces a run collects
  can always be projected, so the harness answers it.
\<close>

section \<open>Undisturbed worlds\<close>

definition history_ok :: "runtime_config \<Rightarrow> bool" where
  "history_ok cfg \<longleftrightarrow>
     \<not> rt_enable_context_compression cfg \<or> rt_context_compression_strategy cfg \<in> {''summary'', ''full''}"

definition undisturbed :: "world \<Rightarrow> bool" where
  "undisturbed w \<longleftrightarrow> w_ctx w = None \<and> (\<forall>n k. \<not> rw_branch (w_react w n) k) \<and> 0 < rt_plateau_window (w_config w) \<and>
     history_ok (w_config w) \<and> \<not> rt_enable_parallel_roles (w_config w)"

lemma undisturbed_checks:
  assumes "undisturbed w"
  shows "node_check (w_ctx w) t = Inr ()" and "branch_check (w_ctx w) (w_react w n) k = Inr ()"
  using assms by (simp_all add: undisturbed_def branch_check_def node_check_def check_cancelled_def get_current_deadline_def)

lemma history_returns:
  assumes "history_ok cfg"
  shows "\<exists>rq. runtime_request cfg s = Inr rq"
  using assms
  by (auto simp: history_ok_def runtime_request_def request_with_runtime_context_def build_request_model_history_def
      build_model_history_def and_then_def Let_def split: option.split)

text \<open>Without a deadline the loop always returns when it starts without a cache.\<close>

lemma retrieval_steps_return:
  assumes "\<And>t. node_check ctx t = Inr ()" and "loop_ok l"
  shows "\<exists>l'. retrieval_steps ctx clock rag bridge mode fp rq plan n steps l = Inr l'"
proof (cases "retrieval_steps ctx clock rag bridge mode fp rq plan n steps l")
  case (Inl e)
  have "retrieval_steps ctx clock rag bridge mode fp rq plan n steps l \<noteq> Inl e"
    using assms(2)
  proof (induction steps arbitrary: n l)
    case (Cons step steps)
    obtain l1 where "retrieval_step rag bridge mode fp rq plan n step l = Inr l1" "loop_ok l1"
      using retrieval_step_ok [OF Cons.prems] by meson
    then show ?case using Cons.IH by (simp add: assms(1))
  qed simp
  with Inl show ?thesis by simp
qed simp

lemma loop_ok_start:
  "loop_ok \<lparr>ls_trace = tr, ls_cache = new_cache 16, ls_attempts = [], ls_gathered = [], ls_confidence = 0\<rparr>"
  by (simp add: loop_ok_def cache_ok_new) (simp add: new_cache_def)

lemma retrieval_loop_returns:
  assumes "\<And>t. node_check ctx t = Inr ()"
  shows "\<exists>p. retrieval_loop sha ctx clock rag bridge None s = Inr p"
proof (cases "rp_enabled (opt_or (st_retrieval_plan s) retrieval_plan0)")
  case True
  let ?plan = "opt_or (st_retrieval_plan s) retrieval_plan0"
  obtain l where "retrieval_steps ctx clock rag bridge (effective_retrieval_mode (st_request s))
      (resolve_fingerprint sha (st_request s)) (st_request s) ?plan 1
      (take (nat (max 1 (min (rp_max_steps ?plan) 3))) (rp_steps ?plan))
      \<lparr>ls_trace = opt_or (st_trace_events s) [] @ [node_started ''retrieval_loop''], ls_cache = new_cache 16,
       ls_attempts = [], ls_gathered = [], ls_confidence = 0\<rparr> = Inr l"
    using retrieval_steps_return [OF assms loop_ok_start] by blast
  then show ?thesis using True by (simp add: retrieval_loop_def assms Let_def)
next
  case False
  then show ?thesis by (simp add: retrieval_loop_def assms Let_def)
qed

lemma undisturbed_nodes:
  assumes u: "undisturbed w" and nd: "nd \<noteq> ParallelNode" and c: "nd = RetrievalLoop \<Longrightarrow> c = None"
  shows "\<exists>s'. run_node w n c nd s = Inr s'"
proof -
  note checks = undisturbed_checks [OF u]
  have "history_ok (w_config w)" using u by (simp add: undisturbed_def)
  note history = history_returns [OF this, of s]
  have search: "\<exists>r. bounded_react_search (w_ctx w) (w_react w n) (search_config (w_config w) s rl) rq rl m tools = Inr r"
    for rl rq m tools
    using search_returns [OF checks(2)] u by (simp add: search_config_def undisturbed_def)
  have loop: "\<exists>p. retrieval_loop sha (w_ctx w) clock rag br None s = Inr p" for sha clock rag br
    using retrieval_loop_returns [of "w_ctx w"] checks(1) by blast
  show ?thesis
  proof (cases nd)
    case RetrievalLoop
    then show ?thesis
      using loop [of "w_sha w" "w_loop_now w n" "w_rag w n" "w_bridge w n"] c by (auto simp: lift_node_def)
  next
    case Searcher
    then show ?thesis
      using history search [of "''searcher''"] by (auto simp: searcher_def checks and_then_def split: sum.splits)
        (metis Inl_Inr_False)
  next
    case RiskAnalyst
    then show ?thesis
      using history search [of "''risk_analyst''"]
      by (auto simp: risk_analyst_def checks and_then_def Let_def split: sum.splits) (metis Inl_Inr_False)
  next
    case MemoryAgent
    then show ?thesis using history by (auto simp: memory_agent_def checks and_then_def Let_def split: sum.splits)
  next
    case Synthesize
    then show ?thesis using history by (auto simp: synthesize_def checks and_then_def split_beta Let_def split: sum.splits)
  qed (use nd in \<open>auto simp: checks and_then_def Let_def split_beta collect_context_def retrieval_planner_def
      decompose_def route_roles_def reflect_and_plan_memory_def propose_tools_def quality_check_def safety_check_def
      approval_gate_def finalize_def\<close>)
qed

section \<open>Edges\<close>

lemma role_after_in:
  assumes "alloc_ok s"
  shows "next_role_after s current \<in> insert ''merge'' (set canonical_roles)"
proof -
  define roles where "roles = (case st_role_allocation s of None \<Rightarrow> canonical_roles | Some a \<Rightarrow> al_roles a)"
  have sub: "set roles \<subseteq> set canonical_roles"
  proof (cases "st_role_allocation s")
    case (Some a)
    then have "al_roles a = filter (\<lambda>r. r \<in> set (al_roles a)) canonical_roles"
      using assms by (simp add: alloc_ok_def ordered_subset_def)
    then have "set (al_roles a) \<subseteq> set canonical_roles" by (metis filter_is_subset)
    then show ?thesis using Some by (simp add: roles_def)
  qed (simp add: roles_def)
  have "next_role_after s current \<in> insert ''merge'' (set roles)"
  proof (cases current)
    case None
    then show ?thesis by (simp add: next_role_after_def roles_def Let_def)
  next
    case (Some r)
    have "set (dropWhile (\<lambda>x. x \<noteq> r) roles) \<subseteq> set roles" by (auto dest: set_dropWhileD)
    then show ?thesis
      using Some by (auto simp: next_role_after_def roles_def [symmetric] Let_def split: list.split)
  qed
  then show ?thesis using sub by blast
qed

lemma role_target_total:
  assumes "alloc_ok s"
  shows "\<exists>nd. role_target (next_role_after s current) = Some nd \<and> nd \<noteq> ParallelNode \<and> nd \<noteq> RetrievalLoop \<and>
    nd \<noteq> RoleRouter"
  using role_after_in [OF assms, of current]
  by (simp only: canonical_roles_def list.set insert_iff empty_iff) (elim disjE; simp add: role_target_def)

lemma next_node_total:
  assumes "alloc_ok s" and "nd \<noteq> EndNode" and "nd = RoleRouter \<Longrightarrow> rt_enable_role_router cfg" and "nd \<noteq> ParallelNode"
    and "\<not> rt_enable_parallel_roles cfg"
  shows "\<exists>nd'. next_node cfg nd s = Some nd' \<and> nd' \<noteq> ParallelNode \<and>
    (nd' = RoleRouter \<longrightarrow> rt_enable_role_router cfg) \<and> (nd' = RetrievalLoop \<longrightarrow> nd = RetrievalPlanner)"
proof (cases nd)
  case RoleRouter
  then show ?thesis using assms(3,5) role_target_total [OF assms(1), of None] by (auto simp: route_first_def)
next
  case Searcher
  then show ?thesis using role_target_total [OF assms(1), of "Some ''searcher''"] by auto
next
  case MemoryAgent
  then show ?thesis using role_target_total [OF assms(1), of "Some ''memory_agent''"] by auto
next
  case Synthesize
  then show ?thesis using role_target_total [OF assms(1), of "Some ''synthesize''"] by auto
next
  case RiskAnalyst
  then show ?thesis using role_target_total [OF assms(1), of "Some ''risk_analyst''"] by auto
qed (use assms in auto)

section \<open>Readable traces\<close>

text \<open>The events of a search name their round, so that the projection can number them.\<close>

definition readable :: "trace_event \<Rightarrow> bool" where
  "readable e \<longleftrightarrow> event_iteration e \<noteq> None"

definition traces_ok :: "graph_state \<Rightarrow> bool" where
  "traces_ok s \<longleftrightarrow> list_all (\<lambda>r. list_all readable (rr_react_trace r)) (opt_or (st_role_results s) [])"

lemma readable_meta:
  "map_of (ev_metadata e) ''iteration'' = None \<Longrightarrow> readable e"
  "map_of (ev_metadata e) ''iteration'' = Some (JInt i) \<Longrightarrow> readable e"
  by (auto simp: readable_def event_iteration_def json_int_def Let_def)

lemma role_event_fields:
  "ev_iteration (role_event ev rl st) = None" "ev_metadata (role_event ev rl st) = []"
  by (simp_all add: role_event_def trace_event0_def)

lemma react_round_readable:
  assumes "react_round ctx w rq rl m tools n rs = Inr rs'" and "list_all readable (rs_trace rs)"
  shows "list_all readable (rs_trace rs')"
proof -
  have "list_all readable (snd (snd (read_answer a rl tool input n pre)))" for a tool input pre
    by (cases a) (auto simp: read_answer_def readable_meta(2) [where i = "int n"] split: option.split)
  moreover have "list_all readable (selection_event rl n sel)" for sel
    by (simp add: selection_event_def readable_meta(2) [where i = "int n"])
  ultimately show ?thesis
    using assms
    by (auto simp: react_round_def and_then_eq_Inr Let_def split_beta readable_meta(2) [where i = "int n"]
        readable_meta(1))
qed

lemma early_signal_trace: "early_signal cfg rq rl m n rs = Inr (g, c, rs', sig) \<Longrightarrow> rs_trace rs' = rs_trace rs"
  by (auto simp: early_signal_def Let_def split: if_splits option.splits bool.splits)

lemma react_loop_readable:
  "react_loop ctx w cfg rq rl m tools ns goal rs = Inr (sig, rs') \<Longrightarrow> list_all readable (rs_trace rs) \<Longrightarrow>
     list_all readable (rs_trace rs')"
proof (induction ns arbitrary: goal rs)
  case (Cons n ns)
  obtain rs1 g c rs2 sg where r: "react_round ctx w rq rl m tools n rs = Inr rs1"
      "early_signal cfg rq rl m n rs1 = Inr (g, c, rs2, sg)"
    using Cons.prems(1) by (auto simp: and_then_eq_Inr)
  have "list_all readable (rs_trace rs2)"
    using react_round_readable [OF r(1) Cons.prems(2)] early_signal_trace [OF r(2)] by simp
  then show ?case using Cons r by (auto split: option.splits if_splits)
qed simp

lemma search_readable:
  "bounded_react_search ctx w cfg rq rl m tools = Inr r \<Longrightarrow> list_all readable (rr_react_trace r)"
  using react_loop_readable by (fastforce simp: bounded_react_search_def and_then_eq_Inr Let_def)



section \<open>Role results\<close>

lemma results_simps [simp]:
  "st_role_results (add_trace evs s) = st_role_results s" "st_role_results (record_outcome oc s) = st_role_results s"
  "st_role_results (outcome_payload oc s) = st_role_results s"
  by (simp_all add: add_trace_def record_outcome_def outcome_payload_def Let_def)

lemma traces_ok_add: "traces_ok s \<Longrightarrow> list_all readable (rr_react_trace r) \<Longrightarrow> traces_ok (add_result r s)"
  by (simp add: traces_ok_def add_result_def)

named_theorems result_frames \<open>nodes that add no role result\<close>

lemma results_context [result_frames]:
  "collect_context ctx now ov s = Inr s' \<Longrightarrow> st_role_results s' = st_role_results s"
  "retrieval_planner ctx now app s = Inr s' \<Longrightarrow> st_role_results s' = st_role_results s"
  "decompose ctx now s = Inr s' \<Longrightarrow> st_role_results s' = st_role_results s"
  "route_roles ctx now s = Inr s' \<Longrightarrow> st_role_results s' = st_role_results s"
  "retrieval_loop sha ctx clock rag br c s = Inr (c', s') \<Longrightarrow> st_role_results s' = st_role_results s"
  by (auto simp: collect_context_def retrieval_planner_def decompose_def route_roles_def retrieval_loop_def
      and_then_eq_Inr Let_def split: prod.splits if_splits)

lemma results_review [result_frames]:
  "reflect_and_plan_memory ctx now s = Inr s' \<Longrightarrow> st_role_results s' = st_role_results s"
  "propose_tools ctx now s = Inr s' \<Longrightarrow> st_role_results s' = st_role_results s"
  "approval_gate ctx now s = Inr s' \<Longrightarrow> st_role_results s' = st_role_results s"
  "finalize ctx now s = Inr s' \<Longrightarrow> st_role_results s' = st_role_results s"
  "quality_check ctx now m s = Inr s' \<Longrightarrow> st_role_results s' = st_role_results s"
  "safety_check ctx now s = Inr s' \<Longrightarrow> st_role_results s' = st_role_results s"
  by (auto simp: reflect_and_plan_memory_def propose_tools_def approval_gate_def finalize_def quality_check_def
      safety_check_def and_then_eq_Inr Let_def split: prod.splits if_splits)

lemma results_evidence [result_frames]:
  "st_role_results (retrieve_context s) = st_role_results s"
  "st_role_results (rerank_context sha c s) = st_role_results s"
  "st_role_results (build_evidence_pack s) = st_role_results s"
  "st_role_results (sufficiency_gate s) = st_role_results s"
  "st_role_results (merge s) = st_role_results s"
  "st_role_results (grounding_check b s) = st_role_results s"
  "st_role_results (critic_check s) = st_role_results s"
  by (simp_all add: retrieve_context_def rerank_context_def build_evidence_pack_def sufficiency_gate_def merge_def
      grounding_check_def critic_check_def Let_def)

lemma role_nodes_traces:
  "searcher ctx rw cfg s = Inr s' \<Longrightarrow> traces_ok s \<Longrightarrow> traces_ok s'"
  "memory_agent ctx rw cfg s = Inr s' \<Longrightarrow> traces_ok s \<Longrightarrow> traces_ok s'"
  "synthesize ctx now cfg pn prov s = Inr s' \<Longrightarrow> traces_ok s \<Longrightarrow> traces_ok s'"
  "risk_analyst ctx now rw cfg s = Inr s' \<Longrightarrow> traces_ok s \<Longrightarrow> traces_ok s'"
  by (auto simp: searcher_def memory_agent_def synthesize_def risk_analyst_def and_then_eq_Inr Let_def split_beta
      traces_ok_def add_result_def role_result0_def summarizer_result_def dest: search_readable)

lemma run_node_traces:
  assumes "run_node w n c nd s = Inr s'" and "traces_ok s" and "nd \<noteq> ParallelNode"
  shows "traces_ok s'"
proof (cases "nd \<in> {Searcher, MemoryAgent, Synthesize, RiskAnalyst}")
  case True
  then show ?thesis using assms role_nodes_traces by auto
next
  case False
  then have "st_role_results s' = st_role_results s"
    using assms(1,3) by (cases nd) (auto intro: result_frames split: sum.splits)
  then show ?thesis using assms(2) by (simp add: traces_ok_def)
qed

section \<open>Every undisturbed run ends\<close>

text \<open>
  What holds on the way: the parallel group is never entered, the retrieval loop starts without a cache, the traces
  are readable, and once the writes are proposed there are some exactly if the context suffices and the preset writes.
\<close>

definition proposal_rule :: "workflow_request \<Rightarrow> graph_state \<Rightarrow> bool" where
  "proposal_rule rq s \<longleftrightarrow> (proposals s \<noteq> []) = (context_sufficient s \<and> rq_preset rq \<noteq> ''context_qa'')"

definition live :: "world \<Rightarrow> workflow_request \<Rightarrow> run \<Rightarrow> bool" where
  "live w rq r \<longleftrightarrow>
     run_ok r \<and> st_request (wf_state r) = rq \<and> wf_node r \<noteq> ParallelNode \<and>
     (wf_node r = RoleRouter \<longrightarrow> rt_enable_role_router (w_config w)) \<and>
     (21 \<le> node_pos (wf_node r) \<longrightarrow> wf_cache r = None) \<and> traces_ok (wf_state r) \<and>
     (node_pos (wf_node r) < 6 \<longrightarrow> proposal_rule rq (wf_state r))"

lemma live_start: "live w rq (run_start rq trace skill memory)"
  using run_ok_init [OF run_start_init]
  by (simp add: live_def run_start_def initial_state_def graph_state0_def traces_ok_def)

lemma no_writes_iff: "workflow_tool_proposals rq base ns args mr = [] \<longleftrightarrow> rq_preset rq = ''context_qa''"
  by (simp add: workflow_tool_proposals_def Let_def)

lemma propose_tools_rule:
  assumes "propose_tools ctx now s = Inr s'"
  shows "proposal_rule (st_request s) s'"
proof -
  have "(proposals s' = []) =
      (\<not> cs_sufficient (opt_or (st_context_sufficiency s) context_sufficiency0) \<or> rq_preset (st_request s) = ''context_qa'')"
    using assms
    by (cases "cs_sufficient (opt_or (st_context_sufficiency s) context_sufficiency0)")
      (auto simp: propose_tools_def proposals_def and_then_eq_Inr Let_def no_writes_iff)
  moreover have "st_context_sufficiency s' = st_context_sufficiency s" using frame_propose_tools [OF assms] by simp
  ultimately show ?thesis by (simp add: proposal_rule_def context_sufficient_def)
qed

lemma proposal_rule_step:
  assumes run: "run_node w n c nd s = Inr s'" and nxt: "next_node cfg nd s' = Some nd'" and "alloc_ok s'"
    and "node_pos nd < 6 \<Longrightarrow> proposal_rule (st_request s) s" and "node_pos nd' < 6"
  shows "proposal_rule (st_request s) s'"
proof (cases "nd = ProposeTools")
  case True
  then show ?thesis using run propose_tools_rule by auto
next
  case False
  have "node_pos nd < 6"
    using next_node_forward [OF assms(3) nxt] assms(5) False nxt
    by (cases nd) (auto simp: role_target_def split: if_splits)
  then have "proposal_rule (st_request s) s" "nd \<noteq> SufficiencyGate" using assms(4) by auto
  then show ?thesis
    using run_node_keeps(3,4) [OF run] False by (simp add: proposal_rule_def proposals_def context_sufficient_def)
qed

lemma live_step:
  assumes u: "undisturbed w" and live: "live w rq r" and ne: "wf_node r \<noteq> EndNode"
  shows "\<exists>s' nd. run_node w (wf_tick r) (wf_cache r) (wf_node r) (wf_state r) = Inr s' \<and>
    next_node (w_config w) (wf_node r) s' = Some nd \<and> live w rq (next_run w r s' nd)"
proof -
  have "wf_node r = RetrievalLoop \<Longrightarrow> wf_cache r = None" using live by (simp add: live_def)
  then obtain s' where run: "run_node w (wf_tick r) (wf_cache r) (wf_node r) (wf_state r) = Inr s'"
    using undisturbed_nodes [OF u] live by (metis live_def)
  have rok: "run_ok r" "st_request (wf_state r) = rq" "wf_node r \<noteq> ParallelNode" using live by (simp_all add: live_def)
  note alloc = run_node_allocation [OF run rok(1) HOL.refl]
  obtain nd where nd: "next_node (w_config w) (wf_node r) s' = Some nd" "nd \<noteq> ParallelNode"
      "nd = RoleRouter \<longrightarrow> rt_enable_role_router (w_config w)" "nd = RetrievalLoop \<longrightarrow> wf_node r = RetrievalPlanner"
    using next_node_total [OF alloc ne, of "w_config w"] u live by (auto simp: live_def undisturbed_def)
  have cache: "wf_cache (next_run w r s' nd) = None" if "21 \<le> node_pos nd"
  proof -
    have "21 < node_pos (wf_node r)" using next_node_forward [OF alloc nd(1)] that by auto
    then have "wf_node r \<noteq> RetrievalLoop" "wf_cache r = None" using live by (auto simp: live_def)
    then show ?thesis by (simp add: next_run_def next_cache_def)
  qed
  have rule: "proposal_rule rq s'" if "node_pos nd < 6"
    using proposal_rule_step [OF run nd(1) alloc _ that] live rok(2) by (simp add: live_def)
  have "run_ok (next_run w r s' nd)" using run_ok_step [OF rok(1) graph_step_next [OF run nd(1)]] .
  moreover have "st_request s' = rq" "traces_ok s'"
    using run_node_request [OF run] run_node_traces [OF run _ rok(3)] live by (simp_all add: live_def)
  ultimately have "live w rq (next_run w r s' nd)"
    using cache rule nd(2,3) by (simp add: live_def next_run_def)
  with run nd(1) show ?thesis by blast
qed

lemma live_run_returns:
  "undisturbed w \<Longrightarrow> live w rq r \<Longrightarrow> run_rank w r \<le> k \<Longrightarrow>
     \<exists>s. graph_run k w r = Some (Inr s) \<and> st_request s = rq \<and> traces_ok s \<and> proposal_rule rq s"
proof (induction k arbitrary: r)
  case 0
  then have "node_pos (wf_node r) = 0" by (simp add: run_rank_def)
  then have "wf_node r = EndNode" by (cases "wf_node r") simp_all
  then show ?case using 0 by (simp add: live_def)
next
  case (Suc k)
  show ?case
  proof (cases "wf_node r = EndNode")
    case True
    then show ?thesis using Suc.prems by (simp add: live_def)
  next
    case False
    obtain s' nd where step: "run_node w (wf_tick r) (wf_cache r) (wf_node r) (wf_state r) = Inr s'"
        "next_node (w_config w) (wf_node r) s' = Some nd" "live w rq (next_run w r s' nd)"
      using live_step [OF Suc.prems(1,2) False] by blast
    have "run_rank w (next_run w r s' nd) < run_rank w r"
      using Suc.prems(2) rank_step graph_step_next [OF step(1,2)] by (simp add: live_def)
    then show ?thesis using Suc.IH [OF Suc.prems(1) step(3)] Suc.prems(3) step(1,2) False by simp
  qed
qed

lemma undisturbed_run_returns:
  assumes "undisturbed w" and "step_bound w \<le> limit"
  shows "\<exists>s. graph_invocation limit w (initial_state rq trace skill memory) = GraphReturned s \<and>
    s \<in> finished_states w (run_start rq trace skill memory) \<and> traces_ok s \<and> proposal_rule rq s"
proof -
  have "run_rank w (run_start rq trace skill memory) \<le> limit" using assms(2) by (simp add: start_rank step_bound_def)
  from live_run_returns [OF assms(1) live_start this] obtain s where
      s: "graph_run limit w (run_start rq trace skill memory) = Some (Inr s)" "traces_ok s" "proposal_rule rq s"
    by blast
  then have inv: "graph_invocation limit w (initial_state rq trace skill memory) = GraphReturned s"
    by (simp add: graph_invocation_def run_start_def)
  with s invocation_finished [OF inv] show ?thesis by blast
qed

section \<open>Every undisturbed run is answered\<close>







section \<open>The evidence of a run without agentic retrieval\<close>

definition no_retrieval :: "world \<Rightarrow> workflow_request \<Rightarrow> bool" where
  "no_retrieval w rq \<longleftrightarrow> \<not> pl_enable_agentic_rag (w_planner w) \<and> \<not> rc_enabled (rq_agentic_rag rq)"

definition ranked :: "workflow_request \<Rightarrow> context_chunk list" where
  "ranked rq = ro_chunks (rerank_context_chunks (rq_goal rq) (rq_context_chunks rq) 8)"

definition judged :: "workflow_request \<Rightarrow> graph_state \<Rightarrow> bool" where
  "judged rq s \<longleftrightarrow> (\<exists>p. st_context_sufficiency s = Some (evaluate_context_sufficiency rq (make_evidence_pack rq p (ranked rq))))"

definition plan_off :: "graph_state \<Rightarrow> bool" where
  "plan_off s \<longleftrightarrow> \<not> rp_enabled (opt_or (st_retrieval_plan s) retrieval_plan0)"

fun phase_ok :: "workflow_request \<Rightarrow> node \<Rightarrow> retrieval_cache option \<Rightarrow> graph_state \<Rightarrow> bool" where
  "phase_ok rq CollectContext c s = (c = None)"
| "phase_ok rq RetrievalPlanner c s = (c = None)"
| "phase_ok rq RetrievalLoop c s = (c = None \<and> plan_off s)"
| "phase_ok rq RetrieveContext c s = (c = Some (new_cache 16) \<and> st_agentic_context_chunks s = Some [])"
| "phase_ok rq RerankContext c s =
     (c = Some (new_cache 16) \<and> st_retrieved_context_chunks s = Some (rq_context_chunks rq))"
| "phase_ok rq EvidenceNode c s = (st_reranked_context_chunks s = Some (ranked rq))"
| "phase_ok rq SufficiencyGate c s = (\<exists>p. st_evidence_pack s = Some (make_evidence_pack rq p (ranked rq)))"
| "phase_ok rq nd c s = judged rq s"

lemma late_phase: "node_pos nd < 17 \<Longrightarrow> phase_ok rq nd c s = judged rq s"
  by (cases nd) simp_all

definition flow_ok :: "world \<Rightarrow> workflow_request \<Rightarrow> run \<Rightarrow> bool" where
  "flow_ok w rq r \<longleftrightarrow> run_ok r \<and> st_request (wf_state r) = rq \<and> phase_ok rq (wf_node r) (wf_cache r) (wf_state r)"

lemma planner_off:
  "retrieval_planner ctx now app s = Inr s' \<Longrightarrow> \<not> pl_enable_agentic_rag app \<Longrightarrow>
     \<not> rc_enabled (rq_agentic_rag (st_request s)) \<Longrightarrow> plan_off s'"
  by (auto simp: retrieval_planner_def plan_off_def build_retrieval_plan_def resolve_agentic_rag_config_def
      and_then_eq_Inr Let_def)

lemma loop_off:
  "retrieval_loop sha ctx clock rag br None s = Inr (c, s') \<Longrightarrow> plan_off s \<Longrightarrow>
     c = new_cache 16 \<and> st_agentic_context_chunks s' = Some []"
  by (auto simp: retrieval_loop_def plan_off_def and_then_eq_Inr Let_def)

lemma early_phases:
  "st_agentic_context_chunks s = Some [] \<Longrightarrow>
     st_retrieved_context_chunks (retrieve_context s) = Some (rq_context_chunks (st_request s))"
  "st_retrieved_context_chunks s = Some (rq_context_chunks (st_request s)) \<Longrightarrow>
     st_reranked_context_chunks (rerank_context sha (Some (new_cache 16)) s) = Some (ranked (st_request s))"
  "st_reranked_context_chunks s = Some cs \<Longrightarrow>
     \<exists>p. st_evidence_pack (build_evidence_pack s) = Some (make_evidence_pack (st_request s) p cs)"
  "st_evidence_pack s = Some (make_evidence_pack (st_request s) p (ranked (st_request s))) \<Longrightarrow>
     judged (st_request s) (sufficiency_gate s)"
  by (auto simp: retrieve_context_def rerank_context_def build_evidence_pack_def sufficiency_gate_def judged_def
      new_cache_def ranked_def Let_def)

lemma early_phase_step:
  assumes "no_retrieval w (st_request s)" and "run_node w n c nd s = Inr s'" and "17 \<le> node_pos nd"
    and "phase_ok (st_request s) nd c s" and "next_node (w_config w) nd s' = Some nd'"
  shows "phase_ok (st_request s) nd' (next_cache w n nd s c) s'"
proof (cases nd)
  case RetrievalPlanner
  then show ?thesis using assms planner_off by (auto simp: no_retrieval_def next_cache_def)
next
  case RetrievalLoop
  then show ?thesis using assms loop_off by (auto simp: next_cache_def lift_node_def split: sum.splits)
next
  case SufficiencyGate
  then show ?thesis using assms early_phases(4) by (auto simp: late_phase)
qed (use assms early_phases in \<open>auto simp: next_cache_def late_phase\<close>)

lemma flow_start: "flow_ok w rq (run_start rq trace skill memory)"
  using run_ok_init [OF run_start_init]
  by (simp add: flow_ok_def run_start_def initial_state_def graph_state0_def)

lemma flow_step:
  assumes "no_retrieval w rq" and "flow_ok w rq r" and "graph_step w r r'"
  shows "flow_ok w rq r'"
  using assms(3)
proof (rule graph_stepE)
  fix s' nd
  assume r': "r' = \<lparr>wf_node = nd, wf_state = s',
      wf_cache = next_cache w (wf_tick r) (wf_node r) (wf_state r) (wf_cache r), wf_tick = Suc (wf_tick r)\<rparr>"
    and run: "run_node w (wf_tick r) (wf_cache r) (wf_node r) (wf_state r) = Inr s'"
    and nxt: "next_node (w_config w) (wf_node r) s' = Some nd"
  have rok: "run_ok r" "st_request (wf_state r) = rq" using assms(2) by (simp_all add: flow_ok_def)
  have "phase_ok rq nd (next_cache w (wf_tick r) (wf_node r) (wf_state r) (wf_cache r)) s'"
  proof (cases "17 \<le> node_pos (wf_node r)")
    case True
    then show ?thesis
      using early_phase_step [OF _ run True _ nxt] assms(1,2) by (simp add: flow_ok_def)
  next
    case False
    then have "node_pos nd < 17" using next_node_forward [OF run_node_allocation [OF run rok(1) HOL.refl] nxt] by auto
    moreover have "st_context_sufficiency s' = st_context_sufficiency (wf_state r)"
      using False by (intro run_node_keeps(4) [OF run]) auto
    ultimately show ?thesis using False assms(2) by (auto simp: flow_ok_def late_phase judged_def)
  qed
  then show ?thesis
    using run_ok_step [OF rok(1) assms(3)] run_node_request [OF run] rok(2) by (simp add: r' flow_ok_def)
qed

lemma finished_judged:
  assumes "no_retrieval w rq" and "s \<in> finished_states w (run_start rq trace skill memory)"
  shows "judged rq s"
proof -
  obtain r where run: "(graph_step w)\<^sup>*\<^sup>* (run_start rq trace skill memory) r" and s: "s = wf_state r" "wf_node r = EndNode"
    using assms(2) by (auto simp: finished_states_def)
  from run have "flow_ok w rq r"
    by (induction rule: rtranclp_induct) (auto intro: flow_start flow_step [OF assms(1)])
  then show ?thesis by (simp add: s flow_ok_def)
qed

section \<open>An undisturbed run that proposes writes\<close>

definition example_world :: world where
  "example_world =
     \<lparr>w_ctx = None, w_now = \<lambda>_. 0, w_loop_now = \<lambda>_ _. 0, w_react = \<lambda>_. quiet_world,
      w_rag = \<lambda>_ _ _ _ _. Inr None, w_bridge = \<lambda>_ _ _ _ _. Inr None, w_finished = \<lambda>_. [],
      w_provider_name = ''rules'', w_provider = \<lambda>_ _. None, w_sha = \<lambda>_. '''', w_prompt_override = '''',
      w_planner = \<lparr>pl_enable_agentic_rag = False, pl_rag_max_retrieval_steps = 3, pl_rag_min_confidence = 1 / 2\<rparr>,
      w_config = default_config\<rparr>"

definition example_chunks :: "context_chunk list" where
  "example_chunks = [context_chunk0 ''meeting_transcript'' ''s1'' [104, 105], context_chunk0 ''knowledge'' ''s2'' [104, 105]]"

definition brief_request :: workflow_request where
  "brief_request = (workflow_request0 1 2 3 7 [])
     \<lparr>rq_execution_id := ''workflow:7'', rq_context_chunks := example_chunks\<rparr>"

lemma example_undisturbed: "undisturbed example_world" "no_retrieval example_world brief_request"
  by (simp_all add: undisturbed_def example_world_def quiet_world_def history_ok_def default_config_def no_retrieval_def
      brief_request_def workflow_request0_def rag_config0_def)

lemma ranked_pair:
  assumes "rq_context_chunks rq = [c1, c2]"
  obtains a b where "ranked rq = [a, b]"
    and "unranked a = unranked c1 \<and> unranked b = unranked c2 \<or> unranked a = unranked c2 \<and> unranked b = unranked c1"
proof -
  let ?r = "ro_chunks (rerank_context_chunks (rq_goal rq) [c1, c2] 2)"
  have len: "length ?r = 2" by (simp add: length_rerank)
  have all: "ranked rq = ?r"
    using rerank_is_prefix [of "rq_goal rq" "[c1, c2]" 8] len by (simp add: ranked_def assms numeral_2_eq_2)
  obtain a b where ab: "?r = [a, b]" using len by (auto simp: numeral_2_eq_2 length_Suc_conv)
  have "mset (map unranked ?r) = mset (map unranked [c1, c2])"
    using rerank_is_permutation [of "rq_goal rq" "[c1, c2]"] by (simp add: numeral_2_eq_2)
  then have "unranked a = unranked c1 \<and> unranked b = unranked c2 \<or> unranked a = unranked c2 \<and> unranked b = unranked c1"
    unfolding ab by (auto simp: add_eq_conv_ex)
  with all ab show thesis by (intro that [of a b]) simp_all
qed

lemma unranked_fields:
  "unranked a = unranked c \<Longrightarrow> ck_source_type a = ck_source_type c \<and> ck_source_id a = ck_source_id c \<and>
     ck_snippet a = ck_snippet c"
  unfolding unranked_def by (cases a; cases c) simp

lemma pair_confidence:
  assumes types: "''meeting_transcript'' \<in> ck_source_type ` set cs" "''knowledge'' \<in> ck_source_type ` set cs"
      "''memory'' \<notin> ck_source_type ` set cs"
    and preset: "rq_preset rq = ''meeting_brief''" and len: "length cs = 2"
  shows "estimate_retrieval_confidence rq cs = 86 / 100"
proof -
  have "cs \<noteq> []" "rq_preset rq \<noteq> ''context_qa''" "rq_preset rq \<noteq> ''risk_review''" using len preset by auto
  with types show ?thesis
    by (simp only: estimate_retrieval_confidence_def Let_def set_map if_False if_True not_True_eq_False simp_thms)
      (simp add: len)
qed

lemma pair_sufficient:
  assumes types: "ck_source_type a = ''meeting_transcript'' \<and> ck_source_type b = ''knowledge'' \<or>
      ck_source_type a = ''knowledge'' \<and> ck_source_type b = ''meeting_transcript''"
    and citable: "citable a"
    and preset: "rq_preset rq = ''meeting_brief''"
  shows "cs_sufficient (evaluate_context_sufficiency rq (make_evidence_pack rq p [a, b]))"
proof -
  let ?pack = "make_evidence_pack rq p [a, b]"
  have both: "set (ep_source_types ?pack) = {''meeting_transcript'', ''knowledge''}"
    using types by (auto simp: make_evidence_pack_def Let_def)
  then have some: "''meeting_transcript'' \<in> set (ep_source_types ?pack)" "''knowledge'' \<in> set (ep_source_types ?pack)"
    "list_ex (\<lambda>t. t \<in> {''meeting_transcript'', ''conversation'', ''message'', ''note''}) (ep_source_types ?pack)"
    by (simp_all add: list_ex_iff)
  have "ep_citations ?pack \<noteq> []"
    using citable by (simp add: make_evidence_pack_def citations_from_chunks_def dedupe_citations_def Let_def)
  moreover have "ep_confidence ?pack = 86 / 100"
    using pair_confidence [OF _ _ _ preset, of "[a, b]"] types by (auto simp: make_evidence_pack_def Let_def)
  ultimately show ?thesis
    using some by (simp add: evaluate_context_sufficiency_def preset Let_def)
qed

lemma example_sufficient:
  assumes "judged brief_request s"
  shows "context_sufficient s"
proof -
  obtain p where p: "st_context_sufficiency s =
      Some (evaluate_context_sufficiency brief_request (make_evidence_pack brief_request p (ranked brief_request)))"
    using assms by (auto simp: judged_def)
  obtain a b where ab: "ranked brief_request = [a, b]"
    and "unranked a = unranked (example_chunks ! 0) \<and> unranked b = unranked (example_chunks ! 1) \<or>
      unranked a = unranked (example_chunks ! 1) \<and> unranked b = unranked (example_chunks ! 0)"
    using ranked_pair [of brief_request "example_chunks ! 0" "example_chunks ! 1"]
    by (auto simp: brief_request_def example_chunks_def)
  then have "(ck_source_type a = ''meeting_transcript'' \<and> ck_source_type b = ''knowledge'' \<or>
      ck_source_type a = ''knowledge'' \<and> ck_source_type b = ''meeting_transcript'') \<and> citable a \<and> citable b"
    by (auto dest!: unranked_fields simp: example_chunks_def context_chunk0_def citable_def)
  then have "cs_sufficient (evaluate_context_sufficiency brief_request
      (make_evidence_pack brief_request p [a, b]))"
    by (intro pair_sufficient) (simp_all add: brief_request_def workflow_request0_def)
  then show ?thesis by (simp add: context_sufficient_def p ab)
qed

text \<open>So there is a finished run of the example that proposes writes.\<close>

lemma example_finished:
  obtains s where "s \<in> finished_states example_world (run_start brief_request [] [] [])" and "proposals s \<noteq> []"
    and "traces_ok s"
proof -
  obtain s where s: "s \<in> finished_states example_world (run_start brief_request [] [] [])" "traces_ok s"
      "proposal_rule brief_request s"
    using undisturbed_run_returns [OF example_undisturbed(1) order.refl] by blast
  have "context_sufficient s" using example_sufficient finished_judged [OF example_undisturbed(2) s(1)] by blast
  then have "proposals s \<noteq> []"
    using s(3) by (simp add: proposal_rule_def brief_request_def workflow_request0_def)
  with s show thesis using that by blast
qed





end
