(* ===== verification/Resume.thy ===== *)
theory Resume
  imports RunLiveness
begin

text \<open>
  Resuming a run after its approval: \<open>resume_workflow\<close> of \<open>orchestration/harness.py\<close>. The Go backend answers the
  approval request of a run; the harness checks the answer against the durable checkpoint and records the
  decisions as a new checkpoint.
\<close>

section \<open>The request\<close>

record workflow_resume =
  wr_approval_request_id :: string
  wr_decisions :: "approval_decision list"

record resume_request =
  rz_request_id :: string
  rz_execution_id :: string
  rz_expected_checkpoint_version :: int
  rz_tool_capability :: string
  rz_organization_id :: int
  rz_user_id :: int
  rz_conversation_id :: int
  rz_agent_run_id :: int
  rz_workflow_run_id :: int
  rz_resume :: workflow_resume

definition resume_config :: "resume_request \<Rightarrow> run_config" where
  "resume_config rz = make_run_config (rz_agent_run_id rz) (rz_workflow_run_id rz) (rz_execution_id rz)"

section \<open>Checking the answer\<close>

definition is_hex :: "char \<Rightarrow> bool" where
  "is_hex c \<longleftrightarrow> (let n = of_char c :: nat in 48 \<le> n \<and> n \<le> 57 \<or> 97 \<le> n \<and> n \<le> 102)"

text \<open>The full match of the stored id, \<open>:resume:\<close>, the version, a colon and 16 hexadecimal digits.\<close>

definition resume_execution_id_matches :: "string \<Rightarrow> string \<Rightarrow> int \<Rightarrow> bool" where
  "resume_execution_id_matches stored requested version \<longleftrightarrow>
     requested = stored \<or>
     (let p = stored @ '':resume:'' @ show_id version @ '':''
      in take (length p) requested = p \<and> length requested = length p + 16 \<and>
         list_all is_hex (drop (length p) requested))"

fun decisions_match :: "string set \<Rightarrow> string set \<Rightarrow> approval_decision list \<Rightarrow> bool" where
  "decisions_match expected seen [] = True"
| "decisions_match expected seen (d # ds) =
     (if ad_tool_call_id d \<notin> expected \<or> ad_tool_call_id d \<in> seen then False
      else decisions_match expected (insert (ad_tool_call_id d) seen) ds)"

definition validate_resume_decisions ::
  "tool_proposal list \<Rightarrow> approval_decision list \<Rightarrow> (harness_error, unit) result" where
  "validate_resume_decisions ps ds =
     (let expected = set (map tp_tool_call_id ps)
      in if ps = [] \<or> length ds \<noteq> length ps
           then Inl (CheckpointConflict ''approval decisions must match pending tools'')
         else if card expected \<noteq> length ps
           then Inl (CheckpointConflict ''pending tool call ids must be unique'')
         else if decisions_match expected {} ds then Inr ()
         else Inl (CheckpointConflict ''approval decisions must match pending tools''))"

section \<open>Resuming\<close>

text \<open>Everything up to the update of the durable state: the stored request, or the conflict.\<close>

definition check_resume ::
  "harness_env \<Rightarrow> 'g graph_ops \<Rightarrow> resume_request \<Rightarrow> 'g \<Rightarrow> (harness_error, workflow_request) result" where
  "check_resume env gops rz g =
     (case g_get_state gops g (resume_config rz) of
        None \<Rightarrow> Inl (CheckpointConflict ''runtime checkpoint not found'')
      | Some sn \<Rightarrow>
          if \<not> sn_has_request sn then Inl (CheckpointConflict ''runtime checkpoint request is missing'')
          else
            (let rq = st_request (sn_values sn)
             in if \<not> resume_execution_id_matches (rq_execution_id rq) (rz_execution_id rz)
                      (rz_expected_checkpoint_version rz)
                  then Inl (CheckpointConflict ''runtime execution_id does not match checkpoint'')
                else and_then (checkpoint_contract gops g (resume_config rz)) (\<lambda>(cid, version).
                  if version \<noteq> rz_expected_checkpoint_version rz
                    then Inl (CheckpointVersionConflict
                      ''runtime checkpoint version does not match expected version'')
                  else
                    (let ps = contract_tool_calls (he_sha env) (rq_execution_id rq)
                                (opt_or (st_proposed_tool_calls (sn_values sn)) [])
                     in case pending_approval_of (he_sha env) (he_float_repr env) (rq_execution_id rq) ps of
                          None \<Rightarrow> Inl (CheckpointConflict ''approval request does not match checkpoint'')
                        | Some pa \<Rightarrow>
                            if wr_approval_request_id (rz_resume rz) \<noteq> pa_approval_request_id pa
                              then Inl (CheckpointConflict ''approval request does not match checkpoint'')
                            else and_then (validate_resume_decisions ps (wr_decisions (rz_resume rz)))
                                   (\<lambda>_. Inr rq)))))"

definition resume_workflow ::
  "harness_env \<Rightarrow> 'g graph_ops \<Rightarrow> resume_request \<Rightarrow> 'g \<Rightarrow> 'g \<times> (harness_error, workflow_response) result" where
  "resume_workflow env gops rz g =
     (case check_resume env gops rz g of
        Inl e \<Rightarrow> (g, Inl e)
      | Inr rq \<Rightarrow>
          (let ds = wr_decisions (rz_resume rz);
               cfg = resume_config rz;
               g' = g_update gops cfg ds g;
               setting = (if he_provider_setting env \<noteq> '''' then he_provider_setting env else ''rules'')
           in (g', and_then (checkpoint_contract gops g' cfg) (\<lambda>(cid, version).
                case g_get_state gops g' cfg of
                  None \<Rightarrow> Inl (CheckpointConflict ''resumed runtime checkpoint not found'')
                | Some sn \<Rightarrow>
                    and_then (respond env rq setting ((sn_values sn)\<lparr>st_proposed_tool_calls := Some []\<rparr>) cid version ds)
                      (\<lambda>r. Inr (r\<lparr>rs_execution_id := rz_execution_id rz\<rparr>))))))"

section \<open>What the checks accept\<close>

lemma decisions_match_iff:
  "decisions_match E S ds \<longleftrightarrow>
     distinct (map ad_tool_call_id ds) \<and> set (map ad_tool_call_id ds) \<subseteq> E \<and> set (map ad_tool_call_id ds) \<inter> S = {}"
  by (induction ds arbitrary: S) auto

text \<open>The loop over the decisions accepts exactly the permutations of the pending ids.\<close>

lemma validate_iff:
  "validate_resume_decisions ps ds = Inr () \<longleftrightarrow>
     ps \<noteq> [] \<and> distinct (map tp_tool_call_id ps) \<and> mset (map ad_tool_call_id ds) = mset (map tp_tool_call_id ps)"
proof -
  let ?E = "map tp_tool_call_id ps" and ?D = "map ad_tool_call_id ds"
  have card: "card (set ?E) = length ps \<longleftrightarrow> distinct ?E"
    by (metis card_distinct distinct_card length_map)
  have "mset ?D = mset ?E" if "distinct ?D" "set ?D \<subseteq> set ?E" "length ds = length ps" "distinct ?E"
  proof -
    have "card (set ?D) = card (set ?E)" using that by (simp only: distinct_card length_map)
    then have "set ?D = set ?E" by (rule card_subset_eq [OF finite_set that(2)])
    then show ?thesis using set_eq_iff_mset_eq_distinct [OF that(1,4)] by blast
  qed
  moreover have "distinct ?D \<and> set ?D \<subseteq> set ?E \<and> length ds = length ps" if "mset ?D = mset ?E" "distinct ?E"
    using mset_eq_imp_distinct_iff [OF that(1)] mset_eq_setD [OF that(1)] mset_eq_length [OF that(1)] that(2)
    by simp
  ultimately show ?thesis
    unfolding validate_resume_decisions_def Let_def set_map [symmetric]
    using card by (auto simp: decisions_match_iff split: if_splits)
qed

section \<open>Exactly the matching answers\<close>

definition pending_proposals :: "harness_env \<Rightarrow> graph_state \<Rightarrow> tool_proposal list" where
  "pending_proposals env s =
     contract_tool_calls (he_sha env) (rq_execution_id (st_request s)) (opt_or (st_proposed_tool_calls s) [])"

definition resume_accepted :: "harness_env \<Rightarrow> 'g graph_ops \<Rightarrow> resume_request \<Rightarrow> 'g \<Rightarrow> snapshot \<Rightarrow> bool" where
  "resume_accepted env gops rz g sn \<longleftrightarrow>
     sn_has_request sn \<and>
     resume_execution_id_matches (rq_execution_id (st_request (sn_values sn))) (rz_execution_id rz)
       (rz_expected_checkpoint_version rz) \<and>
     sn_checkpoint_id sn \<noteq> '''' \<and>
     rz_expected_checkpoint_version rz = max 1 (if sn_checkpoint_version sn = 0
       then int (g_history gops g (resume_config rz)) else sn_checkpoint_version sn) \<and>
     wr_approval_request_id (rz_resume rz) =
       approval_request_id (he_sha env) (rq_execution_id (st_request (sn_values sn))) \<and>
     pending_proposals env (sn_values sn) \<noteq> [] \<and>
     distinct (map tp_tool_call_id (pending_proposals env (sn_values sn))) \<and>
     mset (map ad_tool_call_id (wr_decisions (rz_resume rz)))
       = mset (map tp_tool_call_id (pending_proposals env (sn_values sn)))"

lemma checkpoint_contract_Inr:
  "checkpoint_contract gops g cfg = Inr (cid, v) \<longleftrightarrow>
     (\<exists>sn. g_get_state gops g cfg = Some sn \<and> sn_checkpoint_id sn \<noteq> '''' \<and> cid = sn_checkpoint_id sn \<and>
        v = max 1 (if sn_checkpoint_version sn = 0 then int (g_history gops g cfg) else sn_checkpoint_version sn))"
  by (auto simp: checkpoint_contract_def Let_def split: option.splits)

lemma check_resume_Inr:
  "check_resume env gops rz g = Inr rq \<longleftrightarrow>
     (\<exists>sn. g_get_state gops g (resume_config rz) = Some sn \<and> resume_accepted env gops rz g sn \<and>
        rq = st_request (sn_values sn))"
proof (cases "g_get_state gops g (resume_config rz)")
  case None
  then show ?thesis by (simp add: check_resume_def)
next
  case (Some sn)
  let ?ps = "pending_proposals env (sn_values sn)"
  have split: "(if b then Inl e else r) = Inr x \<longleftrightarrow> \<not> b \<and> r = Inr x" for b and e :: harness_error and r x
    by simp
  have valid: "and_then (validate_resume_decisions ps ds) (\<lambda>_. Inr q) = Inr rq \<longleftrightarrow>
      validate_resume_decisions ps ds = Inr () \<and> q = rq" for ps ds and q :: workflow_request
    by (cases "validate_resume_decisions ps ds") auto
  show ?thesis
    using Some
    by (auto simp: check_resume_def Let_def split and_then_eq_Inr checkpoint_contract_Inr valid validate_iff
        pending_approval_of_def pending_proposals_def [symmetric] resume_accepted_def)
qed

lemma accepted_request:
  "g_get_state gops g (resume_config rz) = Some sn \<Longrightarrow> resume_accepted env gops rz g sn \<Longrightarrow>
     check_resume env gops rz g = Inr (st_request (sn_values sn))"
  by (simp add: check_resume_Inr)

text \<open>
  C25: an answer is accepted exactly when the durable checkpoint of the run holds the request, its execution id is
  the requested one (or the requested one is its resume form for the expected version), the checkpoint has an id
  and the expected version, the approval id is the one of the pending request, the pending ids are different, and
  the decisions answer each pending tool exactly once, in any order. Organization, user and conversation of the
  answer are not compared with the request's.
\<close>

theorem resume_accepts_exactly_the_matching_answer:
  "check_resume env gops rz g = Inr rq \<longleftrightarrow>
     (\<exists>sn. g_get_state gops g (resume_config rz) = Some sn \<and> resume_accepted env gops rz g sn \<and>
        rq = st_request (sn_values sn))"
  by (rule check_resume_Inr)

section \<open>Every offered approval can be answered\<close>


















text \<open>A durable state that is its own version number, for examples.\<close>

definition example_request :: workflow_request where
  "example_request = (workflow_request0 1 2 3 7 [])\<lparr>rq_execution_id := ''workflow:7''\<rparr>"

definition example_result :: graph_state where
  "example_result = (graph_state0 example_request)\<lparr>st_proposed_tool_calls := Some [example_write]\<rparr>"

definition example_graph :: "nat graph_ops" where
  "example_graph =
     \<lparr>g_invoke = (\<lambda>s cfg g. (Suc g, GraphReturned s)),
      g_get_state = (\<lambda>g cfg. Some \<lparr>sn_has_request = True, sn_values = example_result, sn_checkpoint_id = ''cp'',
        sn_checkpoint_version = int g\<rparr>),
      g_history = (\<lambda>g cfg. g), g_update = (\<lambda>cfg ds g. Suc g)\<rparr>"

definition example_answer :: "int \<Rightarrow> string \<Rightarrow> resume_request" where
  "example_answer version decision =
     \<lparr>rz_request_id = '''', rz_execution_id = ''workflow:7'', rz_expected_checkpoint_version = version,
      rz_tool_capability = '''', rz_organization_id = 1, rz_user_id = 2, rz_conversation_id = 3,
      rz_agent_run_id = 0, rz_workflow_run_id = 7,
      rz_resume = \<lparr>wr_approval_request_id = ''workflow:7:approval'',
        wr_decisions = [\<lparr>ad_tool_call_id = ''workflow:7:write'', ad_decision = decision\<rparr>]\<rparr>\<rparr>"

lemma example_contract:
  "contract_tool_calls sha ''workflow:7'' [example_write] = [example_write\<lparr>tp_tool_call_id := ''workflow:7:write''\<rparr>]"
  "contract_tool_calls sha ''workflow:7'' [example_write\<lparr>tp_tool_call_id := ''workflow:7:write''\<rparr>]
     = [example_write\<lparr>tp_tool_call_id := ''workflow:7:write''\<rparr>]"
  by (simp_all add: contract_tool_calls_def example_write_def tool_call_id_def tool_proposal0_def Let_def)


lemma example_proposals: "st_proposed_tool_calls example_result = Some [example_write]"
  by (simp add: example_result_def)

lemma example_request_fields:
  "rq_execution_id example_request = ''workflow:7''" "rq_agent_run_id example_request = 0"
  "rq_workflow_run_id example_request = 7" "st_request example_result = example_request"
  by (simp_all add: example_request_def example_result_def workflow_request0_def graph_state0_def)

section \<open>One version, one answer\<close>

text \<open>What recording decisions does to the durable state: a newer checkpoint with the same request and proposals.\<close>

definition advanced :: "'g graph_ops \<Rightarrow> run_config \<Rightarrow> 'g \<Rightarrow> 'g \<Rightarrow> bool" where
  "advanced gops cfg g g' \<longleftrightarrow>
     (case (g_get_state gops g cfg, g_get_state gops g' cfg) of
        (Some sn, Some sn') \<Rightarrow>
          sn_has_request sn' \<and> sn_checkpoint_id sn' \<noteq> '''' \<and> 0 < sn_checkpoint_version sn \<and>
          sn_checkpoint_version sn < sn_checkpoint_version sn' \<and>
          st_request (sn_values sn') = st_request (sn_values sn) \<and>
          st_proposed_tool_calls (sn_values sn') = st_proposed_tool_calls (sn_values sn)
      | _ \<Rightarrow> False)"

definition newer_version :: "'g graph_ops \<Rightarrow> run_config \<Rightarrow> 'g \<Rightarrow> int" where
  "newer_version gops cfg g = (case g_get_state gops g cfg of None \<Rightarrow> 0 | Some sn \<Rightarrow> sn_checkpoint_version sn)"

text \<open>The same approval answered again with other decisions, for the version the first answer produced.\<close>

definition second_answer :: "'g graph_ops \<Rightarrow> resume_request \<Rightarrow> 'g \<Rightarrow> string \<Rightarrow> approval_decision list \<Rightarrow> resume_request" where
  "second_answer gops rz g e ds = rz\<lparr>rz_execution_id := e,
     rz_expected_checkpoint_version := newer_version gops (resume_config rz) g,
     rz_resume := (rz_resume rz)\<lparr>wr_decisions := ds\<rparr>\<rparr>"

text \<open>
  C27: an accepted answer is bound to its version. Once it is recorded, sending it again is refused with a version
  conflict. It is not final, though: the proposals stay in the state, so a second answer with other decisions, sent
  for the new version, is accepted as well and replaces the first.
\<close>

theorem answer_is_bound_to_its_version:
  assumes first: "check_resume env gops rz g = Inr rq"
    and adv: "advanced gops (resume_config rz) g g'"
    and cfg: "\<And>h. g_get_state gops h (resume_config (second_answer gops rz g' (rq_execution_id rq) ds)) =
      g_get_state gops h (resume_config rz)"
    and ds: "mset (map ad_tool_call_id ds) = mset (map ad_tool_call_id (wr_decisions (rz_resume rz)))"
  shows "(resume_execution_id_matches (rq_execution_id rq) (rz_execution_id rz) (rz_expected_checkpoint_version rz) \<and>
      (\<exists>m. check_resume env gops rz g' = Inl (CheckpointVersionConflict m))) \<and>
    check_resume env gops (second_answer gops rz g' (rq_execution_id rq) ds) g' = Inr rq"
proof -
  obtain sn where sn: "g_get_state gops g (resume_config rz) = Some sn" "resume_accepted env gops rz g sn"
      "rq = st_request (sn_values sn)"
    using first by (auto simp: check_resume_Inr)
  obtain sn' where sn': "g_get_state gops g' (resume_config rz) = Some sn'" "sn_has_request sn'"
      "sn_checkpoint_id sn' \<noteq> ''''" "0 < sn_checkpoint_version sn" "sn_checkpoint_version sn < sn_checkpoint_version sn'"
      "st_request (sn_values sn') = rq"
      "st_proposed_tool_calls (sn_values sn') = st_proposed_tool_calls (sn_values sn)"
    using adv sn(1,3) by (auto simp: advanced_def split: option.splits)
  have old: "rz_expected_checkpoint_version rz = sn_checkpoint_version sn"
    using sn(2) sn'(4) by (simp add: resume_accepted_def)
  have match: "resume_execution_id_matches (rq_execution_id rq) (rz_execution_id rz) (rz_expected_checkpoint_version rz)"
    using sn(2) unfolding resume_accepted_def sn(3) by blast
  have contract: "checkpoint_contract gops g' (resume_config rz) = Inr (sn_checkpoint_id sn', sn_checkpoint_version sn')"
    using sn' by (simp add: checkpoint_contract_Inr)
  have "\<exists>m. check_resume env gops rz g' = Inl (CheckpointVersionConflict m)"
    using sn'(1,2,5,6) match contract old by (simp add: check_resume_def Let_def)
  moreover have pend: "pending_proposals env (sn_values sn') = pending_proposals env (sn_values sn)"
    using sn' sn(3) by (simp add: pending_proposals_def)
  have "resume_accepted env gops (second_answer gops rz g' (rq_execution_id rq) ds) g' sn'"
    using sn(2,3) sn' ds
    by (simp add: resume_accepted_def pend second_answer_def newer_version_def resume_execution_id_matches_def)
  then have "check_resume env gops (second_answer gops rz g' (rq_execution_id rq) ds) g' = Inr rq"
    using accepted_request [of gops g' "second_answer gops rz g' (rq_execution_id rq) ds" sn' env] cfg sn' by simp
  ultimately show ?thesis using match by blast
qed

theorem answer_is_bound_to_its_version_witness:
  "check_resume example_env example_graph (example_answer 6 ''reject'') 6 = Inr example_request"
proof -
  have first: "check_resume example_env example_graph (example_answer 5 ''approve'') 5 = Inr example_request"
    by (simp add: check_resume_Inr example_graph_def resume_accepted_def pending_proposals_def example_answer_def
        resume_execution_id_matches_def example_request_fields example_proposals example_contract
        approval_request_id_def Let_def)
  have second: "second_answer example_graph (example_answer 5 ''approve'') 6 (rq_execution_id example_request)
      [\<lparr>ad_tool_call_id = ''workflow:7:write'', ad_decision = ''reject''\<rparr>] = example_answer 6 ''reject''"
    by (simp add: second_answer_def example_answer_def newer_version_def example_graph_def example_request_fields)
  have "advanced example_graph (resume_config (example_answer 5 ''approve'')) 5 6"
    by (simp add: advanced_def example_graph_def)
  from answer_is_bound_to_its_version [OF first this, where ds = "[\<lparr>ad_tool_call_id = ''workflow:7:write'',
      ad_decision = ''reject''\<rparr>]"] show ?thesis
    unfolding second by (simp add: example_graph_def example_answer_def)
qed

end
