(* ===== verification/Invocation.thy ===== *)
theory Invocation
  imports Resume Admission
begin

text \<open>
  How the HTTP layer runs a workflow: \<open>_invoke_graph\<close> of \<open>orchestration/harness.py\<close> (the worker thread, the
  timeout, the cancellation and the grace period) and \<open>_run_with_admission\<close> with the endpoints of \<open>api/routes.py\<close>.

  Time is explicit: a graph run is the time it takes once a thread has it (\<^term>\<open>None\<close>: for ever) and how it
  ends: with a result, or by a \<open>TimeoutError\<close> of its own, which the harness cannot tell from the timeout of
  \<open>future.result\<close>. A future that starts or completes exactly at the timeout counts as started or completed. A
  future no worker has taken when the time is up is cancelled; waiting for it then raises at once. The context
  variable with the deadline belongs to the request thread; \<open>ThreadPoolExecutor.submit\<close> does not copy it.
\<close>

section \<open>The worker pool\<close>

text \<open>
  The threads of the pool are busy until some time or for ever. A task starts at once when a worker is free and
  otherwise when the first busy one is done.
\<close>

fun earliest :: "seconds option list \<Rightarrow> seconds option" where
  "earliest [] = None"
| "earliest (t # ts) = (case (t, earliest ts) of
     (None, r) \<Rightarrow> r | (Some a, None) \<Rightarrow> Some a | (Some a, Some b) \<Rightarrow> Some (min a b))"

definition start_time :: "nat \<Rightarrow> seconds option list \<Rightarrow> seconds \<Rightarrow> seconds option" where
  "start_time workers busy now =
     (let still = filter (\<lambda>t. case t of None \<Rightarrow> True | Some f \<Rightarrow> now < f) busy
      in if length still < workers then Some now else earliest still)"

definition started_by :: "seconds \<Rightarrow> seconds option \<Rightarrow> bool" where
  "started_by limit start = (case start of None \<Rightarrow> False | Some s \<Rightarrow> s \<le> limit)"

definition finish_time :: "seconds option \<Rightarrow> seconds option \<Rightarrow> seconds option" where
  "finish_time start duration = (case (start, duration) of (Some s, Some d) \<Rightarrow> Some (s + d) | _ \<Rightarrow> None)"

text \<open>A future that was cancelled before a worker took it never occupies one.\<close>

definition occupy :: "seconds \<Rightarrow> seconds option \<Rightarrow> seconds option \<Rightarrow> seconds option list \<Rightarrow> seconds option list" where
  "occupy limit start duration busy =
     (if started_by limit start then busy @ [finish_time start duration] else busy)"

section \<open>Invoking the graph\<close>

definition effective_timeout :: "seconds \<Rightarrow> deadline_ctx \<Rightarrow> seconds \<Rightarrow> seconds" where
  "effective_timeout request_timeout ctx now =
     (case get_current_deadline ctx of
        None \<Rightarrow> request_timeout
      | Some d \<Rightarrow>
          if cancelled d then request_timeout
          else (let remaining = remaining_seconds d now
                in if request_timeout \<le> 0 \<or> remaining < request_timeout then remaining else request_timeout))"

datatype 'r graph_end = GraphEnds 'r | GraphTimesOut

datatype 'r invoked = GraphAnswered 'r | TimeoutExceeded seconds | GraphTimeoutError

record 'r invocation_result =
  iv_when :: "seconds option"
  iv_what :: "'r invoked"
  iv_deadline :: deadline_ctx

text \<open>The deadline the nodes of the graph find in their own thread.\<close>

definition graph_context :: "seconds \<Rightarrow> deadline_ctx \<Rightarrow> seconds \<Rightarrow> deadline_ctx" where
  "graph_context request_timeout ctx now =
     (if 0 < effective_timeout request_timeout ctx now then None else ctx)"

definition request_cancel :: "deadline_ctx \<Rightarrow> deadline_ctx" where
  "request_cancel ctx =
     (case ctx of None \<Rightarrow> None
      | Some d \<Rightarrow> if cancelled d then Some d
                  else (case cancel ''deadline_exceeded'' d of Inl e \<Rightarrow> Some d | Inr d' \<Rightarrow> Some d'))"

text \<open>
  After \<open>future.cancel()\<close>: a future that never started is cancelled and \<open>future.result(timeout=grace)\<close> raises
  \<open>CancelledError\<close> at once; one that runs is waited for; one that is done answers at once.
\<close>

definition grace_end :: "seconds \<Rightarrow> seconds \<Rightarrow> seconds option \<Rightarrow> seconds option \<Rightarrow> seconds" where
  "grace_end grace from start finish =
     (if 0 < grace \<and> started_by from start
      then (case finish of None \<Rightarrow> from + grace | Some f \<Rightarrow> if f \<le> from then from else min f (from + grace))
      else from)"

definition timed_out :: "seconds \<Rightarrow> deadline_ctx \<Rightarrow> seconds \<Rightarrow> 'r invocation_result" where
  "timed_out timeout ctx t = \<lparr>iv_when = Some t, iv_what = TimeoutExceeded timeout, iv_deadline = request_cancel ctx\<rparr>"

text \<open>
  \<^term>\<open>start\<close> is the time a worker takes the task unless it is cancelled; without a timeout the graph runs in the
  request thread.
\<close>

definition invoke_graph ::
  "seconds \<Rightarrow> seconds \<Rightarrow> deadline_ctx \<Rightarrow> seconds \<Rightarrow> seconds option \<Rightarrow> seconds option \<Rightarrow> 'r graph_end
     \<Rightarrow> 'r invocation_result" where
  "invoke_graph request_timeout grace ctx now start duration run =
     (let timeout = effective_timeout request_timeout ctx now; limit = now + timeout;
          finish = finish_time start duration
      in if 0 < timeout then
           (if started_by limit start \<and> started_by limit finish then
              (case run of
                 GraphEnds r \<Rightarrow> \<lparr>iv_when = finish, iv_what = GraphAnswered r, iv_deadline = ctx\<rparr>
               | GraphTimesOut \<Rightarrow> timed_out timeout ctx (grace_end grace (the finish) start finish))
            else timed_out timeout ctx (grace_end grace limit start finish))
         else \<lparr>iv_when = map_option (\<lambda>d. now + d) duration,
                iv_what = (case run of GraphEnds r \<Rightarrow> GraphAnswered r | GraphTimesOut \<Rightarrow> GraphTimeoutError),
                iv_deadline = ctx\<rparr>)"

section \<open>Running under admission\<close>

datatype http_outcome = HttpOk workflow_response | HttpError nat string | HttpUnhandled

definition http_of_harness :: "(harness_error, workflow_response) result invoked \<Rightarrow> http_outcome" where
  "http_of_harness r = (case r of
       TimeoutExceeded t \<Rightarrow> HttpError 504 ''Workflow run exceeded the request timeout''
     | GraphTimeoutError \<Rightarrow> HttpUnhandled
     | GraphAnswered (Inr response) \<Rightarrow> HttpOk response
     | GraphAnswered (Inl (CheckpointVersionConflict m)) \<Rightarrow> HttpError 409 ''checkpoint_version_conflict''
     | GraphAnswered (Inl (CheckpointConflict m)) \<Rightarrow> HttpError 409 ''checkpoint_conflict''
     | GraphAnswered (Inl e) \<Rightarrow> HttpUnhandled)"

text \<open>
  \<open>_run_with_admission\<close> without waiting in the queue: the lease taken at the start is closed when the invocation
  returns or raises. The result is the controller afterwards, the time and the HTTP outcome.
\<close>

definition run_with_admission ::
  "controller option \<Rightarrow> int \<Rightarrow> seconds \<Rightarrow> (harness_error, workflow_response) result invocation_result
     \<Rightarrow> controller option \<times> seconds option \<times> http_outcome" where
  "run_with_admission admission org now iv =
     (case admission of
        None \<Rightarrow> (None, iv_when iv, http_of_harness (iv_what iv))
      | Some c \<Rightarrow>
          (case acquire_enter org now c of
             (Granted l, c') \<Rightarrow> (Some (close l c'), iv_when iv, http_of_harness (iv_what iv))
           | (Refused r retry_after, c') \<Rightarrow> (Some c', Some now, HttpError 503 ''runtime_overloaded'')
           | (Enqueued w, c') \<Rightarrow> (Some c', None, HttpUnhandled)))"

section \<open>Answering in time\<close>

text \<open>How long a request may take: \<^term>\<open>None\<close> when neither a live deadline nor a positive timeout limits it.\<close>

definition time_limit :: "seconds \<Rightarrow> deadline_ctx \<Rightarrow> seconds \<Rightarrow> seconds option" where
  "time_limit request_timeout ctx now =
     (case ctx of
        Some d \<Rightarrow>
          if cancelled d then (if 0 < request_timeout then Some request_timeout else None)
          else Some (if 0 < request_timeout then min request_timeout (remaining_seconds d now)
                     else remaining_seconds d now)
      | None \<Rightarrow> if 0 < request_timeout then Some request_timeout else None)"

lemma effective_timeout_limit:
  "effective_timeout request_timeout ctx now =
     (case time_limit request_timeout ctx now of Some l \<Rightarrow> l | None \<Rightarrow> request_timeout)"
  by (auto simp: effective_timeout_def time_limit_def get_current_deadline_def Let_def split: option.splits)

lemma no_limit: "time_limit request_timeout ctx now = None \<Longrightarrow> request_timeout \<le> 0"
  by (auto simp: time_limit_def split: option.splits if_splits)

lemma no_time_left:
  assumes "time_limit request_timeout ctx now = Some l" and "\<not> 0 < l"
  shows "\<exists>d. ctx = Some d \<and> \<not> cancelled d \<and> monotonic_deadline d \<le> now"
  using assms by (auto simp: time_limit_def remaining_seconds_def min_def max_def split: option.splits if_splits)

lemma grace_end_bound: "grace_end grace from start finish \<le> from + max 0 grace"
  by (auto simp: grace_end_def split: option.splits)

lemma grace_end_unstarted: "\<not> started_by from start \<Longrightarrow> grace_end grace from start finish = from"
  by (simp add: grace_end_def)

lemma expired_check:
  "monotonic_deadline d \<le> t \<Longrightarrow> \<not> cancelled d \<Longrightarrow>
     node_check (Some d) t = Inl (RetrievalNodes.Cancelled (ExecutionCancelled ''deadline_exceeded''))"
  by (simp add: node_check_def check_cancelled_def get_current_deadline_def raise_if_cancelled_def expired_def
      remaining_seconds_def execution_cancelled_def valid_cancel_reasons_def)

lemma timed_invocation:
  fixes run :: "'r graph_end" and start duration :: "seconds option" and grace :: seconds
  assumes "0 < effective_timeout request_timeout ctx now"
  defines "limit \<equiv> now + effective_timeout request_timeout ctx now"
    and "r \<equiv> invoke_graph request_timeout grace ctx now start duration run"
  shows "\<exists>t. iv_when r = Some t \<and>
     t \<le> (case iv_what r of TimeoutExceeded _ \<Rightarrow> limit + max 0 grace | _ \<Rightarrow> limit)"
    and "\<not> started_by limit start \<Longrightarrow> iv_when r = Some limit"
proof -
  show "\<not> started_by limit start \<Longrightarrow> iv_when r = Some limit"
    using assms(1) by (simp add: r_def limit_def invoke_graph_def timed_out_def grace_end_unstarted Let_def)
  show "\<exists>t. iv_when r = Some t \<and>
     t \<le> (case iv_what r of TimeoutExceeded _ \<Rightarrow> limit + max 0 grace | _ \<Rightarrow> limit)"
  proof (cases "started_by limit start \<and> started_by limit (finish_time start duration)")
    case True
    then obtain f where f: "finish_time start duration = Some f" "f \<le> limit"
      by (auto simp: started_by_def split: option.splits)
    then have "grace_end grace f start (Some f) \<le> limit + max 0 grace"
      using grace_end_bound [of grace f start "Some f"] by linarith
    then show ?thesis
      using assms(1) True f unfolding r_def invoke_graph_def limit_def
      by (cases run) (simp_all add: Let_def timed_out_def)
  next
    case False
    then show ?thesis
      using assms(1) grace_end_bound unfolding r_def invoke_graph_def limit_def
      by (auto simp add: Let_def timed_out_def)
  qed
qed

text \<open>
  C28: a hung graph cannot hang its request. When a live deadline or a positive request timeout limits the time and
  some of it is left, the request ends: with what the graph gave within the limit, or with the timeout error within
  the limit plus the grace period, whatever the worker does; a run no worker has taken by then ends at the limit,
  without the grace period. When the deadline has passed already the graph runs in the request thread, where its
  first node finds the deadline and raises. Only without a live deadline and with a timeout of zero or less is
  there no limit.
\<close>

theorem requests_are_answered_in_time:
  "let r = invoke_graph request_timeout grace ctx now start duration run
   in case time_limit request_timeout ctx now of
        None \<Rightarrow> request_timeout \<le> 0 \<and> iv_when r = map_option (\<lambda>d. now + d) duration
      | Some l \<Rightarrow>
          if 0 < l then
            (case iv_when r of
               None \<Rightarrow> False
             | Some t \<Rightarrow>
                 if started_by (now + l) start
                 then t \<le> (case iv_what r of TimeoutExceeded _ \<Rightarrow> now + l + max 0 grace | _ \<Rightarrow> now + l)
                 else t = now + l)
          else run_node (w\<lparr>w_ctx := graph_context request_timeout ctx now, w_now := \<lambda>k. max now (w_now w k)\<rparr>) n c
                 (wf_node (run_start rq trace skill memory)) s
               = Inl (NodeFailed (RetrievalNodes.Cancelled (ExecutionCancelled ''deadline_exceeded'')))"
proof (cases "time_limit request_timeout ctx now")
  case None
  then show ?thesis
    using no_limit [OF None] by (simp add: invoke_graph_def effective_timeout_limit Let_def)
next
  case (Some l)
  then have eff: "effective_timeout request_timeout ctx now = l" by (simp add: effective_timeout_limit)
  show ?thesis
  proof (cases "0 < l")
    case True
    then have pos: "0 < effective_timeout request_timeout ctx now" by (simp add: eff)
    note t = timed_invocation [OF pos, unfolded eff, where run = run and start = start and duration = duration and grace = grace]
    show ?thesis using t True Some by (auto simp: Let_def)
  next
    case False
    then obtain d where d: "ctx = Some d" "\<not> cancelled d" "monotonic_deadline d \<le> now"
      using no_time_left [OF Some] by blast
    have "node_check (Some d) (max now (w_now w n)) = Inl (RetrievalNodes.Cancelled (ExecutionCancelled ''deadline_exceeded''))"
      using d by (intro expired_check) simp_all
    then show ?thesis
      using False Some d
      by (simp add: Let_def graph_context_def eff [unfolded d(1)] run_start_def collect_context_def lift_node_def and_then_def)
  qed
qed

section \<open>Hung graphs\<close>

text \<open>The nodes of a graph that runs under a timeout never see the deadline: no cancellation point raises.\<close>

lemma timed_graph_is_not_cancelled:
  "0 < effective_timeout request_timeout ctx now \<Longrightarrow> node_check (graph_context request_timeout ctx now) t = Inr ()"
  by (simp add: graph_context_def node_check_def check_cancelled_def get_current_deadline_def)

definition effective_max_active_runs :: "bool \<Rightarrow> nat \<Rightarrow> nat \<Rightarrow> nat" where
  "effective_max_active_runs mysql_enabled pool_size configured =
     (if mysql_enabled \<and> 0 < pool_size then (if pool_size < configured then pool_size else configured)
      else configured)"

lemma earliest_hung: "earliest (replicate n None) = None"
  by (induction n) simp_all

lemma filter_hung: "filter (\<lambda>t. case t of None \<Rightarrow> True | Some f \<Rightarrow> now < f) (replicate n None) = replicate n None"
  by (induction n) simp_all

lemma start_time_hung: "start_time n (replicate n None) now = None"
  by (simp add: start_time_def filter_hung earliest_hung)

lemma start_time_free: "k < n \<Longrightarrow> start_time n (replicate k None) now = Some now"
  by (simp add: start_time_def filter_hung)

lemma occupy_hung:
  assumes "k \<le> n" and "now \<le> limit"
  shows "occupy limit (start_time n (replicate k None) now) None (replicate k None) = replicate (min n (Suc k)) None"
proof (cases "k = n")
  case True
  then show ?thesis by (simp add: start_time_hung occupy_def started_by_def min_def)
next
  case False
  then have "k < n" and "min n (Suc k) = Suc k" using assms(1) by simp_all
  then show ?thesis
    using assms(2)
    by (simp add: start_time_free occupy_def started_by_def finish_time_def replicate_append_same)
qed

text \<open>A controller nobody holds a slot of.\<close>

definition idle :: "nat \<Rightarrow> controller \<Rightarrow> bool" where
  "idle n c \<longleftrightarrow> max_active c = int n \<and> 0 < max_active_per_org c \<and> active c = 0 \<and> org_active c = Map.empty \<and> queue c = []"

lemma idle_new: "0 < per_org \<Longrightarrow> idle n (new_controller (int n) mq wait (Some per_org))"
  by (simp add: idle_def new_controller_def)

lemma try_grant_empty: "queue c = [] \<Longrightarrow> try_grant_waiters c = c\<lparr>queued_gauge := 0\<rparr>"
  by (subst try_grant_waiters_def) (simp add: grant_loop.simps Let_def)

lemma idle_grant:
  assumes "idle n c" and "0 < n"
  obtains c' where "acquire_enter org now c = (Granted (length (lease_heap c)), c')" and "idle n (close (length (lease_heap c)) c')"
proof -
  let ?c' = "snd (grant c org)"
  have "acquire_enter org now c = (Granted (length (lease_heap c)), ?c')"
    using assms by (simp add: acquire_enter_def can_grant_def idle_def grant_def get_or_def)
  moreover have "idle n (close (length (lease_heap c)) ?c')"
    using assms
    by (simp add: close_def release_def mark_closed_def return_slot_def try_grant_empty grant_def idle_def new_lease_def
        get_or_def Let_def)
  ultimately show thesis by (rule that)
qed

text \<open>
  Requests whose graphs never end, one after the other, each with its organisation, arrival and deadline: each that
  finds a worker leaves it busy for ever.
\<close>

fun hung_requests ::
  "nat \<Rightarrow> seconds \<Rightarrow> seconds \<Rightarrow> (int \<times> seconds \<times> deadline_ctx) list \<Rightarrow> controller \<times> seconds option list
     \<Rightarrow> controller \<times> seconds option list"
where
  "hung_requests n timeout grace [] cb = cb"
| "hung_requests n timeout grace ((org, now, ctx) # rs) (c, busy) =
     (let start = start_time n busy now; limit = now + effective_timeout timeout ctx now
      in case run_with_admission (Some c) org now
             (invoke_graph timeout grace ctx now start None (GraphEnds (Inl Escaped))) of
        (Some c', t, r) \<Rightarrow> hung_requests n timeout grace rs (c', occupy limit start None busy)
      | (None, t, r) \<Rightarrow> (c, busy))"

definition has_time :: "seconds \<Rightarrow> int \<times> seconds \<times> deadline_ctx \<Rightarrow> bool" where
  "has_time timeout r = (case r of (org, now, ctx) \<Rightarrow> 0 < effective_timeout timeout ctx now)"

lemma hung_requests_state:
  assumes "idle n c" and "0 < n" and "k \<le> n" and "list_all (has_time timeout) rs"
  shows "\<exists>c'. hung_requests n timeout grace rs (c, replicate k None) = (c', replicate (min n (k + length rs)) None) \<and>
     idle n c'"
  using assms
proof (induction rs arbitrary: c k)
  case Nil
  then show ?case by (simp add: min_def)
next
  case (Cons r rs)
  obtain org now ctx where r: "r = (org, now, ctx)" by (cases r)
  obtain c' where c': "acquire_enter org now c = (Granted (length (lease_heap c)), c')"
      "idle n (close (length (lease_heap c)) c')"
    using idle_grant [OF Cons.prems(1,2)] by blast
  have occ: "occupy (now + effective_timeout timeout ctx now) (start_time n (replicate k None) now) None
      (replicate k None) = replicate (min n (Suc k)) None"
    using Cons.prems(3,4) by (intro occupy_hung) (simp_all add: r has_time_def)
  have more: "min n (min n (Suc k) + length rs) = min n (k + length (r # rs))" by simp
  show ?case
    using Cons.IH [OF c'(2) Cons.prems(2), of "min n (Suc k)"] Cons.prems(4) c'(1)
    unfolding more by (simp add: r run_with_admission_def occ Let_def)
qed

text \<open>
  C29: the admission limit does not bound the graphs that run. After at least as many timed-out requests with hung
  graphs as the pool has workers, every lease is closed again and the next request with time left is admitted, but
  no worker will ever take it: its future is cancelled when its time is up and it gets the timeout error at that
  moment, whatever its own graph would have done, while the hung graphs find no deadline to stop at.
\<close>

theorem hung_graphs_starve_admitted_requests:
  assumes "n \<le> length rs" and "0 < n" and "0 < per_org" and "list_all (has_time timeout) ((org, now, ctx) # rs)"
  shows "case hung_requests n timeout grace rs (new_controller (int n) mq wait (Some per_org), []) of (c, busy) \<Rightarrow>
     active c = 0 \<and>
     snd (run_with_admission (Some c) org now
       (invoke_graph timeout grace ctx now (start_time n busy now) duration run))
       = (Some (now + effective_timeout timeout ctx now), HttpError 504 ''Workflow run exceeded the request timeout'') \<and>
     list_all (\<lambda>(org', now', ctx'). node_check (graph_context timeout ctx' now') t = Inr ()) rs"
proof -
  have "\<exists>c'. hung_requests n timeout grace rs (new_controller (int n) mq wait (Some per_org), replicate 0 None)
      = (c', replicate (min n (0 + length rs)) None) \<and> idle n c'"
    using assms by (intro hung_requests_state idle_new) simp_all
  then obtain c' where after: "hung_requests n timeout grace rs (new_controller (int n) mq wait (Some per_org), [])
      = (c', replicate n None)" and idle: "idle n c'"
    using assms(1) by (auto simp: min_def)
  obtain c2 where "acquire_enter org now c' = (Granted (length (lease_heap c')), c2)"
    using idle_grant [OF idle assms(2)] by blast
  moreover have "active c' = 0" using idle by (simp add: idle_def)
  moreover have "list_all (\<lambda>(org', now', ctx'). node_check (graph_context timeout ctx' now') t = Inr ()) rs"
    using assms(4) by (auto simp: list_all_iff has_time_def timed_graph_is_not_cancelled)
  ultimately show ?thesis
    using assms(4)
    by (simp add: after run_with_admission_def invoke_graph_def start_time_hung http_of_harness_def timed_out_def
        grace_end_def started_by_def has_time_def Let_def)
qed

theorem hung_graphs_starve_admitted_requests_witness:
  "case hung_requests 1 120 5 [(7 :: int, 0, Some (new_deadline 100))] (new_controller (int 1) 16 5 (Some 1), []) of
     (c, busy) \<Rightarrow>
     active c = 0 \<and>
     snd (run_with_admission (Some c) 8 200
       (invoke_graph 120 5 None 200 (start_time 1 busy 200) (Some 1) (GraphEnds (Inl Escaped))))
       = (Some (200 + effective_timeout 120 None 200), HttpError 504 ''Workflow run exceeded the request timeout'') \<and>
     list_all (\<lambda>(org', now', ctx'). node_check (graph_context 120 ctx' now') 300 = Inr ())
       [(7 :: int, 0, Some (new_deadline 100))]"
  by (rule hung_graphs_starve_admitted_requests)
    (simp_all add: has_time_def effective_timeout_def get_current_deadline_def new_deadline_def remaining_seconds_def)

end
