(* ===== verification/Api.thy ===== *)
theory Api
  imports Invocation
begin

text \<open>
  The endpoints of \<open>services/agent-runtime/allcallall_agent_runtime/api/routes.py\<close> with logic of their own: the
  deadline of a request, the resume route, and the views of the tool queue and of the skill registry.
\<close>

section \<open>Requests\<close>

definition parse_deadline_from_headers ::
  "(string \<Rightarrow> iso_result) \<Rightarrow> seconds \<Rightarrow> seconds \<Rightarrow> seconds \<Rightarrow> string option \<Rightarrow> deadline" where
  "parse_deadline_from_headers fromisoformat now_mono now_utc request_timeout header =
     from_header fromisoformat now_mono now_utc header (if 0 < request_timeout then request_timeout else 120)"

text \<open>An unsupported preset is refused before admission; the rest runs under admission.\<close>

definition workflow_resume_route ::
  "harness_env \<Rightarrow> 'g graph_ops \<Rightarrow> string \<Rightarrow> resume_request \<Rightarrow> controller option \<Rightarrow> seconds \<Rightarrow> 'g
     \<Rightarrow> (controller option \<times> 'g) \<times> http_outcome" where
  "workflow_resume_route env gops preset rz admission now g =
     (if normalize_workflow_preset preset \<notin> set supported_workflows
      then ((admission, g), HttpError 404 ''unsupported workflow preset'')
      else (case admission of
          None \<Rightarrow> (let (g', r) = resume_workflow env gops rz g in ((None, g'), http_of_harness (GraphAnswered r)))
        | Some c \<Rightarrow>
            (case acquire_enter (rz_organization_id rz) now c of
               (Granted l, c') \<Rightarrow>
                 (let (g', r) = resume_workflow env gops rz g
                  in ((Some (close l c'), g'), http_of_harness (GraphAnswered r)))
             | (Refused r retry_after, c') \<Rightarrow> ((Some c', g), HttpError 503 ''runtime_overloaded'')
             | (Enqueued w, c') \<Rightarrow> ((Some c', g), HttpUnhandled))))"

definition workflows_route :: "string list" where
  "workflows_route = sort supported_workflows"

section \<open>Views\<close>

record queue_status =
  qs_queued :: int
  qs_processing :: int
  qs_done :: int
  qs_dead :: int
  qs_total :: int

definition count_status :: "task_status \<Rightarrow> 'p task list \<Rightarrow> int" where
  "count_status st ts = int (length (filter (\<lambda>t. status t = st) ts))"

definition tool_queue_status :: "'p task list \<Rightarrow> queue_status" where
  "tool_queue_status ts =
     \<lparr>qs_queued = count_status TaskQueued ts, qs_processing = count_status TaskProcessing ts,
      qs_done = count_status TaskDone ts, qs_dead = count_status TaskDead ts, qs_total = int (length ts)\<rparr>"

record queue_metrics =
  qm_total_enqueued :: int
  qm_avg_attempts :: rat
  qm_dead_letter_ratio :: rat
  qm_dead_letters :: int

definition round_to :: "nat \<Rightarrow> rat \<Rightarrow> rat" where
  "round_to digits x = of_int (round_even (x * 10 ^ digits)) / 10 ^ digits"

definition tool_queue_metrics :: "'p task list \<Rightarrow> 'p task list \<Rightarrow> queue_metrics" where
  "tool_queue_metrics ts dls =
     (let total = length ts;
          avg = (if total \<noteq> 0 then of_int (\<Sum>t\<leftarrow>ts. attempts t) / of_nat total else 0);
          ratio = (if total \<noteq> 0 then of_int (count_status TaskDead ts) / of_nat total else 0)
      in \<lparr>qm_total_enqueued = int total, qm_avg_attempts = round_to 2 avg, qm_dead_letter_ratio = round_to 4 ratio,
          qm_dead_letters = int (length dls)\<rparr>)"

record skill_view =
  sv_name :: ustring
  sv_risk_level :: ustring
  sv_requires_approval :: bool
  sv_tools :: "ustring list"

definition skill_view_of :: "resolved_skill \<Rightarrow> skill_view" where
  "skill_view_of k = \<lparr>sv_name = rk_name k, sv_risk_level = rk_risk_level k,
     sv_requires_approval = rk_requires_approval k, sv_tools = rk_allowed_tools k\<rparr>"

definition list_skills :: "skill_world \<Rightarrow> ustring \<Rightarrow> (skill_error, skill_view list) result" where
  "list_skills w manifest =
     and_then (build_production_registry w manifest) (\<lambda>r.
       Inr (List.map_filter (\<lambda>(n, s). case resolve r (sk_name s) of
         Inl e \<Rightarrow> None | Inr k \<Rightarrow> Some (skill_view_of k)) r))"

section \<open>Lemmas\<close>

lemma count_status_Nil [simp]: "count_status st [] = 0"
  by (simp add: count_status_def)

lemma count_status_Cons [simp]: "count_status st (t # ts) = (if status t = st then 1 else 0) + count_status st ts"
  by (simp add: count_status_def)

text \<open>The four counts of the status view partition the tasks.\<close>

lemma status_counts_partition:
  "qs_queued (tool_queue_status ts) + qs_processing (tool_queue_status ts) + qs_done (tool_queue_status ts)
     + qs_dead (tool_queue_status ts) = qs_total (tool_queue_status ts)"
proof (induction ts)
  case Nil
  then show ?case by (simp add: tool_queue_status_def)
next
  case (Cons t ts)
  then show ?case by (cases "status t") (simp_all add: tool_queue_status_def)
qed

text \<open>Whatever the header says, the deadline lies at most the local default ahead.\<close>

lemma header_deadline_bounded:
  "monotonic_deadline (parse_deadline_from_headers fi now_mono now_utc request_timeout header)
     \<le> now_mono + (if 0 < request_timeout then request_timeout else 120)"
  by (auto simp: parse_deadline_from_headers_def from_header_def new_deadline_def Let_def split: option.splits)

end
