(* ===== verification/RagRetrieval.thy ===== *)
theory RagRetrieval
  imports Rerank
begin

text \<open>
  \<open>services/rag-runtime/allcallall_rag_runtime/retrieval.py\<close> with the shared scoring of
  \<open>packages/shared/shared/scoring.py\<close>: routing, graph expansion, reranking and the bounded retrieval loop of the
  RAG runtime.

  Chunks, attempts, edges and expansions are the records of \<open>AgentModels\<close>; a \<open>RetrievalRoute\<close> has the fields of
  an \<^typ>\<open>intent_route\<close>. Names that the agent runtime uses as well end in \<open>_rag\<close>. Parameters: the SHA-256 digest
  \<open>sha\<close> in hexadecimal and the C library's \<open>log1p\<close>, a function to doubles, which are exact rationals here.
\<close>

section \<open>Tokens and scores\<close>

definition stopwords_rag :: "ustring list" where
  "stopwords_rag =
     [codes ''a'', codes ''an'', codes ''and'', codes ''are'', codes ''for'', codes ''the'', codes ''to'',
      codes ''with'', codes ''what'', codes ''which'']"

definition tokenize_rag :: "ustring \<Rightarrow> ustring list" where
  "tokenize_rag t =
     dedup_by id {}
       (filter (\<lambda>w. 2 \<le> length w \<and> w \<notin> set stopwords_rag)
         (map strip (split_runs (\<lambda>c. \<not> is_token_char c) (to_lower t))))"

definition chunk_key_rag :: "context_chunk \<Rightarrow> string" where
  "chunk_key_rag c =
     (if ck_chunk_id c \<noteq> '''' then ck_chunk_id c else ck_source_type c @ '':'' @ ck_source_id c)"

definition source_boost_rag :: "string \<Rightarrow> rat" where
  "source_boost_rag t =
     (if t = ''meeting_transcript'' then 6 else if t = ''knowledge'' then 5
      else if t = ''message'' then 2 else if t = ''note'' then 2 else if t = ''followup'' then 2
      else if t = ''memory'' then 15 / 10 else 0)"

definition chunk_text :: "context_chunk \<Rightarrow> ustring" where
  "chunk_text c = ck_title c @ codes '' '' @ ck_source_title c @ codes '' '' @ ck_snippet c"

definition rules_score_rag :: "context_chunk \<Rightarrow> ustring list \<Rightarrow> nat \<Rightarrow> rat \<times> ustring" where
  "rules_score_rag c tokens original_index =
     (let t = to_lower (chunk_text c);
          overlap = length (filter (\<lambda>w. substring_in w t) tokens);
          score = of_nat overlap * 10 + source_boost_rag (ck_source_type c) + of_int (max (ck_score c) 0) / 100
            - of_nat original_index * (1 / 100)
      in (score, codes ''rules overlap='' @ show_int (int overlap) @ codes '' source='' @ codes (ck_source_type c)))"

section \<open>Reranking\<close>

definition compute_fingerprint_rag :: "(string \<Rightarrow> string) \<Rightarrow> context_chunk list \<Rightarrow> string" where
  "compute_fingerprint_rag sha cs =
     (if cs = [] then '''' else take 16 (sha (join_keys (sort (map chunk_key_rag cs)))))"

definition prepare_candidates_rag ::
  "(string \<Rightarrow> string) \<Rightarrow> ustring \<Rightarrow> context_chunk list \<Rightarrow> string list \<Rightarrow> prepared" where
  "prepare_candidates_rag sha query cs source_types =
     (let filtered = (if source_types \<noteq> [] \<and> source_types \<noteq> [''all'']
                      then filter (\<lambda>c. ck_source_type c \<in> set source_types) cs else cs);
          deduped = dedup_by chunk_key_rag {} filtered;
          tokens = tokenize_rag query
      in \<lparr>pc_query = query, pc_source_types = sort source_types, pc_chunks = deduped, pc_tokens = tokens,
          pc_fingerprint = compute_fingerprint_rag sha deduped, pc_chunk_count = length deduped,
          pc_token_count = length tokens\<rparr>)"

definition score_chunk_rag :: "ustring list \<Rightarrow> nat \<times> context_chunk \<Rightarrow> rat \<times> context_chunk" where
  "score_chunk_rag tokens ic =
     (case ic of (index, c) \<Rightarrow>
        (case rules_score_rag c tokens index of (score, reason) \<Rightarrow>
           (score, c\<lparr>ck_rerank_score := score, ck_rerank_reason := reason\<rparr>)))"

record rerank_response =
  rx_chunks :: "context_chunk list"
  rx_trace :: json_object

definition rerank_rag :: "ustring \<Rightarrow> context_chunk list \<Rightarrow> int \<Rightarrow> rerank_response" where
  "rerank_rag query cs top_k =
     (let tokens = tokenize_rag query;
          scored = sort_desc fst (map (score_chunk_rag tokens) (enumerate 0 cs));
          ranked = rank_chunks (map snd (take (nat (max 1 top_k)) scored))
      in \<lparr>rx_chunks = ranked,
          rx_trace = [(''event'', jstr ''retrieval.rerank''), (''provider'', jstr ''rules''),
            (''candidate_count'', jlen cs), (''returned'', jlen ranked)]\<rparr>)"

definition rerank_prepared_rag :: "prepared \<Rightarrow> int \<Rightarrow> rerank_response" where
  "rerank_prepared_rag p top_k =
     (let candidates = pc_chunks p;
          reduced = (if top_k * 2 < int (length candidates)
                     then slice_to (top_k * 2) (sort_desc (\<lambda>c. of_int (ck_score c)) candidates) else candidates)
      in rerank_rag (pc_query p) reduced top_k)"

section \<open>Routing\<close>

definition risk_keywords_rag :: "ustring list" where
  "risk_keywords_rag =
     [codes ''risk'', codes ''approval'', codes ''blocker'', codes ''security'', codes ''legal'',
      codes ''deadline'', codes ''budget'', [39118, 38505], [23457, 25209], [23433, 20840], [27861, 21153],
      [24310, 26399], [39044, 31639], [38459, 22622]]"

definition consult_keywords_rag :: "ustring list" where
  "consult_keywords_rag =
     [codes ''what'', codes ''how'', codes ''policy'', codes ''knowledge'', codes ''checklist'',
      codes ''requires'', [20026, 20160, 20040], [22914, 20309], [25919, 31574], [30693, 35782, 24211],
      [28165, 21333], [26448, 26009]]"

definition route_query :: "ustring \<Rightarrow> string list \<Rightarrow> context_chunk list \<Rightarrow> intent_route" where
  "route_query query source_types cs =
     (let t = to_lower (join (codes '' '') (query # map ck_snippet (take 6 cs)))
      in if source_types = [''none''] then
           \<lparr>ir_intent = ''chat'', ir_target_workflow = ''react_general'', ir_confidence = 8 / 10,
            ir_rationale = ''caller requested no retrieval; answer should rely on supplied prompt only'',
            ir_required_source_types = [], ir_retrieval_strategy = ''no_retrieval''\<rparr>
         else if ''meeting_transcript'' \<in> set source_types then
           \<lparr>ir_intent = ''risk'', ir_target_workflow = ''risk_review'', ir_confidence = 9 / 10,
            ir_rationale = ''risk, approval, or transcript signal requires multi-hop evidence'',
            ir_required_source_types = [''meeting_transcript'', ''knowledge'', ''memory''],
            ir_retrieval_strategy = ''multi_hop''\<rparr>
         else if source_types = [''knowledge''] \<or> contains_any t consult_keywords_rag then
           \<lparr>ir_intent = ''consult'', ir_target_workflow = ''context_qa'', ir_confidence = 84 / 100,
            ir_rationale = ''question or policy signal requires knowledge-first retrieval'',
            ir_required_source_types = [''knowledge'', ''meeting_transcript'', ''memory''],
            ir_retrieval_strategy = ''graph_augmented''\<rparr>
         else if contains_any t risk_keywords_rag then
           \<lparr>ir_intent = ''risk'', ir_target_workflow = ''risk_review'', ir_confidence = 86 / 100,
            ir_rationale = ''risk or approval signal requires multi-hop evidence'',
            ir_required_source_types = [''meeting_transcript'', ''knowledge'', ''memory''],
            ir_retrieval_strategy = ''multi_hop''\<rparr>
         else
           \<lparr>ir_intent = ''chat'', ir_target_workflow = ''react_general'', ir_confidence = 78 / 100,
            ir_rationale = ''conversation task can use scoped chat and memory context'',
            ir_required_source_types = [''message'', ''note'', ''followup'', ''memory''],
            ir_retrieval_strategy = ''single_pass''\<rparr>)"

section \<open>Graph expansion\<close>

definition relation_rules_rag :: "(string \<times> ustring list) list" where
  "relation_rules_rag =
     [(''requires'', [codes ''requires'', codes ''require'', [38656, 35201], [24517, 39035], [21253, 21547], codes ''should'']),
      (''blocks'', [codes ''blocker'', codes ''block'', [39118, 38505], [24310, 26399], codes ''delay'']),
      (''owned_by'', [codes ''owner'', codes ''owns'', [36127, 36131], [36319, 36827], codes ''action item'']),
      (''approves'', [codes ''approval'', codes ''approve'', [23457, 25209], codes ''signoff'']),
      (''mitigates'', [codes ''mitigation'', codes ''mitigate'', [32531, 35299], [22238, 24402], codes ''rollback''])]"

definition infer_relation_rag :: "ustring \<Rightarrow> string" where
  "infer_relation_rag t =
     (case List.find (\<lambda>(r, ks). contains_any t ks) relation_rules_rag of None \<Rightarrow> '''' | Some (r, ks) \<Rightarrow> r)"

definition infer_target_phrase_rag :: "ustring \<Rightarrow> ustring" where
  "infer_target_phrase_rag t =
     (let normalized = normalize_space t
      in if normalized = [] then []
         else (case List.find (\<lambda>s. s \<noteq> []) (map strip (split_chars is_clause_end normalized)) of
                 None \<Rightarrow> [] | Some s \<Rightarrow> s))"

definition dedupe_terms :: "ustring list \<Rightarrow> ustring list \<Rightarrow> ustring list" where
  "dedupe_terms values exclude = dedup_by id (set exclude) (concat (map tokenize_rag values))"

definition graph_edge_from_chunk_rag :: "context_chunk \<Rightarrow> ustring list \<Rightarrow> nat \<Rightarrow> graph_edge option" where
  "graph_edge_from_chunk_rag c query_terms ordinal =
     (let t = strip (chunk_text c);
          lowered = to_lower t;
          relation = infer_relation_rag t;
          target = infer_target_phrase_rag t;
          has_overlap = (query_terms = [] \<or> list_ex (\<lambda>q. substring_in q lowered) query_terms);
          src = (if ck_title c \<noteq> [] then ck_title c else if ck_source_title c \<noteq> [] then ck_source_title c
                 else codes (ck_source_type c))
      in if relation = '''' \<or> target = [] then None
         else if \<not> has_overlap \<and> ck_source_type c \<notin> {''knowledge'', ''meeting_transcript'', ''memory''} then None
         else Some
           \<lparr>ge_edge_id = ''kg-'' @ show_id (int ordinal) @ ''-'' @
              (if ck_chunk_id c \<noteq> '''' then ck_chunk_id c else ck_source_type c @ ''-'' @ ck_source_id c),
            ge_source = take 80 src, ge_relation = relation, ge_target = take 120 target,
            ge_evidence_chunk_id = chunk_key_rag c,
            ge_confidence = (if ck_source_type c = ''knowledge'' then 72 / 100 else 64 / 100)\<rparr>)"

fun collect_edges_rag :: "ustring list \<Rightarrow> graph_edge list \<Rightarrow> context_chunk list \<Rightarrow> graph_edge list" where
  "collect_edges_rag terms edges [] = edges"
| "collect_edges_rag terms edges (c # cs) =
     (case graph_edge_from_chunk_rag c terms (length edges + 1) of
        None \<Rightarrow> collect_edges_rag terms edges cs
      | Some e \<Rightarrow>
          (if 8 \<le> length (edges @ [e]) then edges @ [e] else collect_edges_rag terms (edges @ [e]) cs))"

definition build_graph_expansion_rag :: "ustring \<Rightarrow> context_chunk list \<Rightarrow> graph_expansion" where
  "build_graph_expansion_rag query cs =
     (let query_terms = take 8 (tokenize_rag query);
          edges = collect_edges_rag query_terms [] cs;
          expanded = concat (map (\<lambda>e. [ge_source e, codes (ge_relation e), ge_target e]) edges)
      in \<lparr>gx_enabled = (edges \<noteq> []), gx_query_terms = query_terms,
          gx_expanded_terms = take 12 (dedupe_terms expanded query_terms), gx_edges = edges\<rparr>)"

section \<open>The retrieval loop\<close>

text \<open>A request's \<open>chunks\<close> are handed to the loop separately.\<close>

record retrieval_request =
  qr_organization_id :: int
  qr_user_id :: int
  qr_conversation_id :: int
  qr_query :: ustring
  qr_source_types :: "string list"
  qr_top_k :: int
  qr_query_vector :: "rat list"
  qr_chunks :: "context_chunk list"
  qr_max_steps :: int
  qr_min_confidence :: rat

record evidence_pack_rag =
  ek_selected_chunk_ids :: "string list"
  ek_confidence :: rat
  ek_source_types :: "string list"
  ek_snippets :: "ustring list"
  ek_citations :: "context_chunk list"
  ek_route_intent :: string
  ek_coverage :: rat
  ek_graph_edges :: "graph_edge list"

definition filter_chunks :: "context_chunk list \<Rightarrow> string list \<Rightarrow> context_chunk list" where
  "filter_chunks cs source_types =
     (let allowed = filter (\<lambda>t. t \<noteq> '''') (map strip_ascii source_types)
      in if ''none'' \<in> set allowed then []
         else if allowed = [] then cs
         else (let scoped = filter (\<lambda>c. ck_source_type c \<in> set allowed) cs
               in if scoped \<noteq> [] then scoped else cs))"

text \<open>\<open>" ".join(s.split())\<close>.\<close>

definition split_join :: "ustring \<Rightarrow> ustring" where
  "split_join s = join (codes '' '') (filter (\<lambda>w. w \<noteq> []) (split_runs is_space s))"

definition query_variants :: "ustring \<Rightarrow> string list \<Rightarrow> intent_route \<Rightarrow> graph_expansion \<Rightarrow> ustring list" where
  "query_variants query source_types route graph =
     (let expansion = join (codes '' '') (take 6 (gx_expanded_terms graph))
      in [query] @
         (if ir_intent route = ''risk'' \<or> ''meeting_transcript'' \<in> set source_types
          then [query @ codes '' '' @ expansion @ codes '' meeting transcript decisions risks action items''] else []) @
         (if ir_intent route = ''consult'' \<or> ''knowledge'' \<in> set source_types
          then [query @ codes '' '' @ expansion @ codes '' policy knowledge reference checklist''] else []) @
         [query @ codes '' conversation notes followups''])"

text \<open>The loop over the variants: it tests its bound after each one.\<close>

fun take_queries :: "int \<Rightarrow> ustring list \<Rightarrow> ustring list \<Rightarrow> ustring list" where
  "take_queries max_steps out [] = out"
| "take_queries max_steps out (item # items) =
     (let normalized = split_join item;
          out' = (if normalized \<noteq> [] \<and> normalized \<notin> set out then out @ [normalized] else out)
      in if max_steps \<le> int (length out') then out' else take_queries max_steps out' items)"

definition build_queries ::
  "ustring \<Rightarrow> string list \<Rightarrow> int \<Rightarrow> intent_route \<Rightarrow> graph_expansion \<Rightarrow> ustring list" where
  "build_queries query source_types max_steps route graph =
     take_queries max_steps [] (query_variants query source_types route graph)"

definition estimate_confidence ::
  "(nat \<Rightarrow> rat) \<Rightarrow> context_chunk list \<Rightarrow> string list \<Rightarrow> graph_expansion \<Rightarrow> rat" where
  "estimate_confidence log1p cs required graph =
     (if cs = [] then 0
      else
        (let sources = ck_source_type ` set cs;
             c0 = min (45 / 100 + log1p (length cs) * (2 / 10)) (88 / 100);
             c1 = fold (\<lambda>t c. if t \<in> sources then c + 12 / 100 else c) required c0;
             c2 = (if gx_enabled graph then c1 + min (of_nat (length (gx_edges graph)) * (3 / 100)) (12 / 100) else c1)
         in min c2 1))"

definition source_types_of :: "context_chunk list \<Rightarrow> string list" where
  "source_types_of cs = sort (remdups (map ck_source_type cs))"

definition build_evidence_pack_rag ::
  "(nat \<Rightarrow> rat) \<Rightarrow> context_chunk list \<Rightarrow> string list \<Rightarrow> intent_route \<Rightarrow> graph_expansion \<Rightarrow> context_chunk list option
     \<Rightarrow> evidence_pack_rag" where
  "build_evidence_pack_rag log1p cs required route graph ranked_chunks =
     (let ranked = (case ranked_chunks of Some r \<Rightarrow> r
            | None \<Rightarrow> rx_chunks (rerank_rag (join (codes '' '') (map codes required @ gx_expanded_terms graph)) cs 8));
          types = source_types_of ranked;
          coverage = of_nat (card (set types \<inter> set required)) / of_int (max (int (length required)) 1)
      in \<lparr>ek_selected_chunk_ids = map chunk_key_rag ranked,
          ek_confidence = estimate_confidence log1p ranked required graph, ek_source_types = types,
          ek_snippets = map ck_snippet (take 5 ranked), ek_citations = take 5 ranked,
          ek_route_intent = ir_intent route, ek_coverage = min coverage 1, ek_graph_edges = gx_edges graph\<rparr>)"

definition check_sufficiency :: "evidence_pack_rag \<Rightarrow> string list \<Rightarrow> rat \<Rightarrow> context_sufficiency" where
  "check_sufficiency pack required threshold =
     (let missing = filter (\<lambda>t. t \<notin> set (ek_source_types pack)) required;
          sufficient = (missing = [] \<and> threshold \<le> ek_confidence pack)
      in \<lparr>cs_sufficient = sufficient, cs_confidence = ek_confidence pack,
          cs_reason = (if sufficient then codes ''context is sufficient'' else codes ''context is insufficient''),
          cs_missing_info = missing\<rparr>)"

text \<open>The dumps of the plan event.\<close>

definition route_json :: "intent_route \<Rightarrow> json_object" where
  "route_json r =
     [(''intent'', jstr (ir_intent r)), (''target_workflow'', jstr (ir_target_workflow r)),
      (''confidence'', JNum (ir_confidence r)), (''rationale'', jstr (ir_rationale r)),
      (''required_source_types'', jstrs (ir_required_source_types r)),
      (''retrieval_strategy'', jstr (ir_retrieval_strategy r))]"

definition edge_json :: "graph_edge \<Rightarrow> json_object" where
  "edge_json e =
     [(''edge_id'', jstr (ge_edge_id e)), (''source'', JStr (ge_source e)), (''relation'', jstr (ge_relation e)),
      (''target'', JStr (ge_target e)), (''evidence_chunk_id'', jstr (ge_evidence_chunk_id e)),
      (''confidence'', JNum (ge_confidence e))]"

definition graph_json :: "graph_expansion \<Rightarrow> json_object" where
  "graph_json g =
     [(''enabled'', JBool (gx_enabled g)), (''query_terms'', jtexts (gx_query_terms g)),
      (''expanded_terms'', jtexts (gx_expanded_terms g)),
      (''edges'', JList (map (\<lambda>e. JObj (edge_json e)) (gx_edges g)))]"

text \<open>The variables of the loop; \<open>seen\<close> and \<open>seen_raw\<close> are the keys of what is gathered.\<close>

record loop_state =
  lo_attempts :: "retrieval_attempt list"
  lo_gathered :: "context_chunk list"
  lo_raw :: "context_chunk list"
  lo_fingerprint :: string
  lo_ranked :: "context_chunk list"
  lo_trace :: "json_object list"

definition add_new :: "context_chunk list \<Rightarrow> context_chunk list \<Rightarrow> context_chunk list" where
  "add_new old cs = old @ dedup_by chunk_key_rag (chunk_key_rag ` set old) cs"

definition attempt_of ::
  "nat \<Rightarrow> ustring \<Rightarrow> context_chunk list \<Rightarrow> rat \<Rightarrow> intent_route \<Rightarrow> graph_expansion \<Rightarrow> retrieval_attempt" where
  "attempt_of step query ranked confidence route graph =
     \<lparr>ra_step = int step, ra_query = query, ra_tool_name = '''', ra_source_scope = ''all'',
      ra_hit_count = int (length ranked), ra_source_types = source_types_of ranked,
      ra_selected_chunk_ids = map chunk_key_rag ranked,
      ra_observation = codes ''selected '' @ show_int (int (length ranked)) @ codes '' chunk(s), confidence='' @
        show_fixed2 confidence,
      ra_refined = (1 < step), ra_confidence = confidence, ra_strategy = ir_retrieval_strategy route,
      ra_expanded_terms = gx_expanded_terms graph, ra_graph_edge_ids = map ge_edge_id (gx_edges graph)\<rparr>"

definition retrieval_step_rag ::
  "(string \<Rightarrow> string) \<Rightarrow> (nat \<Rightarrow> rat) \<Rightarrow> retrieval_request \<Rightarrow> context_chunk list \<Rightarrow> string list \<Rightarrow> intent_route
     \<Rightarrow> graph_expansion \<Rightarrow> nat \<Rightarrow> ustring \<Rightarrow> loop_state \<Rightarrow> loop_state \<times> rat" where
  "retrieval_step_rag sha log1p rq cs source_types route graph step query st =
     (let scoped = filter_chunks cs source_types;
          raw = add_new (lo_raw st) scoped;
          fp = compute_fingerprint_rag sha scoped;
          skip = (fp = lo_fingerprint st);
          ranked = (if skip then lo_ranked st else rx_chunks (rerank_rag query scoped (qr_top_k rq)));
          gathered = add_new (lo_gathered st) ranked;
          confidence = estimate_confidence log1p gathered source_types graph;
          skipped = (if skip then [[(''event'', jstr ''rag.rerank_skipped''), (''step'', JInt (int step)),
                       (''reason'', jstr ''fingerprint_unchanged'')]] else [])
      in (\<lparr>lo_attempts = lo_attempts st @ [attempt_of step query ranked confidence route graph],
           lo_gathered = gathered, lo_raw = raw, lo_fingerprint = fp, lo_ranked = ranked,
           lo_trace = lo_trace st @ skipped @ [[(''event'', jstr ''rag.observe''), (''step'', JInt (int step)),
             (''hit_count'', jlen ranked), (''confidence'', JNum confidence)]]\<rparr>, confidence))"

fun retrieval_loop_rag ::
  "(string \<Rightarrow> string) \<Rightarrow> (nat \<Rightarrow> rat) \<Rightarrow> retrieval_request \<Rightarrow> context_chunk list \<Rightarrow> string list \<Rightarrow> intent_route
     \<Rightarrow> graph_expansion \<Rightarrow> nat \<Rightarrow> ustring list \<Rightarrow> loop_state \<Rightarrow> loop_state" where
  "retrieval_loop_rag sha log1p rq cs source_types route graph step [] st = st"
| "retrieval_loop_rag sha log1p rq cs source_types route graph step (q # qs) st =
     (case retrieval_step_rag sha log1p rq cs source_types route graph step q st of
        (st', confidence) \<Rightarrow>
          if qr_min_confidence rq \<le> confidence then st'
          else retrieval_loop_rag sha log1p rq cs source_types route graph (step + 1) qs st')"

record retrieval_response =
  ar_route :: intent_route
  ar_graph :: graph_expansion
  ar_attempts :: "retrieval_attempt list"
  ar_raw_hits :: "context_chunk list"
  ar_reranked_hits :: "context_chunk list"
  ar_rejected_chunks :: "context_chunk list"
  ar_evidence_pack :: evidence_pack_rag
  ar_context_sufficiency :: context_sufficiency
  ar_trace :: "json_object list"
  ar_vector_store :: string

definition loop_state0 :: "retrieval_request \<Rightarrow> int \<Rightarrow> intent_route \<Rightarrow> graph_expansion \<Rightarrow> loop_state" where
  "loop_state0 rq max_steps route graph =
     \<lparr>lo_attempts = [], lo_gathered = [], lo_raw = [], lo_fingerprint = '''', lo_ranked = [],
      lo_trace = [[(''event'', jstr ''rag.plan''), (''max_steps'', JInt max_steps), (''query'', JStr (qr_query rq)),
        (''route'', JObj (route_json route)), (''graph_expansion'', JObj (graph_json graph))]]\<rparr>"

definition final_rerank ::
  "(string \<Rightarrow> string) \<Rightarrow> retrieval_request \<Rightarrow> loop_state \<Rightarrow> context_chunk list \<times> json_object list" where
  "final_rerank sha rq st =
     (let candidates = (if lo_raw st \<noteq> [] then lo_raw st else lo_gathered st);
          fp = compute_fingerprint_rag sha candidates
      in if fp = lo_fingerprint st \<and> lo_fingerprint st \<noteq> '''' then
           (slice_to (qr_top_k rq) (lo_ranked st), lo_trace st @
              [[(''event'', jstr ''rag.final_rerank_skipped''), (''reason'', jstr ''fingerprint_unchanged'')]])
         else (rx_chunks (rerank_rag (qr_query rq) candidates (qr_top_k rq)), lo_trace st))"

definition agentic_retrieve ::
  "(string \<Rightarrow> string) \<Rightarrow> (nat \<Rightarrow> rat) \<Rightarrow> bool \<Rightarrow> retrieval_request \<Rightarrow> context_chunk list \<Rightarrow> retrieval_response" where
  "agentic_retrieve sha log1p enable_graph_expansion rq cs =
     (let max_steps = max 1 (min (qr_max_steps rq) 3);
          route = route_query (qr_query rq) (qr_source_types rq) cs;
          graph = (if enable_graph_expansion then build_graph_expansion_rag (qr_query rq) cs else graph_expansion0);
          source_types = (if qr_source_types rq \<noteq> [] then qr_source_types rq
            else filter (\<lambda>t. t \<noteq> ''memory'') (ir_required_source_types route));
          queries = build_queries (qr_query rq) source_types max_steps route graph;
          st = retrieval_loop_rag sha log1p rq cs source_types route graph 1 queries
                 (loop_state0 rq max_steps route graph);
          (hits, trace) = final_rerank sha rq st;
          pack = build_evidence_pack_rag log1p (lo_gathered st) source_types route graph (Some hits);
          selected = set (ek_selected_chunk_ids pack);
          rejected = filter (\<lambda>c. chunk_key_rag c \<notin> selected) (lo_raw st)
      in \<lparr>ar_route = route, ar_graph = graph, ar_attempts = lo_attempts st,
          ar_raw_hits = take (nat (max 1 (qr_top_k rq * max_steps))) (lo_raw st), ar_reranked_hits = hits,
          ar_rejected_chunks = take (length (lo_raw st) - card selected) rejected, ar_evidence_pack = pack,
          ar_context_sufficiency = check_sufficiency pack source_types (qr_min_confidence rq), ar_trace = trace,
          ar_vector_store = ''inline''\<rparr>)"

section \<open>Grounding\<close>

record grounding_response =
  gc_grounded :: bool
  gc_unsupported_claims :: "string list"
  gc_coverage :: rat
  gc_trace :: json_object

definition grounding_check_rag :: "ustring \<Rightarrow> context_chunk list \<Rightarrow> grounding_response" where
  "grounding_check_rag answer citations =
     (let tokens = tokenize_rag answer;
          evidence = to_lower (join (codes '' '') (map ck_snippet citations))
      in if tokens = [] then
           \<lparr>gc_grounded = False, gc_unsupported_claims = [''empty_answer''], gc_coverage = 0, gc_trace = []\<rparr>
         else
           (let covered = filter (\<lambda>w. substring_in w evidence) tokens;
                coverage = of_nat (length covered) / of_nat (max (length tokens) 1);
                grounded = (citations \<noteq> [] \<and> 2 / 10 \<le> coverage)
            in \<lparr>gc_grounded = grounded,
                gc_unsupported_claims = (if grounded then [] else [''answer lacks enough overlap with supplied citations'']),
                gc_coverage = coverage,
                gc_trace = [(''event'', jstr ''grounding.check''), (''citation_count'', jlen citations),
                  (''coverage'', JNum coverage)]\<rparr>))"

section \<open>Queries\<close>

lemma split_runs_nonempty: "split_runs p s \<noteq> []"
  by (induction p s rule: split_runs.induct) (auto split: list.split)

lemma concat_split_runs: "concat (split_runs p s) = filter (\<lambda>c. \<not> p c) s"
  by (induction p s rule: split_runs.induct) (auto simp: split_runs_nonempty split: list.split)

lemma join_nonempty: "w \<in> set ws \<Longrightarrow> w \<noteq> [] \<Longrightarrow> join sep ws \<noteq> []"
  by (induction sep ws rule: join.induct) auto

lemma split_join_nonempty: "c \<in> set s \<Longrightarrow> \<not> is_space c \<Longrightarrow> split_join s \<noteq> []"
proof -
  assume "c \<in> set s" "\<not> is_space c"
  then have "c \<in> set (concat (split_runs is_space s))" by (simp add: concat_split_runs)
  then obtain w where "w \<in> set (split_runs is_space s)" "c \<in> set w" unfolding set_concat by blast
  then have "w \<in> set (filter (\<lambda>w. w \<noteq> []) (split_runs is_space s))" "w \<noteq> []" by auto
  then show ?thesis unfolding split_join_def by (rule join_nonempty)
qed

lemma take_queries_bound: "int (length out) < n \<Longrightarrow> int (length (take_queries n out items)) \<le> n"
  by (induction items arbitrary: out) (auto simp: Let_def)

lemma distinct_take_queries: "distinct out \<Longrightarrow> distinct (take_queries n out items)"
  by (induction items arbitrary: out) (auto simp: Let_def)

lemma take_queries_nonempty:
  "1 \<le> n \<Longrightarrow> items \<noteq> [] \<Longrightarrow> split_join (last items) \<noteq> [] \<Longrightarrow> take_queries n out items \<noteq> []"
proof (induction items arbitrary: out)
  case (Cons item items)
  then show ?case by (cases "items = []") (auto simp: Let_def)
qed simp

lemma build_queries_nonempty: "1 \<le> n \<Longrightarrow> build_queries q types n route graph \<noteq> []"
proof -
  let ?l = "last (query_variants q types route graph)"
  have "99 \<in> set ?l" by (simp add: query_variants_def codes_def Let_def)
  then have "split_join ?l \<noteq> []" by (rule split_join_nonempty) (simp add: is_space_def)
  then show "1 \<le> n \<Longrightarrow> ?thesis"
    unfolding build_queries_def by (intro take_queries_nonempty) (simp_all add: query_variants_def Let_def)
qed

section \<open>Refinement\<close>

text \<open>
  After one step the loop is settled: what it scopes does not depend on the query, so the fingerprint is that of
  the last ranking, and what that ranking holds is gathered already.
\<close>

definition settled :: "(string \<Rightarrow> string) \<Rightarrow> context_chunk list \<Rightarrow> loop_state \<Rightarrow> bool" where
  "settled sha scoped st \<longleftrightarrow>
     lo_fingerprint st = compute_fingerprint_rag sha scoped \<and>
     chunk_key_rag ` set (lo_ranked st) \<subseteq> chunk_key_rag ` set (lo_gathered st)"

definition repeats :: "(nat \<Rightarrow> rat) \<Rightarrow> string list \<Rightarrow> graph_expansion \<Rightarrow> loop_state \<Rightarrow> retrieval_attempt \<Rightarrow> bool" where
  "repeats log1p types graph st a \<longleftrightarrow>
     ra_selected_chunk_ids a = map chunk_key_rag (lo_ranked st) \<and> ra_source_types a = source_types_of (lo_ranked st) \<and>
     ra_confidence a = estimate_confidence log1p (lo_gathered st) types graph"

lemma add_new_keys: "chunk_key_rag ` set (add_new old cs) = chunk_key_rag ` set old \<union> chunk_key_rag ` set cs"
  using dedup_by_keys [of chunk_key_rag "chunk_key_rag ` set old" cs] by (auto simp: add_new_def)

lemma add_new_known: "chunk_key_rag ` set cs \<subseteq> chunk_key_rag ` set old \<Longrightarrow> add_new old cs = old"
  by (simp add: add_new_def dedup_by_all_seen)

lemma step_settles:
  assumes "retrieval_step_rag sha log1p rq cs types route graph n q st = (st', conf)"
  shows "settled sha (filter_chunks cs types) st'"
  using assms by (auto simp: retrieval_step_rag_def settled_def add_new_keys Let_def)

lemma step_attempt:
  assumes "retrieval_step_rag sha log1p rq cs types route graph n q st = (st', conf)"
  shows "\<exists>a. lo_attempts st' = lo_attempts st @ [a] \<and> repeats log1p types graph st' a \<and> ra_confidence a = conf \<and>
    ra_query a = q \<and> ra_step a = int n \<and> (ra_refined a \<longleftrightarrow> 1 < n)"
  using assms by (auto simp: retrieval_step_rag_def repeats_def attempt_of_def Let_def)

lemma settled_step:
  assumes "retrieval_step_rag sha log1p rq cs types route graph n q st = (st', conf)"
    and "settled sha (filter_chunks cs types) st"
  shows "lo_ranked st' = lo_ranked st" "lo_gathered st' = lo_gathered st"
  using assms by (auto simp: retrieval_step_rag_def settled_def add_new_known Let_def)

text \<open>From a settled state that is not confident the loop runs through all queries and repeats itself.\<close>

lemma settled_loop:
  assumes "settled sha (filter_chunks cs types) st"
    and "\<not> qr_min_confidence rq \<le> estimate_confidence log1p (lo_gathered st) types graph"
  shows "\<exists>as. lo_attempts (retrieval_loop_rag sha log1p rq cs types route graph n qs st) = lo_attempts st @ as \<and>
    list_all (repeats log1p types graph st) as \<and> map ra_query as = qs"
  using assms
proof (induction qs arbitrary: st n)
  case (Cons q qs)
  obtain st' conf where s: "retrieval_step_rag sha log1p rq cs types route graph n q st = (st', conf)" by fastforce
  note same = settled_step [OF s Cons.prems(1)]
  obtain a where a: "lo_attempts st' = lo_attempts st @ [a]" "repeats log1p types graph st' a" "ra_confidence a = conf"
    "ra_query a = q" using step_attempt [OF s] by blast
  have eq: "repeats log1p types graph st' = repeats log1p types graph st" by (auto simp: repeats_def same fun_eq_iff)
  have "conf = estimate_confidence log1p (lo_gathered st) types graph" using a(2,3) by (simp add: repeats_def same)
  then have low: "\<not> qr_min_confidence rq \<le> conf" using Cons.prems(2) by simp
  obtain as where "lo_attempts (retrieval_loop_rag sha log1p rq cs types route graph (n + 1) qs st') = lo_attempts st' @ as"
    "list_all (repeats log1p types graph st') as" "map ra_query as = qs"
    using Cons.IH [OF step_settles [OF s], of "n + 1"] Cons.prems(2) same by (auto simp: eq)
  then show ?case using s low a by (intro exI [of _ "a # as"]) (simp add: eq)
qed simp

definition same_hits :: "retrieval_attempt \<Rightarrow> retrieval_attempt \<Rightarrow> bool" where
  "same_hits a b \<longleftrightarrow> ra_selected_chunk_ids b = ra_selected_chunk_ids a \<and> ra_source_types b = ra_source_types a \<and>
     ra_confidence b = ra_confidence a"

lemma loop_repeats_first_attempt:
  assumes "qs \<noteq> []" and "lo_attempts st = []"
  shows "case lo_attempts (retrieval_loop_rag sha log1p rq cs types route graph n qs st) of [] \<Rightarrow> False
    | a # as \<Rightarrow> list_all (same_hits a) as \<and> ra_query a = hd qs \<and>
        map ra_query as = (if qr_min_confidence rq \<le> ra_confidence a then [] else tl qs)"
proof -
  obtain q qs' where qs: "qs = q # qs'" using assms(1) by (cases qs) auto
  obtain st' conf where s: "retrieval_step_rag sha log1p rq cs types route graph n q st = (st', conf)" by fastforce
  obtain a where a: "lo_attempts st' = [a]" "repeats log1p types graph st' a" "ra_confidence a = conf" "ra_query a = q"
    using step_attempt [OF s] assms(2) by auto
  show ?thesis
  proof (cases "qr_min_confidence rq \<le> conf")
    case True
    then show ?thesis by (simp add: qs s a)
  next
    case False
    then obtain as where "lo_attempts (retrieval_loop_rag sha log1p rq cs types route graph (n + 1) qs' st') = lo_attempts st' @ as"
      "list_all (repeats log1p types graph st') as" "map ra_query as = qs'"
      using settled_loop [OF step_settles [OF s], of rq log1p graph route "n + 1" qs'] a(2,3) by (auto simp: repeats_def)
    then show ?thesis using False a by (auto simp: qs s same_hits_def repeats_def list_all_iff)
  qed
qed

definition wanted_types :: "retrieval_request \<Rightarrow> context_chunk list \<Rightarrow> string list" where
  "wanted_types rq cs = (if qr_source_types rq \<noteq> [] then qr_source_types rq
     else filter (\<lambda>t. t \<noteq> ''memory'') (ir_required_source_types (route_query (qr_query rq) (qr_source_types rq) cs)))"

definition planned_queries :: "bool \<Rightarrow> retrieval_request \<Rightarrow> context_chunk list \<Rightarrow> ustring list" where
  "planned_queries enable rq cs = build_queries (qr_query rq) (wanted_types rq cs) (max 1 (min (qr_max_steps rq) 3))
     (route_query (qr_query rq) (qr_source_types rq) cs)
     (if enable then build_graph_expansion_rag (qr_query rq) cs else graph_expansion0)"

lemma retrieve_attempts:
  "ar_attempts (agentic_retrieve sha log1p enable rq cs) =
     lo_attempts (retrieval_loop_rag sha log1p rq cs (wanted_types rq cs) (route_query (qr_query rq) (qr_source_types rq) cs)
       (if enable then build_graph_expansion_rag (qr_query rq) cs else graph_expansion0) 1 (planned_queries enable rq cs)
       (loop_state0 rq (max 1 (min (qr_max_steps rq) 3)) (route_query (qr_query rq) (qr_source_types rq) cs)
         (if enable then build_graph_expansion_rag (qr_query rq) cs else graph_expansion0)))"
  by (simp add: agentic_retrieve_def wanted_types_def planned_queries_def Let_def split_beta)

text \<open>
  C32: refining the query never refines the retrieval. Whatever the digest, each attempt after the first selects the
  same chunks with the same confidence as the first, because the candidates do not depend on the query and an
  unchanged fingerprint skips the ranking. So a run stops after its first attempt or goes through every planned
  query for nothing.
\<close>

theorem refinement_never_changes_the_selection:
  "case ar_attempts (agentic_retrieve sha log1p enable rq cs) of [] \<Rightarrow> False
   | a # as \<Rightarrow> list_all (same_hits a) as \<and> ra_query a = hd (planned_queries enable rq cs) \<and>
       map ra_query as = (if qr_min_confidence rq \<le> ra_confidence a then [] else tl (planned_queries enable rq cs))"
  unfolding retrieve_attempts
  by (rule loop_repeats_first_attempt) (simp_all add: planned_queries_def build_queries_nonempty loop_state0_def)

section \<open>What a retrieval returns\<close>

lemma unranked_score_rag: "unranked (snd (score_chunk_rag tokens (i, c))) = unranked c"
  by (simp add: score_chunk_rag_def unranked_def split_beta)

text \<open>Reranking returns chunks of its input, changed in score, reason and rank only.\<close>

lemma rerank_rag_from_input: "unranked ` set (rx_chunks (rerank_rag q cs k)) \<subseteq> unranked ` set cs"
proof -
  let ?s = "sort_desc fst (map (score_chunk_rag (tokenize_rag q)) (enumerate 0 cs))"
  have "unranked ` set (rx_chunks (rerank_rag q cs k)) = unranked ` snd ` set (take (nat (max 1 k)) ?s)"
    by (simp add: rerank_rag_def Let_def map_rank_chunks flip: set_map)
  also have "\<dots> \<subseteq> unranked ` snd ` set ?s" by (intro image_mono) (rule set_take_subset)
  also have "\<dots> \<subseteq> unranked ` set cs" by (auto simp: unranked_score_rag enumerate_eq_zip dest: set_zip_rightD)
  finally show ?thesis .
qed

lemma length_rerank_rag: "length (rx_chunks (rerank_rag q cs k)) \<le> nat (max 1 k)"
  by (simp add: rerank_rag_def Let_def)

lemma set_add_new: "set (add_new old cs) \<subseteq> set old \<union> set cs"
  using set_dedup_by_subset [of chunk_key_rag _ cs] by (auto simp: add_new_def)

lemma distinct_add_new: "distinct (map chunk_key_rag old) \<Longrightarrow> distinct (map chunk_key_rag (add_new old cs))"
  using dedup_by_keys [of chunk_key_rag "chunk_key_rag ` set old" cs] distinct_dedup_by [of chunk_key_rag "chunk_key_rag ` set old" cs]
  by (auto simp: add_new_def)

definition loop_ok :: "int \<Rightarrow> context_chunk list \<Rightarrow> loop_state \<Rightarrow> bool" where
  "loop_ok k scoped st \<longleftrightarrow>
     set (lo_raw st) \<subseteq> set scoped \<and> distinct (map chunk_key_rag (lo_raw st)) \<and>
     unranked ` set (lo_ranked st) \<subseteq> unranked ` set scoped \<and> unranked ` set (lo_gathered st) \<subseteq> unranked ` set scoped \<and>
     length (lo_ranked st) \<le> nat (max 1 k)"

lemma step_ok_rag:
  assumes "retrieval_step_rag sha log1p rq cs types route graph n q st = (st', conf)"
    and ok: "loop_ok (qr_top_k rq) (filter_chunks cs types) st"
  shows "loop_ok (qr_top_k rq) (filter_chunks cs types) st'"
proof -
  let ?S = "filter_chunks cs types"
  let ?r = "if compute_fingerprint_rag sha ?S = lo_fingerprint st then lo_ranked st
    else rx_chunks (rerank_rag q ?S (qr_top_k rq))"
  have st': "lo_raw st' = add_new (lo_raw st) ?S" "lo_ranked st' = ?r" "lo_gathered st' = add_new (lo_gathered st) ?r"
    using assms(1) by (auto simp: retrieval_step_rag_def Let_def)
  have r: "unranked ` set ?r \<subseteq> unranked ` set ?S" "length ?r \<le> nat (max 1 (qr_top_k rq))"
    using ok rerank_rag_from_input [of q ?S "qr_top_k rq"] length_rerank_rag [of q ?S "qr_top_k rq"]
    by (simp_all add: loop_ok_def)
  have o: "set (lo_raw st) \<subseteq> set ?S" "distinct (map chunk_key_rag (lo_raw st))"
    "unranked ` set (lo_gathered st) \<subseteq> unranked ` set ?S"
    using ok by (simp_all add: loop_ok_def)
  have "set (add_new (lo_raw st) ?S) \<subseteq> set ?S" using subset_trans [OF set_add_new] o(1) by (simp only: Un_subset_iff subset_refl)
  moreover have "unranked ` set (add_new (lo_gathered st) ?r) \<subseteq> unranked ` set ?S"
    by (rule subset_trans [OF image_mono [OF set_add_new]]) (use o(3) r(1) in \<open>simp only: image_Un Un_subset_iff\<close>)
  ultimately show ?thesis
    unfolding loop_ok_def st' using r distinct_add_new [OF o(2), of ?S] by (intro conjI)
qed

lemma loop_ok_rag:
  "loop_ok (qr_top_k rq) (filter_chunks cs types) st \<Longrightarrow>
     loop_ok (qr_top_k rq) (filter_chunks cs types) (retrieval_loop_rag sha log1p rq cs types route graph n qs st)"
proof (induction qs arbitrary: st n)
  case (Cons q qs)
  then show ?case using step_ok_rag by (auto split: prod.split)
qed simp

lemma loop_attempts_numbered:
  "map ra_step (lo_attempts st) = map int [1..<n] \<Longrightarrow> 1 \<le> n \<Longrightarrow>
     (let as = lo_attempts (retrieval_loop_rag sha log1p rq cs types route graph n qs st)
      in map ra_step as = map int [1..<Suc (length as)] \<and> length as \<le> n - 1 + length qs)"
proof (induction qs arbitrary: st n)
  case Nil
  have "n = Suc (length (lo_attempts st))" using arg_cong [OF Nil(1), of length] Nil(2) by simp
  with Nil(1) show ?case by (metis One_nat_def diff_Suc_1 le_add1 list.size(3) plus_nat.add_0 retrieval_loop_rag.simps(1) add.commute)
next
  case (Cons q qs)
  obtain st' conf where s: "retrieval_step_rag sha log1p rq cs types route graph n q st = (st', conf)" by fastforce
  obtain a where a: "lo_attempts st' = lo_attempts st @ [a]" "ra_step a = int n" using step_attempt [OF s] by blast
  have l: "length (lo_attempts st) = n - 1" using arg_cong [OF Cons.prems(1), of length] by simp
  have "map ra_step (lo_attempts st') = map int [1..<n + 1]" using Cons.prems a by simp
  from Cons.IH [OF this] show ?case using s a l Cons.prems by (auto simp: Let_def)
qed

text \<open>What the caller may rely on.\<close>

definition response_ok :: "retrieval_request \<Rightarrow> context_chunk list \<Rightarrow> retrieval_response \<Rightarrow> bool" where
  "response_ok rq cs r \<longleftrightarrow>
     (let scoped = filter_chunks cs (wanted_types rq cs); hs = ar_reranked_hits r; pack = ar_evidence_pack r
      in map ra_step (ar_attempts r) = map int [1..<Suc (length (ar_attempts r))] \<and>
         int (length (ar_attempts r)) \<le> max 1 (min (qr_max_steps rq) 3) \<and>
         unranked ` set hs \<subseteq> unranked ` set scoped \<and> int (length hs) \<le> max 1 (qr_top_k rq) \<and>
         set (ar_raw_hits r) \<subseteq> set scoped \<and> distinct (map chunk_key_rag (ar_raw_hits r)) \<and>
         set (ar_rejected_chunks r) \<subseteq> set scoped \<and>
         chunk_key_rag ` set (ar_rejected_chunks r) \<inter> chunk_key_rag ` set hs = {} \<and>
         ek_selected_chunk_ids pack = map chunk_key_rag hs \<and> ek_citations pack = take 5 hs \<and>
         (cs_sufficient (ar_context_sufficiency r) \<longleftrightarrow>
            set (wanted_types rq cs) \<subseteq> ck_source_type ` set hs \<and> qr_min_confidence rq \<le> ek_confidence pack))"

lemma final_rerank_ok:
  assumes ok: "loop_ok (qr_top_k rq) scoped st" and f: "final_rerank sha rq st = (hs, trace)"
  shows "unranked ` set hs \<subseteq> unranked ` set scoped" and "int (length hs) \<le> max 1 (qr_top_k rq)"
proof -
  let ?c = "if lo_raw st \<noteq> [] then lo_raw st else lo_gathered st"
  have c: "unranked ` set ?c \<subseteq> unranked ` set scoped" using ok by (auto simp: loop_ok_def)
  have k: "length (lo_ranked st) \<le> nat (max 1 (qr_top_k rq))" using ok by (simp add: loop_ok_def)
  have hs: "hs = slice_to (qr_top_k rq) (lo_ranked st) \<or> hs = rx_chunks (rerank_rag (qr_query rq) ?c (qr_top_k rq))"
    using f by (auto simp: final_rerank_def Let_def split: if_splits)
  from this show "unranked ` set hs \<subseteq> unranked ` set scoped"
  proof
    assume "hs = slice_to (qr_top_k rq) (lo_ranked st)"
    then have "unranked ` set hs \<subseteq> unranked ` set (lo_ranked st)" by (simp add: image_mono set_slice_to)
    also have "\<dots> \<subseteq> unranked ` set scoped" using ok by (simp add: loop_ok_def)
    finally show ?thesis .
  next
    assume "hs = rx_chunks (rerank_rag (qr_query rq) ?c (qr_top_k rq))"
    then show ?thesis using rerank_rag_from_input [of "qr_query rq" ?c "qr_top_k rq"] c by (simp only:)
  qed
  have "length (slice_to (qr_top_k rq) (lo_ranked st)) \<le> length (lo_ranked st)" by (simp add: slice_to_def) linarith
  then show "int (length hs) \<le> max 1 (qr_top_k rq)"
    using hs k length_rerank_rag [of "qr_query rq" ?c "qr_top_k rq"] by auto
qed

lemma set_source_types_of: "set (source_types_of cs) = ck_source_type ` set cs"
  by (simp add: source_types_of_def)

lemma sufficiency_iff:
  "cs_sufficient (check_sufficiency pack required threshold) \<longleftrightarrow>
     set required \<subseteq> set (ek_source_types pack) \<and> threshold \<le> ek_confidence pack"
  by (auto simp: check_sufficiency_def Let_def filter_empty_conv)

lemma planned_queries_bound: "int (length (planned_queries enable rq cs)) \<le> max 1 (min (qr_max_steps rq) 3)"
  unfolding planned_queries_def build_queries_def by (rule take_queries_bound) simp

lemma retrieve_attempts_numbered:
  fixes sha log1p enable rq cs
  defines "as \<equiv> ar_attempts (agentic_retrieve sha log1p enable rq cs)"
  shows "map ra_step as = map int [1..<Suc (length as)]" and "int (length as) \<le> max 1 (min (qr_max_steps rq) 3)"
  using loop_attempts_numbered [of "loop_state0 rq (max 1 (min (qr_max_steps rq) 3))
      (route_query (qr_query rq) (qr_source_types rq) cs)
      (if enable then build_graph_expansion_rag (qr_query rq) cs else graph_expansion0)" 1 sha log1p rq cs
      "wanted_types rq cs" "route_query (qr_query rq) (qr_source_types rq) cs"
      "if enable then build_graph_expansion_rag (qr_query rq) cs else graph_expansion0" "planned_queries enable rq cs"]
    planned_queries_bound [of enable rq cs]
  unfolding as_def retrieve_attempts by (simp_all add: loop_state0_def Let_def)

lemma agentic_retrieve_ok: "response_ok rq cs (agentic_retrieve sha log1p enable rq cs)"
proof -
  let ?route = "route_query (qr_query rq) (qr_source_types rq) cs"
  let ?types = "wanted_types rq cs" and ?m = "max 1 (min (qr_max_steps rq) 3)"
  define graph where "graph = (if enable then build_graph_expansion_rag (qr_query rq) cs else graph_expansion0)"
  define st where "st = retrieval_loop_rag sha log1p rq cs ?types ?route graph 1
    (build_queries (qr_query rq) ?types ?m ?route graph) (loop_state0 rq ?m ?route graph)"
  obtain hs trace where f: "final_rerank sha rq st = (hs, trace)" by fastforce
  define pack where "pack = build_evidence_pack_rag log1p (lo_gathered st) ?types ?route graph (Some hs)"
  define r where "r = agentic_retrieve sha log1p enable rq cs"
  have r: "ar_reranked_hits r = hs" "ar_evidence_pack r = pack"
    "ar_raw_hits r = take (nat (max 1 (qr_top_k rq * ?m))) (lo_raw st)"
    "ar_rejected_chunks r = take (length (lo_raw st) - card (set (ek_selected_chunk_ids pack)))
       (filter (\<lambda>c. chunk_key_rag c \<notin> set (ek_selected_chunk_ids pack)) (lo_raw st))"
    "ar_context_sufficiency r = check_sufficiency pack ?types (qr_min_confidence rq)"
    by (simp_all only: r_def agentic_retrieve_def Let_def wanted_types_def [symmetric] graph_def [symmetric] st_def [symmetric] f prod.case pack_def [symmetric] retrieval_response.select_convs)
  have ok: "loop_ok (qr_top_k rq) (filter_chunks cs ?types) st"
    unfolding st_def by (rule loop_ok_rag) (simp add: loop_ok_def loop_state0_def)
  note hs = final_rerank_ok [OF ok f]
  have p: "ek_selected_chunk_ids pack = map chunk_key_rag hs" "ek_citations pack = take 5 hs"
    "set (ek_source_types pack) = ck_source_type ` set hs"
    by (simp_all add: pack_def build_evidence_pack_rag_def Let_def set_source_types_of)
  have raw: "set (lo_raw st) \<subseteq> set (filter_chunks cs ?types)" "distinct (map chunk_key_rag (lo_raw st))"
    using ok by (simp_all add: loop_ok_def)
  show ?thesis
    unfolding response_ok_def Let_def r_def [symmetric] r sufficiency_iff p
    using retrieve_attempts_numbered [of sha log1p enable rq cs, folded r_def] hs raw
    by (auto simp: take_map [symmetric] dest!: in_set_takeD)
qed

text \<open>
  C33: what a retrieval returns. The attempts are numbered from one and stay within the allowed steps (at most
  three); every hit is one of the scoped candidates, changed in nothing but score, reason and rank, at most
  \<open>max(1, top_k)\<close> of them; raw hits are scoped candidates with different keys; nothing selected is rejected; the
  pack cites the first five hits; and the context is reported sufficient exactly when each wanted source type
  occurs among the hits and the confidence reaches the threshold.
\<close>

theorem agentic_retrieval_keeps_its_contract: "response_ok rq cs (agentic_retrieve sha log1p enable rq cs)"
  by (rule agentic_retrieve_ok)

end
