(* ===== verification/RagRuntime.thy ===== *)
theory RagRuntime
  imports RagRetrieval Json
begin

text \<open>
  The RAG runtime around the retrieval loop, under \<open>services/rag-runtime/allcallall_rag_runtime/\<close>: the counters of
  \<open>metrics.py\<close>, the Go bridge (\<open>go_bridge.py\<close>), the Qdrant adapter (\<open>qdrant_adapter.py\<close>), the choice of the
  candidates (\<open>pipeline.py\<close>), the endpoints (\<open>api.py\<close>), the fixture evaluation (\<open>eval_runner.py\<close>) and the
  baseline of \<open>llamaindex_adapter.py\<close>.

  A POST of the httpx client is a function from URL, payload and headers to its outcome; Pydantic's validation of a
  chunk, \<open>str\<close> of containers and \<open>float\<close> of text are the parameters of \<open>rag_world\<close>. Identifiers are ASCII.
\<close>

section \<open>Counters\<close>

type_synonym counters = "(string \<times> int) list"

definition inc :: "string \<Rightarrow> int \<Rightarrow> counters \<Rightarrow> counters" where
  "inc name delta cs =
     (if strip_ascii name = '''' then cs else dict_set name (get_or (map_of cs) name 0 + delta) cs)"

definition prometheus :: "counters \<Rightarrow> ustring" where
  "prometheus cs =
     (let lines = concat (map (\<lambda>k. [codes (''# TYPE '' @ k @ '' counter''),
            codes (k @ '' '') @ show_int (get_or (map_of cs) k 0)]) (sort (map fst cs)))
      in join [10] lines @ (if lines \<noteq> [] then [10] else []))"

section \<open>The Go bridge\<close>

datatype post_result =
    PostPoolTimeout
  | PostFailed
  | PostAnswered nat "json option"

record rag_world =
  rw_post :: "string \<Rightarrow> json_object \<Rightarrow> (string \<times> string) list \<Rightarrow> post_result"
  rw_validate_chunk :: "json_object \<Rightarrow> context_chunk option"
  rw_container_repr :: "json \<Rightarrow> ustring"
  rw_parse_float :: "ustring \<Rightarrow> rat option"

record rag_settings =
  gs_tool_bridge_base_url :: string
  gs_tool_bridge_token :: string
  gs_vector_store :: string
  gs_qdrant_url :: string
  gs_qdrant_collection :: string
  gs_qdrant_api_key :: string

datatype rag_error =
    BridgeUnavailable
  | QdrantAdapterError string
  | BadAnswer

definition rstrip_slash :: "string \<Rightarrow> string" where
  "rstrip_slash s = rev (dropWhile (\<lambda>c. c = CHR ''/'') (rev s))"

definition bridge_base_url :: "rag_settings \<Rightarrow> string" where
  "bridge_base_url cfg = rstrip_slash (strip_ascii (gs_tool_bridge_base_url cfg))"

definition bridge_token :: "rag_settings \<Rightarrow> string" where
  "bridge_token cfg = strip_ascii (gs_tool_bridge_token cfg)"

definition bridge_configured :: "rag_settings \<Rightarrow> bool" where
  "bridge_configured cfg \<longleftrightarrow> bridge_base_url cfg \<noteq> '''' \<and> bridge_token cfg \<noteq> ''''"

definition bridge_payload :: "retrieval_request \<Rightarrow> json_object" where
  "bridge_payload rq =
     [(''organization_id'', JInt (qr_organization_id rq)), (''user_id'', JInt (qr_user_id rq)),
      (''conversation_id'', JInt (qr_conversation_id rq)), (''query'', JStr (qr_query rq)),
      (''source_types'', jstrs (qr_source_types rq)), (''top_k'', JInt (qr_top_k rq))]"

fun validate_chunks :: "(json_object \<Rightarrow> context_chunk option) \<Rightarrow> json list \<Rightarrow> (rag_error, context_chunk list) result"
where
  "validate_chunks validate [] = Inr []"
| "validate_chunks validate (JObj m # js) =
     (case validate m of None \<Rightarrow> Inl BadAnswer
      | Some c \<Rightarrow> and_then (validate_chunks validate js) (\<lambda>cs. Inr (c # cs)))"
| "validate_chunks validate (j # js) = validate_chunks validate js"

text \<open>\<open>raise_for_status\<close> raises on every status that is not a success.\<close>

definition bridge_query ::
  "rag_world \<Rightarrow> rag_settings \<Rightarrow> retrieval_request \<Rightarrow> counters \<Rightarrow> counters \<times> (rag_error, context_chunk list) result" where
  "bridge_query w cfg rq cs =
     (if \<not> bridge_configured cfg then (cs, Inr [])
      else case rw_post w (bridge_base_url cfg @ ''/api/v1/internal/agent/retrieval/query'') (bridge_payload rq)
             [(''Authorization'', ''Bearer '' @ bridge_token cfg), (''Content-Type'', ''application/json'')] of
          PostPoolTimeout \<Rightarrow> (inc ''rag_runtime_go_bridge_pool_timeouts_total'' 1 cs, Inl BridgeUnavailable)
        | PostFailed \<Rightarrow> (inc ''rag_runtime_go_bridge_errors_total'' 1 cs, Inl BridgeUnavailable)
        | PostAnswered status body \<Rightarrow>
            (if \<not> (200 \<le> status \<and> status < 300)
             then (inc ''rag_runtime_go_bridge_errors_total'' 1 cs, Inl BridgeUnavailable)
             else (cs, case body of
                 Some (JObj raw) \<Rightarrow> (case get_or (map_of raw) ''chunks'' (JList []) of
                     JList js \<Rightarrow> validate_chunks (rw_validate_chunk w) js | _ \<Rightarrow> Inr [])
               | _ \<Rightarrow> Inl BadAnswer)))"

section \<open>The Qdrant adapter\<close>

definition qdrant_url :: "rag_settings \<Rightarrow> string" where
  "qdrant_url cfg = rstrip_slash (gs_qdrant_url cfg)"

definition qdrant_configured :: "rag_settings \<Rightarrow> bool" where
  "qdrant_configured cfg \<longleftrightarrow>
     gs_vector_store cfg = ''qdrant'' \<and> qdrant_url cfg \<noteq> '''' \<and> gs_qdrant_collection cfg \<noteq> ''''"

definition qdrant_headers :: "rag_settings \<Rightarrow> (string \<times> string) list" where
  "qdrant_headers cfg = (if gs_qdrant_api_key cfg = '''' then [] else [(''api-key'', gs_qdrant_api_key cfg)])"

definition match_clause :: "string \<Rightarrow> string \<Rightarrow> json \<Rightarrow> json" where
  "match_clause k how v = JObj [(''key'', jstr k), (''match'', JObj [(how, v)])]"

definition qdrant_filter :: "retrieval_request \<Rightarrow> json_object" where
  "qdrant_filter rq =
     (let must =
        (if qr_organization_id rq \<noteq> 0 then [match_clause ''organization_id'' ''value'' (JInt (qr_organization_id rq))] else []) @
        (if qr_conversation_id rq \<noteq> 0 then [match_clause ''conversation_id'' ''value'' (JInt (qr_conversation_id rq))] else []) @
        (if qr_source_types rq \<noteq> [] then [match_clause ''source_type'' ''any'' (jstrs (qr_source_types rq))] else [])
      in if must \<noteq> [] then [(''must'', JList must)] else [])"

definition search_payload :: "retrieval_request \<Rightarrow> json_object" where
  "search_payload rq =
     [(''vector'', JList (map JNum (qr_query_vector rq))), (''limit'', JInt (max 1 (qr_top_k rq))),
      (''with_payload'', JBool True), (''filter'', JObj (qdrant_filter rq))]"

definition scroll_payload :: "retrieval_request \<Rightarrow> json_object" where
  "scroll_payload rq =
     [(''limit'', JInt (max 1 (qr_top_k rq))), (''with_payload'', JBool True), (''filter'', JObj (qdrant_filter rq))]"

definition py_str :: "rag_world \<Rightarrow> json \<Rightarrow> ustring" where
  "py_str w v = (case v of
       JStr t \<Rightarrow> t | JInt i \<Rightarrow> show_int i | JNull \<Rightarrow> codes ''None''
     | JBool b \<Rightarrow> codes (if b then ''True'' else ''False'') | _ \<Rightarrow> rw_container_repr w v)"

definition py_float :: "rag_world \<Rightarrow> json \<Rightarrow> rat option" where
  "py_float w v = (case v of
       JInt i \<Rightarrow> Some (of_int i) | JNum x \<Rightarrow> Some x | JBool b \<Rightarrow> Some (if b then 1 else 0)
     | JStr t \<Rightarrow> rw_parse_float w t | _ \<Rightarrow> None)"

text \<open>\<open>m.get(k) or d\<close>.\<close>

definition get_truthy :: "json_object \<Rightarrow> string \<Rightarrow> json \<Rightarrow> json" where
  "get_truthy m k d = (case map_of m k of None \<Rightarrow> d | Some v \<Rightarrow> if truthy v then v else d)"

definition ascii_of :: "ustring \<Rightarrow> string" where
  "ascii_of t = map char_of t"

definition point_chunk :: "rag_world \<Rightarrow> bool \<Rightarrow> nat \<Rightarrow> json_object \<Rightarrow> json_object \<Rightarrow> context_chunk option" where
  "point_chunk w vector_search index point payload =
     (let point_id = get_or (map_of point) ''id'' (jstr '''');
          title = get_truthy payload ''title'' (jstr '''')
      in case (json_int (get_truthy payload ''score'' (JInt 0)), py_float w (get_truthy point ''score'' (JInt 0))) of
           (Some score, Some vector_score) \<Rightarrow> Some
             ((context_chunk0 (ascii_of (py_str w (get_truthy payload ''source_type'' (jstr ''knowledge''))))
                (ascii_of (py_str w (get_truthy payload ''source_id'' point_id)))
                (py_str w (get_truthy payload ''snippet'' (get_truthy payload ''text'' (jstr '''')))))
              \<lparr>ck_chunk_id := ascii_of (py_str w (get_truthy payload ''chunk_id'' point_id)),
               ck_source_title := py_str w (get_truthy payload ''source_title'' title), ck_title := py_str w title,
               ck_score := score, ck_retrieval_mode := (if vector_search then ''qdrant_vector'' else ''qdrant_payload''),
               ck_vector_rank := (if vector_search then int index else 0), ck_vector_score := vector_score\<rparr>)
         | _ \<Rightarrow> None)"

text \<open>The loop over the points; anything but an object with an object payload is skipped.\<close>

fun point_chunks :: "rag_world \<Rightarrow> bool \<Rightarrow> nat \<Rightarrow> json list \<Rightarrow> (rag_error, context_chunk list) result" where
  "point_chunks w vector_search index [] = Inr []"
| "point_chunks w vector_search index (p # ps) =
     (case p of
        JObj point \<Rightarrow>
          (case get_or (map_of point) ''payload'' (JObj []) of
             JObj payload \<Rightarrow>
               (case point_chunk w vector_search index point payload of
                  None \<Rightarrow> Inl BadAnswer
                | Some c \<Rightarrow> and_then (point_chunks w vector_search (index + 1) ps) (\<lambda>cs. Inr (c # cs)))
           | _ \<Rightarrow> point_chunks w vector_search (index + 1) ps)
      | _ \<Rightarrow> point_chunks w vector_search (index + 1) ps)"

text \<open>What \<open>enumerate\<close> runs over: the keys of an object and the characters of a text are no objects.\<close>

definition iterate :: "json \<Rightarrow> (rag_error, json list) result" where
  "iterate j = (case j of
       JList js \<Rightarrow> Inr js | JObj m \<Rightarrow> Inr (map (\<lambda>kv. jstr (fst kv)) m)
     | JStr t \<Rightarrow> Inr (map (\<lambda>c. JStr [c]) t) | _ \<Rightarrow> Inl BadAnswer)"

definition parse_response :: "rag_world \<Rightarrow> json option \<Rightarrow> bool \<Rightarrow> (rag_error, context_chunk list) result" where
  "parse_response w body vector_search =
     (case body of
        Some (JObj payload) \<Rightarrow>
          (let res = get_or (map_of payload) ''result'' (JList []);
               points = (if vector_search then res
                         else (case res of JObj m \<Rightarrow> get_or (map_of m) ''points'' (JList []) | _ \<Rightarrow> JList []))
           in and_then (iterate points) (point_chunks w vector_search 1))
      | _ \<Rightarrow> Inl BadAnswer)"

definition qdrant_query ::
  "rag_world \<Rightarrow> rag_settings \<Rightarrow> retrieval_request \<Rightarrow> counters \<Rightarrow> counters \<times> (rag_error, context_chunk list) result" where
  "qdrant_query w cfg rq cs =
     (if \<not> qdrant_configured cfg then (cs, Inr [])
      else
        (let vector_search = (qr_query_vector rq \<noteq> []);
             endpoint = (if vector_search then ''search'' else ''scroll'');
             payload = (if vector_search then search_payload rq else scroll_payload rq)
         in case rw_post w (qdrant_url cfg @ ''/collections/'' @ gs_qdrant_collection cfg @ ''/points/'' @ endpoint)
                   payload (qdrant_headers cfg) of
              PostPoolTimeout \<Rightarrow> (inc ''rag_runtime_qdrant_pool_timeouts_total'' 1 cs, Inl (QdrantAdapterError ''pool_timeout''))
            | PostFailed \<Rightarrow> (inc ''rag_runtime_qdrant_errors_total'' 1 cs, Inl (QdrantAdapterError ''network''))
            | PostAnswered status body \<Rightarrow>
                (if 400 \<le> status
                 then (inc ''rag_runtime_qdrant_errors_total'' 1 cs, Inl (QdrantAdapterError ''http_status''))
                 else (cs, parse_response w body vector_search))))"

section \<open>Candidates\<close>

definition qdrant_or_nothing ::
  "rag_world \<Rightarrow> rag_settings \<Rightarrow> retrieval_request \<Rightarrow> counters \<Rightarrow> counters \<times> (rag_error, context_chunk list) result" where
  "qdrant_or_nothing w cfg rq cs =
     (case qdrant_query w cfg rq cs of
        (cs', Inl (QdrantAdapterError e)) \<Rightarrow> (inc ''rag_runtime_qdrant_fallback_total'' 1 cs', Inr [])
      | r \<Rightarrow> r)"

definition select_retrieval_chunks ::
  "rag_world \<Rightarrow> rag_settings \<Rightarrow> retrieval_request \<Rightarrow> counters
     \<Rightarrow> counters \<times> (rag_error, context_chunk list \<times> string) result" where
  "select_retrieval_chunks w cfg rq cs =
     (case bridge_query w cfg rq cs of
        (cs1, Inl e) \<Rightarrow> (cs1, Inl e)
      | (cs1, Inr bridge_chunks) \<Rightarrow>
          (if bridge_chunks \<noteq> [] then (cs1, Inr (bridge_chunks, ''go_bridge''))
           else (case qdrant_or_nothing w cfg rq cs1 of
               (cs2, Inl e) \<Rightarrow> (cs2, Inl e)
             | (cs2, Inr qdrant_chunks) \<Rightarrow>
                 (cs2, Inr (if qdrant_chunks \<noteq> [] then (qdrant_chunks, ''qdrant'') else (qr_chunks rq, ''inline''))))))"

section \<open>Endpoints\<close>

record query_response =
  qp_query :: ustring
  qp_chunks :: "context_chunk list"
  qp_count :: int
  qp_source :: string

definition retrieval_query ::
  "rag_world \<Rightarrow> rag_settings \<Rightarrow> retrieval_request \<Rightarrow> counters \<Rightarrow> counters \<times> (rag_error, query_response) result" where
  "retrieval_query w cfg rq cs =
     (case select_retrieval_chunks w cfg rq (inc ''rag_runtime_query_total'' 1 cs) of
        (cs', r) \<Rightarrow> (cs', and_then r (\<lambda>(chunks, src).
           let scoped = take (nat (max 1 (qr_top_k rq))) (filter_chunks chunks (qr_source_types rq))
           in Inr \<lparr>qp_query = qr_query rq, qp_chunks = scoped, qp_count = int (length scoped), qp_source = src\<rparr>)))"

definition retrieval_agentic ::
  "rag_world \<Rightarrow> rag_settings \<Rightarrow> (string \<Rightarrow> string) \<Rightarrow> (nat \<Rightarrow> rat) \<Rightarrow> bool \<Rightarrow> retrieval_request \<Rightarrow> counters
     \<Rightarrow> counters \<times> (rag_error, retrieval_response) result" where
  "retrieval_agentic w cfg sha log1p enable rq cs =
     (case select_retrieval_chunks w cfg rq (inc ''rag_runtime_agentic_total'' 1 cs) of
        (cs', r) \<Rightarrow> (cs', and_then r (\<lambda>(chunks, src).
           Inr ((agentic_retrieve sha log1p enable rq chunks)\<lparr>ar_vector_store := src\<rparr>))))"

definition retrieval_rerank :: "ustring \<Rightarrow> context_chunk list \<Rightarrow> int \<Rightarrow> counters \<Rightarrow> counters \<times> rerank_response" where
  "retrieval_rerank q chunks top_k cs = (inc ''rag_runtime_rerank_total'' 1 cs, rerank_rag q chunks top_k)"

definition retrieval_prepare ::
  "(string \<Rightarrow> string) \<Rightarrow> ustring \<Rightarrow> context_chunk list \<Rightarrow> string list \<Rightarrow> counters \<Rightarrow> counters \<times> prepared" where
  "retrieval_prepare sha q chunks source_types cs =
     (inc ''rag_runtime_prepare_total'' 1 cs, prepare_candidates_rag sha q chunks source_types)"

definition grounding_route :: "ustring \<Rightarrow> context_chunk list \<Rightarrow> counters \<Rightarrow> counters \<times> grounding_response" where
  "grounding_route answer citations cs =
     (inc ''rag_runtime_grounding_check_total'' 1 cs, grounding_check_rag answer citations)"

end
