(* ===== verification/RagEval.thy ===== *)
theory RagEval
  imports RagRuntime
begin

text \<open>
  The fixture evaluation of the RAG runtime (\<open>rag-runtime/.../eval_runner.py\<close> with the case models of \<open>models.py\<close>)
  and the baseline retrieval of \<open>llamaindex_adapter.py\<close>. Reading the fixture and writing the report are left out.
\<close>

section \<open>Cases\<close>

record rag_eval_case =
  ec_name :: ustring
  ec_query :: ustring
  ec_chunks :: "context_chunk list"
  ec_required_source_types :: "string list"
  ec_expected_top_source_type :: string
  ec_expected_route_intent :: string
  ec_requires_graph_expansion :: bool
  ec_insufficient_context :: bool

record rag_eval_result =
  er_name :: ustring
  er_passed :: bool
  er_top_source_type :: string
  er_route_intent :: string
  er_grounding_passed :: bool
  er_sufficiency_passed :: bool
  er_retrieval_refined :: bool
  er_route_matched :: bool
  er_graph_expanded :: bool
  er_errors :: "string list"

record rag_eval_summary =
  es_total_cases :: int
  es_passed_cases :: int
  es_rerank_top_match_rate :: rat
  es_grounding_pass_rate :: rat
  es_sufficiency_pass_rate :: rat
  es_retrieval_refinement_success_rate :: rat
  es_route_match_rate :: rat
  es_graph_expansion_rate :: rat

record rag_eval_report =
  et_summary :: rag_eval_summary
  et_cases :: "rag_eval_result list"

definition show_bool :: "bool \<Rightarrow> string" where
  "show_bool b = (if b then ''True'' else ''False'')"

definition or_none :: "string \<Rightarrow> string" where
  "or_none s = (if s \<noteq> '''' then s else ''<none>'')"

definition case_request :: "rag_eval_case \<Rightarrow> retrieval_request" where
  "case_request c =
     \<lparr>qr_organization_id = 0, qr_user_id = 0, qr_conversation_id = 0, qr_query = ec_query c,
      qr_source_types = ec_required_source_types c, qr_top_k = 5, qr_query_vector = [], qr_chunks = ec_chunks c,
      qr_max_steps = 3, qr_min_confidence = 6 / 10\<rparr>"

definition run_case ::
  "(string \<Rightarrow> string) \<Rightarrow> (nat \<Rightarrow> rat) \<Rightarrow> bool \<Rightarrow> rag_eval_case \<Rightarrow> rag_eval_result" where
  "run_case sha log1p enable c =
     (let ranked = rx_chunks (rerank_rag (ec_query c) (ec_chunks c) 5);
          top_type = (case ranked of [] \<Rightarrow> '''' | r # rs \<Rightarrow> ck_source_type r);
          expected_top = ec_expected_top_source_type c;
          agentic = agentic_retrieve sha log1p enable (case_request c) (ec_chunks c);
          pack = ar_evidence_pack agentic;
          joined = join (codes '' '') (take 2 (ek_snippets pack));
          grounded = grounding_check_rag (if joined \<noteq> [] then joined else ec_query c) (ek_citations pack);
          sufficient = cs_sufficient (ar_context_sufficiency agentic);
          sufficiency_passed = (sufficient = (\<not> ec_insufficient_context c));
          grounding_passed = (if \<not> ec_insufficient_context c then gc_grounded grounded else True);
          intent = ir_intent (ar_route agentic);
          route_matched = (ec_expected_route_intent c = '''' \<or> intent = ec_expected_route_intent c);
          graph_expanded = (\<not> ec_requires_graph_expansion c \<or> gx_enabled (ar_graph agentic));
          errors =
            (if expected_top \<noteq> '''' \<and> top_type \<noteq> expected_top
             then [''expected top source_type='' @ expected_top @ '', got '' @ or_none top_type] else []) @
            (if \<not> sufficiency_passed
             then [''expected context_sufficiency='' @ show_bool (\<not> ec_insufficient_context c) @ '', got '' @
                   show_bool sufficient] else []) @
            (if \<not> grounding_passed then [''expected grounded answer from selected citations''] else []) @
            (if \<not> route_matched
             then [''expected route_intent='' @ ec_expected_route_intent c @ '', got '' @ intent] else []) @
            (if \<not> graph_expanded then [''expected graph expansion to infer at least one evidence edge''] else [])
      in \<lparr>er_name = ec_name c, er_passed = (errors = []), er_top_source_type = top_type, er_route_intent = intent,
          er_grounding_passed = grounding_passed, er_sufficiency_passed = sufficiency_passed,
          er_retrieval_refined = (1 < length (ar_attempts agentic) \<or> ek_selected_chunk_ids pack \<noteq> []),
          er_route_matched = route_matched, er_graph_expanded = graph_expanded, er_errors = errors\<rparr>)"

section \<open>The report\<close>

definition rate :: "'r list \<Rightarrow> ('r \<Rightarrow> bool) \<Rightarrow> rat" where
  "rate rs P = of_nat (length (filter P rs)) / of_nat (max (length rs) 1)"

definition summarize :: "rag_eval_result list \<Rightarrow> rag_eval_summary" where
  "summarize rs =
     (if rs = [] then
        \<lparr>es_total_cases = 0, es_passed_cases = 0, es_rerank_top_match_rate = 0, es_grounding_pass_rate = 0,
         es_sufficiency_pass_rate = 0, es_retrieval_refinement_success_rate = 0, es_route_match_rate = 0,
         es_graph_expansion_rate = 0\<rparr>
      else
        \<lparr>es_total_cases = int (length rs), es_passed_cases = int (length (filter er_passed rs)),
         es_rerank_top_match_rate = rate rs (\<lambda>r. er_top_source_type r \<noteq> ''''),
         es_grounding_pass_rate = rate rs er_grounding_passed,
         es_sufficiency_pass_rate = rate rs er_sufficiency_passed,
         es_retrieval_refinement_success_rate = rate rs er_retrieval_refined,
         es_route_match_rate = rate rs er_route_matched, es_graph_expansion_rate = rate rs er_graph_expanded\<rparr>)"

definition run_eval :: "(string \<Rightarrow> string) \<Rightarrow> (nat \<Rightarrow> rat) \<Rightarrow> bool \<Rightarrow> rag_eval_case list \<Rightarrow> rag_eval_report" where
  "run_eval sha log1p enable cases =
     (let rs = map (run_case sha log1p enable) cases in \<lparr>et_summary = summarize rs, et_cases = rs\<rparr>)"

definition show_percent :: "rat \<Rightarrow> ustring" where
  "show_percent x = show_int (round_even (x * 100)) @ codes ''%''"

definition render_case :: "rag_eval_result \<Rightarrow> ustring list" where
  "render_case r =
     [codes ''- `'' @ codes (if er_passed r then ''PASS'' else ''FAIL'') @ codes ''` '' @ er_name r @
        codes ('': top_source_type='' @ or_none (er_top_source_type r) @ '', route='' @ or_none (er_route_intent r))] @
     map (\<lambda>e. codes (''  - '' @ e)) (er_errors r)"

definition render_markdown :: "rag_eval_report \<Rightarrow> ustring" where
  "render_markdown report =
     (let s = et_summary report
      in join [10]
        ([codes ''# Python RAG Runtime Eval'', [],
          codes (''Deterministic fixture eval for rerank ordering, agentic retrieval, grounding, '' @
                 ''and insufficient-context handling.''), [], codes ''## Summary'', [],
          codes ''- Cases: '' @ show_int (es_passed_cases s) @ codes ''/'' @ show_int (es_total_cases s),
          codes ''- Rerank top-match rate: '' @ show_percent (es_rerank_top_match_rate s),
          codes ''- Grounding pass rate: '' @ show_percent (es_grounding_pass_rate s),
          codes ''- Sufficiency pass rate: '' @ show_percent (es_sufficiency_pass_rate s),
          codes ''- Retrieval refinement success rate: '' @ show_percent (es_retrieval_refinement_success_rate s),
          codes ''- Route match rate: '' @ show_percent (es_route_match_rate s),
          codes ''- Graph expansion rate: '' @ show_percent (es_graph_expansion_rate s), [], codes ''## Cases'', []] @
         concat (map render_case (et_cases report)) @ [[]]))"

definition exit_code :: "rag_eval_report \<Rightarrow> int" where
  "exit_code report = (if es_passed_cases (et_summary report) = es_total_cases (et_summary report) then 0 else 1)"

section \<open>The baseline\<close>

definition run_fixture_retrieval ::
  "bool \<Rightarrow> ustring \<Rightarrow> context_chunk list \<Rightarrow> int \<Rightarrow> bool \<times> context_chunk list" where
  "run_fixture_retrieval llamaindex_available query cs top_k =
     (if llamaindex_available then (True, rx_chunks (rerank_rag query cs top_k))
      else
        (let tokens = set (tokenize_rag query);
             scored = map (\<lambda>c. (length (filter (\<lambda>w. w \<in> tokens) (tokenize_rag (ck_snippet c))), c)) cs
         in (False, map snd (take (nat (max 1 top_k)) (sort_desc (\<lambda>x. of_nat (fst x)) scored)))))"

section \<open>What the report says\<close>

lemma filter_all_length: "length (filter P xs) = length xs \<longleftrightarrow> list_all P xs"
  unfolding list_all_iff by (metis filter_True length_filter_less less_irrefl)

lemma rate_one: "rs \<noteq> [] \<Longrightarrow> rate rs P = 1 \<longleftrightarrow> list_all P rs"
proof -
  assume "rs \<noteq> []"
  then have "max (length rs) 1 = length rs" by (cases rs) auto
  then show ?thesis using \<open>rs \<noteq> []\<close> by (auto simp: rate_def simp flip: filter_all_length)
qed

lemma unranked_source_type: "unranked c = unranked c' \<Longrightarrow> ck_source_type c = ck_source_type c'"
  by (metis context_chunk.surjective context_chunk.update_convs(14,15,16) context_chunk.select_convs(2) unranked_def)

text \<open>The command succeeds exactly when every case passed, and a case passes exactly when it lists no error.\<close>

lemma exit_code_zero: "exit_code (run_eval sha log1p enable cases) = 0 \<longleftrightarrow>
    list_all (\<lambda>c. er_errors (run_case sha log1p enable c) = []) cases"
proof -
  have p: "er_passed (run_case sha log1p enable c) \<longleftrightarrow> er_errors (run_case sha log1p enable c) = []" for c
    by (simp add: run_case_def Let_def)
  show ?thesis
    by (auto simp: exit_code_def run_eval_def summarize_def Let_def filter_map o_def p filter_all_length)
qed

text \<open>
  The rate called top match counts the cases that have any hit: it is one for every fixture whose cases have a
  chunk, whatever source type they expect on top.
\<close>

lemma top_match_rate_is_blind:
  assumes "cases \<noteq> []" and "list_all (\<lambda>c. ec_chunks c \<noteq> [] \<and> list_all (\<lambda>k. ck_source_type k \<noteq> '''') (ec_chunks c)) cases"
  shows "es_rerank_top_match_rate (et_summary (run_eval sha log1p enable cases)) = 1"
proof -
  have "er_top_source_type (run_case sha log1p enable c) \<noteq> ''''"
    if "ec_chunks c \<noteq> []" "list_all (\<lambda>k. ck_source_type k \<noteq> '''') (ec_chunks c)" for c
  proof -
    let ?r = "rx_chunks (rerank_rag (ec_query c) (ec_chunks c) 5)"
    have "length ?r \<noteq> 0" using that(1) by (simp add: rerank_rag_def Let_def)
    then obtain k ks where k: "?r = k # ks" by (cases ?r) auto
    then have "unranked k \<in> unranked ` set (ec_chunks c)"
      using rerank_rag_from_input [of "ec_query c" "ec_chunks c" 5] by auto
    then obtain k' where "k' \<in> set (ec_chunks c)" "unranked k = unranked k'" by auto
    then have "ck_source_type k \<noteq> ''''"
      using that(2) unranked_source_type [of k k'] by (simp add: list_all_iff)
    then show ?thesis using k by (simp add: run_case_def Let_def)
  qed
  then show ?thesis using assms by (simp add: run_eval_def summarize_def Let_def rate_one list_all_iff)
qed

end
