(* ===== verification/Badcase.thy ===== *)
theory Badcase
  imports Harness
begin

text \<open>
  \<open>services/agent-runtime/allcallall_agent_runtime/badcase.py\<close> and \<open>sft_dataset.py\<close>: classifying failed runs,
  archiving and labelling them, and turning labelled ones into training samples; with \<open>_capture_badcase\<close> of
  \<open>orchestration/harness.py\<close> and the records of \<open>models/workflows.py\<close>.

  The SQLite table is its list of rows, oldest first; a row's payload is the record itself. Rows with equal
  \<open>created_at\<close>, which SQL leaves unordered, come latest first. Fresh ids and times are arguments.
\<close>

section \<open>Records\<close>

datatype badcase_source = AutoReview | AutoRuntime | SamplingAudit | UserFeedback

datatype badcase_category =
    RetrievalMiss | Hallucination | RouteError | ApprovalBypass | TimedOut | ReviewReject | UserDecline
  | UnsupportedMishandle | RuntimeFailure

datatype badcase_severity = SeverityLow | SeverityMedium | SeverityHigh

datatype badcase_status = CaseOpen | CaseLabeled | CaseApproved | CaseTraining | CaseResolved

fun source_value :: "badcase_source \<Rightarrow> string" where
  "source_value AutoReview = ''auto_review''"
| "source_value AutoRuntime = ''auto_runtime''"
| "source_value SamplingAudit = ''sampling_audit''"
| "source_value UserFeedback = ''user_feedback''"

fun category_value :: "badcase_category \<Rightarrow> string" where
  "category_value RetrievalMiss = ''retrieval_miss''"
| "category_value Hallucination = ''hallucination''"
| "category_value RouteError = ''route_error''"
| "category_value ApprovalBypass = ''approval_bypass''"
| "category_value TimedOut = ''timeout''"
| "category_value ReviewReject = ''review_reject''"
| "category_value UserDecline = ''user_decline''"
| "category_value UnsupportedMishandle = ''unsupported_mishandle''"
| "category_value RuntimeFailure = ''runtime_error''"

fun severity_value :: "badcase_severity \<Rightarrow> string" where
  "severity_value SeverityLow = ''low''"
| "severity_value SeverityMedium = ''medium''"
| "severity_value SeverityHigh = ''high''"

fun status_value :: "run_status \<Rightarrow> string" where
  "status_value Ready = ''ready''"
| "status_value RequiresAction = ''requires_action''"
| "status_value RunFailed = ''failed''"

fun severity_by_category :: "badcase_category \<Rightarrow> badcase_severity" where
  "severity_by_category ApprovalBypass = SeverityHigh"
| "severity_by_category ReviewReject = SeverityHigh"
| "severity_by_category Hallucination = SeverityHigh"
| "severity_by_category RetrievalMiss = SeverityMedium"
| "severity_by_category RouteError = SeverityMedium"
| "severity_by_category TimedOut = SeverityMedium"
| "severity_by_category RuntimeFailure = SeverityMedium"
| "severity_by_category UnsupportedMishandle = SeverityLow"
| "severity_by_category UserDecline = SeverityLow"

record badcase_record =
  bc_id :: string
  bc_created_at :: string
  bc_organization_id :: int
  bc_workflow_run_id :: int
  bc_source :: badcase_source
  bc_category :: badcase_category
  bc_severity :: badcase_severity
  bc_request :: workflow_request
  bc_response :: workflow_response
  bc_auto_signals :: json_object
  bc_label_corrected_response :: "workflow_response option"
  bc_label_note :: ustring
  bc_labeled_by :: ustring
  bc_labeled_at :: "string option"
  bc_status :: badcase_status
  bc_sft_eligible :: bool

section \<open>Classification\<close>

definition error_mentions :: "string \<Rightarrow> string \<Rightarrow> bool" where
  "error_mentions err w \<longleftrightarrow> substring_in (codes w) (to_lower (codes err))"

definition badcase_signals :: "workflow_response \<Rightarrow> (badcase_category \<times> badcase_source \<times> json_object) option" where
  "badcase_signals r =
     (let verdict = (case rs_output_decision r of None \<Rightarrow> ''accept'' | Some d \<Rightarrow> od_final_verdict d);
          err = rs_error r; stop = rs_stop_reason r
      in if \<not> list_all tp_approval_required (rs_proposed_tool_calls r)
           then Some (ApprovalBypass, AutoReview, [(''unsafe_write_proposal'', JBool True)])
         else if verdict = ''reject'' \<or> verdict = ''escalate''
           then Some (ReviewReject, AutoReview, [(''verdict'', jstr verdict)])
         else if stop = ''grounding_failed''
           then Some (RetrievalMiss, AutoRuntime, [(''grounding_failed'', JBool True)])
         else if error_mentions err ''timeout'' \<or> error_mentions err ''exceeded'' \<or> stop = ''timeout''
           then Some (TimedOut, AutoRuntime, [(''error'', jstr (take 200 err))])
         else if rs_status r = RunFailed \<or> err \<noteq> '''' \<or> stop = ''runtime_error''
           then Some (RuntimeFailure, AutoRuntime, [(''status'', jstr (status_value (rs_status r))),
             (''error'', jstr (take 200 err)), (''stop_reason'', jstr stop)])
         else None)"

definition classify_badcase ::
  "string \<Rightarrow> string \<Rightarrow> badcase_source option \<Rightarrow> workflow_request \<Rightarrow> workflow_response \<Rightarrow> badcase_record option" where
  "classify_badcase uid now source rq r =
     map_option (\<lambda>(category, detected, signals).
       \<lparr>bc_id = uid, bc_created_at = now, bc_organization_id = rq_organization_id rq,
        bc_workflow_run_id = rq_workflow_run_id rq, bc_source = opt_or source detected, bc_category = category,
        bc_severity = severity_by_category category, bc_request = rq, bc_response = r, bc_auto_signals = signals,
        bc_label_corrected_response = None, bc_label_note = [], bc_labeled_by = [], bc_labeled_at = None,
        bc_status = CaseOpen, bc_sft_eligible = False\<rparr>) (badcase_signals r)"

section \<open>The store\<close>

record badcase_row =
  bw_id :: string
  bw_created_at :: string
  bw_organization_id :: int
  bw_workflow_run_id :: int
  bw_source :: string
  bw_category :: string
  bw_severity :: string
  bw_status :: badcase_status
  bw_sft_eligible :: bool
  bw_payload :: badcase_record

type_synonym badcase_store = "badcase_row list"

definition row_of :: "badcase_record \<Rightarrow> badcase_row" where
  "row_of b =
     \<lparr>bw_id = bc_id b, bw_created_at = bc_created_at b, bw_organization_id = bc_organization_id b,
      bw_workflow_run_id = bc_workflow_run_id b, bw_source = source_value (bc_source b),
      bw_category = category_value (bc_category b), bw_severity = severity_value (bc_severity b),
      bw_status = bc_status b, bw_sft_eligible = bc_sft_eligible b, bw_payload = b\<rparr>"

text \<open>\<open>INSERT OR REPLACE\<close> removes the row with the key and inserts a new one.\<close>

definition save_badcase :: "badcase_record \<Rightarrow> badcase_store \<Rightarrow> badcase_store" where
  "save_badcase b rows = filter (\<lambda>r. bw_id r \<noteq> bc_id b) rows @ [row_of b]"

definition get_badcase :: "string \<Rightarrow> badcase_store \<Rightarrow> badcase_record option" where
  "get_badcase i rows = map_option bw_payload (List.find (\<lambda>r. bw_id r = i) rows)"

definition newest_rows :: "int \<Rightarrow> badcase_store \<Rightarrow> badcase_record list" where
  "newest_rows limit rows =
     (let rs = rev (sort_key bw_created_at rows)
      in map bw_payload (if limit < 0 then rs else take (nat limit) rs))"

definition list_by_status :: "badcase_status \<Rightarrow> int \<Rightarrow> badcase_store \<Rightarrow> badcase_record list" where
  "list_by_status st limit rows = newest_rows limit (filter (\<lambda>r. bw_status r = st) rows)"

definition list_open :: "int \<Rightarrow> badcase_store \<Rightarrow> badcase_record list" where
  "list_open limit rows = list_by_status CaseOpen limit rows"

definition list_sft_eligible :: "int \<Rightarrow> badcase_store \<Rightarrow> badcase_record list" where
  "list_sft_eligible limit rows = newest_rows limit (filter bw_sft_eligible rows)"

definition label_badcase ::
  "string \<Rightarrow> string \<Rightarrow> workflow_response \<Rightarrow> ustring \<Rightarrow> ustring \<Rightarrow> bool \<Rightarrow> badcase_store \<Rightarrow> badcase_store \<times> bool" where
  "label_badcase now i corrected note by_whom eligible rows =
     (case get_badcase i rows of
        None \<Rightarrow> (rows, False)
      | Some b \<Rightarrow> (save_badcase (b\<lparr>bc_label_corrected_response := Some corrected, bc_label_note := note,
          bc_labeled_by := by_whom, bc_labeled_at := Some now, bc_status := CaseLabeled, bc_sft_eligible := eligible\<rparr>) rows,
          True))"

definition set_sft_eligible :: "string \<Rightarrow> bool \<Rightarrow> badcase_store \<Rightarrow> badcase_store \<times> bool" where
  "set_sft_eligible i eligible rows =
     (case get_badcase i rows of
        None \<Rightarrow> (rows, False)
      | Some b \<Rightarrow> (save_badcase (b\<lparr>bc_sft_eligible := eligible,
          bc_status := (if eligible \<and> bc_status b = CaseOpen then CaseLabeled else bc_status b)\<rparr>) rows, True))"

text \<open>Errors of the store are swallowed: the argument says whether the database takes the row.\<close>

definition capture_badcase ::
  "bool \<Rightarrow> bool \<Rightarrow> string \<Rightarrow> string \<Rightarrow> workflow_request \<Rightarrow> workflow_response \<Rightarrow> badcase_store \<Rightarrow> badcase_store" where
  "capture_badcase enabled database_ok uid now rq r rows =
     (if \<not> enabled then rows
      else case classify_badcase uid now None rq r of
          None \<Rightarrow> rows | Some b \<Rightarrow> if database_ok then save_badcase b rows else rows)"

section \<open>Training samples\<close>

record sft_sample =
  sf_id :: string
  sf_badcase_id :: string
  sf_model_version :: string
  sf_route :: string
  sf_system_prompt :: string
  sf_messages :: "(string \<times> ustring) list"
  sf_tags :: "string list"
  sf_quality_score :: rat
  sf_created_at :: string

definition quality_threshold :: rat where
  "quality_threshold = 6 / 10"

definition bullets :: "ustring list \<Rightarrow> ustring" where
  "bullets xs = join [10] (map (\<lambda>x. codes ''- '' @ x) xs)"

definition user_content :: "badcase_record \<Rightarrow> ustring" where
  "user_content b =
     (let rq = bc_request b
      in join [10, 10]
        ([codes ''Goal: '' @ rq_goal rq] @
         (if rq_context_chunks rq \<noteq> []
          then [codes ''Context:'' @ [10] @ bullets (map ck_snippet (take 8 (rq_context_chunks rq)))] else []) @
         (if rq_notes rq \<noteq> [] then [codes ''Notes:'' @ [10] @ bullets (map cn_body (take 5 (rq_notes rq)))] else [])))"

definition source_line :: "citation \<Rightarrow> ustring" where
  "source_line c =
     (if cit_title c \<noteq> [] then cit_title c else cit_source_title c) @ codes ('' ('' @ cit_source_type c @ '')'')"

definition assistant_content :: "workflow_response \<Rightarrow> badcase_category \<Rightarrow> ustring option" where
  "assistant_content corrected category =
     (if category = ApprovalBypass \<and> \<not> list_all tp_approval_required (rs_proposed_tool_calls corrected) then None
      else if category = UnsupportedMishandle \<and> rs_proposed_tool_calls corrected \<noteq> [] then None
      else
        (let lines =
           (if rs_summary corrected \<noteq> [] then [rs_summary corrected] else []) @
           (if rs_citations corrected \<noteq> []
            then [codes ''Sources:'' @ [10] @ bullets (map source_line (rs_citations corrected))] else []) @
           (if rs_proposed_tool_calls corrected \<noteq> []
            then [codes ''Proposed actions:'' @ [10] @
              bullets (map (\<lambda>p. codes (tp_tool_name p @ '': '') @ tp_reason p) (rs_proposed_tool_calls corrected))] else [])
         in if lines \<noteq> [] then Some (join [10, 10] lines) else None))"

definition quality_score :: "workflow_response \<Rightarrow> badcase_category \<Rightarrow> rat" where
  "quality_score corrected category =
     min 1 (5 / 10
       + (if rs_summary corrected \<noteq> [] then 2 / 10 else 0)
       + (if rs_citations corrected \<noteq> [] then 2 / 10 else 0)
       + (if category = UnsupportedMishandle \<and> rs_proposed_tool_calls corrected = [] then 1 / 10 else 0)
       + (if category = ApprovalBypass \<and> list_all tp_approval_required (rs_proposed_tool_calls corrected)
          then 1 / 10 else 0))"

definition make_sample :: "string \<Rightarrow> string \<Rightarrow> badcase_record \<Rightarrow> ustring \<Rightarrow> ustring \<Rightarrow> rat \<Rightarrow> sft_sample" where
  "make_sample uid now b user_text assistant_text score =
     (let version = rs_prompt_version (bc_response b); route = rd_route (rs_route_decision (bc_response b))
      in \<lparr>sf_id = uid, sf_badcase_id = bc_id b, sf_model_version = (if version \<noteq> '''' then version else ''unknown''),
          sf_route = route,
          sf_system_prompt = ''[AllCallAll agent-runtime] prompt_version='' @ version @ '' route='' @ route,
          sf_messages = [(''user'', user_text), (''assistant'', assistant_text)],
          sf_tags = [category_value (bc_category b), severity_value (bc_severity b), source_value (bc_source b)],
          sf_quality_score = score, sf_created_at = now\<rparr>)"

definition build_sft_sample :: "string \<Rightarrow> string \<Rightarrow> badcase_record \<Rightarrow> sft_sample option" where
  "build_sft_sample uid now b =
     (if \<not> bc_sft_eligible b \<or> bc_status b \<notin> {CaseLabeled, CaseApproved, CaseTraining} then None
      else case bc_label_corrected_response b of
          None \<Rightarrow> None
        | Some corrected \<Rightarrow>
            (case assistant_content corrected (bc_category b) of
               None \<Rightarrow> None
             | Some assistant_text \<Rightarrow>
                 (if user_content b = [] \<or> assistant_text = [] then None
                  else if quality_score corrected (bc_category b) < quality_threshold then None
                  else Some (make_sample uid now b (user_content b) assistant_text
                    (quality_score corrected (bc_category b))))))"

text \<open>Fresh ids and times are functions of the position of the record in the batch.\<close>

fun build_from :: "(nat \<Rightarrow> string) \<Rightarrow> (nat \<Rightarrow> string) \<Rightarrow> nat \<Rightarrow> string set \<Rightarrow> badcase_record list \<Rightarrow> sft_sample list" where
  "build_from uid now i seen [] = []"
| "build_from uid now i seen (b # bs) =
     (case build_sft_sample (uid i) (now i) b of
        None \<Rightarrow> build_from uid now (i + 1) seen bs
      | Some x \<Rightarrow>
          (if sf_badcase_id x \<in> seen then build_from uid now (i + 1) seen bs
           else x # build_from uid now (i + 1) (insert (sf_badcase_id x) seen) bs))"

definition build_sft_dataset :: "(nat \<Rightarrow> string) \<Rightarrow> (nat \<Rightarrow> string) \<Rightarrow> badcase_record list \<Rightarrow> sft_sample list" where
  "build_sft_dataset uid now bs = build_from uid now 0 {} bs"

section \<open>What a run archives\<close>

definition verdict_of :: "workflow_response \<Rightarrow> string" where
  "verdict_of r = (case rs_output_decision r of None \<Rightarrow> ''accept'' | Some d \<Rightarrow> od_final_verdict d)"

lemma offer_approved: "offer_ok r \<Longrightarrow> list_all tp_approval_required (rs_proposed_tool_calls r)"
  by (auto simp: offer_ok_def split: option.splits)

lemma finished_run_quiet:
  assumes "finish_run env gops rq pn s g = Inr r"
  shows "rs_error r = ''''" and "rs_status r \<noteq> RunFailed" and "rs_stop_reason r \<notin> {''timeout'', ''runtime_error''}"
proof -
  obtain cid v ps where "respond env rq pn (s\<lparr>st_proposed_tool_calls := ps\<rparr>) cid v [] = Inr r"
    using assms by (auto simp: finish_run_def and_then_eq_Inr Let_def)
  from run_respond_fields [OF this] show "rs_error r = ''''"
    by (auto simp: response_from_graph_result_def Let_def split: option.splits)
  show "rs_status r \<noteq> RunFailed" using finish_run_fields(2) [OF assms] by simp
  show "rs_stop_reason r \<notin> {''timeout'', ''runtime_error''}"
    unfolding finish_run_fields(5) [OF assms] by (simp add: response_stop_reason_def)
qed

lemma no_mention_in_empty [simp]: "\<not> error_mentions '''' (c # w)"
  by (simp add: error_mentions_def codes_def to_lower_def)

lemma quiet_signals:
  assumes "list_all tp_approval_required (rs_proposed_tool_calls r)" and "rs_error r = ''''" and "rs_status r \<noteq> RunFailed"
    and "rs_stop_reason r \<notin> {''timeout'', ''runtime_error''}"
  shows "badcase_signals r =
    (if verdict_of r \<in> {''reject'', ''escalate''} then Some (ReviewReject, AutoReview, [(''verdict'', jstr (verdict_of r))])
     else if rs_stop_reason r = ''grounding_failed''
       then Some (RetrievalMiss, AutoRuntime, [(''grounding_failed'', JBool True)])
     else None)"
  using assms by (simp add: badcase_signals_def verdict_of_def Let_def)

lemma failed_run_signals:
  "map_option fst (badcase_signals (failed_run env rq pn err trace)) =
     Some (if error_mentions err ''timeout'' \<or> error_mentions err ''exceeded'' then TimedOut else RuntimeFailure)"
  by (simp add: badcase_signals_def failed_run_def failure_response_def Let_def)

section \<open>The archive over time\<close>

inductive store_step :: "badcase_store \<Rightarrow> badcase_store \<Rightarrow> bool" where
  capture: "store_step rows (capture_badcase enabled ok uid now rq r rows)"
| label: "store_step rows (fst (label_badcase now i corrected note by_whom eligible rows))"
| mark: "store_step rows (fst (set_sft_eligible i eligible rows))"

definition record_ok :: "badcase_record \<Rightarrow> bool" where
  "record_ok b \<longleftrightarrow> bc_status b \<in> {CaseOpen, CaseLabeled} \<and> (bc_status b = CaseOpen \<longrightarrow> \<not> bc_sft_eligible b) \<and>
     (bc_label_corrected_response b = None) = (bc_labeled_at b = None) \<and>
     bc_severity b = severity_by_category (bc_category b)"

definition store_ok :: "badcase_store \<Rightarrow> bool" where
  "store_ok rows \<longleftrightarrow> distinct (map bw_id rows) \<and> list_all (\<lambda>r. r = row_of (bw_payload r) \<and> record_ok (bw_payload r)) rows"

lemma row_of_simps [simp]: "bw_id (row_of b) = bc_id b" "bw_payload (row_of b) = b"
  "bw_status (row_of b) = bc_status b" "bw_sft_eligible (row_of b) = bc_sft_eligible b"
  by (simp_all add: row_of_def)

lemma distinct_save: "distinct (map bw_id rows) \<Longrightarrow> distinct (map bw_id (save_badcase b rows))"
  by (induction rows) (auto simp: save_badcase_def)

lemma store_ok_save: "store_ok rows \<Longrightarrow> record_ok b \<Longrightarrow> store_ok (save_badcase b rows)"
  using distinct_save [of rows b] by (auto simp: store_ok_def save_badcase_def list_all_iff)

lemma get_badcase_in: "get_badcase i rows = Some b \<Longrightarrow> store_ok rows \<Longrightarrow>
    row_of b \<in> set rows \<and> record_ok b \<and> bc_id b = i"
proof -
  assume "get_badcase i rows = Some b" and ok: "store_ok rows"
  then obtain r where r: "r \<in> set rows" "bw_id r = i" "bw_payload r = b"
    by (auto simp: get_badcase_def find_Some_iff in_set_conv_nth)
  with ok have "r = row_of b" "record_ok b" by (auto simp: store_ok_def list_all_iff)
  then show ?thesis using r by auto
qed

lemma get_badcase_stored: "store_ok rows \<Longrightarrow> row_of b \<in> set rows \<Longrightarrow> get_badcase (bc_id b) rows = Some b"
  unfolding get_badcase_def store_ok_def
proof (induction rows)
  case (Cons r rows)
  then show ?case by (auto simp: rev_image_eqI)
qed simp

lemma store_step_ok: "store_step s t \<Longrightarrow> store_ok s \<Longrightarrow> store_ok t"
proof (induction rule: store_step.induct)
  case (capture rows enabled ok uid now rq r)
  then show ?case
    by (auto simp: capture_badcase_def classify_badcase_def split: option.split intro!: store_ok_save)
      (auto simp: record_ok_def)
next
  case (label rows now i corrected remark by_whom eligible)
  then show ?case
    by (auto simp: label_badcase_def split: option.split dest!: get_badcase_in intro!: store_ok_save)
      (auto simp: record_ok_def)
next
  case (mark rows i eligible)
  then show ?case
    by (auto simp: set_sft_eligible_def split: option.split dest!: get_badcase_in intro!: store_ok_save)
      (auto simp: record_ok_def)
qed

lemma store_run_ok: "store_step\<^sup>*\<^sup>* s t \<Longrightarrow> store_ok s \<Longrightarrow> store_ok t"
  by (induction rule: rtranclp_induct) (auto intro: store_step_ok)

lemma newest_rows_set: "set (newest_rows limit rows) \<subseteq> bw_payload ` set rows"
  by (auto simp: newest_rows_def Let_def dest!: in_set_takeD)

text \<open>A sample of a record: what the record must be for the sample to teach the right thing.\<close>

definition teaches :: "sft_sample \<Rightarrow> badcase_record \<Rightarrow> bool" where
  "teaches x b \<longleftrightarrow> sf_badcase_id x = bc_id b \<and> bc_status b = CaseLabeled \<and> bc_sft_eligible b \<and> bc_labeled_at b \<noteq> None \<and>
     quality_threshold \<le> sf_quality_score x \<and>
     (case bc_label_corrected_response b of None \<Rightarrow> False | Some r \<Rightarrow>
        assistant_content r (bc_category b) = Some (snd (sf_messages x ! 1)) \<and>
        (bc_category b = ApprovalBypass \<longrightarrow> list_all tp_approval_required (rs_proposed_tool_calls r)) \<and>
        (bc_category b = UnsupportedMishandle \<longrightarrow> rs_proposed_tool_calls r = []))"

lemma sample_teaches:
  assumes "build_sft_sample uid now b = Some x" and "record_ok b"
  shows "teaches x b"
proof -
  obtain r t where b: "bc_label_corrected_response b = Some r" "assistant_content r (bc_category b) = Some t"
    "bc_sft_eligible b" "bc_status b \<in> {CaseLabeled, CaseApproved, CaseTraining}"
    "quality_threshold \<le> quality_score r (bc_category b)"
    "x = make_sample uid now b (user_content b) t (quality_score r (bc_category b))"
    using assms(1) by (auto simp: build_sft_sample_def split: if_splits option.splits)
  moreover have "bc_labeled_at b \<noteq> None" "bc_status b = CaseLabeled" using assms(2) b(1,4) by (auto simp: record_ok_def)
  moreover have "(bc_category b = ApprovalBypass \<longrightarrow> list_all tp_approval_required (rs_proposed_tool_calls r)) \<and>
      (bc_category b = UnsupportedMishandle \<longrightarrow> rs_proposed_tool_calls r = [])"
    using b(2) by (auto simp: assistant_content_def split: if_splits)
  ultimately show ?thesis by (simp add: teaches_def make_sample_def Let_def)
qed

lemma build_from_samples:
  "x \<in> set (build_from uid now i seen bs) \<Longrightarrow> \<exists>b \<in> set bs. \<exists>j. build_sft_sample (uid j) (now j) b = Some x"
  by (induction uid now i seen bs rule: build_from.induct) (auto split: option.splits if_splits)

lemma build_from_distinct:
  "distinct (map sf_badcase_id (build_from uid now i seen bs)) \<and>
     sf_badcase_id ` set (build_from uid now i seen bs) \<inter> seen = {}"
  by (induction uid now i seen bs rule: build_from.induct) (auto split: option.split)

text \<open>
  A training set teaches only what a labeller has corrected. Over every run of the archive, each sample built
  from its eligible records belongs to one stored record, no record gives two samples, and the record is labelled
  and eligible and has a corrected response, which proposes nothing unapproved for an approval bypass and nothing
  at all for a request out of scope.
\<close>

theorem samples_come_from_labels:
  "{(rows, build_sft_dataset uid now (list_sft_eligible limit rows)) | uid now limit rows. store_step\<^sup>*\<^sup>* [] rows}
     \<subseteq> {(rows, xs). distinct (map sf_badcase_id xs) \<and>
           list_all (\<lambda>x. case get_badcase (sf_badcase_id x) rows of None \<Rightarrow> False | Some b \<Rightarrow> teaches x b) xs}"
proof clarify
  fix uid now limit rows
  assume run: "store_step\<^sup>*\<^sup>* [] rows"
  define xs where "xs = build_sft_dataset uid now (list_sft_eligible limit rows)"
  have ok: "store_ok rows" by (rule store_run_ok [OF run]) (simp add: store_ok_def)
  have "case get_badcase (sf_badcase_id x) rows of None \<Rightarrow> False | Some b \<Rightarrow> teaches x b" if x: "x \<in> set xs" for x
  proof -
    obtain b j where b: "b \<in> set (list_sft_eligible limit rows)" "build_sft_sample (uid j) (now j) b = Some x"
      using build_from_samples x unfolding xs_def build_sft_dataset_def by metis
    have "b \<in> bw_payload ` set rows"
      using b(1) newest_rows_set [of limit "filter bw_sft_eligible rows"] by (auto simp: list_sft_eligible_def)
    then have "row_of b \<in> set rows" "record_ok b" using ok by (auto simp: store_ok_def list_all_iff)
    moreover from sample_teaches [OF b(2) this(2)] have "teaches x b" "sf_badcase_id x = bc_id b"
      by (simp_all add: teaches_def)
    ultimately show ?thesis using get_badcase_stored [OF ok] by simp
  qed
  then show "distinct (map sf_badcase_id (build_sft_dataset uid now (list_sft_eligible limit rows))) \<and>
      list_all (\<lambda>x. case get_badcase (sf_badcase_id x) rows of None \<Rightarrow> False | Some b \<Rightarrow> teaches x b)
        (build_sft_dataset uid now (list_sft_eligible limit rows))"
    using build_from_distinct unfolding xs_def build_sft_dataset_def by (auto simp: list_all_iff)
qed

end
