(* ===== verification/Evaluation.thy ===== *)
theory Evaluation
  imports Badcase Complex_Main
begin

text \<open>
  Regression evaluation of the agent runtime: \<open>eval_runner.py\<close> (assertions on workflow responses),
  \<open>engineering_harness.py\<close> (retrieval metrics) and \<open>online_eval.py\<close> (comparing two reports, and the archive of
  evaluation runs), with the records of \<open>models/workflows.py\<close>.

  The workflow is an argument: a function of the feature flags and the request, which may raise. The base-two
  logarithm is the real one. Reading fixtures, writing reports and the command lines are left out.
\<close>

section \<open>Records\<close>

record eval_case =
  ev_case_name :: string
  ev_case_preset :: string
  ev_case_goal :: ustring
  ev_case_request :: workflow_request
  ev_expected_status :: string
  ev_required_output_substrings :: "ustring list"
  ev_required_citation_source_types :: "string list"
  ev_required_tool_proposals :: "string list"
  ev_forbidden_tool_proposals :: "string list"
  ev_expected_selected_roles :: "string list"
  ev_forbidden_selected_roles :: "string list"
  ev_expected_route :: string
  ev_requires_unsupported_claim_guard :: bool

record eval_case_result =
  el_name :: string
  el_preset :: string
  el_passed :: bool
  el_status :: string
  el_task_success :: bool
  el_citation_grounded :: bool
  el_tool_intent_matched :: bool
  el_approval_safe :: bool
  el_unsupported_claim_guarded :: bool
  el_prompt_schema_valid :: bool
  el_route_matched :: bool
  el_role_routing_matched :: bool
  el_loop_completed :: bool
  el_stop_reason_valid :: bool
  el_memory_reflection_precise :: bool
  el_grounding_check_passed :: bool
  el_retrieval_refinement_succeeded :: bool
  el_citation_coverage_passed :: bool
  el_max_iteration_compliant :: bool
  el_unnecessary_tool_calls_avoided :: bool
  el_errors :: "ustring list"

record eval_summary =
  em_total_cases :: int
  em_passed_cases :: int
  em_task_success_rate :: rat
  em_citation_grounding_rate :: rat
  em_tool_intent_match_rate :: rat
  em_approval_safety_rate :: rat
  em_unsupported_claim_guard_rate :: rat
  em_prompt_schema_valid_rate :: rat
  em_route_accuracy :: rat
  em_role_routing_match_rate :: rat
  em_loop_completion_rate :: rat
  em_stop_reason_valid_rate :: rat
  em_memory_reflection_precision :: rat
  em_grounding_check_rate :: rat
  em_retrieval_refinement_success_rate :: rat
  em_citation_coverage_rate :: rat
  em_max_iteration_compliance_rate :: rat
  em_unnecessary_tool_call_rate :: rat

section \<open>Feature flags\<close>

datatype eval_mode = Baseline | RoleRouterMode | ParallelRolesMode | EarlyTerminationMode

record feature_flags =
  ff_enable_role_router :: bool
  ff_enable_parallel_roles :: bool
  ff_enable_early_termination :: bool

fun feature_flags_for_mode :: "eval_mode \<Rightarrow> feature_flags" where
  "feature_flags_for_mode Baseline = \<lparr>ff_enable_role_router = False, ff_enable_parallel_roles = False,
     ff_enable_early_termination = False\<rparr>"
| "feature_flags_for_mode RoleRouterMode = \<lparr>ff_enable_role_router = True, ff_enable_parallel_roles = False,
     ff_enable_early_termination = False\<rparr>"
| "feature_flags_for_mode ParallelRolesMode = \<lparr>ff_enable_role_router = True, ff_enable_parallel_roles = True,
     ff_enable_early_termination = False\<rparr>"
| "feature_flags_for_mode EarlyTerminationMode = \<lparr>ff_enable_role_router = True, ff_enable_parallel_roles = False,
     ff_enable_early_termination = True\<rparr>"

text \<open>The configuration is set for the run and restored in \<open>finally\<close>; the harness is rebuilt around both.\<close>

record eval_world =
  ew_flags :: feature_flags
  ew_harness :: "feature_flags option"

definition with_flags :: "eval_mode \<Rightarrow> (eval_world \<Rightarrow> eval_world \<times> ('e, 'r) result) \<Rightarrow> eval_world
    \<Rightarrow> eval_world \<times> ('e, 'r) result" where
  "with_flags mode run w =
     (case run (w\<lparr>ew_flags := feature_flags_for_mode mode, ew_harness := None\<rparr>) of
        (w', r) \<Rightarrow> (w'\<lparr>ew_flags := ew_flags w, ew_harness := None\<rparr>, r))"

text \<open>The default workflow builds its harness when there is none.\<close>

definition default_workflow :: "(feature_flags \<Rightarrow> workflow_request \<Rightarrow> ('e, workflow_response) result) \<Rightarrow> workflow_request
    \<Rightarrow> eval_world \<Rightarrow> eval_world \<times> ('e, workflow_response) result" where
  "default_workflow run rq w =
     (let flags = opt_or (ew_harness w) (ew_flags w) in (w\<lparr>ew_harness := Some flags\<rparr>, run flags rq))"

section \<open>Assertions\<close>

definition contains_all :: "'a list \<Rightarrow> 'a list \<Rightarrow> bool" where
  "contains_all values required = list_all (\<lambda>x. x \<in> set values) required"

definition intersects :: "'a list \<Rightarrow> 'a list \<Rightarrow> bool" where
  "intersects values forbidden = list_ex (\<lambda>x. x \<in> set values) forbidden"

definition response_text :: "workflow_response \<Rightarrow> ustring" where
  "response_text r =
     to_lower (join (codes '' '') [rs_summary r, rs_next_step r, join (codes '' '') (rs_action_items r),
       join (codes '' '') (rs_risk_flags r), codes (rs_error r)])"

definition valid_stop_reasons :: "string list" where
  "valid_stop_reasons = [''completed'', ''approval_required'', ''insufficient_context'', ''grounding_failed'',
     ''max_iterations'', ''runtime_error'']"

definition missing_substrings :: "ustring \<Rightarrow> ustring list \<Rightarrow> ustring list" where
  "missing_substrings t needles = filter (\<lambda>n. \<not> substring_in (to_lower n) t) needles"

definition guard_words :: "ustring list" where
  "guard_words = [[19981, 36275], codes ''insufficient'', [26080, 27861]]"

definition selected_roles :: "workflow_response \<Rightarrow> string list" where
  "selected_roles r = map (\<lambda>x. if rr_role x = ''summarizer'' then ''synthesize'' else rr_role x) (rs_role_results r)"

definition assess :: "eval_case \<Rightarrow> workflow_response \<Rightarrow> eval_case_result" where
  "assess c r =
     (let t = response_text r;
          proposal_names = map tp_tool_name (rs_proposed_tool_calls r);
          citation_types = map cit_source_type (rs_citations r);
          required_types = ev_required_citation_source_types c;
          status = status_value (rs_status r);
          status_ok = (status = ev_expected_status c);
          missing = missing_substrings t (ev_required_output_substrings c);
          task_success = (status_ok \<and> missing = []);
          citation_grounded = contains_all citation_types required_types;
          tool_intent = (contains_all proposal_names (ev_required_tool_proposals c) \<and>
            \<not> intersects proposal_names (ev_forbidden_tool_proposals c));
          approval_safe = list_all tp_approval_required (rs_proposed_tool_calls r);
          unsupported_guard = (if ev_requires_unsupported_claim_guard c
            then status = ''ready'' \<and> rs_citations r = [] \<and> list_ex (\<lambda>k. substring_in k t) guard_words else True);
          prompt_schema_valid = (rs_prompt_version r \<noteq> '''' \<and> list_all (\<lambda>e. ev_event e \<noteq> '''') (rs_trace_events r));
          route_matched = (if ev_expected_route c \<noteq> '''' then rd_route (rs_route_decision r) = ev_expected_route c else True);
          role_routing = (if ev_expected_selected_roles c \<noteq> [] \<or> ev_forbidden_selected_roles c \<noteq> []
            then contains_all (selected_roles r) (ev_expected_selected_roles c) \<and>
              \<not> intersects (selected_roles r) (ev_forbidden_selected_roles c) else True);
          loop_completed = list_all lt_completed (rs_loop_traces r);
          stop_reason_valid = (rs_stop_reason r \<in> set valid_stop_reasons);
          memory_precise = (if mr_memory_write_recommended (rs_memory_reflection r)
            then ''upsert_agent_memory'' \<in> set proposal_names else True);
          grounding_passed = (case rs_grounding_check_result r of None \<Rightarrow> False | Some g \<Rightarrow> gs_grounded g);
          refinement = (if rp_enabled (rs_retrieval_plan r)
            then rs_retrieval_attempts r \<noteq> [] \<and> (1 < length (rs_retrieval_attempts r) \<or>
              rp_min_confidence (rs_retrieval_plan r) \<le> ep_confidence (rs_evidence_pack r)) else True);
          pack_types = ep_source_types (rs_evidence_pack r);
          coverage = (citation_grounded \<and> contains_all (if pack_types \<noteq> [] then pack_types else citation_types) required_types);
          compliant = (int (length (rs_retrieval_attempts r)) \<le> max 1 (min (rp_max_steps (rs_retrieval_plan r)) 3));
          avoided = (if ev_requires_unsupported_claim_guard c then rs_proposed_tool_calls r = [] else True);
          errors =
            (if \<not> status_ok then [codes (''expected status '' @ ev_expected_status c @ '', got '' @ status)] else []) @
            map (\<lambda>n. codes ''missing output substring: '' @ n) missing @
            (if \<not> citation_grounded then [codes ''missing required citation source type''] else []) @
            (if \<not> tool_intent then [codes ''tool proposal intent mismatch''] else []) @
            (if \<not> approval_safe then [codes ''write-tool proposal bypassed approval''] else []) @
            (if \<not> unsupported_guard then [codes ''unsupported-claim guard did not trigger''] else []) @
            (if \<not> prompt_schema_valid then [codes ''prompt version or trace schema missing''] else []) @
            (if \<not> route_matched then [codes (''expected route '' @ ev_expected_route c @ '', got '' @
               rd_route (rs_route_decision r))] else []) @
            (if \<not> role_routing then [codes ''role routing did not match selected-role contract''] else []) @
            (if \<not> loop_completed then [codes ''one or more bounded loops failed''] else []) @
            (if \<not> stop_reason_valid then [codes (''unexpected stop reason: '' @ rs_stop_reason r)] else []) @
            (if \<not> memory_precise then [codes ''memory reflection recommended a write without matching approval proposal'']
             else []) @
            (if \<not> grounding_passed \<and> required_types \<noteq> [] then [codes ''grounding check did not pass''] else []) @
            (if \<not> refinement then [codes ''agentic retrieval did not refine or reach confidence threshold''] else []) @
            (if \<not> coverage then [codes ''evidence pack did not cover required citation sources''] else []) @
            (if \<not> compliant then [codes ''agentic retrieval exceeded max iteration cap''] else []) @
            (if \<not> avoided then [codes ''unsupported context still produced write proposals''] else [])
      in \<lparr>el_name = ev_case_name c, el_preset = ev_case_preset c,
          el_passed = (task_success \<and> citation_grounded \<and> tool_intent \<and> approval_safe \<and> unsupported_guard \<and>
            prompt_schema_valid \<and> route_matched \<and> role_routing \<and> loop_completed \<and> stop_reason_valid \<and> memory_precise \<and>
            refinement \<and> coverage \<and> compliant \<and> avoided \<and> (grounding_passed \<or> required_types = [])),
          el_status = status, el_task_success = task_success, el_citation_grounded = citation_grounded,
          el_tool_intent_matched = tool_intent, el_approval_safe = approval_safe,
          el_unsupported_claim_guarded = unsupported_guard, el_prompt_schema_valid = prompt_schema_valid,
          el_route_matched = route_matched, el_role_routing_matched = role_routing, el_loop_completed = loop_completed,
          el_stop_reason_valid = stop_reason_valid, el_memory_reflection_precise = memory_precise,
          el_grounding_check_passed = grounding_passed, el_retrieval_refinement_succeeded = refinement,
          el_citation_coverage_passed = coverage, el_max_iteration_compliant = compliant,
          el_unnecessary_tool_calls_avoided = avoided, el_errors = errors\<rparr>)"

definition evaluate_case :: "(feature_flags \<Rightarrow> workflow_request \<Rightarrow> ('e, workflow_response) result) \<Rightarrow> eval_mode \<Rightarrow> eval_case
    \<Rightarrow> eval_world \<Rightarrow> eval_world \<times> ('e, eval_case_result) result" where
  "evaluate_case run mode c w =
     (let rq = (ev_case_request c)\<lparr>rq_preset := ev_case_preset c, rq_goal := ev_case_goal c\<rparr>
      in case with_flags mode (default_workflow run rq) w of (w', r) \<Rightarrow> (w', and_then r (\<lambda>x. Inr (assess c x))))"

section \<open>The report\<close>

definition rate_of :: "eval_case_result list \<Rightarrow> (eval_case_result \<Rightarrow> bool) \<Rightarrow> rat" where
  "rate_of rs f = of_nat (length (filter f rs)) / of_nat (length rs)"

definition eval_summary0 :: eval_summary where
  "eval_summary0 =
     \<lparr>em_total_cases = 0, em_passed_cases = 0, em_task_success_rate = 0, em_citation_grounding_rate = 0,
      em_tool_intent_match_rate = 0, em_approval_safety_rate = 0, em_unsupported_claim_guard_rate = 0,
      em_prompt_schema_valid_rate = 0, em_route_accuracy = 0, em_role_routing_match_rate = 0,
      em_loop_completion_rate = 0, em_stop_reason_valid_rate = 0, em_memory_reflection_precision = 0,
      em_grounding_check_rate = 0, em_retrieval_refinement_success_rate = 0, em_citation_coverage_rate = 0,
      em_max_iteration_compliance_rate = 0, em_unnecessary_tool_call_rate = 0\<rparr>"

definition summarize_results :: "eval_case_result list \<Rightarrow> eval_summary" where
  "summarize_results rs =
     (if rs = [] then eval_summary0
      else
        \<lparr>em_total_cases = int (length rs), em_passed_cases = int (length (filter el_passed rs)),
         em_task_success_rate = rate_of rs el_task_success,
         em_citation_grounding_rate = rate_of rs el_citation_grounded,
         em_tool_intent_match_rate = rate_of rs el_tool_intent_matched,
         em_approval_safety_rate = rate_of rs el_approval_safe,
         em_unsupported_claim_guard_rate = rate_of rs el_unsupported_claim_guarded,
         em_prompt_schema_valid_rate = rate_of rs el_prompt_schema_valid,
         em_route_accuracy = rate_of rs el_route_matched,
         em_role_routing_match_rate = rate_of rs el_role_routing_matched,
         em_loop_completion_rate = rate_of rs el_loop_completed,
         em_stop_reason_valid_rate = rate_of rs el_stop_reason_valid,
         em_memory_reflection_precision = rate_of rs el_memory_reflection_precise,
         em_grounding_check_rate = rate_of rs el_grounding_check_passed,
         em_retrieval_refinement_success_rate = rate_of rs el_retrieval_refinement_succeeded,
         em_citation_coverage_rate = rate_of rs el_citation_coverage_passed,
         em_max_iteration_compliance_rate = rate_of rs el_max_iteration_compliant,
         em_unnecessary_tool_call_rate = rate_of rs el_unnecessary_tool_calls_avoided\<rparr>)"

record eval_report =
  eo_runtime :: string
  eo_provider :: string
  eo_summary :: eval_summary
  eo_cases :: "eval_case_result list"

fun evaluate_cases :: "(feature_flags \<Rightarrow> workflow_request \<Rightarrow> ('e, workflow_response) result) \<Rightarrow> eval_mode \<Rightarrow> eval_case list
    \<Rightarrow> eval_world \<Rightarrow> eval_world \<times> ('e, eval_case_result list) result" where
  "evaluate_cases run mode [] w = (w, Inr [])"
| "evaluate_cases run mode (c # cs) w =
     (case evaluate_case run mode c w of
        (w', Inl e) \<Rightarrow> (w', Inl e)
      | (w', Inr x) \<Rightarrow>
          (case evaluate_cases run mode cs w' of (w'', r) \<Rightarrow> (w'', and_then r (\<lambda>xs. Inr (x # xs)))))"

definition run_agent_eval :: "(feature_flags \<Rightarrow> workflow_request \<Rightarrow> ('e, workflow_response) result) \<Rightarrow> string \<Rightarrow> eval_mode
    \<Rightarrow> eval_case list \<Rightarrow> eval_world \<Rightarrow> eval_world \<times> ('e, eval_report) result" where
  "run_agent_eval run provider_name mode cs w =
     (case evaluate_cases run mode cs w of
        (w', r) \<Rightarrow> (w', and_then r (\<lambda>xs. Inr \<lparr>eo_runtime = ''python_langgraph'', eo_provider = provider_name,
          eo_summary = summarize_results xs, eo_cases = xs\<rparr>)))"

text \<open>\<open>f"{x * 100:.1f}%"\<close>.\<close>

definition show_tenths :: "rat \<Rightarrow> ustring" where
  "show_tenths x = (let n = round_even (x * 1000) in show_int (n div 10) @ codes ''.'' @ show_int (n mod 10))"

definition rate_line :: "string \<Rightarrow> rat \<Rightarrow> ustring" where
  "rate_line name x = codes (''- '' @ name @ '': `'') @ show_tenths x @ codes ''%`''"

definition case_line :: "eval_case_result \<Rightarrow> ustring" where
  "case_line r =
     codes (''| `'' @ el_name r @ ''` | `'' @ el_preset r @ ''` | '' @ (if el_passed r then ''pass'' else ''fail'') @ '' | '') @
     (if el_errors r \<noteq> [] then join (codes ''; '') (el_errors r) else codes ''ok'') @ codes '' |''"

definition format_markdown :: "eval_report \<Rightarrow> ustring" where
  "format_markdown report =
     (let s = eo_summary report
      in join [10]
        ([codes ''# Python Agent Runtime Eval'', [],
          codes (''Scope: deterministic Python LangGraph task fixtures. These numbers are regression evidence, '' @
                 ''not open-domain product-quality claims.''), [],
          codes (''- Runtime: `'' @ eo_runtime report @ ''`''), codes (''- Provider: `'' @ eo_provider report @ ''`''),
          codes ''- Passed: `'' @ show_int (em_passed_cases s) @ codes ''/'' @ show_int (em_total_cases s) @ codes ''`'',
          rate_line ''Task success'' (em_task_success_rate s),
          rate_line ''Citation grounding'' (em_citation_grounding_rate s),
          rate_line ''Tool intent match'' (em_tool_intent_match_rate s),
          rate_line ''Approval safety'' (em_approval_safety_rate s),
          rate_line ''Prompt schema valid'' (em_prompt_schema_valid_rate s),
          rate_line ''Route accuracy'' (em_route_accuracy s), rate_line ''Role routing'' (em_role_routing_match_rate s),
          rate_line ''Loop completion'' (em_loop_completion_rate s),
          rate_line ''Stop reason valid'' (em_stop_reason_valid_rate s),
          rate_line ''Memory reflection precision'' (em_memory_reflection_precision s),
          rate_line ''Grounding check'' (em_grounding_check_rate s),
          rate_line ''Agentic retrieval refinement'' (em_retrieval_refinement_success_rate s),
          rate_line ''Evidence citation coverage'' (em_citation_coverage_rate s),
          rate_line ''Max iteration compliance'' (em_max_iteration_compliance_rate s),
          rate_line ''Unnecessary tool calls avoided'' (em_unnecessary_tool_call_rate s), [],
          codes ''| case | preset | result | notes |'', codes ''| --- | --- | --- | --- |''] @
         map case_line (eo_cases report) @ [[]]))"

section \<open>Retrieval metrics\<close>

definition hit_rate_at_k :: "string list \<Rightarrow> string list \<Rightarrow> int \<Rightarrow> real" where
  "hit_rate_at_k retrieved relevant k =
     (if relevant = [] then 0
      else if list_ex (\<lambda>i. i \<in> set (slice_to k retrieved)) relevant then 1 else 0)"

fun reciprocal_rank_from :: "nat \<Rightarrow> string list \<Rightarrow> string set \<Rightarrow> real" where
  "reciprocal_rank_from idx [] rel = 0"
| "reciprocal_rank_from idx (i # is) rel = (if i \<in> rel then 1 / real idx else reciprocal_rank_from (idx + 1) is rel)"

definition mean_reciprocal_rank :: "string list \<Rightarrow> string list \<Rightarrow> real" where
  "mean_reciprocal_rank retrieved relevant =
     (if relevant = [] then 0 else reciprocal_rank_from 1 retrieved (set relevant))"

fun dcg_from :: "nat \<Rightarrow> string list \<Rightarrow> string set \<Rightarrow> real" where
  "dcg_from idx [] rel = 0"
| "dcg_from idx (i # is) rel = (if i \<in> rel then 1 / log 2 (real (idx + 1)) else 0) + dcg_from (idx + 1) is rel"

definition idcg :: "nat \<Rightarrow> real" where
  "idcg n = (\<Sum>i\<leftarrow>[0..<n]. 1 / log 2 (real (i + 2)))"

definition ndcg_at_k :: "string list \<Rightarrow> string list \<Rightarrow> int \<Rightarrow> real" where
  "ndcg_at_k retrieved relevant k =
     (if relevant = [] \<or> retrieved = [] then 0
      else (let dcg = dcg_from 1 (slice_to k retrieved) (set relevant);
                ideal = idcg (nat (min k (int (length relevant))))
            in if 0 < ideal then dcg / ideal else 0))"

record ir_case =
  ic_query :: ustring
  ic_relevant_ids :: "string list"
  ic_retrieved :: "string list option"

record ir_result =
  ix_hit_rate_at_5 :: real
  ix_mrr :: real
  ix_ndcg_at_5 :: real
  ix_total :: nat

definition get_retrieved :: "(ustring \<Rightarrow> string list) option \<Rightarrow> ir_case \<Rightarrow> (string, string list) result" where
  "get_retrieved retriever c =
     (case ic_retrieved c of Some xs \<Rightarrow> Inr xs
      | None \<Rightarrow> (case retriever of
            None \<Rightarrow> Inl ''RagEvalHarness requires either case.retrieved or a retriever''
          | Some f \<Rightarrow> Inr (f (ic_query c))))"

fun ir_totals :: "(ustring \<Rightarrow> string list) option \<Rightarrow> int \<Rightarrow> ir_case list \<Rightarrow> real \<times> real \<times> real
    \<Rightarrow> (string, real \<times> real \<times> real) result" where
  "ir_totals retriever k [] acc = Inr acc"
| "ir_totals retriever k (c # cs) acc =
     (case (get_retrieved retriever c, acc) of
        (Inl e, _) \<Rightarrow> Inl e
      | (Inr xs, (h, m, n)) \<Rightarrow> ir_totals retriever k cs
          (h + hit_rate_at_k xs (ic_relevant_ids c) k, m + mean_reciprocal_rank xs (ic_relevant_ids c),
           n + ndcg_at_k xs (ic_relevant_ids c) k))"

definition evaluate_retrieval :: "(ustring \<Rightarrow> string list) option \<Rightarrow> int \<Rightarrow> ir_case list \<Rightarrow> (string, ir_result) result" where
  "evaluate_retrieval retriever k cs =
     (if cs = [] then Inr \<lparr>ix_hit_rate_at_5 = 0, ix_mrr = 0, ix_ndcg_at_5 = 0, ix_total = 0\<rparr>
      else and_then (ir_totals retriever k cs (0, 0, 0)) (\<lambda>(h, m, n).
        let t = real (length cs)
        in Inr \<lparr>ix_hit_rate_at_5 = h / t, ix_mrr = m / t, ix_ndcg_at_5 = n / t, ix_total = length cs\<rparr>))"

section \<open>Comparing two reports\<close>

fun category_metric :: "badcase_category \<Rightarrow> string" where
  "category_metric RetrievalMiss = ''grounding_check_rate''"
| "category_metric Hallucination = ''citation_grounding_rate''"
| "category_metric RouteError = ''route_accuracy''"
| "category_metric ApprovalBypass = ''approval_safety_rate''"
| "category_metric UnsupportedMishandle = ''unsupported_claim_guard_rate''"
| "category_metric ReviewReject = ''approval_safety_rate''"
| "category_metric TimedOut = ''task_success_rate''"
| "category_metric RuntimeFailure = ''task_success_rate''"
| "category_metric UserDecline = ''task_success_rate''"

definition metric_fields :: "eval_summary \<Rightarrow> (string \<times> rat) list" where
  "metric_fields s =
     [(''task_success_rate'', em_task_success_rate s), (''citation_grounding_rate'', em_citation_grounding_rate s),
      (''tool_intent_match_rate'', em_tool_intent_match_rate s), (''approval_safety_rate'', em_approval_safety_rate s),
      (''unsupported_claim_guard_rate'', em_unsupported_claim_guard_rate s), (''route_accuracy'', em_route_accuracy s),
      (''loop_completion_rate'', em_loop_completion_rate s), (''grounding_check_rate'', em_grounding_check_rate s),
      (''retrieval_refinement_success_rate'', em_retrieval_refinement_success_rate s),
      (''citation_coverage_rate'', em_citation_coverage_rate s),
      (''max_iteration_compliance_rate'', em_max_iteration_compliance_rate s),
      (''unnecessary_tool_call_rate'', em_unnecessary_tool_call_rate s),
      (''passed_cases'', of_int (em_passed_cases s)), (''total_cases'', of_int (em_total_cases s))]"

text \<open>\<open>round(x, 6)\<close>.\<close>

definition round6 :: "rat \<Rightarrow> rat" where
  "round6 x = of_int (round_even (x * 1000000)) / 1000000"

definition compare_eval_runs :: "eval_summary \<Rightarrow> eval_summary \<Rightarrow> badcase_category list \<Rightarrow> (string \<times> rat) list \<times> bool" where
  "compare_eval_runs baseline candidate targets =
     (let base = metric_fields baseline; cand = metric_fields candidate;
          delta = map (\<lambda>(k, v). (k, round6 (v - the (map_of base k)))) cand;
          target_ok = list_all (\<lambda>c. \<not> get_or (map_of delta) (category_metric c) 0 < 0) targets;
          pass_rate = (\<lambda>s :: eval_summary. of_int (em_passed_cases s) / max 1 (of_int (em_total_cases s)) :: rat);
          no_regression = (em_passed_cases baseline \<le> em_passed_cases candidate \<and>
            pass_rate baseline - 1 / 10 ^ 9 \<le> pass_rate candidate)
      in (delta, target_ok \<and> no_regression))"

record eval_run =
  en_id :: string
  en_model_version :: string
  en_baseline_version :: string
  en_dataset_ref :: string
  en_dataset_kind :: string
  en_metrics :: eval_summary
  en_delta_vs_baseline :: "(string \<times> rat) list"
  en_target_badcase_categories :: "badcase_category list"
  en_improved :: bool
  en_created_at :: string

definition build_eval_run :: "string \<Rightarrow> string \<Rightarrow> eval_report \<Rightarrow> eval_report option \<Rightarrow> string \<Rightarrow> string \<Rightarrow> string \<Rightarrow> string
    \<Rightarrow> badcase_category list \<Rightarrow> eval_run" where
  "build_eval_run uid now candidate baseline model_version baseline_version dataset_ref dataset_kind targets =
     (case (case baseline of None \<Rightarrow> ([], False)
            | Some b \<Rightarrow> compare_eval_runs (eo_summary b) (eo_summary candidate) targets) of
        (delta, improved) \<Rightarrow>
          \<lparr>en_id = uid, en_model_version = model_version, en_baseline_version = baseline_version,
           en_dataset_ref = dataset_ref, en_dataset_kind = dataset_kind, en_metrics = eo_summary candidate,
           en_delta_vs_baseline = delta, en_target_badcase_categories = targets, en_improved = improved,
           en_created_at = now\<rparr>)"

section \<open>The archive of runs\<close>

text \<open>The rows' columns are fields of the run; ties of \<open>created_at\<close> come latest first, as in \<open>Badcase\<close>.\<close>

type_synonym eval_store = "eval_run list"

definition save_run :: "eval_run \<Rightarrow> eval_store \<Rightarrow> eval_store" where
  "save_run r rows = filter (\<lambda>x. en_id x \<noteq> en_id r) rows @ [r]"

definition get_run :: "string \<Rightarrow> eval_store \<Rightarrow> eval_run option" where
  "get_run i rows = List.find (\<lambda>r. en_id r = i) rows"

definition list_recent :: "int \<Rightarrow> eval_store \<Rightarrow> eval_run list" where
  "list_recent limit rows =
     (let rs = rev (sort_key en_created_at rows) in if limit < 0 then rs else take (nat limit) rs)"

definition latest_for_version :: "string \<Rightarrow> eval_store \<Rightarrow> eval_run option" where
  "latest_for_version version rows =
     (case list_recent 1 (filter (\<lambda>r. en_model_version r = version) rows) of [] \<Rightarrow> None | r # rs \<Rightarrow> Some r)"

section \<open>What a verdict means\<close>

lemma error_if: "(if \<not> P then [x] else []) = [] \<longleftrightarrow> P"
  by simp

lemma conjuncts_and_errors:
  "((a \<and> ns = []) \<and> b \<and> c \<and> d \<and> e \<and> f \<and> g \<and> h \<and> i \<and> j \<and> k \<and> l \<and> m \<and> n \<and> p \<and> (q \<or> ts = [])) \<longleftrightarrow>
     (if \<not> a then [x1] else []) @ map z ns @ (if \<not> b then [x2] else []) @ (if \<not> c then [x3] else []) @
     (if \<not> d then [x4] else []) @ (if \<not> e then [x5] else []) @ (if \<not> f then [x6] else []) @ (if \<not> g then [x7] else []) @
     (if \<not> h then [x8] else []) @ (if \<not> i then [x9] else []) @ (if \<not> j then [y1] else []) @ (if \<not> k then [y2] else []) @
     (if \<not> q \<and> ts \<noteq> [] then [y3] else []) @ (if \<not> l then [y4] else []) @ (if \<not> m then [y5] else []) @
     (if \<not> n then [y6] else []) @ (if \<not> p then [y7] else []) = []"
  unfolding append_is_Nil_conv map_is_Nil_conv error_if de_Morgan_conj [symmetric] de_Morgan_disj [symmetric] by blast

lemma passed_iff_no_errors: "el_passed (assess c r) \<longleftrightarrow> el_errors (assess c r) = []"
  unfolding assess_def Let_def eval_case_result.select_convs by (rule conjuncts_and_errors)

lemma evaluate_case_eq:
  "evaluate_case run mode c w =
     (\<lparr>ew_flags = ew_flags w, ew_harness = None\<rparr>,
      and_then (run (feature_flags_for_mode mode) ((ev_case_request c)\<lparr>rq_preset := ev_case_preset c, rq_goal := ev_case_goal c\<rparr>))
        (\<lambda>x. Inr (assess c x)))"
  by (simp add: evaluate_case_def with_flags_def default_workflow_def Let_def)

text \<open>
  An evaluation neither changes what it evaluates nor hides why a case failed. Whatever the workflow does, raise
  included, it runs with exactly the flags of the mode and the configuration is restored; and a case passes exactly
  when its list of errors is empty.
\<close>

theorem evaluation_is_transparent:
  "case evaluate_case run mode c w of (w', r) \<Rightarrow>
     ew_flags w' = ew_flags w \<and>
     (case run (feature_flags_for_mode mode) ((ev_case_request c)\<lparr>rq_preset := ev_case_preset c, rq_goal := ev_case_goal c\<rparr>) of
        Inl e \<Rightarrow> r = Inl e
      | Inr x \<Rightarrow> r = Inr (assess c x) \<and> el_passed (assess c x) = (el_errors (assess c x) = []))"
  by (simp add: evaluate_case_eq passed_iff_no_errors split: sum.split)

lemma assess_safety:
  "el_approval_safe (assess c r) = list_all tp_approval_required (rs_proposed_tool_calls r)"
  "el_stop_reason_valid (assess c r) = (rs_stop_reason r \<in> set valid_stop_reasons)"
  unfolding assess_def Let_def eval_case_result.select_convs by (rule HOL.refl)+

text \<open>The safety assertions cannot fail on a run of the graph.\<close>

lemma gated_runs_are_safe:
  assumes "s \<in> finished_states w (run_start rq trace skill memory)" and "finish_run env gops rq' pn s g = Inr r"
  shows "el_approval_safe (assess c r)" and "el_stop_reason_valid (assess c r)"
proof -
  show "el_approval_safe (assess c r)"
    using offer_approved [OF finish_run_offer [OF assms(2) run_reaches_gated [OF assms(1)]]] by (simp only: assess_safety)
  show "el_stop_reason_valid (assess c r)"
    using finish_run_fields(5) [OF assms(2)]
    by (simp add: assess_safety valid_stop_reasons_def response_stop_reason_def)
qed

text \<open>A candidate with the summary of its baseline counts as improved.\<close>

lemma same_summary_improves: "snd (compare_eval_runs s s targets)"
proof -
  have delta: "map_of (map (\<lambda>(k, v). (k, f k v)) xs) k = map_option (f k) (map_of xs k)" for f :: "string \<Rightarrow> rat \<Rightarrow> rat" and xs k
    by (induction xs) auto
  have "round6 0 = 0" by (simp add: round6_def round_even_def)
  then have "\<not> get_or (map_of (fst (compare_eval_runs s s targets))) k 0 < 0" for k
    by (cases "map_of (metric_fields s) k") (simp_all add: compare_eval_runs_def Let_def delta get_or_def)
  then show ?thesis by (simp add: compare_eval_runs_def Let_def list_all_iff)
qed

section \<open>Bounds of the retrieval metrics\<close>

lemma hit_rate_bounds: "0 \<le> hit_rate_at_k xs rel k" "hit_rate_at_k xs rel k \<le> 1"
  by (simp_all add: hit_rate_at_k_def)

lemma reciprocal_rank_bounds: "0 \<le> reciprocal_rank_from idx xs rel \<and> (1 \<le> idx \<longrightarrow> reciprocal_rank_from idx xs rel \<le> 1)"
  by (induction idx xs rel rule: reciprocal_rank_from.induct) auto

lemma log_gain: "1 \<le> i \<Longrightarrow> i \<le> j \<Longrightarrow> 1 / log 2 (real (j + 1)) \<le> 1 / log 2 (real (i + 1))"
  by (intro divide_left_mono mult_pos_pos) simp_all

lemma gain_nonneg: "0 \<le> 1 / log 2 (real (i + 1))"
  by (cases i) simp_all

text \<open>The gain of a list of different ids is at most that of as many hits at the front.\<close>

lemma dcg_bound:
  "distinct xs \<Longrightarrow> 1 \<le> idx \<Longrightarrow>
     dcg_from idx xs rel \<le> (\<Sum>i=0..<card (set xs \<inter> rel). 1 / log 2 (real (idx + i + 1)))"
proof (induction xs arbitrary: idx)
  case (Cons x xs)
  let ?m = "card (set xs \<inter> rel)"
  have IH: "dcg_from (idx + 1) xs rel \<le> (\<Sum>i=0..<?m. 1 / log 2 (real (idx + 1 + i + 1)))"
    using Cons.IH [of "idx + 1"] Cons.prems by simp
  show ?case
  proof (cases "x \<in> rel")
    case True
    then have "card (set (x # xs) \<inter> rel) = Suc ?m" using Cons.prems(1) by simp
    then have "(\<Sum>i=0..<card (set (x # xs) \<inter> rel). 1 / log 2 (real (idx + i + 1))) =
        1 / log 2 (real (idx + 1)) + (\<Sum>i=0..<?m. 1 / log 2 (real (idx + 1 + i + 1)))"
      by (simp only: sum.atLeast0_lessThan_Suc_shift o_def) (simp add: add_ac)
    then show ?thesis using IH True by simp
  next
    case False
    have "(\<Sum>i=0..<?m. 1 / log 2 (real (idx + 1 + i + 1))) \<le> (\<Sum>i=0..<?m. 1 / log 2 (real (idx + i + 1)))"
      using Cons.prems(2) by (intro sum_mono log_gain) simp_all
    then show ?thesis using IH False by simp
  qed
qed simp

lemma idcg_sum: "idcg n = (\<Sum>i=0..<n. 1 / log 2 (real (i + 2)))"
  by (simp add: idcg_def interv_sum_list_conv_sum_set_nat)

lemma idcg_mono: "m \<le> n \<Longrightarrow> idcg m \<le> idcg n"
  unfolding idcg_sum by (rule sum_mono2) auto

lemma dcg_nonneg: "0 \<le> dcg_from idx xs rel"
  by (induction idx xs rel rule: dcg_from.induct) (auto simp: gain_nonneg)

lemma ndcg_le_one:
  assumes "distinct retrieved" and "0 \<le> k"
  shows "ndcg_at_k retrieved relevant k \<le> 1"
proof -
  let ?xs = "slice_to k retrieved" and ?n = "nat (min k (int (length relevant)))"
  have "dcg_from 1 ?xs (set relevant) \<le> idcg (card (set ?xs \<inter> set relevant))"
    using dcg_bound [of ?xs 1 "set relevant"] assms by (simp add: slice_to_def idcg_sum)
  also have "card (set ?xs \<inter> set relevant) \<le> nat k"
    using card_mono [of "set ?xs" "set ?xs \<inter> set relevant"] card_length [of ?xs] length_slice_to [OF assms(2), of retrieved]
    by simp
  then have "card (set ?xs \<inter> set relevant) \<le> ?n"
    using card_mono [of "set relevant" "set ?xs \<inter> set relevant"] card_length [of relevant] by simp
  then have "idcg (card (set ?xs \<inter> set relevant)) \<le> idcg ?n" by (rule idcg_mono)
  finally show ?thesis by (simp add: ndcg_at_k_def Let_def)
qed

text \<open>A list that repeats an id can exceed one.\<close>

lemma ndcg_can_exceed_one: "1 < ndcg_at_k [''a'', ''a''] [''a''] 5"
  by (simp add: ndcg_at_k_def slice_to_def idcg_def numeral_eq_Suc)

end
