(* ===== verification/ServiceClients.thy ===== *)
theory ServiceClients
  imports Retry RetrievalNodes Json
begin

text \<open>
  The runtime's clients of the Go backend and of the RAG runtime: \<open>tool_bridge.py\<close>, \<open>tool_layer.py\<close> and
  \<open>rag_runtime_client.py\<close> under \<open>services/agent-runtime/allcallall_agent_runtime/\<close>, on the retry loop of \<open>Retry\<close>.

  The world of a client is a \<open>http_world\<close>: what sending the \<open>k\<close>-th request gives, the clock and the random numbers
  of the retry loop, \<open>json.loads\<close>, \<open>str\<close> of containers and floats, \<open>float\<close> of text and Pydantic's validation of a
  chunk. Staged timeouts and connection pooling belong to httpx. Identifiers are ASCII, floats are finite.
\<close>

section \<open>The world of a client\<close>

text \<open>An \<open>httpx.TimeoutException\<close> or another \<open>HTTPError\<close> with its message, or a status, the text and the text as JSON.\<close>

datatype service_answer =
    TransportTimeout ustring
  | TransportError ustring
  | Answer nat ustring "json option"

text \<open>
  A \<open>ToolBridgeError\<close> or \<open>RAGRuntimeError\<close> with its flag; the \<open>ValueError\<close>, \<open>AttributeError\<close> or
  \<open>ValidationError\<close> of an answer that is not what the client expects; and an interrupt of a sleep.
\<close>

datatype client_error =
    ServiceError ustring bool
  | UnexpectedBody
  | Interrupted

record http_world =
  hw_send :: "nat \<Rightarrow> string \<Rightarrow> json_object \<Rightarrow> (string \<times> string) list \<Rightarrow> service_answer"
  hw_now :: "nat \<Rightarrow> seconds"
  hw_jitter :: "nat \<Rightarrow> seconds \<Rightarrow> seconds"
  hw_random :: "nat \<Rightarrow> rat"
  hw_interrupted :: "nat \<Rightarrow> bool"
  hw_json_loads :: "ustring \<Rightarrow> json option"
  hw_repr :: "json \<Rightarrow> ustring"
  hw_parse_float :: "ustring \<Rightarrow> rat option"
  hw_validate_chunk :: "json_object \<Rightarrow> context_chunk option"

record service_settings =
  sv_base_url :: string
  sv_token :: string
  sv_max_retries :: int
  sv_retry_base_delay :: seconds
  sv_retry_max_delay :: seconds

definition service_url :: "service_settings \<Rightarrow> string" where
  "service_url cfg = rev (dropWhile (\<lambda>c. c = CHR ''/'') (rev (strip_ascii (sv_base_url cfg))))"

definition service_token :: "service_settings \<Rightarrow> string" where
  "service_token cfg = strip_ascii (sv_token cfg)"

definition max_retries :: "service_settings \<Rightarrow> int" where
  "max_retries cfg = max 0 (sv_max_retries cfg)"

section \<open>One request\<close>

definition call_service :: "string \<Rightarrow> service_answer \<Rightarrow> (client_error, json option) call_outcome" where
  "call_service name answer =
     (case answer of
        TransportTimeout e \<Rightarrow> Raised (ServiceError (codes (name @ '' unavailable: '') @ e) True)
      | TransportError e \<Rightarrow> Raised (ServiceError (codes (name @ '' unavailable: '') @ e) True)
      | Answer status body_text body \<Rightarrow>
          (if status = 429 \<or> 500 \<le> status
           then Raised (ServiceError (codes (name @ '' retryable status '') @ show_int (int status)) True)
           else if 400 \<le> status
           then Raised (ServiceError (codes (name @ '' returned '') @ show_int (int status) @ codes '': '' @ take 300 body_text)
             False)
           else Returned body))"

definition transient :: "client_error \<Rightarrow> bool" where
  "transient e = (case e of ServiceError m retryable \<Rightarrow> retryable | _ \<Rightarrow> False)"

definition outcome_result :: "('e, 'a) call_outcome \<Rightarrow> ('e, 'a) result" where
  "outcome_result x = (case x of Returned body \<Rightarrow> Inr body | Raised e \<Rightarrow> Inl e | BaseRaised e \<Rightarrow> Inl e)"

text \<open>The retry loop around a call, with the client's own kind of error; counting the retry never raises.\<close>

definition client_env ::
  "http_world \<Rightarrow> ('e \<Rightarrow> bool) \<Rightarrow> 'e \<Rightarrow> (nat \<Rightarrow> ('e, json option) call_outcome) \<Rightarrow> ('e, json option) retry_env" where
  "client_env w retryable interrupt call =
     \<lparr>func = call, should_retry = retryable, on_retry = Some (\<lambda>e k. HookDone),
      env_now = hw_now w, env_jitter = hw_jitter w, env_random = hw_random w,
      sleep_interrupt = (\<lambda>k. if hw_interrupted w k then Some interrupt else None)\<rparr>"

text \<open>
  With a deadline bound to the request, the retries of this call get a budget; the assertion at the end of the
  loop is never reached and is an interrupt here.
\<close>

definition request_service ::
  "http_world \<Rightarrow> deadline_ctx \<Rightarrow> service_settings \<Rightarrow> ('e \<Rightarrow> bool) \<Rightarrow> 'e \<Rightarrow> (nat \<Rightarrow> ('e, json option) call_outcome)
     \<Rightarrow> ('e, json option) result \<times> retry_event list" where
  "request_service w ctx cfg retryable interrupt call =
     (case with_retry (client_env w retryable interrupt call) (max_retries cfg + 1) (sv_retry_base_delay cfg)
             (sv_retry_max_delay cfg) (current_retry_budget ctx (max_retries cfg + 1)) of
        (r, budget, events) \<Rightarrow>
          (case r of Value body \<Rightarrow> Inr body | Error e \<Rightarrow> Inl e | AssertionFailed \<Rightarrow> Inl interrupt, events))"

section \<open>Chunks of a tool's output\<close>

definition value_str :: "http_world \<Rightarrow> json \<Rightarrow> ustring" where
  "value_str w v = (case v of
       JStr t \<Rightarrow> t | JInt i \<Rightarrow> show_int i | JNull \<Rightarrow> codes ''None''
     | JBool b \<Rightarrow> codes (if b then ''True'' else ''False'') | _ \<Rightarrow> hw_repr w v)"

definition optional_int :: "json \<Rightarrow> int option" where
  "optional_int v = (case v of
       JInt i \<Rightarrow> Some i | JNum x \<Rightarrow> Some (truncate_rat x) | JStr t \<Rightarrow> parse_int t | _ \<Rightarrow> None)"

definition int_or_zero :: "json \<Rightarrow> int" where
  "int_or_zero v = opt_or (optional_int v) 0"

definition float_or_zero :: "http_world \<Rightarrow> json \<Rightarrow> rat" where
  "float_or_zero w v = (case v of
       JInt i \<Rightarrow> of_int i | JNum x \<Rightarrow> x | JStr t \<Rightarrow> opt_or (hw_parse_float w t) 0 | _ \<Rightarrow> 0)"

definition output_chunk :: "http_world \<Rightarrow> json_object \<Rightarrow> context_chunk" where
  "output_chunk w m =
     (let text_at = (\<lambda>k. value_str w (get_or (map_of m) k (jstr '''')));
          id_at = (\<lambda>k. map char_of (text_at k) :: string);
          value_at = (\<lambda>k. get_or (map_of m) k JNull);
          title = get_or (map_of m) ''title'' (jstr '''')
      in \<lparr>ck_chunk_id = id_at ''chunk_id'', ck_source_type = id_at ''source_type'', ck_source_id = id_at ''source_id'',
          ck_source_title = value_str w (get_or (map_of m) ''source_title'' title), ck_title = value_str w title,
          ck_snippet = text_at ''snippet'', ck_score = int_or_zero (value_at ''score''),
          ck_retrieval_mode = id_at ''retrieval_mode'', ck_bm25_rank = int_or_zero (value_at ''bm25_rank''),
          ck_vector_rank = int_or_zero (value_at ''vector_rank''), ck_rrf_score = float_or_zero w (value_at ''rrf_score''),
          ck_bm25_score = float_or_zero w (value_at ''bm25_score''), ck_vector_score = float_or_zero w (value_at ''vector_score''),
          ck_rerank_score = float_or_zero w (value_at ''rerank_score''), ck_rerank_reason = text_at ''rerank_reason'',
          ck_final_rank = int_or_zero (value_at ''final_rank''),
          ck_recording_session_id = optional_int (value_at ''recording_session_id''),
          ck_recording_file_id = optional_int (value_at ''recording_file_id''),
          ck_transcript_segment_id = optional_int (value_at ''transcript_segment_id''),
          ck_start_ms = optional_int (value_at ''start_ms''), ck_end_ms = optional_int (value_at ''end_ms'')\<rparr>)"

definition objects_of :: "json list \<Rightarrow> json_object list" where
  "objects_of js = List.map_filter (\<lambda>j. case j of JObj m \<Rightarrow> Some m | _ \<Rightarrow> None) js"

text \<open>A decoded output that is no object has no \<open>get\<close>.\<close>

definition chunks_from_tool_output :: "http_world \<Rightarrow> ustring \<Rightarrow> (client_error, context_chunk list) result" where
  "chunks_from_tool_output w output_json =
     (if strip output_json = [] then Inr []
      else case hw_json_loads w output_json of
          None \<Rightarrow> Inr []
        | Some (JObj m) \<Rightarrow> (case map_of m ''chunks'' of
              Some (JList js) \<Rightarrow> Inr (map (output_chunk w) (objects_of js)) | _ \<Rightarrow> Inr [])
        | Some _ \<Rightarrow> Inl UnexpectedBody)"

section \<open>The tool bridge\<close>

record tool_observation =
  to_tool_name :: string
  to_input :: json_object
  to_output_json :: ustring
  to_chunks :: "context_chunk list"

definition tool_payload :: "int \<Rightarrow> int \<Rightarrow> string \<Rightarrow> json_object \<Rightarrow> json_object" where
  "tool_payload organization_id user_id tool_name tool_input =
     [(''organization_id'', JInt organization_id), (''user_id'', JInt user_id), (''tool_name'', jstr tool_name),
      (''arguments'', JObj tool_input)]"

definition tool_headers :: "service_settings \<Rightarrow> (string \<times> string) list" where
  "tool_headers cfg = [(''Authorization'', ''Bearer '' @ service_token cfg), (''Content-Type'', ''application/json'')]"

definition tool_bridge_configured :: "service_settings \<Rightarrow> bool" where
  "tool_bridge_configured cfg \<longleftrightarrow> service_url cfg \<noteq> '''' \<and> service_token cfg \<noteq> ''''"

definition observation_of ::
  "http_world \<Rightarrow> string \<Rightarrow> json_object \<Rightarrow> json option \<Rightarrow> (client_error, tool_observation option) result" where
  "observation_of w tool_name tool_input body =
     (case body of
        Some (JObj m) \<Rightarrow>
          (let output_json = value_str w (get_or (map_of m) ''output_json'' (jstr ''''))
           in and_then (chunks_from_tool_output w output_json) (\<lambda>cs. Inr (Some
                \<lparr>to_tool_name = tool_name, to_input = tool_input, to_output_json = output_json, to_chunks = cs\<rparr>)))
      | _ \<Rightarrow> Inl UnexpectedBody)"

definition execute_read_tool ::
  "http_world \<Rightarrow> deadline_ctx \<Rightarrow> service_settings \<Rightarrow> workflow_request \<Rightarrow> string \<Rightarrow> json_object
     \<Rightarrow> (client_error, tool_observation option) result \<times> retry_event list" where
  "execute_read_tool w ctx cfg rq tool_name tool_input =
     (if \<not> tool_bridge_configured cfg then (Inr None, [])
      else case request_service w ctx cfg transient Interrupted (\<lambda>k. call_service ''go tool bridge''
               (hw_send w k (service_url cfg @ ''/api/v1/internal/agent/tools/read'')
                 (tool_payload (rq_organization_id rq) (rq_user_id rq) tool_name tool_input) (tool_headers cfg))) of
          (r, events) \<Rightarrow> (and_then r (observation_of w tool_name tool_input), events))"

text \<open>A write is posted once, without the loop; retrying is the queue's business.\<close>

definition one_call :: "string \<Rightarrow> service_answer \<Rightarrow> (client_error, json option) result" where
  "one_call name answer = outcome_result (call_service name answer)"

definition execute_write_tool ::
  "http_world \<Rightarrow> service_settings \<Rightarrow> int \<Rightarrow> int \<Rightarrow> string \<Rightarrow> json_object \<Rightarrow> (client_error, unit) result" where
  "execute_write_tool w cfg organization_id user_id tool_name tool_input =
     (if \<not> tool_bridge_configured cfg then Inl (ServiceError (codes ''go tool bridge is not configured'') False)
      else and_then (one_call ''go tool bridge'' (hw_send w 1 (service_url cfg @ ''/api/v1/internal/agent/tools/write'')
               (tool_payload organization_id user_id tool_name tool_input) (tool_headers cfg))) (\<lambda>body. Inr ()))"

section \<open>The client of the RAG runtime\<close>

text \<open>\<open>chunk.model_dump(exclude_none=True)\<close>.\<close>

definition opt_member :: "string \<Rightarrow> int option \<Rightarrow> json_object" where
  "opt_member k v = (case v of None \<Rightarrow> [] | Some i \<Rightarrow> [(k, JInt i)])"

definition chunk_dump :: "context_chunk \<Rightarrow> json_object" where
  "chunk_dump c =
     [(''chunk_id'', jstr (ck_chunk_id c)), (''source_type'', jstr (ck_source_type c)), (''source_id'', jstr (ck_source_id c)),
      (''source_title'', JStr (ck_source_title c)), (''title'', JStr (ck_title c)), (''snippet'', JStr (ck_snippet c)),
      (''score'', JInt (ck_score c)), (''retrieval_mode'', jstr (ck_retrieval_mode c)), (''bm25_rank'', JInt (ck_bm25_rank c)),
      (''vector_rank'', JInt (ck_vector_rank c)), (''rrf_score'', JNum (ck_rrf_score c)), (''bm25_score'', JNum (ck_bm25_score c)),
      (''vector_score'', JNum (ck_vector_score c)), (''rerank_score'', JNum (ck_rerank_score c)),
      (''rerank_reason'', JStr (ck_rerank_reason c)), (''final_rank'', JInt (ck_final_rank c))] @
     opt_member ''recording_session_id'' (ck_recording_session_id c) @ opt_member ''recording_file_id'' (ck_recording_file_id c) @
     opt_member ''transcript_segment_id'' (ck_transcript_segment_id c) @ opt_member ''start_ms'' (ck_start_ms c) @
     opt_member ''end_ms'' (ck_end_ms c)"

definition rag_payload :: "workflow_request \<Rightarrow> plan_step \<Rightarrow> retrieval_plan \<Rightarrow> json_object" where
  "rag_payload rq step plan =
     [(''organization_id'', JInt (rq_organization_id rq)), (''user_id'', JInt (rq_user_id rq)),
      (''conversation_id'', JInt (rq_conversation_id rq)), (''query'', JStr (ps_query step)),
      (''source_types'', jstrs (if ps_source_scope step = ''all'' then [] else [ps_source_scope step])),
      (''top_k'', JInt 6), (''max_steps'', JInt 1), (''min_confidence'', JNum (rp_min_confidence plan)),
      (''chunks'', JList (map (\<lambda>c. JObj (chunk_dump c)) (rq_context_chunks rq)))]"

definition usable_citations :: "json \<Rightarrow> json_object list" where
  "usable_citations pack =
     (case pack of
        JObj m \<Rightarrow> (case get_or (map_of m) ''citations'' (JList []) of
            JList js \<Rightarrow> filter (\<lambda>c. truthy (get_or (map_of c) ''source_type'' JNull) \<and> truthy (get_or (map_of c) ''snippet'' JNull))
              (objects_of js)
          | _ \<Rightarrow> [])
      | _ \<Rightarrow> [])"

fun validated :: "http_world \<Rightarrow> json_object list \<Rightarrow> (client_error, context_chunk list) result" where
  "validated w [] = Inr []"
| "validated w (m # ms) =
     (case hw_validate_chunk w m of
        None \<Rightarrow> Inl UnexpectedBody | Some c \<Rightarrow> and_then (validated w ms) (\<lambda>cs. Inr (c # cs)))"

definition rag_observation_of :: "http_world \<Rightarrow> json option \<Rightarrow> (client_error, rag_observation option) result" where
  "rag_observation_of w body =
     (case body of
        Some (JObj raw) \<Rightarrow>
          (let pack = get_or (map_of raw) ''evidence_pack'' (JObj []);
               sufficiency = get_or (map_of raw) ''context_sufficiency'' (JObj []);
               attempts = get_or (map_of raw) ''attempts'' (JList [])
           in and_then (validated w (usable_citations pack)) (\<lambda>cs. Inr (Some
                \<lparr>rag_chunks = cs,
                 rag_confidence = float_or_zero w (case pack of JObj m \<Rightarrow> get_or (map_of m) ''confidence'' JNull | _ \<Rightarrow> JNull),
                 rag_sufficient = (case sufficiency of JObj m \<Rightarrow> truthy (get_or (map_of m) ''sufficient'' JNull) | _ \<Rightarrow> False),
                 rag_attempts = (case attempts of JList xs \<Rightarrow> int (length xs) | _ \<Rightarrow> 0)\<rparr>)))
      | _ \<Rightarrow> Inl UnexpectedBody)"

definition rag_runtime_retrieve ::
  "http_world \<Rightarrow> deadline_ctx \<Rightarrow> service_settings \<Rightarrow> workflow_request \<Rightarrow> plan_step \<Rightarrow> retrieval_plan
     \<Rightarrow> (client_error, rag_observation option) result \<times> retry_event list" where
  "rag_runtime_retrieve w ctx cfg rq step plan =
     (if service_url cfg = '''' then (Inr None, [])
      else case request_service w ctx cfg transient Interrupted (\<lambda>k. call_service ''rag runtime''
               (hw_send w k (service_url cfg @ ''/v1/retrieval/agentic'') (rag_payload rq step plan) [])) of
          (r, events) \<Rightarrow> (and_then r (rag_observation_of w), events))"

section \<open>What a request does\<close>

text \<open>How often the service is asked, and what becomes of the last answer.\<close>

lemma request_service_shape:
  assumes "request_service w ctx cfg retryable interrupt call = (r, events)"
  obtains k where "1 \<le> k" "int k \<le> max_retries cfg + 1" "calls events = [1..<Suc k]"
    "list_all (\<lambda>j. \<exists>e. call j = Raised e \<and> retryable e) [1..<k]"
    "r = outcome_result (call k) \<or> hw_interrupted w k \<and> r = Inl interrupt"
    "get_current_deadline ctx = None \<and> \<not> hw_interrupted w k \<and> (\<exists>e. call k = Raised e \<and> retryable e)
       \<Longrightarrow> int k = max_retries cfg + 1"
proof -
  let ?env = "client_env w retryable interrupt call" and ?n = "max_retries cfg + 1"
  obtain x bud where run: "with_retry ?env ?n (sv_retry_base_delay cfg) (sv_retry_max_delay cfg) (current_retry_budget ctx ?n)
      = (x, bud, events)"
    and r: "r = (case x of Value body \<Rightarrow> Inr body | Error e \<Rightarrow> Inl e | AssertionFailed \<Rightarrow> Inl interrupt)"
    using assms by (auto simp: request_service_def split: prod.splits)
  obtain k where k: "1 \<le> k" "int k \<le> max 1 ?n" "calls events = [1..<Suc k]" "ends_with ?env (run_hook ?env) k x"
    "x \<noteq> AssertionFailed" "list_all (\<lambda>j. \<exists>e. func ?env j = Raised e \<and> should_retry ?env e) [1..<k]"
    using with_retry_shape [OF run] by blast
  have n: "max 1 ?n = ?n" by (simp add: max_retries_def)
  have hook: "run_hook ?env e j = None" for e j by (simp add: run_hook_def client_env_def)
  show ?thesis
  proof (rule that [OF k(1) _ k(3)])
    show "int k \<le> ?n" using k(2) n by simp
    show "list_all (\<lambda>j. \<exists>e. call j = Raised e \<and> retryable e) [1..<k]" using k(6) by (simp add: client_env_def)
    show "r = outcome_result (call k) \<or> hw_interrupted w k \<and> r = Inl interrupt"
      using k(4) unfolding r by (cases "call k") (auto simp: ends_with_def client_env_def run_hook_def outcome_result_def
          split: if_splits)
    assume u: "get_current_deadline ctx = None \<and> \<not> hw_interrupted w k \<and> (\<exists>e. call k = Raised e \<and> retryable e)"
    then obtain e where e: "func ?env k = Raised e" "should_retry ?env e" by (auto simp: client_env_def)
    have "?n \<le> int k"
    proof (rule retry_loop_gives_up [where hook = run_hook and attempt = 0, OF _ _ hook])
      show "retry_loop run_hook ?env ?n (sv_retry_base_delay cfg) (sv_retry_max_delay cfg) 0 None None = (x, bud, events)"
        using run n u by (simp add: with_retry_def current_retry_budget_def max_retries_def)
      show "calls events = [Suc 0..<Suc k]" using k(3) by simp
      show "func ?env k = Raised e" "should_retry ?env e" by (fact e)+
    qed (use k(1) u in \<open>simp_all add: max_retries_def client_env_def\<close>)
    then show "int k = ?n" using k(2) n by simp
  qed
qed

text \<open>Answers that say try again: no connection, too many requests, a server error.\<close>

definition retryable_answer :: "service_answer \<Rightarrow> bool" where
  "retryable_answer a = (case a of Answer status t b \<Rightarrow> status = 429 \<or> 500 \<le> status | _ \<Rightarrow> True)"

lemma raised_transient: "(\<exists>e. call_service name a = Raised e \<and> transient e) \<longleftrightarrow> retryable_answer a"
  by (cases a) (auto simp: call_service_def retryable_answer_def transient_def)

text \<open>
  C35: a read asks again only when that can help. A bridge that is not configured is never asked. Otherwise the
  read tool posts \<open>k\<close> requests, at least one and at most \<open>max_retries + 1\<close>; every answer before the last was a
  failed connection, status 429 or a server error; the result is what the last answer gives, unless the sleep was
  interrupted; and without a deadline the bridge gives up on such an answer only after the last retry.
\<close>

theorem reads_retry_only_transient_faults:
  "case execute_read_tool w ctx cfg rq tool_name tool_input of (r, events) \<Rightarrow>
     if \<not> tool_bridge_configured cfg then r = Inr None \<and> events = []
     else \<exists>k send. send = (\<lambda>j. hw_send w j (service_url cfg @ ''/api/v1/internal/agent/tools/read'')
            (tool_payload (rq_organization_id rq) (rq_user_id rq) tool_name tool_input) (tool_headers cfg)) \<and>
       1 \<le> k \<and> int k \<le> max_retries cfg + 1 \<and> calls events = [1..<Suc k] \<and>
       list_all (\<lambda>j. retryable_answer (send j)) [1..<k] \<and>
       (r = and_then (one_call ''go tool bridge'' (send k)) (observation_of w tool_name tool_input) \<or>
        hw_interrupted w k \<and> r = Inl Interrupted) \<and>
       (if get_current_deadline ctx = None \<and> \<not> hw_interrupted w k \<and> retryable_answer (send k)
        then int k = max_retries cfg + 1 else True)"
proof (cases "tool_bridge_configured cfg")
  case True
  define send where "send = (\<lambda>j. hw_send w j (service_url cfg @ ''/api/v1/internal/agent/tools/read'')
      (tool_payload (rq_organization_id rq) (rq_user_id rq) tool_name tool_input) (tool_headers cfg))"
  let ?call = "\<lambda>k. call_service ''go tool bridge'' (send k)"
  obtain r events where run: "request_service w ctx cfg transient Interrupted ?call = (r, events)" by fastforce
  then have ex: "execute_read_tool w ctx cfg rq tool_name tool_input = (and_then r (observation_of w tool_name tool_input), events)"
    using True by (simp add: execute_read_tool_def send_def)
  show ?thesis
  proof (rule request_service_shape [OF run])
    fix k assume "1 \<le> k" "int k \<le> max_retries cfg + 1" "calls events = [1..<Suc k]"
      "list_all (\<lambda>j. \<exists>e. ?call j = Raised e \<and> transient e) [1..<k]"
      "r = outcome_result (?call k) \<or> hw_interrupted w k \<and> r = Inl Interrupted"
      "get_current_deadline ctx = None \<and> \<not> hw_interrupted w k \<and> (\<exists>e. ?call k = Raised e \<and> transient e)
         \<Longrightarrow> int k = max_retries cfg + 1"
    then show ?thesis
      using True unfolding ex send_def [symmetric] raised_transient
      by (auto simp: one_call_def intro!: exI [of _ k] simp del: upt_Suc)
  qed
qed (simp add: execute_read_tool_def)

end
