(* ===== verification/WriteDelivery.thy ===== *)
theory WriteDelivery
  imports ServiceClients ToolQueueRuns
begin

text \<open>
  How an approved write reaches the Go backend: \<open>_tool_queue_executor\<close> of
  \<open>services/agent-runtime/allcallall_agent_runtime/api/app.py\<close>, the worker of \<open>ToolQueue\<close> with that executor, and
  what a run of the worker may post. The world of a delivery is a function of the claimed task, whose lease tells
  the time.
\<close>

section \<open>The executor\<close>

text \<open>The message of the exception \<open>int\<close> raises is a parameter.\<close>

definition error_text :: "client_error \<Rightarrow> string" where
  "error_text e = (case e of ServiceError m retryable \<Rightarrow> map char_of m | UnexpectedBody \<Rightarrow> '''' | Interrupted \<Rightarrow> '''')"

definition tenant_of :: "json_object \<Rightarrow> string \<Rightarrow> int option" where
  "tenant_of p k = json_int (get_or (map_of p) k (JInt 0))"

definition tool_queue_executor ::
  "(json_object task \<Rightarrow> http_world) \<Rightarrow> service_settings \<Rightarrow> string \<Rightarrow> json_object task \<Rightarrow> string option" where
  "tool_queue_executor world cfg int_error t =
     (case (tenant_of (payload t) ''organization_id'', tenant_of (payload t) ''user_id'') of
        (Some organization_id, Some user_id) \<Rightarrow>
          (case execute_write_tool (world t) cfg organization_id user_id (tool_name t) (payload t) of
             Inr u \<Rightarrow> None | Inl e \<Rightarrow> Some (error_text e))
      | _ \<Rightarrow> Some int_error)"

text \<open>The answer to a delivery is taken for a success below status 400: a redirect as well, which is not followed.\<close>

definition accepted :: "service_answer \<Rightarrow> bool" where
  "accepted a = (case a of Answer code t b \<Rightarrow> code < 400 | _ \<Rightarrow> False)"

lemma executor_succeeds:
  "tool_queue_executor world cfg int_error t = None \<longleftrightarrow>
     (\<exists>org user. tenant_of (payload t) ''organization_id'' = Some org \<and> tenant_of (payload t) ''user_id'' = Some user \<and>
        tool_bridge_configured cfg \<and>
        accepted (hw_send (world t) 1 (service_url cfg @ ''/api/v1/internal/agent/tools/write'')
          (tool_payload org user (tool_name t) (payload t)) (tool_headers cfg)))"
proof -
  have one: "and_then (one_call name a) (\<lambda>body. Inr ()) = Inr () \<longleftrightarrow> accepted a" for name a
    by (cases a) (auto simp: one_call_def outcome_result_def call_service_def accepted_def)
  have none: "(case r of Inr u \<Rightarrow> None | Inl e \<Rightarrow> Some (error_text e)) = None \<longleftrightarrow> r = Inr ()" for r :: "(client_error, unit) result"
    by (cases r) auto
  show ?thesis
    by (auto simp: tool_queue_executor_def none execute_write_tool_def one split: option.splits)
qed

section \<open>Deliveries of a worker\<close>

text \<open>The tasks a worker hands to its executor, in order.\<close>

fun deliveries ::
  "('s, 'p) store_ops \<Rightarrow> queue_config \<Rightarrow> ('p task \<Rightarrow> string option) \<Rightarrow> string \<Rightarrow> seconds
     \<Rightarrow> (bool \<times> seconds) list \<Rightarrow> 's \<Rightarrow> 'p task list" where
  "deliveries ops cfg ex owner vt [] s = []"
| "deliveries ops cfg ex owner vt ((stop, t0) # rounds) s =
     (if stop then []
      else (case fst (claim ops cfg owner t0 vt s) of None \<Rightarrow> [] | Some t \<Rightarrow> [t]) @
        deliveries ops cfg ex owner vt rounds (snd (run_once ops cfg ex owner vt t0 s)))"

text \<open>How often a task may still be delivered.\<close>

definition posts_left :: "'p task \<Rightarrow> nat" where
  "posts_left t =
     (if status t = TaskQueued \<or> status t = TaskProcessing then nat (max 1 (task_max_attempts t - attempts t)) else 0)"

definition acknowledged :: "queue_config \<Rightarrow> ('p task \<Rightarrow> string option) \<Rightarrow> seconds \<Rightarrow> 'p task \<Rightarrow> 'p task" where
  "acknowledged cfg ex t0 t =
     (case ex t of None \<Rightarrow> t\<lparr>status := TaskDone, lease_owner := '''', lease_until := 0\<rparr>
      | Some err \<Rightarrow> failed cfg err t0 t)"

lemma acknowledged_simps [simp]:
  "task_id (acknowledged cfg ex t0 t) = task_id t"
  "status (acknowledged cfg ex t0 t) = TaskDone \<longleftrightarrow> ex t = None"
  by (auto simp: acknowledged_def split: option.split)

lemma mem_get_replaced:
  assumes ok: "mem_ok s" "mem_ok s'" and n: "n < length (mem_all s)" "task_id u = task_id (mem_all s ! n)"
    and all: "mem_all s' = (mem_all s)[n := u]"
  shows "mem_get s' j = (if j = task_id u then Some u else mem_get s j)"
proof -
  have u: "mem_get s' (task_id u) = Some u" using mem_get_after [OF ok(2) all n(1)] by simp
  have "mem_get s' j = mem_get s j" if j: "j \<noteq> task_id u"
  proof (cases "mem_get s j")
    case (Some x)
    then have x: "x \<in> set (mem_all s)" "task_id x = j" using mem.getD [OF ok(1), of j x] by simp_all
    then have "x \<in> set (mem_all s')" using j n unfolding all by (intro member_update) auto
    then show ?thesis using mem.find_id [OF ok(2), of x] x Some by simp
  next
    case None
    have "mem_get s' j \<noteq> Some x" for x
    proof
      assume "mem_get s' j = Some x"
      then have x: "x \<in> set (mem_all s')" "task_id x = j" using mem.getD [OF ok(2), of j x] by simp_all
      then have "x \<in> set (mem_all s)" using j set_update_subset_insert [of "mem_all s" n u] unfolding all by auto
      then show False using mem.find_id [OF ok(1), of x] x None by simp
    qed
    then show ?thesis using None by (cases "mem_get s' j") auto
  qed
  then show ?thesis using u by simp
qed

text \<open>One round of the worker: nothing is due, or one task is delivered and acknowledged.\<close>

lemma worker_round:
  fixes s :: "'p memory_store" and cfg :: queue_config and owner :: string and vt t0 :: seconds
    and ex :: "'p task \<Rightarrow> string option"
  assumes ok: "mem_ok s"
  defines "s' \<equiv> snd (run_once memory_ops cfg ex owner vt t0 s)"
  obtains (idle) "fst (claim memory_ops cfg owner t0 vt s) = None" "s' = s"
  | (deliver) t u where "fst (claim memory_ops cfg owner t0 vt s) = Some t" "mem_get s (task_id t) = Some u"
      "t = lease_to owner t0 vt u" "claimable t0 u" "mem_ok s'"
      "mem_get s' = (mem_get s)(task_id t \<mapsto> acknowledged cfg ex t0 t)"
proof (cases "claim memory_ops cfg owner t0 vt s")
  case (Pair r s1)
  show ?thesis
  proof (cases r)
    case None
    then show ?thesis using idle Pair mem.claim_None [of cfg owner t0 vt s s1] by (simp add: s'_def run_once_def)
  next
    case (Some t)
    obtain n where n: "n < length (mem_all s)" "t = lease_to owner t0 vt (mem_all s ! n)" "claimable t0 (mem_all s ! n)"
      "mem_all s1 = (mem_all s)[n := t]" "mem_ok s1"
      using mem_claim [OF ok, of cfg owner t0 vt t s1] Pair Some by auto
    have get1: "mem_get s1 (task_id t) = Some t" using mem_get_after [OF n(5,4,1)] by simp
    have s': "s' = (case ex t of Some err \<Rightarrow> fail memory_ops cfg (task_id t) err t0 s1 | None \<Rightarrow> complete memory_ops (task_id t) s1)"
      by (simp add: s'_def run_once_def Pair Some split: option.split)
    have "\<exists>m < length (mem_all s1). t = mem_all s1 ! m \<and> mem_all s' = (mem_all s1)[m := acknowledged cfg ex t0 t] \<and> mem_ok s'"
    proof (cases "ex t")
      case None
      show ?thesis
        by (rule mem.complete_Some [OF n(5), of "task_id t" t]) (use get1 None s' in \<open>auto simp: acknowledged_def\<close>)
    next
      case (Some err)
      show ?thesis
        by (rule mem.fail_Some [OF n(5), of "task_id t" t cfg err t0]) (use get1 Some s' in \<open>auto simp: acknowledged_def\<close>)
    qed
    then obtain m where m: "m < length (mem_all s1)" "t = mem_all s1 ! m"
      "mem_all s' = (mem_all s1)[m := acknowledged cfg ex t0 t]" "mem_ok s'" by blast
    have "mem_get s' j = (if j = task_id t then Some (acknowledged cfg ex t0 t) else mem_get s1 j)" for j
      using mem_get_replaced [OF n(5) m(4,1) _ m(3)] m(2) by simp
    moreover have "mem_get s1 j = (if j = task_id t then Some t else mem_get s j)" for j
      using mem_get_replaced [OF ok n(5) n(1) _ n(4)] n(2) by simp
    ultimately have new: "mem_get s' = (mem_get s)(task_id t \<mapsto> acknowledged cfg ex t0 t)" by auto
    have old: "mem_get s (task_id t) = Some (mem_all s ! n)"
      using mem.find_id [OF ok, of "mem_all s ! n"] n(1) unfolding n(2) by simp
    have "fst (claim memory_ops cfg owner t0 vt s) = Some t" using Pair Some by simp
    from deliver [OF this old n(2,3) m(4) new] show ?thesis .
  qed
qed

lemma posts_left_lease: "claimable t0 u \<Longrightarrow> posts_left (lease_to owner t0 vt u) = posts_left u"
  by (auto simp: posts_left_def claimable_def lease_to_def)

lemma posts_left_ack:
  assumes "status t = TaskProcessing"
  shows "posts_left (acknowledged cfg ex t0 t) + 1 \<le> posts_left t"
proof (cases "ex t")
  case None
  then show ?thesis using assms by (simp add: acknowledged_def posts_left_def)
next
  case (Some err)
  then show ?thesis using assms by (auto simp: acknowledged_def posts_left_def failed_def)
qed

definition left_of :: "'p memory_store \<Rightarrow> string \<Rightarrow> nat" where
  "left_of s i = (case mem_get s i of None \<Rightarrow> 0 | Some t \<Rightarrow> posts_left t)"

lemma deliveries_bound:
  "mem_ok s \<Longrightarrow> length (filter (\<lambda>t. task_id t = i) (deliveries memory_ops cfg ex owner vt rounds s)) \<le> left_of s i"
proof (induction rounds arbitrary: s)
  case (Cons r rounds)
  obtain stop t0 where r: "r = (stop, t0)" by fastforce
  let ?s' = "snd (run_once memory_ops cfg ex owner vt t0 s)"
  show ?case
  proof (cases stop)
    case False
    from Cons.prems show ?thesis
    proof (cases rule: worker_round [where cfg = cfg and ex = ex and owner = owner and vt = vt and ?t0.0 = t0])
      case idle
      then show ?thesis using Cons.IH [OF Cons.prems] False by (simp add: r)
    next
      case (deliver t u)
      have u: "task_id u = task_id t" using deliver(3) by simp
      have "posts_left (acknowledged cfg ex t0 t) + 1 \<le> posts_left u"
        using posts_left_ack [of t cfg ex t0] posts_left_lease [OF deliver(4), of owner vt] deliver(3) by simp
      then have "left_of ?s' (task_id t) + 1 \<le> left_of s (task_id t)" using deliver(2,6) by (simp add: left_of_def)
      moreover have "i \<noteq> task_id t \<Longrightarrow> left_of ?s' i = left_of s i" using deliver(6) by (simp add: left_of_def)
      ultimately show ?thesis using Cons.IH [OF deliver(5)] False deliver(1) by (cases "task_id t = i") (auto simp: r)
    qed
  qed (simp add: r)
qed simp

definition is_done :: "'p memory_store \<Rightarrow> string \<Rightarrow> bool" where
  "is_done s i \<longleftrightarrow> (case mem_get s i of None \<Rightarrow> False | Some t \<Rightarrow> status t = TaskDone)"

lemma done_by_delivery:
  "mem_ok s \<Longrightarrow> is_done (worker_run memory_ops cfg ex owner vt rounds s) i \<Longrightarrow>
     is_done s i \<or> (\<exists>t \<in> set (deliveries memory_ops cfg ex owner vt rounds s). task_id t = i \<and> ex t = None)"
proof (induction rounds arbitrary: s)
  case (Cons r rounds)
  obtain stop t0 where r: "r = (stop, t0)" by fastforce
  let ?s' = "snd (run_once memory_ops cfg ex owner vt t0 s)"
  show ?case
  proof (cases stop)
    case False
    then have d: "is_done (worker_run memory_ops cfg ex owner vt rounds ?s') i" using Cons.prems(2) by (simp add: r)
    from Cons.prems(1) show ?thesis
    proof (cases rule: worker_round [where cfg = cfg and ex = ex and owner = owner and vt = vt and ?t0.0 = t0])
      case idle
      then show ?thesis using Cons.IH [OF Cons.prems(1)] d False by (simp add: r)
    next
      case (deliver t u)
      have "is_done ?s' i \<Longrightarrow> is_done s i \<or> task_id t = i \<and> ex t = None"
        using deliver(6) by (simp add: is_done_def split: if_splits)
      then show ?thesis using Cons.IH [OF deliver(5) d] deliver(1) False by (auto simp: r)
    qed
  qed (use Cons.prems in \<open>simp add: r\<close>)
qed simp

text \<open>
  C36: how often an approved write may reach the backend. Over any run of the worker, a task is posted at most as
  often as it has attempts left (a finished or dead task never, an unknown one never), and a task that becomes done
  was posted with the tenant of its payload and answered below status 400.
\<close>

theorem writes_are_posted_within_their_attempts:
  assumes "mem_ok s"
  shows "length (filter (\<lambda>t. task_id t = i)
      (deliveries memory_ops cfg (tool_queue_executor world sv int_error) owner vt rounds s)) \<le> left_of s i \<and>
    {i. is_done (worker_run memory_ops cfg (tool_queue_executor world sv int_error) owner vt rounds s) i} \<subseteq>
      {i. is_done s i} \<union>
      {task_id t | t org user. t \<in> set (deliveries memory_ops cfg (tool_queue_executor world sv int_error) owner vt rounds s) \<and>
         tenant_of (payload t) ''organization_id'' = Some org \<and> tenant_of (payload t) ''user_id'' = Some user \<and>
         accepted (hw_send (world t) 1 (service_url sv @ ''/api/v1/internal/agent/tools/write'')
           (tool_payload org user (tool_name t) (payload t)) (tool_headers sv))}"
proof (intro conjI subsetI)
  show "length (filter (\<lambda>t. task_id t = i)
      (deliveries memory_ops cfg (tool_queue_executor world sv int_error) owner vt rounds s)) \<le> left_of s i"
    by (rule deliveries_bound [OF assms])
  fix j assume "j \<in> {i. is_done (worker_run memory_ops cfg (tool_queue_executor world sv int_error) owner vt rounds s) i}"
  then show "j \<in> {i. is_done s i} \<union>
      {task_id t | t org user. t \<in> set (deliveries memory_ops cfg (tool_queue_executor world sv int_error) owner vt rounds s) \<and>
         tenant_of (payload t) ''organization_id'' = Some org \<and> tenant_of (payload t) ''user_id'' = Some user \<and>
         accepted (hw_send (world t) 1 (service_url sv @ ''/api/v1/internal/agent/tools/write'')
           (tool_payload org user (tool_name t) (payload t)) (tool_headers sv))}"
    using done_by_delivery [OF assms, of cfg "tool_queue_executor world sv int_error" owner vt rounds j]
    unfolding mem_Collect_eq executor_succeeds by blast
qed

text \<open>A backend that is down at first: three posts, and the task is dead.\<close>

definition down_world :: "json_object task \<Rightarrow> http_world" where
  "down_world t = \<lparr>hw_send = (\<lambda>k url p hs. Answer 503 [] None), hw_now = (\<lambda>k. 0), hw_jitter = (\<lambda>k d. 0), hw_random = (\<lambda>k. 0),
     hw_interrupted = (\<lambda>k. False), hw_json_loads = (\<lambda>t. None), hw_repr = (\<lambda>v. []), hw_parse_float = (\<lambda>t. None),
     hw_validate_chunk = (\<lambda>m. None)\<rparr>"

definition go_backend :: service_settings where
  "go_backend = \<lparr>sv_base_url = ''http://go'', sv_token = ''secret'', sv_max_retries = 2, sv_retry_base_delay = 1,
     sv_retry_max_delay = 4\<rparr>"

definition one_write :: "json_object memory_store" where
  "one_write = snd (enqueue memory_ops ''t1'' ''write_markdown_document''
     [(''organization_id'', JInt 7), (''user_id'', JInt 3)] ''k1'' ''agent_writebacks'' 5 '''' 3 empty_store)"

theorem writes_are_posted_within_their_attempts_witness:
  "length (filter (\<lambda>t. task_id t = ''t1'') (deliveries memory_ops (new_queue 4 1) (tool_queue_executor down_world go_backend '''')
     ''w'' 30 [(False, 0), (False, 10), (False, 20), (False, 30), (False, 40)] one_write)) \<le> 3"
proof -
  have "mem_ok one_write" unfolding one_write_def
    by (rule enqueue_ok [OF mem_ok_empty]) (simp add: mem_all_def empty_store_def)
  from writes_are_posted_within_their_attempts [OF this, of "''t1''" "new_queue 4 1" down_world go_backend "''''" "''w''" 30
      "[(False, 0), (False, 10), (False, 20), (False, 30), (False, 40)]"]
  have "length (filter (\<lambda>t. task_id t = ''t1'') (deliveries memory_ops (new_queue 4 1) (tool_queue_executor down_world go_backend '''')
     ''w'' 30 [(False, 0), (False, 10), (False, 20), (False, 30), (False, 40)] one_write)) \<le> left_of one_write ''t1''" by blast
  moreover have "left_of one_write ''t1'' = 3" by code_simp
  ultimately show ?thesis by simp
qed

text \<open>The bound is reached by an executor that always fails.\<close>

lemma three_posts_to_a_backend_that_is_down:
  "map task_id (deliveries memory_ops (new_queue 4 1) (\<lambda>t. Some ''503'')
     ''w'' 30 [(False, 0), (False, 10), (False, 20), (False, 30), (False, 40)] one_write) = [''t1'', ''t1'', ''t1'']"
  by code_simp

end
