(* ===== verification/ToolCatalog.thy ===== *)
theory ToolCatalog
  imports Json "HOL-Library.AList"
begin

text \<open>
  \<open>services/agent-runtime/allcallall_agent_runtime/mcp_tools.py\<close>: MCP tool descriptors, the registry that checks
  them when they are registered, and the canonical tools. A schema is a JSON value; the \<open>ValueError\<close> of a rejected
  tool is a value of \<open>schema_error\<close>. The keys of an object are text, so a required field that is no text has no
  property of its name; one that is a container cannot be put in a set and raises \<open>TypeError\<close>.
\<close>

section \<open>Tools\<close>

record mcp_tool =
  mt_name :: string
  mt_title :: string
  mt_description :: string
  mt_input_schema :: json
  mt_kind :: string
  mt_execution_mode :: string

definition to_mcp :: "mcp_tool \<Rightarrow> json_object" where
  "to_mcp t =
     [(''name'', jstr (mt_name t)), (''description'', jstr (mt_description t)), (''inputSchema'', mt_input_schema t),
      (''annotations'', JObj [(''kind'', jstr (mt_kind t)), (''execution_mode'', jstr (mt_execution_mode t))])]"

section \<open>The registry\<close>

datatype schema_error =
    SchemaNotDict
  | TypeNotObject
  | PropertiesNotObject
  | RequiredNotList
  | UnhashableRequired
  | MissingProperties
  | SynchronousWrite

definition hashable :: "json \<Rightarrow> bool" where
  "hashable j = (case j of JList xs \<Rightarrow> False | JObj m \<Rightarrow> False | _ \<Rightarrow> True)"

definition names_property :: "json_object \<Rightarrow> json \<Rightarrow> bool" where
  "names_property ps j = (j \<in> set (map (\<lambda>kv. jstr (fst kv)) ps))"

definition validate_schema :: "mcp_tool \<Rightarrow> (schema_error, unit) result" where
  "validate_schema t =
     (case mt_input_schema t of
        JObj schema \<Rightarrow>
          (if map_of schema ''type'' \<noteq> Some (jstr ''object'') then Inl TypeNotObject
           else case map_of schema ''properties'' of
               Some (JObj ps) \<Rightarrow>
                 (case get_or (map_of schema) ''required'' (JList []) of
                    JList required \<Rightarrow>
                      (if \<not> list_all hashable required then Inl UnhashableRequired
                       else if \<not> list_all (names_property ps) required then Inl MissingProperties
                       else if mt_kind t = ''write'' \<and> mt_execution_mode t = ''sync'' then Inl SynchronousWrite
                       else Inr ())
                  | _ \<Rightarrow> Inl RequiredNotList)
             | _ \<Rightarrow> Inl PropertiesNotObject)
      | _ \<Rightarrow> Inl SchemaNotDict)"

text \<open>A dictionary keeps the place of a key that is assigned again.\<close>

type_synonym tool_registry = "(string \<times> mcp_tool) list"

definition register_tool :: "mcp_tool \<Rightarrow> tool_registry \<Rightarrow> (schema_error, tool_registry) result" where
  "register_tool t reg = and_then (validate_schema t) (\<lambda>_. Inr (AList.update (mt_name t) t reg))"

definition get_tool :: "string \<Rightarrow> tool_registry \<Rightarrow> mcp_tool option" where
  "get_tool n reg = map_of reg n"

definition tool_list :: "tool_registry \<Rightarrow> json_object list" where
  "tool_list reg = map (\<lambda>(n, t). to_mcp t) reg"

definition read_tools :: "tool_registry \<Rightarrow> mcp_tool list" where
  "read_tools reg = filter (\<lambda>t. mt_kind t = ''read'') (map snd reg)"

definition write_tools :: "tool_registry \<Rightarrow> mcp_tool list" where
  "write_tools reg = filter (\<lambda>t. mt_kind t = ''write'') (map snd reg)"

section \<open>Canonical tools\<close>

definition object_schema :: "(string \<times> string) list \<Rightarrow> string list \<Rightarrow> json" where
  "object_schema properties required =
     JObj [(''type'', jstr ''object''),
       (''properties'', JObj (map (\<lambda>(n, ty). (n, JObj [(''type'', jstr ty)])) properties)), (''required'', jstrs required)]"

definition markdown_write :: mcp_tool where
  "markdown_write =
     \<lparr>mt_name = ''write_markdown_document'', mt_title = ''Write Markdown Document'',
      mt_description = ''Persist a Markdown document (e.g. meeting notes) to the knowledge base.'',
      mt_input_schema = object_schema [(''title'', ''string''), (''content'', ''string''), (''conversation_id'', ''integer'')]
        [''title'', ''content''],
      mt_kind = ''write'', mt_execution_mode = ''async_after_approval''\<rparr>"

definition meeting_transcribe :: mcp_tool where
  "meeting_transcribe =
     \<lparr>mt_name = ''transcribe_meeting_recording'', mt_title = ''Transcribe Meeting Recording'',
      mt_description = ''Trigger asynchronous transcription of a meeting recording file.'',
      mt_input_schema = object_schema [(''recording_file_id'', ''integer''), (''language'', ''string'')] [''recording_file_id''],
      mt_kind = ''write'', mt_execution_mode = ''async_after_approval''\<rparr>"

definition query_context :: mcp_tool where
  "query_context =
     \<lparr>mt_name = ''query_context_chunks'', mt_title = ''Query Context Chunks'',
      mt_description = ''Retrieve relevant context chunks for the conversation (read-only).'',
      mt_input_schema = object_schema [(''query'', ''string'')] [''query''], mt_kind = ''read'', mt_execution_mode = ''sync''\<rparr>"

definition default_registry :: "(schema_error, tool_registry) result" where
  "default_registry =
     and_then (register_tool query_context []) (\<lambda>r1. and_then (register_tool markdown_write r1) (register_tool meeting_transcribe))"

section \<open>What a registry may hold\<close>

definition tool_ok :: "mcp_tool \<Rightarrow> bool" where
  "tool_ok t \<longleftrightarrow>
     (case mt_input_schema t of
        JObj schema \<Rightarrow> map_of schema ''type'' = Some (jstr ''object'') \<and>
          (case (map_of schema ''properties'', get_or (map_of schema) ''required'' (JList [])) of
             (Some (JObj ps), JList required) \<Rightarrow> set required \<subseteq> (\<lambda>kv. jstr (fst kv)) ` set ps | _ \<Rightarrow> False)
      | _ \<Rightarrow> False) \<and>
     (mt_kind t, mt_execution_mode t) \<noteq> (''write'', ''sync'')"

lemma validate_schema_iff: "validate_schema t = Inr () \<longleftrightarrow> tool_ok t"
proof -
  have h: "names_property ps j \<Longrightarrow> hashable j" for ps j by (auto simp: names_property_def hashable_def jstr_def)
  have n: "list_all (names_property ps) js \<longleftrightarrow> set js \<subseteq> (\<lambda>kv. jstr (fst kv)) ` set ps" for ps js
    by (auto simp: list_all_iff names_property_def)
  have "list_all hashable js" if "list_all (names_property ps) js" for ps js
    using that h by (auto simp: list_all_iff)
  then show ?thesis
    unfolding validate_schema_def tool_ok_def n [symmetric]
    by (auto split: json.split option.split)
qed

definition registry_ok :: "tool_registry \<Rightarrow> bool" where
  "registry_ok reg \<longleftrightarrow> distinct (map fst reg) \<and> list_all (\<lambda>(n, t). mt_name t = n \<and> tool_ok t) reg"

lemma register_tool_ok:
  assumes "registry_ok reg" and "register_tool t reg = Inr reg'"
  shows "registry_ok reg'"
proof -
  have v: "tool_ok t" "reg' = AList.update (mt_name t) t reg"
    using assms(2) by (auto simp: register_tool_def and_then_eq_Inr validate_schema_iff)
  have "(n, u) \<in> set (AList.update k x xs) \<Longrightarrow> (n, u) = (k, x) \<or> (n, u) \<in> set xs" for n u k x and xs :: tool_registry
    by (induction xs) (auto split: if_splits)
  then show ?thesis
    using assms(1) v distinct_update [of reg "mt_name t" t] by (fastforce simp: registry_ok_def list_all_iff)
qed

text \<open>Every tool a registry holds passed the check: no write of it runs without approval.\<close>

lemma default_registry_ok: "\<exists>reg. default_registry = Inr reg \<and> registry_ok reg \<and>
    map mt_name (write_tools reg) = [''write_markdown_document'', ''transcribe_meeting_recording'']"
proof -
  have "tool_ok query_context" "tool_ok markdown_write" "tool_ok meeting_transcribe" by code_simp+
  note v = this [THEN iffD2 [OF validate_schema_iff]]
  have r: "register_tool query_context reg = Inr (AList.update (mt_name query_context) query_context reg)"
    "register_tool markdown_write reg = Inr (AList.update (mt_name markdown_write) markdown_write reg)"
    "register_tool meeting_transcribe reg = Inr (AList.update (mt_name meeting_transcribe) meeting_transcribe reg)" for reg
    unfolding register_tool_def v and_then_simps by (rule HOL.refl)+
  obtain reg where reg: "default_registry = Inr reg" by (simp add: default_registry_def r)
  obtain r1 r2 where s: "register_tool query_context [] = Inr r1" "register_tool markdown_write r1 = Inr r2"
    "register_tool meeting_transcribe r2 = Inr reg"
    using reg unfolding default_registry_def and_then_eq_Inr by blast
  have "registry_ok []" by (simp add: registry_ok_def)
  from register_tool_ok [OF register_tool_ok [OF register_tool_ok [OF this s(1)] s(2)] s(3)] have ok: "registry_ok reg" .
  have names: "mt_name query_context = ''query_context_chunks''" "mt_name markdown_write = ''write_markdown_document''"
    "mt_name meeting_transcribe = ''transcribe_meeting_recording''" "mt_kind query_context = ''read''"
    "mt_kind markdown_write = ''write''" "mt_kind meeting_transcribe = ''write''"
    by (simp_all add: query_context_def markdown_write_def meeting_transcribe_def)
  have "reg = [(''query_context_chunks'', query_context), (''write_markdown_document'', markdown_write),
      (''transcribe_meeting_recording'', meeting_transcribe)]"
    using s unfolding r names by auto
  then have w: "map mt_name (write_tools reg) = [''write_markdown_document'', ''transcribe_meeting_recording'']"
    by (simp add: write_tools_def names)
  show ?thesis by (intro exI [of _ reg] conjI reg ok w)
qed

end
