(* ===== verification/Providers.thy ===== *)
theory Providers
  imports ServiceClients SynthesisNodes ContextNodes
begin

text \<open>
  The model providers of \<open>services/agent-runtime/allcallall_agent_runtime/providers/\<close> (the rules provider and the
  OpenAI-compatible one) and the prompt of \<open>prompts/registry.py\<close>. Filling the chat template substitutes the
  variables; \<open>http_world\<close> is the one of \<open>ServiceClients\<close>, and the API key is the token of the settings.
\<close>

section \<open>The prompt\<close>

definition prompt_context :: "ustring list \<Rightarrow> ustring" where
  "prompt_context snippets =
     (let lines = join [10] (map (\<lambda>s. codes ''- '' @ s) (take 8 snippets))
      in if lines \<noteq> [] then lines else codes ''(no grounded context supplied)'')"

definition structured_prompt_for :: "string \<Rightarrow> workflow_request \<Rightarrow> ustring list \<Rightarrow> string \<times> (string \<times> ustring) list" where
  "structured_prompt_for override rq snippets =
     (let version = prompt_version_for override rq
      in (version,
          [(''system'', codes (''You are the AllCallAll Agent runtime. Return compact JSON only with keys '' @
              ''summary, action_items, next_step, risk_flags. Use only the supplied context. '' @
              ''If context is insufficient, say so explicitly.'')),
           (''user'', codes ''prompt_version='' @ codes version @ [10] @ codes ''preset='' @ codes (rq_preset rq) @ [10] @
              codes ''goal='' @ rq_goal rq @ [10] @ codes ''context:'' @ [10] @ prompt_context snippets @ [10] @
              codes ''Do not invent facts. Keep citations and write proposals approval-aware.'')]))"

section \<open>The OpenAI-compatible provider\<close>

record provider_synthesis = synthesis +
  sy_risk_flags :: "ustring list"

datatype provider_error =
    ProviderError string ustring bool
  | ProviderBadBody
  | ProviderInterrupted

record openai_settings =
  oa_service :: service_settings
  oa_model :: string
  oa_strict :: bool

definition openai_model :: "openai_settings \<Rightarrow> string" where
  "openai_model cfg = strip_ascii (oa_model cfg)"

definition openai_usable :: "openai_settings \<Rightarrow> bool" where
  "openai_usable cfg \<longleftrightarrow> service_url (oa_service cfg) \<noteq> '''' \<and> openai_model cfg \<noteq> ''''"

definition new_openai_provider :: "openai_settings \<Rightarrow> (provider_error, openai_settings) result" where
  "new_openai_provider cfg =
     (if \<not> openai_usable cfg \<and> oa_strict cfg
      then Inl (ProviderError ''configuration''
        (codes ''PY_AGENT_OPENAI_BASE_URL and PY_AGENT_OPENAI_MODEL are required for openai_compatible provider'') False)
      else Inr cfg)"

definition openai_payload :: "openai_settings \<Rightarrow> (string \<times> ustring) list \<Rightarrow> json_object" where
  "openai_payload cfg prompt =
     [(''model'', jstr (openai_model cfg)),
      (''messages'', JList (map (\<lambda>(r, t). JObj [(''role'', jstr r), (''content'', JStr t)]) prompt)),
      (''temperature'', JNum (2 / 10)), (''response_format'', JObj [(''type'', jstr ''json_object'')])]"

definition openai_headers :: "openai_settings \<Rightarrow> (string \<times> string) list" where
  "openai_headers cfg =
     (''Content-Type'', ''application/json'') #
     (if service_token (oa_service cfg) \<noteq> '''' then [(''Authorization'', ''Bearer '' @ service_token (oa_service cfg))] else [])"

definition call_openai :: "service_answer \<Rightarrow> (provider_error, json option) call_outcome" where
  "call_openai answer =
     (case answer of
        TransportTimeout e \<Rightarrow> Raised (ProviderError ''timeout'' (codes ''openai compatible provider timed out: '' @ e) True)
      | TransportError e \<Rightarrow> Raised (ProviderError ''network'' (codes ''openai compatible provider unavailable: '' @ e) True)
      | Answer status body_text body \<Rightarrow>
          (if status = 401 \<or> status = 403
           then Raised (ProviderError ''authentication'' (codes ''openai compatible provider authentication failed'') False)
           else if status = 429 \<or> 500 \<le> status
           then Raised (ProviderError ''retryable_http'' (codes ''openai compatible provider retryable status '' @ show_int (int status)) True)
           else if 400 \<le> status
           then Raised (ProviderError ''request''
             (codes ''openai compatible provider failed with status '' @ show_int (int status) @ codes '': '' @ take 300 body_text) False)
           else Returned body))"

definition provider_retryable :: "provider_error \<Rightarrow> bool" where
  "provider_retryable e = (case e of ProviderError kind m retryable \<Rightarrow> retryable | _ \<Rightarrow> False)"

definition decode_error :: "string \<Rightarrow> provider_error" where
  "decode_error m = ProviderError ''decode'' (codes (''openai compatible provider '' @ m)) False"

definition extract_chat_content :: "json_object \<Rightarrow> (provider_error, ustring) result" where
  "extract_chat_content payload =
     (case map_of payload ''choices'' of
        Some (JList (first # rest)) \<Rightarrow>
          (case first of
             JObj choice \<Rightarrow>
               (case map_of choice ''message'' of
                  Some (JObj message) \<Rightarrow>
                    (case map_of message ''content'' of
                       Some (JStr reply) \<Rightarrow> Inr reply
                     | _ \<Rightarrow> Inl (decode_error ''content is invalid''))
                | _ \<Rightarrow> Inl (decode_error ''message is invalid''))
           | _ \<Rightarrow> Inl (decode_error ''choice is invalid''))
      | _ \<Rightarrow> Inl (decode_error ''response has no choices''))"

definition clean_string_list :: "http_world \<Rightarrow> json option \<Rightarrow> ustring list" where
  "clean_string_list w v =
     (case v of Some (JList xs) \<Rightarrow> filter (\<lambda>t. t \<noteq> []) (map (\<lambda>x. strip (value_str w x)) xs) | _ \<Rightarrow> [])"

definition synthesis_of :: "http_world \<Rightarrow> ustring \<Rightarrow> (provider_error, provider_synthesis option) result" where
  "synthesis_of w reply =
     (case hw_json_loads w reply of
        None \<Rightarrow> Inl (decode_error ''returned non-json content'')
      | Some (JObj raw) \<Rightarrow> Inr (Some
          \<lparr>sy_summary = strip (value_str w (get_or (map_of raw) ''summary'' (jstr ''''))),
           sy_action_items = clean_string_list w (map_of raw ''action_items''),
           sy_next_step = strip (value_str w (get_or (map_of raw) ''next_step'' (jstr ''''))),
           sy_risk_flags = clean_string_list w (map_of raw ''risk_flags'')\<rparr>)
      | Some _ \<Rightarrow> Inl ProviderBadBody)"

definition synthesize_openai ::
  "http_world \<Rightarrow> deadline_ctx \<Rightarrow> openai_settings \<Rightarrow> string \<Rightarrow> workflow_request \<Rightarrow> ustring list
     \<Rightarrow> (provider_error, provider_synthesis option) result \<times> retry_event list" where
  "synthesize_openai w ctx cfg override rq snippets =
     (if \<not> openai_usable cfg then (Inr None, [])
      else case request_service w ctx (oa_service cfg) provider_retryable ProviderInterrupted (\<lambda>k. call_openai
               (hw_send w k (service_url (oa_service cfg) @ ''/chat/completions'')
                 (openai_payload cfg (snd (structured_prompt_for override rq snippets))) (openai_headers cfg))) of
          (r, events) \<Rightarrow>
            (and_then r (\<lambda>body. case body of
                 Some (JObj m) \<Rightarrow> and_then (extract_chat_content m) (synthesis_of w) | _ \<Rightarrow> Inl ProviderBadBody), events))"

section \<open>Choosing a provider\<close>

definition lower_ascii :: "string \<Rightarrow> string" where
  "lower_ascii s = map char_of (to_lower (codes s))"

datatype llm_provider = RulesProvider | OpenAIProvider openai_settings

definition create_provider :: "string \<Rightarrow> openai_settings \<Rightarrow> (provider_error, llm_provider) result" where
  "create_provider name cfg =
     (if lower_ascii name = ''openai_compatible''
      then and_then (new_openai_provider cfg) (\<lambda>p. Inr (OpenAIProvider p)) else Inr RulesProvider)"

definition provider_synthesize ::
  "http_world \<Rightarrow> deadline_ctx \<Rightarrow> string \<Rightarrow> llm_provider \<Rightarrow> workflow_request \<Rightarrow> ustring list
     \<Rightarrow> (provider_error, provider_synthesis option) result \<times> retry_event list" where
  "provider_synthesize w ctx override p rq snippets =
     (case p of RulesProvider \<Rightarrow> (Inr None, []) | OpenAIProvider cfg \<Rightarrow> synthesize_openai w ctx cfg override rq snippets)"

section \<open>What a provider run is\<close>

lemma call_openai_retryable:
  "(\<exists>e. call_openai a = Raised e \<and> provider_retryable e) \<longleftrightarrow> retryable_answer a"
  by (cases a) (auto simp: call_openai_def retryable_answer_def provider_retryable_def)

text \<open>The kinds of error, and what each says of the answer.\<close>

lemma call_openai_kinds:
  assumes "call_openai a = Raised (ProviderError kind m retryable)"
  shows "kind \<in> {''timeout'', ''network'', ''retryable_http''} \<longleftrightarrow> retryable"
    and "kind = ''authentication'' \<longleftrightarrow> (case a of Answer status t b \<Rightarrow> status \<in> {401, 403} | _ \<Rightarrow> False)"
  using assms by (auto simp: call_openai_def split: service_answer.splits if_splits)

lemma decode_error_final [simp]: "\<not> provider_retryable (decode_error m)"
  by (simp add: decode_error_def provider_retryable_def)

lemma extract_chat_content_error: "extract_chat_content p = Inl e \<Longrightarrow> \<not> provider_retryable e"
  by (auto simp: extract_chat_content_def split: option.splits json.splits list.splits)

text \<open>
  The provider is asked again on transient faults only, at most \<open>max_retries\<close> times, and without a deadline it gives up
  on one only after the last retry; what the harness sees is made of the last answer.
\<close>

lemma provider_asks_again_on_transient_faults:
  assumes "synthesize_openai w ctx cfg override rq snippets = (r, events)" and "openai_usable cfg"
  obtains k where "1 \<le> k" "int k \<le> max_retries (oa_service cfg) + 1" "calls events = [1..<Suc k]"
    "list_all (\<lambda>j. retryable_answer (hw_send w j (service_url (oa_service cfg) @ ''/chat/completions'')
       (openai_payload cfg (snd (structured_prompt_for override rq snippets))) (openai_headers cfg))) [1..<k]"
proof -
  let ?send = "\<lambda>k. hw_send w k (service_url (oa_service cfg) @ ''/chat/completions'')
       (openai_payload cfg (snd (structured_prompt_for override rq snippets))) (openai_headers cfg)"
  obtain x where run: "request_service w ctx (oa_service cfg) provider_retryable ProviderInterrupted (\<lambda>k. call_openai (?send k))
      = (x, events)"
    using assms by (auto simp: synthesize_openai_def split: prod.splits)
  show ?thesis
    by (rule request_service_shape [OF run]) (rule that, auto simp: call_openai_retryable simp del: upt_Suc)
qed

end
