(* ===== verification/Operations.thy ===== *)
theory Operations
  imports Text Helpers "HOL-Library.AList"
begin

text \<open>
  What surrounds the runtime, under \<open>services/agent-runtime/allcallall_agent_runtime/\<close>: the bearer check of
  \<open>api_auth.py\<close>, the validation and the derived values of \<open>config.py\<close>, the choice of the checkpoint store
  (\<open>factory.py\<close>, \<open>checkpoint/store.py\<close>), the client bundle of \<open>clients.py\<close> and the legacy counters of \<open>metrics.py\<close>.
  The Prometheus client library renders its own registry: its text is an argument.
\<close>

section \<open>Authentication\<close>

datatype auth_outcome =
    Allowed
  | Unauthorized string
  | AuthTypeError

definition words_of :: "ustring \<Rightarrow> ustring list" where
  "words_of s = filter (\<lambda>w. w \<noteq> []) (split_runs is_space s)"

text \<open>\<open>hmac.compare_digest\<close> on text takes ASCII only.\<close>

definition compare_digest :: "ustring \<Rightarrow> ustring \<Rightarrow> bool option" where
  "compare_digest a b = (if list_all (\<lambda>c. c < 128) a \<and> list_all (\<lambda>c. c < 128) b then Some (a = b) else None)"

text \<open>The state is the module's guard of the warning; a missing header is \<^const>\<open>None\<close>.\<close>

definition require_auth :: "ustring \<Rightarrow> ustring option \<Rightarrow> bool \<Rightarrow> bool \<times> auth_outcome" where
  "require_auth api_token authorization warned =
     (if api_token = [] then (True, Allowed)
      else (warned,
        (case authorization of
           None \<Rightarrow> Unauthorized ''Missing Authorization header''
         | Some h \<Rightarrow>
             (if h = [] then Unauthorized ''Missing Authorization header''
              else (case words_of h of
                  [scheme, token] \<Rightarrow>
                    (if to_lower scheme \<noteq> codes ''bearer'' \<or> token = [] then Unauthorized ''Invalid Authorization header''
                     else (case compare_digest token api_token of
                         None \<Rightarrow> AuthTypeError
                       | Some same \<Rightarrow> if same then Allowed else Unauthorized ''Invalid token''))
                | _ \<Rightarrow> Unauthorized ''Invalid Authorization header'')))))"

section \<open>Configuration\<close>

record runtime_settings =
  cf_http_max_connections :: int
  cf_http_max_keepalive_connections :: int
  cf_http_keepalive_expiry :: rat
  cf_http_connect_timeout :: rat
  cf_http_read_timeout :: rat
  cf_http_write_timeout :: rat
  cf_http_pool_timeout :: rat
  cf_checkpoint_store :: string
  cf_checkpoint_mysql_enabled :: bool
  cf_checkpoint_mysql_dsn :: string
  cf_checkpoint_mysql_pool_size :: int
  cf_checkpoint_sqlite_path :: string
  cf_deployment_mode :: string
  cf_enable_tool_queue :: bool
  cf_max_active_runs :: int

datatype config_error =
    NonPositiveHttpSetting
  | KeepaliveAboveConnections
  | QueueInMultiReplica
  | MissingDsn

definition validate_http_pool :: "runtime_settings \<Rightarrow> (config_error, runtime_settings) result" where
  "validate_http_pool c =
     (if list_ex (\<lambda>v. v \<le> 0)
          [of_int (cf_http_max_connections c), of_int (cf_http_max_keepalive_connections c), cf_http_keepalive_expiry c,
           cf_http_connect_timeout c, cf_http_read_timeout c, cf_http_write_timeout c, cf_http_pool_timeout c]
      then Inl NonPositiveHttpSetting
      else if cf_http_max_connections c < cf_http_max_keepalive_connections c then Inl KeepaliveAboveConnections
      else Inr c)"

definition validate_tool_queue_deployment :: "runtime_settings \<Rightarrow> (config_error, runtime_settings) result" where
  "validate_tool_queue_deployment c =
     (if cf_enable_tool_queue c \<and> cf_deployment_mode c = ''multi_replica'' then Inl QueueInMultiReplica else Inr c)"

text \<open>The settings are built by both validators, in the order of their declaration.\<close>

definition build_settings :: "runtime_settings \<Rightarrow> (config_error, runtime_settings) result" where
  "build_settings c = and_then (validate_http_pool c) validate_tool_queue_deployment"

text \<open>At start-up the second check is made again, because fields can be assigned.\<close>

definition validate_runtime_config :: "runtime_settings \<Rightarrow> (config_error, unit) result" where
  "validate_runtime_config c =
     (if cf_enable_tool_queue c \<and> cf_deployment_mode c = ''multi_replica'' then Inl QueueInMultiReplica else Inr ())"

definition effective_max_active_runs :: "runtime_settings \<Rightarrow> int" where
  "effective_max_active_runs c =
     (if cf_checkpoint_mysql_enabled c \<and> 0 < cf_checkpoint_mysql_pool_size c \<and>
         cf_checkpoint_mysql_pool_size c < cf_max_active_runs c
      then cf_checkpoint_mysql_pool_size c else cf_max_active_runs c)"

section \<open>The checkpoint store\<close>

datatype checkpoint_store =
    NullStore
  | MySQLStore string
  | SQLiteStore string
  | MemoryStore

fun store_kind :: "checkpoint_store \<Rightarrow> string" where
  "store_kind NullStore = ''none''"
| "store_kind (MySQLStore dsn) = ''mysql''"
| "store_kind (SQLiteStore path) = ''sqlite''"
| "store_kind MemoryStore = ''memory''"

definition new_mysql_store :: "string \<Rightarrow> (config_error, checkpoint_store) result" where
  "new_mysql_store dsn = (if strip_ascii dsn = '''' then Inl MissingDsn else Inr (MySQLStore dsn))"

definition store_name :: "runtime_settings \<Rightarrow> string" where
  "store_name c = map char_of (to_lower (codes (strip_ascii (cf_checkpoint_store c))))"

definition build_checkpoint_store :: "runtime_settings \<Rightarrow> (config_error, checkpoint_store) result" where
  "build_checkpoint_store c =
     (let name = store_name c
      in if name = ''mysql'' \<or> name = '''' \<and> cf_checkpoint_mysql_enabled c then new_mysql_store (cf_checkpoint_mysql_dsn c)
         else if name = ''sqlite''
         then Inr (SQLiteStore (if cf_checkpoint_sqlite_path c \<noteq> '''' then cf_checkpoint_sqlite_path c else '':memory:''))
         else if name = ''memory'' then Inr MemoryStore else Inr NullStore)"

definition mysql_pool_size :: "runtime_settings \<Rightarrow> int" where
  "mysql_pool_size c = max 1 (cf_checkpoint_mysql_pool_size c)"

section \<open>The client bundle\<close>

text \<open>The HTTP pool the bundle owns, if it built one; the world counts how often a pool is closed.\<close>

record client_bundle =
  rb_owned_http :: "nat option"
  rb_closed :: bool

definition build_runtime_clients :: "nat option \<Rightarrow> nat \<Rightarrow> client_bundle" where
  "build_runtime_clients injected fresh =
     \<lparr>rb_owned_http = (case injected of None \<Rightarrow> Some fresh | Some h \<Rightarrow> None), rb_closed = False\<rparr>"

definition close_bundle :: "client_bundle \<Rightarrow> nat list \<Rightarrow> client_bundle \<times> nat list" where
  "close_bundle b gone =
     (if rb_closed b then (b, gone)
      else case rb_owned_http b of
          None \<Rightarrow> (b\<lparr>rb_closed := True\<rparr>, gone)
        | Some h \<Rightarrow> (b\<lparr>rb_closed := True, rb_owned_http := None\<rparr>, gone @ [h]))"

section \<open>Legacy counters\<close>

record legacy_counter =
  lc_name :: string
  lc_description :: string
  lc_value :: int

type_synonym metrics_registry = "(string \<times> legacy_counter) list"

definition registry_counter :: "string \<Rightarrow> string \<Rightarrow> metrics_registry \<Rightarrow> metrics_registry" where
  "registry_counter name description reg =
     (case map_of reg name of
        None \<Rightarrow> reg @ [(name, \<lparr>lc_name = name, lc_description = description, lc_value = 0\<rparr>)]
      | Some c \<Rightarrow> reg)"

definition counter_inc :: "string \<Rightarrow> string \<Rightarrow> int \<Rightarrow> metrics_registry \<Rightarrow> metrics_registry" where
  "counter_inc name description amount reg =
     (let reg' = registry_counter name description reg
      in case map_of reg' name of
           None \<Rightarrow> reg' | Some c \<Rightarrow> AList.update name (c\<lparr>lc_value := lc_value c + amount\<rparr>) reg')"

definition is_prefix_of :: "string \<Rightarrow> string \<Rightarrow> bool" where
  "is_prefix_of p s \<longleftrightarrow> take (length p) s = p"

definition render_counter :: "legacy_counter \<Rightarrow> ustring" where
  "render_counter c =
     (if is_prefix_of ''agent_runtime_'' (lc_name c) then []
      else (if lc_description c \<noteq> ''''
            then codes (''# HELP '' @ lc_name c @ '' '' @ lc_description c) @ [10] @
              codes (''# TYPE '' @ lc_name c @ '' counter'') @ [10] else []) @
        codes (lc_name c @ '' '') @ show_int (lc_value c) @ [10])"

definition render_prometheus :: "ustring \<Rightarrow> metrics_registry \<Rightarrow> ustring" where
  "render_prometheus standard reg = standard @ concat (map (render_counter \<circ> snd) reg)"

section \<open>What they promise\<close>

text \<open>With a token configured a request passes exactly with the scheme and that token, and nothing else.\<close>

lemma auth_allows:
  assumes "api_token \<noteq> []"
  shows "snd (require_auth api_token h warned) = Allowed \<longleftrightarrow>
    (\<exists>t scheme. h = Some t \<and> words_of t = [scheme, api_token] \<and> to_lower scheme = codes ''bearer'' \<and>
       list_all (\<lambda>c. c < 128) api_token)"
proof -
  have w: "words_of [] = []" by (simp add: words_of_def)
  show ?thesis
    using assms by (auto simp: require_auth_def compare_digest_def w split: option.splits list.splits if_splits)
qed

text \<open>A token with white space in it can never be presented, and one outside ASCII never compares: nobody gets in.\<close>

lemma split_runs_no_sep: "w \<in> set (split_runs P s) \<Longrightarrow> list_all (\<lambda>c. \<not> P c) w"
  by (induction P s arbitrary: w rule: split_runs.induct) (auto split: if_splits list.splits)

lemma unusable_token:
  assumes "\<not> list_all (\<lambda>c. \<not> is_space c \<and> c < 128) api_token"
  shows "snd (require_auth api_token h warned) \<noteq> Allowed"
proof -
  have "api_token \<noteq> []" using assms by auto
  moreover have "words_of t \<noteq> [scheme, api_token]" if "list_all (\<lambda>c. c < 128) api_token" for t scheme
  proof
    assume "words_of t = [scheme, api_token]"
    then have "api_token \<in> set (words_of t)" by simp
    then have "list_all (\<lambda>c. \<not> is_space c) api_token"
      using split_runs_no_sep [of api_token is_space t] by (simp add: words_of_def)
    then show False using assms that by (simp add: list_all_iff)
  qed
  ultimately show ?thesis by (auto simp: auth_allows)
qed

text \<open>Every legacy counter of the runtime has a name with the prefix that is left out.\<close>

lemma prefixed_counters_are_not_rendered:
  "list_all (\<lambda>(n, c). is_prefix_of ''agent_runtime_'' (lc_name c)) reg \<Longrightarrow> render_prometheus standard reg = standard"
proof -
  have hidden: "is_prefix_of ''agent_runtime_'' (lc_name c) \<Longrightarrow> render_counter c = []" for c
    by (simp only: render_counter_def if_True)
  assume "list_all (\<lambda>(n, c). is_prefix_of ''agent_runtime_'' (lc_name c)) reg"
  then have "concat (map (render_counter \<circ> snd) reg) = []" by (induction reg) (auto simp: hidden simp del: concat_eq_Nil_conv)
  then show ?thesis by (simp only: render_prometheus_def append_Nil2)
qed

text \<open>An owned pool is closed once, however often the bundle is; an injected one never.\<close>

lemma close_bundle_once:
  "close_bundle (fst (close_bundle b gone)) (snd (close_bundle b gone)) = close_bundle b gone"
  by (auto simp: close_bundle_def split: option.splits)

lemma close_bundle_injected: "snd (close_bundle (build_runtime_clients (Some h) fresh) gone) = gone"
  by (simp add: close_bundle_def build_runtime_clients_def)

definition mysql_by_name :: runtime_settings where
  "mysql_by_name =
     \<lparr>cf_http_max_connections = 20, cf_http_max_keepalive_connections = 10, cf_http_keepalive_expiry = 30,
      cf_http_connect_timeout = 5, cf_http_read_timeout = 30, cf_http_write_timeout = 10, cf_http_pool_timeout = 10,
      cf_checkpoint_store = ''mysql'', cf_checkpoint_mysql_enabled = False, cf_checkpoint_mysql_dsn = ''mysql://db/agent'',
      cf_checkpoint_mysql_pool_size = 4, cf_checkpoint_sqlite_path = '':memory:'', cf_deployment_mode = ''multi_replica'',
      cf_enable_tool_queue = False, cf_max_active_runs = 16\<rparr>"

text \<open>
  How many runs may be active when checkpoints go to MySQL. If the switch \<open>checkpoint_mysql_enabled\<close> is on and the
  pool has a size, the admitted runs never exceed the connections of the pool. But MySQL can also be chosen by name, and
  then the switch decides alone: valid settings choose the MySQL store and admit four times as many runs as the pool has
  connections.
\<close>

theorem pool_bounds_runs_only_behind_its_switch:
  "{c. cf_checkpoint_mysql_enabled c \<and> 0 < cf_checkpoint_mysql_pool_size c}
     \<subseteq> {c. effective_max_active_runs c \<le> mysql_pool_size c} \<and>
   build_settings mysql_by_name = Inr mysql_by_name \<and> validate_runtime_config mysql_by_name = Inr () \<and>
   build_checkpoint_store mysql_by_name = Inr (MySQLStore ''mysql://db/agent'') \<and>
   effective_max_active_runs mysql_by_name = 4 * mysql_pool_size mysql_by_name"
proof (intro conjI)
  show "{c. cf_checkpoint_mysql_enabled c \<and> 0 < cf_checkpoint_mysql_pool_size c}
     \<subseteq> {c. effective_max_active_runs c \<le> mysql_pool_size c}"
    by (auto simp: effective_max_active_runs_def mysql_pool_size_def)
  show "build_settings mysql_by_name = Inr mysql_by_name"
    by (simp add: build_settings_def validate_http_pool_def validate_tool_queue_deployment_def mysql_by_name_def)
  show "validate_runtime_config mysql_by_name = Inr ()"
    by (simp add: validate_runtime_config_def mysql_by_name_def)
  have "store_name mysql_by_name = ''mysql''"
    by (simp add: store_name_def mysql_by_name_def strip_ascii_def strip_def is_space_def codes_def
        to_lower_def lower_code_def) code_simp
  moreover have "strip_ascii ''mysql://db/agent'' \<noteq> ''''"
    by (simp add: strip_ascii_def strip_def is_space_def codes_def)
  ultimately show "build_checkpoint_store mysql_by_name = Inr (MySQLStore ''mysql://db/agent'')"
    by (simp add: build_checkpoint_store_def new_mysql_store_def) (simp add: mysql_by_name_def)
  show "effective_max_active_runs mysql_by_name = 4 * mysql_pool_size mysql_by_name"
    by (simp add: effective_max_active_runs_def mysql_pool_size_def mysql_by_name_def)
qed

end
