(* ===== verification/Lifecycle.thy ===== *)
theory Lifecycle
  imports Providers Operations
begin

text \<open>
  The life of the application, under \<open>services/agent-runtime/allcallall_agent_runtime/\<close>: the lifespan of
  \<open>api/app.py\<close> with the process-wide executor and harness of \<open>orchestration/harness.py\<close>, the constructor of the harness
  and \<open>build_agent_harness\<close> of \<open>factory.py\<close>. Thread pools, HTTP pools and worker threads are numbered; the state of the
  process says which are live. The connections a checkpoint store opens for itself when the graph is first built are
  not among these resources (nothing closes them at teardown). The double-checked locks make each accessor one atomic step (\<open>LazyInit\<close> takes
  such an accessor apart).
\<close>

section \<open>The process\<close>

record harness_ref =
  hr_checkpoint_store :: checkpoint_store
  hr_http :: "nat option"
  hr_uses_queue :: bool

record process_state =
  ps_next :: nat
  ps_invoke_executor :: "nat option"
  ps_live_executors :: "(nat \<times> int) list"
  ps_default_harness :: "harness_ref option"
  ps_lifespan_clients :: "client_bundle option"
  ps_open_pools :: "nat list"
  ps_workers :: "(nat \<times> bool) list"

text \<open>A worker is listed with whether it was told to stop.\<close>

definition new_process :: process_state where
  "new_process = \<lparr>ps_next = 0, ps_invoke_executor = None, ps_live_executors = [], ps_default_harness = None,
     ps_lifespan_clients = None, ps_open_pools = [], ps_workers = []\<rparr>"

datatype lifespan_error =
    ConfigError config_error
  | ProviderFailure provider_error
  | NoWorkers

section \<open>The executor\<close>

text \<open>\<open>ThreadPoolExecutor\<close> refuses a size that is not positive.\<close>

definition new_executor :: "int \<Rightarrow> process_state \<Rightarrow> (lifespan_error, nat) result \<times> process_state" where
  "new_executor workers s =
     (if workers \<le> 0 then (Inl NoWorkers, s)
      else (Inr (ps_next s), s\<lparr>ps_next := ps_next s + 1, ps_live_executors := ps_live_executors s @ [(ps_next s, workers)]\<rparr>))"

definition set_invoke_executor :: "nat \<Rightarrow> process_state \<Rightarrow> process_state" where
  "set_invoke_executor e s = s\<lparr>ps_invoke_executor := Some e\<rparr>"

definition get_invoke_executor :: "runtime_settings \<Rightarrow> process_state \<Rightarrow> (lifespan_error, nat) result \<times> process_state" where
  "get_invoke_executor c s =
     (case ps_invoke_executor s of
        Some e \<Rightarrow> (Inr e, s)
      | None \<Rightarrow>
          (case new_executor (effective_max_active_runs c) s of
             (Inl err, s') \<Rightarrow> (Inl err, s')
           | (Inr e, s') \<Rightarrow> (Inr e, set_invoke_executor e s')))"

definition shutdown_invoke_executor :: "process_state \<Rightarrow> process_state" where
  "shutdown_invoke_executor s =
     (case ps_invoke_executor s of
        None \<Rightarrow> s
      | Some e \<Rightarrow> s\<lparr>ps_live_executors := filter (\<lambda>x. fst x \<noteq> e) (ps_live_executors s), ps_invoke_executor := None\<rparr>)"

section \<open>The harness\<close>

text \<open>The constructor: the checkpoint store is built when none is given, and the queue mode is checked again.\<close>

definition new_harness ::
  "runtime_settings \<Rightarrow> checkpoint_store option \<Rightarrow> nat option \<Rightarrow> (lifespan_error, harness_ref) result" where
  "new_harness c store http =
     (case (case store of Some k \<Rightarrow> Inr k | None \<Rightarrow> build_checkpoint_store c) of
        Inl e \<Rightarrow> Inl (ConfigError e)
      | Inr k \<Rightarrow>
          (case validate_runtime_config c of
             Inl e \<Rightarrow> Inl (ConfigError e)
           | Inr u \<Rightarrow> Inr \<lparr>hr_checkpoint_store = k, hr_http = http, hr_uses_queue = cf_enable_tool_queue c\<rparr>))"

definition build_agent_harness :: "runtime_settings \<Rightarrow> nat option \<Rightarrow> (lifespan_error, harness_ref) result" where
  "build_agent_harness c http =
     (case build_checkpoint_store c of Inl e \<Rightarrow> Inl (ConfigError e) | Inr k \<Rightarrow> new_harness c (Some k) http)"

definition set_harness :: "harness_ref \<Rightarrow> process_state \<Rightarrow> process_state" where
  "set_harness h s = s\<lparr>ps_default_harness := Some h\<rparr>"

definition reset_harness :: "process_state \<Rightarrow> process_state" where
  "reset_harness s = s\<lparr>ps_default_harness := None\<rparr>"

definition get_harness :: "runtime_settings \<Rightarrow> process_state \<Rightarrow> (lifespan_error, harness_ref) result \<times> process_state" where
  "get_harness c s =
     (case ps_default_harness s of
        Some h \<Rightarrow> (Inr h, s)
      | None \<Rightarrow> (case new_harness c None None of Inl e \<Rightarrow> (Inl e, s) | Inr h \<Rightarrow> (Inr h, set_harness h s)))"

section \<open>The lifespan\<close>

record app_settings =
  ap_runtime :: runtime_settings
  ap_provider :: string
  ap_openai :: openai_settings

text \<open>
  \<open>build_runtime_clients\<close> without an injected client: the HTTP pool is opened first, and a provider that cannot be
  created raises past it.
\<close>

definition start_clients :: "app_settings \<Rightarrow> process_state \<Rightarrow> (lifespan_error, client_bundle) result \<times> process_state" where
  "start_clients a s =
     (let s' = s\<lparr>ps_next := ps_next s + 1, ps_open_pools := ps_open_pools s @ [ps_next s]\<rparr>
      in case create_provider (ap_provider a) (ap_openai a) of
           Inl e \<Rightarrow> (Inl (ProviderFailure e), s')
         | Inr p \<Rightarrow> (Inr (build_runtime_clients None (ps_next s)), s'))"

text \<open>The local variables the \<open>finally\<close> block looks at.\<close>

record lifespan_locals =
  ll_clients :: "client_bundle option"
  ll_worker :: "nat option"

definition start_worker :: "process_state \<Rightarrow> nat \<times> process_state" where
  "start_worker s = (ps_next s, s\<lparr>ps_next := ps_next s + 1, ps_workers := ps_workers s @ [(ps_next s, False)]\<rparr>)"

text \<open>The body of \<open>try\<close> up to \<open>yield\<close>, with the locals it has set when it raises or is done.\<close>

definition lifespan_startup ::
  "app_settings \<Rightarrow> process_state \<Rightarrow> (lifespan_error, harness_ref) result \<times> lifespan_locals \<times> process_state" where
  "lifespan_startup a s =
     (case start_clients a s of
        (Inl e, s1) \<Rightarrow> (Inl e, \<lparr>ll_clients = None, ll_worker = None\<rparr>, s1)
      | (Inr clients, s1) \<Rightarrow>
          (let s2 = s1\<lparr>ps_lifespan_clients := Some clients\<rparr>
           in case build_agent_harness (ap_runtime a) (rb_owned_http clients) of
                Inl e \<Rightarrow> (Inl e, \<lparr>ll_clients = Some clients, ll_worker = None\<rparr>, s2)
              | Inr h \<Rightarrow>
                  (let s3 = set_harness h s2
                   in if cf_enable_tool_queue (ap_runtime a)
                      then (case start_worker s3 of
                          (w, s4) \<Rightarrow> (Inr h, \<lparr>ll_clients = Some clients, ll_worker = Some w\<rparr>, s4))
                      else (Inr h, \<lparr>ll_clients = Some clients, ll_worker = None\<rparr>, s3))))"

definition stop_worker :: "nat option \<Rightarrow> process_state \<Rightarrow> process_state" where
  "stop_worker w s =
     (case w of
        None \<Rightarrow> s
      | Some i \<Rightarrow> s\<lparr>ps_workers := map (\<lambda>(j, stop). (j, stop \<or> j = i)) (ps_workers s)\<rparr>)"

definition close_clients :: "client_bundle option \<Rightarrow> process_state \<Rightarrow> process_state" where
  "close_clients b s =
     (case b of
        None \<Rightarrow> s
      | Some clients \<Rightarrow>
          s\<lparr>ps_open_pools := filter (\<lambda>p. p \<notin> set (snd (close_bundle clients []))) (ps_open_pools s)\<rparr>)"

definition lifespan_teardown :: "lifespan_locals \<Rightarrow> process_state \<Rightarrow> process_state" where
  "lifespan_teardown l s =
     shutdown_invoke_executor
       (reset_harness ((close_clients (ll_clients l) (stop_worker (ll_worker l) s))\<lparr>ps_lifespan_clients := None\<rparr>))"

text \<open>While the application serves, requests look up the harness and the executor.\<close>

datatype served_request = WantsHarness | WantsExecutor

primrec serve_request :: "runtime_settings \<Rightarrow> served_request \<Rightarrow> process_state \<Rightarrow> process_state" where
  "serve_request c WantsHarness s = snd (get_harness c s)"
| "serve_request c WantsExecutor s = snd (get_invoke_executor c s)"

definition lifespan ::
  "app_settings \<Rightarrow> served_request list \<Rightarrow> process_state \<Rightarrow> (lifespan_error, harness_ref) result \<times> process_state" where
  "lifespan a requests s =
     (case validate_runtime_config (ap_runtime a) of
        Inl e \<Rightarrow> (Inl (ConfigError e), s)
      | Inr u \<Rightarrow>
          (case new_executor (effective_max_active_runs (ap_runtime a)) s of
             (Inl e, s1) \<Rightarrow> (Inl e, s1)
           | (Inr x, s1) \<Rightarrow>
               (case lifespan_startup a (set_invoke_executor x s1) of
                  (Inl e, l, s2) \<Rightarrow> (Inl e, lifespan_teardown l s2)
                | (Inr h, l, s2) \<Rightarrow> (Inr h, lifespan_teardown l (fold (serve_request (ap_runtime a)) requests s2)))))"


section \<open>What a lifespan leaves behind\<close>

definition process_ok :: "process_state \<Rightarrow> bool" where
  "process_ok s \<longleftrightarrow>
     list_all (\<lambda>x. fst x < ps_next s) (ps_live_executors s) \<and> list_all (\<lambda>p. p < ps_next s) (ps_open_pools s) \<and>
     list_all (\<lambda>w. fst w < ps_next s) (ps_workers s)"

definition provider_fails :: "app_settings \<Rightarrow> bool" where
  "provider_fails a \<longleftrightarrow> (case create_provider (ap_provider a) (ap_openai a) of Inl e \<Rightarrow> True | Inr p \<Rightarrow> False)"

definition enters :: "app_settings \<Rightarrow> bool" where
  "enters a \<longleftrightarrow> validate_runtime_config (ap_runtime a) = Inr () \<and> 0 < effective_max_active_runs (ap_runtime a)"

text \<open>While the lifespan's harness and executor are set, requests use them and change nothing.\<close>

lemma served_requests_use_the_lifespan:
  "ps_default_harness s = Some h \<Longrightarrow> ps_invoke_executor s = Some x \<Longrightarrow> fold (serve_request c) requests s = s"
proof (induction requests)
  case (Cons r requests)
  then have "serve_request c r s = s" by (cases r) (simp_all add: get_harness_def get_invoke_executor_def)
  then show ?case using Cons by simp
qed simp

lemma startup_sets:
  "lifespan_startup a s = (Inr h, l, s') \<Longrightarrow>
     ps_default_harness s' = Some h \<and> ps_invoke_executor s' = ps_invoke_executor s"
  by (auto simp: lifespan_startup_def start_clients_def start_worker_def set_harness_def Let_def
      split: sum.splits if_splits)

definition cleared :: "process_state \<Rightarrow> bool" where
  "cleared s \<longleftrightarrow> ps_invoke_executor s = None \<and> ps_default_harness s = None \<and> ps_lifespan_clients s = None"

lemma filter_keeps: "list_all (\<lambda>x. f x < n) xs \<Longrightarrow> n \<le> m \<Longrightarrow> filter (\<lambda>x. f x \<noteq> (m::nat)) xs = xs"
  by (induction xs) auto

lemma stop_keeps: "list_all (\<lambda>w. fst w < n) ws \<Longrightarrow> n \<le> m \<Longrightarrow> map (\<lambda>(j, stop). (j, stop \<or> j = (m::nat))) ws = ws"
  by (induction ws) auto

text \<open>Starting and tearing down, with the executor in place: only a pool without clients is left open.\<close>

lemma startup_then_teardown:
  assumes ok: "process_ok s" and run: "lifespan_startup a (set_invoke_executor (ps_next s)
      (s\<lparr>ps_next := ps_next s + 1, ps_live_executors := ps_live_executors s @ [(ps_next s, n)]\<rparr>)) = (r, l, s2)"
  shows "cleared (lifespan_teardown l s2)"
    and "ps_live_executors (lifespan_teardown l s2) = ps_live_executors s"
    and "ps_open_pools (lifespan_teardown l s2) = ps_open_pools s @ (if provider_fails a then [ps_next s + 1] else [])"
    and "list_all snd (ps_workers s) \<Longrightarrow> list_all snd (ps_workers (lifespan_teardown l s2))"
    and "process_ok (lifespan_teardown l s2)"
proof -
  note defs = lifespan_startup_def start_clients_def start_worker_def set_harness_def set_invoke_executor_def Let_def
    lifespan_teardown_def shutdown_invoke_executor_def reset_harness_def close_clients_def stop_worker_def
    build_runtime_clients_def close_bundle_def
  have below: "list_all (\<lambda>x. fst x < ps_next s) (ps_live_executors s)" "list_all (\<lambda>p. id p < ps_next s) (ps_open_pools s)"
      "list_all (\<lambda>w. fst w < ps_next s) (ps_workers s)"
    using ok by (simp_all add: process_ok_def)
  have up: "list_all (\<lambda>x. fst x < m) (ps_live_executors s) \<and> list_all (\<lambda>p. p < m) (ps_open_pools s) \<and>
      list_all (\<lambda>w. fst w < m) (ps_workers s)" if "ps_next s \<le> m" for m
    using below that by (auto elim!: list.pred_mono_strong)
  have ex: "filter (\<lambda>x. fst x \<noteq> ps_next s) (ps_live_executors s) = ps_live_executors s"
    by (rule filter_keeps [OF below(1)]) simp
  have po: "filter (\<lambda>p. p \<noteq> Suc (ps_next s)) (ps_open_pools s) = ps_open_pools s"
    using filter_keeps [OF below(2), of "Suc (ps_next s)"] by simp
  have wo: "map (\<lambda>(j, stop). (j, stop \<or> j = Suc (Suc (ps_next s)))) (ps_workers s) = ps_workers s"
    by (rule stop_keeps [OF below(3)]) simp
  show "cleared (lifespan_teardown l s2)"
    using run by (auto simp: defs cleared_def split: sum.splits if_splits)
  show "ps_live_executors (lifespan_teardown l s2) = ps_live_executors s"
    using run ex by (auto simp: defs split: sum.splits if_splits)
  show "ps_open_pools (lifespan_teardown l s2) = ps_open_pools s @ (if provider_fails a then [ps_next s + 1] else [])"
    using run po by (auto simp: defs provider_fails_def split: sum.splits if_splits)
  show "list_all snd (ps_workers (lifespan_teardown l s2))" if "list_all snd (ps_workers s)"
    using run that wo by (auto simp: defs split: sum.splits if_splits)
  show "process_ok (lifespan_teardown l s2)"
    using run ex po wo up by (auto simp: defs process_ok_def split: sum.splits if_splits)
qed


lemma lifespan_effect:
  assumes "process_ok s"
  shows "if enters a then cleared (snd (lifespan a requests s)) \<and>
       ps_live_executors (snd (lifespan a requests s)) = ps_live_executors s \<and>
       ps_open_pools (snd (lifespan a requests s)) = ps_open_pools s @ (if provider_fails a then [ps_next s + 1] else [])
     else snd (lifespan a requests s) = s"
    and "process_ok (snd (lifespan a requests s))"
    and "list_all snd (ps_workers s) \<Longrightarrow> list_all snd (ps_workers (snd (lifespan a requests s)))"
proof -
  let ?s1 = "set_invoke_executor (ps_next s)
      (s\<lparr>ps_next := ps_next s + 1, ps_live_executors := ps_live_executors s @ [(ps_next s, effective_max_active_runs (ap_runtime a))]\<rparr>)"
  obtain r l s2 where run: "lifespan_startup a ?s1 = (r, l, s2)" by (cases "lifespan_startup a ?s1") auto
  have served: "fold (serve_request (ap_runtime a)) requests s2 = s2" if "r = Inr h" for h
    using startup_sets [of a ?s1 h l s2] run that
    by (intro served_requests_use_the_lifespan [of _ h "ps_next s"]) (simp_all add: set_invoke_executor_def)
  have inside: "enters a \<Longrightarrow> snd (lifespan a requests s) = lifespan_teardown l s2"
    using run served by (auto simp: enters_def lifespan_def new_executor_def split: sum.splits)
  have outside: "\<not> enters a \<Longrightarrow> snd (lifespan a requests s) = s"
    by (auto simp: enters_def lifespan_def new_executor_def split: sum.splits)
  note after = startup_then_teardown [OF assms run]
  show "if enters a then cleared (snd (lifespan a requests s)) \<and>
       ps_live_executors (snd (lifespan a requests s)) = ps_live_executors s \<and>
       ps_open_pools (snd (lifespan a requests s)) = ps_open_pools s @ (if provider_fails a then [ps_next s + 1] else [])
     else snd (lifespan a requests s) = s"
    using after(1,2,3) inside outside by simp
  show "process_ok (snd (lifespan a requests s))" using after(5) inside outside assms by (cases "enters a") simp_all
  show "list_all snd (ps_workers (snd (lifespan a requests s)))" if "list_all snd (ps_workers s)"
    using after(4) [OF that] inside outside that by (cases "enters a") simp_all
qed

section \<open>Any number of lifespans\<close>

definition lifespans :: "(app_settings \<times> served_request list) list \<Rightarrow> process_state \<Rightarrow> process_state" where
  "lifespans runs s = fold (\<lambda>(a, requests) s. snd (lifespan a requests s)) runs s"

lemma lifespans_effect:
  assumes "process_ok s" and "cleared s" and "ps_live_executors s = []" and "list_all snd (ps_workers s)"
  shows "cleared (lifespans runs s) \<and> ps_live_executors (lifespans runs s) = [] \<and>
    list_all snd (ps_workers (lifespans runs s)) \<and>
    length (ps_open_pools (lifespans runs s)) =
      length (ps_open_pools s) + length (filter (\<lambda>(a, requests). enters a \<and> provider_fails a) runs)"
  using assms
proof (induction runs arbitrary: s)
  case (Cons x runs)
  obtain a requests where x: "x = (a, requests)" by (cases x)
  let ?s' = "snd (lifespan a requests s)"
  note one = lifespan_effect [OF Cons.prems(1), of a requests]
  have "process_ok ?s'" "cleared ?s'" "ps_live_executors ?s' = []" "list_all snd (ps_workers ?s')"
    using one Cons.prems by (simp_all split: if_splits)
  from Cons.IH [OF this] one(1) show ?case by (cases "enters a") (simp_all add: lifespans_def x)
qed (simp add: lifespans_def)

text \<open>
  C39: a process gives back what its lifespans take, whichever configurations they had, wherever they failed and whatever
  they served: afterwards no executor is live and none is published, the harness and the clients are forgotten and every
  worker was told to stop. Of the HTTP pools some stay open: a provider that cannot be created raises after its pool was
  opened and before anybody could close it, and exactly these pools are left. Connections of the checkpoint store are
  not counted.
\<close>

theorem lifespans_release_what_they_took:
  "case lifespans runs new_process of s \<Rightarrow>
     ps_live_executors s = [] \<and> ps_invoke_executor s = None \<and> ps_default_harness s = None \<and>
     ps_lifespan_clients s = None \<and> list_all snd (ps_workers s) \<and>
     length (ps_open_pools s) = length (filter (\<lambda>(a, requests). enters a \<and> provider_fails a) runs)"
proof -
  have "process_ok new_process" "cleared new_process" "ps_live_executors new_process = []" "list_all snd (ps_workers new_process)"
      "ps_open_pools new_process = []"
    by (simp_all add: new_process_def process_ok_def cleared_def)
  then show ?thesis using lifespans_effect [of new_process runs] by (simp add: cleared_def)
qed

end
