(* ===== verification/Endpoints.thy ===== *)
theory Endpoints
  imports Api Operations
begin

text \<open>
  The rest of \<open>services/agent-runtime/allcallall_agent_runtime/api/routes.py\<close>: the open endpoints (\<open>health\<close>, \<open>ready\<close>,
  \<open>capabilities\<close>) and the run endpoints behind the bearer check, with the harness and the graph as in \<open>Invocation\<close>.
\<close>

section \<open>Open endpoints\<close>

record service_view =
  sw_deployment_mode :: string
  sw_provider :: string
  sw_provider_strict :: bool
  sw_tool_bridge_base_url :: string
  sw_tool_bridge_token :: string
  sw_rag_runtime_base_url :: string
  sw_agentic_rag :: bool
  sw_enable_tool_queue :: bool

definition health_view :: json_object where
  "health_view = [(''status'', jstr ''ok''), (''runtime'', jstr ''python_langgraph'')]"

definition ready_view :: "service_view \<Rightarrow> json_object" where
  "ready_view c =
     [(''status'', jstr ''ready''), (''deployment_mode'', jstr (sw_deployment_mode c)), (''provider'', jstr (sw_provider c)),
      (''provider_strict'', JBool (sw_provider_strict c)),
      (''tool_bridge_configured'', JBool (sw_tool_bridge_base_url c \<noteq> '''' \<and> sw_tool_bridge_token c \<noteq> '''')),
      (''rag_runtime_configured'', JBool (sw_rag_runtime_base_url c \<noteq> '''')),
      (''agentic_rag'', JBool (sw_agentic_rag c))]"

definition tool_queue_view :: "service_view \<Rightarrow> json_object" where
  "tool_queue_view c =
     (''enabled'', JBool (sw_enable_tool_queue c)) #
     (if sw_deployment_mode c = ''single_process''
      then [(''mode'', jstr ''async_after_approval''), (''retry'', jstr ''bounded''), (''dead_letter'', JBool True)]
      else [(''mode'', jstr ''go_outbox''), (''retry'', jstr ''go_durable_outbox''), (''dead_letter'', jstr ''go_durable_outbox'')])"

definition capabilities_view :: "service_view \<Rightarrow> json_object" where
  "capabilities_view c =
     [(''runtime'', jstr ''python_langgraph''), (''deployment_mode'', jstr (sw_deployment_mode c)),
      (''harness'', jstr ''allcallall_v1''),
      (''agents'', jstrs [''react_general'', ''searcher'', ''memory_agent'', ''summarizer'', ''risk_guardian'']),
      (''workflows'', jstrs workflows_route),
      (''input_modalities'', jstrs [''text'', ''image_metadata'', ''audio_transcript'', ''video_transcript'']),
      (''intent_routes'', jstrs [''chat'', ''consult'', ''risk'']),
      (''loop_engineering'', JObj
        [(''contract'', jstrs [''LoopSpec'', ''LoopState'', ''LoopStep'', ''LoopBudget'', ''LoopStopReason'', ''LoopTrace'']),
         (''bounded_roles'', JObj [(''searcher'', JInt 3), (''risk_guardian'', JInt 2), (''memory_agent'', JInt 1),
           (''follow_up_planner'', JInt 2)]),
         (''write_tools'', jstr ''proposal_only'')]),
      (''rag'', jstrs [''dynamic_routing'', ''agentic_refinement'', ''knowledge_graph_expansion'']),
      (''memory'', jstrs [''reflection'', ''approval_gated_upsert'']),
      (''write_tools'', jstr ''proposal_only''), (''tool_queue'', JObj (tool_queue_view c))]"

section \<open>Endpoints behind the bearer check\<close>

text \<open>The dependency runs before the handler; what it raises is the answer.\<close>

datatype 'a guarded =
    Handled 'a
  | Rejected401 string
  | AuthCrashed

definition guarded_route :: "ustring \<Rightarrow> ustring option \<Rightarrow> bool \<Rightarrow> (unit \<Rightarrow> 'a) \<Rightarrow> bool \<times> 'a guarded" where
  "guarded_route api_token authorization warned handler =
     (case require_auth api_token authorization warned of
        (w, Allowed) \<Rightarrow> (w, Handled (handler ()))
      | (w, Unauthorized m) \<Rightarrow> (w, Rejected401 m)
      | (w, AuthTypeError) \<Rightarrow> (w, AuthCrashed))"

text \<open>
  A run endpoint under admission, when the controller grants or refuses at once and the graph answers before its timeout
  (\<open>Invocation\<close> has the timeout): \<open>run\<close> is the method of the harness applied to the request.
\<close>

definition run_route ::
  "('w \<Rightarrow> 'w \<times> (harness_error, workflow_response) result) \<Rightarrow> int \<Rightarrow> controller option \<Rightarrow> seconds \<Rightarrow> 'w
     \<Rightarrow> (controller option \<times> 'w) \<times> http_outcome" where
  "run_route run org admission now w =
     (case admission of
        None \<Rightarrow> (let (w', r) = run w in ((None, w'), http_of_harness (GraphAnswered r)))
      | Some c \<Rightarrow>
          (case acquire_enter org now c of
             (Granted l, c') \<Rightarrow> (let (w', r) = run w in ((Some (close l c'), w'), http_of_harness (GraphAnswered r)))
           | (Refused r retry_after, c') \<Rightarrow> ((Some c', w), HttpError 503 ''runtime_overloaded'')
           | (Enqueued q, c') \<Rightarrow> ((Some c', w), HttpUnhandled)))"

definition react_run_route ::
  "harness_env \<Rightarrow> 'g graph_ops \<Rightarrow> ('s, json_object) store_ops \<Rightarrow> workflow_request \<Rightarrow> controller option \<Rightarrow> seconds \<Rightarrow> 'g \<times> 's
     \<Rightarrow> (controller option \<times> 'g \<times> 's) \<times> http_outcome" where
  "react_run_route env gops qops rq = run_route (run_react_agent env gops qops rq) (rq_organization_id rq)"

definition meeting_brief_route ::
  "harness_env \<Rightarrow> 'g graph_ops \<Rightarrow> ('s, json_object) store_ops \<Rightarrow> workflow_request \<Rightarrow> controller option \<Rightarrow> seconds \<Rightarrow> 'g \<times> 's
     \<Rightarrow> (controller option \<times> 'g \<times> 's) \<times> http_outcome" where
  "meeting_brief_route env gops qops rq = run_route (run_meeting_brief env gops qops rq) (rq_organization_id rq)"

text \<open>The preset of the path replaces the one of the body.\<close>

definition workflow_run_route ::
  "harness_env \<Rightarrow> 'g graph_ops \<Rightarrow> ('s, json_object) store_ops \<Rightarrow> string \<Rightarrow> workflow_request \<Rightarrow> controller option \<Rightarrow> seconds
     \<Rightarrow> 'g \<times> 's \<Rightarrow> (controller option \<times> 'g \<times> 's) \<times> http_outcome" where
  "workflow_run_route env gops qops preset rq =
     run_route (run_workflow env gops qops (rq\<lparr>rq_preset := preset\<rparr>)) (rq_organization_id rq)"

section \<open>What they promise\<close>

text \<open>With a token configured, a handler runs only for a request that carries it.\<close>

lemma guarded_route_handles:
  assumes "api_token \<noteq> []" and "snd (guarded_route api_token h warned handler) = Handled x"
  shows "\<exists>t scheme. h = Some t \<and> words_of t = [scheme, api_token] \<and> to_lower scheme = codes ''bearer''"
proof -
  have "snd (require_auth api_token h warned) = Allowed"
    using assms(2) by (auto simp: guarded_route_def split: prod.splits auth_outcome.splits)
  then show ?thesis using auth_allows [OF assms(1)] by blast
qed

text \<open>A refused request leaves the graph, the queue and the leases as they are.\<close>

lemma refused_run_changes_nothing:
  assumes "admission = Some c" and "acquire_enter org now c = (Refused r after, c')"
  shows "run_route run org admission now w = ((Some c', w), HttpError 503 ''runtime_overloaded'')"
  using assms by (simp add: run_route_def)

text \<open>The run endpoints agree: \<open>react\<close> and \<open>meeting-brief\<close> are the general endpoint with their preset.\<close>

lemma run_routes_agree:
  "react_run_route env gops qops rq = workflow_run_route env gops qops ''react_general'' rq"
  "meeting_brief_route env gops qops rq = workflow_run_route env gops qops ''meeting_brief'' rq"
  by (simp_all add: react_run_route_def meeting_brief_route_def workflow_run_route_def run_react_agent_def [abs_def]
      run_meeting_brief_def [abs_def])

end
