(* ===== verification/SdkClient.thy ===== *)
theory SdkClient
  imports Endpoints ServiceClients
begin

text \<open>
  The Python SDK, \<open>packages/sdk/allcallall_agent_runtime_sdk/client.py\<close>: the clients of the agent runtime and of the
  RAG runtime. \<open>send\<close> is httpx (method, URL, body; the SDK sets no header), \<open>model_dump\<close> and \<open>validate\<close> are Pydantic's
  dumping without \<open>None\<close> and validating.
\<close>

section \<open>Requests and answers\<close>

datatype sdk_error =
    RuntimeClientError ustring
  | SdkTransport service_answer
  | SdkBodyNotJson
  | SdkInvalidModel

datatype 'm sdk_payload =
    ModelPayload 'm
  | DictPayload json_object

record ('m, 'r) sdk_world =
  sd_send :: "string \<Rightarrow> string \<Rightarrow> json_object option \<Rightarrow> service_answer"
  sd_dump :: "'m \<Rightarrow> json_object"
  sd_validate :: "json_object \<Rightarrow> 'r option"

definition sdk_payload_of :: "('m, 'r) sdk_world \<Rightarrow> 'm sdk_payload \<Rightarrow> json_object" where
  "sdk_payload_of w p = (case p of ModelPayload m \<Rightarrow> sd_dump w m | DictPayload d \<Rightarrow> d)"

definition sdk_base_url :: "string \<Rightarrow> string" where
  "sdk_base_url url = rev (dropWhile (\<lambda>c. c = CHR ''/'') (rev url))"

definition sdk_decode :: "service_answer \<Rightarrow> (sdk_error, json_object) result" where
  "sdk_decode answer =
     (case answer of
        Answer code body_text body \<Rightarrow>
          (if 400 \<le> code
           then Inl (RuntimeClientError (codes ''runtime returned '' @ show_int (int code) @ codes '': '' @ take 500 body_text))
           else case body of
               None \<Rightarrow> Inl SdkBodyNotJson
             | Some (JObj m) \<Rightarrow> Inr m
             | Some v \<Rightarrow> Inl (RuntimeClientError (codes ''runtime returned a non-object JSON response'')))
      | fault \<Rightarrow> Inl (SdkTransport fault))"

definition sdk_get :: "('m, 'r) sdk_world \<Rightarrow> string \<Rightarrow> string \<Rightarrow> (sdk_error, json_object) result" where
  "sdk_get w base path = sdk_decode (sd_send w ''GET'' (sdk_base_url base @ path) None)"

definition sdk_post :: "('m, 'r) sdk_world \<Rightarrow> string \<Rightarrow> string \<Rightarrow> 'm sdk_payload \<Rightarrow> (sdk_error, json_object) result" where
  "sdk_post w base path p = sdk_decode (sd_send w ''POST'' (sdk_base_url base @ path) (Some (sdk_payload_of w p)))"

definition sdk_validated :: "('m, 'r) sdk_world \<Rightarrow> json_object \<Rightarrow> (sdk_error, 'r) result" where
  "sdk_validated w m = (case sd_validate w m of None \<Rightarrow> Inl SdkInvalidModel | Some r \<Rightarrow> Inr r)"

section \<open>The clients\<close>

definition sdk_health :: "('m, 'r) sdk_world \<Rightarrow> string \<Rightarrow> (sdk_error, json_object) result" where
  "sdk_health w base = sdk_get w base ''/health''"

definition sdk_ready :: "('m, 'r) sdk_world \<Rightarrow> string \<Rightarrow> (sdk_error, json_object) result" where
  "sdk_ready w base = sdk_get w base ''/ready''"

definition sdk_capabilities :: "('m, 'r) sdk_world \<Rightarrow> string \<Rightarrow> (sdk_error, json_object) result" where
  "sdk_capabilities w base = sdk_get w base ''/v1/capabilities''"

definition sdk_call :: "('m, 'r) sdk_world \<Rightarrow> string \<Rightarrow> string \<Rightarrow> 'm sdk_payload \<Rightarrow> (sdk_error, 'r) result" where
  "sdk_call w base path p = and_then (sdk_post w base path p) (sdk_validated w)"

definition sdk_run_react :: "('m, 'r) sdk_world \<Rightarrow> string \<Rightarrow> 'm sdk_payload \<Rightarrow> (sdk_error, 'r) result" where
  "sdk_run_react w base p = sdk_call w base ''/v1/agents/react/run'' p"

definition sdk_run_workflow :: "('m, 'r) sdk_world \<Rightarrow> string \<Rightarrow> string \<Rightarrow> 'm sdk_payload \<Rightarrow> (sdk_error, 'r) result" where
  "sdk_run_workflow w base preset p = sdk_call w base (''/v1/workflows/'' @ preset @ ''/run'') p"

definition sdk_run_meeting_brief :: "('m, 'r) sdk_world \<Rightarrow> string \<Rightarrow> 'm sdk_payload \<Rightarrow> (sdk_error, 'r) result" where
  "sdk_run_meeting_brief w base p = sdk_run_workflow w base ''meeting_brief'' p"

definition sdk_query :: "('m, 'r) sdk_world \<Rightarrow> string \<Rightarrow> 'm sdk_payload \<Rightarrow> (sdk_error, 'r) result" where
  "sdk_query w base p = sdk_call w base ''/v1/retrieval/query'' p"

definition sdk_rerank :: "('m, 'r) sdk_world \<Rightarrow> string \<Rightarrow> 'm sdk_payload \<Rightarrow> (sdk_error, 'r) result" where
  "sdk_rerank w base p = sdk_call w base ''/v1/retrieval/rerank'' p"

definition sdk_agentic_retrieve :: "('m, 'r) sdk_world \<Rightarrow> string \<Rightarrow> 'm sdk_payload \<Rightarrow> (sdk_error, 'r) result" where
  "sdk_agentic_retrieve w base p = sdk_call w base ''/v1/retrieval/agentic'' p"

definition sdk_grounding_check :: "('m, 'r) sdk_world \<Rightarrow> string \<Rightarrow> 'm sdk_payload \<Rightarrow> (sdk_error, 'r) result" where
  "sdk_grounding_check w base p = sdk_call w base ''/v1/grounding/check'' p"

section \<open>Against the runtime\<close>

text \<open>
  The runtime as the SDK sees it: every \<open>POST\<close> endpoint is behind the bearer check, which never sees a header from the
  SDK; \<open>handlers\<close> is what the endpoints answer once they run. FastAPI renders a refusal as a JSON object with the detail.
\<close>

definition runtime_behind_auth ::
  "ustring \<Rightarrow> (string \<Rightarrow> string \<Rightarrow> json_object option \<Rightarrow> service_answer) \<Rightarrow> (string \<Rightarrow> ustring)
     \<Rightarrow> string \<Rightarrow> string \<Rightarrow> json_object option \<Rightarrow> service_answer" where
  "runtime_behind_auth api_token handlers render verb url body =
     (if verb = ''POST''
      then case snd (guarded_route api_token None False (\<lambda>u. handlers verb url body)) of
          Handled a \<Rightarrow> a
        | Rejected401 m \<Rightarrow> Answer 401 (render m) (Some (JObj [(''detail'', jstr m)]))
        | AuthCrashed \<Rightarrow> Answer 500 (render ''Internal Server Error'') None
      else handlers verb url body)"

lemma sdk_call_error:
  "sdk_call w base path p = Inl e \<longleftrightarrow>
     (case sd_send w ''POST'' (sdk_base_url base @ path) (Some (sdk_payload_of w p)) of
        Answer code t body \<Rightarrow>
          (if 400 \<le> code then e = RuntimeClientError (codes ''runtime returned '' @ show_int (int code) @ codes '': '' @ take 500 t)
           else case body of
               None \<Rightarrow> e = SdkBodyNotJson
             | Some (JObj m) \<Rightarrow> sd_validate w m = None \<and> e = SdkInvalidModel
             | Some v \<Rightarrow> e = RuntimeClientError (codes ''runtime returned a non-object JSON response''))
      | fault \<Rightarrow> e = SdkTransport fault)"
  by (auto simp: sdk_call_def sdk_post_def sdk_decode_def sdk_validated_def split: service_answer.splits option.splits json.splits)

text \<open>
  The SDK and the bearer check exclude each other. Once a token is configured, every run of a workflow through the
  SDK is refused with status 401, whatever the request, while the open endpoints still answer; without a token the
  endpoint behind the check is reached and its answer decides.
\<close>

theorem sdk_cannot_pass_the_bearer_check:
  "case w\<lparr>sd_send := runtime_behind_auth api_token handlers render\<rparr> of v \<Rightarrow>
     sdk_run_workflow v base preset p =
       (if api_token \<noteq> []
        then Inl (RuntimeClientError (codes ''runtime returned '' @ show_int 401 @ codes '': '' @
          take 500 (render ''Missing Authorization header'')))
        else sdk_run_workflow (w\<lparr>sd_send := handlers\<rparr>) base preset p) \<and>
     sdk_ready v base = sdk_ready (w\<lparr>sd_send := handlers\<rparr>) base"
proof -
  let ?v = "w\<lparr>sd_send := runtime_behind_auth api_token handlers render\<rparr>"
  have missing: "snd (guarded_route api_token None False h) = Rejected401 ''Missing Authorization header''"
    if "api_token \<noteq> []" for h :: "unit \<Rightarrow> service_answer"
    using that by (simp add: guarded_route_def require_auth_def)
  have passed: "snd (guarded_route [] None False h) = Handled (h ())" for h :: "unit \<Rightarrow> service_answer"
    by (simp add: guarded_route_def require_auth_def)
  have "sdk_payload_of ?v p = sdk_payload_of (w\<lparr>sd_send := handlers\<rparr>) p" by (cases p) (simp_all add: sdk_payload_of_def)
  moreover have "sdk_validated ?v = sdk_validated (w\<lparr>sd_send := handlers\<rparr>)" by (simp add: sdk_validated_def fun_eq_iff)
  ultimately show ?thesis
    by (simp add: sdk_run_workflow_def sdk_call_def sdk_post_def sdk_ready_def sdk_get_def runtime_behind_auth_def missing passed
        sdk_decode_def)
qed

end
