(* ===== verification/ExecutionLock.thy ===== *)
theory ExecutionLock
  imports ConnectionPool Text
begin

text \<open>
  \<open>execution_lock\<close> of \<open>checkpoint/mysql.py\<close>: a named lock of the MySQL server, held on a pooled connection while a block
  runs. The server's side is the list of lock names with the session (the connection) that owns each; it outlives a
  connection that could not release it until the server notices. The lives of the sessions of running blocks are not
  cut short. SHA-256 is the argument \<open>sha\<close>. (Nothing in the sources calls the method.)
\<close>

section \<open>The operations\<close>

definition lock_name :: "(ustring \<Rightarrow> ustring) \<Rightarrow> ustring \<Rightarrow> ustring \<Rightarrow> ustring" where
  "lock_name sha thread_id checkpoint_ns = codes ''allcallall:langgraph:'' @ take 40 (sha (thread_id @ [0] @ checkpoint_ns))"

record lock_state =
  lk_pool :: pool
  lk_owners :: "(ustring \<times> nat) list"
  lk_running :: "(ustring \<times> nat) list"

definition new_lock_state :: "int \<Rightarrow> lock_state" where
  "new_lock_state limit = \<lparr>lk_pool = new_pool limit, lk_owners = [], lk_running = []\<rparr>"

datatype lock_outcome = LockEntered nat | LockBusy | LockNoConnection | LockWaitsForPool

text \<open>
  \<open>GET_LOCK\<close> gives 1 if the name is free or the session owns it already; otherwise, after its timeout, 0, and the
  \<open>CheckpointExecutionBusy\<close> raised inside of the pool's block retires the connection.
\<close>

definition lock_enter :: "bool \<Rightarrow> ustring \<Rightarrow> lock_state \<Rightarrow> lock_state \<times> lock_outcome" where
  "lock_enter connects name s =
     (case acquire connects (lk_pool s) of
        (p, Got c) \<Rightarrow>
          (if map_of (lk_owners s) name \<in> {None, Some c}
           then (s\<lparr>lk_pool := p, lk_owners := (name, c) # lk_owners s, lk_running := (name, c) # lk_running s\<rparr>, LockEntered c)
           else (s\<lparr>lk_pool := leave_block True True connects c p\<rparr>, LockBusy))
      | (p, ConnectFailed) \<Rightarrow> (s\<lparr>lk_pool := p\<rparr>, LockNoConnection)
      | (p, Blocks) \<Rightarrow> (s\<lparr>lk_pool := p\<rparr>, LockWaitsForPool))"

text \<open>
  Leaving the block: \<open>RELEASE_LOCK\<close> runs whether the block raised or not; if it raises itself, the lock stays with the
  session, and an exception retires the connection.
\<close>

definition lock_leave :: "bool \<Rightarrow> bool \<Rightarrow> bool \<Rightarrow> bool \<Rightarrow> ustring \<times> nat \<Rightarrow> lock_state \<Rightarrow> lock_state" where
  "lock_leave released raised rolls_back connects h s =
     s\<lparr>lk_pool := leave_block (raised \<or> \<not> released) rolls_back connects (snd h) (lk_pool s),
       lk_owners := (if released then remove1 h (lk_owners s) else lk_owners s),
       lk_running := remove1 h (lk_running s)\<rparr>"

text \<open>The server notices that a session is gone.\<close>

definition forget_session :: "nat \<Rightarrow> lock_state \<Rightarrow> lock_state" where
  "forget_session c s = s\<lparr>lk_owners := filter (\<lambda>h. snd h \<noteq> c) (lk_owners s)\<rparr>"

inductive lock_step :: "lock_state \<Rightarrow> lock_state \<Rightarrow> bool" where
  entering: "lock_step s (fst (lock_enter connects name s))"
| leaving: "h \<in> set (lk_running s) \<Longrightarrow> lock_step s (lock_leave released raised rolls_back connects h s)"
| forgetting: "c \<notin> set (in_use (lk_pool s)) \<Longrightarrow> lock_step s (forget_session c s)"
| others_enter: "lock_step s (s\<lparr>lk_pool := fst (acquire connects (lk_pool s))\<rparr>)"
| others_wake: "resume_waiter (lk_pool s) = Some p \<Longrightarrow> lock_step s (s\<lparr>lk_pool := p\<rparr>)"
| others_leave: "c \<in> set (in_use (lk_pool s)) \<Longrightarrow> c \<notin> snd ` set (lk_running s) \<Longrightarrow>
    lock_step s (s\<lparr>lk_pool := leave_block raised rolls_back connects c (lk_pool s)\<rparr>)"

section \<open>What holds in every state\<close>

text \<open>
  A running block owns its lock on a connection it has to itself; a session that owns a lock without a block running on
  it is gone for the pool.
\<close>

definition owner_ok :: "pool \<Rightarrow> (ustring \<times> nat) list \<Rightarrow> ustring \<times> nat \<Rightarrow> bool" where
  "owner_ok p running h \<longleftrightarrow> snd h < next_connection p \<and> snd h \<notin> set (free_connections p) \<and>
     (snd h \<in> set (in_use p) \<longleftrightarrow> h \<in> set running)"

definition lock_ok :: "lock_state \<Rightarrow> bool" where
  "lock_ok s \<longleftrightarrow>
     pool_ok (lk_pool s) \<and> distinct (lk_running s) \<and> set (lk_running s) \<subseteq> set (lk_owners s) \<and>
     distinct (map fst (lk_owners s)) \<and> distinct (map snd (lk_owners s)) \<and>
     list_all (owner_ok (lk_pool s) (lk_running s)) (lk_owners s)"

lemma acquire_sets:
  assumes "pool_ok p" and "acquire connects p = (q, r)"
  shows "set (in_use q) = (case r of Got c \<Rightarrow> insert c (set (in_use p)) | _ \<Rightarrow> set (in_use p))"
    and "set (free_connections q) \<subseteq> set (free_connections p)" and "next_connection p \<le> next_connection q"
    and "r = Got c \<Longrightarrow> c \<notin> set (in_use p) \<and> (c \<in> set (free_connections p) \<or> next_connection p \<le> c)"
    and "r = Got c \<Longrightarrow> c \<notin> set (free_connections q) \<and> c < next_connection q"
  using assms by (auto simp: acquire_def pool_ok_def Let_def split: list.splits if_splits)

lemma leave_sets:
  assumes "pool_ok p" and "q = leave_block raised rolls_back connects c p"
  shows "set (in_use q) = set (in_use p) - {c}"
    and "set (free_connections q) \<subseteq> set (free_connections p) \<union> {next_connection p} \<union> (if raised then {} else {c})"
    and "next_connection p \<le> next_connection q"
  using assms
  by (auto simp: leave_block_def release_def retire_and_replenish_def pool_ok_def Let_def split: if_splits)

lemma wake_sets:
  assumes "pool_ok p" and "resume_waiter p = Some q"
  shows "\<exists>c \<in> set (free_connections p). set (in_use q) = insert c (set (in_use p)) \<and>
    set (free_connections q) = set (free_connections p) - {c} \<and> next_connection q = next_connection p"
  using assms by (auto simp: resume_waiter_def pool_ok_def split: list.splits if_splits)

lemma owners_unique:
  "lock_ok s \<Longrightarrow> h \<in> set (lk_owners s) \<Longrightarrow> h' \<in> set (lk_owners s) \<Longrightarrow> fst h = fst h' \<or> snd h = snd h' \<Longrightarrow> h = h'"
  unfolding lock_ok_def distinct_map inj_on_def by blast

lemma owner_facts:
  assumes "lock_ok s" and "h \<in> set (lk_owners s)"
  shows "snd h < next_connection (lk_pool s)" and "snd h \<notin> set (free_connections (lk_pool s))"
    and "snd h \<in> set (in_use (lk_pool s)) \<longleftrightarrow> h \<in> set (lk_running s)"
  using assms by (auto simp: lock_ok_def owner_ok_def list_all_iff)

text \<open>A step of the pool that no owning session takes part in.\<close>

lemma lock_ok_pool:
  assumes "lock_ok s" and "pool_ok p"
    and "\<And>h. h \<in> set (lk_owners s) \<Longrightarrow> snd h < next_connection p \<and> snd h \<notin> set (free_connections p) \<and>
      (snd h \<in> set (in_use p) \<longleftrightarrow> snd h \<in> set (in_use (lk_pool s)))"
  shows "lock_ok (s\<lparr>lk_pool := p\<rparr>)"
  using assms by (auto simp: lock_ok_def owner_ok_def list_all_iff)

lemma acquire_lock_ok:
  assumes ok: "lock_ok s" and a: "acquire connects (lk_pool s) = (q, r)"
  shows "lock_ok (s\<lparr>lk_pool := q\<rparr>)"
proof (rule lock_ok_pool [OF ok])
  have p: "pool_ok (lk_pool s)" using ok by (simp add: lock_ok_def)
  then show "pool_ok q" using acquire_ok [OF p, of connects] a by simp
  fix h assume h: "h \<in> set (lk_owners s)"
  note f = owner_facts [OF ok h] acquire_sets [OF p a]
  show "snd h < next_connection q \<and> snd h \<notin> set (free_connections q) \<and>
      (snd h \<in> set (in_use q) \<longleftrightarrow> snd h \<in> set (in_use (lk_pool s)))"
    using f(1,2,4,5,6) f(7) [of "snd h"] by (cases r) auto
qed

lemma leave_lock_ok:
  assumes ok: "lock_ok s" and c: "c \<in> set (in_use (lk_pool s))" "c \<notin> snd ` set (lk_running s)"
  shows "lock_ok (s\<lparr>lk_pool := leave_block raised rolls_back connects c (lk_pool s)\<rparr>)"
proof (rule lock_ok_pool [OF ok])
  have p: "pool_ok (lk_pool s)" using ok by (simp add: lock_ok_def)
  show "pool_ok (leave_block raised rolls_back connects c (lk_pool s))" by (rule leave_ok [OF p c(1)])
  fix h assume h: "h \<in> set (lk_owners s)"
  have "snd h \<noteq> c" using owner_facts(3) [OF ok h] c by auto
  then show "snd h < next_connection (leave_block raised rolls_back connects c (lk_pool s)) \<and>
      snd h \<notin> set (free_connections (leave_block raised rolls_back connects c (lk_pool s))) \<and>
      (snd h \<in> set (in_use (leave_block raised rolls_back connects c (lk_pool s))) \<longleftrightarrow> snd h \<in> set (in_use (lk_pool s)))"
    using owner_facts [OF ok h] leave_sets [OF p HOL.refl, of raised rolls_back connects c] by (auto split: if_splits)
qed


lemma acquired_is_no_owner:
  assumes ok: "lock_ok s" and a: "acquire connects (lk_pool s) = (q, Got c)"
  shows "c \<notin> snd ` set (lk_owners s)"
proof
  assume "c \<in> snd ` set (lk_owners s)"
  then obtain h where h: "h \<in> set (lk_owners s)" "snd h = c" by auto
  have "pool_ok (lk_pool s)" using ok by (simp add: lock_ok_def)
  then show False using acquire_sets(4) [OF _ a HOL.refl] owner_facts [OF ok h(1)] h(2) by auto
qed

lemma enter_lock_ok:
  assumes ok: "lock_ok s"
  shows "lock_ok (fst (lock_enter connects name s))"
proof (cases "acquire connects (lk_pool s)")
  case (Pair q r)
  note ok' = acquire_lock_ok [OF ok Pair]
  have p: "pool_ok (lk_pool s)" using ok by (simp add: lock_ok_def)
  show ?thesis
  proof (cases r)
    case (Got c)
    note fresh = acquired_is_no_owner [OF ok Pair [unfolded Got]]
    have c: "c \<in> set (in_use q)" "c \<notin> set (free_connections q)" "c < next_connection q"
      using acquire_sets(1,5) [OF p Pair] Got by auto
    show ?thesis
    proof (cases "map_of (lk_owners s) name \<in> {None, Some c}")
      case True
      have "name \<notin> fst ` set (lk_owners s)"
        using True fresh by (force simp: map_of_eq_None_iff dest: map_of_SomeD)
      moreover have "owner_ok q ((name, c) # lk_running s) h" if "h \<in> set (lk_owners s)" for h
      proof -
        have "owner_ok q (lk_running s) h" using ok' that by (simp add: lock_ok_def list_all_iff)
        moreover have "h \<noteq> (name, c)" using fresh that by force
        ultimately show ?thesis by (simp add: owner_ok_def)
      qed
      moreover have "owner_ok q ((name, c) # lk_running s) (name, c)" using c by (simp add: owner_ok_def)
      moreover have "(name, c) \<notin> set (lk_running s)" using fresh ok by (force simp: lock_ok_def)
      ultimately have "lock_ok (s\<lparr>lk_pool := q, lk_owners := (name, c) # lk_owners s, lk_running := (name, c) # lk_running s\<rparr>)"
        using ok' fresh by (auto simp: lock_ok_def list_all_iff)
      then show ?thesis using True by (simp add: lock_enter_def Pair Got)
    next
      case False
      have "c \<notin> snd ` set (lk_running s)" using fresh ok by (force simp: lock_ok_def)
      then have "lock_ok ((s\<lparr>lk_pool := q\<rparr>)\<lparr>lk_pool := leave_block True True connects c q\<rparr>)"
        using leave_lock_ok [OF ok', of c True True connects] c by simp
      then show ?thesis using False by (auto simp: lock_enter_def Pair Got)
    qed
  qed (use ok' in \<open>simp_all add: lock_enter_def Pair\<close>)
qed

lemma distinct_map_remove1: "distinct (map f xs) \<Longrightarrow> distinct (map f (remove1 x xs))"
  using set_remove1_subset [of x] by (induction xs) fastforce+

text \<open>A running block gives its connection back; when its lock was released, it is free for everybody.\<close>

lemma leaving_lock_ok:
  assumes ok: "lock_ok s" and h: "h \<in> set (lk_running s)"
  shows "lock_ok (lock_leave released raised rolls_back connects h s)"
proof -
  let ?p = "leave_block (raised \<or> \<not> released) rolls_back connects (snd h) (lk_pool s)"
  have p: "pool_ok (lk_pool s)" and own: "h \<in> set (lk_owners s)" and d: "distinct (lk_running s)"
    and do: "distinct (map fst (lk_owners s))" "distinct (map snd (lk_owners s))"
    and sub: "set (lk_running s) \<subseteq> set (lk_owners s)"
    using ok h by (auto simp: lock_ok_def)
  have used: "snd h \<in> set (in_use (lk_pool s))" using owner_facts(3) [OF ok own] h by simp
  note sets = leave_sets [OF p HOL.refl, of "raised \<or> \<not> released" rolls_back connects "snd h"]
  have owner: "owner_ok ?p (remove1 h (lk_running s)) g" if "g \<in> set (lk_owners s)" "released \<Longrightarrow> g \<noteq> h" for g
  proof (cases "g = h")
    case True
    then show ?thesis using sets owner_facts [OF ok own] that(2) d by (auto simp: owner_ok_def split: if_splits)
  next
    case False
    then have "snd g \<noteq> snd h" using owners_unique [OF ok that(1) own] by blast
    then show ?thesis
      using sets owner_facts [OF ok that(1)] d False by (auto simp: owner_ok_def split: if_splits)
  qed
  have "set (remove1 h (lk_owners s)) = set (lk_owners s) - {h}"
    using do by (simp add: distinct_map)
  then show ?thesis
    using leave_ok [OF p used] d sub owner do unfolding lock_leave_def lock_ok_def
    by (auto simp: list_all_iff distinct_map_remove1)
qed

lemma forget_lock_ok:
  assumes ok: "lock_ok s" and c: "c \<notin> set (in_use (lk_pool s))"
  shows "lock_ok (forget_session c s)"
proof -
  have "snd h \<noteq> c" if "h \<in> set (lk_running s)" for h
    using owner_facts(3) [OF ok, of h] that ok c by (auto simp: lock_ok_def)
  then show ?thesis using ok by (auto simp: lock_ok_def forget_session_def list_all_iff distinct_map_filter)
qed

interpretation locks: safe_system "\<lambda>s. s = new_lock_state limit" lock_step lock_ok for limit
proof
  show "s = new_lock_state limit \<Longrightarrow> lock_ok s" for s
    by (simp add: new_lock_state_def lock_ok_def pool_ok_def new_pool_def open_connections_def)
  fix s t
  assume ok: "lock_ok s" and "lock_step s t"
  from this(2) show "lock_ok t"
  proof (cases rule: lock_step.cases)
    case (others_enter connects)
    then show ?thesis using acquire_lock_ok [OF ok, of connects] by (metis prod.collapse)
  next
    case (others_wake p)
    have p: "pool_ok (lk_pool s)" using ok by (simp add: lock_ok_def)
    obtain c where c: "c \<in> set (free_connections (lk_pool s))" "set (in_use p) = insert c (set (in_use (lk_pool s)))"
        "set (free_connections p) = set (free_connections (lk_pool s)) - {c}" "next_connection p = next_connection (lk_pool s)"
      using wake_sets [OF p others_wake(2)] by blast
    show ?thesis unfolding others_wake(1)
    proof (rule lock_ok_pool [OF ok resume_waiter_ok [OF p others_wake(2)]])
      show "snd h < next_connection p \<and> snd h \<notin> set (free_connections p) \<and>
          (snd h \<in> set (in_use p) \<longleftrightarrow> snd h \<in> set (in_use (lk_pool s)))" if "h \<in> set (lk_owners s)" for h
        using owner_facts [OF ok that] c by auto
    qed
  qed (auto intro: enter_lock_ok [OF ok] leaving_lock_ok [OF ok] forget_lock_ok [OF ok] leave_lock_ok [OF ok])
qed

section \<open>What the lock gives and what it costs\<close>

lemma lock_ok_running:
  assumes "lock_ok s"
  shows "distinct (map fst (lk_running s))" and "distinct (map snd (lk_running s))"
    and "snd ` set (lk_running s) \<subseteq> set (in_use (lk_pool s))"
proof -
  have "inj_on fst (set (lk_running s))" "inj_on snd (set (lk_running s))"
    using assms by (auto simp: lock_ok_def distinct_map intro: inj_on_subset)
  then show "distinct (map fst (lk_running s))" "distinct (map snd (lk_running s))"
    using assms by (auto simp: lock_ok_def distinct_map)
  show "snd ` set (lk_running s) \<subseteq> set (in_use (lk_pool s))" using owner_facts(3) [OF assms] assms by (auto simp: lock_ok_def)
qed

text \<open>
  The execution lock serialises, and each running block keeps a connection from the pool. In every reachable state
  no two blocks run under the same lock name, no two share a connection, and at most as many run as the pool has
  connections; when that many run, every further caller, a running block that wants to write its checkpoint included,
  waits for a connection.
\<close>

theorem execution_lock_excludes_and_can_starve:
  assumes "lock_step\<^sup>*\<^sup>* (new_lock_state limit) s"
  shows "distinct (map fst (lk_running s)) \<and> distinct (map snd (lk_running s)) \<and>
    int (length (lk_running s)) \<le> pool_size (lk_pool s) \<and>
    (if int (length (lk_running s)) = pool_size (lk_pool s) then snd (acquire connects (lk_pool s)) = Blocks else True)"
proof -
  have ok: "lock_ok s" by (rule locks.reachable_inv [OF HOL.refl assms])
  note running = lock_ok_running [OF ok]
  have p: "pool_ok (lk_pool s)" using ok by (simp add: lock_ok_def)
  have "length (lk_running s) = card (snd ` set (lk_running s))"
    using running(2) by (metis distinct_card length_map set_map)
  also have "\<dots> \<le> card (set (in_use (lk_pool s)))" by (rule card_mono [OF finite_set running(3)])
  also have "\<dots> \<le> length (in_use (lk_pool s))" by (rule card_length)
  finally have le: "length (lk_running s) \<le> length (in_use (lk_pool s))" .
  show ?thesis
    using running(1,2) le p by (auto simp: pool_ok_def open_connections_def acquire_def Let_def split: list.splits)
qed


theorem execution_lock_excludes_and_can_starve_witness:
  "length (lk_running (fst (lock_enter True [7] (new_lock_state 1)))) = 1 \<and>
   snd (acquire True (lk_pool (fst (lock_enter True [7] (new_lock_state 1))))) = Blocks"
proof -
  have "lock_step\<^sup>*\<^sup>* (new_lock_state 1) (fst (lock_enter True [7] (new_lock_state 1)))"
    by (rule r_into_rtranclp [of lock_step, OF lock_step.entering])
  moreover have "length (lk_running (fst (lock_enter True [7] (new_lock_state 1)))) = 1"
      "pool_size (lk_pool (fst (lock_enter True [7] (new_lock_state 1)))) = 1"
    by (simp_all add: lock_enter_def new_lock_state_def acquire_def new_pool_def Let_def)
  ultimately show ?thesis using execution_lock_excludes_and_can_starve [of 1 _ True] by simp
qed

end
