(* ===== verification/LongTermMemory.thy ===== *)
theory LongTermMemory
  imports Compression "HOL-Library.Product_Lexorder"
begin

text \<open>
  \<open>SQLiteLongTermMemory\<close> of \<open>services/agent-runtime/allcallall_agent_runtime/context_compression.py\<close>: storing,
  keyword retrieval and access counts, and the protocol \<open>LongTermMemoryStore\<close> as a locale that both memories of the
  module satisfy. The table is the list of its rows in insertion order, in which SQLite's sorter leaves equal rows;
  \<open>now\<close> is \<open>strftime('%s', 'now')\<close>. A packed embedding is the vector it encodes: nothing unpacks it.
\<close>

section \<open>SQL's LIKE\<close>

text \<open>Case is ignored for ASCII only; 37 is the percent sign, 95 the underscore, and there is no escape character. SQLite
  itself stops at a NUL character and refuses patterns beyond its length limit; neither is modelled.\<close>

definition ascii_lower :: "nat \<Rightarrow> nat" where
  "ascii_lower c = (if 65 \<le> c \<and> c \<le> 90 then c + 32 else c)"

fun sql_like :: "ustring \<Rightarrow> ustring \<Rightarrow> bool" where
  "sql_like [] s \<longleftrightarrow> s = []"
| "sql_like (x # p) [] \<longleftrightarrow> x = 37 \<and> sql_like p []"
| "sql_like (x # p) (c # s) \<longleftrightarrow>
     (if x = 37 then sql_like p (c # s) \<or> sql_like (x # p) s
      else (x = 95 \<or> ascii_lower x = ascii_lower c) \<and> sql_like p s)"

section \<open>The table and its operations\<close>

record memory_row =
  mr_key :: ustring
  mr_value :: ustring
  mr_embedding :: "rat list option"
  mr_created_at :: int
  mr_updated_at :: int
  mr_access_count :: int

type_synonym memory_table = "memory_row list"

definition pack_embedding :: "rat list option \<Rightarrow> rat list option" where
  "pack_embedding embedding = (case embedding of None \<Rightarrow> None | Some v \<Rightarrow> if v = [] then None else Some v)"

definition memory_put :: "int \<Rightarrow> ustring \<Rightarrow> ustring \<Rightarrow> rat list option \<Rightarrow> memory_table \<Rightarrow> memory_table" where
  "memory_put now key value embedding rows =
     (if list_ex (\<lambda>r. mr_key r = key) rows
      then map (\<lambda>r. if mr_key r = key
          then r\<lparr>mr_value := value,
                 mr_embedding := (case pack_embedding embedding of None \<Rightarrow> mr_embedding r | Some v \<Rightarrow> Some v),
                 mr_updated_at := now, mr_access_count := mr_access_count r + 1\<rparr> else r) rows
      else rows @ [\<lparr>mr_key = key, mr_value = value, mr_embedding = pack_embedding embedding, mr_created_at = now,
                    mr_updated_at = now, mr_access_count = 1\<rparr>])"

definition memory_hits :: "ustring \<Rightarrow> memory_table \<Rightarrow> memory_table" where
  "memory_hits query rows =
     (let pattern = [37] @ query @ [37] in filter (\<lambda>r. sql_like pattern (mr_key r) \<or> sql_like pattern (mr_value r)) rows)"

text \<open>\<open>ORDER BY access_count DESC, updated_at DESC\<close>.\<close>

definition recall_order :: "memory_table \<Rightarrow> memory_table" where
  "recall_order rows = sort_key (\<lambda>r. (- mr_access_count r, - mr_updated_at r)) rows"

definition memory_retrieve :: "ustring \<Rightarrow> int \<Rightarrow> memory_table \<Rightarrow> ustring list \<times> memory_table" where
  "memory_retrieve query top_k rows =
     (let results = map mr_value (take (nat (max 0 top_k)) (recall_order (memory_hits query rows)))
      in case results of
           [] \<Rightarrow> (results, rows)
         | v # vs \<Rightarrow>
             (results, map (\<lambda>r. if mr_value r = v then r\<lparr>mr_access_count := mr_access_count r + 1\<rparr> else r) rows))"

definition memory_access_count :: "ustring \<Rightarrow> memory_table \<Rightarrow> int" where
  "memory_access_count key rows =
     (case List.find (\<lambda>r. mr_key r = key) rows of None \<Rightarrow> 0 | Some r \<Rightarrow> mr_access_count r)"

section \<open>The protocol\<close>

text \<open>A history of stores (\<^const>\<open>Inl\<close>, with the arguments that do not matter to the protocol: the embedding, the
  time) and recalls (\<^const>\<open>Inr\<close>), and the map its stores leave.\<close>

type_synonym ('a, 'k) memory_call = "'a \<times> 'k \<times> ustring + ustring \<times> int"

primrec memory_run ::
  "('a \<Rightarrow> 'k \<Rightarrow> ustring \<Rightarrow> 's \<Rightarrow> 's) \<Rightarrow> (ustring \<Rightarrow> int \<Rightarrow> 's \<Rightarrow> ustring list \<times> 's) \<Rightarrow> ('a, 'k) memory_call list \<Rightarrow> 's \<Rightarrow> 's" where
  "memory_run store recall [] s = s"
| "memory_run store recall (x # xs) s =
     memory_run store recall xs (case x of Inl (a, k, v) \<Rightarrow> store a k v s | Inr (q, n) \<Rightarrow> snd (recall q n s))"

primrec stored :: "('a, 'k) memory_call list \<Rightarrow> ('k \<rightharpoonup> ustring) \<Rightarrow> 'k \<rightharpoonup> ustring" where
  "stored [] m = m"
| "stored (x # xs) m = stored xs (case x of Inl (a, k, v) \<Rightarrow> m(k \<mapsto> v) | Inr q \<Rightarrow> m)"

text \<open>
  What a caller of \<open>LongTermMemoryStore\<close> may rely on: the memory is a map from keys to values, storing updates it, and
  recalling reads at most \<open>top_k\<close> values of it without changing it.
\<close>

locale long_term_memory =
  fixes store :: "'a \<Rightarrow> 'k \<Rightarrow> ustring \<Rightarrow> 's \<Rightarrow> 's"
    and recall :: "ustring \<Rightarrow> int \<Rightarrow> 's \<Rightarrow> ustring list \<times> 's"
    and contents :: "'s \<Rightarrow> 'k \<Rightarrow> ustring option"
    and valid :: "'s \<Rightarrow> bool"
  assumes store_valid: "valid s \<Longrightarrow> valid (store a k v s)"
    and recall_valid: "valid s \<Longrightarrow> valid (snd (recall q n s))"
    and contents_store: "valid s \<Longrightarrow> contents (store a k v s) = (contents s)(k \<mapsto> v)"
    and contents_recall: "valid s \<Longrightarrow> contents (snd (recall q n s)) = contents s"
    and recall_known: "valid s \<Longrightarrow> set (fst (recall q n s)) \<subseteq> ran (contents s)"
    and recall_bound: "length (fst (recall q n s)) \<le> nat n"
begin

lemma run_valid: "valid s \<Longrightarrow> valid (memory_run store recall xs s)"
  by (induction xs arbitrary: s) (auto simp: store_valid recall_valid split: sum.splits prod.splits)

lemma run_contents: "valid s \<Longrightarrow> contents (memory_run store recall xs s) = stored xs (contents s)"
  by (induction xs arbitrary: s)
    (auto simp: store_valid recall_valid contents_store contents_recall split: sum.splits prod.splits)

lemma recalled_was_stored:
  assumes "valid s"
  shows "set (fst (recall q n (memory_run store recall xs s))) \<subseteq> ran (stored xs (contents s))"
  using recall_known [OF run_valid [OF assms]] by (simp only: run_contents [OF assms])

end

section \<open>What LIKE finds\<close>

lemma sql_like_percent: "sql_like [37] s"
  by (induction s) auto

lemma sql_like_starts:
  "list_all (\<lambda>c. c \<noteq> 37 \<and> c \<noteq> 95) q \<Longrightarrow>
    sql_like (q @ [37]) s \<longleftrightarrow> starts_with (map ascii_lower q) (map ascii_lower s)"
proof (induction q arbitrary: s)
  case Nil
  then show ?case using sql_like_percent by simp
next
  case (Cons x q)
  then show ?case by (cases s) auto
qed

text \<open>A query without wildcards hits exactly the texts that contain it, up to the case of ASCII letters.\<close>

lemma sql_like_contains:
  assumes "list_all (\<lambda>c. c \<noteq> 37 \<and> c \<noteq> 95) q"
  shows "sql_like ([37] @ q @ [37]) s \<longleftrightarrow> substring_in (map ascii_lower q) (map ascii_lower s)"
proof (induction s)
  case Nil
  then show ?case using sql_like_starts [OF assms, of "[]"] by (cases q) auto
next
  case (Cons c s)
  then show ?case using sql_like_starts [OF assms, of "c # s"] by simp
qed

lemma sql_like_everything: "sql_like ([37] @ [37] @ [37]) s"
  by (induction s) auto

section \<open>The SQLite memory satisfies the protocol\<close>

definition memory_contents :: "memory_table \<Rightarrow> ustring \<rightharpoonup> ustring" where
  "memory_contents rows = map_of (map (\<lambda>r. (mr_key r, mr_value r)) rows)"

definition memory_ok :: "memory_table \<Rightarrow> bool" where
  "memory_ok rows \<longleftrightarrow> distinct (map mr_key rows) \<and> list_all (\<lambda>r. 1 \<le> mr_access_count r) rows"

lemma memory_put_keys: "map mr_key (memory_put now key value e rows) =
    (if list_ex (\<lambda>r. mr_key r = key) rows then map mr_key rows else map mr_key rows @ [key])"
  by (auto simp: memory_put_def)

lemma memory_put_ok: "memory_ok rows \<Longrightarrow> memory_ok (memory_put now key value e rows)"
  by (simp only: memory_ok_def memory_put_keys) (auto simp: memory_put_def list_all_iff list_ex_iff)

lemma contents_of_update:
  assumes "\<And>r. mr_key (f r) = mr_key r \<and> mr_value (f r) = value" and "list_ex (\<lambda>r. mr_key r = key) rows"
  shows "memory_contents (map (\<lambda>r. if mr_key r = key then f r else r) rows) = (memory_contents rows)(key \<mapsto> value)"
proof (rule ext)
  fix k
  show "memory_contents (map (\<lambda>r. if mr_key r = key then f r else r) rows) k = ((memory_contents rows)(key \<mapsto> value)) k"
  proof (cases "k = key")
    case True
    with assms(2) show ?thesis by (induction rows) (auto simp: memory_contents_def assms(1))
  next
    case False
    then show ?thesis by (induction rows) (auto simp: memory_contents_def assms(1))
  qed
qed

lemma memory_put_contents: "memory_contents (memory_put now key value e rows) = (memory_contents rows)(key \<mapsto> value)"
proof (cases "list_ex (\<lambda>r. mr_key r = key) rows")
  case True
  then show ?thesis by (simp add: memory_put_def contents_of_update)
next
  case False
  then have "map_of (map (\<lambda>r. (mr_key r, mr_value r)) rows) key = None"
    by (auto simp: map_of_eq_None_iff list_ex_iff image_iff)
  then show ?thesis using False by (auto simp: memory_put_def memory_contents_def map_add_def fun_eq_iff split: option.splits)
qed

text \<open>Recalling changes access counts only, and only upwards.\<close>

lemma memory_retrieve_map:
  obtains f where "snd (memory_retrieve q n rows) = map f rows"
    and "\<And>r. mr_key (f r) = mr_key r \<and> mr_value (f r) = mr_value r \<and> mr_access_count r \<le> mr_access_count (f r)"
proof (cases "fst (memory_retrieve q n rows)")
  case Nil
  then show thesis
    by (intro that [of id]) (auto simp: memory_retrieve_def Let_def split: list.splits)
next
  case (Cons v vs)
  then show thesis
    by (intro that [of "\<lambda>r. if mr_value r = v then r\<lparr>mr_access_count := mr_access_count r + 1\<rparr> else r"])
      (auto simp: memory_retrieve_def Let_def split: list.splits)
qed

lemma memory_retrieve_ok: "memory_ok rows \<Longrightarrow> memory_ok (snd (memory_retrieve q n rows))"
proof -
  obtain f where f: "snd (memory_retrieve q n rows) = map f rows"
      "\<And>r. mr_key (f r) = mr_key r \<and> mr_value (f r) = mr_value r \<and> mr_access_count r \<le> mr_access_count (f r)"
    using memory_retrieve_map [of q n rows] by blast
  assume "memory_ok rows"
  moreover have "1 \<le> mr_access_count (f r)" if "1 \<le> mr_access_count r" for r
    using that f(2) [of r] by linarith
  moreover have "mr_key \<circ> f = mr_key" using f(2) by auto
  ultimately show ?thesis unfolding memory_ok_def f(1) map_map by (simp add: list_all_iff)
qed

lemma memory_retrieve_contents: "memory_contents (snd (memory_retrieve q n rows)) = memory_contents rows"
proof -
  obtain f where "snd (memory_retrieve q n rows) = map f rows"
      "\<And>r. mr_key (f r) = mr_key r \<and> mr_value (f r) = mr_value r \<and> mr_access_count r \<le> mr_access_count (f r)"
    using memory_retrieve_map [of q n rows] by blast
  then show ?thesis by (simp add: memory_contents_def comp_def)
qed

lemma memory_retrieve_results:
  "fst (memory_retrieve q n rows) = map mr_value (take (nat n) (recall_order (memory_hits q rows)))"
  by (auto simp: memory_retrieve_def Let_def max_def split: list.splits)

lemma set_recall_order [simp]: "set (recall_order rows) = set rows"
  by (simp add: recall_order_def)

lemma length_recall_order [simp]: "length (recall_order rows) = length rows"
  by (simp add: recall_order_def)

lemma value_in_contents: "memory_ok rows \<Longrightarrow> r \<in> set rows \<Longrightarrow> memory_contents rows (mr_key r) = Some (mr_value r)"
  by (force simp: memory_ok_def memory_contents_def comp_def intro: map_of_is_SomeI)

lemma memory_retrieve_known:
  assumes "memory_ok rows"
  shows "set (fst (memory_retrieve q n rows)) \<subseteq> ran (memory_contents rows)"
proof -
  have "set (fst (memory_retrieve q n rows)) \<subseteq> mr_value ` set rows"
    by (auto simp: memory_retrieve_results memory_hits_def Let_def dest: in_set_takeD)
  then show ?thesis using value_in_contents [OF assms] by (auto simp: ran_def)
qed

text \<open>With room for every row, a query without wildcards returns exactly the values it occurs in, or whose key it does.\<close>

lemma memory_retrieve_exact:
  assumes ok: "memory_ok rows" and q: "list_all (\<lambda>c. c \<noteq> 37 \<and> c \<noteq> 95) q" and n: "int (length rows) \<le> n"
  shows "set (fst (memory_retrieve q n rows)) =
    {v. \<exists>k. memory_contents rows k = Some v \<and>
       (substring_in (map ascii_lower q) (map ascii_lower k) \<or> substring_in (map ascii_lower q) (map ascii_lower v))}"
proof -
  define P where "P = (\<lambda>k v. sql_like ([37] @ q @ [37]) k \<or> sql_like ([37] @ q @ [37]) v)"
  have hits: "memory_hits q rows = filter (\<lambda>r. P (mr_key r) (mr_value r)) rows"
    by (simp only: memory_hits_def Let_def P_def)
  have "length (memory_hits q rows) \<le> length rows" unfolding hits by (rule length_filter_le)
  then have "length (memory_hits q rows) \<le> nat n" using n by linarith
  then have "set (fst (memory_retrieve q n rows)) = mr_value ` {r \<in> set rows. P (mr_key r) (mr_value r)}"
    by (simp add: memory_retrieve_results hits)
  moreover have "\<dots> = {v. \<exists>k. memory_contents rows k = Some v \<and> P k v}" (is "?l = ?r")
  proof
    show "?l \<subseteq> ?r" using value_in_contents [OF ok] by blast
    show "?r \<subseteq> ?l" by (force simp: memory_contents_def dest: map_of_SomeD)
  qed
  ultimately show ?thesis by (simp only: P_def sql_like_contains [OF q])
qed

text \<open>The time and the embedding of a call do not matter to the contents.\<close>

definition memory_store :: "int \<times> rat list option \<Rightarrow> ustring \<Rightarrow> ustring \<Rightarrow> memory_table \<Rightarrow> memory_table" where
  "memory_store a key value rows = memory_put (fst a) key value (snd a) rows"

interpretation sqlite_memory: long_term_memory memory_store memory_retrieve memory_contents memory_ok
proof unfold_locales
  show "set (fst (memory_retrieve q n rows)) \<subseteq> ran (memory_contents rows)" if "memory_ok rows" for q n rows
    using that by (rule memory_retrieve_known)
qed (auto simp: memory_store_def memory_put_ok memory_retrieve_ok memory_put_contents memory_retrieve_contents memory_retrieve_results)

interpretation process_memory: long_term_memory "\<lambda>a. put" "\<lambda>q n m. (retrieve m n, m)" map_of "\<lambda>m. distinct (map fst m)"
proof unfold_locales
  show "distinct (map fst (put k v m))" if "distinct (map fst m)" for k v and m :: memory
  proof -
    have "fst ` set (put k v m) \<subseteq> insert k (fst ` set m)" for m by (induction k v m rule: put.induct) auto
    then show ?thesis using that by (induction k v m rule: put.induct) auto
  qed
  show "set (fst (retrieve m n, m)) \<subseteq> ran (map_of m)" if "distinct (map fst m)" for n and m :: memory
    using that by (auto simp: retrieve_def ran_distinct dest: in_set_takeD)
qed (auto simp: put_get retrieve_def)

section \<open>The promise\<close>

text \<open>
  C38: the SQLite memory is a map, whatever is stored and recalled, in any order. A recall returns at most \<open>top_k\<close> texts,
  every one the last text stored under some key; and with room for all, a query without wildcards returns exactly the
  texts that contain it, or whose key does, ignoring the case of ASCII letters.
\<close>

theorem recall_finds_what_was_stored:
  "case memory_run memory_store memory_retrieve calls [] of rows \<Rightarrow>
     memory_contents rows = stored calls Map.empty \<and>
     set (fst (memory_retrieve q n rows)) \<subseteq> ran (stored calls Map.empty) \<and>
     length (fst (memory_retrieve q n rows)) \<le> nat n \<and>
     (if list_all (\<lambda>c. c \<noteq> 37 \<and> c \<noteq> 95) q \<and> int (length rows) \<le> n
      then set (fst (memory_retrieve q n rows)) =
        {v. \<exists>k. stored calls Map.empty k = Some v \<and>
           (substring_in (map ascii_lower q) (map ascii_lower k) \<or> substring_in (map ascii_lower q) (map ascii_lower v))}
      else True)"
proof -
  define rows where "rows = memory_run memory_store memory_retrieve calls []"
  have start: "memory_ok []" "memory_contents [] = Map.empty" by (simp_all add: memory_ok_def memory_contents_def)
  have ok: "memory_ok rows" unfolding rows_def by (rule sqlite_memory.run_valid [OF start(1)])
  have c: "memory_contents rows = stored calls Map.empty"
    using sqlite_memory.run_contents [OF start(1)] by (simp add: rows_def start(2))
  have exact: "set (fst (memory_retrieve q n rows)) = {v. \<exists>k. stored calls Map.empty k = Some v \<and>
         (substring_in (map ascii_lower q) (map ascii_lower k) \<or> substring_in (map ascii_lower q) (map ascii_lower v))}"
    if "list_all (\<lambda>c. c \<noteq> 37 \<and> c \<noteq> 95) q" "int (length rows) \<le> n"
    using memory_retrieve_exact [OF ok that] by (simp only: c)
  have known: "set (fst (memory_retrieve q n rows)) \<subseteq> ran (stored calls Map.empty)"
    using memory_retrieve_known [OF ok, of q n] by (simp only: c)
  show ?thesis unfolding rows_def [symmetric] using c known sqlite_memory.recall_bound [of q n rows] exact by simp
qed

end
