(* ===== verification/LexicalBaseline.thy ===== *)
theory LexicalBaseline
  imports Text
begin

text \<open>
  \<open>services/agent-runtime/allcallall_agent_runtime/llamaindex_adapter.py\<close>: the retrieval baseline of the evaluation. The
  llama-index library is an argument: \<^const>\<open>None\<close> when importing it or retrieving with it raises.
\<close>

section \<open>The adapter\<close>

record fixture_document =
  fd_title :: ustring
  fd_text :: ustring

record baseline_hit =
  bh_title :: ustring
  bh_score :: rat
  bh_text :: ustring

record llama_result =
  lr_available :: bool
  lr_hits :: "baseline_hit list"
  lr_reason :: string

definition query_words :: "ustring \<Rightarrow> ustring list" where
  "query_words query = filter (\<lambda>w. 2 \<le> length w) (split_runs is_space (to_lower query))"

text \<open>The words form a set: each counts once.\<close>

definition lexical_score :: "ustring \<Rightarrow> fixture_document \<Rightarrow> int" where
  "lexical_score query d =
     int (length (filter (\<lambda>w. substring_in w (to_lower (fd_title d @ [32] @ fd_text d))) (remdups (query_words query))))"

definition lexical_fallback :: "ustring \<Rightarrow> fixture_document list \<Rightarrow> int \<Rightarrow> string \<Rightarrow> llama_result" where
  "lexical_fallback query documents top_k reason =
     \<lparr>lr_available = False,
      lr_hits = map (\<lambda>d. \<lparr>bh_title = fd_title d, bh_score = of_int (lexical_score query d), bh_text = take 300 (fd_text d)\<rparr>)
        (slice_to top_k (sort_key (\<lambda>d. - lexical_score query d) documents)),
      lr_reason = reason\<rparr>"

text \<open>A node of the library's answer: its title, its score (a missing one counts as 0) and its content.\<close>

definition run_fixture_retrieval ::
  "(ustring \<Rightarrow> fixture_document list \<Rightarrow> int \<Rightarrow> (ustring \<times> rat option \<times> ustring) list option)
     \<Rightarrow> ustring \<Rightarrow> fixture_document list \<Rightarrow> int \<Rightarrow> llama_result" where
  "run_fixture_retrieval llama_index query documents top_k =
     (case llama_index query documents top_k of
        None \<Rightarrow> lexical_fallback query documents top_k ''llama_index_not_usable''
      | Some nodes \<Rightarrow>
          \<lparr>lr_available = True,
           lr_hits = map (\<lambda>(title, score, body). \<lparr>bh_title = title,
             bh_score = (case score of None \<Rightarrow> 0 | Some x \<Rightarrow> x), bh_text = take 300 body\<rparr>) nodes,
           lr_reason = ''''\<rparr>)"

section \<open>What the fallback returns\<close>

text \<open>
  The hits are in descending order of their score, none of the rest scores higher than one of them, and every text is
  cut. Documents without any of the words are not left out.
\<close>

lemma lexical_fallback_ranked:
  assumes "0 \<le> top_k"
  shows "sorted_wrt (\<lambda>a b. bh_score b \<le> bh_score a) (lr_hits (lexical_fallback query documents top_k reason))"
    and "length (lr_hits (lexical_fallback query documents top_k reason)) = min (length documents) (nat top_k)"
    and "list_all (\<lambda>h. length (bh_text h) \<le> 300) (lr_hits (lexical_fallback query documents top_k reason))"
proof -
  let ?sorted = "sort_key (\<lambda>d. - lexical_score query d) documents"
  have "sorted_wrt (\<lambda>a b. lexical_score query b \<le> lexical_score query a) ?sorted"
    using sorted_sort_key [of "\<lambda>d. - lexical_score query d" documents] by (simp add: sorted_map)
  then have "sorted_wrt (\<lambda>a b. lexical_score query b \<le> lexical_score query a) (take (nat top_k) ?sorted)"
    by (rule sorted_wrt_take)
  then show "sorted_wrt (\<lambda>a b. bh_score b \<le> bh_score a) (lr_hits (lexical_fallback query documents top_k reason))"
    using assms by (simp add: lexical_fallback_def slice_to_def sorted_wrt_map)
qed (use assms in \<open>simp_all add: lexical_fallback_def length_slice_to list_all_iff\<close>)

end
