(* ===== verification/TicketServer.thy ===== *)
theory TicketServer
  imports Operations
begin

text \<open>
  The reference MCP server, \<open>services/reference-mcp/allcallall_reference_mcp/main.py\<close> (re-exported by
  \<open>allcallall_interview_mcp/main.py\<close>): the bearer check, the policy lookup and the ticket tools. The table is a list of
  rows in insertion order; the connections commit every statement on its own, so a tool is a sequence of atomic
  statements between which other clients may run. SHA-256 is an argument that gives the hexadecimal digest, and
  \<open>now\<close> is SQLite's \<open>CURRENT_TIMESTAMP\<close>. The MCP and Starlette libraries only pass calls on.
\<close>

section \<open>The bearer token\<close>

datatype token_file =
    Unreadable
  | FileText ustring

definition server_token :: "token_file \<Rightarrow> ustring \<Rightarrow> ustring option" where
  "server_token file env =
     (let v = (case file of FileText t \<Rightarrow> strip t | Unreadable \<Rightarrow> strip env) in if v = [] then None else Some v)"

datatype dispatch_outcome =
    PassedOn
  | Refused
  | NoTokenConfigured
  | DigestTypeError

definition open_paths :: "string list" where
  "open_paths = [''/health'', ''/metrics'']"

definition dispatch :: "token_file \<Rightarrow> ustring \<Rightarrow> string \<Rightarrow> ustring option \<Rightarrow> dispatch_outcome" where
  "dispatch file env path authorization =
     (if List.member open_paths path then PassedOn
      else case server_token file env of
          None \<Rightarrow> NoTokenConfigured
        | Some token \<Rightarrow>
            (case compare_digest (case authorization of None \<Rightarrow> [] | Some h \<Rightarrow> h) (codes ''Bearer '' @ token) of
               None \<Rightarrow> DigestTypeError
             | Some same \<Rightarrow> if same then PassedOn else Refused))"

text \<open>The readiness probe: the token must be there and the database must answer.\<close>

definition health :: "token_file \<Rightarrow> ustring \<Rightarrow> bool \<Rightarrow> nat \<times> string" where
  "health file env database_answers =
     (if server_token file env \<noteq> None \<and> database_answers then (200, ''OK'') else (503, ''not ready''))"

section \<open>The policy\<close>

definition policy_terms :: "ustring list" where
  "policy_terms = [[21709, 24212], codes ''sla'', [25903, 25345], [24037, 21333]]"

definition policy_matched :: "ustring \<Rightarrow> bool" where
  "policy_matched query =
     (let normalized = to_lower (strip query)
      in normalized = [] \<or> list_ex (\<lambda>term. substring_in term normalized) policy_terms)"

definition policy_title :: ustring where
  "policy_title = [23458, 25143, 25903, 25345, 21709, 24212, 25919, 31574]"

definition policy_summary :: ustring where
  "policy_summary =
     [39640, 20248, 20808, 32423, 24037, 21333] @ codes '' 30 '' @ [20998, 38047, 20869, 21709, 24212, 65292,
      26222, 36890, 24037, 21333] @ codes '' 1 '' @ [20010, 24037, 20316, 26085, 20869, 21709, 24212, 12290]"

definition lookup_policy :: "ustring \<Rightarrow> ustring \<Rightarrow> json_object" where
  "lookup_policy query language =
     [(''policy_id'', jstr ''support-sla-v1''), (''title'', JStr policy_title), (''summary'', JStr policy_summary),
      (''query'', JStr query), (''language'', JStr language), (''matched'', JBool (policy_matched query)),
      (''source'', jstr ''interview-mcp'')]"

section \<open>Tickets\<close>

record ticket =
  tk_ticket_id :: ustring
  tk_idempotency_key :: ustring
  tk_subject :: ustring
  tk_description :: ustring
  tk_created_at :: ustring

type_synonym ticket_table = "ticket list"

datatype ticket_error =
    MissingTicketField
  | TicketIdTaken
  | NotDurable

definition stable_ticket_suffix :: "(ustring \<Rightarrow> ustring) \<Rightarrow> ustring \<Rightarrow> ustring" where
  "stable_ticket_suffix sha key = take 16 (sha key)"

definition ticket_id_of :: "(ustring \<Rightarrow> ustring) \<Rightarrow> ustring \<Rightarrow> ustring" where
  "ticket_id_of sha key = codes ''ticket-'' @ stable_ticket_suffix sha key"

text \<open>
  \<open>INSERT ... ON CONFLICT(idempotency_key) DO NOTHING\<close>: the constraint of the clause is checked first and ends the
  statement without a row; the primary key is not part of the clause and raises.
\<close>

definition insert_ticket :: "ticket \<Rightarrow> ticket_table \<Rightarrow> (ticket_error, bool) result \<times> ticket_table" where
  "insert_ticket row rows =
     (if list_ex (\<lambda>r. tk_idempotency_key r = tk_idempotency_key row) rows then (Inr False, rows)
      else if list_ex (\<lambda>r. tk_ticket_id r = tk_ticket_id row) rows then (Inl TicketIdTaken, rows)
      else (Inr True, rows @ [row]))"

definition ticket_by_key :: "ustring \<Rightarrow> ticket_table \<Rightarrow> ticket option" where
  "ticket_by_key key rows = List.find (\<lambda>r. tk_idempotency_key r = key) rows"

definition get_ticket :: "ustring \<Rightarrow> ticket_table \<Rightarrow> ticket option" where
  "get_ticket ticket_id rows = List.find (\<lambda>r. tk_ticket_id r = strip ticket_id) rows"

text \<open>The row the tool is about to insert, or the error of its first check.\<close>

definition new_ticket :: "(ustring \<Rightarrow> ustring) \<Rightarrow> ustring \<Rightarrow> ustring \<Rightarrow> ustring \<Rightarrow> ustring \<Rightarrow> (ticket_error, ticket) result" where
  "new_ticket sha now subject description key =
     (if strip subject = [] \<or> strip description = [] \<or> strip key = [] then Inl MissingTicketField
      else Inr \<lparr>tk_ticket_id = ticket_id_of sha (strip key), tk_idempotency_key = strip key,
                tk_subject = strip subject, tk_description = strip description, tk_created_at = now\<rparr>)"

text \<open>
  The tool with what other clients do between its two statements: \<open>others\<close> takes the table after the insertion to the
  table the selection reads.
\<close>

definition create_support_ticket ::
  "(ustring \<Rightarrow> ustring) \<Rightarrow> ustring \<Rightarrow> ustring \<Rightarrow> ustring \<Rightarrow> ustring \<Rightarrow> (ticket_table \<Rightarrow> ticket_table) \<Rightarrow> ticket_table
     \<Rightarrow> (ticket_error, bool \<times> ticket) result \<times> ticket_table" where
  "create_support_ticket sha now subject description key others rows =
     (case new_ticket sha now subject description key of
        Inl e \<Rightarrow> (Inl e, rows)
      | Inr row \<Rightarrow>
          (case insert_ticket row rows of
             (Inl e, rows') \<Rightarrow> (Inl e, rows')
           | (Inr created, rows') \<Rightarrow>
               (case ticket_by_key (tk_idempotency_key row) (others rows') of
                  None \<Rightarrow> (Inl NotDurable, others rows')
                | Some r \<Rightarrow> (Inr (created, r), others rows'))))"

text \<open>What other clients can do: the statements of their own calls, in any order.\<close>

inductive served :: "(ustring \<Rightarrow> ustring) \<Rightarrow> ticket_table \<Rightarrow> ticket_table \<Rightarrow> bool" for sha where
  none: "served sha rows rows"
| insertion: "served sha rows rows' \<Longrightarrow> new_ticket sha now subject description key = Inr row \<Longrightarrow>
    served sha rows (snd (insert_ticket row rows'))"

inductive_cases served_elim: "served sha rows rows'"

section \<open>What holds of the table\<close>

definition tickets_ok :: "(ustring \<Rightarrow> ustring) \<Rightarrow> ticket_table \<Rightarrow> bool" where
  "tickets_ok sha rows \<longleftrightarrow>
     distinct (map tk_idempotency_key rows) \<and> distinct (map tk_ticket_id rows) \<and>
     list_all (\<lambda>r. tk_ticket_id r = ticket_id_of sha (tk_idempotency_key r) \<and>
       tk_subject r \<noteq> [] \<and> tk_description r \<noteq> [] \<and> tk_idempotency_key r \<noteq> []) rows"

lemma insert_ticket_prefix: "\<exists>more. snd (insert_ticket row rows) = rows @ more"
  by (auto simp: insert_ticket_def)

lemma insert_ticket_ok:
  assumes "tickets_ok sha rows" and "new_ticket sha now s d k = Inr row"
  shows "tickets_ok sha (snd (insert_ticket row rows))"
  using assms by (auto simp: tickets_ok_def new_ticket_def insert_ticket_def list_ex_iff split: if_splits)

lemma served_ok: "served sha rows rows' \<Longrightarrow> tickets_ok sha rows \<Longrightarrow> tickets_ok sha rows'"
  by (induction rule: served.induct) (auto intro: insert_ticket_ok)

lemma served_prefix: "served sha rows rows' \<Longrightarrow> \<exists>more. rows' = rows @ more"
proof (induction rule: served.induct)
  case (insertion rows rows' now subject description key row)
  then show ?case using insert_ticket_prefix [of row rows'] by auto
qed simp

lemma served_trans: "served sha b c \<Longrightarrow> served sha a b \<Longrightarrow> served sha a c"
  by (induction rule: served.induct) (auto intro: served.intros)

lemma find_prefix: "List.find P xs = Some x \<Longrightarrow> List.find P (xs @ ys) = Some x"
  by (induction xs) (auto split: if_splits)

text \<open>Rows never change: what a client has read stays.\<close>

lemma served_keeps:
  assumes "served sha rows rows'"
  shows "ticket_by_key key rows = Some r \<Longrightarrow> ticket_by_key key rows' = Some r"
    and "get_ticket i rows = Some r \<Longrightarrow> get_ticket i rows' = Some r"
  using served_prefix [OF assms] by (auto simp: ticket_by_key_def get_ticket_def intro: find_prefix)

lemma find_unique:
  "distinct (map f rows) \<Longrightarrow> r \<in> set rows \<Longrightarrow> List.find (\<lambda>x. f x = f r) rows = Some r"
  by (induction rows) (auto simp: image_iff)

lemma ticket_by_key_Some: "ticket_by_key key rows = Some r \<Longrightarrow> r \<in> set rows \<and> tk_idempotency_key r = key"
  by (auto simp: ticket_by_key_def find_Some_iff)

text \<open>After its insertion a call always finds a row.\<close>

lemma inserted_is_found:
  assumes "insert_ticket row rows = (Inr created, rows')"
  obtains r where "ticket_by_key (tk_idempotency_key row) rows' = Some r" and "created \<Longrightarrow> r = row"
    and "\<not> created \<Longrightarrow> ticket_by_key (tk_idempotency_key row) rows = Some r"
proof (cases created)
  case True
  then have "rows' = rows @ [row]" and n: "\<not> list_ex (\<lambda>r. tk_idempotency_key r = tk_idempotency_key row) rows"
    using assms by (auto simp: insert_ticket_def split: if_splits)
  moreover have "List.find (\<lambda>r. tk_idempotency_key r = tk_idempotency_key row) rows = None"
    using n by (simp add: find_None_iff list_ex_iff)
  then have "List.find (\<lambda>r. tk_idempotency_key r = tk_idempotency_key row) (rows @ [row]) = Some row"
    by (induction rows) (auto split: if_splits)
  ultimately show thesis using True by (intro that [of row]) (auto simp: ticket_by_key_def)
next
  case False
  then have same: "rows' = rows" and "\<exists>r \<in> set rows. tk_idempotency_key r = tk_idempotency_key row"
    using assms by (auto simp: insert_ticket_def list_ex_iff split: if_splits)
  then have "ticket_by_key (tk_idempotency_key row) rows \<noteq> None" by (auto simp: ticket_by_key_def find_None_iff)
  then show thesis using False same by (auto intro: that)
qed


text \<open>
  What a call gives, whatever other clients do between its statements: missing fields, a collision of the shortened
  digests, or the row of the key, which is the one of the call exactly if there was none before.
\<close>

lemma create_support_ticket_cases:
  assumes others: "\<And>t. served sha t (others t)"
    and run: "create_support_ticket sha now s d k others rows = (r, rows')"
  obtains (missing) "r = Inl MissingTicketField" "rows' = rows" "strip s = [] \<or> strip d = [] \<or> strip k = []"
  | (taken) row where "r = Inl TicketIdTaken" "rows' = rows" "new_ticket sha now s d k = Inr row"
      "ticket_by_key (strip k) rows = None" "\<exists>x \<in> set rows. tk_ticket_id x = tk_ticket_id row"
  | (old) tk where "r = Inr (False, tk)" "rows' = others rows" "ticket_by_key (strip k) rows = Some tk"
      "strip s \<noteq> [] \<and> strip d \<noteq> [] \<and> strip k \<noteq> []"
  | (created) row where "r = Inr (True, row)" "new_ticket sha now s d k = Inr row" "ticket_by_key (strip k) rows = None"
      "rows' = others (rows @ [row])"
proof (cases "new_ticket sha now s d k")
  case (Inl e)
  then show thesis using run by (intro missing) (auto simp: create_support_ticket_def new_ticket_def split: if_splits)
next
  case (Inr row)
  then have key: "tk_idempotency_key row = strip k" and full: "strip s \<noteq> [] \<and> strip d \<noteq> [] \<and> strip k \<noteq> []"
    by (auto simp: new_ticket_def split: if_splits)
  obtain i mid where ins: "insert_ticket row rows = (i, mid)" by fastforce
  have none: "ticket_by_key (strip k) rows = None" if "i \<noteq> Inr False"
    using ins that by (auto simp: insert_ticket_def ticket_by_key_def find_None_iff list_ex_iff key split: if_splits)
  show thesis
  proof (cases i)
    case (Inl e)
    then show thesis using run Inr ins none
      by (intro taken [of row]) (auto simp: create_support_ticket_def insert_ticket_def list_ex_iff split: if_splits)
  next
    case i: (Inr c)
    obtain tk where tk: "ticket_by_key (strip k) mid = Some tk" "c \<Longrightarrow> tk = row"
        "\<not> c \<Longrightarrow> ticket_by_key (strip k) rows = Some tk"
      using inserted_is_found [OF ins [unfolded i]] unfolding key by metis
    have "ticket_by_key (strip k) (others mid) = Some tk" using served_keeps(1) [OF others tk(1)] .
    then have r: "r = Inr (c, tk)" "rows' = others mid"
      using run by (auto simp: create_support_ticket_def Inr ins i key)
    have "mid = (if c then rows @ [row] else rows)" using ins i by (auto simp: insert_ticket_def split: if_splits)
    then show thesis using r tk(2,3) none i Inr full by (cases c) (auto intro: old created)
  qed
qed

lemma create_served:
  assumes "\<And>t. served sha t (others t)" and "create_support_ticket sha now s d k others rows = (r, rows')"
  shows "served sha rows rows'"
  using assms(1) assms(2)
proof (rule create_support_ticket_cases)
  fix row assume row: "new_ticket sha now s d k = Inr row" "ticket_by_key (strip k) rows = None"
    and out: "r = Inr (True, row)" "rows' = others (rows @ [row])"
  have "tk_idempotency_key row = strip k" using row(1) by (auto simp: new_ticket_def split: if_splits)
  then have "snd (insert_ticket row rows) = rows @ [row]"
    using row assms out by (auto simp: create_support_ticket_def insert_ticket_def ticket_by_key_def find_None_iff
        list_ex_iff split: if_splits option.splits)
  then have "served sha rows (rows @ [row])" using served.insertion [OF served.none row(1), of rows] by simp
  then show ?thesis using served_trans assms(1) out(2) by metis
qed (auto intro: assms(1) served.none)

text \<open>The digest is hexadecimal, so an identifier has no blanks to strip.\<close>

definition hex_digest :: "(ustring \<Rightarrow> ustring) \<Rightarrow> bool" where
  "hex_digest sha \<longleftrightarrow> (\<forall>x. list_all (\<lambda>c. \<not> is_space c) (sha x))"

lemma strip_no_space: "list_all (\<lambda>c. \<not> is_space c) s \<Longrightarrow> strip s = s"
proof -
  have "dropWhile is_space t = t" if "list_all (\<lambda>c. \<not> is_space c) t" for t using that by (cases t) auto
  moreover assume "list_all (\<lambda>c. \<not> is_space c) s"
  ultimately show ?thesis by (simp add: strip_def list_all_rev)
qed

lemma ticket_prefix_no_space: "list_all (\<lambda>c. \<not> is_space c) (codes ''ticket-'')"
  by (simp add: codes_def is_space_def)

lemma strip_ticket_id: "hex_digest sha \<Longrightarrow> strip (ticket_id_of sha key) = ticket_id_of sha key"
proof (rule strip_no_space)
  assume "hex_digest sha"
  then have "list_all (\<lambda>c. \<not> is_space c) (stable_ticket_suffix sha key)"
    by (auto simp: hex_digest_def stable_ticket_suffix_def list_all_iff dest: in_set_takeD)
  then show "list_all (\<lambda>c. \<not> is_space c) (ticket_id_of sha key)"
    by (simp only: ticket_id_of_def list_all_append ticket_prefix_no_space simp_thms)
qed

lemma get_ticket_of_row:
  assumes "tickets_ok sha rows" and "hex_digest sha" and "r \<in> set rows"
  shows "get_ticket (tk_ticket_id r) rows = Some r"
proof -
  have "tk_ticket_id r = ticket_id_of sha (tk_idempotency_key r)" using assms(1,3) by (simp add: tickets_ok_def list_all_iff)
  then have "strip (tk_ticket_id r) = tk_ticket_id r" using strip_ticket_id [OF assms(2)] by simp
  then show ?thesis using assms(1,3) find_unique [of tk_ticket_id rows r] by (simp add: get_ticket_def tickets_ok_def)
qed

text \<open>
  C37: a ticket is created exactly once for an idempotency key, whatever other clients do meanwhile and afterwards. A
  call that succeeds reports \<open>created\<close> exactly if no ticket had the key, its ticket can be read back from then on, and
  every later call with the key and the other fields filled in returns this ticket and creates none, whatever subject
  and description it gives.
\<close>

theorem tickets_are_created_once:
  assumes "tickets_ok sha rows" and "hex_digest sha" and "\<And>t. served sha t (others t)" and "\<And>t. served sha t (others2 t)"
    and "create_support_ticket sha now s d k others rows = (Inr (created, tk), rows')"
    and "served sha rows' later" and "strip k2 = strip k"
  shows "(created \<longleftrightarrow> ticket_by_key (strip k) rows = None) \<and>
    (if created then tk_subject tk = strip s \<and> tk_description tk = strip d else True) \<and>
    get_ticket (tk_ticket_id tk) later = Some tk \<and>
    fst (create_support_ticket sha now2 s2 d2 k2 others2 later) =
      (if strip s2 = [] \<or> strip d2 = [] then Inl MissingTicketField else Inr (False, tk))"
proof -
  have ok: "tickets_ok sha rows'" by (rule served_ok [OF create_served [OF assms(3) assms(5)] assms(1)])
  have "strip k \<noteq> [] \<and> (created \<longleftrightarrow> ticket_by_key (strip k) rows = None) \<and> ticket_by_key (strip k) rows' = Some tk \<and>
    (if created then tk_subject tk = strip s \<and> tk_description tk = strip d else True)"
    using assms(3) assms(5)
  proof (rule create_support_ticket_cases)
    fix row assume a: "Inr (created, tk) = Inr (True, row)" "new_ticket sha now s d k = Inr row"
      "ticket_by_key (strip k) rows = None" "rows' = others (rows @ [row])"
    then have f: "strip k \<noteq> []" "tk_subject row = strip s" "tk_description row = strip d" "tk_idempotency_key row = strip k"
      by (auto simp: new_ticket_def split: if_splits)
    have "ticket_by_key (strip k) (rows @ [row]) = Some row"
      using a(3) f(4) by (induction rows) (auto simp: ticket_by_key_def split: if_splits)
    then show ?thesis using a f served_keeps(1) [OF assms(3)] by auto
  qed (use served_keeps(1) [OF assms(3)] in auto)
  then have facts: "strip k \<noteq> []" "created \<longleftrightarrow> ticket_by_key (strip k) rows = None" "ticket_by_key (strip k) later = Some tk"
      "if created then tk_subject tk = strip s \<and> tk_description tk = strip d else True"
    using served_keeps(1) [OF assms(6)] by auto
  obtain r later' where again: "create_support_ticket sha now2 s2 d2 k2 others2 later = (r, later')" by fastforce
  have "r = (if strip s2 = [] \<or> strip d2 = [] then Inl MissingTicketField else Inr (False, tk))"
    using assms(4) again by (rule create_support_ticket_cases) (use facts assms(7) in \<open>auto simp: new_ticket_def split: if_splits\<close>)
  moreover have "get_ticket (tk_ticket_id tk) later = Some tk"
    using get_ticket_of_row [OF served_ok [OF assms(6) ok] assms(2)] ticket_by_key_Some [OF facts(3)] by simp
  ultimately show ?thesis using facts again by simp
qed

definition sample_digest :: "ustring \<Rightarrow> ustring" where
  "sample_digest x = replicate 64 48"

theorem tickets_are_created_once_witness:
  "fst (create_support_ticket sample_digest [50] [66] [67] [75] id
     (snd (create_support_ticket sample_digest [49] [65] [68] [75, 32] id []))) =
   Inr (False, \<lparr>tk_ticket_id = ticket_id_of sample_digest [75], tk_idempotency_key = [75], tk_subject = [65],
      tk_description = [68], tk_created_at = [49]\<rparr>)"
proof -
  let ?tk = "\<lparr>tk_ticket_id = ticket_id_of sample_digest [75], tk_idempotency_key = [75], tk_subject = [65],
      tk_description = [68], tk_created_at = [49]\<rparr>"
  have s: "strip [65] = [65]" "strip [66] = [66]" "strip [67] = [67]" "strip [68] = [68]" "strip [75, 32] = [75]" "strip [75] = [75]"
    by (simp_all add: strip_def is_space_def)
  have r: "create_support_ticket sample_digest [49] [65] [68] [75, 32] id [] = (Inr (True, ?tk), [?tk])"
    by (simp add: create_support_ticket_def new_ticket_def insert_ticket_def ticket_by_key_def s)
  have "\<And>t. served sample_digest t (id t)" by (simp add: served.none)
  moreover have "tickets_ok sample_digest []" by (simp add: tickets_ok_def)
  moreover have "hex_digest sample_digest" by (simp add: hex_digest_def sample_digest_def is_space_def list_all_length)
  ultimately show ?thesis
    using tickets_are_created_once [OF _ _ _ _ r served.none, of id "[75]" "[50]" "[66]" "[67]"] by (simp add: r s)
qed

end
