(* ===== verification/DocsCheck.thy ===== *)
theory DocsCheck
  imports Text "HOL-Library.List_Lexorder"
begin

text \<open>
  The checker of the Markdown documentation, \<open>src/scripts/check_docs.py\<close>, which gates the repository: code fences,
  headings, local links, the documentation index and the governance files. The three regular expressions are written
  out as functions. A path is the list of its parts from the root of the file system, there are no symbolic links, and
  \<open>urlsplit\<close> with \<open>unquote\<close> is a field of the tree that gives no path where the library raises.
\<close>

section \<open>Lines\<close>

definition is_line_break :: "nat \<Rightarrow> bool" where
  "is_line_break c \<longleftrightarrow> 10 \<le> c \<and> c \<le> 13 \<or> 28 \<le> c \<and> c \<le> 30 \<or> c = 133 \<or> c = 8232 \<or> c = 8233"

text \<open>\<open>str.splitlines\<close> after \<open>read_text\<close>, which has already turned every line end into a line feed.\<close>

fun splitlines :: "ustring \<Rightarrow> ustring list" where
  "splitlines [] = []"
| "splitlines (c # cs) =
     (if is_line_break c then [] # splitlines cs
      else (case splitlines cs of [] \<Rightarrow> [[c]] | l # ls \<Rightarrow> (c # l) # ls))"

section \<open>The regular expressions\<close>

text \<open>\<open>FENCE_RE\<close>: at most three blanks, at least three backticks (96) or tildes (126), and the rest of the line.\<close>

definition fence_match :: "ustring \<Rightarrow> ((nat \<times> nat) \<times> ustring) option" where
  "fence_match line =
     (let indent = length (takeWhile (\<lambda>c. c = 32) line); rest = drop indent line
      in if 3 < indent then None
         else case rest of
             [] \<Rightarrow> None
           | m # cs \<Rightarrow>
               (let k = length (takeWhile (\<lambda>c. c = m) rest)
                in if (m = 96 \<or> m = 126) \<and> 3 \<le> k then Some ((m, k), drop k rest) else None))"

text \<open>\<open>HEADING_RE\<close>: one to six number signs (35), white space and something else.\<close>

definition heading_match :: "ustring \<Rightarrow> nat option" where
  "heading_match line =
     (let n = length (takeWhile (\<lambda>c. c = 35) line); rest = drop n line; gap = length (takeWhile is_space rest)
      in if 1 \<le> n \<and> n \<le> 6 \<and> 1 \<le> gap \<and> gap < length rest then Some n else None)"

text \<open>\<open>LINK_RE\<close> after its optional exclamation mark (33): the target and what follows the link.\<close>

definition link_body :: "ustring \<Rightarrow> (ustring \<times> ustring) option" where
  "link_body s =
     (case s of
        [] \<Rightarrow> None
      | b # cs \<Rightarrow>
          (if b \<noteq> 91 then None
           else case dropWhile (\<lambda>c. c \<noteq> 93) cs of
               c # d # ds \<Rightarrow>
                 (let target = takeWhile (\<lambda>c. c \<noteq> 41) ds; rest = dropWhile (\<lambda>c. c \<noteq> 41) ds
                  in if d = 40 \<and> target \<noteq> [] \<and> rest \<noteq> [] then Some (target, tl rest) else None)
             | _ \<Rightarrow> None))"

definition link_at :: "ustring \<Rightarrow> (ustring \<times> ustring) option" where
  "link_at s = (case s of [] \<Rightarrow> None | c # cs \<Rightarrow> if c = 33 then link_body cs else link_body s)"

lemma link_body_shorter: "link_body s = Some (target, rest) \<Longrightarrow> length rest < length s"
proof -
  have w: "length (dropWhile p xs) \<le> length xs" for p and xs :: ustring by (induction xs) auto
  assume "link_body s = Some (target, rest)"
  then obtain cs c d ds where s: "s = 91 # cs" and dw: "dropWhile (\<lambda>c. c \<noteq> 93) cs = c # d # ds"
      and rest: "rest = tl (dropWhile (\<lambda>c. c \<noteq> 41) ds)"
    by (auto simp: link_body_def Let_def split: list.splits if_splits)
  have "length rest \<le> length ds" unfolding rest using w [of "\<lambda>c. c \<noteq> 41" ds] by simp
  then show ?thesis using w [of "\<lambda>c. c \<noteq> 93" cs] by (simp add: s dw)
qed

lemma link_at_shorter: "link_at s = Some (target, rest) \<Longrightarrow> length rest < length s"
  by (fastforce simp: link_at_def split: list.splits if_splits dest: link_body_shorter)

text \<open>\<open>LINK_RE.finditer\<close>: the targets from left to right, matches not overlapping.\<close>

function link_targets :: "ustring \<Rightarrow> ustring list" where
  "link_targets s =
     (if s = [] then []
      else case link_at s of None \<Rightarrow> link_targets (tl s) | Some (target, rest) \<Rightarrow> target # link_targets rest)"
  by pat_completeness auto
termination by (relation "measure length") (auto dest: link_at_shorter)

declare link_targets.simps [simp del]

text \<open>The scheme test ignores case, which adds four letters outside ASCII.\<close>

definition scheme_letter :: "nat \<Rightarrow> bool" where
  "scheme_letter c \<longleftrightarrow> 65 \<le> c \<and> c \<le> 90 \<or> 97 \<le> c \<and> c \<le> 122 \<or> c = 304 \<or> c = 305 \<or> c = 383 \<or> c = 8490"

definition scheme_char :: "nat \<Rightarrow> bool" where
  "scheme_char c \<longleftrightarrow> scheme_letter c \<or> 48 \<le> c \<and> c \<le> 57 \<or> c = 43 \<or> c = 46 \<or> c = 45"

definition has_scheme :: "ustring \<Rightarrow> bool" where
  "has_scheme t =
     (case t of
        [] \<Rightarrow> False
      | c # cs \<Rightarrow>
          scheme_letter c \<and> (case dropWhile scheme_char cs of [] \<Rightarrow> False | d # ds \<Rightarrow> d = 58) \<or>
          c = 47 \<and> cs \<noteq> [] \<and> hd cs = 47)"

definition is_local_target :: "ustring \<Rightarrow> bool" where
  "is_local_target t \<longleftrightarrow> \<not> starts_with [35] t \<and> \<not> has_scheme t"

section \<open>Code fences\<close>

type_synonym fence = "(nat \<times> nat) option"

definition fence_after :: "fence \<Rightarrow> (nat \<times> nat) \<times> ustring \<Rightarrow> fence" where
  "fence_after f m =
     (case m of ((marker, k), suffix) \<Rightarrow>
        (case f of
           None \<Rightarrow> Some (marker, k)
         | Some (marker', k') \<Rightarrow> if marker = marker' \<and> k' \<le> k \<and> strip suffix = [] then None else f))"

fun visible_from :: "fence \<Rightarrow> ustring list \<Rightarrow> ustring list" where
  "visible_from f [] = []"
| "visible_from f (l # ls) =
     (case fence_match l of
        None \<Rightarrow> (if f = None then l else []) # visible_from f ls
      | Some m \<Rightarrow> [] # visible_from (fence_after f m) ls)"

definition visible_lines :: "ustring \<Rightarrow> ustring list" where
  "visible_lines source = visible_from None (splitlines source)"

section \<open>The file tree\<close>

type_synonym path = "ustring list"

record docs_tree =
  dt_root :: path
  dt_sources :: "(path \<times> ustring) list"
  dt_others :: "path list"
  dt_url_path :: "ustring \<Rightarrow> ustring option"

definition path_exists :: "docs_tree \<Rightarrow> path \<Rightarrow> bool" where
  "path_exists t p \<longleftrightarrow> List.member (map fst (dt_sources t)) p \<or> List.member (dt_others t) p"

definition source_of :: "docs_tree \<Rightarrow> path \<Rightarrow> ustring" where
  "source_of t p = (case map_of (dt_sources t) p of None \<Rightarrow> [] | Some s \<Rightarrow> s)"

text \<open>\<open>(directory / target).resolve()\<close>: an absolute target starts over, and \<open>..\<close> goes up.\<close>

definition resolve_path :: "path \<Rightarrow> ustring \<Rightarrow> path" where
  "resolve_path directory target =
     foldl (\<lambda>p part. if part = [] \<or> part = [46] then p else if part = [46, 46] then butlast p else p @ [part])
       (if starts_with [47] target then [] else directory) (split_chars (\<lambda>c. c = 47) target)"

definition relative_parts :: "docs_tree \<Rightarrow> path \<Rightarrow> path option" where
  "relative_parts t p = (if take (length (dt_root t)) p = dt_root t then Some (drop (length (dt_root t)) p) else None)"

definition relative_text :: "docs_tree \<Rightarrow> path \<Rightarrow> ustring" where
  "relative_text t p = join [47] (case relative_parts t p of None \<Rightarrow> p | Some parts \<Rightarrow> parts)"

definition ignored_directories :: "ustring list" where
  "ignored_directories = map codes [''.git'', ''.venv'', ''.worktrees'', ''build'', ''coverage'', ''dist'',
     ''node_modules'', ''output'', ''vendor'']"

definition is_markdown :: "path \<Rightarrow> bool" where
  "is_markdown p \<longleftrightarrow> p \<noteq> [] \<and> drop (length (last p) - 3) (last p) = codes ''.md''"

definition collect_markdown_files :: "docs_tree \<Rightarrow> path list" where
  "collect_markdown_files t =
     sort (filter (\<lambda>p. is_markdown p \<and>
       (case relative_parts t p of
          None \<Rightarrow> False | Some parts \<Rightarrow> \<not> list_ex (List.member ignored_directories) (butlast parts)))
       (map fst (dt_sources t)))"

section \<open>Failures\<close>

datatype docs_failure =
    UntaggedFence ustring nat
  | WrongH1Count ustring nat
  | HeadingSkip ustring nat nat nat
  | DeadLink ustring nat ustring
  | NotIndexed ustring ustring
  | MissingGovernanceFile string
  | UnlinkedGovernanceFile string
  | MissingIndex

definition at_line :: "ustring \<Rightarrow> nat \<Rightarrow> string \<Rightarrow> ustring" where
  "at_line file n m = file @ [58] @ show_nat n @ codes ('': '' @ m)"

fun failure_text :: "docs_failure \<Rightarrow> ustring" where
  "failure_text (UntaggedFence file n) = at_line file n ''opening code fence needs a language tag''"
| "failure_text (WrongH1Count file k) = file @ codes '': expected exactly one H1, found '' @ show_nat k"
| "failure_text (HeadingSkip file n a b) =
     at_line file n ''heading skips from H'' @ show_nat a @ codes '' to H'' @ show_nat b"
| "failure_text (DeadLink file n raw) = at_line file n ''relative link '' @ [34] @ raw @ [34] @ codes '' does not resolve''"
| "failure_text (NotIndexed file index) = file @ codes '': maintained document is not linked from '' @ index"
| "failure_text (MissingGovernanceFile g) = codes (g @ '': required governance file is missing'')"
| "failure_text (UnlinkedGovernanceFile g) = codes (g @ '': governance file is not linked from README.md'')"
| "failure_text MissingIndex = codes ''docs/README.md: canonical documentation index is missing''"

text \<open>A link whose target is blank has no first word to take, and \<open>urlsplit\<close> refuses some targets.\<close>

datatype docs_error =
    BlankTarget
  | BadUrl

fun collect_results :: "('a \<Rightarrow> ('e, 'b list) result) \<Rightarrow> 'a list \<Rightarrow> ('e, 'b list) result" where
  "collect_results f [] = Inr []"
| "collect_results f (x # xs) = and_then (f x) (\<lambda>ys. and_then (collect_results f xs) (\<lambda>zs. Inr (ys @ zs)))"

definition link_destination :: "docs_tree \<Rightarrow> ustring \<Rightarrow> (docs_error, ustring) result" where
  "link_destination t raw =
     (let word = takeWhile (\<lambda>c. \<not> is_space c) (strip raw); angle = (\<lambda>c. c = 60 \<or> c = 62)
      in if word = [] then Inl BlankTarget
         else case dt_url_path t (rev (dropWhile angle (rev (dropWhile angle word)))) of
             None \<Rightarrow> Inl BadUrl | Some p \<Rightarrow> Inr p)"

section \<open>One document\<close>

text \<open>
  The first pass: the failures of the fences, and the headings outside of them with their lines. It follows the fences
  on its own, and says of each marker whether it opens a fence without a language.
\<close>

definition scan_fence :: "fence \<Rightarrow> (nat \<times> nat) \<times> ustring \<Rightarrow> bool \<times> fence" where
  "scan_fence f m =
     (case m of ((marker, k), suffix) \<Rightarrow>
        (case f of
           None \<Rightarrow> (strip suffix = [], Some (marker, k))
         | Some (marker', k') \<Rightarrow> (False, if marker = marker' \<and> k' \<le> k \<and> strip suffix = [] then None else f)))"

fun scan_lines :: "ustring \<Rightarrow> fence \<Rightarrow> nat \<Rightarrow> ustring list \<Rightarrow> docs_failure list \<times> (nat \<times> nat) list" where
  "scan_lines file f n [] = ([], [])"
| "scan_lines file f n (l # ls) =
     (case fence_match l of
        Some m \<Rightarrow>
          (case scan_fence f m of
             (untagged, f') \<Rightarrow>
               (case scan_lines file f' (n + 1) ls of
                  (fs, hs) \<Rightarrow> (if untagged then UntaggedFence file n # fs else fs, hs)))
      | None \<Rightarrow>
          (case scan_lines file f (n + 1) ls of
             (fs, hs) \<Rightarrow>
               (fs, if f \<noteq> None then hs else case heading_match l of None \<Rightarrow> hs | Some level \<Rightarrow> (level, n) # hs)))"

definition heading_skip :: "ustring \<Rightarrow> (nat \<times> nat) \<times> (nat \<times> nat) \<Rightarrow> docs_failure option" where
  "heading_skip file x =
     (case x of ((previous, m), (level, n)) \<Rightarrow>
        if previous + 1 < level then Some (HeadingSkip file n previous level) else None)"

definition heading_failures :: "ustring \<Rightarrow> (nat \<times> nat) list \<Rightarrow> docs_failure list" where
  "heading_failures file headings =
     (let h1 = length (filter (\<lambda>h. fst h = 1) headings)
      in (if h1 \<noteq> 1 then [WrongH1Count file h1] else []) @
         List.map_filter (heading_skip file) (zip headings (tl headings)))"

definition check_link :: "docs_tree \<Rightarrow> path \<Rightarrow> nat \<Rightarrow> ustring \<Rightarrow> (docs_error, docs_failure list) result" where
  "check_link t p n matched =
     (let raw = strip matched
      in if \<not> is_local_target raw then Inr []
         else and_then (link_destination t raw) (\<lambda>target.
           Inr (if target \<noteq> [] \<and> \<not> path_exists t (resolve_path (butlast p) target)
                then [DeadLink (relative_text t p) n raw] else [])))"

definition check_links :: "docs_tree \<Rightarrow> path \<Rightarrow> (docs_error, docs_failure list) result" where
  "check_links t p =
     collect_results (\<lambda>(n, line). collect_results (check_link t p n) (link_targets line))
       (enumerate 1 (visible_lines (source_of t p)))"

definition check_markdown_file :: "docs_tree \<Rightarrow> path \<Rightarrow> (docs_error, docs_failure list) result" where
  "check_markdown_file t p =
     (case scan_lines (relative_text t p) None 1 (splitlines (source_of t p)) of
        (fence_failures, headings) \<Rightarrow>
          and_then (check_links t p) (\<lambda>links.
            Inr (fence_failures @ heading_failures (relative_text t p) headings @ links)))"


section \<open>The whole tree\<close>

definition archive_or_generated :: "path \<Rightarrow> bool" where
  "archive_or_generated parts \<longleftrightarrow>
     starts_with (codes ''docs/archive/'') (join [47] parts) \<or> list_ex (starts_with (codes ''generated-'')) parts"

definition compatibility_pointer :: "ustring \<Rightarrow> bool" where
  "compatibility_pointer source \<longleftrightarrow>
     list_ex (\<lambda>m. substring_in (codes m) (to_lower source))
       [''compatibility page preserves an older link'', ''compatibility pointer'', ''compatibility reference'']"

definition archived_source :: "ustring \<Rightarrow> bool" where
  "archived_source source \<longleftrightarrow>
     substring_in (codes ''archive status:** historical material; not part of the maintained product documentation'')
       (to_lower source)"

text \<open>The files inside of the root that the visible lines of a source link to, relative to a directory.\<close>

definition link_into_root :: "docs_tree \<Rightarrow> path \<Rightarrow> ustring \<Rightarrow> (docs_error, path list) result" where
  "link_into_root t directory matched =
     (let raw = strip matched
      in if \<not> is_local_target raw then Inr []
         else and_then (link_destination t raw) (\<lambda>target.
           Inr (if target = [] then []
                else case relative_parts t (resolve_path directory target) of None \<Rightarrow> [] | Some parts \<Rightarrow> [parts])))"

definition linked_files :: "docs_tree \<Rightarrow> path \<Rightarrow> ustring \<Rightarrow> (docs_error, path list) result" where
  "linked_files t directory source =
     collect_results (\<lambda>line. collect_results (link_into_root t directory) (link_targets line)) (visible_lines source)"

definition docs_index :: path where
  "docs_index = [codes ''docs'', codes ''README.md'']"

definition index_parts :: "docs_tree \<Rightarrow> path" where
  "index_parts t = (if path_exists t (dt_root t @ docs_index) then docs_index else [codes ''INDEX.md''])"

definition check_documentation_index ::
  "docs_tree \<Rightarrow> path list \<Rightarrow> ustring \<Rightarrow> (docs_error, docs_failure list) result" where
  "check_documentation_index t files index_source =
     and_then (linked_files t (butlast (dt_root t @ index_parts t)) index_source) (\<lambda>indexed.
       Inr (List.map_filter (\<lambda>p.
         case relative_parts t p of
           None \<Rightarrow> None
         | Some parts \<Rightarrow>
             (if parts = index_parts t \<or> archive_or_generated parts then None
              else if compatibility_pointer (source_of t p) \<or> archived_source (source_of t p) then None
              else if List.member indexed parts then None
              else Some (NotIndexed (join [47] parts) (join [47] (index_parts t))))) files))"

definition governance_files :: "string list" where
  "governance_files = [''LICENSE'', ''CONTRIBUTING.md'', ''SECURITY.md'', ''CODE_OF_CONDUCT.md'', ''SUPPORT.md'']"

definition check_governance_files :: "docs_tree \<Rightarrow> ustring \<Rightarrow> (docs_error, docs_failure list) result" where
  "check_governance_files t readme_source =
     and_then (linked_files t (dt_root t) readme_source) (\<lambda>linked.
       Inr (List.map_filter (\<lambda>g.
         if \<not> path_exists t (dt_root t @ [codes g]) then Some (MissingGovernanceFile g)
         else if \<not> List.member linked [codes g] then Some (UnlinkedGovernanceFile g) else None) governance_files))"

definition maintained :: "docs_tree \<Rightarrow> path \<Rightarrow> bool" where
  "maintained t p \<longleftrightarrow>
     (case relative_parts t p of None \<Rightarrow> False | Some parts \<Rightarrow> \<not> archive_or_generated parts) \<and>
     \<not> archived_source (source_of t p)"

definition documentation_files :: "docs_tree \<Rightarrow> path list" where
  "documentation_files t =
     filter (\<lambda>p. starts_with (codes ''docs/'') (relative_text t p)) (collect_markdown_files t)"

definition check_documentation_tree :: "docs_tree \<Rightarrow> (docs_error, docs_failure list) result" where
  "check_documentation_tree t =
     and_then (collect_results (check_markdown_file t) (filter (maintained t) (collect_markdown_files t))) (\<lambda>failures.
       (let index = dt_root t @ index_parts t; readme = dt_root t @ [codes ''README.md'']
        in if \<not> path_exists t index then Inr (failures @ [MissingIndex])
           else and_then (check_documentation_index t (documentation_files t) (source_of t index)) (\<lambda>unindexed.
             if \<not> path_exists t readme then Inr (failures @ unindexed)
             else and_then (check_governance_files t (source_of t readme)) (\<lambda>governance.
               Inr (failures @ unindexed @ governance)))))"

definition exit_code :: "docs_tree \<Rightarrow> (docs_error, nat) result" where
  "exit_code t = and_then (check_documentation_tree t) (\<lambda>fs. Inr (if fs \<noteq> [] then 1 else 0))"

section \<open>The two passes agree\<close>

text \<open>
  The scan of a document and \<open>visible_lines\<close> follow the fences each on their own. They agree: the headings of the scan
  are those of the visible lines.
\<close>

definition headings_of :: "nat \<Rightarrow> ustring list \<Rightarrow> (nat \<times> nat) list" where
  "headings_of n ls = List.map_filter (\<lambda>(i, l). map_option (\<lambda>level. (level, i)) (heading_match l)) (enumerate n ls)"

lemma headings_of_simps [simp]:
  "headings_of n [] = []"
  "headings_of n (l # ls) =
    (case heading_match l of None \<Rightarrow> headings_of (Suc n) ls | Some level \<Rightarrow> (level, n) # headings_of (Suc n) ls)"
  by (auto simp: headings_of_def map_filter_simps split: option.splits)

lemma no_heading_in_blank [simp]: "heading_match [] = None"
  by (simp add: heading_match_def)

lemma scan_fence: "scan_fence f m = (f = None \<and> strip (snd m) = [], fence_after f m)"
  by (simp add: scan_fence_def fence_after_def split: prod.split option.split)

lemma scan_headings: "snd (scan_lines file f n ls) = headings_of n (visible_from f ls)"
proof (induction ls arbitrary: f n)
  case (Cons l ls)
  show ?case
    using Cons.IH [of f "n + 1"] Cons.IH [of "fence_after f (the (fence_match l))" "n + 1"]
    by (auto simp: scan_fence split: option.splits prod.splits)
qed simp

lemma length_visible_from: "length (visible_from f ls) = length ls"
  by (induction f ls rule: visible_from.induct) (auto split: option.splits)

text \<open>The lines that open a fence without a language.\<close>

fun untagged_lines :: "fence \<Rightarrow> nat \<Rightarrow> ustring list \<Rightarrow> nat list" where
  "untagged_lines f n [] = []"
| "untagged_lines f n (l # ls) =
     (case fence_match l of
        None \<Rightarrow> untagged_lines f (n + 1) ls
      | Some m \<Rightarrow> (if f = None \<and> strip (snd m) = [] then [n] else []) @ untagged_lines (fence_after f m) (n + 1) ls)"

lemma scan_fences: "fst (scan_lines file f n ls) = map (UntaggedFence file) (untagged_lines f n ls)"
proof (induction ls arbitrary: f n)
  case (Cons l ls)
  show ?case
    using Cons.IH [of f "n + 1"] Cons.IH [of "fence_after f (the (fence_match l))" "n + 1"]
    by (auto simp: scan_fence split: option.splits prod.splits)
qed simp

section \<open>What a clean document is\<close>

text \<open>Every local link of a visible line leads to an existing path, and none of them is blank or refused.\<close>

definition link_fine :: "docs_tree \<Rightarrow> path \<Rightarrow> ustring \<Rightarrow> bool" where
  "link_fine t p matched \<longleftrightarrow>
     (if is_local_target (strip matched)
      then case link_destination t (strip matched) of
          Inl e \<Rightarrow> False | Inr target \<Rightarrow> target = [] \<or> path_exists t (resolve_path (butlast p) target)
      else True)"

lemma check_link_fine: "check_link t p n matched = Inr [] \<longleftrightarrow> link_fine t p matched"
  by (auto simp: check_link_def link_fine_def Let_def and_then_def split: sum.splits)

lemma collect_results_empty: "collect_results f xs = Inr [] \<longleftrightarrow> list_all (\<lambda>x. f x = Inr []) xs"
proof (induction xs)
  case (Cons x xs)
  then show ?case by (cases "f x"; cases "collect_results f xs") (auto simp: list_all_iff)
qed simp

lemma list_all_enumerate: "list_all (\<lambda>(i, x). P x) (enumerate n xs) = list_all P xs"
  by (induction xs arbitrary: n) auto

lemma check_links_fine:
  "check_links t p = Inr [] \<longleftrightarrow> list_all (\<lambda>line. list_all (link_fine t p) (link_targets line)) (visible_lines (source_of t p))"
proof -
  have "(\<lambda>x. (case x of (n, line) \<Rightarrow> collect_results (check_link t p n) (link_targets line)) = Inr []) =
      (\<lambda>(n, line). list_all (link_fine t p) (link_targets line))"
    by (auto simp: fun_eq_iff collect_results_empty check_link_fine)
  then show ?thesis by (simp add: check_links_def collect_results_empty list_all_enumerate)
qed

lemma map_filter_empty: "List.map_filter f xs = [] \<longleftrightarrow> list_all (\<lambda>x. f x = None) xs"
  by (auto simp: map_filter_def filter_empty_conv list_all_iff)

lemma no_heading_failure:
  "heading_failures file hs = [] \<longleftrightarrow>
     length (filter (\<lambda>h. fst h = 1) hs) = 1 \<and> list_all (\<lambda>(a, b). fst b \<le> fst a + 1) (zip hs (tl hs))"
proof -
  have "(\<lambda>x. heading_skip file x = None) = (\<lambda>(a, b). fst b \<le> fst a + 1)"
    by (auto simp: fun_eq_iff heading_skip_def)
  then show ?thesis by (simp add: heading_failures_def Let_def map_filter_empty)
qed

text \<open>
  C40: what the documentation gate accepts. A document passes exactly if every code fence it opens names a language, the
  headings on its visible lines, outside of every fence, hold one level-one heading and never skip a level, and every
  local link of a visible line has a target that resolves to an existing path.
\<close>

theorem clean_document_iff:
  "check_markdown_file t p = Inr [] \<longleftrightarrow>
     untagged_lines None 1 (splitlines (source_of t p)) = [] \<and>
     (let headings = headings_of 1 (visible_lines (source_of t p))
      in length (filter (\<lambda>h. fst h = 1) headings) = 1 \<and>
         list_all (\<lambda>(a, b). fst b \<le> fst a + 1) (zip headings (tl headings))) \<and>
     list_all (\<lambda>line. list_all (link_fine t p) (link_targets line)) (visible_lines (source_of t p))"
proof -
  let ?scan = "scan_lines (relative_text t p) None 1 (splitlines (source_of t p))"
  have "check_markdown_file t p = and_then (check_links t p) (\<lambda>links.
      Inr (fst ?scan @ heading_failures (relative_text t p) (snd ?scan) @ links))"
    by (simp add: check_markdown_file_def case_prod_beta)
  then have "check_markdown_file t p = Inr [] \<longleftrightarrow>
      fst ?scan = [] \<and> heading_failures (relative_text t p) (snd ?scan) = [] \<and> check_links t p = Inr []"
    by (auto simp: and_then_eq_Inr)
  then show ?thesis
    by (simp add: scan_fences scan_headings no_heading_failure check_links_fine visible_lines_def Let_def)
qed

end
