(* ===== verification/OutboundHttp.thy ===== *)
theory OutboundHttp
  imports Operations RagRuntime
begin

text \<open>
  The outbound HTTP clients of both runtimes: \<open>http_requests.py\<close> of \<open>services/agent-runtime\<close> and of
  \<open>services/rag-runtime\<close> (the same text, each on its own settings), and the RAG runtime's settings, client bundle and
  lifespan (\<open>config.py\<close>, \<open>clients.py\<close>, \<open>api.py\<close>).

  The standard library's cookie jar is modelled; what httpx builds and what it receives for a request are arguments.
  A POST is five atomic steps, so that several threads may use one client at a time.
\<close>

section \<open>Cookies\<close>

text \<open>A cookie is stored under its domain, path and name.\<close>

type_synonym cookie = "(string \<times> string \<times> string) \<times> string"
type_synonym cookie_jar = "cookie list"

definition reject_all_cookies :: "cookie \<Rightarrow> bool" where
  "reject_all_cookies c = False"

definition extract_cookies :: "(cookie \<Rightarrow> bool) \<Rightarrow> cookie list \<Rightarrow> cookie_jar \<Rightarrow> cookie_jar" where
  "extract_cookies set_ok received jar = fold (\<lambda>(k, v). dict_set k v) (filter set_ok received) jar"

section \<open>Clients\<close>

record pool_limits =
  li_max_connections :: int
  li_max_keepalive :: int
  li_keepalive_expiry :: rat

record staged_timeout =
  to_connect :: rat
  to_read :: rat
  to_write :: rat
  to_pool :: rat

record http_client =
  hc_set_ok :: "cookie \<Rightarrow> bool"
  hc_jar :: cookie_jar
  hc_limits :: pool_limits
  hc_timeout :: staged_timeout

definition cookieless_client :: "pool_limits \<Rightarrow> staged_timeout \<Rightarrow> http_client" where
  "cookieless_client limits timeout =
     \<lparr>hc_set_ok = reject_all_cookies, hc_jar = [], hc_limits = limits, hc_timeout = timeout\<rparr>"

definition build_http_client :: "runtime_settings \<Rightarrow> http_client" where
  "build_http_client c =
     cookieless_client
       \<lparr>li_max_connections = cf_http_max_connections c, li_max_keepalive = cf_http_max_keepalive_connections c,
        li_keepalive_expiry = cf_http_keepalive_expiry c\<rparr>
       \<lparr>to_connect = cf_http_connect_timeout c, to_read = cf_http_read_timeout c, to_write = cf_http_write_timeout c,
        to_pool = cf_http_pool_timeout c\<rparr>"

definition service_request_timeout :: "runtime_settings \<Rightarrow> rat \<Rightarrow> staged_timeout" where
  "service_request_timeout c read_sec =
     \<lparr>to_connect = cf_http_connect_timeout c, to_read = read_sec, to_write = cf_http_write_timeout c,
      to_pool = cf_http_pool_timeout c\<rparr>"

section \<open>One POST\<close>

type_synonym headers = "(string \<times> string) list"

record out_request =
  oq_url :: string
  oq_payload :: json_object
  oq_headers :: headers
  oq_timeout :: staged_timeout

record post_call =
  pq_url :: string
  pq_payload :: json_object
  pq_headers :: headers
  pq_timeout :: staged_timeout

text \<open>
  What httpx does: the headers of a request built from the client's jar, the URL and the given headers; and the
  answer to the \<open>k\<close>-th request sent, or its exception, with the cookies that came with it.
\<close>

record httpx =
  hx_headers :: "cookie_jar \<Rightarrow> string \<Rightarrow> headers \<Rightarrow> headers"
  hx_send :: "nat \<Rightarrow> out_request \<Rightarrow> post_result \<times> cookie list"

definition lower_ascii :: "string \<Rightarrow> ustring" where
  "lower_ascii s = to_lower (codes s)"

text \<open>The header names of httpx are compared without case; popping a name removes all its values.\<close>

definition pop_header :: "string \<Rightarrow> headers \<Rightarrow> headers" where
  "pop_header name hs = filter (\<lambda>(k, v). lower_ascii k \<noteq> lower_ascii name) hs"

definition clear_cookies :: "http_client \<Rightarrow> http_client" where
  "clear_cookies c = c\<lparr>hc_jar := []\<rparr>"

definition build_request :: "httpx \<Rightarrow> post_call \<Rightarrow> http_client \<Rightarrow> out_request" where
  "build_request hx q c =
     \<lparr>oq_url = pq_url q, oq_payload = pq_payload q, oq_headers = hx_headers hx (hc_jar c) (pq_url q) (pq_headers q),
      oq_timeout = pq_timeout q\<rparr>"

datatype post_phase =
    Fresh
  | Cleared
  | Built out_request
  | Stripped out_request
  | Answered post_result
  | Finished post_result

text \<open>The shared client and the requests it has sent so far.\<close>

record http_state =
  ht_client :: http_client
  ht_sent :: "out_request list"

definition send_request :: "httpx \<Rightarrow> out_request \<Rightarrow> http_state \<Rightarrow> post_result \<times> http_state" where
  "send_request hx rq s =
     (case hx_send hx (length (ht_sent s)) rq of
        (answer, received) \<Rightarrow>
          (answer, s\<lparr>ht_sent := ht_sent s @ [rq],
             ht_client := (ht_client s)\<lparr>hc_jar :=
               extract_cookies (hc_set_ok (ht_client s)) received (hc_jar (ht_client s))\<rparr>\<rparr>))"

definition clear_jar :: "http_state \<Rightarrow> http_state" where
  "clear_jar s = s\<lparr>ht_client := clear_cookies (ht_client s)\<rparr>"

fun post_step :: "httpx \<Rightarrow> post_call \<Rightarrow> post_phase \<Rightarrow> http_state \<Rightarrow> post_phase \<times> http_state" where
  "post_step hx q Fresh s = (Cleared, clear_jar s)"
| "post_step hx q Cleared s = (Built (build_request hx q (ht_client s)), s)"
| "post_step hx q (Built rq) s = (Stripped (rq\<lparr>oq_headers := pop_header ''Cookie'' (oq_headers rq)\<rparr>), s)"
| "post_step hx q (Stripped rq) s = (case send_request hx rq s of (answer, s') \<Rightarrow> (Answered answer, s'))"
| "post_step hx q (Answered answer) s = (Finished answer, clear_jar s)"
| "post_step hx q (Finished answer) s = (Finished answer, s)"

text \<open>The function as one thread runs it; the jar is cleared in \<open>finally\<close>.\<close>

definition post_json_without_cookies :: "httpx \<Rightarrow> post_call \<Rightarrow> http_state \<Rightarrow> post_result \<times> http_state" where
  "post_json_without_cookies hx q s =
     (let s1 = clear_jar s;
          rq = build_request hx q (ht_client s1);
          rq' = rq\<lparr>oq_headers := pop_header ''Cookie'' (oq_headers rq)\<rparr>
      in case send_request hx rq' s1 of (answer, s2) \<Rightarrow> (answer, clear_jar s2))"

text \<open>Several calls on one client: a schedule names the call that makes the next step.\<close>

fun run_posts ::
  "httpx \<Rightarrow> post_call list \<Rightarrow> nat list \<Rightarrow> post_phase list \<Rightarrow> http_state \<Rightarrow> post_phase list \<times> http_state" where
  "run_posts hx qs [] ps s = (ps, s)"
| "run_posts hx qs (i # is) ps s =
     (if i < length qs \<and> i < length ps
      then (case post_step hx (qs ! i) (ps ! i) s of (p, s') \<Rightarrow> run_posts hx qs is (ps[i := p]) s')
      else run_posts hx qs is ps s)"

section \<open>The RAG runtime's settings and clients\<close>

record rag_app_settings = rag_settings +
  ga_http_max_connections :: int
  ga_http_max_keepalive_connections :: int
  ga_http_keepalive_expiry :: rat
  ga_http_connect_timeout :: rat
  ga_http_read_timeout :: rat
  ga_http_write_timeout :: rat
  ga_http_pool_timeout :: rat

definition validate_rag_http_pool :: "rag_app_settings \<Rightarrow> (config_error, rag_app_settings) result" where
  "validate_rag_http_pool c =
     (if list_ex (\<lambda>v. v \<le> 0)
          [of_int (ga_http_max_connections c), of_int (ga_http_max_keepalive_connections c), ga_http_keepalive_expiry c,
           ga_http_connect_timeout c, ga_http_read_timeout c, ga_http_write_timeout c, ga_http_pool_timeout c]
      then Inl NonPositiveHttpSetting
      else if ga_http_max_connections c < ga_http_max_keepalive_connections c then Inl KeepaliveAboveConnections
      else Inr c)"

definition build_rag_http_client :: "rag_app_settings \<Rightarrow> http_client" where
  "build_rag_http_client c =
     cookieless_client
       \<lparr>li_max_connections = ga_http_max_connections c, li_max_keepalive = ga_http_max_keepalive_connections c,
        li_keepalive_expiry = ga_http_keepalive_expiry c\<rparr>
       \<lparr>to_connect = ga_http_connect_timeout c, to_read = ga_http_read_timeout c, to_write = ga_http_write_timeout c,
        to_pool = ga_http_pool_timeout c\<rparr>"

definition rag_request_timeout :: "rag_app_settings \<Rightarrow> rat \<Rightarrow> staged_timeout" where
  "rag_request_timeout c read_sec =
     \<lparr>to_connect = ga_http_connect_timeout c, to_read = read_sec, to_write = ga_http_write_timeout c,
      to_pool = ga_http_pool_timeout c\<rparr>"

text \<open>The process: the pools it has opened and not closed, by number, and \<open>app.state.clients\<close>.\<close>

record rag_clients =
  rg_go_bridge_http :: nat
  rg_qdrant_http :: nat
  rg_owned_http :: "nat option"
  rg_closed :: bool

record rag_process =
  rp_pools :: "(nat \<times> http_client) list"
  rp_next :: nat
  rp_clients :: "rag_clients option"

definition open_pool :: "http_client \<Rightarrow> rag_process \<Rightarrow> nat \<times> rag_process" where
  "open_pool client s =
     (rp_next s, s\<lparr>rp_pools := rp_pools s @ [(rp_next s, client)], rp_next := rp_next s + 1\<rparr>)"

definition close_pool :: "nat \<Rightarrow> rag_process \<Rightarrow> rag_process" where
  "close_pool i s = s\<lparr>rp_pools := filter (\<lambda>p. fst p \<noteq> i) (rp_pools s)\<rparr>"

definition build_rag_clients :: "rag_app_settings \<Rightarrow> nat option \<Rightarrow> rag_process \<Rightarrow> rag_clients \<times> rag_process" where
  "build_rag_clients c injected s =
     (case injected of
        None \<Rightarrow>
          (case open_pool (build_rag_http_client c) s of
             (i, s') \<Rightarrow> (\<lparr>rg_go_bridge_http = i, rg_qdrant_http = i, rg_owned_http = Some i, rg_closed = False\<rparr>, s'))
      | Some i \<Rightarrow> (\<lparr>rg_go_bridge_http = i, rg_qdrant_http = i, rg_owned_http = None, rg_closed = False\<rparr>, s))"

definition close_rag_clients :: "rag_clients \<Rightarrow> rag_process \<Rightarrow> rag_clients \<times> rag_process" where
  "close_rag_clients b s =
     (if rg_closed b then (b, s)
      else case rg_owned_http b of
          None \<Rightarrow> (b\<lparr>rg_closed := True\<rparr>, s)
        | Some i \<Rightarrow> (b\<lparr>rg_closed := True, rg_owned_http := None\<rparr>, close_pool i s))"

text \<open>The lifespan around what is served, which may raise: the bundle is closed in \<open>finally\<close>.\<close>

definition rag_lifespan :: "rag_app_settings \<Rightarrow> (rag_process \<Rightarrow> 'a \<times> rag_process) \<Rightarrow> rag_process \<Rightarrow> 'a \<times> rag_process" where
  "rag_lifespan c serve s =
     (case build_rag_clients c None s of
        (clients, s1) \<Rightarrow>
          (case serve (s1\<lparr>rp_clients := Some clients\<rparr>) of
             (r, s2) \<Rightarrow> (case close_rag_clients clients s2 of (clients', s3) \<Rightarrow> (r, s3\<lparr>rp_clients := Some clients'\<rparr>))))"

section \<open>The constant endpoints\<close>

definition rag_health :: json where
  "rag_health = JObj [(''status'', jstr ''ok''), (''runtime'', jstr ''python_rag'')]"

definition rag_ready :: json where
  "rag_ready = JObj [(''status'', jstr ''ready'')]"

definition rag_capabilities :: json where
  "rag_capabilities = JObj
     [(''runtime'', jstr ''python_rag''),
      (''retrieval'', jstrs [''query'', ''rerank'', ''prepare'', ''agentic'', ''grounding_check'']),
      (''intent_routes'', jstrs [''chat'', ''consult'', ''risk'']),
      (''strategies'', jstrs [''single_pass'', ''adaptive'', ''graph_augmented'', ''multi_hop'', ''risk_focused'',
         ''no_retrieval'']),
      (''vector_stores'', jstrs [''inline'', ''go_bridge'', ''qdrant_optional'']),
      (''evidence'', jstrs [''citations'', ''context_sufficiency'', ''knowledge_graph_edges''])]"

section \<open>No request carries a cookie\<close>

definition cookie_free :: "out_request \<Rightarrow> bool" where
  "cookie_free rq \<longleftrightarrow> list_all (\<lambda>(k, v). lower_ascii k \<noteq> lower_ascii ''Cookie'') (oq_headers rq)"

fun phase_ok :: "post_phase \<Rightarrow> bool" where
  "phase_ok (Stripped rq) = cookie_free rq"
| "phase_ok p = True"

lemma pop_cookie_free: "cookie_free (rq\<lparr>oq_headers := pop_header ''Cookie'' hs\<rparr>)"
  by (auto simp: cookie_free_def pop_header_def list_all_iff)

lemma post_step_sent:
  "phase_ok p \<Longrightarrow> list_all cookie_free (ht_sent s) \<Longrightarrow> post_step hx q p s = (p', s') \<Longrightarrow>
     phase_ok p' \<and> list_all cookie_free (ht_sent s')"
  by (cases p) (auto simp: pop_cookie_free clear_jar_def send_request_def split: prod.splits)

lemma run_posts_sent:
  "list_all phase_ok ps \<Longrightarrow> list_all cookie_free (ht_sent s) \<Longrightarrow>
     list_all cookie_free (ht_sent (snd (run_posts hx qs is ps s)))"
proof (induction hx qs "is" ps s rule: run_posts.induct)
  case (2 hx qs i "is" ps s)
  show ?case
  proof (cases "i < length qs \<and> i < length ps")
    case True
    obtain p s' where st: "post_step hx (qs ! i) (ps ! i) s = (p, s')" by fastforce
    have "phase_ok (ps ! i)" using 2(3) True by (simp add: list_all_length)
    then have ok: "phase_ok p \<and> list_all cookie_free (ht_sent s')" by (rule post_step_sent [OF _ 2(4) st])
    then have "list_all phase_ok (ps[i := p])"
      using 2(3) True by (auto simp: list_all_length nth_list_update)
    then show ?thesis using 2(1) [OF True st [symmetric]] ok True st by simp
  qed (use 2 in auto)
qed simp

text \<open>A client that rejects every cookie keeps an empty jar at every moment.\<close>

definition jar_empty :: "http_state \<Rightarrow> bool" where
  "jar_empty s \<longleftrightarrow> hc_set_ok (ht_client s) = reject_all_cookies \<and> hc_jar (ht_client s) = []"

lemma extract_rejected [simp]: "extract_cookies reject_all_cookies received jar = jar"
  by (simp add: extract_cookies_def reject_all_cookies_def)

lemma post_step_jar: "jar_empty s \<Longrightarrow> jar_empty (snd (post_step hx q p s))"
  by (cases p) (auto simp: jar_empty_def clear_jar_def clear_cookies_def send_request_def split: prod.splits)

lemma run_posts_jar: "jar_empty s \<Longrightarrow> jar_empty (snd (run_posts hx qs is ps s))"
proof (induction hx qs "is" ps s rule: run_posts.induct)
  case (2 hx qs i "is" ps s)
  show ?case
  proof (cases "i < length qs \<and> i < length ps")
    case True
    obtain p s' where st: "post_step hx (qs ! i) (ps ! i) s = (p, s')" by fastforce
    have "jar_empty s'" using post_step_jar [OF 2(3), of hx "qs ! i" "ps ! i"] st by simp
    then show ?thesis using 2(1) [OF True st [symmetric]] True st by simp
  qed (use 2 in auto)
qed simp

text \<open>The steps of one call alone are the function.\<close>

lemma run_posts_alone:
  "run_posts hx [q] (replicate 5 0) [Fresh] s =
     (case post_json_without_cookies hx q s of (answer, s') \<Rightarrow> ([Finished answer], s'))"
  by (auto simp: numeral_eq_Suc post_json_without_cookies_def Let_def split: prod.splits)

text \<open>
  No outbound request carries a cookie, whoever else uses the client at the same time, whatever httpx puts into a
  request from the jar and whatever cookies a service sets: also on an injected client that accepts cookies. The jar
  of the runtimes' own clients stays empty throughout, so nothing of one tenant's session is there for another.
\<close>

theorem no_request_carries_a_cookie:
  "list_all cookie_free
     (ht_sent (snd (run_posts hx qs schedule (map (\<lambda>q. Fresh) qs) \<lparr>ht_client = client, ht_sent = []\<rparr>))) \<and>
   hc_jar (ht_client (snd (run_posts hx qs schedule (map (\<lambda>q. Fresh) qs)
     \<lparr>ht_client = build_http_client c, ht_sent = []\<rparr>))) = [] \<and>
   hc_jar (ht_client (snd (run_posts hx qs schedule (map (\<lambda>q. Fresh) qs)
     \<lparr>ht_client = build_rag_http_client rag, ht_sent = []\<rparr>))) = []"
proof -
  have fresh: "list_all phase_ok (map (\<lambda>q. Fresh) qs)" by (simp add: list_all_iff)
  have "jar_empty \<lparr>ht_client = build_http_client c, ht_sent = []\<rparr>"
    and "jar_empty \<lparr>ht_client = build_rag_http_client rag, ht_sent = []\<rparr>"
    by (simp_all add: jar_empty_def build_http_client_def build_rag_http_client_def cookieless_client_def)
  from this [THEN run_posts_jar, of hx qs schedule "map (\<lambda>q. Fresh) qs"]
  show ?thesis using run_posts_sent [OF fresh] by (simp add: jar_empty_def)
qed

section \<open>The lifespan closes what it opened\<close>

text \<open>Whatever is served leaves the table of pools alone: the endpoints only use the clients they are given.\<close>

definition pools_ok :: "rag_process \<Rightarrow> bool" where
  "pools_ok s \<longleftrightarrow> list_all (\<lambda>p. fst p < rp_next s) (rp_pools s)"

lemma close_opened_pool:
  assumes "pools_ok s"
  shows "filter (\<lambda>p. fst p \<noteq> rp_next s) (rp_pools s @ [(rp_next s, client)]) = rp_pools s"
proof -
  have "filter (\<lambda>p. fst p \<noteq> rp_next s) (rp_pools s) = rp_pools s"
    using assms by (auto simp: pools_ok_def list_all_iff intro!: filter_True)
  then show ?thesis by simp
qed

lemma rag_lifespan_closes_its_pool:
  assumes "pools_ok s" and "\<And>t. rp_pools (snd (serve t)) = rp_pools t"
  shows "rp_pools (snd (rag_lifespan c serve s)) = rp_pools s"
proof -
  obtain clients s1 where b: "build_rag_clients c None s = (clients, s1)" by fastforce
  obtain r s2 where r: "serve (s1\<lparr>rp_clients := Some clients\<rparr>) = (r, s2)" by fastforce
  have "rp_pools s2 = rp_pools s1" using assms(2) [of "s1\<lparr>rp_clients := Some clients\<rparr>"] r by simp
  then show ?thesis
    using b r close_opened_pool [OF assms(1)]
    by (auto simp: rag_lifespan_def build_rag_clients_def open_pool_def close_rag_clients_def close_pool_def)
qed

text \<open>A bundle is closed once, however often it is told to; an injected pool stays its caller's.\<close>

lemma close_rag_clients_once:
  "close_rag_clients b s = (b', s') \<Longrightarrow> close_rag_clients b' s'' = (b', s'')"
  by (auto simp: close_rag_clients_def split: if_splits option.splits)

lemma injected_rag_pool_stays_open:
  "snd (close_rag_clients (fst (build_rag_clients c (Some i) s)) t) = t"
  by (simp add: close_rag_clients_def build_rag_clients_def)

text \<open>Valid settings bound the keep-alive connections of the RAG client's pool by its connections.\<close>

lemma valid_rag_pool:
  "validate_rag_http_pool c = Inr c' \<Longrightarrow>
     c' = c \<and> 0 < li_max_keepalive (hc_limits (build_rag_http_client c)) \<and>
     li_max_keepalive (hc_limits (build_rag_http_client c)) \<le> li_max_connections (hc_limits (build_rag_http_client c)) \<and>
     0 < to_connect (hc_timeout (build_rag_http_client c)) \<and> 0 < to_pool (hc_timeout (build_rag_http_client c))"
  by (auto simp: validate_rag_http_pool_def build_rag_http_client_def cookieless_client_def split: if_splits)

end
