(* ===== verification/RunnerApi.thy ===== *)
theory RunnerApi
  imports McpRunner RagRuntime
begin

text \<open>
  The endpoints of the sandbox runner (\<open>services/sandbox-runner/allcallall_sandbox_runner/main.py\<close>) over the one-shot
  guard, the validation and the execution of \<open>McpRunner\<close>, with its counters (\<open>metrics.py\<close>, the counters of
  \<open>RagRuntime\<close>). The file system's answer for the supervisor's socket and the clock are arguments.
\<close>

section \<open>Start and health\<close>

definition metric_names :: "string list" where
  "metric_names =
     [''sandbox_runner_validate_total'', ''sandbox_runner_validate_failed_total'',
      ''sandbox_runner_validate_duration_ms_count'', ''sandbox_runner_validate_duration_ms_sum'',
      ''sandbox_runner_execute_total'', ''sandbox_runner_execute_failed_total'',
      ''sandbox_runner_execute_duration_ms_count'', ''sandbox_runner_execute_duration_ms_sum'',
      ''sandbox_runner_timeout_total'', ''sandbox_runner_secret_unwrap_failed_total'']"

definition initial_counters :: counters where
  "initial_counters = fold (\<lambda>name. inc name 0) metric_names []"

text \<open>An answer, an \<open>HTTPException\<close>, or an exception that leaves the endpoint.\<close>

datatype 'a served =
    Served 'a
  | HttpFailed nat string
  | Escaped

datatype socket_stat = IsSocket | OtherFile | StatFailed

definition health :: "env \<Rightarrow> (ustring \<Rightarrow> socket_stat) \<Rightarrow> json served" where
  "health env stat =
     (let supervisor_socket = strip (env ''SANDBOX_SUPERVISOR_SOCKET'')
      in if strip (env ''SANDBOX_ONE_SHOT'') = codes ''1'' \<and> supervisor_socket \<noteq> [] \<and> stat supervisor_socket \<noteq> IsSocket
         then HttpFailed 503 ''sandbox supervisor is not ready''
         else Served (JObj [(''status'', jstr ''ok'')]))"

text \<open>The application starts only with a valid network configuration.\<close>

definition runner_lifespan :: "env \<Rightarrow> (ustring \<Rightarrow> bool) \<Rightarrow> bool" where
  "runner_lifespan env is_ip = (case validate_interview_network_config env is_ip of Inl e \<Rightarrow> False | Inr u \<Rightarrow> True)"

section \<open>The endpoints\<close>

record runner_state =
  ru_consumed :: bool
  ru_counters :: counters

record validation_response =
  vs_image_digest :: string
  vs_scan_status :: string
  vs_scan_report :: json_object
  vs_tools :: "discovered_tool list"

definition validation_response0 :: "discovered_tool list \<Rightarrow> validation_response" where
  "validation_response0 tools =
     \<lparr>vs_image_digest = '''', vs_scan_status = ''passed'', vs_scan_report = [], vs_tools = tools\<rparr>"

text \<open>\<open>str(exc)\<close>; a \<open>TimeoutError\<close> is raised without a text.\<close>

fun error_text :: "runner_error \<Rightarrow> string" where
  "error_text (McpError m) = m"
| "error_text (SecurityError m) = m"
| "error_text (TransportFailed m) = m"
| "error_text TimedOut = ''''"
| "error_text OtherError = ''''"

definition count_unwrap :: "string \<Rightarrow> counters \<Rightarrow> counters" where
  "count_unwrap m cs =
     (if substring_in (codes ''unwrap'') (to_lower (codes m)) then inc ''sandbox_runner_secret_unwrap_failed_total'' 1 cs
      else cs)"

text \<open>The detail of a refusal of \<open>claim_one_shot\<close>.\<close>

definition refusal_detail :: "env \<Rightarrow> string \<Rightarrow> nat \<Rightarrow> string" where
  "refusal_detail env operation code =
     (if code = 409 then ''sandbox request was already consumed''
      else if codes operation \<noteq> strip (env ''SANDBOX_OPERATION'') then ''sandbox operation is not authorized''
      else ''sandbox execution identity is not authorized'')"

definition count_duration :: "string \<Rightarrow> int \<Rightarrow> counters \<Rightarrow> counters" where
  "count_duration operation elapsed_ms cs =
     inc (''sandbox_runner_'' @ operation @ ''_duration_ms_sum'') elapsed_ms
       (inc (''sandbox_runner_'' @ operation @ ''_duration_ms_count'') 1 cs)"

definition validate_outcome ::
  "(runner_error, discovered_tool list) result \<Rightarrow> counters \<Rightarrow> validation_response served \<times> counters" where
  "validate_outcome r cs =
     (case r of
        Inr tools \<Rightarrow> (Served (validation_response0 tools), cs)
      | Inl OtherError \<Rightarrow> (Escaped, cs)
      | Inl e \<Rightarrow> (HttpFailed 422 (error_text e), count_unwrap (error_text e) (inc ''sandbox_runner_validate_failed_total'' 1 cs)))"

definition validate_endpoint ::
  "env \<Rightarrow> (validation_request \<Rightarrow> (runner_error, discovered_tool list) result) \<Rightarrow> int \<Rightarrow> validation_request
     \<Rightarrow> runner_state \<Rightarrow> validation_response served \<times> runner_state" where
  "validate_endpoint env run elapsed_ms rq s =
     (let cs = inc ''sandbox_runner_validate_total'' 1 (ru_counters s)
      in case claim_one_shot env ''validate'' '''' (ru_consumed s) of
           (Refused code, consumed) \<Rightarrow>
             (HttpFailed code (refusal_detail env ''validate'' code), \<lparr>ru_consumed = consumed, ru_counters = cs\<rparr>)
         | (Granted, consumed) \<Rightarrow>
             (case validate_outcome (run rq) cs of
                (answer, cs') \<Rightarrow>
                  (answer, \<lparr>ru_consumed = consumed, ru_counters = count_duration ''validate'' elapsed_ms cs'\<rparr>)))"

definition execute_outcome ::
  "(runner_error, string \<times> json) result \<Rightarrow> counters \<Rightarrow> (string \<times> json) served \<times> counters" where
  "execute_outcome r cs =
     (case r of
        Inr out \<Rightarrow> (Served out, cs)
      | Inl TimedOut \<Rightarrow> (HttpFailed 504 ''MCP execution timed out'', inc ''sandbox_runner_timeout_total'' 1 cs)
      | Inl OtherError \<Rightarrow> (Escaped, cs)
      | Inl e \<Rightarrow> (HttpFailed 422 (error_text e), count_unwrap (error_text e) (inc ''sandbox_runner_execute_failed_total'' 1 cs)))"

definition execute_endpoint ::
  "env \<Rightarrow> (execution_request \<Rightarrow> (runner_error, string \<times> json) result) \<Rightarrow> int \<Rightarrow> execution_request
     \<Rightarrow> runner_state \<Rightarrow> (string \<times> json) served \<times> runner_state" where
  "execute_endpoint env run elapsed_ms rq s =
     (let cs = inc ''sandbox_runner_execute_total'' 1 (ru_counters s)
      in case claim_one_shot env ''execute'' (er_execution_id rq) (ru_consumed s) of
           (Refused code, consumed) \<Rightarrow>
             (HttpFailed code (refusal_detail env ''execute'' code), \<lparr>ru_consumed = consumed, ru_counters = cs\<rparr>)
         | (Granted, consumed) \<Rightarrow>
             (case execute_outcome (run rq) cs of
                (answer, cs') \<Rightarrow>
                  (answer, \<lparr>ru_consumed = consumed, ru_counters = count_duration ''execute'' elapsed_ms cs'\<rparr>)))"

definition reset_one_shot_for_test :: "runner_state \<Rightarrow> runner_state" where
  "reset_one_shot_for_test s = s\<lparr>ru_consumed := False\<rparr>"

section \<open>A sandbox serving requests\<close>

datatype runner_call = CallValidate validation_request | CallExecute execution_request

datatype runner_answer =
    ValidateAnswer "validation_response served"
  | ExecuteAnswer "(string \<times> json) served"

fun call_key :: "runner_call \<Rightarrow> string \<times> string" where
  "call_key (CallValidate rq) = (''validate'', '''')"
| "call_key (CallExecute rq) = (''execute'', er_execution_id rq)"

text \<open>The sessions of the requests, one after the other, with the time each takes.\<close>

record sandbox =
  sx_env :: env
  sx_validate :: "nat \<Rightarrow> validation_request \<Rightarrow> (runner_error, discovered_tool list) result"
  sx_execute :: "nat \<Rightarrow> execution_request \<Rightarrow> (runner_error, string \<times> json) result"
  sx_elapsed_ms :: "nat \<Rightarrow> int"

fun serve_call :: "sandbox \<Rightarrow> nat \<Rightarrow> runner_call \<Rightarrow> runner_state \<Rightarrow> runner_answer \<times> runner_state" where
  "serve_call x k (CallValidate rq) s =
     (case validate_endpoint (sx_env x) (sx_validate x k) (sx_elapsed_ms x k) rq s of (a, s') \<Rightarrow> (ValidateAnswer a, s'))"
| "serve_call x k (CallExecute rq) s =
     (case execute_endpoint (sx_env x) (sx_execute x k) (sx_elapsed_ms x k) rq s of (a, s') \<Rightarrow> (ExecuteAnswer a, s'))"

fun serve_calls :: "sandbox \<Rightarrow> nat \<Rightarrow> runner_call list \<Rightarrow> runner_state \<Rightarrow> runner_answer list \<times> runner_state" where
  "serve_calls x k [] s = ([], s)"
| "serve_calls x k (c # cs) s =
     (case serve_call x k c s of
        (a, s') \<Rightarrow> (case serve_calls x (k + 1) cs s' of (as, s'') \<Rightarrow> (a # as, s'')))"

text \<open>A request that the one-shot guard turned away.\<close>

fun turned_away :: "runner_answer \<Rightarrow> bool" where
  "turned_away (ValidateAnswer (HttpFailed code d)) \<longleftrightarrow> code \<in> {403, 409}"
| "turned_away (ExecuteAnswer (HttpFailed code d)) \<longleftrightarrow> code \<in> {403, 409}"
| "turned_away a \<longleftrightarrow> False"

section \<open>One request per sandbox\<close>

lemma outcomes_not_turned_away:
  "\<not> turned_away (ValidateAnswer (fst (validate_outcome r cs)))"
  "\<not> turned_away (ExecuteAnswer (fst (execute_outcome r' cs)))"
  by (auto simp: validate_outcome_def execute_outcome_def split: sum.splits runner_error.splits)

lemma refused_codes: "claim_one_shot env operation execution_id consumed = (Refused code, consumed') \<Longrightarrow> code \<in> {403, 409}"
  by (auto simp: claim_one_shot_def split: if_splits)

lemma validate_claims:
  assumes "claim_one_shot env ''validate'' '''' (ru_consumed s) = (out, consumed')"
  shows "ru_consumed (snd (validate_endpoint env run ms rq s)) = consumed'"
    and "turned_away (ValidateAnswer (fst (validate_endpoint env run ms rq s))) \<longleftrightarrow> out \<noteq> Granted"
proof -
  note unfolded = validate_endpoint_def Let_def assms case_prod_beta
  have "ru_consumed (snd (validate_endpoint env run ms rq s)) = consumed' \<and>
    (turned_away (ValidateAnswer (fst (validate_endpoint env run ms rq s))) \<longleftrightarrow> out \<noteq> Granted)"
  proof (cases out)
    case Granted
    then show ?thesis by (simp add: unfolded outcomes_not_turned_away)
  next
    case (Refused code)
    then have "code \<in> {403, 409}" using refused_codes assms by simp
    then show ?thesis using Refused by (simp add: unfolded)
  qed
  then show "ru_consumed (snd (validate_endpoint env run ms rq s)) = consumed'"
    and "turned_away (ValidateAnswer (fst (validate_endpoint env run ms rq s))) \<longleftrightarrow> out \<noteq> Granted" by blast+
qed

lemma execute_claims:
  assumes "claim_one_shot env ''execute'' (er_execution_id rq) (ru_consumed s) = (out, consumed')"
  shows "ru_consumed (snd (execute_endpoint env run ms rq s)) = consumed'"
    and "turned_away (ExecuteAnswer (fst (execute_endpoint env run ms rq s))) \<longleftrightarrow> out \<noteq> Granted"
proof -
  note unfolded = execute_endpoint_def Let_def assms case_prod_beta
  have "ru_consumed (snd (execute_endpoint env run ms rq s)) = consumed' \<and>
    (turned_away (ExecuteAnswer (fst (execute_endpoint env run ms rq s))) \<longleftrightarrow> out \<noteq> Granted)"
  proof (cases out)
    case Granted
    then show ?thesis by (simp add: unfolded outcomes_not_turned_away)
  next
    case (Refused code)
    then have "code \<in> {403, 409}" using refused_codes assms by simp
    then show ?thesis using Refused by (simp add: unfolded)
  qed
  then show "ru_consumed (snd (execute_endpoint env run ms rq s)) = consumed'"
    and "turned_away (ExecuteAnswer (fst (execute_endpoint env run ms rq s))) \<longleftrightarrow> out \<noteq> Granted" by blast+
qed

lemma serve_call_claims:
  assumes "serve_call x k c s = (a, s')"
    and "claim_one_shot (sx_env x) (fst (call_key c)) (snd (call_key c)) (ru_consumed s) = (out, consumed')"
  shows "ru_consumed s' = consumed'" and "turned_away a \<longleftrightarrow> out \<noteq> Granted"
proof -
  have "ru_consumed s' = consumed' \<and> (turned_away a \<longleftrightarrow> out \<noteq> Granted)"
  proof (cases c)
    case (CallValidate rq)
    then show ?thesis
      using assms validate_claims [of "sx_env x" s out consumed'] by (auto split: prod.splits) (metis fst_conv snd_conv)+
  next
    case (CallExecute rq)
    then show ?thesis
      using assms execute_claims [of "sx_env x" rq s out consumed'] by (auto split: prod.splits) (metis fst_conv snd_conv)+
  qed
  then show "ru_consumed s' = consumed'" "turned_away a \<longleftrightarrow> out \<noteq> Granted" by blast+
qed

lemma serve_calls_claims:
  "map turned_away (fst (serve_calls x k cs s)) =
     map (\<lambda>out. out \<noteq> Granted) (claims (sx_env x) (map call_key cs) (ru_consumed s))"
proof (induction cs arbitrary: k s)
  case (Cons c cs)
  obtain a s1 where a: "serve_call x k c s = (a, s1)" by fastforce
  obtain out consumed where o: "claim_one_shot (sx_env x) (fst (call_key c)) (snd (call_key c)) (ru_consumed s) = (out, consumed)"
    by fastforce
  show ?case
    using Cons [of "k + 1" s1] serve_call_claims [OF a o] a o
    by (cases "call_key c") (auto split: prod.splits)
qed simp

text \<open>
  A one-shot sandbox answers at most one of all the requests it ever gets; to every other it says 403 or 409, without
  running anything.
\<close>

theorem one_shot_runner_answers_once:
  "if strip (sx_env x ''SANDBOX_ONE_SHOT'') = codes ''1''
   then length (filter (\<lambda>a. \<not> turned_away a) (fst (serve_calls x k cs s))) \<le> (if ru_consumed s then 0 else 1)
   else list_all (\<lambda>a. \<not> turned_away a) (fst (serve_calls x k cs s))"
proof -
  have count: "length (filter (\<lambda>a. \<not> turned_away a) as) = length (filter (\<lambda>out. out = Granted) outs)"
    if "map turned_away as = map (\<lambda>out. out \<noteq> Granted) outs" for as outs
    using that by (induction as outs rule: list_induct2') auto
  have all_granted: "list_all (\<lambda>a. \<not> turned_away a) as"
    if "map turned_away as = map (\<lambda>c. False) ys" for as and ys :: "(string \<times> string) list"
    using that by (induction as ys rule: list_induct2') auto
  note claimed = serve_calls_claims [of x k cs s]
  show ?thesis
  proof (cases "strip (sx_env x ''SANDBOX_ONE_SHOT'') = codes ''1''")
    case True
    then show ?thesis
      using one_shot_sandbox_serves_once [of "sx_env x" "map call_key cs" "ru_consumed s"] count [OF claimed] by simp
  next
    case False
    then have "claims (sx_env x) (map call_key cs) (ru_consumed s) = map (\<lambda>r. Granted) (map call_key cs)"
      using one_shot_sandbox_serves_once [of "sx_env x" "map call_key cs" "ru_consumed s"] by simp
    then have "map turned_away (fst (serve_calls x k cs s)) = map (\<lambda>c. False) (map call_key cs)"
      using claimed by (simp add: comp_def)
    then have "list_all (\<lambda>a. \<not> turned_away a) (fst (serve_calls x k cs s))" by (rule all_granted)
    then show ?thesis using False by simp
  qed
qed

section \<open>The counters\<close>

definition counter_at :: "counters \<Rightarrow> string \<Rightarrow> int" where
  "counter_at cs name = get_or (map_of cs) name 0"

lemma counter_inc_at:
  "counter_at (inc name d cs) other = counter_at cs other + (if other = name \<and> strip_ascii name \<noteq> '''' then d else 0)"
  by (simp add: counter_at_def inc_def get_or_def dict_set_lookup)

lemma named_counter: "strip_ascii (CHR ''s'' # name) \<noteq> ''''"
proof -
  have "\<not> is_space (of_char (CHR ''s''))" by (simp add: is_space_def)
  moreover have "codes (CHR ''s'' # name) = of_char (CHR ''s'') # codes name" by (simp add: codes_def)
  ultimately show ?thesis by (simp add: strip_ascii_def strip_def)
qed

text \<open>The requests of an operation that came, and those that were let through: in the counters and in the history.\<close>

definition came :: "string \<Rightarrow> counters \<Rightarrow> int" where
  "came operation cs = counter_at cs (''sandbox_runner_'' @ operation @ ''_total'')"

definition ran :: "string \<Rightarrow> counters \<Rightarrow> int" where
  "ran operation cs = counter_at cs (''sandbox_runner_'' @ operation @ ''_duration_ms_count'')"

definition operations :: "string list" where
  "operations = [''validate'', ''execute'']"

lemma outcomes_keep:
  assumes "operation \<in> set operations"
  shows "came operation (snd (execute_outcome r cs)) = came operation cs"
    and "ran operation (snd (execute_outcome r cs)) = ran operation cs"
    and "came operation (snd (validate_outcome r' cs)) = came operation cs"
    and "ran operation (snd (validate_outcome r' cs)) = ran operation cs"
  using assms
  by (auto simp: operations_def came_def ran_def execute_outcome_def validate_outcome_def count_unwrap_def counter_inc_at
      split: sum.splits runner_error.splits)

lemma duration_counts:
  assumes "operation \<in> set operations" and "operation' \<in> set operations"
  shows "came operation (count_duration operation' ms cs) = came operation cs"
    and "ran operation (count_duration operation' ms cs) = ran operation cs + of_bool (operation = operation')"
  using assms
  by (auto simp: operations_def came_def ran_def count_duration_def counter_inc_at named_counter)

lemma inc_total_counts:
  assumes "operation \<in> set operations"
  shows "came operation (inc ''sandbox_runner_validate_total'' 1 cs) = came operation cs + of_bool (operation = ''validate'')"
    and "came operation (inc ''sandbox_runner_execute_total'' 1 cs) = came operation cs + of_bool (operation = ''execute'')"
    and "ran operation (inc ''sandbox_runner_validate_total'' 1 cs) = ran operation cs"
    and "ran operation (inc ''sandbox_runner_execute_total'' 1 cs) = ran operation cs"
  using assms by (auto simp: operations_def came_def ran_def counter_inc_at named_counter)

lemma serve_call_counts:
  assumes "operation \<in> set operations"
  shows "came operation (ru_counters (snd (serve_call x k c s))) =
      came operation (ru_counters s) + of_bool (fst (call_key c) = operation)"
    and "ran operation (ru_counters (snd (serve_call x k c s))) =
      ran operation (ru_counters s) + of_bool (fst (call_key c) = operation \<and> \<not> turned_away (fst (serve_call x k c s)))"
proof -
  have ops: "''validate'' \<in> set operations" "''execute'' \<in> set operations" by (simp_all add: operations_def)
  note counts = outcomes_keep [OF assms] duration_counts [OF assms ops(1)] duration_counts [OF assms ops(2)]
    inc_total_counts [OF assms]
  have "came operation (ru_counters (snd (serve_call x k c s))) =
      came operation (ru_counters s) + of_bool (fst (call_key c) = operation) \<and>
    ran operation (ru_counters (snd (serve_call x k c s))) =
      ran operation (ru_counters s) + of_bool (fst (call_key c) = operation \<and> \<not> turned_away (fst (serve_call x k c s)))"
  proof (cases c)
    case (CallValidate rq)
    obtain out consumed where o: "claim_one_shot (sx_env x) ''validate'' '''' (ru_consumed s) = (out, consumed)" by fastforce
    show ?thesis
      using validate_claims(2) [OF o, of "sx_validate x k" "sx_elapsed_ms x k" rq] counts o CallValidate
      by (cases out) (auto simp: validate_endpoint_def Let_def case_prod_beta)
  next
    case (CallExecute rq)
    obtain out consumed where
      o: "claim_one_shot (sx_env x) ''execute'' (er_execution_id rq) (ru_consumed s) = (out, consumed)" by fastforce
    show ?thesis
      using execute_claims(2) [OF o, of "sx_execute x k" "sx_elapsed_ms x k"] counts o CallExecute
      by (cases out) (auto simp: execute_endpoint_def Let_def case_prod_beta)
  qed
  then show "came operation (ru_counters (snd (serve_call x k c s))) =
      came operation (ru_counters s) + of_bool (fst (call_key c) = operation)"
    and "ran operation (ru_counters (snd (serve_call x k c s))) =
      ran operation (ru_counters s) + of_bool (fst (call_key c) = operation \<and> \<not> turned_away (fst (serve_call x k c s)))"
    by blast+
qed

text \<open>
  The totals count every request of an operation, the durations only those the guard let through, whether they
  succeed, fail or raise.
\<close>

theorem counters_follow_the_requests:
  assumes "operation \<in> set operations"
  shows "came operation (ru_counters (snd (serve_calls x k cs s))) =
      came operation (ru_counters s) + int (length (filter (\<lambda>c. fst (call_key c) = operation) cs))"
    and "ran operation (ru_counters (snd (serve_calls x k cs s))) =
      ran operation (ru_counters s) +
      int (length (filter (\<lambda>(c, a). fst (call_key c) = operation \<and> \<not> turned_away a)
        (zip cs (fst (serve_calls x k cs s)))))"
  using serve_call_counts [OF assms]
  by (induction cs arbitrary: k s) (simp_all add: case_prod_beta algebra_simps)

text \<open>
  The counter of failed unwraps recognises them by their text. When the secret store cannot be reached the caller is
  told that the execution failed, and the counter stays as it is.
\<close>

lemma no_unwrap_in_text: "\<not> substring_in (codes ''unwrap'') (to_lower (codes ''MCP tool execution failed''))"
  by code_simp

lemma unreachable_secret_store_is_not_counted:
  assumes "er_secret_wrap_token rq \<noteq> []" and "rstrip_char 47 (strip (sr_env w ''OPENBAO_ADDR'')) \<noteq> []"
    and "\<And>a t. sr_unwrap w a t = None"
  shows "execute_tool w session rq = Inl (McpError ''MCP tool execution failed'')"
    and "counter_at (snd (execute_outcome (execute_tool w session rq) cs)) ''sandbox_runner_secret_unwrap_failed_total'' =
      counter_at cs ''sandbox_runner_secret_unwrap_failed_total''"
proof -
  have "unwrap_secrets (sr_env w) (sr_float_repr w) (sr_unwrap w) (er_secret_wrap_token rq) = Inl OtherError"
    using assms by (simp add: unwrap_secrets_def Let_def)
  then show failed: "execute_tool w session rq = Inl (McpError ''MCP tool execution failed'')"
    by (simp add: execute_tool_def wrap_errors_def)
  show "counter_at (snd (execute_outcome (execute_tool w session rq) cs)) ''sandbox_runner_secret_unwrap_failed_total'' =
      counter_at cs ''sandbox_runner_secret_unwrap_failed_total''"
    by (simp add: failed execute_outcome_def count_unwrap_def no_unwrap_in_text counter_inc_at)
qed

end
