(* ===== verification/SharedHelpers.thy ===== *)
theory SharedHelpers
  imports RagRuntime
begin

text \<open>
  The package both runtimes may share: \<open>packages/shared/shared/utils.py\<close> and \<open>packages/shared/shared/scoring.py\<close>, with
  its loops as they are written, and that they compute what the agent runtime's own helpers (\<open>Text\<close>, \<open>Rerank\<close>) and the
  RAG runtime's scoring (\<open>RagRetrieval\<close>) compute. Python's \<open>float\<close> of a text is an argument.
\<close>

section \<open>The environment\<close>

text \<open>\<open>os.getenv(name, "")\<close>: the empty text for a variable that is not set.\<close>

type_synonym environment = "string \<Rightarrow> ustring"

definition true_words :: "ustring list" where
  "true_words = [codes ''1'', codes ''true'', codes ''yes'', codes ''on'']"

definition env_bool :: "environment \<Rightarrow> string \<Rightarrow> bool \<Rightarrow> bool" where
  "env_bool env name fallback =
     (let raw = to_lower (strip (env name)) in if raw = [] then fallback else raw \<in> set true_words)"

definition env_int :: "environment \<Rightarrow> string \<Rightarrow> int \<Rightarrow> int" where
  "env_int env name fallback =
     (let raw = strip (env name)
      in if raw = [] then fallback else (case parse_int raw of None \<Rightarrow> fallback | Some n \<Rightarrow> n))"

definition env_float :: "(ustring \<Rightarrow> rat option) \<Rightarrow> environment \<Rightarrow> string \<Rightarrow> rat \<Rightarrow> rat" where
  "env_float parse_float env name fallback =
     (let raw = strip (env name)
      in if raw = [] then fallback else (case parse_float raw of None \<Rightarrow> fallback | Some x \<Rightarrow> x))"

definition float_or_zero :: "(ustring \<Rightarrow> rat option) \<Rightarrow> json \<Rightarrow> rat" where
  "float_or_zero parse_float v =
     (case v of
        JInt i \<Rightarrow> of_int i | JNum x \<Rightarrow> x | JBool b \<Rightarrow> (if b then 1 else 0)
      | JStr t \<Rightarrow> (case parse_float t of None \<Rightarrow> 0 | Some x \<Rightarrow> x)
      | _ \<Rightarrow> 0)"

section \<open>Lists of texts\<close>

fun unique_strings_from :: "ustring set \<Rightarrow> ustring list \<Rightarrow> ustring list \<Rightarrow> ustring list" where
  "unique_strings_from seen out [] = out"
| "unique_strings_from seen out (v # vs) =
     (let normalized = squeeze_space (strip v)
      in if normalized = [] \<or> normalized \<in> seen then unique_strings_from seen out vs
         else unique_strings_from (insert normalized seen) (out @ [normalized]) vs)"

definition unique_strings_shared :: "ustring list \<Rightarrow> ustring list" where
  "unique_strings_shared values = unique_strings_from {} [] values"

definition contains_any_shared :: "ustring \<Rightarrow> ustring list \<Rightarrow> bool" where
  "contains_any_shared t keywords =
     (let lowered = to_lower t in list_ex (\<lambda>keyword. substring_in (to_lower keyword) lowered) keywords)"

fun first_non_empty_shared :: "ustring list \<Rightarrow> ustring" where
  "first_non_empty_shared [] = []"
| "first_non_empty_shared (v # vs) = (if strip v \<noteq> [] then v else first_non_empty_shared vs)"

section \<open>Tokens and scores\<close>

fun tokenize_from :: "ustring list \<Rightarrow> ustring set \<Rightarrow> ustring list \<Rightarrow> ustring list \<Rightarrow> ustring list" where
  "tokenize_from stopwords seen out [] = out"
| "tokenize_from stopwords seen out (t # ts) =
     (let token = strip t
      in if length token < 2 \<or> token \<in> seen \<or> token \<in> set stopwords then tokenize_from stopwords seen out ts
         else tokenize_from stopwords (insert token seen) (out @ [token]) ts)"

definition tokenize_shared :: "ustring \<Rightarrow> bool \<Rightarrow> ustring list" where
  "tokenize_shared t remove_stopwords =
     tokenize_from (if remove_stopwords then stopwords_rag else []) {} []
       (split_runs (\<lambda>c. \<not> is_token_char c) (to_lower t))"

type_synonym boosts = "(string \<times> rat) list"

definition agent_source_boosts :: boosts where
  "agent_source_boosts =
     [(''meeting_transcript'', 5), (''knowledge'', 4), (''transcript'', 3), (''followup'', 25 / 10), (''memory'', 2),
      (''note'', 15 / 10), (''message'', 1)]"

definition rag_source_boosts :: boosts where
  "rag_source_boosts =
     [(''meeting_transcript'', 6), (''knowledge'', 5), (''message'', 2), (''note'', 2), (''followup'', 2),
      (''memory'', 15 / 10)]"

definition rules_score_agent :: "context_chunk \<Rightarrow> ustring list \<Rightarrow> nat \<Rightarrow> rat \<times> ustring" where
  "rules_score_agent c tokens original_index =
     (let t = to_lower (chunk_text c);
          title = to_lower (ck_title c @ codes '' '' @ ck_source_title c);
          overlap = length (filter (\<lambda>w. w \<noteq> [] \<and> substring_in w t) tokens);
          title_overlap = length (filter (\<lambda>w. w \<noteq> [] \<and> substring_in w title) tokens);
          boost = get_or (map_of agent_source_boosts) (ck_source_type c) 0;
          base = of_int (max (ck_score c) 0) / 100;
          score = of_nat overlap * 10 + of_nat title_overlap * 8 + boost + base - of_nat original_index * (1 / 100)
      in (score,
          codes ''rules keyword_overlap='' @ show_int (int overlap) @ codes '' title_overlap='' @
          show_int (int title_overlap) @ codes '' source='' @ codes (ck_source_type c)))"

definition rules_score_shared :: "context_chunk \<Rightarrow> ustring list \<Rightarrow> nat \<Rightarrow> boosts option \<Rightarrow> rat \<times> ustring" where
  "rules_score_shared c tokens original_index source_boosts =
     (case source_boosts of
        Some boosts \<Rightarrow>
          (let t = to_lower (chunk_text c);
               overlap = length (filter (\<lambda>w. substring_in w t) tokens);
               boost = get_or (map_of boosts) (ck_source_type c) 0;
               score = of_nat overlap * 10 + boost + of_int (max (ck_score c) 0) / 100 - of_nat original_index * (1 / 100)
           in (score, codes ''rules overlap='' @ show_int (int overlap) @ codes '' source='' @ codes (ck_source_type c)))
      | None \<Rightarrow> rules_score_rag c tokens original_index)"

section \<open>The same functions\<close>

lemma unique_strings_from_eq:
  "unique_strings_from seen out vs =
     out @ dedup_by id seen (filter (\<lambda>v. v \<noteq> []) (map normalize_space vs))"
  by (induction seen out vs rule: unique_strings_from.induct) (auto simp: Let_def normalize_space_def)

lemma tokenize_from_eq:
  "tokenize_from stopwords seen out ts =
     out @ dedup_by id seen (filter (\<lambda>w. 2 \<le> length w \<and> w \<notin> set stopwords) (map strip ts))"
  by (induction stopwords seen out ts rule: tokenize_from.induct) (auto simp: Let_def)

lemma first_non_empty_eq: "first_non_empty_shared vs = first_non_empty vs"
  by (induction vs rule: first_non_empty_shared.induct) (auto simp: first_non_empty_def)

text \<open>
  The shared package can replace what the runtimes have of their own: its list helpers and tokens are theirs, and
  its scores give both runtimes the order and the reasons they compute themselves.
\<close>

theorem shared_package_agrees_with_the_runtimes:
  "unique_strings_shared vs = unique_strings vs"
  "first_non_empty_shared vs = first_non_empty vs"
  "contains_any_shared t vs = contains_any t vs"
  "tokenize_shared t False = tokenize t"
  "tokenize_shared t True = tokenize_rag t"
  "rules_score_agent c tokens i = rules_score c tokens i"
  "rules_score_shared c tokens i None = rules_score_rag c tokens i"
  "rules_score_shared c tokens i (Some rag_source_boosts) = rules_score_rag c tokens i"
proof -
  have agent: "get_or (map_of agent_source_boosts) k 0 = source_boost k" for k
    by (simp add: agent_source_boosts_def source_boost_def get_or_def)
  have rag: "get_or (map_of rag_source_boosts) k 0 = source_boost_rag k" for k
    by (simp add: rag_source_boosts_def source_boost_rag_def get_or_def)
  show "unique_strings_shared vs = unique_strings vs"
    by (simp add: unique_strings_shared_def unique_strings_def unique_strings_from_eq)
  show "first_non_empty_shared vs = first_non_empty vs" by (rule first_non_empty_eq)
  show "contains_any_shared t vs = contains_any t vs"
    by (simp add: contains_any_shared_def contains_any_def)
  show "tokenize_shared t False = tokenize t" and "tokenize_shared t True = tokenize_rag t"
    by (simp_all add: tokenize_shared_def tokenize_def tokenize_rag_def tokenize_from_eq)
  show "rules_score_agent c tokens i = rules_score c tokens i"
    by (simp add: rules_score_agent_def rules_score_def agent overlap_count_def chunk_text_def)
  show "rules_score_shared c tokens i None = rules_score_rag c tokens i"
    by (simp add: rules_score_shared_def)
  show "rules_score_shared c tokens i (Some rag_source_boosts) = rules_score_rag c tokens i"
    by (simp add: rules_score_shared_def rules_score_rag_def rag)
qed

section \<open>Reading the environment\<close>

lemma strip_ends: "strip s = [] \<longleftrightarrow> list_all is_space s"
proof -
  have "list_all is_space (dropWhile is_space s) \<longleftrightarrow> list_all is_space s" by (induction s) auto
  then show ?thesis by (simp add: strip_def list_all_iff)
qed

text \<open>An unset or blank variable gives the fallback, and so does a text that is no number; never an exception.\<close>

lemma blank_variable_is_the_fallback:
  "list_all is_space (env name) \<Longrightarrow>
     env_bool env name b = b \<and> env_int env name i = i \<and> env_float parse_float env name x = x"
  by (simp add: env_bool_def env_int_def env_float_def to_lower_def flip: strip_ends)

text \<open>A switch is on by one of the four words only: any other text turns it off, whatever the fallback.\<close>

lemma env_bool_on:
  "\<not> list_all is_space (env name) \<Longrightarrow>
     env_bool env name fallback \<longleftrightarrow> to_lower (strip (env name)) \<in> set true_words"
  by (simp add: env_bool_def to_lower_def flip: strip_ends)

end
