(* ===== verification/Scripts.thy ===== *)
theory Scripts
  imports Evaluation RagEval
begin

text \<open>
  The evaluation and contract scripts: \<open>scripts/portfolio_eval.py\<close>, \<open>scripts/run_online_eval.py\<close> and
  \<open>scripts/generate_contracts.py\<close>, over the evaluations of \<open>Evaluation\<close> and \<open>RagEval\<close>.

  Files are texts by name. The schemas that Pydantic derives from the models, \<open>repr\<close> of a double, the clock and the
  random identifiers are arguments; parsing the command line is left to \<open>argparse\<close>.
\<close>

section \<open>Indented JSON\<close>

text \<open>\<open>json.dumps(x, ensure_ascii=False, indent=2)\<close>, from a level of indentation.\<close>

definition indentation :: "nat \<Rightarrow> ustring" where
  "indentation level = 10 # replicate (2 * level) 32"

fun json_indent :: "(rat \<Rightarrow> ustring) \<Rightarrow> nat \<Rightarrow> json \<Rightarrow> ustring" where
  "json_indent fr level (JList js) =
     (if js = [] then codes ''[]''
      else [91] @ indentation (level + 1) @
        join ([44] @ indentation (level + 1)) (map (json_indent fr (level + 1)) js) @ indentation level @ [93])"
| "json_indent fr level (JObj kvs) =
     (if kvs = [] then codes ''{}''
      else [123] @ indentation (level + 1) @
        join ([44] @ indentation (level + 1))
          (map (\<lambda>kv. quote_text False (codes (fst kv)) @ codes '': '' @ json_indent fr (level + 1) (snd kv)) kvs) @
        indentation level @ [125])"
| "json_indent fr level j = json_dumps fr False j"

type_synonym files = "string \<rightharpoonup> ustring"

section \<open>The portfolio report\<close>

definition cases_json :: "int \<Rightarrow> int \<Rightarrow> json" where
  "cases_json passed all_cases = JObj [(''passed'', JInt passed), (''total'', JInt all_cases)]"

definition agent_rates :: "eval_summary \<Rightarrow> (string \<times> rat) list" where
  "agent_rates s =
     [(''task_success_rate'', em_task_success_rate s), (''route_accuracy'', em_route_accuracy s),
      (''loop_completion_rate'', em_loop_completion_rate s), (''stop_reason_valid_rate'', em_stop_reason_valid_rate s),
      (''tool_intent_match_rate'', em_tool_intent_match_rate s), (''approval_safety_rate'', em_approval_safety_rate s),
      (''citation_coverage_rate'', em_citation_coverage_rate s), (''grounding_check_rate'', em_grounding_check_rate s),
      (''unsupported_claim_guard_rate'', em_unsupported_claim_guard_rate s),
      (''memory_reflection_precision'', em_memory_reflection_precision s),
      (''max_iteration_compliance_rate'', em_max_iteration_compliance_rate s)]"

definition rag_rates :: "rag_eval_summary \<Rightarrow> (string \<times> rat) list" where
  "rag_rates s =
     [(''rerank_top_match_rate'', es_rerank_top_match_rate s), (''route_match_rate'', es_route_match_rate s),
      (''graph_expansion_rate'', es_graph_expansion_rate s), (''grounding_pass_rate'', es_grounding_pass_rate s),
      (''sufficiency_pass_rate'', es_sufficiency_pass_rate s),
      (''retrieval_refinement_success_rate'', es_retrieval_refinement_success_rate s)]"

text \<open>A section of the report: the runtime, its provider, the passed and all cases, and the rates by name.\<close>

record portfolio_section =
  pp_runtime :: string
  pp_provider :: string
  pp_passed :: int
  pp_total :: int
  pp_rates :: "(string \<times> rat) list"

record portfolio_report =
  po_scope :: string
  po_agent :: portfolio_section
  po_rag :: portfolio_section

text \<open>The RAG report keeps the default runtime and provider of its model.\<close>

definition build_report :: "eval_report \<Rightarrow> rag_eval_report \<Rightarrow> portfolio_report" where
  "build_report agent_report rag_report =
     \<lparr>po_scope = ''deterministic regression and task-level eval; not online product-quality measurement'',
      po_agent = \<lparr>pp_runtime = eo_runtime agent_report, pp_provider = eo_provider agent_report,
        pp_passed = em_passed_cases (eo_summary agent_report), pp_total = em_total_cases (eo_summary agent_report),
        pp_rates = agent_rates (eo_summary agent_report)\<rparr>,
      po_rag = \<lparr>pp_runtime = ''python_rag'', pp_provider = ''rules'',
        pp_passed = es_passed_cases (et_summary rag_report), pp_total = es_total_cases (et_summary rag_report),
        pp_rates = rag_rates (et_summary rag_report)\<rparr>\<rparr>"

definition section_json :: "portfolio_section \<Rightarrow> json" where
  "section_json p = JObj
     ([(''runtime'', jstr (pp_runtime p)), (''provider'', jstr (pp_provider p)),
       (''cases'', cases_json (pp_passed p) (pp_total p))] @ map (\<lambda>(k, x). (k, JNum x)) (pp_rates p))"

definition report_json :: "portfolio_report \<Rightarrow> json" where
  "report_json r = JObj
     [(''scope'', jstr (po_scope r)), (''agent_runtime'', section_json (po_agent r)),
      (''rag_runtime'', section_json (po_rag r))]"

definition labelled_rate :: "portfolio_section \<Rightarrow> string \<times> string \<Rightarrow> ustring" where
  "labelled_rate p lk = (case lk of (label, key) \<Rightarrow> rate_line label (get_or (map_of (pp_rates p)) key 0))"

definition cases_line :: "portfolio_section \<Rightarrow> ustring" where
  "cases_line p = codes ''- Cases: `'' @ show_int (pp_passed p) @ codes ''/'' @ show_int (pp_total p) @ codes ''`''"

definition portfolio_markdown :: "portfolio_report \<Rightarrow> ustring" where
  "portfolio_markdown r =
     join [10]
       ([codes ''# AI Agent Portfolio Eval'', [],
         codes (''Scope: deterministic fixture eval for regression, safety boundaries, and interview '' @
           ''discussion. These numbers are not online user-satisfaction or open-domain LLM quality claims.''), [],
         codes ''## Agent Runtime'', [], cases_line (po_agent r)] @
        map (labelled_rate (po_agent r))
          [(''Task success'', ''task_success_rate''), (''Route accuracy'', ''route_accuracy''),
           (''Loop completion'', ''loop_completion_rate''), (''Stop reason valid'', ''stop_reason_valid_rate''),
           (''Tool intent match'', ''tool_intent_match_rate''), (''Approval safety'', ''approval_safety_rate''),
           (''Citation coverage'', ''citation_coverage_rate''), (''Grounding check'', ''grounding_check_rate''),
           (''Unsupported-claim guard'', ''unsupported_claim_guard_rate''),
           (''Memory reflection precision'', ''memory_reflection_precision''),
           (''Max iteration compliance'', ''max_iteration_compliance_rate'')] @
        [[], codes ''## RAG Runtime'', [], cases_line (po_rag r)] @
        map (labelled_rate (po_rag r))
          [(''Rerank top-match rate'', ''rerank_top_match_rate''), (''Route match rate'', ''route_match_rate''),
           (''Graph expansion rate'', ''graph_expansion_rate''), (''Grounding pass rate'', ''grounding_pass_rate''),
           (''Sufficiency pass rate'', ''sufficiency_pass_rate''),
           (''Retrieval refinement success rate'', ''retrieval_refinement_success_rate'')] @
        [[], codes ''## Resume-Safe Wording'', [],
         codes (''- Built a deterministic eval harness for a Python FastAPI + LangGraph Agent '' @
           ''Runtime, covering task success, route accuracy, bounded-loop completion, '' @
           ''stop-reason validity, tool intent match, approval safety, citation coverage, '' @
           ''grounding, unsupported-claim guard, and memory reflection precision.''),
         codes (''- Built an Agentic RAG eval path covering route selection, multi-hop '' @
           ''retrieval/refinement, graph expansion, rerank ordering, context sufficiency, '' @
           ''and grounding checks.''), []])"

definition write_report :: "(rat \<Rightarrow> ustring) \<Rightarrow> portfolio_report \<Rightarrow> string \<Rightarrow> files \<Rightarrow> files" where
  "write_report fr r out_dir fs =
     fs(out_dir @ ''/portfolio-eval.json'' \<mapsto> json_indent fr 0 (report_json r) @ [10],
        out_dir @ ''/portfolio-eval.md'' \<mapsto> portfolio_markdown r)"

definition portfolio_exit :: "portfolio_report \<Rightarrow> int" where
  "portfolio_exit r =
     (if pp_passed (po_agent r) = pp_total (po_agent r) \<and> pp_passed (po_rag r) = pp_total (po_rag r) then 0 else 1)"

text \<open>\<open>main\<close>: an exception of the agent evaluation leaves it before anything is written.\<close>

definition portfolio_main ::
  "(rat \<Rightarrow> ustring) \<Rightarrow> ('e, eval_report) result \<Rightarrow> rag_eval_report \<Rightarrow> string \<Rightarrow> files
     \<Rightarrow> ('e, ustring \<times> int) result \<times> files" where
  "portfolio_main fr agent_result rag_report out_dir fs =
     (case agent_result of
        Inl e \<Rightarrow> (Inl e, fs)
      | Inr agent_report \<Rightarrow>
          (let r = build_report agent_report rag_report
           in (Inr (codes ''portfolio eval: agent '' @ show_int (pp_passed (po_agent r)) @ codes ''/'' @
                 show_int (pp_total (po_agent r)) @ codes '', rag '' @ show_int (pp_passed (po_rag r)) @ codes ''/'' @
                 show_int (pp_total (po_rag r)), portfolio_exit r),
               write_report fr r out_dir fs)))"

section \<open>The online evaluation\<close>

text \<open>The arguments of the command line; the database of runs exists or does not.\<close>

record online_args =
  oa_model_version :: string
  oa_baseline_version :: string
  oa_dataset_ref :: string
  oa_target_categories :: string

fun split_commas :: "string \<Rightarrow> string list" where
  "split_commas [] = [[]]"
| "split_commas (c # cs) =
     (if c = CHR '','' then [] # split_commas cs
      else (case split_commas cs of [] \<Rightarrow> [[c]] | w # ws \<Rightarrow> (c # w) # ws))"

definition all_categories :: "badcase_category list" where
  "all_categories =
     [RetrievalMiss, Hallucination, RouteError, ApprovalBypass, TimedOut, ReviewReject, UserDecline,
      UnsupportedMishandle, RuntimeFailure]"

definition parse_category :: "string \<Rightarrow> badcase_category option" where
  "parse_category v = List.find (\<lambda>c. category_value c = v) all_categories"

fun parse_categories :: "string list \<Rightarrow> badcase_category list option" where
  "parse_categories [] = Some []"
| "parse_categories (v # vs) =
     (case parse_category v of
        None \<Rightarrow> None | Some c \<Rightarrow> map_option ((#) c) (parse_categories vs))"

datatype 'e online_error = EvalFailed 'e | UnknownCategory

text \<open>\<open>f"{value:+.4f}"\<close>; a double's negative zero is not modelled.\<close>

definition show_signed4 :: "rat \<Rightarrow> ustring" where
  "show_signed4 x =
     (let n = nat (round_even (abs x * 10000))
      in (if x < 0 then [45] else [43]) @ show_nat (n div 10000) @ [46] @
         [48 + n div 1000 mod 10, 48 + n div 100 mod 10, 48 + n div 10 mod 10, 48 + n mod 10])"

definition online_lines :: "eval_run \<Rightarrow> ustring list" where
  "online_lines r =
     (codes (''model='' @ en_model_version r @ '' baseline='' @ en_baseline_version r @ '' improved='' @
        show_bool (en_improved r) @ '' passed='') @
      show_int (em_passed_cases (en_metrics r)) @ codes ''/'' @ show_int (em_total_cases (en_metrics r))) #
     map (\<lambda>(k, v). codes (''  delta '' @ k @ '': '') @ show_signed4 v) (en_delta_vs_baseline r)"

definition baseline_report :: "string \<Rightarrow> eval_store option \<Rightarrow> eval_report option" where
  "baseline_report version db =
     (case db of
        None \<Rightarrow> None
      | Some rows \<Rightarrow>
          map_option (\<lambda>latest. \<lparr>eo_runtime = ''python_langgraph'', eo_provider = ''rules'',
            eo_summary = en_metrics latest, eo_cases = []\<rparr>) (latest_for_version version rows))"

definition online_main ::
  "string \<Rightarrow> string \<Rightarrow> ('e, eval_report) result \<Rightarrow> online_args \<Rightarrow> eval_store option
     \<Rightarrow> ('e online_error, ustring list \<times> int) result \<times> eval_store option" where
  "online_main uid now candidate a db =
     (case candidate of
        Inl e \<Rightarrow> (Inl (EvalFailed e), db)
      | Inr report \<Rightarrow>
          (case parse_categories (filter (\<lambda>v. v \<noteq> '''') (split_commas (oa_target_categories a))) of
             None \<Rightarrow> (Inl UnknownCategory, db)
           | Some targets \<Rightarrow>
               (let r = build_eval_run uid now report (baseline_report (oa_baseline_version a) db) (oa_model_version a)
                      (oa_baseline_version a) (oa_dataset_ref a) ''golden'' targets
                in (Inr (online_lines r, 0), Some (save_run r (case db of None \<Rightarrow> [] | Some rows \<Rightarrow> rows))))))"

section \<open>The contracts\<close>

text \<open>
  \<open>model_json_schema\<close> of the class of a package, or \<^const>\<open>None\<close> when the package has no such class. Importing one
  package after the other under the same search path is left out.
\<close>

definition agent_contract_classes :: "string list" where
  "agent_contract_classes =
     [''MeetingBriefRequest'', ''MeetingBriefResponse'', ''TraceEvent'', ''Citation'', ''ToolProposal'', ''EvidencePack'',
      ''ContextSufficiency'', ''IntentRoute'', ''RouteDecision'', ''CriticResult'', ''AgentHarnessMetadata'',
      ''LoopBudget'', ''LoopSpec'', ''LoopStep'', ''LoopTrace'', ''GraphExpansion'', ''MemoryReflection'',
      ''RiskAssessment'', ''BadcaseRecord'', ''ChatMessage'', ''SFTSample'', ''ModelVersion'', ''EvalRun'']"

definition rag_contract_classes :: "string list" where
  "rag_contract_classes =
     [''RetrievalQueryRequest'', ''RetrievalQueryResponse'', ''RerankRequest'', ''RerankResponse'',
      ''AgenticRetrievalRequest'', ''AgenticRetrievalResponse'', ''GroundingCheckRequest'', ''GroundingCheckResponse'',
      ''RetrievalRoute'', ''GraphExpansion'']"

fun schema_for :: "(string \<Rightarrow> json option) \<Rightarrow> string list \<Rightarrow> json_object option" where
  "schema_for schema_of [] = Some []"
| "schema_for schema_of (name # names) =
     (case schema_of name of
        None \<Rightarrow> None | Some schema \<Rightarrow> map_option ((#) (name, schema)) (schema_for schema_of names))"

definition build_contracts :: "(string \<Rightarrow> string \<Rightarrow> json option) \<Rightarrow> (string \<times> json) list option" where
  "build_contracts schema_of =
     (case schema_for (schema_of ''allcallall_agent_runtime'') agent_contract_classes of
        None \<Rightarrow> None
      | Some agent \<Rightarrow>
          map_option (\<lambda>rag. [(''agent-runtime.schema.json'', JObj agent), (''rag-runtime.schema.json'', JObj rag)])
            (schema_for (schema_of ''allcallall_rag_runtime'') rag_contract_classes))"

text \<open>The schemas by file name; \<open>main --check\<close> compares, \<open>main\<close> writes.\<close>

definition render_contract :: "(rat \<Rightarrow> ustring) \<Rightarrow> json \<Rightarrow> ustring" where
  "render_contract fr schema = json_indent fr 0 schema @ [10]"

fun check_contracts :: "(rat \<Rightarrow> ustring) \<Rightarrow> (string \<times> json) list \<Rightarrow> files \<Rightarrow> string list" where
  "check_contracts fr [] fs = []"
| "check_contracts fr ((filename, schema) # cs) fs =
     (if fs filename \<noteq> Some (render_contract fr schema) then filename # check_contracts fr cs fs
      else check_contracts fr cs fs)"

definition write_contracts :: "(rat \<Rightarrow> ustring) \<Rightarrow> (string \<times> json) list \<Rightarrow> files \<Rightarrow> files" where
  "write_contracts fr cs fs = fold (\<lambda>(filename, schema) fs. fs(filename \<mapsto> render_contract fr schema)) cs fs"

definition contracts_main ::
  "(rat \<Rightarrow> ustring) \<Rightarrow> bool \<Rightarrow> (string \<times> json) list \<Rightarrow> files \<Rightarrow> (string list \<times> int) \<times> files" where
  "contracts_main fr check contracts fs =
     (if check
      then (let stale = check_contracts fr contracts fs in ((stale, if stale \<noteq> [] then 1 else 0), fs))
      else (([], 0), write_contracts fr contracts fs))"

section \<open>What the exit codes say\<close>

text \<open>The portfolio evaluation exits with 0 exactly if every case of both fixtures passed.\<close>

lemma agent_all_passed:
  "em_passed_cases (summarize_results rs) = em_total_cases (summarize_results rs) \<longleftrightarrow> list_all (\<lambda>r. el_passed r) rs"
  using filter_all_length [of el_passed rs] by (simp add: summarize_results_def eval_summary0_def)

theorem portfolio_exits_clean_iff_all_passed:
  "case run_agent_eval run provider_name mode cases w of
     (w', Inl e) \<Rightarrow> portfolio_main fr (Inl e) rag out fs = (Inl e, fs)
   | (w', Inr agent_report) \<Rightarrow>
       (\<exists>line. fst (portfolio_main fr (Inr agent_report :: ('e, eval_report) result)
            (run_eval sha log1p enable rag_cases) out fs) =
          Inr (line, if list_all (\<lambda>r. el_passed r) (eo_cases agent_report) \<and>
                        list_all (\<lambda>r. er_errors r = []) (map (run_case sha log1p enable) rag_cases)
                     then 0 else 1))"
proof (cases "run_agent_eval run provider_name mode cases w")
  case (Pair w' r)
  show ?thesis
  proof (cases r)
    case (Inl e)
    then show ?thesis using Pair by (simp add: portfolio_main_def)
  next
    case (Inr agent_report)
    then have s: "eo_summary agent_report = summarize_results (eo_cases agent_report)"
      using Pair by (auto simp: run_agent_eval_def and_then_eq_Inr split: prod.splits)
    have rag: "es_passed_cases (et_summary (run_eval sha log1p enable rag_cases)) =
          es_total_cases (et_summary (run_eval sha log1p enable rag_cases)) \<longleftrightarrow>
        list_all (\<lambda>r. er_errors r = []) (map (run_case sha log1p enable) rag_cases)"
      using exit_code_zero [of sha log1p enable rag_cases] by (simp add: exit_code_def list_all_iff split: if_splits)
    show ?thesis
      using Pair Inr by (simp add: portfolio_main_def Let_def portfolio_exit_def build_report_def s agent_all_passed rag)
  qed
qed

text \<open>Generated contracts pass the check, and a check never writes.\<close>

lemma write_contracts_other: "filename \<notin> fst ` set cs \<Longrightarrow> write_contracts fr cs fs filename = fs filename"
  unfolding write_contracts_def by (induction cs arbitrary: fs) auto

lemma write_contracts_Cons:
  "write_contracts fr ((filename, schema) # cs) fs = write_contracts fr cs (fs(filename \<mapsto> render_contract fr schema))"
  by (simp add: write_contracts_def)

lemma written_contract:
  "distinct (map fst cs) \<Longrightarrow> (filename, schema) \<in> set cs \<Longrightarrow>
     write_contracts fr cs fs filename = Some (render_contract fr schema)"
proof (induction cs arbitrary: fs)
  case (Cons c cs)
  then show ?case by (cases c) (auto simp: write_contracts_Cons write_contracts_other rev_image_eqI)
qed simp

lemma check_contracts_Nil:
  "check_contracts fr cs fs = [] \<longleftrightarrow> list_all (\<lambda>(filename, schema). fs filename = Some (render_contract fr schema)) cs"
  by (induction fr cs fs rule: check_contracts.induct) auto

theorem generated_contracts_pass_the_check:
  "case build_contracts schema_of of
     None \<Rightarrow> True
   | Some contracts \<Rightarrow>
       contracts_main fr True contracts (snd (contracts_main fr False contracts fs)) =
         (([], 0), snd (contracts_main fr False contracts fs))"
proof (cases "build_contracts schema_of")
  case (Some contracts)
  then have "distinct (map fst contracts)" by (auto simp: build_contracts_def split: option.splits)
  then have "check_contracts fr contracts (write_contracts fr contracts fs) = []"
    using written_contract [of contracts _ _ fr fs] by (auto simp: check_contracts_Nil list_all_iff)
  then show ?thesis using Some by (simp add: contracts_main_def)
qed simp

text \<open>
  The online evaluation exits with 0 once the run is stored, whether the candidate improved or not, and nothing
  counts as an improvement without a stored baseline; an unknown category stores nothing.
\<close>

lemma find_saved: "get_run (en_id r) (save_run r rows) = Some r"
proof -
  have "List.find (\<lambda>x. en_id x = i) (filter (\<lambda>x. en_id x \<noteq> i) xs @ [r]) = Some r" if "en_id r = i" for i xs
    using that by (induction xs) auto
  then show ?thesis by (simp add: get_run_def save_run_def)
qed

lemma built_run:
  "en_id (build_eval_run uid now c b m v d k t) = uid"
  "\<not> en_improved (build_eval_run uid now c None m v d k t)"
  by (simp_all add: build_eval_run_def split: prod.split)

theorem online_evaluation_never_gates:
  "case online_main uid now candidate a db of
     (Inl e, db') \<Rightarrow> db' = db
   | (Inr (lines, code), db') \<Rightarrow>
       code = 0 \<and> (\<exists>rows r. db' = Some rows \<and> get_run uid rows = Some r \<and>
         (baseline_report (oa_baseline_version a) db = None \<longrightarrow> \<not> en_improved r))"
proof (cases "online_main uid now candidate a db")
  case (Pair answer db')
  show ?thesis
  proof (cases answer)
    case (Inl e)
    then show ?thesis using Pair by (auto simp: online_main_def Let_def split: sum.splits option.splits)
  next
    case (Inr lc)
    obtain report targets where
      db': "db' = Some (save_run (build_eval_run uid now report (baseline_report (oa_baseline_version a) db)
        (oa_model_version a) (oa_baseline_version a) (oa_dataset_ref a) ''golden'' targets)
        (case db of None \<Rightarrow> [] | Some rows \<Rightarrow> rows))" and code: "snd lc = 0"
      using Pair Inr by (auto simp: online_main_def Let_def split: sum.splits option.splits)
    let ?r = "build_eval_run uid now report (baseline_report (oa_baseline_version a) db)
        (oa_model_version a) (oa_baseline_version a) (oa_dataset_ref a) ''golden'' targets"
    have "get_run uid (save_run ?r (case db of None \<Rightarrow> [] | Some rows \<Rightarrow> rows)) = Some ?r"
      using find_saved [of ?r] by (simp add: built_run)
    then show ?thesis using Pair Inr db' code by (cases lc) (auto simp: built_run)
  qed
qed

end
