(* ===== verification/LazyInit.thy ===== *)
theory LazyInit
  imports Interfaces
begin

text \<open>
  The process-wide objects of \<open>services/agent-runtime/allcallall_agent_runtime/orchestration/harness.py\<close> that are built
  on first use under a double-checked lock: \<open>_get_graph\<close>, \<open>get_harness\<close> and \<open>_get_invoke_executor\<close>, with what clears
  the latter two when the application stops. Every read, every acquisition of the lock and every assignment is a step
  of its own, so that any number of threads may interleave: \<open>Lifecycle\<close> takes the accessors as one step.
\<close>

section \<open>One accessor\<close>

text \<open>Where a thread is in the accessor; \<open>Got\<close> is the value it returned.\<close>

datatype 'o phase =
    Idle
  | FirstCheck
  | Wanting
  | SecondCheck
  | Creating
  | Leaving
  | LastRead
  | Got "'o option"

record 'o lazy_state =
  lz_slot :: "'o option"
  lz_owner :: "nat option"
  lz_made :: "'o list"
  lz_clears :: nat
  lz_phase :: "nat \<Rightarrow> 'o phase"

definition lazy_start :: "'o lazy_state" where
  "lazy_start = \<lparr>lz_slot = None, lz_owner = None, lz_made = [], lz_clears = 0, lz_phase = (\<lambda>i. Idle)\<rparr>"

definition goto :: "nat \<Rightarrow> 'o phase \<Rightarrow> 'o lazy_state \<Rightarrow> 'o lazy_state" where
  "goto i p s = s\<lparr>lz_phase := (lz_phase s)(i := p)\<rparr>"

text \<open>The \<open>k\<close>-th object that is built is \<open>factory k\<close>. The object is cleared under the lock.\<close>

inductive lazy_step :: "(nat \<Rightarrow> 'o) \<Rightarrow> 'o lazy_state \<Rightarrow> 'o lazy_state \<Rightarrow> bool" for factory where
  call: "lz_phase s i = Idle \<or> lz_phase s i = Got x \<Longrightarrow> lazy_step factory s (goto i FirstCheck s)"
| found: "lz_phase s i = FirstCheck \<Longrightarrow> lz_slot s = Some x \<Longrightarrow> lazy_step factory s (goto i LastRead s)"
| missed: "lz_phase s i = FirstCheck \<Longrightarrow> lz_slot s = None \<Longrightarrow> lazy_step factory s (goto i Wanting s)"
| acquire: "lz_phase s i = Wanting \<Longrightarrow> lz_owner s = None \<Longrightarrow>
    lazy_step factory s (goto i SecondCheck (s\<lparr>lz_owner := Some i\<rparr>))"
| found_inside: "lz_phase s i = SecondCheck \<Longrightarrow> lz_slot s = Some x \<Longrightarrow> lazy_step factory s (goto i Leaving s)"
| missed_inside: "lz_phase s i = SecondCheck \<Longrightarrow> lz_slot s = None \<Longrightarrow> lazy_step factory s (goto i Creating s)"
| create: "lz_phase s i = Creating \<Longrightarrow> x = factory (length (lz_made s)) \<Longrightarrow>
    lazy_step factory s (goto i Leaving (s\<lparr>lz_slot := Some x, lz_made := lz_made s @ [x]\<rparr>))"
| leave: "lz_phase s i = Leaving \<Longrightarrow> lazy_step factory s (goto i LastRead (s\<lparr>lz_owner := None\<rparr>))"
| answer: "lz_phase s i = LastRead \<Longrightarrow> lazy_step factory s (goto i (Got (lz_slot s)) s)"
| clear: "lz_owner s = None \<Longrightarrow> lazy_step factory s (s\<lparr>lz_slot := None, lz_clears := lz_clears s + 1\<rparr>)"

section \<open>Built once\<close>

definition inside :: "'o phase \<Rightarrow> bool" where
  "inside p \<longleftrightarrow> p = SecondCheck \<or> p = Creating \<or> p = Leaving"

lemma inside_simps [simp]:
  "\<not> inside Idle" "\<not> inside FirstCheck" "\<not> inside Wanting" "inside SecondCheck" "inside Creating" "inside Leaving"
  "\<not> inside LastRead" "\<not> inside (Got x)"
  by (simp_all add: inside_def)

definition owned :: "'o lazy_state \<Rightarrow> bool" where
  "owned s \<longleftrightarrow> (\<forall>i. inside (lz_phase s i) \<longleftrightarrow> lz_owner s = Some i)"

definition creates_missing :: "'o lazy_state \<Rightarrow> bool" where
  "creates_missing s \<longleftrightarrow> (\<forall>i. lz_phase s i = Creating \<longrightarrow> lz_slot s = None)"

definition counted :: "'o lazy_state \<Rightarrow> bool" where
  "counted s \<longleftrightarrow> length (lz_made s) \<le> lz_clears s + (if lz_slot s = None then 0 else 1)"

text \<open>What a thread knows while nothing was cleared: after its check the object is there.\<close>

fun knows :: "'o option \<Rightarrow> 'o \<Rightarrow> 'o phase \<Rightarrow> bool" where
  "knows slot x Leaving \<longleftrightarrow> slot = Some x"
| "knows slot x LastRead \<longleftrightarrow> slot = Some x"
| "knows slot x (Got y) \<longleftrightarrow> slot = Some x \<and> y = Some x"
| "knows slot x p \<longleftrightarrow> True"

definition known :: "(nat \<Rightarrow> 'o) \<Rightarrow> 'o lazy_state \<Rightarrow> bool" where
  "known factory s \<longleftrightarrow>
     (lz_clears s = 0 \<longrightarrow> (lz_slot s = None \<longrightarrow> lz_made s = []) \<and> (\<forall>x. lz_slot s = Some x \<longrightarrow> x = factory 0) \<and>
        (\<forall>i. knows (lz_slot s) (factory 0) (lz_phase s i)))"

lemma owned_goto:
  "owned s \<Longrightarrow> inside p \<longleftrightarrow> inside (lz_phase s i) \<Longrightarrow> lz_phase t = lz_phase s \<Longrightarrow> lz_owner t = lz_owner s \<Longrightarrow>
     owned (goto i p t)"
  unfolding owned_def goto_def by simp

lemma owned_acquire: "owned s \<Longrightarrow> lz_owner s = None \<Longrightarrow> inside p \<Longrightarrow> owned (goto i p (s\<lparr>lz_owner := Some i\<rparr>))"
  unfolding owned_def goto_def by simp

lemma owned_leave:
  "owned s \<Longrightarrow> inside (lz_phase s i) \<Longrightarrow> \<not> inside p \<Longrightarrow> owned (goto i p (s\<lparr>lz_owner := None\<rparr>))"
  unfolding owned_def goto_def by simp

lemma owned_step: "lazy_step factory s s' \<Longrightarrow> owned s \<Longrightarrow> owned s'"
proof (induction rule: lazy_step.induct)
  case (call s i x)
  then show ?case by (intro owned_goto [of s]) auto
next
  case (acquire s i)
  then show ?case by (intro owned_acquire) simp_all
next
  case (leave s i)
  then show ?case by (intro owned_leave) simp_all
next
  case (clear s)
  then show ?case by (simp add: owned_def)
qed (auto intro!: owned_goto)

lemma creates_missing_step: "lazy_step factory s s' \<Longrightarrow> owned s \<Longrightarrow> creates_missing s \<Longrightarrow> creates_missing s'"
proof (induction rule: lazy_step.induct)
  case (create s i x)
  then have "\<And>j. inside (lz_phase s j) \<Longrightarrow> j = i"
    unfolding owned_def by (metis inside_simps(5) option.inject)
  then show ?case by (auto simp: creates_missing_def goto_def inside_def)
next
  case (clear s)
  then show ?case by (auto simp: owned_def creates_missing_def)
qed (auto simp: creates_missing_def goto_def)

lemma counted_step: "lazy_step factory s s' \<Longrightarrow> creates_missing s \<Longrightarrow> counted s \<Longrightarrow> counted s'"
  by (induction rule: lazy_step.induct) (auto simp: counted_def creates_missing_def goto_def split: if_splits)

lemma knows_first: "knows None x p \<Longrightarrow> knows (Some x) x p"
  by (cases p) auto

lemma known_knows: "known factory s \<Longrightarrow> lz_clears s = 0 \<Longrightarrow> knows (lz_slot s) (factory 0) (lz_phase s i)"
  unfolding known_def by blast

lemma known_step: "lazy_step factory s s' \<Longrightarrow> creates_missing s \<Longrightarrow> known factory s \<Longrightarrow> known factory s'"
proof (induction rule: lazy_step.induct)
  case (create s i x)
  then have "lz_slot s = None" unfolding creates_missing_def by blast
  then show ?case using create by (auto simp: known_def goto_def intro: knows_first)
next
  case (leave s i)
  then show ?case using known_knows [of factory s i] by (auto simp: known_def goto_def)
next
  case (answer s i)
  then show ?case using known_knows [of factory s i] by (auto simp: known_def goto_def)
qed (auto simp: known_def goto_def)

text \<open>
  The lock is held by the one thread inside, which creates only while there is nothing. Between two clearings one
  object is built; without a clearing whoever looked has seen it.
\<close>

definition lazy_inv :: "(nat \<Rightarrow> 'o) \<Rightarrow> 'o lazy_state \<Rightarrow> bool" where
  "lazy_inv factory s \<longleftrightarrow> owned s \<and> creates_missing s \<and> counted s \<and> known factory s"

lemma lazy_inv_start: "lazy_inv factory lazy_start"
  by (simp add: lazy_inv_def owned_def creates_missing_def counted_def known_def lazy_start_def)

lemma lazy_inv_step: "lazy_step factory s s' \<Longrightarrow> lazy_inv factory s \<Longrightarrow> lazy_inv factory s'"
  unfolding lazy_inv_def using owned_step creates_missing_step counted_step known_step by blast

interpretation lazy: safe_system "\<lambda>s. s = lazy_start" "lazy_step factory" "lazy_inv factory" for factory
  by unfold_locales (auto intro: lazy_inv_start lazy_inv_step)

text \<open>
  The compiled graph is never cleared: however many threads ask for it first, it is built once and all of them get
  the same one. The harness and the executor are built at most once more than they were cleared.
\<close>

theorem lazy_object_is_built_once:
  assumes "(lazy_step factory)\<^sup>*\<^sup>* lazy_start s"
  shows "length (lz_made s) \<le> lz_clears s + 1"
    and "lz_clears s = 0 \<Longrightarrow> lz_phase s i = Got x \<Longrightarrow> x = Some (factory 0)"
proof -
  have inv: "counted s" "known factory s" using lazy.reachable_inv [OF HOL.refl assms] by (simp_all add: lazy_inv_def)
  from inv(1) show "length (lz_made s) \<le> lz_clears s + 1" by (simp add: counted_def split: if_splits)
  assume "lz_clears s = 0" and "lz_phase s i = Got x"
  then have "knows (lz_slot s) (factory 0) (Got x)" using known_knows [OF inv(2), of i] by simp
  then show "x = Some (factory 0)" by simp
qed

text \<open>The last read is outside the lock: a thread that finds the object may return \<open>None\<close> when it is cleared meanwhile.\<close>

theorem cleared_object_can_be_missed:
  "\<exists>s. (lazy_step factory)\<^sup>*\<^sup>* lazy_start s \<and> lz_phase s 0 = Got None"
proof -
  let ?s1 = "goto 0 FirstCheck lazy_start"
  let ?s2 = "goto 0 Wanting ?s1"
  let ?s3 = "goto 0 SecondCheck (?s2\<lparr>lz_owner := Some 0\<rparr>)"
  let ?s4 = "goto 0 Creating ?s3"
  let ?s5 = "goto 0 Leaving (?s4\<lparr>lz_slot := Some (factory 0), lz_made := lz_made ?s4 @ [factory 0]\<rparr>)"
  let ?s6 = "goto 0 LastRead (?s5\<lparr>lz_owner := None\<rparr>)"
  let ?s7 = "?s6\<lparr>lz_slot := None, lz_clears := lz_clears ?s6 + 1\<rparr>"
  let ?s8 = "goto 0 (Got (lz_slot ?s7)) ?s7"
  have "lazy_step factory lazy_start ?s1" by (rule lazy_step.call) (simp add: lazy_start_def)
  moreover have "lazy_step factory ?s1 ?s2" by (rule lazy_step.missed) (simp_all add: goto_def lazy_start_def)
  moreover have "lazy_step factory ?s2 ?s3" by (rule lazy_step.acquire) (simp_all add: goto_def lazy_start_def)
  moreover have "lazy_step factory ?s3 ?s4" by (rule lazy_step.missed_inside) (simp_all add: goto_def lazy_start_def)
  moreover have "lazy_step factory ?s4 ?s5" by (rule lazy_step.create) (simp_all add: goto_def lazy_start_def)
  moreover have "lazy_step factory ?s5 ?s6" by (rule lazy_step.leave) (simp add: goto_def)
  moreover have "lazy_step factory ?s6 ?s7" by (rule lazy_step.clear) (simp add: goto_def)
  moreover have "lazy_step factory ?s7 ?s8" by (rule lazy_step.answer) (simp add: goto_def)
  ultimately have "(lazy_step factory)\<^sup>*\<^sup>* lazy_start ?s8"
    by (meson converse_rtranclp_into_rtranclp rtranclp.rtrancl_refl)
  then show ?thesis by (intro exI [of _ ?s8]) (simp add: goto_def)
qed

end
