(* ===== verification/RunArchive.thy ===== *)
theory RunArchive
  imports Badcase GraphRun
begin

text \<open>
  Archiving the runs that went wrong: \<open>run_workflow\<close> of \<open>orchestration/harness.py\<close> with \<open>_capture_badcase\<close>, which every
  path that ends in a response calls once, over the graph of \<open>GraphRun\<close> and the store of \<open>Badcase\<close>.
\<close>

section \<open>Running and capturing\<close>

text \<open>The request the response is made for: with its preset normalised, and with the memories once they are read.\<close>

definition run_request :: "harness_env \<Rightarrow> workflow_request \<Rightarrow> workflow_request" where
  "run_request env rq0 =
     (let rq = rq0\<lparr>rq_preset := normalize_workflow_preset (rq_preset rq0)\<rparr>;
          memory = resolve_long_term_memory env rq
      in if rq_preset rq \<in> set supported_workflows \<and> he_provider env \<in> range Inr \<and> memory \<noteq> []
         then rq\<lparr>rq_long_term_memory := memory\<rparr> else rq)"

text \<open>
  \<open>run_workflow\<close> with its archive: a run that raises has no response and captures nothing. \<^term>\<open>database_ok\<close> says
  whether the database takes the row.
\<close>

definition run_and_capture ::
  "bool \<Rightarrow> bool \<Rightarrow> string \<Rightarrow> string \<Rightarrow> harness_env \<Rightarrow> 'g graph_ops \<Rightarrow> ('s, json_object) store_ops \<Rightarrow> workflow_request
     \<Rightarrow> ('g \<times> 's) \<times> badcase_store \<Rightarrow> (('g \<times> 's) \<times> badcase_store) \<times> (harness_error, workflow_response) result" where
  "run_and_capture enabled database_ok uid now env gops qops rq st =
     (case run_workflow env gops qops rq (fst st) of
        (gs, Inl e) \<Rightarrow> ((gs, snd st), Inl e)
      | (gs, Inr r) \<Rightarrow>
          ((gs, capture_badcase enabled database_ok uid now (run_request env rq) r (snd st)), Inr r))"

section \<open>Which runs are archived\<close>

text \<open>Where the responses come from: a failure, or a finished run of the graph.\<close>

definition ended_in_error :: "harness_env \<Rightarrow> workflow_response \<Rightarrow> bool" where
  "ended_in_error env r \<longleftrightarrow> (\<exists>rq pn err events. r = failed_run env rq pn err events)"

definition ended_in_graph :: "harness_env \<Rightarrow> 'g graph_ops \<Rightarrow> world \<Rightarrow> workflow_response \<Rightarrow> bool" where
  "ended_in_graph env gops w r \<longleftrightarrow>
     (\<exists>rq trace skill memory s pn g. s \<in> finished_states w (run_start rq trace skill memory) \<and>
        finish_run env gops rq pn s g = Inr r)"

lemma ended_in_error: "ended_in_error env (failed_run env rq pn err events)"
  "ended_in_error env (cancelled_run env rq pn reason)" "ended_in_error env (provider_failed_run env rq pn f)"
  unfolding ended_in_error_def cancelled_run_def provider_failed_run_def by blast+

lemma ended_in_graph:
  "graph_invocation limit w (initial_state rq trace skill memory) = GraphReturned s \<Longrightarrow>
     finish_run env gops rq pn s g = Inr r \<Longrightarrow> ended_in_graph env gops w r"
  unfolding ended_in_graph_def using invocation_finished by blast

lemma invoke_with_graph: "g_invoke (with_graph limit w save gops) s cfg g = (save s cfg g, graph_invocation limit w s)"
  by (simp add: with_graph_def)

lemma run_workflow_response:
  assumes "run_workflow env (with_graph limit w save gops) qops rq gs = (gs', Inr r)"
  shows "ended_in_error env r \<or> ended_in_graph env (with_graph limit w save gops) w r"
  using assms
  by (auto simp: run_workflow_def invoke_with_graph Let_def ended_in_error intro: ended_in_graph
      split: sum.splits prod.splits invocation.splits if_splits)

lemma failed_response: "rs_status (failed_run env rq pn err events) = RunFailed" "rs_error (failed_run env rq pn err events) = err"
  by (simp_all add: failed_run_def failure_response_def Let_def)

text \<open>How a response is classified.\<close>

definition run_category :: "workflow_response \<Rightarrow> badcase_category option" where
  "run_category r =
     (if rs_status r = RunFailed
      then Some (if error_mentions (rs_error r) ''timeout'' \<or> error_mentions (rs_error r) ''exceeded''
                 then TimedOut else RuntimeFailure)
      else if verdict_of r \<in> {''reject'', ''escalate''} then Some ReviewReject
      else if rs_stop_reason r = ''grounding_failed'' then Some RetrievalMiss
      else None)"

lemma response_signals:
  assumes "run_workflow env (with_graph limit w save gops) qops rq gs = (gs', Inr r)"
  shows "map_option fst (badcase_signals r) = run_category r"
proof -
  from run_workflow_response [OF assms] consider
      (failed) rq' pn err events where "r = failed_run env rq' pn err events"
    | (finished) rq' trace skill memory s pn g where "s \<in> finished_states w (run_start rq' trace skill memory)"
        "finish_run env (with_graph limit w save gops) rq' pn s g = Inr r"
    unfolding ended_in_error_def ended_in_graph_def by blast
  then show ?thesis
  proof cases
    case failed
    then show ?thesis by (simp add: failed_run_signals run_category_def failed_response)
  next
    case finished
    note quiet = finished_run_quiet [OF finished(2)]
    note q = quiet_signals [OF offer_approved [OF finish_run_offer [OF finished(2) run_reaches_gated [OF finished(1)]]] quiet]
    show ?thesis using quiet(2) unfolding q run_category_def by simp
  qed
qed

lemma captured_record:
  assumes "map_option fst (badcase_signals r) = Some c"
  shows "\<exists>b. capture_badcase True True uid now rq r rows = filter (\<lambda>x. bw_id x \<noteq> uid) rows @ [row_of b] \<and>
    bc_id b = uid \<and> bc_category b = c \<and> bc_severity b = severity_by_category c \<and> bc_status b = CaseOpen \<and>
    bc_request b = rq \<and> bc_response b = r"
  using assms by (auto simp: capture_badcase_def classify_badcase_def save_badcase_def)

text \<open>
  C34: the harness archives the runs that went wrong and no others, and only when capturing is switched on and the
  database takes the row. A run that ends in an error response is archived as a timeout when the error says so and
  as a runtime failure otherwise; a finished run of the graph is archived exactly when the checks rejected or
  escalated it (as a review case) or its grounding failed (as a retrieval case), never as an approval bypass. The
  archive gains one open row with the request and the response and loses none but one with the same id. A run that
  raises archives nothing.
\<close>

theorem only_failed_runs_are_archived:
  "case run_and_capture enabled database_ok uid now env (with_graph limit w save gops) qops rq (gs, rows) of
     ((gs', rows'), Inl e) \<Rightarrow> rows' = rows
   | ((gs', rows'), Inr r) \<Rightarrow>
       (case (if enabled \<and> database_ok then
                if rs_status r = RunFailed
                then Some (if error_mentions (rs_error r) ''timeout'' \<or> error_mentions (rs_error r) ''exceeded''
                           then TimedOut else RuntimeFailure)
                else if verdict_of r \<in> {''reject'', ''escalate''} then Some ReviewReject
                else if rs_stop_reason r = ''grounding_failed'' then Some RetrievalMiss
                else None
              else None) of
          None \<Rightarrow> rows' = rows
        | Some c \<Rightarrow> \<exists>b. rows' = filter (\<lambda>x. bw_id x \<noteq> uid) rows @ [row_of b] \<and>
            bc_id b = uid \<and> bc_category b = c \<and> bc_severity b = severity_by_category c \<and> bc_status b = CaseOpen \<and>
            bc_request b = run_request env rq \<and> bc_response b = r)"
proof -
  obtain gs' q where q: "run_workflow env (with_graph limit w save gops) qops rq gs = (gs', q)"
    by (cases "run_workflow env (with_graph limit w save gops) qops rq gs")
  show ?thesis
  proof (cases q)
    case (Inl e)
    then show ?thesis by (simp add: run_and_capture_def q)
  next
    case (Inr r)
    have sig: "map_option fst (badcase_signals r) = run_category r"
      using response_signals q Inr by blast
    have kept: "capture_badcase enabled database_ok uid now (run_request env rq) r rows = rows"
      if "(if enabled \<and> database_ok then run_category r else None) = None"
      using that sig by (auto simp: capture_badcase_def classify_badcase_def split: if_splits option.splits)
    have gained: "\<exists>b. capture_badcase enabled database_ok uid now (run_request env rq) r rows
        = filter (\<lambda>x. bw_id x \<noteq> uid) rows @ [row_of b] \<and> bc_id b = uid \<and> bc_category b = c \<and>
        bc_severity b = severity_by_category c \<and> bc_status b = CaseOpen \<and> bc_request b = run_request env rq \<and>
        bc_response b = r"
      if "(if enabled \<and> database_ok then run_category r else None) = Some c" for c
      using that captured_record [of r c uid now "run_request env rq" rows] sig by (auto split: if_splits)
    have "run_and_capture enabled database_ok uid now env (with_graph limit w save gops) qops rq (gs, rows) =
        ((gs', capture_badcase enabled database_ok uid now (run_request env rq) r rows), Inr r)"
      by (simp add: run_and_capture_def q Inr)
    then show ?thesis
      unfolding run_category_def [symmetric]
      using kept gained
      by (cases "if enabled \<and> database_ok then run_category r else None") simp_all
  qed
qed

end
