(* ===== verification/Spec2Isabelle.thy ===== *)
theory Spec2Isabelle
  imports WorkflowGraph AdmissionThreads ToolQueueRuns Retry Compression McpRunner CheckpointReads
    CheckpointBackends ConnectionPool Api RagEval Evaluation WriteDelivery ToolCatalog Providers Operations
    Lifecycle SdkClient ExecutionLock LongTermMemory LexicalBaseline TicketServer DocsCheck OutboundHttp RunnerApi
    SharedHelpers Scripts LazyInit RunLiveness RunArchive
begin

text \<open>
  A model of the AllCallAll agent runtime: the Python services that run an agent workflow for the Go backend.
  Paths below are relative to \<open>src/services/agent-runtime/allcallall_agent_runtime/\<close> unless they say otherwise.

  \<^bold>\<open>How the program works, and where each part is modelled.\<close>
  A request reaches the HTTP API with a deadline, waits for admission, and is run by the harness: the workflow graph
  collects context, retrieves evidence in bounded loops, lets several roles work on it, checks the draft in two tiers
  and proposes writes that a human has to approve. Checkpoints make a run durable, an answer resumes it, and approved
  writes go through a queue with leases to the Go backend. Every theory opens with what it models; in the order of
  the calls they are:

  \<^item> The ground: \<open>Prelude\<close> (results that may raise, deduplication, stable sorting, slices), \<open>Text\<close> (Python's text
    operations on code points, JSON values), \<open>Json\<close> (\<open>json.dumps\<close> and UTF-8), \<open>Interfaces\<close> (the locales
    \<open>safe_system\<close>, \<open>ranked_system\<close> and \<open>codec\<close>), \<open>AgentModels\<close> (\<open>models/\<close> and \<open>state.py\<close> as records and datatypes).
  \<^item> Time: \<open>Deadline\<close> (\<open>deadline.py\<close>: the execution deadline, cancellation points, the shared retry budget) and
    \<open>Retry\<close> (\<open>retry.py\<close>, both variants, as a loop over an environment that says what each call, sleep and clock
    reading gives).
  \<^item> Admission: \<open>Admission\<close> (\<open>admission.py\<close>, one definition per method) and \<open>AdmissionThreads\<close> (the threads that
    call it, as a step relation at the granularity of the lock).
  \<^item> The graph: \<open>Helpers\<close>, \<open>Rerank\<close>, \<open>RetrievalNodes\<close>, \<open>EvidenceNodes\<close>, \<open>SearchLoop\<close>, \<open>SynthesisNodes\<close>,
    \<open>ContextNodes\<close>, \<open>ParallelRoles\<close>, \<open>Review\<close> and \<open>Compression\<close> hold the nodes (\<open>nodes/\<close>, \<open>helpers.py\<close>,
    \<open>retrieval.py\<close>, \<open>grounding.py\<close>, \<open>context_compression.py\<close>), each a function from the graph state to its update;
    \<open>WorkflowGraph\<close> (\<open>dag.py\<close>) is the transition relation that runs them along the edges.
  \<^item> The harness: \<open>Projection\<close> (what a response reports of a finished graph), \<open>Harness\<close> (\<open>run_workflow\<close>, the handing
    over of writes), \<open>GraphRun\<close> (the graph executed step by step under the harness), \<open>RunLiveness\<close> (a run that nothing
    disturbs is answered), \<open>Resume\<close> (\<open>resume_workflow\<close> against the durable state), \<open>Invocation\<close> (the worker pool,
    timeout, cancelled futures and the grace period), \<open>Api\<close> and \<open>Endpoints\<close> (the HTTP endpoints around them), \<open>Lifecycle\<close> (start-up and teardown of
    the application, \<open>api/app.py\<close>) with \<open>LazyInit\<close> (its objects built on first use, thread step by thread step);
    \<open>SkillRegistry\<close> (\<open>skill_registry.py\<close>).
  \<^item> Durability: \<open>CheckpointPayload\<close>, \<open>CheckpointTables\<close>, \<open>CheckpointSaver\<close>, \<open>CheckpointRuns\<close>, \<open>CheckpointReads\<close>
    (the MySQL saver: tables, transaction buffers, any interleaving of its users, reads through a transaction),
    \<open>CheckpointBackends\<close> (the SQLite saver and the listings), \<open>ConnectionPool\<close> (\<open>persistence/mysql_pool.py\<close>) and
    \<open>ExecutionLock\<close> (the saver's named lock on a pooled connection); \<open>LongTermMemory\<close> (the SQLite memory and the protocol
    \<open>long_term_memory\<close> both memories satisfy).
  \<^item> Writes and services: \<open>ToolQueue\<close> and \<open>ToolQueueRuns\<close> (\<open>async_tool_queue.py\<close> over the locale \<open>task_store\<close>),
    \<open>ServiceClients\<close> (\<open>tool_bridge.py\<close>, \<open>tool_layer.py\<close>, \<open>rag_runtime_client.py\<close>), \<open>WriteDelivery\<close> (the queue's
    worker posting to the Go backend), \<open>ToolCatalog\<close> (\<open>mcp_tools.py\<close>), \<open>Providers\<close> (\<open>providers/\<close>, \<open>prompts/\<close>) and
    \<open>Operations\<close> (\<open>api_auth.py\<close>, \<open>config.py\<close>, \<open>factory.py\<close>, \<open>clients.py\<close>, \<open>metrics.py\<close>); \<open>OutboundHttp\<close>
    (\<open>http_requests.py\<close> of both runtimes: no request carries a cookie, in any interleaving).
  \<^item> The other services: \<open>RagRetrieval\<close>, \<open>RagRuntime\<close>, \<open>RagEval\<close> (\<open>services/rag-runtime\<close>) with
    \<open>SharedHelpers\<close> (\<open>packages/shared\<close>), \<open>RunnerSecurity\<close>, \<open>Transport\<close>, \<open>McpRunner\<close> and \<open>RunnerApi\<close>
    (\<open>services/sandbox-runner\<close>), \<open>TicketServer\<close> (\<open>services/reference-mcp\<close>), \<open>SdkClient\<close> (\<open>packages/sdk\<close>),
    \<open>DocsCheck\<close> (\<open>scripts/check_docs.py\<close>) and \<open>Scripts\<close> (the evaluation and contract scripts).
  \<^item> Learning from failures: \<open>Badcase\<close> (\<open>badcase.py\<close>, \<open>sft_dataset.py\<close>), \<open>RunArchive\<close> (the runs the harness archives) and \<open>Evaluation\<close> (\<open>eval_runner.py\<close>,
    \<open>engineering_harness.py\<close>, \<open>online_eval.py\<close>), with \<open>LexicalBaseline\<close> (\<open>llamaindex_adapter.py\<close>).

  \<^bold>\<open>How code becomes definitions.\<close>
  A class or Pydantic model is a record, an enumeration or a union a datatype, a method a function that takes the state
  and returns it updated. An exception is \<^const>\<open>Inl\<close> of the component's error type. Strings that are only compared are
  HOL strings; text whose characters are inspected is a list of code points. A dictionary is a map or an association
  list, in insertion order where the order is visible. Python's \<open>int\<close> is \<^typ>\<open>int\<close>, its \<open>float\<close> an exact rational.
  Threads, processes and database transactions are step relations whose steps are the atomic sections of the code;
  their invariants are proved through \<open>safe_system\<close>, and the properties quantify over every interleaving.
  What the code only calls (httpx, LangGraph's scheduling, Pydantic, SQL engines, DNS, hash functions, clocks, random
  numbers) is an argument of the definitions that use it.

  \<^bold>\<open>What the lemmas show.\<close>
  Safety of the writes: whatever the model proposes, only approval-gated writes leave the graph, an answer is accepted
  exactly when it matches the pending request, a queued write is claimed by one worker at a time and posted at most as
  often as it has attempts. Bounds: the graph, its loops, the retries, the admitted runs, the connections and the time
  a caller waits; and a run that nothing disturbs is answered. Durability: the checkpoint tables stay consistent, commits are isolated, reads through a transaction
  agree with what is committed, both backends agree. Isolation of untrusted code: the sandbox runner reaches public
  addresses only and returns no secret. Resources: a lifespan gives back what it takes, a ticket is created once for
  each key, a memory is the map of what was stored. Contracts of the pure parts: review decisions, merging of parallel roles,
  framing, ranking, skill levels, labels and samples. Where the code misses its aim, the theorem states what it does:
  a waiter that times out can leak its slot, crashed workers block their rate-limit key, failed connects exhaust the
  pool, hung graphs starve admitted requests, refining a query never changes the selection, a provider that cannot be
  created leaves its HTTP pool open.

  \<^bold>\<open>Bounds and termination.\<close>
  Loops over data are structural recursion, bounded loops recurse on the steps that are left, and the two loops that
  could run on (the retry loop and the graph) have a measure: attempts left, and the rank of \<open>ranked_system\<close>, which
  gives at most 23 node executions and 8 for each quality retry. The only definition with a bound on its steps is
  \<open>graph_run\<close>; the bound is LangGraph's recursion limit, an argument, and \<open>enough_steps\<close> and \<open>undisturbed_run_returns\<close> show
  that a limit of at least 23 and 8 for each quality retry is never reached.

  \<^bold>\<open>Not modelled.\<close>
  Rounding of floats; case tables beyond Latin-1 and CJK; object keys of JSON beyond 8-bit characters; LangGraph's and
  FastAPI's own machinery, among it the channels LangGraph keeps of an earlier run on the same durable thread; the SQL
  engines beyond the statements the code runs (LIKE on NUL characters and over-long patterns among the rest); the
  deletion of a checkpoint thread that an open transaction has read, which breaks the transaction's comparison of
  versions; the connections a checkpoint store keeps for itself; Prometheus metrics no result depends on; parsing of command lines and the
  encoding of files; the test stub of the tool layer and data classes of the SDK that restate the runtime's models.
\<close>

end
